(* ===== verification/Prelude.thy ===== *)
theory Prelude
  imports Main "HOL-Library.Word"
begin

text \<open>
  Generic material for the b1gMailServer development: characters and C strings, the parts of
  the C and C++ standard library that the sources call (\<open>strcasecmp\<close>, \<open>strstr\<close>, \<open>atoi\<close>,
  \<open>sscanf\<close> with \<open>%s\<close> and \<open>%d\<close>, \<open>fgets\<close>, \<open>std::string::find\<close>), the decimal and
  hexadecimal printing of \<open>printf\<close>, and the lemmas on lists that the components share.
  A C string is a \<open>string\<close> (a list of bytes) without its terminating NUL.
\<close>

named_theorems frame_simps "fields that an operation leaves unchanged"
named_theorems keep_intros "operations that keep a component's invariant"

unbundle bit_operations_syntax

section \<open>Machine integers\<close>

text \<open>A C \<open>int\<close> is read as an integer; conversions that may lose bits go through these.\<close>

definition to_int32 :: "int \<Rightarrow> int" where
  "to_int32 n = (n + 2 ^ 31) mod 2 ^ 32 - 2 ^ 31"

definition clamp64 :: "int \<Rightarrow> int" where
  "clamp64 n = max (- (2 ^ 63)) (min (2 ^ 63 - 1) n)"

lemma to_int32_id [simp]: "- (2 ^ 31) \<le> n \<Longrightarrow> n < 2 ^ 31 \<Longrightarrow> to_int32 n = n"
  by (simp add: to_int32_def)

lemma clamp64_id [simp]: "- (2 ^ 63) \<le> n \<Longrightarrow> n < 2 ^ 63 \<Longrightarrow> clamp64 n = n"
  by (simp add: clamp64_def)

lemma to_int32_bounds: "- (2 ^ 31) \<le> to_int32 n \<and> to_int32 n < 2 ^ 31"
  by (simp add: to_int32_def)

section \<open>Characters\<close>

abbreviation "NL \<equiv> CHR 0x0A"
abbreviation "CR \<equiv> CHR 0x0D"
abbreviation "TAB \<equiv> CHR 0x09"
abbreviation "NUL \<equiv> CHR 0x00"
abbreviation "BACKSLASH \<equiv> CHR 0x5C"
abbreviation "DQUOTE \<equiv> CHR 0x22"
abbreviation "CRLF \<equiv> [CR, NL]"

definition code :: "char \<Rightarrow> nat" where
  "code c = of_char c"

lemma code_inj [simp]: "code a = code b \<longleftrightarrow> a = b"
  by (simp add: code_def)

lemma code_less_256: "code c < 256"
  by (simp add: code_def)

lemma code_char_of [simp]: "n < 256 \<Longrightarrow> code (char_of n) = n"
  by (simp add: code_def)

lemma char_of_code [simp]: "char_of (code c) = c"
  by (simp add: code_def)

definition is_space :: "char \<Rightarrow> bool" where
  "is_space c \<longleftrightarrow> (9 \<le> code c \<and> code c \<le> 13) \<or> code c = 32"

definition is_digit :: "char \<Rightarrow> bool" where
  "is_digit c \<longleftrightarrow> 48 \<le> code c \<and> code c \<le> 57"

definition is_upper :: "char \<Rightarrow> bool" where
  "is_upper c \<longleftrightarrow> 65 \<le> code c \<and> code c \<le> 90"

definition is_lower :: "char \<Rightarrow> bool" where
  "is_lower c \<longleftrightarrow> 97 \<le> code c \<and> code c \<le> 122"

definition c_tolower :: "char \<Rightarrow> char" where
  "c_tolower c = (if is_upper c then char_of (code c + 32) else c)"

definition c_toupper :: "char \<Rightarrow> char" where
  "c_toupper c = (if is_lower c then char_of (code c - 32) else c)"

lemma c_tolower_idem [simp]: "c_tolower (c_tolower c) = c_tolower c"
  by (simp add: c_tolower_def is_upper_def)

definition strcaseeq :: "string \<Rightarrow> string \<Rightarrow> bool" where
  "strcaseeq a b \<longleftrightarrow> map c_tolower a = map c_tolower b"

lemma strcaseeq_refl [simp]: "strcaseeq a a"
  by (simp add: strcaseeq_def)

lemma strcaseeq_sym: "strcaseeq a b = strcaseeq b a"
  by (auto simp: strcaseeq_def)

lemma strcaseeq_trans: "strcaseeq a b \<Longrightarrow> strcaseeq b c \<Longrightarrow> strcaseeq a c"
  by (simp add: strcaseeq_def)

lemma strcaseeq_length: "strcaseeq a b \<Longrightarrow> length a = length b"
  unfolding strcaseeq_def by (metis length_map)

section \<open>Searching and cutting strings\<close>

fun find_pos :: "(char \<Rightarrow> bool) \<Rightarrow> string \<Rightarrow> nat option" where
  "find_pos p [] = None"
| "find_pos p (c # cs) = (if p c then Some 0 else map_option Suc (find_pos p cs))"

abbreviation find_chr :: "char \<Rightarrow> string \<Rightarrow> nat option" where
  "find_chr c \<equiv> find_pos (\<lambda>x. x = c)"

fun find_sub :: "string \<Rightarrow> string \<Rightarrow> nat option" where
  "find_sub p [] = (if p = [] then Some 0 else None)"
| "find_sub p (c # cs) =
     (if take (length p) (c # cs) = p then Some 0 else map_option Suc (find_sub p cs))"

definition starts_with :: "string \<Rightarrow> string \<Rightarrow> bool" where
  "starts_with p s \<longleftrightarrow> take (length p) s = p"

definition starts_with_case :: "string \<Rightarrow> string \<Rightarrow> bool" where
  "starts_with_case p s \<longleftrightarrow> length p \<le> length s \<and> strcaseeq (take (length p) s) p"

definition substr :: "string \<Rightarrow> nat \<Rightarrow> nat \<Rightarrow> string" where
  "substr s pos len = take len (drop pos s)"

definition cstr :: "string \<Rightarrow> string" where
  "cstr s = takeWhile (\<lambda>c. c \<noteq> NUL) s"

lemma find_pos_Some:
  "find_pos p s = Some i \<Longrightarrow> i < length s \<and> p (s ! i) \<and> (\<forall>c \<in> set (take i s). \<not> p c)"
  by (induction s arbitrary: i) (auto split: if_splits)

lemma find_pos_None: "find_pos p s = None \<longleftrightarrow> (\<forall>c \<in> set s. \<not> p c)"
  by (induction s) auto

lemma find_sub_Some:
  "find_sub p s = Some i \<Longrightarrow> i + length p \<le> length s \<and> take (length p) (drop i s) = p"
proof (induction s arbitrary: i)
  case Nil
  then show ?case by (simp split: if_splits)
next
  case (Cons c cs)
  show ?case
  proof (cases "take (length p) (c # cs) = p")
    case True
    then have "length p \<le> length (c # cs)"
      by (metis length_take min.cobounded1)
    with True Cons.prems show ?thesis by auto
  next
    case False
    with Cons show ?thesis by auto
  qed
qed

lemma cstr_no_nul: "NUL \<notin> set (cstr s)"
  by (auto simp: cstr_def dest: set_takeWhileD)

lemma cstr_id [simp]: "NUL \<notin> set s \<Longrightarrow> cstr s = s"
  unfolding cstr_def by (rule takeWhile_eq_all_conv [THEN iffD2]) auto

lemma cstr_append_nul [simp]: "NUL \<notin> set s \<Longrightarrow> cstr (s @ NUL # t) = s"
  unfolding cstr_def by (rule takeWhile_tail [THEN trans]) (auto simp: takeWhile_eq_all_conv)

section \<open>Numbers: \<open>atoi\<close>, \<open>sscanf\<close>, \<open>printf\<close>\<close>

definition digit_val :: "char \<Rightarrow> nat" where
  "digit_val c = code c - 48"

definition digits_val :: "string \<Rightarrow> nat" where
  "digits_val ds = foldl (\<lambda>a c. 10 * a + digit_val c) 0 ds"

text \<open>
  The number at the start of a string as \<open>strtol\<close> reads it: white space, a sign, digits.
  \<open>None\<close> when there is no digit. \<open>sscanf("%d")\<close> of glibc and \<open>atoi\<close> both read a
  \<open>long\<close> that saturates and keep its low 32 bits.
\<close>

definition split_sign :: "string \<Rightarrow> bool \<times> string" where
  "split_sign s = (case s of
     [] \<Rightarrow> (False, [])
   | c # cs \<Rightarrow> if c = CHR ''-'' then (True, cs) else if c = CHR ''+'' then (False, cs)
              else (False, s))"

definition scan_int :: "string \<Rightarrow> (int \<times> string) option" where
  "scan_int s =
     (let (neg, t) = split_sign (dropWhile is_space s);
          ds = takeWhile is_digit t
      in if ds = [] then None
         else let n = int (digits_val ds)
              in Some (to_int32 (clamp64 (if neg then - n else n)), drop (length ds) t))"

definition atoi :: "string \<Rightarrow> int" where
  "atoi s = (case scan_int s of None \<Rightarrow> 0 | Some (n, _) \<Rightarrow> n)"

definition scan_str :: "nat \<Rightarrow> string \<Rightarrow> (string \<times> string) option" where
  "scan_str w s =
     (let t = dropWhile is_space s;
          tok = take w (takeWhile (\<lambda>c. \<not> is_space c) t)
      in if tok = [] then None else Some (tok, drop (length tok) t))"

definition scan_word :: "string \<Rightarrow> (string \<times> string) option" where
  "scan_word s = scan_str (length s) s"

definition digit_char :: "nat \<Rightarrow> char" where
  "digit_char n = char_of (48 + n)"

fun show_nat :: "nat \<Rightarrow> string" where
  "show_nat n =
     (if n < 10 then [digit_char n] else show_nat (n div 10) @ [digit_char (n mod 10)])"

declare show_nat.simps [simp del]

definition show_int :: "int \<Rightarrow> string" where
  "show_int n = (if n < 0 then CHR ''-'' # show_nat (nat (- n)) else show_nat (nat n))"

definition hex_char :: "bool \<Rightarrow> nat \<Rightarrow> char" where
  "hex_char upper n =
     (if n < 10 then char_of (48 + n) else char_of ((if upper then 55 else 87) + n))"

definition pad_left :: "nat \<Rightarrow> char \<Rightarrow> string \<Rightarrow> string" where
  "pad_left w c s = replicate (w - length s) c @ s"

lemma is_digit_digit_char [simp]: "n < 10 \<Longrightarrow> is_digit (digit_char n)"
  by (simp add: is_digit_def digit_char_def)

lemma digit_val_digit_char [simp]: "n < 10 \<Longrightarrow> digit_val (digit_char n) = n"
  by (simp add: digit_val_def digit_char_def)

lemma digits_val_snoc [simp]: "digits_val (ds @ [d]) = 10 * digits_val ds + digit_val d"
  by (simp add: digits_val_def)

lemma show_nat_nonempty [simp]: "show_nat n \<noteq> []"
  by (subst show_nat.simps) simp

lemma show_nat_digits: "\<forall>c \<in> set (show_nat n). is_digit c"
proof (induction n rule: show_nat.induct)
  case (1 n)
  then show ?case by (subst show_nat.simps) auto
qed

lemma digits_val_show_nat [simp]: "digits_val (show_nat n) = n"
proof (induction n rule: show_nat.induct)
  case (1 n)
  then show ?case
    by (subst show_nat.simps) (auto simp: digits_val_def)
qed

lemma takeWhile_show_nat: "takeWhile is_digit (show_nat n) = show_nat n"
  using show_nat_digits by (simp add: takeWhile_eq_all_conv)

lemma is_digit_not_space [simp]: "is_digit c \<Longrightarrow> \<not> is_space c"
  by (auto simp: is_digit_def is_space_def)

lemma is_digit_not_sign [simp]: "\<not> is_digit CHR ''-''" "\<not> is_digit CHR ''+''"
  by (simp_all add: is_digit_def code_def)

lemma is_space_not_sign [simp]: "\<not> is_space CHR ''-''" "\<not> is_space CHR ''+''"
  by (simp_all add: is_space_def code_def)

lemma split_sign_digit: "s \<noteq> [] \<Longrightarrow> is_digit (hd s) \<Longrightarrow> split_sign s = (False, s)"
  by (cases s) (auto simp: split_sign_def)

lemma hd_show_nat_digit [simp]: "is_digit (hd (show_nat n))"
  using show_nat_digits show_nat_nonempty by (metis hd_in_set)

lemma dropWhile_space_digit: "s \<noteq> [] \<Longrightarrow> is_digit (hd s) \<Longrightarrow> dropWhile is_space s = s"
  by (cases s) auto

lemma scan_int_show_int:
  assumes "- (2 ^ 31) \<le> n" and "n < 2 ^ 31"
  shows "scan_int (show_int n) = Some (n, [])"
proof (cases "n < 0")
  case True
  with assms show ?thesis
    by (simp add: scan_int_def show_int_def split_sign_def takeWhile_show_nat Let_def)
next
  case False
  have "dropWhile is_space (show_nat (nat n)) = show_nat (nat n)"
    by (rule dropWhile_space_digit) simp_all
  moreover have "split_sign (show_nat (nat n)) = (False, show_nat (nat n))"
    by (rule split_sign_digit) simp_all
  ultimately show ?thesis
    using False assms by (simp add: scan_int_def show_int_def takeWhile_show_nat Let_def)
qed

lemma atoi_show_int [simp]: "- (2 ^ 31) \<le> n \<Longrightarrow> n < 2 ^ 31 \<Longrightarrow> atoi (show_int n) = n"
  by (simp add: atoi_def scan_int_show_int)

lemma scan_int_bounds: "scan_int s = Some (n, t) \<Longrightarrow> - (2 ^ 31) \<le> n \<and> n < 2 ^ 31"
  using to_int32_bounds by (auto simp: scan_int_def Let_def split: prod.splits if_splits)

lemma atoi_bounds: "- (2 ^ 31) \<le> atoi s \<and> atoi s < 2 ^ 31"
  by (auto simp: atoi_def dest: scan_int_bounds split: option.splits)

lemma scan_str_length: "scan_str w s = Some (tok, rest) \<Longrightarrow> 0 < length tok \<and> length tok \<le> w"
  by (auto simp: scan_str_def Let_def split: if_splits)

lemma scan_str_no_space: "scan_str w s = Some (tok, rest) \<Longrightarrow> \<forall>c \<in> set tok. \<not> is_space c"
  by (auto simp: scan_str_def Let_def dest!: in_set_takeD dest: set_takeWhileD split: if_splits)

section \<open>Lines: \<open>fgets\<close>\<close>

fun fgets_upto :: "nat \<Rightarrow> string \<Rightarrow> string \<times> string" where
  "fgets_upto 0 s = ([], s)"
| "fgets_upto (Suc n) [] = ([], [])"
| "fgets_upto (Suc n) (c # cs) =
     (if c = NL then ([c], cs) else let (a, b) = fgets_upto n cs in (c # a, b))"

text \<open>
  \<open>fgets(buf, n, f)\<close> over the bytes still to be read: \<open>None\<close> is the NULL of an
  exhausted stream, otherwise the bytes stored before the terminating NUL and the rest.
\<close>

definition fgets :: "nat \<Rightarrow> string \<Rightarrow> (string \<times> string) option" where
  "fgets n s = (if s = [] then None else Some (fgets_upto (n - 1) s))"

lemma fgets_upto_split: "fgets_upto n s = (a, b) \<Longrightarrow> s = a @ b \<and> length a \<le> n"
  by (induction n s arbitrary: a b rule: fgets_upto.induct)
     (auto split: if_splits prod.splits)

lemma fgets_upto_nonempty: "fgets_upto (Suc n) (c # cs) = (a, b) \<Longrightarrow> a \<noteq> []"
  by (auto split: if_splits prod.splits)

lemma fgets_Some: "fgets n s = Some (a, b) \<Longrightarrow> s = a @ b \<and> length a \<le> n - 1"
  by (auto simp: fgets_def dest: fgets_upto_split split: if_splits)

lemma fgets_decreases:
  assumes "fgets n s = Some (a, b)" and "1 < n"
  shows "length b < length s"
proof -
  from assms(2) obtain m where m: "n - 1 = Suc m"
    by (metis Suc_diff_Suc diff_Suc_1 One_nat_def)
  from assms(1) obtain c cs where "s = c # cs"
    by (cases s) (auto simp: fgets_def)
  with assms(1) m have "a \<noteq> []"
    unfolding fgets_def by (metis fgets_upto_nonempty list.distinct(1) option.inject)
  with assms(1) show ?thesis by (auto dest: fgets_Some)
qed

section \<open>Lists\<close>

definition drop_last_while :: "('a \<Rightarrow> bool) \<Rightarrow> 'a list \<Rightarrow> 'a list" where
  "drop_last_while p xs = rev (dropWhile p (rev xs))"

lemma drop_last_while_snoc [simp]:
  "drop_last_while p (xs @ [x]) = (if p x then drop_last_while p xs else xs @ [x])"
  by (simp add: drop_last_while_def)

lemma drop_last_while_Nil [simp]: "drop_last_while p [] = []"
  by (simp add: drop_last_while_def)

lemma last_drop_last_while: "drop_last_while p xs \<noteq> [] \<Longrightarrow> \<not> p (last (drop_last_while p xs))"
  by (induction xs rule: rev_induct) auto

lemma set_drop_last_while: "set (drop_last_while p xs) \<subseteq> set xs"
  by (induction xs rule: rev_induct) auto

lemma drop_last_while_prefix: "\<exists>zs. xs = drop_last_while p xs @ zs \<and> (\<forall>z \<in> set zs. p z)"
proof (induction xs rule: rev_induct)
  case Nil
  then show ?case by simp
next
  case (snoc x xs)
  then obtain zs where zs: "xs = drop_last_while p xs @ zs" "\<forall>z \<in> set zs. p z" by blast
  show ?case
  proof (cases "p x")
    case True
    with zs have "xs @ [x] = drop_last_while p xs @ (zs @ [x])" "\<forall>z \<in> set (zs @ [x]). p z"
      by auto
    with True show ?thesis by (metis drop_last_while_snoc)
  qed simp
qed

lemma sum_list_map_update:
  fixes f :: "'a \<Rightarrow> nat"
  assumes "i < length xs"
  shows "sum_list (map f (xs[i := y])) + f (xs ! i) = sum_list (map f xs) + f y"
  using assms
proof (induction xs arbitrary: i)
  case Nil
  then show ?case by simp
next
  case (Cons x xs)
  then show ?case by (cases i) auto
qed

lemma map_update_same: "f y = f (xs ! i) \<Longrightarrow> map f (xs[i := y]) = map f xs"
  by (metis list_update_id map_update)

end
