(* ===== verification/UtilsStrings.thy ===== *)
theory UtilsStrings
  imports Prelude
begin

text \<open>
  The string routines of \<open>Core::Utils\<close> (src/core/utils.cpp): trimming, splitting with and
  without quotation, the numeric and domain tests, and the regular expression that
  \<open>IsRecipientBlocked\<close> builds from the administrator's list. The matcher itself (libpcre) is
  a parameter. \<open>std::string\<close> results and the \<open>vector<string>\<close> out parameters are lists.
\<close>

section \<open>Trimming\<close>

abbreviation "blanks \<equiv> [CHR '' '', CR, NL, TAB]"

definition RTrim :: "string \<Rightarrow> string \<Rightarrow> string" where
  "RTrim s dr = drop_last_while (\<lambda>c. c \<in> set dr) s"

definition Trim :: "string \<Rightarrow> string \<Rightarrow> string" where
  "Trim s dr = (let r = drop_last_while (\<lambda>c. c \<in> set dr) s in dropWhile (\<lambda>c. c \<in> set dr) r)"

lemma Trim_Nil [simp]: "Trim [] dr = []"
  by (simp add: Trim_def)

lemma Trim_hd: "Trim s dr \<noteq> [] \<Longrightarrow> hd (Trim s dr) \<notin> set dr"
  unfolding Trim_def Let_def by (rule hd_dropWhile)

lemma last_dropWhile: "dropWhile p xs \<noteq> [] \<Longrightarrow> last (dropWhile p xs) = last xs"
  by (induction xs) auto

lemma Trim_last:
  assumes "Trim s dr \<noteq> []"
  shows "last (Trim s dr) \<notin> set dr"
proof -
  have ne: "drop_last_while (\<lambda>c. c \<in> set dr) s \<noteq> []"
    using assms by (auto simp: Trim_def Let_def)
  have "last (Trim s dr) = last (drop_last_while (\<lambda>c. c \<in> set dr) s)"
    using assms by (simp add: Trim_def Let_def last_dropWhile)
  with last_drop_last_while [OF ne] show ?thesis by simp
qed

lemma set_Trim: "set (Trim s dr) \<subseteq> set s"
  unfolding Trim_def Let_def using set_drop_last_while set_dropWhileD by fastforce

lemma Trim_snoc: "c \<notin> set dr \<Longrightarrow> Trim (s @ [c]) dr = dropWhile (\<lambda>c. c \<in> set dr) (s @ [c])"
  by (simp add: Trim_def)

section \<open>Splitting\<close>

text \<open>The loop of \<open>Utils::Explode\<close>: \<open>tmp\<close> is the piece being collected.\<close>

fun explode_loop :: "char \<Rightarrow> string \<Rightarrow> string \<Rightarrow> string list" where
  "explode_loop sep tmp [] = (if length tmp > 0 then [tmp] else [])"
| "explode_loop sep tmp (c # cs) =
     (if c = sep then tmp # explode_loop sep [] cs else explode_loop sep (tmp @ [c]) cs)"

definition Explode :: "string \<Rightarrow> char \<Rightarrow> string list" where
  "Explode s sep = explode_loop sep [] s"

text \<open>The loop of \<open>Utils::ExplodeOutsideOfQuotation\<close>, with its two flags.\<close>

fun explode_quoted :: "char \<Rightarrow> bool \<Rightarrow> bool \<Rightarrow> bool \<Rightarrow> string \<Rightarrow> string \<Rightarrow> string list" where
  "explode_quoted sep preserve inEscape inQuote tmp [] =
     (let t = Trim tmp [TAB, CHR '' ''] in if length t > 0 then [t] else [])"
| "explode_quoted sep preserve inEscape inQuote tmp (c # cs) =
     (if c = sep \<and> \<not> inQuote
      then let t = Trim tmp [TAB, CHR '' '']
           in if length t > 0
              then t # explode_quoted sep preserve inEscape inQuote [] cs
              else explode_quoted sep preserve inEscape inQuote t cs
      else if c = DQUOTE \<and> \<not> inEscape
      then explode_quoted sep preserve inEscape (\<not> inQuote) (if preserve then tmp @ [c] else tmp) cs
      else if c = BACKSLASH \<and> \<not> inEscape
      then explode_quoted sep preserve True inQuote tmp cs
      else explode_quoted sep preserve False inQuote (tmp @ [c]) cs)"

definition ExplodeOutsideOfQuotation :: "string \<Rightarrow> char \<Rightarrow> bool \<Rightarrow> string list" where
  "ExplodeOutsideOfQuotation s sep preserve = explode_quoted sep preserve False False [] s"

text \<open>
  The reference for splitting: joining the pieces with the separator gives the input back,
  but for one trailing separator, which \<open>Explode\<close> drops together with the empty piece.
\<close>

fun join :: "char \<Rightarrow> string list \<Rightarrow> string" where
  "join sep [] = []"
| "join sep [p] = p"
| "join sep (p # ps) = p @ sep # join sep ps"

lemma join_Cons: "ps \<noteq> [] \<Longrightarrow> join sep (p # ps) = p @ sep # join sep ps"
  by (cases ps) auto

lemma explode_loop_empty: "explode_loop sep tmp s = [] \<longleftrightarrow> tmp = [] \<and> s = []"
  by (induction sep tmp s rule: explode_loop.induct) auto

lemma join_explode_loop:
  "join sep (explode_loop sep tmp s) =
     (if s \<noteq> [] \<and> last s = sep then tmp @ butlast s else tmp @ s)"
proof (induction sep tmp s rule: explode_loop.induct)
  case (1 sep tmp)
  then show ?case by simp
next
  case (2 sep tmp c cs)
  show ?case
  proof (cases "cs = []")
    case True
    then show ?thesis by simp
  next
    case False
    then have "explode_loop sep [] cs \<noteq> []" by (simp add: explode_loop_empty)
    with 2 False show ?thesis by (auto simp: join_Cons)
  qed
qed

lemma explode_loop_no_sep:
  "sep \<notin> set tmp \<Longrightarrow> p \<in> set (explode_loop sep tmp s) \<Longrightarrow> sep \<notin> set p"
  by (induction sep tmp s rule: explode_loop.induct) (auto split: if_splits)

lemma explode_loop_piece:
  "sep \<notin> set p \<Longrightarrow> explode_loop sep tmp (p @ sep # rest) = (tmp @ p) # explode_loop sep [] rest"
  by (induction p arbitrary: tmp) auto

lemma explode_loop_last: "sep \<notin> set p \<Longrightarrow> tmp @ p \<noteq> [] \<Longrightarrow> explode_loop sep tmp p = [tmp @ p]"
  by (induction p arbitrary: tmp) auto

text \<open>Splitting keeps every byte of the input but the separators.\<close>

lemma Explode_join:
  "(\<forall>p \<in> set (Explode s sep). sep \<notin> set p) \<and>
   join sep (Explode s sep) = (if s \<noteq> [] \<and> last s = sep then butlast s else s)"
  unfolding Explode_def join_explode_loop using explode_loop_no_sep [of sep "[]"] by auto

lemma Explode_join_witness: "join (CHR '','') (Explode ''a,,b,'' (CHR '','')) = ''a,,b''"
  using Explode_join [of "''a,,b,''" "CHR '',''"] by simp

lemma explode_quoted_trimmed:
  "p \<in> set (explode_quoted sep preserve e q tmp s) \<Longrightarrow>
     p \<noteq> [] \<and> hd p \<notin> {TAB, CHR '' ''} \<and> last p \<notin> {TAB, CHR '' ''}"
proof (induction sep preserve e q tmp s rule: explode_quoted.induct)
  case (1 sep preserve e q tmp)
  then show ?case
    using Trim_hd [of tmp "[TAB, CHR '' '']"] Trim_last [of tmp "[TAB, CHR '' '']"]
    by (auto simp: Let_def split: if_splits)
next
  case (2 sep preserve e q tmp c cs)
  then show ?case
    using Trim_hd [of tmp "[TAB, CHR '' '']"] Trim_last [of tmp "[TAB, CHR '' '']"]
    by (auto simp: Let_def split: if_splits)
qed

text \<open>
  Without quotes and backslashes the quotation-aware splitter is the plain one followed by
  trimming each piece and dropping the empty ones.
\<close>

lemma explode_quoted_plain:
  assumes "DQUOTE \<notin> set s" and "BACKSLASH \<notin> set s"
  shows "explode_quoted sep preserve False False tmp s =
    filter (\<lambda>p. p \<noteq> []) (map (\<lambda>p. Trim p [TAB, CHR '' '']) (explode_loop sep tmp s))"
  using assms
  by (induction sep tmp s rule: explode_loop.induct) (auto simp: Let_def)

section \<open>Tests\<close>

text \<open>\<open>Utils::IsNumeric\<close>: the loop over the characters with their index.\<close>

fun is_numeric_from :: "nat \<Rightarrow> string \<Rightarrow> bool" where
  "is_numeric_from i [] = True"
| "is_numeric_from i (c # cs) =
     (if c = CHR ''-'' then (if i \<noteq> 0 then False else is_numeric_from (Suc i) cs)
      else if code c < 48 \<or> 57 < code c then False
      else is_numeric_from (Suc i) cs)"

definition IsNumeric :: "string \<Rightarrow> bool" where
  "IsNumeric s = is_numeric_from 0 s"

lemma is_numeric_from_Suc: "0 < i \<Longrightarrow> is_numeric_from i s \<longleftrightarrow> list_all is_digit s"
  by (induction i s rule: is_numeric_from.induct) (auto simp: is_digit_def code_def)

lemma IsNumeric_iff:
  "IsNumeric s \<longleftrightarrow> list_all is_digit (case s of [] \<Rightarrow> [] | c # cs \<Rightarrow> if c = CHR ''-'' then cs else s)"
  by (cases s) (auto simp: IsNumeric_def is_numeric_from_Suc is_digit_def code_def)

lemma IsNumeric_chars: "IsNumeric s \<Longrightarrow> c \<in> set s \<Longrightarrow> is_digit c \<or> c = CHR ''-''"
  by (cases s) (auto simp: IsNumeric_iff list_all_iff split: if_splits)

definition StrToBool :: "string \<Rightarrow> bool" where
  "StrToBool s = (case s of [] \<Rightarrow> False | c # _ \<Rightarrow> c = CHR ''1'')"

definition StrToLower :: "string \<Rightarrow> string" where
  "StrToLower s = map c_tolower s"

definition StrToUpper :: "string \<Rightarrow> string" where
  "StrToUpper s = map c_toupper s"

text \<open>
  \<open>Utils::DomainMatches\<close>: the second-level domain of the longer name (the part after the
  second dot from the right) has to end both names. The reverse iteration is over the
  reversed string.
\<close>

fun domain_length :: "nat \<Rightarrow> string \<Rightarrow> nat" where
  "domain_length dotCount [] = 0"
| "domain_length dotCount (c # cs) =
     (if c = CHR ''.'' then (if Suc dotCount = 2 then 0 else Suc (domain_length (Suc dotCount) cs))
      else Suc (domain_length dotCount cs))"

definition DomainMatches :: "string \<Rightarrow> string \<Rightarrow> bool" where
  "DomainMatches host1 host2 =
     (if strcaseeq host1 host2 then True
      else let tmp = (if length host1 > length host2 then host1 else host2);
               domainLength = domain_length 0 (rev tmp)
           in if length host1 < domainLength \<or> length host2 < domainLength then False
              else strcaseeq (drop (length host1 - domainLength) host1)
                             (drop (length host2 - domainLength) host2))"

lemma domain_length_le: "domain_length n s \<le> length s"
  by (induction n s rule: domain_length.induct) auto

text \<open>
  When \<open>DomainMatches\<close> accepts two names that are not equal, the last \<open>n\<close> bytes of both are
  equal up to case, where \<open>n\<close> is the length of the second-level domain of the longer name. The
  test does not ask that these bytes start at a label: a name that merely ends in the same
  characters is accepted, and the answer depends on the order of the arguments.
\<close>

lemma DomainMatches_no_label_boundary:
  "(DomainMatches h1 h2 \<and> \<not> strcaseeq h1 h2 \<longrightarrow>
      (let n = domain_length 0 (rev (if length h1 > length h2 then h1 else h2))
       in n \<le> length h1 \<and> n \<le> length h2 \<and>
          strcaseeq (drop (length h1 - n) h1) (drop (length h2 - n) h2))) \<and>
   DomainMatches ''mail.example.com'' ''evilexample.com'' \<and>
   DomainMatches ''xyab.c'' ''x.ab.c'' \<and> \<not> DomainMatches ''x.ab.c'' ''xyab.c''"
proof (intro conjI)
  show "DomainMatches ''mail.example.com'' ''evilexample.com''"
    and "DomainMatches ''xyab.c'' ''x.ab.c''" and "\<not> DomainMatches ''x.ab.c'' ''xyab.c''"
    by (simp_all add: DomainMatches_def strcaseeq_def Let_def c_tolower_def is_upper_def code_def)
qed (auto simp: DomainMatches_def Let_def split: if_splits)

lemma DomainMatches_no_label_boundary_witness:
  "let n = domain_length 0 (rev ''mail.example.com'')
   in strcaseeq (drop (length ''mail.example.com'' - n) ''mail.example.com'')
        (drop (length ''evilexample.com'' - n) ''evilexample.com'')"
proof -
  have "DomainMatches ''mail.example.com'' ''evilexample.com''"
    "\<not> strcaseeq ''mail.example.com'' ''evilexample.com''" by code_simp+
  then show ?thesis
    using DomainMatches_no_label_boundary [of "''mail.example.com''" "''evilexample.com''"]
    by (simp add: Let_def)
qed

section \<open>Blocked recipients\<close>

definition pcre_special :: "char \<Rightarrow> bool" where
  "pcre_special c \<longleftrightarrow> c \<in> set (BACKSLASH # ''.+*?[^]$(){}=!><|:/'')"

fun PCREEscape :: "string \<Rightarrow> string" where
  "PCREEscape [] = []"
| "PCREEscape (c # cs) =
     (if pcre_special c then BACKSLASH # c # PCREEscape cs else c # PCREEscape cs)"

text \<open>The \<open>while\<close> loop that turns every escaped star into \<open>.+\<close>.\<close>

function replace_wildcards :: "string \<Rightarrow> string" where
  "replace_wildcards s =
     (case find_sub [BACKSLASH, CHR ''*''] s of
        None \<Rightarrow> s
      | Some wcPos \<Rightarrow> replace_wildcards (take wcPos s @ ''.+'' @ drop (wcPos + 2) s))"
  by pat_completeness auto
termination
proof (relation "measure (\<lambda>s. count_list s (CHR ''*''))")
  fix s i
  assume "find_sub [BACKSLASH, CHR ''*''] s = Some i"
  then have "take 2 (drop i s) = [BACKSLASH, CHR ''*'']"
    by (auto dest: find_sub_Some simp: numeral_2_eq_2)
  then have "s = take i s @ [BACKSLASH, CHR ''*''] @ drop (i + 2) s"
    by (metis add.commute append_take_drop_id drop_drop)
  then have "count_list s (CHR ''*'') =
      count_list (take i s @ [BACKSLASH, CHR ''*''] @ drop (i + 2) s) (CHR ''*'')"
    by (rule arg_cong)
  then show "(take i s @ ''.+'' @ drop (i + 2) s, s) \<in> measure (\<lambda>s. count_list s (CHR ''*''))"
    by simp
qed simp

declare replace_wildcards.simps [simp del]

definition blocked_pattern :: "string \<Rightarrow> string" where
  "blocked_pattern entry = ''^'' @ replace_wildcards (Trim (PCREEscape entry) blanks) @ ''$''"

definition IsRecipientBlocked :: "(string \<Rightarrow> string \<Rightarrow> bool \<Rightarrow> bool) \<Rightarrow> string \<Rightarrow> string \<Rightarrow> bool" where
  "IsRecipientBlocked Match blocked rawAddr =
     (let addr = Trim rawAddr blanks
      in if length blocked = 0 then False
         else list_ex (\<lambda>entry. Match (blocked_pattern entry) addr True) (Explode blocked (CHR '':'')))"

text \<open>
  What the pattern means: a reader of the pattern language as far as the code uses it, an
  escaped character standing for itself and \<open>.+\<close> for one or more characters.
\<close>

datatype ptok = Lit char | AnyPlus

fun read_pattern :: "string \<Rightarrow> ptok list" where
  "read_pattern [] = []"
| "read_pattern (c # cs) =
     (if c = BACKSLASH then (case cs of [] \<Rightarrow> [Lit c] | d # ds \<Rightarrow> Lit d # read_pattern ds)
      else if c = CHR ''.'' \<and> cs \<noteq> [] \<and> hd cs = CHR ''+'' then AnyPlus # read_pattern (tl cs)
      else Lit c # read_pattern cs)"

fun one_pass :: "string \<Rightarrow> string" where
  "one_pass [] = []"
| "one_pass [c] = [c]"
| "one_pass (c # d # cs) =
     (if c = BACKSLASH \<and> d = CHR ''*'' then CHR ''.'' # CHR ''+'' # one_pass cs
      else c # one_pass (d # cs))"

lemma one_pass_no_match: "find_sub [BACKSLASH, CHR ''*''] s = None \<Longrightarrow> one_pass s = s"
  by (induction s rule: one_pass.induct) (auto split: if_splits)

lemma one_pass_match:
  "find_sub [BACKSLASH, CHR ''*''] s = Some i \<Longrightarrow>
     one_pass s = take i s @ ''.+'' @ one_pass (drop (i + 2) s)"
  by (induction s arbitrary: i rule: one_pass.induct) (auto split: if_splits)

lemma one_pass_replaced:
  "find_sub [BACKSLASH, CHR ''*''] s = Some i \<Longrightarrow>
     one_pass (take i s @ ''.+'' @ t) = take i s @ ''.+'' @ one_pass t"
proof (induction s arbitrary: i rule: one_pass.induct)
  case (3 c d cs)
  show ?case
  proof (cases "c = BACKSLASH \<and> d = CHR ''*''")
    case True
    with 3 show ?thesis by (cases t) auto
  next
    case False
    with "3.prems" obtain j where j: "find_sub [BACKSLASH, CHR ''*''] (d # cs) = Some j" "i = Suc j"
      by (auto split: if_splits)
    with "3.IH" (2) False have "one_pass (take j (d # cs) @ ''.+'' @ t) =
        take j (d # cs) @ ''.+'' @ one_pass t" by blast
    with False j show ?thesis by (cases j) auto
  qed
qed (auto split: if_splits)

lemma replace_wildcards_one_pass: "replace_wildcards s = one_pass s"
proof (induction s rule: replace_wildcards.induct)
  case (1 s)
  show ?case
  proof (cases "find_sub [BACKSLASH, CHR ''*''] s")
    case None
    then show ?thesis by (subst replace_wildcards.simps) (simp add: one_pass_no_match)
  next
    case (Some i)
    have "replace_wildcards s = one_pass (take i s @ ''.+'' @ drop (i + 2) s)"
      using 1 Some by (subst replace_wildcards.simps) simp
    also have "\<dots> = one_pass s"
      unfolding one_pass_replaced [OF Some] one_pass_match [OF Some] ..
    finally show ?thesis .
  qed
qed

lemma pcre_special_simps [simp]:
  "pcre_special BACKSLASH" "pcre_special CHR ''*''" "pcre_special CHR ''.''" "pcre_special CHR ''+''"
  by (simp_all add: pcre_special_def)

lemma hd_PCREEscape: "PCREEscape s = d # ds \<Longrightarrow> d \<noteq> CHR ''*'' \<and> d \<noteq> CHR ''+''"
  by (cases s) (auto split: if_splits)

lemma one_pass_Cons: "c \<noteq> BACKSLASH \<or> (s \<noteq> [] \<longrightarrow> hd s \<noteq> CHR ''*'') \<Longrightarrow> one_pass (c # s) = c # one_pass s"
  by (cases s) auto

lemma one_pass_escape_Cons:
  "one_pass (PCREEscape (c # cs)) =
     (if c = CHR ''*'' then CHR ''.'' # CHR ''+'' # one_pass (PCREEscape cs)
      else if pcre_special c then BACKSLASH # c # one_pass (PCREEscape cs)
      else c # one_pass (PCREEscape cs))"
proof -
  have "PCREEscape cs \<noteq> [] \<longrightarrow> hd (PCREEscape cs) \<noteq> CHR ''*''"
    by (cases "PCREEscape cs") (auto dest: hd_PCREEscape)
  then have "one_pass (d # PCREEscape cs) = d # one_pass (PCREEscape cs)" for d
    by (simp add: one_pass_Cons)
  then show ?thesis by (auto simp: one_pass_Cons)
qed

lemma hd_one_pass_escape:
  "one_pass (PCREEscape s) \<noteq> [] \<Longrightarrow> hd (one_pass (PCREEscape s)) \<noteq> CHR ''+''"
  by (cases s) (auto simp: one_pass_escape_Cons simp del: PCREEscape.simps(2) split: if_splits)

lemma read_pattern_escape:
  "read_pattern (one_pass (PCREEscape s)) = map (\<lambda>c. if c = CHR ''*'' then AnyPlus else Lit c) s"
proof (induction s)
  case Nil
  then show ?case by simp
next
  case (Cons c cs)
  then show ?case
    using hd_one_pass_escape [of cs]
    by (auto simp: one_pass_escape_Cons simp del: PCREEscape.simps(2))
qed

lemma PCREEscape_append: "PCREEscape (s @ t) = PCREEscape s @ PCREEscape t"
  by (induction s) auto

lemma blanks_not_special [simp]: "c \<in> set blanks \<Longrightarrow> \<not> pcre_special c"
  by (auto simp: pcre_special_def)

lemma PCREEscape_drop_last:
  "drop_last_while (\<lambda>c. c \<in> set blanks) (PCREEscape s) =
     PCREEscape (drop_last_while (\<lambda>c. c \<in> set blanks) s)"
proof (induction s rule: rev_induct)
  case Nil
  then show ?case by simp
next
  case (snoc c s)
  have snoc2: "drop_last_while p (xs @ [a, b]) = (if p b then drop_last_while p (xs @ [a]) else xs @ [a, b])"
    for p :: "char \<Rightarrow> bool" and xs a b
    using drop_last_while_snoc [of p "xs @ [a]" b] by simp
  show ?case
  proof (cases "pcre_special c")
    case True
    then have "c \<notin> set blanks" using blanks_not_special by blast
    with True show ?thesis
      by (simp add: PCREEscape_append snoc2)
  next
    case False
    with snoc show ?thesis by (simp add: PCREEscape_append)
  qed
qed

lemma PCREEscape_dropWhile:
  "dropWhile (\<lambda>c. c \<in> set blanks) (PCREEscape s) = PCREEscape (dropWhile (\<lambda>c. c \<in> set blanks) s)"
proof (induction s)
  case Nil
  then show ?case by simp
next
  case (Cons c cs)
  have "BACKSLASH \<notin> set blanks" by simp
  with Cons show ?case using blanks_not_special [of c] by (cases "c \<in> set blanks") auto
qed

lemma Trim_PCREEscape: "Trim (PCREEscape s) blanks = PCREEscape (Trim s blanks)"
  unfolding Trim_def Let_def PCREEscape_drop_last PCREEscape_dropWhile ..

text \<open>
  The regular expression built from an entry of the block list treats every \<open>*\<close> as a
  wildcard for one or more characters and every other character literally, whatever regular
  expression syntax the entry contains.
\<close>

lemma blocked_pattern_meaning:
  "read_pattern (replace_wildcards (Trim (PCREEscape entry) blanks)) =
     map (\<lambda>c. if c = CHR ''*'' then AnyPlus else Lit c) (Trim entry blanks)"
  by (simp only: Trim_PCREEscape replace_wildcards_one_pass read_pattern_escape)

end
