(* ===== verification/UtilsBase64.thy ===== *)
theory UtilsBase64
  imports Prelude
begin

text \<open>
  The base64 routines of \<open>Core::Utils\<close> (src/core/utils.cpp) over bytes: \<open>decodeB64char\<close>,
  \<open>Base64Encode\<close> and \<open>Base64Decode\<close>, both alphabets, and \<open>ParseIMAPAuthPlain\<close>, which uses
  them. An \<open>unsigned char\<close> is an \<open>8 word\<close>; a shift result that C computes as \<open>int\<close> and then
  stores in an \<open>unsigned char\<close> is computed on the 8-bit word directly.
  A read past the end of a table is an explicit failure.
\<close>

type_synonym byte = "8 word"

definition byte_of :: "char \<Rightarrow> byte" where
  "byte_of c = word_of_nat (code c)"

definition char_of_byte :: "byte \<Rightarrow> char" where
  "char_of_byte b = char_of (unat b)"

lemma unat_byte_of [simp]: "unat (byte_of c) = code c"
  using code_less_256 [of c] by (simp add: byte_of_def unat_of_nat)

lemma char_of_byte_of [simp]: "char_of_byte (byte_of c) = c"
  by (simp add: char_of_byte_def)

lemma unat_byte_less: "unat (b :: byte) < 256"
  using unsigned_less [of b, where ?'a = nat] by simp

lemma byte_of_char_of_byte [simp]: "byte_of (char_of_byte b) = b"
  unfolding byte_of_def char_of_byte_def using unat_byte_less [of b] by simp

section \<open>The tables\<close>

definition base64_table :: "string" where
  "base64_table = ''ABCDEFGHIJKLMNOPQRSTUVWXYZabcdefghijklmnopqrstuvwxyz0123456789+/''"

definition base64_table_m :: "string" where
  "base64_table_m = ''ABCDEFGHIJKLMNOPQRSTUVWXYZabcdefghijklmnopqrstuvwxyz0123456789+,''"

definition IS_BASE64_CHAR :: "char \<Rightarrow> bool" where
  "IS_BASE64_CHAR c \<longleftrightarrow> is_upper c \<or> is_lower c \<or> is_digit c \<or> c = CHR ''+'' \<or> c = CHR ''/''"

definition table_of :: "bool \<Rightarrow> string" where
  "table_of bModified = (if bModified then base64_table_m else base64_table)"

text \<open>
  \<open>decodeB64char\<close> walks the table until it meets the character. \<open>None\<close>: the character is a
  base64 character but not in the table, so the walk leaves the array.
\<close>

definition decodeB64char :: "char \<Rightarrow> bool \<Rightarrow> byte option" where
  "decodeB64char c bModified =
     (if \<not> IS_BASE64_CHAR c then Some 0
      else map_option word_of_nat (find_chr c (table_of bModified)))"

section \<open>Encoding\<close>

definition enc0 :: "byte \<Rightarrow> byte" where
  "enc0 a = drop_bit 2 (a AND 0xfc)"

definition enc1 :: "byte \<Rightarrow> byte \<Rightarrow> byte" where
  "enc1 a b = push_bit 4 (a AND 0x03) + drop_bit 4 (b AND 0xf0)"

definition enc2 :: "byte \<Rightarrow> byte \<Rightarrow> byte" where
  "enc2 b c = push_bit 2 (b AND 0x0f) + drop_bit 6 (c AND 0xc0)"

definition enc3 :: "byte \<Rightarrow> byte" where
  "enc3 c = c AND 0x3f"

definition b64char :: "bool \<Rightarrow> byte \<Rightarrow> char" where
  "b64char bModified e = table_of bModified ! unat e"

text \<open>The \<open>while\<close> loop over full chunks, then the rest with its padding.\<close>

fun Base64Encode :: "bool \<Rightarrow> byte list \<Rightarrow> string" where
  "Base64Encode m (a # b # c # bs) =
     [b64char m (enc0 a), b64char m (enc1 a b), b64char m (enc2 b c), b64char m (enc3 c)]
     @ Base64Encode m bs"
| "Base64Encode m [a, b] =
     [b64char m (enc0 a), b64char m (enc1 a b), b64char m (enc2 b 0)]
     @ (if m then [] else ''='')"
| "Base64Encode m [a] =
     [b64char m (enc0 a), b64char m (enc1 a 0)] @ (if m then [] else ''=='')"
| "Base64Encode m [] = []"

section \<open>Decoding\<close>

definition dec3 :: "byte \<Rightarrow> byte \<Rightarrow> byte \<Rightarrow> byte \<Rightarrow> byte list" where
  "dec3 p q r s =
     [push_bit 2 p + drop_bit 4 (q AND 0x30),
      push_bit 4 (q AND 0xf) + drop_bit 2 (r AND 0x3c),
      push_bit 6 (r AND 0x3) + s]"

text \<open>Decoding one chunk of four characters; a missing character was set to 0 before.\<close>

fun decode_four :: "bool \<Rightarrow> string \<Rightarrow> byte list option" where
  "decode_four m [p, q, r, s] =
     (case (decodeB64char p m, decodeB64char q m, decodeB64char r m, decodeB64char s m) of
        (Some p', Some q', Some r', Some s') \<Rightarrow> Some (dec3 p' q' r' s')
      | _ \<Rightarrow> None)"
| "decode_four m _ = None"

definition decode_chunk :: "bool \<Rightarrow> string \<Rightarrow> byte list option" where
  "decode_chunk m chunk = decode_four m (take 4 (chunk @ [NUL, NUL, NUL, NUL]))"

text \<open>
  The \<open>for\<close> loop with the chunk collected so far; \<open>None\<close> when a table read ran out of bounds.
\<close>

fun decode_loop :: "bool \<Rightarrow> string \<Rightarrow> string \<Rightarrow> byte list option" where
  "decode_loop m chunk [] = (if length chunk \<noteq> 0 then decode_chunk m chunk else Some [])"
| "decode_loop m chunk (c # cs) =
     (if IS_BASE64_CHAR c
      then if length chunk = 3
           then (case decode_chunk m (chunk @ [c]) of
                   None \<Rightarrow> None
                 | Some bs \<Rightarrow> map_option (append bs) (decode_loop m [] cs))
           else decode_loop m (chunk @ [c]) cs
      else decode_loop m chunk cs)"

definition Base64Decode :: "bool \<Rightarrow> string \<Rightarrow> byte list option" where
  "Base64Decode m s = decode_loop m [] (cstr s)"

section \<open>The round trip\<close>

text \<open>The number of zero bytes that decoding appends to fill the last group of three.\<close>

definition b64_fill :: "'a list \<Rightarrow> nat" where
  "b64_fill bs = (3 - length bs mod 3) mod 3"

lemma length_table [simp]: "length (table_of m) = 64"
  by (simp add: table_of_def base64_table_def base64_table_m_def)

lemma base64_table_distinct: "distinct base64_table"
  by (simp add: base64_table_def)

text \<open>Which characters the two tables hold, read off their codes.\<close>

lemma table_codes:
  "base64_table = map char_of ([65..<91] @ [97..<123] @ [48..<58] @ [43, 47 :: nat])"
  "base64_table_m = map char_of ([65..<91] @ [97..<123] @ [48..<58] @ [43, 44 :: nat])"
  by code_simp+

lemma in_map_char_of: "\<forall>n \<in> set ns. n < 256 \<Longrightarrow> c \<in> set (map char_of ns) \<longleftrightarrow> code c \<in> set ns"
  by (metis char_of_code code_char_of image_iff set_map)

lemma code_eq_char: "c = CHR ''+'' \<longleftrightarrow> code c = 43" "c = CHR ''/'' \<longleftrightarrow> code c = 47"
  "c = CHR '','' \<longleftrightarrow> code c = 44"
proof -
  have "code CHR ''+'' = 43" "code CHR ''/'' = 47" "code CHR '','' = 44"
    by (simp_all add: code_def)
  then show "c = CHR ''+'' \<longleftrightarrow> code c = 43" "c = CHR ''/'' \<longleftrightarrow> code c = 47" "c = CHR '','' \<longleftrightarrow> code c = 44"
    by (metis code_inj)+
qed

lemma table_chars:
  "c \<in> set (table_of False) \<longleftrightarrow> IS_BASE64_CHAR c"
  "c \<in> set (table_of True) \<longleftrightarrow> (IS_BASE64_CHAR c \<and> c \<noteq> CHR ''/'') \<or> c = CHR '',''"
proof -
  show "c \<in> set (table_of False) \<longleftrightarrow> IS_BASE64_CHAR c"
    unfolding table_of_def table_codes IS_BASE64_CHAR_def code_eq_char if_False
    by (subst in_map_char_of) (auto simp: is_upper_def is_lower_def is_digit_def simp del: upt_rec_numeral)
  show "c \<in> set (table_of True) \<longleftrightarrow> (IS_BASE64_CHAR c \<and> c \<noteq> CHR ''/'') \<or> c = CHR '',''"
    unfolding table_of_def table_codes IS_BASE64_CHAR_def code_eq_char if_True
    by (subst in_map_char_of) (auto simp: is_upper_def is_lower_def is_digit_def simp del: upt_rec_numeral)
qed

lemma find_chr_nth: "distinct xs \<Longrightarrow> i < length xs \<Longrightarrow> find_chr (xs ! i) xs = Some i"
proof (induction xs arbitrary: i)
  case Nil
  then show ?case by simp
next
  case (Cons x xs)
  then show ?case by (cases i) auto
qed

lemma b64char_base64: "unat e < 64 \<Longrightarrow> IS_BASE64_CHAR (b64char False e)"
  using nth_mem [of "unat e" "table_of False"] by (simp add: b64char_def flip: table_chars(1))

lemma decodeB64char_b64char:
  assumes "unat e < 64"
  shows "decodeB64char (b64char False e) False = Some e"
proof -
  have "find_chr (table_of False ! unat e) (table_of False) = Some (unat e)"
    using assms base64_table_distinct
    by (intro find_chr_nth) (simp_all add: table_of_def base64_table_def)
  with assms b64char_base64 [OF assms] show ?thesis
    by (simp add: decodeB64char_def b64char_def)
qed

lemma decodeB64char_NUL [simp]: "decodeB64char NUL m = Some 0"
  by (simp add: decodeB64char_def IS_BASE64_CHAR_def is_upper_def is_lower_def is_digit_def code_def)

lemma not_base64_pad [simp]: "\<not> IS_BASE64_CHAR CHR ''=''"
  by (simp add: IS_BASE64_CHAR_def is_upper_def is_lower_def is_digit_def code_def)

lemma masks: "(0xfc::byte) = push_bit 2 (mask 6)" "(0x03::byte) = mask 2" "(0xf0::byte) = push_bit 4 (mask 4)"
 "(0x0f::byte) = mask 4" "(0xc0::byte) = push_bit 6 (mask 2)" "(0x3f::byte) = mask 6" "(0x30::byte) = push_bit 4 (mask 2)"
 "(0x3c::byte) = push_bit 2 (mask 4)"
  by (simp_all add: mask_eq_exp_minus_1 push_bit_eq_mult)

lemma bit_enc0: "bit (enc0 a) n \<longleftrightarrow> n < 6 \<and> bit a (2 + n)"
  unfolding enc0_def masks by (auto simp: bit_simps add.commute dest: bit_imp_le_length)
lemma bit_enc1: "bit (enc1 a b) n \<longleftrightarrow> (if n < 4 then bit b (4 + n) else n < 6 \<and> bit a (n - 4))"
proof -
  have "enc1 a b = push_bit 4 (a AND mask 2) OR drop_bit 4 (b AND push_bit 4 (mask 4))"
    unfolding enc1_def masks by (rule disjunctive_add_eq_or) (rule bit_word_eqI, auto simp: bit_simps)
  then show ?thesis by (auto simp: bit_simps add.commute dest: bit_imp_le_length)
qed
lemma bit_enc2: "bit (enc2 b c) n \<longleftrightarrow> (if n < 2 then bit c (6 + n) else n < 6 \<and> bit b (n - 2))"
proof -
  have "enc2 b c = push_bit 2 (b AND mask 4) OR drop_bit 6 (c AND push_bit 6 (mask 2))"
    unfolding enc2_def masks by (rule disjunctive_add_eq_or) (rule bit_word_eqI, auto simp: bit_simps)
  then show ?thesis by (auto simp: bit_simps add.commute dest: bit_imp_le_length)
qed
lemma bit_enc3: "bit (enc3 c) n \<longleftrightarrow> n < 6 \<and> bit c n"
  unfolding enc3_def masks by (auto simp: bit_simps dest: bit_imp_le_length)

lemma dec3_or: assumes "\<And>n. bit s n \<Longrightarrow> n < 6" shows "dec3 p q r s = 
     [push_bit 2 p OR drop_bit 4 (q AND push_bit 4 (mask 2)),
      push_bit 4 (q AND mask 4) OR drop_bit 2 (r AND push_bit 2 (mask 4)),
      push_bit 6 (r AND mask 2) OR s]"
  unfolding dec3_def masks list.inject
  by (intro conjI disjunctive_add_eq_or bit_word_eqI refl) (auto simp: bit_simps dest!: assms)

lemma less8: "n < LENGTH(8) \<Longrightarrow> n = 0 \<or> n = 1 \<or> n = 2 \<or> n = 3 \<or> n = 4 \<or> n = 5 \<or> n = 6 \<or> n = 7"
  by simp linarith
lemma dec_enc: "dec3 (enc0 a) (enc1 a b) (enc2 b c) (enc3 c) = [a, b, c]"
proof -
  have *: "dec3 (enc0 a) (enc1 a b) (enc2 b c) (enc3 c) = 
     [push_bit 2 (enc0 a) OR drop_bit 4 (enc1 a b AND push_bit 4 (mask 2)),
      push_bit 4 (enc1 a b AND mask 4) OR drop_bit 2 (enc2 b c AND push_bit 2 (mask 4)),
      push_bit 6 (enc2 b c AND mask 2) OR enc3 c]"
    by (rule dec3_or) (simp add: bit_enc3)
  show ?thesis
    unfolding * list.inject
    by (intro conjI bit_word_eqI refl; drule less8; elim disjE;
        simp add: bit_simps bit_enc0 bit_enc1 bit_enc2 bit_enc3)
qed
lemma less64: assumes "\<And>n. bit (w::byte) n \<Longrightarrow> n < 6" shows "unat w < 64"
proof -
  have "take_bit 6 w = w" by (rule bit_word_eqI) (use assms in \<open>auto simp: bit_simps\<close>)
  then have "unat w = unat (take_bit 6 w)" by simp
  also have "\<dots> < 2 ^ 6" unfolding unsigned_take_bit_eq by (rule take_bit_nat_less_exp)
  finally show ?thesis by simp
qed
lemma enc_less64 [simp]:
  "unat (enc0 a) < 64" "unat (enc1 a b) < 64" "unat (enc2 b c) < 64" "unat (enc3 c) < 64"
  by (rule less64; auto simp: bit_enc0 bit_enc1 bit_enc2 bit_enc3 split: if_splits)+

text \<open>The loop over the output of the encoder, chunk by chunk.\<close>

lemma decode_chunk_enc:
  "decode_chunk False [b64char False (enc0 a), b64char False (enc1 a b),
     b64char False (enc2 b c), b64char False (enc3 c)] = Some [a, b, c]"
  by (simp add: decode_chunk_def decodeB64char_b64char dec_enc)

lemma enc_zero [simp]: "enc3 0 = 0" "enc2 0 0 = 0"
  by (simp_all add: enc3_def enc2_def)

lemma decode_chunk_two:
  "decode_chunk False [b64char False (enc0 a), b64char False (enc1 a b), b64char False (enc2 b 0)]
     = Some [a, b, 0]"
  using dec_enc [of a b 0] by (simp add: decode_chunk_def decodeB64char_b64char)

lemma decode_chunk_one:
  "decode_chunk False [b64char False (enc0 a), b64char False (enc1 a 0)] = Some [a, 0, 0]"
  using dec_enc [of a 0 0] by (simp add: decode_chunk_def decodeB64char_b64char)

lemma b64_fill_simps [simp]:
  "b64_fill [] = 0" "b64_fill [a] = 2" "b64_fill [a, b] = 1"
  "b64_fill (a # b # c # bs) = b64_fill bs"
proof -
  have "Suc (Suc (Suc n)) mod 3 = n mod 3" for n :: nat by presburger
  then show "b64_fill (a # b # c # bs) = b64_fill bs" by (simp add: b64_fill_def)
qed (simp_all add: b64_fill_def)

lemma replicate_small: "replicate 1 x = [x]" "replicate 2 x = [x, x]"
  by (simp_all add: numeral_2_eq_2)

lemma decode_loop_encode:
  "decode_loop False [] (Base64Encode False bs) = Some (bs @ replicate (b64_fill bs) 0)"
  by (induction False bs rule: Base64Encode.induct)
     (simp_all add: b64char_base64 decode_chunk_enc decode_chunk_two decode_chunk_one replicate_small)

lemma NUL_not_base64: "\<not> IS_BASE64_CHAR NUL"
  by (simp add: IS_BASE64_CHAR_def is_upper_def is_lower_def is_digit_def code_def)

lemma encode_no_nul: "NUL \<notin> set (Base64Encode False bs)"
proof -
  have "IS_BASE64_CHAR c \<or> c = CHR ''=''" if "c \<in> set (Base64Encode False bs)" for c
    using that by (induction False bs rule: Base64Encode.induct) (auto simp: b64char_base64)
  then show ?thesis using NUL_not_base64 by fastforce
qed

text \<open>
  Decoding the standard encoding of any byte string returns it, followed by one or two zero
  bytes when its length is not a multiple of three (the decoder does not look at the padding).
\<close>

theorem Base64_roundtrip:
  "Base64Decode False (Base64Encode False bs) = Some (bs @ replicate ((3 - length bs mod 3) mod 3) 0)"
  using decode_loop_encode [of bs] by (simp add: Base64Decode_def encode_no_nul b64_fill_def)

lemma decodeB64char_None:
  "decodeB64char c m = None \<longleftrightarrow> IS_BASE64_CHAR c \<and> c \<notin> set (table_of m)"
  by (auto simp: decodeB64char_def find_pos_None)

lemma Base64_no_overrun: "decodeB64char c False \<noteq> None"
  unfolding decodeB64char_None table_chars by simp

text \<open>
  The modified alphabet does not round trip: its last character is a comma, which the
  decoder skips because it is no base64 character, while a slash makes the table walk leave
  the table; no walk leaves the table with the standard alphabet.
\<close>

theorem Base64_modified_broken:
  "Base64Encode True [255, 255, 255] = '',,,,'' \<and> Base64Decode True '',,,,'' = Some [] \<and>
   (\<forall>c. decodeB64char c True = None \<longleftrightarrow> c = CHR ''/'') \<and> (\<forall>c. decodeB64char c False \<noteq> None)"
proof (intro conjI allI)
  show "Base64Encode True [255, 255, 255] = '',,,,''"
    by (simp add: b64char_def table_of_def base64_table_m_def enc0_def enc1_def enc2_def enc3_def)
  show "Base64Decode True '',,,,'' = Some []"
    by (simp add: Base64Decode_def cstr_def IS_BASE64_CHAR_def is_upper_def is_lower_def
        is_digit_def code_def)
  show "decodeB64char c True = None \<longleftrightarrow> c = CHR ''/''" for c
    unfolding decodeB64char_None table_chars by (auto simp: IS_BASE64_CHAR_def code_eq_char)
  show "decodeB64char c False \<noteq> None" for c
    by (rule Base64_no_overrun)
qed

section \<open>AUTHENTICATE PLAIN\<close>

text \<open>\<open>Utils::ParseIMAPAuthPlain\<close>: the loop over the decoded bytes, counting the zero bytes.\<close>

fun auth_plain_loop :: "nat \<Rightarrow> string \<Rightarrow> string \<Rightarrow> byte list \<Rightarrow> string \<times> string" where
  "auth_plain_loop nulNum user password [] = (user, password)"
| "auth_plain_loop nulNum user password (b # bs) =
     (if b = 0 then auth_plain_loop (Suc nulNum) user password bs
      else if nulNum = 1 then auth_plain_loop nulNum (user @ [char_of_byte b]) password bs
      else if nulNum = 2 then auth_plain_loop nulNum user (password @ [char_of_byte b]) bs
      else auth_plain_loop nulNum user password bs)"

definition ParseIMAPAuthPlain :: "string \<Rightarrow> (string \<times> string) option" where
  "ParseIMAPAuthPlain input = map_option (auth_plain_loop 0 [] []) (Base64Decode False input)"

lemma decode_chunk_total: "decode_chunk False cs \<noteq> None \<or> length cs = 0 \<or> 4 < length cs"
proof -
  have f: "decode_four False [p, q, r, s] \<noteq> None" for p q r s
    using Base64_no_overrun [of p] Base64_no_overrun [of q] Base64_no_overrun [of r]
      Base64_no_overrun [of s] by (auto split: option.splits)
  show ?thesis
    using f by (cases cs; cases "tl cs"; cases "tl (tl cs)"; cases "tl (tl (tl cs))")
       (auto simp: decode_chunk_def simp del: decode_four.simps not_None_eq)
qed

lemma decode_loop_total: "length cs < 4 \<Longrightarrow> decode_loop False cs s \<noteq> None"
proof (induction s arbitrary: cs)
  case Nil
  then show ?case using decode_chunk_total [of cs] by auto
next
  case (Cons c s)
  then show ?case
    using decode_chunk_total [of "cs @ [c]"] by (auto split: option.splits)
qed

lemma Base64Decode_total: "\<exists>bs. Base64Decode False s = Some bs"
  using decode_loop_total [of "[]" "cstr s"] by (auto simp: Base64Decode_def)

lemma auth_plain_loop_skip:
  "0 \<notin> set zs \<Longrightarrow> auth_plain_loop 0 u p (zs @ bs) = auth_plain_loop 0 u p bs"
  by (induction zs) auto

lemma auth_plain_loop_user:
  "0 \<notin> set us \<Longrightarrow> auth_plain_loop 1 u p (us @ bs) = auth_plain_loop 1 (u @ map char_of_byte us) p bs"
  by (induction us arbitrary: u) auto

lemma auth_plain_loop_pass:
  "0 \<notin> set ps \<Longrightarrow> auth_plain_loop 2 u p (ps @ bs) = auth_plain_loop 2 u (p @ map char_of_byte ps) bs"
  by (induction ps arbitrary: p) auto

lemma auth_plain_loop_zeros: "auth_plain_loop n u p (replicate k 0) = (u, p)"
  by (induction k arbitrary: n) auto

text \<open>
  A SASL PLAIN message \<open>authzid NUL user NUL password\<close>, base64 encoded, is parsed back to
  its user and password: the zero bytes that decoding appends change nothing.
\<close>

theorem ParseIMAPAuthPlain_correct:
  assumes "0 \<notin> set authzid" and "0 \<notin> set user" and "0 \<notin> set password"
  shows "ParseIMAPAuthPlain (Base64Encode False (authzid @ 0 # user @ 0 # password)) =
    Some (map char_of_byte user, map char_of_byte password)"
proof -
  let ?msg = "authzid @ 0 # user @ 0 # password"
  have "auth_plain_loop 0 [] [] (?msg @ replicate (b64_fill ?msg) 0) =
      (map char_of_byte user, map char_of_byte password)"
    using assms auth_plain_loop_user [of user "[]" "[]"] auth_plain_loop_pass [of password]
    by (simp add: auth_plain_loop_skip auth_plain_loop_zeros numeral_2_eq_2)
  then show ?thesis
    unfolding ParseIMAPAuthPlain_def Base64Decode_def cstr_id [OF encode_no_nul]
      decode_loop_encode by simp
qed

theorem ParseIMAPAuthPlain_correct_witness:
  "ParseIMAPAuthPlain (Base64Encode False ([] @ 0 # [98, 111, 98] @ 0 # [115, 51])) =
     Some (map char_of_byte [98, 111, 98], map char_of_byte [115, 51])"
  by (rule ParseIMAPAuthPlain_correct) simp_all

end
