(* ===== verification/UtilsNet.thy ===== *)
theory UtilsNet
  imports UtilsStrings UtilsBase64
begin

text \<open>
  \<open>Core::IPAddress\<close> (src/core/utils.cpp): construction from text, subnet tests, the reversed
  form used for DNS blacklists and the key under which an address is stored in the database.
  Addresses are byte lists in network order (4 or 16 bytes). The socket library's parsers and
  the value of an undefined 32-bit shift are parameters, gathered in one record.
\<close>

record net_api =
  inet_pton4 :: "string \<Rightarrow> byte list option"
  inet_pton6 :: "string \<Rightarrow> byte list option"
  inet_addr :: "string \<Rightarrow> byte list"        \<comment> \<open>255.255.255.255 on failure\<close>
  ub_shift32 :: "32 word"                    \<comment> \<open>\<open>0xFFFFFFFF << 32\<close>, undefined in C++\<close>

record IPAddress =
  isIPv6 :: bool
  v6Addr :: "byte list"
  v4Addr :: "byte list"

definition ip_wf :: "IPAddress \<Rightarrow> bool" where
  "ip_wf a \<longleftrightarrow> (if isIPv6 a then length (v6Addr a) = 16 else length (v4Addr a) = 4)"

definition zero6 :: "byte list" where "zero6 = replicate 16 0"
definition zero4 :: "byte list" where "zero4 = replicate 4 0"

definition IPAddress_v6 :: "byte list \<Rightarrow> IPAddress" where
  "IPAddress_v6 bs = \<lparr>isIPv6 = True, v6Addr = bs, v4Addr = zero4\<rparr>"

definition IPAddress_v4 :: "byte list \<Rightarrow> IPAddress" where
  "IPAddress_v4 bs = \<lparr>isIPv6 = False, v6Addr = zero6, v4Addr = bs\<rparr>"

text \<open>
  The constructor from a string. When the parser fails the C++ object keeps an uninitialised
  address; here it is the zero address.
\<close>

definition IPAddress_of_string :: "net_api \<Rightarrow> string \<Rightarrow> IPAddress" where
  "IPAddress_of_string api ip =
     (if find_chr (CHR '':'') ip \<noteq> None
      then IPAddress_v6 (case inet_pton6 api ip of Some bs \<Rightarrow> bs | None \<Rightarrow> zero6)
      else IPAddress_v4 (case inet_pton4 api ip of Some bs \<Rightarrow> bs | None \<Rightarrow> zero4))"

section \<open>Words and text\<close>

text \<open>\<open>ntohl\<close> of the four bytes, and the \<open>int\<close> that a little-endian host reads from them.\<close>

definition be_nat :: "byte list \<Rightarrow> nat" where
  "be_nat bs = foldl (\<lambda>n b. 256 * n + unat b) 0 bs"

definition ntohl :: "byte list \<Rightarrow> 32 word" where
  "ntohl bs = word_of_nat (be_nat bs)"

definition s_addr_int :: "byte list \<Rightarrow> int" where
  "s_addr_int bs = to_int32 (int (be_nat (rev bs)))"

definition hex2 :: "bool \<Rightarrow> byte \<Rightarrow> string" where
  "hex2 upper b = [hex_char upper (unat b div 16), hex_char upper (unat b mod 16)]"

definition ntop4 :: "byte list \<Rightarrow> string" where
  "ntop4 bs = join (CHR ''.'') (map (\<lambda>b. show_nat (unat b)) bs)"

definition toReversedString :: "IPAddress \<Rightarrow> string" where
  "toReversedString a =
     butlast
       (if isIPv6 a
        then concat (map (\<lambda>b. let h = hex2 False b in [h ! 1, CHR ''.'', h ! 0, CHR ''.''])
               (rev (v6Addr a)))
        else concat (map (\<lambda>p. p @ ''.'')
               (rev (ExplodeOutsideOfQuotation (ntop4 (v4Addr a)) (CHR ''.'') False))))"

definition dbString :: "IPAddress \<Rightarrow> string" where
  "dbString a =
     (if isIPv6 a then concat (map (hex2 False) (rev (v6Addr a)))
      else show_int (s_addr_int (v4Addr a)))"

section \<open>Subnets\<close>

text \<open>The loop that creates an IPv6 netmask from a prefix length.\<close>

fun v6_netmask :: "nat \<Rightarrow> nat \<Rightarrow> byte list" where
  "v6_netmask 0 bits = []"
| "v6_netmask (Suc k) bits =
     (if 8 \<le> bits then 0xFF # v6_netmask k (bits - 8)
      else if 0 < bits then drop_bit (8 - bits) 0xFF # v6_netmask k 0
      else 0 # v6_netmask k bits)"

definition mask_bytes :: "byte list \<Rightarrow> byte list \<Rightarrow> byte list" where
  "mask_bytes m bs = map2 (\<lambda>x y. x AND y) bs m"

definition v4_netmask :: "net_api \<Rightarrow> string \<Rightarrow> 32 word" where
  "v4_netmask api msk =
     (if IsNumeric msk
      then let bits = atoi msk
           in if 0 \<le> bits \<and> bits \<le> 32
              then (if bits = 0 then ub_shift32 api else push_bit (nat (32 - bits)) 0xFFFFFFFF)
              else 0xFFFFFFFF
      else if find_chr (CHR ''.'') msk \<noteq> None then ntohl (inet_addr api msk)
      else 0xFFFFFFFF)"

definition matches_mask :: "net_api \<Rightarrow> IPAddress \<Rightarrow> string \<Rightarrow> string \<Rightarrow> bool" where
  "matches_mask api a net msk =
     (if isIPv6 a
      then if \<not> IsNumeric msk then False
           else case inet_pton6 api net of
                  None \<Rightarrow> False
                | Some netAddr \<Rightarrow>
                    let bits = atoi msk
                    in if bits > 128 \<or> bits < 0 then False
                       else let m = v6_netmask 16 (nat bits)
                            in mask_bytes m (v6Addr a) = mask_bytes m netAddr
      else let netAddr = ntohl (inet_addr api net);
               netMask = v4_netmask api msk;
               myAddr = ntohl (v4Addr a)
           in (myAddr AND netMask) = (netAddr AND netMask))"

definition matches_subnet :: "net_api \<Rightarrow> IPAddress \<Rightarrow> string \<Rightarrow> bool" where
  "matches_subnet api a subnet =
     (case find_chr (CHR ''/'') subnet of
        None \<Rightarrow> matches_mask api a subnet (if isIPv6 a then ''128'' else ''32'')
      | Some slashPos \<Rightarrow> matches_mask api a (take slashPos subnet) (drop (slashPos + 1) subnet))"

definition isMappedIPv4 :: "net_api \<Rightarrow> IPAddress \<Rightarrow> bool" where
  "isMappedIPv4 api a \<longleftrightarrow> isIPv6 a \<and> matches_mask api a ''0:0:0:0:0:FFFF::'' ''96''"

definition mappedIPv4 :: "IPAddress \<Rightarrow> IPAddress" where
  "mappedIPv4 a = IPAddress_v4 (take 4 (drop 12 (v6Addr a)))"

definition isLocalhost :: "net_api \<Rightarrow> IPAddress \<Rightarrow> bool" where
  "isLocalhost api a =
     (if isIPv6 a then inet_pton6 api ''::1'' = Some (v6Addr a)
      else inet_pton4 api ''127.0.0.1'' = Some (v4Addr a))"

section \<open>Netmasks\<close>

text \<open>The IPv6 mask a prefix length stands for: the leading bits, in each byte the high ones.\<close>

fun v6_prefix_mask :: "nat \<Rightarrow> nat \<Rightarrow> byte list" where
  "v6_prefix_mask 0 bits = []"
| "v6_prefix_mask (Suc k) bits = push_bit (8 - bits) 0xFF # v6_prefix_mask k (bits - 8)"

lemma v6_netmask_zero: "v6_netmask k 0 = replicate k 0"
  by (induction k) auto

lemma push8_zero: "push_bit 8 (0xFF :: byte) = 0"
  by simp

lemma v6_prefix_mask_zero: "v6_prefix_mask k 0 = replicate k 0"
  by (induction k) auto

lemma small_mask_differs:
  assumes "0 < r" and "r < (8 :: nat)"
  shows "drop_bit (8 - r) (0xFF :: byte) \<noteq> push_bit (8 - r) 0xFF"
proof -
  from assms have "r = 1 \<or> r = 2 \<or> r = 3 \<or> r = 4 \<or> r = 5 \<or> r = 6 \<or> r = 7" by linarith
  then show ?thesis by (elim disjE) simp_all
qed

text \<open>
  The IPv6 netmask is the one the prefix length stands for exactly when the length is a
  multiple of eight; otherwise the partial byte keeps its low instead of its high bits.
\<close>

theorem v6_netmask_correct_iff:
  "bits \<le> 8 * k \<longrightarrow> (v6_netmask k bits = v6_prefix_mask k bits \<longleftrightarrow> bits mod 8 = 0)"
proof (induction k arbitrary: bits)
  case 0
  then show ?case by simp
next
  case (Suc k)
  show ?case
  proof (cases "8 \<le> bits")
    case True
    then have "bits mod 8 = (bits - 8) mod 8" by (simp add: le_mod_geq)
    with Suc.IH [of "bits - 8"] True show ?thesis by auto
  next
    case False
    then show ?thesis
      using small_mask_differs [of bits]
      by (cases "bits = 0") (auto simp: v6_netmask_zero v6_prefix_mask_zero)
  qed
qed

lemma v6_netmask_correct_iff_witness: "v6_netmask 16 52 \<noteq> v6_prefix_mask 16 52"
  using v6_netmask_correct_iff [of 52 16] by simp

lemma v6_netmask_bytes: "v6_netmask k (8 * n) = replicate (min n k) 0xFF @ replicate (k - n) 0"
proof (induction k arbitrary: n)
  case 0
  then show ?case by simp
next
  case (Suc k)
  show ?case
  proof (cases n)
    case 0
    then show ?thesis by (simp add: v6_netmask_zero)
  next
    case (Suc m)
    have "8 * Suc m - 8 = 8 * m" by simp
    with Suc Suc.IH [of m] show ?thesis by simp
  qed
qed

lemma mask_bytes_prefix:
  assumes "length (bs :: byte list) = 16" and "n \<le> 16"
  shows "mask_bytes (replicate n 0xFF @ replicate (16 - n) 0) bs = take n bs @ replicate (16 - n) 0"
proof -
  have full: "x AND 0xFF = x" for x :: byte
  proof -
    have ff: "(0xFF :: byte) = mask 8" by (simp add: mask_eq_exp_minus_1)
    show ?thesis unfolding ff by (auto intro!: bit_word_eqI simp: bit_simps)
  qed
  show ?thesis
    using assms by (intro nth_equalityI) (auto simp: mask_bytes_def nth_append full min_def)
qed

lemma IsNumeric_show_nat: "IsNumeric (show_nat m)"
  using show_nat_digits [of m] is_digit_not_sign
  by (cases "show_nat m") (auto simp: IsNumeric_iff list_all_iff)

text \<open>
  With a prefix length that is a multiple of eight an IPv6 address matches a network iff
  the leading bytes agree.
\<close>

theorem matches_v6_whole_bytes:
  assumes "isIPv6 a" and "length (v6Addr a) = 16"
    and "inet_pton6 api net = Some na" and "length na = 16" and "n \<le> 16"
  shows "matches_mask api a net (show_int (int (8 * n))) \<longleftrightarrow> take n (v6Addr a) = take n na"
proof -
  define b where "b = 8 * n"
  have b128: "b \<le> 128" using assms(5) by (simp add: b_def)
  have num: "IsNumeric (show_int (int b))"
    by (simp add: show_int_def IsNumeric_show_nat)
  have at: "atoi (show_int (int b)) = int b"
    using b128 by (intro atoi_show_int) auto
  have mb: "mask_bytes (v6_netmask 16 b) bs = take n bs @ replicate (16 - n) 0"
    if "length bs = 16" for bs
    using mask_bytes_prefix [OF that assms(5)] assms(5)
    unfolding b_def v6_netmask_bytes by (simp add: min_absorb1)
  have "matches_mask api a net (show_int (int b)) \<longleftrightarrow>
      mask_bytes (v6_netmask 16 b) (v6Addr a) = mask_bytes (v6_netmask 16 b) na"
    using assms(1,3) num at b128 by (simp add: matches_mask_def Let_def)
  also have "\<dots> \<longleftrightarrow> take n (v6Addr a) = take n na"
    using assms(2,4) by (simp add: mb)
  finally show ?thesis by (simp only: b_def)
qed

text \<open>A network the library's parser accepts, as the hypotheses of the property ask.\<close>

definition sample_api :: "net_api" where
  "sample_api = \<lparr>inet_pton4 = (\<lambda>s. if s = ''127.0.0.1'' then Some [127, 0, 0, 1] else None),
     inet_pton6 = (\<lambda>s. if s = ''2001::'' then Some (0x20 # 1 # replicate 14 0) else None),
     inet_addr = (\<lambda>s. if s = ''10.0.0.0'' then [10, 0, 0, 0] else [255, 255, 255, 255]),
     ub_shift32 = 0xFFFFFFFF\<rparr>"

theorem matches_v6_whole_bytes_witness:
  "matches_mask sample_api (IPAddress_v6 (0x20 # 1 # replicate 14 7)) ''2001::'' (show_int (int (8 * 2)))"
  using matches_v6_whole_bytes [of "IPAddress_v6 (0x20 # 1 # replicate 14 7)" sample_api "''2001::''"
      "0x20 # 1 # replicate 14 0" 2]
  by (simp add: IPAddress_v6_def sample_api_def)

section \<open>IPv4 subnets\<close>

lemma push_mask_and:
  "k \<le> 32 \<Longrightarrow> (x AND push_bit k (0xFFFFFFFF :: 32 word)) = (y AND push_bit k 0xFFFFFFFF) \<longleftrightarrow>
     drop_bit k x = drop_bit k y"
proof -
  have ff: "(0xFFFFFFFF :: 32 word) = mask 32" by (simp add: mask_eq_exp_minus_1)
  have bitm: "bit (w AND push_bit k (mask 32)) n \<longleftrightarrow> n < 32 \<and> k \<le> n \<and> bit w n" for w :: "32 word" and n
    by (auto simp: bit_simps)
  show ?thesis
  proof
    assume eq: "(x AND push_bit k 0xFFFFFFFF) = (y AND push_bit k 0xFFFFFFFF)"
    show "drop_bit k x = drop_bit k y"
    proof (rule bit_word_eqI)
      fix n
      have "bit (x AND push_bit k 0xFFFFFFFF) (k + n) = bit (y AND push_bit k 0xFFFFFFFF) (k + n)"
        using eq by simp
      then show "bit (drop_bit k x) n = bit (drop_bit k y) n"
        unfolding ff bitm by (auto simp: bit_simps dest: bit_imp_le_length)
    qed
  next
    assume eq: "drop_bit k x = drop_bit k y"
    show "(x AND push_bit k 0xFFFFFFFF) = (y AND push_bit k 0xFFFFFFFF)"
      unfolding ff
    proof (rule bit_word_eqI)
      fix n
      have "bit (drop_bit k x) (n - k) = bit (drop_bit k y) (n - k)" using eq by simp
      then show "bit (x AND push_bit k (mask 32)) n = bit (y AND push_bit k (mask 32)) n"
        unfolding bitm by (auto simp: bit_simps)
    qed
  qed
qed

text \<open>
  An IPv4 rule with a prefix length from 1 to 32 matches exactly the addresses that agree
  with the network in that many leading bits; with length 0 the comparison uses the value of
  an undefined shift, and is exact equality when that value is all ones.
\<close>

theorem matches_v4_prefix:
  assumes "\<not> isIPv6 a" and "bits \<le> 32"
  shows "matches_mask api a net (show_int (int bits)) \<longleftrightarrow>
    (if bits = 0
     then ntohl (v4Addr a) AND ub_shift32 api = ntohl (inet_addr api net) AND ub_shift32 api
     else drop_bit (32 - bits) (ntohl (v4Addr a)) = drop_bit (32 - bits) (ntohl (inet_addr api net)))"
proof -
  have num: "IsNumeric (show_int (int bits))"
    by (simp add: show_int_def IsNumeric_show_nat)
  have at: "atoi (show_int (int bits)) = int bits"
    using assms(2) by (intro atoi_show_int) auto
  have "v4_netmask api (show_int (int bits)) =
      (if bits = 0 then ub_shift32 api else push_bit (32 - bits) 0xFFFFFFFF)"
    using assms(2) num at by (simp add: v4_netmask_def nat_diff_distrib)
  then show ?thesis
    using assms(1) push_mask_and [of "32 - bits"] by (simp add: matches_mask_def Let_def)
qed

theorem matches_v4_prefix_witness:
  "matches_mask sample_api (IPAddress_v4 [10, 1, 2, 3]) ''10.0.0.0'' (show_int (int 8)) \<longleftrightarrow>
     drop_bit (32 - 8) (ntohl [10, 1, 2, 3]) = drop_bit (32 - 8) (ntohl [10, 0, 0, 0])"
  using matches_v4_prefix [of "IPAddress_v4 [10, 1, 2, 3]" 8 sample_api "''10.0.0.0''"]
  by (simp add: IPAddress_v4_def sample_api_def)

section \<open>Keys and reversed names\<close>

lemma show_nat_Trim [simp]: "Trim (show_nat n) [TAB, CHR '' ''] = show_nat n"
proof -
  have nb: "c \<notin> set [TAB, CHR '' '']" if "c \<in> set (show_nat n)" for c
  proof -
    from that have "is_digit c" using show_nat_digits by blast
    then show ?thesis by (auto simp: is_digit_def code_def)
  qed
  then have "drop_last_while (\<lambda>c. c \<in> set [TAB, CHR '' '']) (show_nat n) = show_nat n"
    using show_nat_nonempty [of n]
    by (cases "show_nat n" rule: rev_cases) (simp, metis drop_last_while_snoc in_set_conv_decomp)
  moreover have "dropWhile (\<lambda>c. c \<in> set [TAB, CHR '' '']) (show_nat n) = show_nat n"
    using nb by (cases "show_nat n") auto
  ultimately show ?thesis by (simp only: Trim_def Let_def)
qed

lemma show_nat_no_char: "\<not> is_digit c \<Longrightarrow> c \<notin> set (show_nat n)"
  using show_nat_digits by blast

lemma punct_not_digit [simp]:
  "\<not> is_digit CHR ''.''" "\<not> is_digit DQUOTE" "\<not> is_digit BACKSLASH"
  by (simp_all add: is_digit_def code_def)

lemma ntop4_split:
  "ExplodeOutsideOfQuotation (ntop4 [a, b, c, d]) (CHR ''.'') False =
     map (\<lambda>x. show_nat (unat x)) [a, b, c, d]"
proof -
  have plain: "DQUOTE \<notin> set (ntop4 [a, b, c, d])" "BACKSLASH \<notin> set (ntop4 [a, b, c, d])"
    by (simp_all add: ntop4_def show_nat_no_char)
  have "explode_loop (CHR ''.'') [] (ntop4 [a, b, c, d]) = map (\<lambda>x. show_nat (unat x)) [a, b, c, d]"
    by (simp add: ntop4_def explode_loop_piece explode_loop_last show_nat_no_char)
  then show ?thesis
    unfolding ExplodeOutsideOfQuotation_def explode_quoted_plain [OF plain] by simp
qed

text \<open>The DNS blacklist name of an IPv4 address is its dotted form with the bytes reversed.\<close>

theorem toReversedString_v4:
  "toReversedString (IPAddress_v4 [a, b, c, d]) = ntop4 [d, c, b, a]"
  by (simp add: toReversedString_def IPAddress_v4_def ntop4_split)
     (simp add: ntop4_def butlast_append)

lemma hex_char_inj: "n < 16 \<Longrightarrow> m < 16 \<Longrightarrow> hex_char False n = hex_char False m \<Longrightarrow> n = m"
proof -
  assume "n < 16" "m < 16" and eq: "hex_char False n = hex_char False m"
  then have "code (hex_char False n) = code (hex_char False m)" by simp
  with \<open>n < 16\<close> \<open>m < 16\<close> show "n = m"
    by (simp add: hex_char_def split: if_splits)
qed

lemma hex2_inj: "hex2 False a = hex2 False b \<Longrightarrow> a = b"
proof -
  assume "hex2 False a = hex2 False b"
  then have "unat a div 16 = unat b div 16" and "unat a mod 16 = unat b mod 16"
    using unat_byte_less [of a] unat_byte_less [of b]
    by (auto simp: hex2_def intro!: hex_char_inj)
  then have "unat a = unat b" by (metis div_mult_mod_eq)
  then show "a = b" by (simp add: word_unat_eq_iff)
qed

lemma hex_concat_inj:
  "length as = length bs \<Longrightarrow> concat (map (hex2 False) as) = concat (map (hex2 False) bs) \<Longrightarrow> as = bs"
proof (induction as bs rule: list_induct2)
  case (Cons x xs y ys)
  then have "hex2 False x = hex2 False y" and "xs = ys"
    by (auto simp: hex2_def)
  with hex2_inj show ?case by blast
qed simp

lemma be_nat_4: "be_nat [a, b, c, d] = ((unat a * 256 + unat b) * 256 + unat c) * 256 + unat d"
  by (simp add: be_nat_def algebra_simps)

lemma digit256_inj:
  "(x :: nat) * 256 + d = y * 256 + e \<Longrightarrow> d < 256 \<Longrightarrow> e < 256 \<Longrightarrow> x = y \<and> d = e"
proof -
  assume eq: "x * 256 + d = y * 256 + e" and "d < 256" "e < 256"
  then have "x \<le> y" and "y \<le> x" by linarith+
  with eq show ?thesis by simp
qed

lemma be_nat_inj4:
  assumes "be_nat [a, b, c, d] = be_nat [a', b', c', d']"
  shows "[a, b, c, d] = [a', b', c', d']"
proof -
  note inj = digit256_inj [OF _ unat_byte_less unat_byte_less]
  note d = inj [OF assms [unfolded be_nat_4]]
  note c = inj [OF d [THEN conjunct1]]
  note b = inj [OF c [THEN conjunct1]]
  from d c b show ?thesis by (simp add: word_unat_eq_iff)
qed

lemma be_nat_bound4: "be_nat [a, b, c, d] < 2 ^ 32"
  unfolding be_nat_4
  using unat_byte_less [of a] unat_byte_less [of b] unat_byte_less [of c] unat_byte_less [of d]
  by simp

lemma to_int32_inj: "0 \<le> m \<Longrightarrow> m < 2 ^ 32 \<Longrightarrow> 0 \<le> n \<Longrightarrow> n < 2 ^ 32 \<Longrightarrow> to_int32 m = to_int32 n \<Longrightarrow> m = n"
proof -
  assume b: "0 \<le> m" "m < 2 ^ 32" "0 \<le> n" "n < 2 ^ 32" and "to_int32 m = to_int32 n"
  then have "(m + 2 ^ 31) mod 2 ^ 32 = (n + 2 ^ 31) mod 2 ^ 32"
    by (simp add: to_int32_def)
  from mod_diff_cong [OF this refl, of "2 ^ 31"] have "m mod 2 ^ 32 = n mod 2 ^ 32" by simp
  with b show "m = n" by simp
qed

lemma show_int_inj32: "show_int (to_int32 m) = show_int (to_int32 n) \<Longrightarrow> to_int32 m = to_int32 n"
  using to_int32_bounds [of m] to_int32_bounds [of n] by (metis atoi_show_int)

text \<open>
  The database key of an address determines it, so two different addresses of one family
  never share an entry of the ban list or of the greylist.
\<close>

theorem dbString_inj:
  assumes "ip_wf a" and "ip_wf b" and "isIPv6 a = isIPv6 b" and "dbString a = dbString b"
  shows "if isIPv6 a then v6Addr a = v6Addr b else v4Addr a = v4Addr b"
proof (cases "isIPv6 a")
  case True
  with assms have "rev (v6Addr a) = rev (v6Addr b)"
    by (intro hex_concat_inj) (auto simp: ip_wf_def dbString_def)
  with True show ?thesis by simp
next
  case False
  with assms obtain p q r s p' q' r' s' where
    ab: "v4Addr a = [p, q, r, s]" "v4Addr b = [p', q', r', s']"
    by (auto simp: ip_wf_def numeral_eq_Suc length_Suc_conv)
  from False assms(3,4) have "s_addr_int (v4Addr a) = s_addr_int (v4Addr b)"
    by (auto simp: dbString_def s_addr_int_def dest: show_int_inj32)
  then have "to_int32 (int (be_nat [s, r, q, p])) = to_int32 (int (be_nat [s', r', q', p']))"
    by (simp add: s_addr_int_def ab)
  from to_int32_inj [OF _ _ _ _ this] have "int (be_nat [s, r, q, p]) = int (be_nat [s', r', q', p'])"
    using be_nat_bound4 [of s r q p] be_nat_bound4 [of s' r' q' p'] by simp
  then have "be_nat [s, r, q, p] = be_nat [s', r', q', p']" by simp
  with ab False show ?thesis by (auto dest: be_nat_inj4)
qed

theorem dbString_inj_witness:
  "(if isIPv6 (IPAddress_v4 [1, 2, 3, 4]) then v6Addr (IPAddress_v4 [1, 2, 3, 4]) = zero6
    else v4Addr (IPAddress_v4 [1, 2, 3, 4]) = [1, 2, 3, 4])"
  using dbString_inj [of "IPAddress_v4 [1, 2, 3, 4]" "IPAddress_v4 [1, 2, 3, 4]"]
  by (simp add: IPAddress_v4_def ip_wf_def)

end
