(* ===== verification/Database.thy ===== *)
theory Database
  imports UtilsNet
begin

text \<open>
  The MySQL tables that the modelled code reads and writes, as lists of row records in the
  order the server returns them, the process-wide environment (configuration and the parts
  that are not under src/) and the operations of \<open>Core::Utils\<close> on the tables
  (src/core/utils.cpp): users and aliases, preferences, failed-login bans, sending limits and
  abuse points. Each SQL statement is translated to a filter or an update of its table.
  An absent configuration key, which the C++ code would dereference as NULL, reads as the
  empty string. Columns are integers and strings; \<open>AUTO_INCREMENT\<close> takes a counter.
\<close>

section \<open>Environment and tables\<close>

record env =
  cfg :: "string \<Rightarrow> string option"                 \<comment> \<open>\<open>Config::Get\<close>\<close>
  sql_eq :: "string \<Rightarrow> string \<Rightarrow> bool"            \<comment> \<open>string equality of the server's collation\<close>
  sql_lower :: "string \<Rightarrow> string"                 \<comment> \<open>SQL \<open>LOWER\<close>\<close>
  md5 :: "string \<Rightarrow> string"
  net :: net_api
  pcre_match :: "string \<Rightarrow> string \<Rightarrow> bool \<Rightarrow> bool" \<comment> \<open>pattern, subject, caseless\<close>
  plugin_lookup_user :: "(string \<Rightarrow> int) list"      \<comment> \<open>\<open>OnLookupUser\<close> of each plugin\<close>
  plugin_open_body :: "(string \<Rightarrow> string option) list" \<comment> \<open>\<open>OnOpenMailBody\<close> of each plugin\<close>
  mail_match :: "string \<Rightarrow> (nat \<times> nat) option"   \<comment> \<open>first match of the address pattern\<close>
  today_key :: "int \<Rightarrow> string"                    \<comment> \<open>\<open>strftime\<close> of \<open>%d%m%y\<close>\<close>
  time_text :: "int \<Rightarrow> string"                    \<comment> \<open>\<open>TimeToString\<close>\<close>
  tls_available :: bool
  begin_tls :: "string option"                     \<comment> \<open>the error of \<open>BeginTLS\<close>, if any\<close>
  can_write :: "string \<Rightarrow> bool"                   \<comment> \<open>permission to create a file\<close>
  deflate :: "string \<Rightarrow> string"
  inflate :: "string \<Rightarrow> string"
  sql_like :: "string \<Rightarrow> string \<Rightarrow> bool"          \<comment> \<open>SQL \<open>LIKE\<close>: value, pattern\<close>
  sql_int_eq :: "int \<Rightarrow> string \<Rightarrow> bool"           \<comment> \<open>an integer column compared with a string\<close>
  titel_rank :: "string \<Rightarrow> nat"                 \<comment> \<open>place of a folder title in the server's order\<close>
  mktime :: "int \<times> int \<times> int \<times> int \<times> int \<times> int \<Rightarrow> int" \<comment> \<open>local year, month, day, hour, minute, second\<close>

definition cfg_str :: "'x env_scheme \<Rightarrow> string \<Rightarrow> string" where
  "cfg_str e k = (case cfg e k of Some v \<Rightarrow> v | None \<Rightarrow> [])"

definition cfg_int :: "'x env_scheme \<Rightarrow> string \<Rightarrow> int" where
  "cfg_int e k = atoi (cfg_str e k)"

definition cfg_is1 :: "'x env_scheme \<Rightarrow> string \<Rightarrow> bool" where
  "cfg_is1 e k \<longleftrightarrow> cfg_str e k = ''1''"

record user_row =
  u_id :: int
  u_email :: string
  u_gruppe :: int
  u_gesperrt :: string
  u_locked :: string
  u_passwort :: string
  u_salt :: string
  u_today_sent :: int
  u_today_key :: string
  u_sent_mails :: int
  u_mta_sentmails :: int
  u_lastlogin :: int
  u_last_pop3 :: int
  u_last_imap :: int
  u_last_smtp :: int
  u_mailspace_used :: int
  u_mailspace_add :: int
  u_mailbox_generation :: int
  u_structure_generation :: int
  u_saliase :: string

record alias_row =
  a_email :: string
  a_user :: int
  a_type :: int
  a_login :: string

record workgroup_row =
  w_id :: int
  w_email :: string

record group_row =
  g_id :: int
  g_pop3 :: string
  g_smtp :: string
  g_imap :: string
  g_storage :: int
  g_anlagen :: int
  g_send_limit :: int
  g_send_limit_count :: int
  g_send_limit_time :: int
  g_max_recps :: int
  g_abuseprotect :: string
  g_saliase :: string
  g_signatur :: string

record failban_row =
  fb_id :: int
  fb_ip :: string
  fb_ip6 :: string
  fb_type :: int
  fb_last_update :: int
  fb_entry_date :: int
  fb_attempts :: int
  fb_banned_until :: int

record greylist_row =
  gl_ip :: string
  gl_ip6 :: string
  gl_time :: int
  gl_confirmed :: int

record stat_row =
  st_id :: int
  st_userid :: int
  st_recipients :: int
  st_time :: int

record abuse_row =
  ab_userid :: int
  ab_date :: int
  ab_type :: int
  ab_points :: int
  ab_comment :: string

record mail_row =
  m_id :: int
  m_userid :: int
  m_folder :: int
  m_size :: int
  m_body :: string
  m_blobstorage :: int
  m_flags :: int
  m_fetched :: int
  m_datum :: int
  m_trashstamp :: int
  m_betreff :: string
  m_von :: string
  m_an :: string
  m_cc :: string
  m_priority :: string
  m_msg_id :: string
  m_refs :: string
  m_virnam :: string
  m_trained :: string
  m_color :: int

record folder_row =
  f_id :: int
  f_userid :: int
  f_parent :: int
  f_titel :: string
  f_subscribed :: int
  f_intelligent :: int
  f_link :: int

record event_row =
  ev_userid :: int
  ev_type :: int
  ev_param1 :: int
  ev_param2 :: int

record dnsbl_row =
  bl_host :: string
  bl_classification :: int
  bl_type :: string
  bl_match_ips :: string

record milter_row =
  mi_id :: int
  mi_hostname :: string
  mi_port :: int
  mi_flags :: int
  mi_default_action :: int

record queue_row =
  q_id :: int
  q_active :: int
  q_deleted :: int
  q_type :: int
  q_date :: int
  q_size :: int
  q_from :: string
  q_to :: string
  q_to_domain :: string
  q_attempts :: int
  q_last_attempt :: int
  q_last_status :: int
  q_last_status_info :: string
  q_last_status_code :: string
  q_last_diagnostic_code :: string
  q_smtp_user :: int
  q_b1gmail_user :: int
  q_deliverystatusid :: int

record mdstatus_row =
  md_id :: int
  md_status :: int
  md_updated :: int
  md_delivered_to :: string

record world =
  now :: int
  users :: "user_row list"
  aliases :: "alias_row list"
  workgroups :: "workgroup_row list"
  groups :: "group_row list"
  domain_names :: "string list"
  userprefs :: "(int \<times> string \<times> string) list"
  groupoptions :: "(int \<times> string \<times> string) list"   \<comment> \<open>group, key, value of module B1GMailServerAdmin\<close>
  failban :: "failban_row list"
  greylist :: "greylist_row list"
  sendstats :: "stat_row list"
  smtpstats :: "stat_row list"
  abuse_config :: "(int \<times> int \<times> string) list"       \<comment> \<open>type, points, prefs\<close>
  abuse_points :: "abuse_row list"
  mails :: "mail_row list"
  attachments :: "(int \<times> int) list"                    \<comment> \<open>mailid, userid\<close>
  folders :: "folder_row list"
  folder_conditions :: "(int \<times> int \<times> int \<times> string) list" \<comment> \<open>folder, field, op, val\<close>
  imapuids :: "(int \<times> int) list"                       \<comment> \<open>mailid, imapuid\<close>
  apns_subscriptions :: "(int \<times> int \<times> string \<times> string \<times> string) list"
    \<comment> \<open>subscriptionid, userid, account, device token, subtopic\<close>
  apns_folders :: "(int \<times> int) list"                   \<comment> \<open>folderid, subscriptionid\<close>
  eventqueue :: "event_row list"
  subnets :: "(string \<times> string \<times> int) list"             \<comment> \<open>ip, mask, classification\<close>
  dnsbls :: "dnsbl_row list"
  milters :: "milter_row list"
  msgqueue :: "queue_row list"
  mdstatus :: "mdstatus_row list"
  files :: "string \<Rightarrow> string option"
  dirs :: "string list"
  blobs :: "int \<times> int \<times> int \<Rightarrow> (int \<times> int \<times> string) option" \<comment> \<open>user, type, id; flags, size, data\<close>
  next_id :: int
  rands :: "nat \<Rightarrow> int"                                   \<comment> \<open>future values of \<open>ts_rand\<close>\<close>
  apEnabledCache :: "(int \<times> bool) list"
  apTypeCache :: "(int \<times> int) list"
  apConfigCache :: "((int \<times> string) \<times> string) list"

section \<open>Users and addresses\<close>

definition first_nonzero :: "(string \<Rightarrow> int) list \<Rightarrow> string \<Rightarrow> int" where
  "first_nonzero fs s = (case filter (\<lambda>f. f s \<noteq> 0) fs of [] \<Rightarrow> 0 | f # _ \<Rightarrow> f s)"

definition lookup_by_email :: "'x env_scheme \<Rightarrow> world \<Rightarrow> string \<Rightarrow> bool \<Rightarrow> int" where
  "lookup_by_email e w adr findDeleted =
     (case filter (\<lambda>u. sql_eq e (u_email u) adr) (users w) of
        [] \<Rightarrow> 0
      | u # _ \<Rightarrow> if findDeleted \<or> u_gesperrt u \<noteq> ''delete'' then u_id u else 0)"

definition lookup_by_alias :: "'x env_scheme \<Rightarrow> world \<Rightarrow> string \<Rightarrow> bool \<Rightarrow> bool \<Rightarrow> int" where
  "lookup_by_alias e w adr needLogin findDeleted =
     (case filter (\<lambda>(u, a). a_type a AND 2 \<noteq> 0 \<and> sql_eq e (a_email a) adr \<and>
                     (needLogin \<longrightarrow> a_login a = ''yes'') \<and> u_id u = a_user a)
             (List.product (users w) (aliases w)) of
        [] \<Rightarrow> 0
      | (u, _) # _ \<Rightarrow> if findDeleted \<or> u_gesperrt u \<noteq> ''delete'' then u_id u else 0)"

definition lookup_by_workgroup :: "'x env_scheme \<Rightarrow> world \<Rightarrow> string \<Rightarrow> int" where
  "lookup_by_workgroup e w adr =
     (case filter (\<lambda>g. sql_eq e (w_email g) adr) (workgroups w) of
        [] \<Rightarrow> 0
      | g # _ \<Rightarrow> - w_id g)"

definition LookupUser :: "'x env_scheme \<Rightarrow> world \<Rightarrow> string \<Rightarrow> bool \<Rightarrow> bool \<Rightarrow> int" where
  "LookupUser e w szAddress forLogin findDeleted =
     (let bHaveLoginField = cfg_is1 e ''enable_aliaslogin'';
          r1 = lookup_by_email e w szAddress findDeleted;
          r2 = (if r1 = 0 then lookup_by_alias e w szAddress (forLogin \<and> bHaveLoginField) findDeleted
                else r1);
          r3 = (if r2 = 0 then lookup_by_workgroup e w szAddress else r2)
      in if r3 = 0 then first_nonzero (plugin_lookup_user e) szAddress else r3)"

definition GetAlias :: "'x env_scheme \<Rightarrow> world \<Rightarrow> string \<Rightarrow> int" where
  "GetAlias e w szEMail =
     (let bHaveLoginField = cfg_is1 e ''enable_aliaslogin''
      in case filter (\<lambda>a. sql_eq e (a_email a) szEMail \<and> (bHaveLoginField \<longrightarrow> a_login a = ''yes''))
                (aliases w) of
           [] \<Rightarrow> -1
         | a # _ \<Rightarrow> a_user a)"

definition IsValidSenderAddressForUser :: "world \<Rightarrow> int \<Rightarrow> string \<Rightarrow> bool" where
  "IsValidSenderAddressForUser w iUserID szAddress \<longleftrightarrow>
     list_ex (\<lambda>u. u_id u = iUserID \<and> strcaseeq (u_email u) szAddress) (users w) \<or>
     list_ex (\<lambda>a. a_user a = iUserID \<and> a_type a AND 4 = 0 \<and> strcaseeq (a_email a) szAddress)
       (aliases w)"

definition GetUserPref :: "'x env_scheme \<Rightarrow> world \<Rightarrow> int \<Rightarrow> string \<Rightarrow> string \<Rightarrow> string" where
  "GetUserPref e w userID name defaultValue =
     foldl (\<lambda>result (uid, k, v). if uid = userID \<and> sql_eq e k name then v else result)
       defaultValue (userprefs w)"

definition GetGroupOption :: "'x env_scheme \<Rightarrow> world \<Rightarrow> int \<Rightarrow> string \<Rightarrow> string \<Rightarrow> string" where
  "GetGroupOption e w userID name defaultValue =
     foldl (\<lambda>result ((g, k, v), u). if g = u_gruppe u \<and> u_id u = userID \<and> sql_eq e k name then v else result)
       defaultValue (List.product (groupoptions w) (users w))"

definition nonempty_parts :: "string \<Rightarrow> string list" where
  "nonempty_parts s = filter (\<lambda>p. p \<noteq> []) (Explode s (CHR '':''))"

definition GetLocalDomains :: "'x env_scheme \<Rightarrow> world \<Rightarrow> string set" where
  "GetLocalDomains e w =
     set (if cfg_is1 e ''user_alias_domains'' then map (sql_lower e) (domain_names w)
          else nonempty_parts (cfg_str e ''domains'')) \<union>
     set (concat (map (\<lambda>g. nonempty_parts (sql_lower e (g_saliase g)))
            (filter (\<lambda>g. g_saliase g \<noteq> []) (groups w)))) \<union>
     (if cfg_is1 e ''user_alias_domains''
      then set (concat (map (\<lambda>u. nonempty_parts (sql_lower e (u_saliase u)))
             (filter (\<lambda>u. u_saliase u \<noteq> []) (users w))))
      else {})"

section \<open>Sending limits\<close>

definition stat_sum :: "stat_row list \<Rightarrow> int \<Rightarrow> int \<Rightarrow> int option" where
  "stat_sum rows userID since =
     (let rs = filter (\<lambda>r. st_userid r = userID \<and> st_time r \<ge> since) rows
      in if rs = [] then None else Some (sum_list (map st_recipients rs)))"

text \<open>The answer and the value stored through \<open>actualRecipientCount\<close>.\<close>

definition MaySendMail :: "world \<Rightarrow> int \<Rightarrow> int \<Rightarrow> int \<Rightarrow> int \<Rightarrow> bool \<times> int" where
  "MaySendMail w userID recipientCount sendLimitCount sendLimitTime =
     (if recipientCount < 1 then (False, 0)
      else if sendLimitCount \<le> 0 \<or> sendLimitTime \<le> 0 then (True, 0)
      else if recipientCount > sendLimitCount then (False, 0)
      else let count = (case stat_sum (sendstats w) userID (now w - 60 * sendLimitTime) of
                          None \<Rightarrow> 0 | Some n \<Rightarrow> n)
           in (count + recipientCount \<le> sendLimitCount, count))"

definition AddSendStat :: "world \<Rightarrow> int \<Rightarrow> int \<Rightarrow> int \<times> world" where
  "AddSendStat w userID recipientCount =
     (next_id w,
      w\<lparr>sendstats := sendstats w @
          [\<lparr>st_id = next_id w, st_userid = userID, st_recipients = max 1 recipientCount,
            st_time = now w\<rparr>],
        next_id := next_id w + 1\<rparr>)"

section \<open>Abuse points\<close>

definition parse_prefs :: "int \<Rightarrow> string \<Rightarrow> ((int \<times> string) \<times> string) list" where
  "parse_prefs type prefs =
     concat (map (\<lambda>item. case find_chr (CHR ''='') item of
                     None \<Rightarrow> []
                   | Some eqPos \<Rightarrow>
                       let pKey = take eqPos item; pVal = drop (eqPos + 1) item
                       in if pKey = [] \<or> pVal = [] then [] else [((type, pKey), pVal)])
       (ExplodeOutsideOfQuotation prefs (CHR '';'') False))"

text \<open>The cache as filled from the table: a later pair replaces an earlier one.\<close>

definition abuse_table :: "world \<Rightarrow> ((int \<times> string) \<times> string) list" where
  "abuse_table w = rev (concat (map (\<lambda>(t, _, prefs). parse_prefs t prefs)
                     (filter (\<lambda>(_, _, prefs). prefs \<noteq> []) (abuse_config w))))"

definition GetAbuseTypeConfig :: "'x env_scheme \<Rightarrow> world \<Rightarrow> int \<Rightarrow> string \<Rightarrow> string \<times> world" where
  "GetAbuseTypeConfig e w type key =
     (if \<not> cfg_is1 e ''enable_ap'' then ([], w)
      else let cache = (if apConfigCache w = [] then abuse_table w else apConfigCache w)
           in case map_of cache (type, key) of
                Some v \<Rightarrow> (v, w\<lparr>apConfigCache := cache\<rparr>)
              | None \<Rightarrow> ([], w\<lparr>apConfigCache := ((type, key), []) # cache\<rparr>))"

definition abuse_enabled :: "world \<Rightarrow> int \<Rightarrow> bool" where
  "abuse_enabled w userID =
     list_ex (\<lambda>(g, u). g_id g = u_gruppe u \<and> u_id u = userID \<and> g_abuseprotect g = ''yes'')
       (List.product (groups w) (users w))"

definition AddAbusePoint :: "'x env_scheme \<Rightarrow> world \<Rightarrow> int \<Rightarrow> int \<Rightarrow> string \<Rightarrow> world" where
  "AddAbusePoint e w userID type comment =
     (if userID \<le> 0 then w
      else if \<not> cfg_is1 e ''enable_ap'' then w
      else let (apEnabled, w1) =
                 (case map_of (apEnabledCache w) userID of
                    None \<Rightarrow> let b = abuse_enabled w userID
                            in (b, w\<lparr>apEnabledCache := (userID, b) # apEnabledCache w\<rparr>)
                  | Some b \<Rightarrow> (b, w))
           in if \<not> apEnabled then w1
              else let cache = (if apTypeCache w1 = []
                                then rev (map (\<lambda>(t, p, _). (t, p)) (abuse_config w1))
                                else apTypeCache w1);
                       points = (case map_of cache type of Some p \<Rightarrow> p | None \<Rightarrow> 0)
                   in w1\<lparr>apTypeCache := (case map_of cache type of Some _ \<Rightarrow> cache | None \<Rightarrow> (type, 0) # cache),
                         abuse_points := abuse_points w1 @
                           [\<lparr>ab_userid = userID, ab_date = now w1, ab_type = type,
                             ab_points = points, ab_comment = comment\<rparr>]\<rparr>)"

definition PostEvent :: "world \<Rightarrow> int \<Rightarrow> int \<Rightarrow> int \<Rightarrow> int \<Rightarrow> world" where
  "PostEvent w userID eventType p1 p2 =
     w\<lparr>eventqueue := eventqueue w @
        [\<lparr>ev_userid = userID, ev_type = eventType, ev_param1 = p1, ev_param2 = p2\<rparr>]\<rparr>"

section \<open>Failed-login bans\<close>

definition ban_key :: "IPAddress \<Rightarrow> string \<times> string" where
  "ban_key ip = (if isIPv6 ip then (''0'', dbString ip) else (dbString ip, []))"

definition fb_key :: "failban_row \<Rightarrow> string \<times> string" where
  "fb_key r = (fb_ip r, fb_ip6 r)"

definition Failban_IsBanned :: "'x env_scheme \<Rightarrow> world \<Rightarrow> IPAddress \<Rightarrow> int \<Rightarrow> bool" where
  "Failban_IsBanned e w ip iType =
     (if cfg_int e ''failban_types'' AND iType = 0 \<or> isLocalhost (net e) ip then False
      else length (filter (\<lambda>r. fb_key r = ban_key ip \<and> fb_banned_until r \<ge> now w \<and>
                     fb_type r AND iType \<noteq> 0) (failban w)) > 0)"

definition failban_new_until :: "'x env_scheme \<Rightarrow> world \<Rightarrow> failban_row \<Rightarrow> int" where
  "failban_new_until e w r =
     (if fb_banned_until r < now w
      then if fb_last_update r < now w - cfg_int e ''failban_time'' then 0
           else if fb_attempts r + 1 \<ge> cfg_int e ''failban_attempts''
           then now w + cfg_int e ''failban_bantime''
           else 0
      else fb_banned_until r)"

definition failban_bump :: "'x env_scheme \<Rightarrow> world \<Rightarrow> failban_row \<Rightarrow> failban_row" where
  "failban_bump e w r =
     (let expired = fb_last_update r < now w - cfg_int e ''failban_time''
      in r\<lparr>fb_last_update := now w,
           fb_entry_date := (if expired then now w else fb_entry_date r),
           fb_attempts := (if expired then 1 else fb_attempts r + 1),
           fb_banned_until := failban_new_until e w r\<rparr>)"

definition Failban_LoginFailed :: "'x env_scheme \<Rightarrow> world \<Rightarrow> IPAddress \<Rightarrow> int \<Rightarrow> bool \<times> world" where
  "Failban_LoginFailed e w ip iType =
     (if cfg_int e ''failban_types'' AND iType = 0 \<or> isLocalhost (net e) ip then (False, w)
      else case filter (\<lambda>r. fb_key r = ban_key ip \<and> fb_type r = iType) (failban w) of
             r # _ \<Rightarrow>
               (fb_attempts r + 1 \<ge> cfg_int e ''failban_attempts'' \<and>
                  fb_last_update r \<ge> now w - cfg_int e ''failban_time'',
                w\<lparr>failban := map (\<lambda>x. if fb_id x = fb_id r then failban_bump e w r else x) (failban w)\<rparr>)
           | [] \<Rightarrow>
               (False,
                w\<lparr>failban := failban w @
                    [\<lparr>fb_id = next_id w, fb_ip = fst (ban_key ip), fb_ip6 = snd (ban_key ip),
                      fb_type = iType, fb_last_update = now w, fb_entry_date = now w,
                      fb_attempts = 1, fb_banned_until = 0\<rparr>],
                  next_id := next_id w + 1\<rparr>))"

section \<open>Login checks\<close>

text \<open>
  The condition on the password in the login queries of POP3 and SMTP, and the requirement of
  a recent web login that both check afterwards.
\<close>

definition password_ok :: "'x env_scheme \<Rightarrow> user_row \<Rightarrow> string \<Rightarrow> bool" where
  "password_ok e u pass =
     (if cfg_is1 e ''salted_passwords''
      then sql_eq e (u_passwort u) (md5 e (md5 e pass @ u_salt u))
      else sql_eq e (u_passwort u) (md5 e pass))"

definition web_login_missing :: "'x env_scheme \<Rightarrow> world \<Rightarrow> int \<Rightarrow> int \<Rightarrow> bool" where
  "web_login_missing e w userID iLastLogin =
     (let iWebLoginInterval = atoi (GetGroupOption e w userID ''weblogin_interval'' ''0'');
          bRequireWebLogin = (GetGroupOption e w userID ''require_weblogin'' ''1'' = ''1'')
      in (bRequireWebLogin \<and> iLastLogin = 0) \<or>
         (bRequireWebLogin \<and> 0 < iWebLoginInterval \<and>
          iLastLogin < now w - to_int32 (iWebLoginInterval * 86400)))"

section \<open>Facts on users and addresses\<close>

lemma filter_hd_in: "filter P xs = y # ys \<Longrightarrow> y \<in> set xs \<and> P y"
  using Cons_eq_filterD [of y ys P xs] by auto

lemma lookup_by_email_pos:
  "lookup_by_email e w adr fd \<noteq> 0 \<Longrightarrow>
     \<exists>u \<in> set (users w). u_id u = lookup_by_email e w adr fd \<and> (fd \<or> u_gesperrt u \<noteq> ''delete'')"
  by (auto simp: lookup_by_email_def split: list.splits if_splits dest!: filter_hd_in)

lemma lookup_by_alias_pos:
  "lookup_by_alias e w adr nl fd \<noteq> 0 \<Longrightarrow>
     \<exists>u \<in> set (users w). u_id u = lookup_by_alias e w adr nl fd \<and> (fd \<or> u_gesperrt u \<noteq> ''delete'')"
  by (auto simp: lookup_by_alias_def split: list.splits if_splits dest!: filter_hd_in)

lemma lookup_by_workgroup_neg:
  "\<forall>g \<in> set (workgroups w). 0 < w_id g \<Longrightarrow> lookup_by_workgroup e w adr \<le> 0"
  by (auto simp: lookup_by_workgroup_def split: list.splits dest!: filter_hd_in)

text \<open>
  A positive answer of \<open>LookupUser\<close> on a server without plugins is the id of an account of
  the users table, and of one that is not marked deleted unless the caller asked for deleted
  accounts: neither the alias table nor the workgroups can make mail reach a deleted account.
\<close>

theorem LookupUser_sound:
  assumes "plugin_lookup_user e = []" and "\<forall>g \<in> set (workgroups w). 0 < w_id g"
    and "0 < LookupUser e w adr forLogin findDeleted"
  shows "\<exists>u \<in> set (users w). u_id u = LookupUser e w adr forLogin findDeleted \<and>
           (findDeleted \<or> u_gesperrt u \<noteq> ''delete'')"
proof -
  let ?nl = "forLogin \<and> cfg_is1 e ''enable_aliaslogin''"
  consider (email) "lookup_by_email e w adr findDeleted \<noteq> 0"
         | (by_alias) "lookup_by_email e w adr findDeleted = 0" "lookup_by_alias e w adr ?nl findDeleted \<noteq> 0"
         | (other) "lookup_by_email e w adr findDeleted = 0" "lookup_by_alias e w adr ?nl findDeleted = 0"
    by blast
  then show ?thesis
  proof cases
    case email
    then show ?thesis
      using lookup_by_email_pos [OF email] by (simp add: LookupUser_def Let_def)
  next
    case by_alias
    then show ?thesis
      using lookup_by_alias_pos [OF by_alias(2)] by (simp add: LookupUser_def Let_def)
  next
    case other
    with assms lookup_by_workgroup_neg [OF assms(2), of e adr] show ?thesis
      by (simp add: LookupUser_def Let_def first_nonzero_def split: if_splits)
  qed
qed

section \<open>Failed-login bans\<close>

lemma failban_disabled:
  "cfg_int e ''failban_types'' AND ty = 0 \<or> isLocalhost (net e) ip \<Longrightarrow>
     Failban_LoginFailed e w ip ty = (False, w)"
  by (simp add: Failban_LoginFailed_def)

definition row_banned :: "int \<Rightarrow> string \<times> string \<Rightarrow> int \<Rightarrow> failban_row \<Rightarrow> bool" where
  "row_banned t k m r \<longleftrightarrow> fb_key r = k \<and> fb_banned_until r \<ge> t \<and> fb_type r AND m \<noteq> 0"

lemma Failban_IsBanned_rows:
  "Failban_IsBanned e w ip m \<longleftrightarrow>
     cfg_int e ''failban_types'' AND m \<noteq> 0 \<and> \<not> isLocalhost (net e) ip \<and>
     (\<exists>r \<in> set (failban w). row_banned (now w) (ban_key ip) m r)"
  by (auto simp: Failban_IsBanned_def row_banned_def filter_empty_conv)

lemma fb_key_bump [simp]: "fb_key (failban_bump e w r) = fb_key r"
  and fb_type_bump [simp]: "fb_type (failban_bump e w r) = fb_type r"
  and fb_id_bump [simp]: "fb_id (failban_bump e w r) = fb_id r"
  and fb_until_bump [simp]: "fb_banned_until (failban_bump e w r) = failban_new_until e w r"
  by (simp_all add: failban_bump_def fb_key_def Let_def)

text \<open>Whether the call on the stored row reports a ban.\<close>

definition ban_reached :: "'x env_scheme \<Rightarrow> world \<Rightarrow> failban_row \<Rightarrow> bool" where
  "ban_reached e w r \<longleftrightarrow> fb_attempts r + 1 \<ge> cfg_int e ''failban_attempts'' \<and>
     fb_last_update r \<ge> now w - cfg_int e ''failban_time''"

lemma failban_new_until_ge:
  assumes "0 < now w" and "0 \<le> cfg_int e ''failban_bantime''"
  shows "now w \<le> failban_new_until e w r \<longleftrightarrow> now w \<le> fb_banned_until r \<or> ban_reached e w r"
  using assms by (auto simp: failban_new_until_def ban_reached_def)

lemma bex_map_update:
  assumes "distinct (map f xs)" and "r \<in> set xs"
  shows "(\<exists>x \<in> set (map (\<lambda>x. if f x = f r then g r else x) xs). P x) \<longleftrightarrow>
           P (g r) \<or> (\<exists>x \<in> set xs. x \<noteq> r \<and> P x)"
proof -
  have "\<And>x. x \<in> set xs \<Longrightarrow> f x = f r \<longleftrightarrow> x = r"
    using assms by (auto simp: distinct_map inj_on_def)
  then show ?thesis using assms(2) by auto
qed

text \<open>
  A failed login changes who is banned exactly as its answer says. With unique row ids, a
  clock past 1970 and a non-negative ban time, an address and a set of login types is banned
  after \<open>Failban_LoginFailed\<close> iff it was banned before, or the call answered true and the
  address is the one that failed and the types include the one that failed. So no failed login
  bans another address, and none shortens a ban.
\<close>

theorem Failban_ban_exact:
  assumes "distinct (map fb_id (failban w))" and "0 < now w"
    and "0 \<le> cfg_int e ''failban_bantime''"
  shows "Failban_IsBanned e (snd (Failban_LoginFailed e w ip ty)) ip' m \<longleftrightarrow>
           Failban_IsBanned e w ip' m \<or>
           (fst (Failban_LoginFailed e w ip ty) \<and> ban_key ip' = ban_key ip \<and> ty AND m \<noteq> 0 \<and>
            cfg_int e ''failban_types'' AND m \<noteq> 0 \<and> \<not> isLocalhost (net e) ip')"
proof (cases "cfg_int e ''failban_types'' AND ty = 0 \<or> isLocalhost (net e) ip")
  case True
  then show ?thesis by (simp add: failban_disabled)
next
  case False
  show ?thesis
  proof (cases "filter (\<lambda>r. fb_key r = ban_key ip \<and> fb_type r = ty) (failban w)")
    case Nil
    have "\<not> row_banned (now w) (ban_key ip') m
        \<lparr>fb_id = next_id w, fb_ip = fst (ban_key ip), fb_ip6 = snd (ban_key ip), fb_type = ty,
         fb_last_update = now w, fb_entry_date = now w, fb_attempts = 1, fb_banned_until = 0\<rparr>"
      using assms(2) by (simp add: row_banned_def)
    with Nil False show ?thesis
      by (auto simp: Failban_LoginFailed_def Failban_IsBanned_rows)
  next
    case (Cons r rs)
    then have r: "r \<in> set (failban w)" "fb_key r = ban_key ip" "fb_type r = ty"
      by (auto dest!: filter_hd_in)
    have up: "row_banned (now w) (ban_key ip') m (failban_bump e w r) \<longleftrightarrow>
        row_banned (now w) (ban_key ip') m r \<or>
        (ban_reached e w r \<and> ban_key ip' = ban_key ip \<and> ty AND m \<noteq> 0)"
      using r failban_new_until_ge [OF assms(2,3)] by (auto simp: row_banned_def)
    have "Failban_IsBanned e (snd (Failban_LoginFailed e w ip ty)) ip' m \<longleftrightarrow>
        cfg_int e ''failban_types'' AND m \<noteq> 0 \<and> \<not> isLocalhost (net e) ip' \<and>
        (row_banned (now w) (ban_key ip') m (failban_bump e w r) \<or>
         (\<exists>x \<in> set (failban w). x \<noteq> r \<and> row_banned (now w) (ban_key ip') m x))"
      using False Cons bex_map_update [OF assms(1) r(1), of "failban_bump e w" "row_banned (now w) (ban_key ip') m"]
      by (simp add: Failban_LoginFailed_def Failban_IsBanned_rows)
    moreover have "fst (Failban_LoginFailed e w ip ty) = ban_reached e w r"
      using False Cons by (simp add: Failban_LoginFailed_def ban_reached_def)
    moreover have "(\<exists>x \<in> set (failban w). row_banned (now w) (ban_key ip') m x) \<longleftrightarrow>
        row_banned (now w) (ban_key ip') m r \<or>
        (\<exists>x \<in> set (failban w). x \<noteq> r \<and> row_banned (now w) (ban_key ip') m x)"
      using r(1) by metis
    ultimately show ?thesis
      using up unfolding Failban_IsBanned_rows [of e w] by argo
  qed
qed

section \<open>Concrete environments\<close>

text \<open>An environment with the given configuration and no plugins, and an empty database.\<close>

definition find_at :: "string \<Rightarrow> (nat \<times> nat) option" where
  "find_at s = (if CHR ''@'' \<in> set s
     then Some (length (takeWhile (\<lambda>c. c = CHR ''<'' \<or> c = CHR '' '') s),
                length (takeWhile (\<lambda>c. c \<noteq> CHR ''>'' \<and> c \<noteq> CR \<and> c \<noteq> NL) s))
     else None)"

definition sample_env :: "(string \<times> string) list \<Rightarrow> env" where
  "sample_env kvs =
     \<lparr>cfg = map_of kvs, sql_eq = strcaseeq, sql_lower = map c_tolower, md5 = (\<lambda>s. ''#'' @ s),
      net = sample_api, pcre_match = (\<lambda>p s cl. if cl then strcaseeq p s else p = s),
      plugin_lookup_user = [], plugin_open_body = [], mail_match = find_at,
      today_key = (\<lambda>_. ''010122''), time_text = (\<lambda>_. ''then''), tls_available = True,
      begin_tls = None, can_write = (\<lambda>_. True), deflate = (\<lambda>s. ''z'' @ s), inflate = tl,
      sql_like = (\<lambda>v p. strcaseeq v p), sql_int_eq = (\<lambda>n s. show_int n = s),
      titel_rank = length, mktime = (\<lambda>(y, m, d, h, mi, s). ((((y - 1970) * 12 + m) * 31 + d) * 24 + h) * 3600 + mi * 60 + s)\<rparr>"

definition empty_world :: "int \<Rightarrow> world" where
  "empty_world t =
     \<lparr>now = t, users = [], aliases = [], workgroups = [], groups = [], domain_names = [],
      userprefs = [], groupoptions = [], failban = [], greylist = [], sendstats = [],
      smtpstats = [], abuse_config = [], abuse_points = [], mails = [], attachments = [], folders = [],
      folder_conditions = [], imapuids = [], apns_subscriptions = [], apns_folders = [],
      eventqueue = [], subnets = [], dnsbls = [], milters = [], msgqueue = [], mdstatus = [],
      files = (\<lambda>_. None), dirs = [], blobs = (\<lambda>_. None), next_id = 1, rands = (\<lambda>_. 1),
      apEnabledCache = [], apTypeCache = [], apConfigCache = []\<rparr>"

definition sample_user :: "int \<Rightarrow> string \<Rightarrow> user_row" where
  "sample_user i m =
     \<lparr>u_id = i, u_email = m, u_gruppe = 1, u_gesperrt = ''no'', u_locked = ''no'',
      u_passwort = ''#pw'', u_salt = [], u_today_sent = 0, u_today_key = [], u_sent_mails = 0,
      u_mta_sentmails = 0, u_lastlogin = 1000, u_last_pop3 = 0, u_last_imap = 0, u_last_smtp = 0,
      u_mailspace_used = 0, u_mailspace_add = 0, u_mailbox_generation = 0,
      u_structure_generation = 0, u_saliase = []\<rparr>"

definition sample_group :: group_row where
  "sample_group =
     \<lparr>g_id = 1, g_pop3 = ''yes'', g_smtp = ''yes'', g_imap = ''yes'', g_storage = 100000000, g_anlagen = 10000,
      g_send_limit = 0, g_send_limit_count = 0, g_send_limit_time = 0, g_max_recps = 10,
      g_abuseprotect = ''no'', g_saliase = [], g_signatur = []\<rparr>"

definition sample_world :: world where
  "sample_world = (empty_world 1000)\<lparr>users := [sample_user 7 ''a@b.c''], groups := [sample_group]\<rparr>"

definition failed_once :: world where
  "failed_once = sample_world\<lparr>failban := [\<lparr>fb_id = 1, fb_ip = ''5'', fb_ip6 = [], fb_type = 4,
     fb_last_update = 990, fb_entry_date = 990, fb_attempts = 1, fb_banned_until = 0\<rparr>]\<rparr>"

definition ban_env :: env where
  "ban_env = sample_env [(''failban_types'', ''4''), (''failban_attempts'', ''2''),
     (''failban_time'', ''60''), (''failban_bantime'', ''100'')]"

lemma LookupUser_sound_witness:
  "\<exists>u \<in> set (users sample_world).
     u_id u = LookupUser (sample_env []) sample_world ''A@b.c'' False False \<and>
     (False \<or> u_gesperrt u \<noteq> ''delete'')"
proof (rule LookupUser_sound)
  show "plugin_lookup_user (sample_env []) = []" by (simp add: sample_env_def)
  show "\<forall>g \<in> set (workgroups sample_world). 0 < w_id g"
    by (simp add: sample_world_def empty_world_def)
  show "0 < LookupUser (sample_env []) sample_world ''A@b.c'' False False" by code_simp
qed

lemma Failban_ban_exact_witness:
  "Failban_IsBanned ban_env (snd (Failban_LoginFailed ban_env failed_once (IPAddress_v4 [5, 0, 0, 0]) 4))
     (IPAddress_v4 [5, 0, 0, 0]) 4"
proof -
  have h: "distinct (map fb_id (failban failed_once))" "0 < now failed_once"
      "0 \<le> cfg_int ban_env ''failban_bantime''"
    by code_simp+
  have "fst (Failban_LoginFailed ban_env failed_once (IPAddress_v4 [5, 0, 0, 0]) 4) \<and> (4::int) AND 4 \<noteq> 0 \<and>
      cfg_int ban_env ''failban_types'' AND 4 \<noteq> 0 \<and>
      \<not> isLocalhost (net ban_env) (IPAddress_v4 [5, 0, 0, 0])"
    by code_simp
  then show ?thesis
    using Failban_ban_exact [OF h, of "IPAddress_v4 [5, 0, 0, 0]" 4 "IPAddress_v4 [5, 0, 0, 0]" 4] by simp
qed

end
