(* ===== verification/Limits.thy ===== *)
theory Limits
  imports Database
begin

text \<open>
  The sliding-window sending limit of \<open>Core::Utils\<close> (\<open>MaySendMail\<close>, \<open>AddSendStat\<close>): the
  contract that its clients rely on, stated as a locale, and the proof that the two SQL
  statements provide it; the threshold of the failed-login counter; the cache of the abuse
  point configuration.
\<close>

section \<open>Contract of a sending limit\<close>

text \<open>
  The operations a client of a limit calls: \<open>may p w n\<close> asks whether \<open>n\<close> more recipients are
  allowed under the policy \<open>p\<close>, \<open>sent p w n\<close> records them, \<open>wait w d\<close> lets \<open>d\<close> seconds pass.
\<close>

locale send_limit =
  fixes may :: "'p \<Rightarrow> 'w \<Rightarrow> int \<Rightarrow> bool"
    and sent :: "'p \<Rightarrow> 'w \<Rightarrow> int \<Rightarrow> 'w"
    and wait :: "'w \<Rightarrow> nat \<Rightarrow> 'w"
    and load :: "'p \<Rightarrow> 'w \<Rightarrow> int"
    and quota :: "'p \<Rightarrow> int"
    and limited :: "'p \<Rightarrow> bool"
    and ok :: "'w \<Rightarrow> bool"
  assumes may_quota: "limited p \<Longrightarrow> may p w n \<Longrightarrow> load p w + n \<le> quota p"
    and may_positive: "may p w n \<Longrightarrow> 0 < n"
    and sent_load: "limited p \<Longrightarrow> ok w \<Longrightarrow> 0 < n \<Longrightarrow> load p (sent p w n) = load p w + n"
    and wait_load: "limited p \<Longrightarrow> ok w \<Longrightarrow> load p (wait w d) \<le> load p w"
    and sent_ok: "ok w \<Longrightarrow> 0 < n \<Longrightarrow> ok (sent p w n)"
    and wait_ok: "ok w \<Longrightarrow> ok (wait w d)"
begin

text \<open>A client that asks before each message and sends only when allowed.\<close>

fun client :: "'p \<Rightarrow> 'w \<Rightarrow> (int + nat) list \<Rightarrow> 'w" where
  "client p w [] = w"
| "client p w (Inl n # es) = client p (if may p w n then sent p w n else w) es"
| "client p w (Inr d # es) = client p (wait w d) es"

lemma client_within_quota:
  "limited p \<Longrightarrow> ok w \<Longrightarrow> load p w \<le> quota p \<Longrightarrow> load p (client p w es) \<le> quota p"
proof (induction es arbitrary: w)
  case Nil
  then show ?case by simp
next
  case (Cons ev es)
  then show ?case
  proof (cases ev)
    case (Inl n)
    with Cons show ?thesis
      using may_quota [of p w n] may_positive [of p w n] sent_load [of p w n] sent_ok [of w n p]
      by simp
  next
    case (Inr d)
    with Cons show ?thesis
      using wait_load [of p w d] wait_ok [of w d] by simp
  qed
qed

end

section \<open>The model provides it\<close>

text \<open>A policy: the user, the number of recipients and the window in minutes.\<close>

record limit_policy =
  lp_user :: int
  lp_count :: int
  lp_minutes :: int

definition lp_limited :: "limit_policy \<Rightarrow> bool" where
  "lp_limited p \<longleftrightarrow> 0 < lp_count p \<and> 0 < lp_minutes p"

definition lp_may :: "limit_policy \<Rightarrow> world \<Rightarrow> int \<Rightarrow> bool" where
  "lp_may p w n = fst (MaySendMail w (lp_user p) n (lp_count p) (lp_minutes p))"

definition lp_sent :: "limit_policy \<Rightarrow> world \<Rightarrow> int \<Rightarrow> world" where
  "lp_sent p w n = snd (AddSendStat w (lp_user p) n)"

definition lp_wait :: "world \<Rightarrow> nat \<Rightarrow> world" where
  "lp_wait w d = w\<lparr>now := now w + int d\<rparr>"

definition window_sum :: "stat_row list \<Rightarrow> int \<Rightarrow> int \<Rightarrow> int" where
  "window_sum rs u since =
     sum_list (map st_recipients (filter (\<lambda>r. st_userid r = u \<and> st_time r \<ge> since) rs))"

definition lp_load :: "limit_policy \<Rightarrow> world \<Rightarrow> int" where
  "lp_load p w = window_sum (sendstats w) (lp_user p) (now w - 60 * lp_minutes p)"

definition stats_ok :: "world \<Rightarrow> bool" where
  "stats_ok w \<longleftrightarrow> (\<forall>r \<in> set (sendstats w). 0 \<le> st_recipients r)"

lemma stat_sum_window:
  "(case stat_sum rs u s of None \<Rightarrow> 0 | Some n \<Rightarrow> n) = window_sum rs u s"
  by (simp add: stat_sum_def window_sum_def Let_def)

lemma window_sum_mono:
  "\<forall>r \<in> set rs. 0 \<le> st_recipients r \<Longrightarrow> s \<le> s' \<Longrightarrow> window_sum rs u s' \<le> window_sum rs u s"
  by (induction rs) (auto simp: window_sum_def)

lemma window_sum_append: "window_sum (xs @ ys) u s = window_sum xs u s + window_sum ys u s"
  by (simp add: window_sum_def)

interpretation sl: send_limit lp_may lp_sent lp_wait lp_load lp_count lp_limited stats_ok
proof
  fix p :: limit_policy and w :: world and n :: int and d :: nat
  show "lp_load p w + n \<le> lp_count p" if "lp_limited p" and "lp_may p w n"
    using that
    by (auto simp: lp_limited_def lp_may_def MaySendMail_def lp_load_def stat_sum_window Let_def
        split: if_splits)
  show "0 < n" if "lp_may p w n"
    using that by (auto simp: lp_may_def MaySendMail_def split: if_splits)
  show "lp_load p (lp_sent p w n) = lp_load p w + n" if "lp_limited p" "0 < n"
    using that
    by (simp add: lp_load_def lp_sent_def AddSendStat_def window_sum_append lp_limited_def)
       (simp add: window_sum_def)
  show "lp_load p (lp_wait w d) \<le> lp_load p w" if "stats_ok w"
    using that window_sum_mono [of "sendstats w"] by (simp add: lp_load_def lp_wait_def stats_ok_def)
  show "stats_ok (lp_sent p w n)" if "stats_ok w" and "0 < n"
    using that by (auto simp: stats_ok_def lp_sent_def AddSendStat_def)
  show "stats_ok (lp_wait w d)" if "stats_ok w"
    using that by (simp add: stats_ok_def lp_wait_def)
qed

text \<open>Sending and waiting, written out over the definitions.\<close>

fun send_session :: "int \<Rightarrow> int \<Rightarrow> int \<Rightarrow> world \<Rightarrow> (int + nat) list \<Rightarrow> world" where
  "send_session u c t w [] = w"
| "send_session u c t w (Inl n # es) =
     send_session u c t (if fst (MaySendMail w u n c t) then snd (AddSendStat w u n) else w) es"
| "send_session u c t w (Inr d # es) = send_session u c t (w\<lparr>now := now w + int d\<rparr>) es"

lemma send_session_client:
  "send_session u c t w es = sl.client \<lparr>lp_user = u, lp_count = c, lp_minutes = t\<rparr> w es"
proof (induction u c t w es rule: send_session.induct)
  case (2 u c t w n es)
  let ?p = "\<lparr>lp_user = u, lp_count = c, lp_minutes = t\<rparr>"
  have "fst (MaySendMail w u n c t) = lp_may ?p w n" and "snd (AddSendStat w u n) = lp_sent ?p w n"
    by (simp_all add: lp_may_def lp_sent_def)
  with 2 show ?case by (simp only: send_session.simps sl.client.simps)
next
  case (3 u c t w d es)
  have "w\<lparr>now := now w + int d\<rparr> = lp_wait w d" by (simp add: lp_wait_def)
  with 3 show ?case by (simp only: send_session.simps sl.client.simps)
qed simp



section \<open>The failed-login counter\<close>

text \<open>Failed logins from one address at the given times; the answers and the final state.\<close>

fun failed_logins ::
  "'x env_scheme \<Rightarrow> IPAddress \<Rightarrow> int \<Rightarrow> int list \<Rightarrow> world \<Rightarrow> bool list \<times> world" where
  "failed_logins e ip ty [] w = ([], w)"
| "failed_logins e ip ty (t # ts) w =
     (let (b, w1) = Failban_LoginFailed e (w\<lparr>now := t\<rparr>) ip ty;
          (bs, w2) = failed_logins e ip ty ts w1
      in (b # bs, w2))"

fun within :: "int \<Rightarrow> int \<Rightarrow> int list \<Rightarrow> bool" where
  "within d t0 [] = True"
| "within d t0 (t # ts) = (t \<le> t0 + d \<and> within d t ts)"

definition fb_ids_ok :: "world \<Rightarrow> bool" where
  "fb_ids_ok w \<longleftrightarrow> distinct (map fb_id (failban w)) \<and> (\<forall>r \<in> set (failban w). fb_id r < next_id w)"

text \<open>The row that the next failed login from \<open>ip\<close> will update: its counter and its time.\<close>

definition fb_row :: "IPAddress \<Rightarrow> int \<Rightarrow> int \<Rightarrow> int \<Rightarrow> world \<Rightarrow> bool" where
  "fb_row ip ty n t w \<longleftrightarrow>
     (\<exists>r rs. filter (\<lambda>r. fb_key r = ban_key ip \<and> fb_type r = ty) (failban w) = r # rs \<and>
             fb_attempts r = n \<and> fb_last_update r = t)"

lemma filter_map_same: "(\<And>x. x \<in> set xs \<Longrightarrow> P (f x) = P x) \<Longrightarrow> filter P (map f xs) = map f (filter P xs)"
  by (induction xs) auto

lemma failed_login_next:
  assumes en: "cfg_int e ''failban_types'' AND ty \<noteq> 0" "\<not> isLocalhost (net e) ip"
    and ids: "fb_ids_ok w" and row: "fb_row ip ty n t0 w" and t: "t \<le> t0 + cfg_int e ''failban_time''"
  shows "fst (Failban_LoginFailed e (w\<lparr>now := t\<rparr>) ip ty) \<longleftrightarrow> cfg_int e ''failban_attempts'' \<le> n + 1"
    and "fb_row ip ty (n + 1) t (snd (Failban_LoginFailed e (w\<lparr>now := t\<rparr>) ip ty))"
    and "fb_ids_ok (snd (Failban_LoginFailed e (w\<lparr>now := t\<rparr>) ip ty))"
proof -
  let ?P = "\<lambda>r. fb_key r = ban_key ip \<and> fb_type r = ty"
  obtain r rs where r: "filter ?P (failban w) = r # rs" "fb_attempts r = n" "fb_last_update r = t0"
    using row by (auto simp: fb_row_def)
  let ?w = "w\<lparr>now := t\<rparr>"
  let ?g = "\<lambda>x. if fb_id x = fb_id r then failban_bump e ?w r else x"
  have r_in: "r \<in> set (failban w)" "?P r" using r(1) by (auto dest!: filter_hd_in)
  have "?P (?g x) = ?P x" if "x \<in> set (failban w)" for x
  proof (cases "fb_id x = fb_id r")
    case True
    then have "x = r" using that r_in(1) ids by (auto simp: fb_ids_ok_def distinct_map inj_on_def)
    with r_in(2) show ?thesis by simp
  qed simp
  then have flt: "filter ?P (map ?g (failban w)) = map ?g (r # rs)"
    using filter_map_same [of "failban w" ?P ?g] r(1) by simp
  have step: "Failban_LoginFailed e ?w ip ty =
      (cfg_int e ''failban_attempts'' \<le> n + 1, ?w\<lparr>failban := map ?g (failban w)\<rparr>)"
    using en r t by (simp add: Failban_LoginFailed_def)
  then show "fst (Failban_LoginFailed e ?w ip ty) \<longleftrightarrow> cfg_int e ''failban_attempts'' \<le> n + 1"
    by simp
  show "fb_row ip ty (n + 1) t (snd (Failban_LoginFailed e ?w ip ty))"
    using r t flt unfolding fb_row_def step by (simp add: failban_bump_def Let_def)
  have "map fb_id (map ?g (failban w)) = map fb_id (failban w)" by simp
  then show "fb_ids_ok (snd (Failban_LoginFailed e ?w ip ty))"
    using ids r_in(1) unfolding fb_ids_ok_def step by (auto simp del: map_map)
qed

lemma failed_login_first:
  assumes "cfg_int e ''failban_types'' AND ty \<noteq> 0" "\<not> isLocalhost (net e) ip" "fb_ids_ok w"
    and "\<forall>r \<in> set (failban w). \<not> (fb_key r = ban_key ip \<and> fb_type r = ty)"
  shows "\<not> fst (Failban_LoginFailed e (w\<lparr>now := t\<rparr>) ip ty)"
    and "fb_row ip ty 1 t (snd (Failban_LoginFailed e (w\<lparr>now := t\<rparr>) ip ty))"
    and "fb_ids_ok (snd (Failban_LoginFailed e (w\<lparr>now := t\<rparr>) ip ty))"
proof -
  have none: "filter (\<lambda>r. fb_key r = ban_key ip \<and> fb_type r = ty) (failban w) = []"
    using assms(4) by (simp add: filter_empty_conv)
  then show "\<not> fst (Failban_LoginFailed e (w\<lparr>now := t\<rparr>) ip ty)"
    using assms(1,2) by (simp add: Failban_LoginFailed_def)
  show "fb_row ip ty 1 t (snd (Failban_LoginFailed e (w\<lparr>now := t\<rparr>) ip ty))"
    using assms(1,2) none by (simp add: Failban_LoginFailed_def fb_row_def fb_key_def)
  show "fb_ids_ok (snd (Failban_LoginFailed e (w\<lparr>now := t\<rparr>) ip ty))"
    using assms none by (force simp: Failban_LoginFailed_def fb_ids_ok_def)
qed

lemma failed_logins_counted:
  assumes en: "cfg_int e ''failban_types'' AND ty \<noteq> 0" "\<not> isLocalhost (net e) ip"
  shows "fb_ids_ok w \<Longrightarrow> fb_row ip ty n t0 w \<Longrightarrow> within (cfg_int e ''failban_time'') t0 ts \<Longrightarrow>
    fst (failed_logins e ip ty ts w) =
      map (\<lambda>i. cfg_int e ''failban_attempts'' \<le> n + 1 + int i) [0..<length ts]"
proof (induction ts arbitrary: w n t0)
  case Nil
  then show ?case by simp
next
  case (Cons t ts)
  obtain b w1 where c: "Failban_LoginFailed e (w\<lparr>now := t\<rparr>) ip ty = (b, w1)" by force
  have t: "t \<le> t0 + cfg_int e ''failban_time''" using Cons.prems by simp
  note nxt = failed_login_next [OF en Cons.prems(1,2) t]
  have "fst (failed_logins e ip ty ts w1) =
      map (\<lambda>i. cfg_int e ''failban_attempts'' \<le> n + 1 + 1 + int i) [0..<length ts]"
    by (rule Cons.IH) (use nxt c Cons.prems in auto)
  moreover have "[0..<length (t # ts)] = 0 # map Suc [0..<length ts]"
    by (simp add: map_Suc_upt upt_conv_Cons del: upt_Suc)
  ultimately show ?case using nxt c by (simp add: split_beta Let_def comp_def add.assoc)
qed

text \<open>
  The failed-login counter has the configured threshold, with one exception. For an
  address without a row, after \<open>k\<close> failed logins that follow each other within
  \<open>failban_time\<close> the answers of \<open>Failban_LoginFailed\<close> are false for the first and, for the
  \<open>i\<close>-th with \<open>i \<ge> 2\<close>, true iff \<open>i \<ge> failban_attempts\<close>. So with \<open>failban_attempts = 1\<close>
  the ban comes one attempt late.
\<close>

theorem Failban_threshold:
  assumes "cfg_int e ''failban_types'' AND ty \<noteq> 0" and "\<not> isLocalhost (net e) ip"
    and "fb_ids_ok w" and "\<forall>r \<in> set (failban w). \<not> (fb_key r = ban_key ip \<and> fb_type r = ty)"
    and "within (cfg_int e ''failban_time'') t ts"
  shows "fst (failed_logins e ip ty (t # ts) w) =
           False # map (\<lambda>i. cfg_int e ''failban_attempts'' \<le> 2 + int i) [0..<length ts]"
proof -
  obtain b w1 where c: "Failban_LoginFailed e (w\<lparr>now := t\<rparr>) ip ty = (b, w1)" by force
  note frst = failed_login_first [OF assms(1-4), of t]
  have "fst (failed_logins e ip ty ts w1) =
      map (\<lambda>i. cfg_int e ''failban_attempts'' \<le> 1 + 1 + int i) [0..<length ts]"
    by (rule failed_logins_counted) (use assms frst c in simp_all)
  then show ?thesis using frst c by (simp add: split_beta Let_def)
qed

lemma Failban_threshold_witness:
  "fst (failed_logins ban_env (IPAddress_v4 [5, 0, 0, 0]) 4 [1000, 1010, 1020] sample_world) =
     False # map (\<lambda>i. cfg_int ban_env ''failban_attempts'' \<le> 2 + int i) [0..<length [1010::int, 1020]]"
proof (rule Failban_threshold)
  show "cfg_int ban_env ''failban_types'' AND 4 \<noteq> 0" by code_simp
  show "\<not> isLocalhost (net ban_env) (IPAddress_v4 [5, 0, 0, 0])" by code_simp
  show "fb_ids_ok sample_world"
    by (simp add: fb_ids_ok_def sample_world_def empty_world_def)
  show "\<forall>r \<in> set (failban sample_world).
      \<not> (fb_key r = ban_key (IPAddress_v4 [5, 0, 0, 0]) \<and> fb_type r = 4)"
    by (simp add: sample_world_def empty_world_def)
  show "within (cfg_int ban_env ''failban_time'') 1000 [1010, 1020]" by code_simp
qed

section \<open>The abuse point configuration cache\<close>

definition cache_get :: "('k \<times> string) list \<Rightarrow> 'k \<Rightarrow> string" where
  "cache_get c k = (case map_of c k of Some v \<Rightarrow> v | None \<Rightarrow> [])"

definition abuse_config_value :: "world \<Rightarrow> int \<Rightarrow> string \<Rightarrow> string" where
  "abuse_config_value w ty key = cache_get (abuse_table w) (ty, key)"

definition abuse_cache_ok :: "world \<Rightarrow> bool" where
  "abuse_cache_ok w \<longleftrightarrow> apConfigCache w = [] \<or> cache_get (apConfigCache w) = cache_get (abuse_table w)"

lemma cache_get_default: "cache_get c k = [] \<Longrightarrow> cache_get ((k, []) # c) = cache_get c"
  by (auto simp: cache_get_def fun_eq_iff)

text \<open>
  The process-wide cache of \<open>GetAbuseTypeConfig\<close> is transparent. When the cache agrees with
  the table (it is empty at start) every query answers what the table says, and the cache still
  agrees afterwards, although a query for an absent key stores an empty value for it.
\<close>

theorem GetAbuseTypeConfig_cache:
  assumes "abuse_cache_ok w" and "cfg_is1 e ''enable_ap''"
  shows "fst (GetAbuseTypeConfig e w ty key) = abuse_config_value w ty key \<and>
         abuse_cache_ok (snd (GetAbuseTypeConfig e w ty key)) \<and>
         abuse_config (snd (GetAbuseTypeConfig e w ty key)) = abuse_config w"
proof -
  define c where "c = (if apConfigCache w = [] then abuse_table w else apConfigCache w)"
  have agree: "cache_get c = cache_get (abuse_table w)"
    using assms(1) by (auto simp: abuse_cache_ok_def c_def)
  have res: "GetAbuseTypeConfig e w ty key =
      (case map_of c (ty, key) of Some v \<Rightarrow> (v, w\<lparr>apConfigCache := c\<rparr>)
       | None \<Rightarrow> ([], w\<lparr>apConfigCache := ((ty, key), []) # c\<rparr>))"
    unfolding c_def using assms(2) by (simp add: GetAbuseTypeConfig_def Let_def)
  have tab: "abuse_table (w\<lparr>apConfigCache := x\<rparr>) = abuse_table w" for x
    by (simp add: abuse_table_def)
  show ?thesis
  proof (cases "map_of c (ty, key)")
    case None
    then have "cache_get c (ty, key) = []" by (simp add: cache_get_def)
    with cache_get_default [of c "(ty, key)"] agree None show ?thesis
      by (simp add: res abuse_cache_ok_def abuse_config_value_def tab)
  next
    case (Some v)
    then have "cache_get c (ty, key) = v" by (simp add: cache_get_def)
    with agree Some show ?thesis
      by (simp add: res abuse_cache_ok_def abuse_config_value_def tab)
  qed
qed

lemma GetAbuseTypeConfig_cache_witness:
  "fst (GetAbuseTypeConfig (sample_env [(''enable_ap'', ''1'')])
     (sample_world\<lparr>abuse_config := [(6, 5, ''interval=30;x=y'')]\<rparr>) 6 ''interval'') = ''30''"
proof -
  have "abuse_cache_ok (sample_world\<lparr>abuse_config := [(6, 5, ''interval=30;x=y'')]\<rparr>)"
    by (simp add: abuse_cache_ok_def sample_world_def empty_world_def)
  moreover have "cfg_is1 (sample_env [(''enable_ap'', ''1'')]) ''enable_ap''" by code_simp
  moreover have "abuse_config_value (sample_world\<lparr>abuse_config := [(6, 5, ''interval=30;x=y'')]\<rparr>) 6 ''interval'' = ''30''"
    by code_simp
  ultimately show ?thesis using GetAbuseTypeConfig_cache by metis
qed

end
