(* ===== verification/BlobStorage.thy ===== *)
theory BlobStorage
  imports Database
begin

text \<open>
  Blob storage (src/core/blobstorage.cpp) with the path of a separate file
  (\<open>Utils::MailPath\<close>), the provider selection and \<open>Utils::GetMessageFP\<close>/\<open>DeleteBlob\<close> of
  src/core/utils.cpp. The abstract class \<open>BlobStorageProvider\<close> is the locale \<open>blob_store\<close>; its
  two subclasses, one file per blob and one SQLite database per user, are its
  interpretations. Opening a file for writing fails without permission or when its directory
  is missing; zlib is a parameter.
\<close>

section \<open>Paths\<close>

abbreviation "SEP \<equiv> CHR ''/''"

definition FileExists :: "world \<Rightarrow> string \<Rightarrow> bool" where
  "FileExists w p \<longleftrightarrow> files w p \<noteq> None \<or> p \<in> set (dirs w)"

text \<open>
  The digits of the id with a separator after every second one, and the directories on the
  way: all the prefixes that end in a separator except a final one.
\<close>

fun struct_walk :: "nat \<Rightarrow> nat \<Rightarrow> string \<Rightarrow> string \<Rightarrow> string \<times> string list" where
  "struct_walk n i acc [] = (acc, [])"
| "struct_walk n i acc (c # cs) =
     (if (i + 1) mod 2 = 0
      then let (r, ds) = struct_walk n (i + 1) (acc @ [c, SEP]) cs
           in (r, if i + 1 < n then (acc @ [c, SEP]) # ds else ds)
      else struct_walk n (i + 1) (acc @ [c]) cs)"

definition strip_sep :: "string \<Rightarrow> string" where
  "strip_sep s = (if s \<noteq> [] \<and> last s = SEP then butlast s else s)"

definition flat_path :: "'x env_scheme \<Rightarrow> int \<Rightarrow> string \<Rightarrow> string" where
  "flat_path e iID szExt = cfg_str e ''datafolder'' @ show_int iID @ ''.'' @ szExt"

definition struct_path :: "'x env_scheme \<Rightarrow> int \<Rightarrow> string \<Rightarrow> string" where
  "struct_path e iID szExt =
     strip_sep (fst (struct_walk (length (show_int iID)) 0 (cfg_str e ''datafolder'') (show_int iID)))
       @ ''.'' @ szExt"

definition make_dir :: "'x env_scheme \<Rightarrow> world \<Rightarrow> string \<Rightarrow> world" where
  "make_dir e w p = (if FileExists w p \<or> \<not> can_write e p then w else w\<lparr>dirs := dirs w @ [p]\<rparr>)"

definition MailPath :: "'x env_scheme \<Rightarrow> world \<Rightarrow> int \<Rightarrow> string \<Rightarrow> bool \<Rightarrow> string \<times> world" where
  "MailPath e w iID szExt bCreate =
     (let szPath = flat_path e iID szExt;
          bStructStorage = (cfg e ''structstorage'' = Some ''yes'')
      in if FileExists w szPath then (szPath, w)
         else let szID = show_int iID;
                  ds = snd (struct_walk (length szID) 0 (cfg_str e ''datafolder'') szID);
                  w1 = (if bCreate \<and> bStructStorage then foldl (make_dir e) w ds else w);
                  strAltPath = struct_path e iID szExt
              in (if FileExists w1 strAltPath \<or> (bCreate \<and> bStructStorage) then strAltPath else szPath,
                  w1))"

definition file_dir :: "string \<Rightarrow> string" where
  "file_dir p = drop_last_while (\<lambda>c. c \<noteq> SEP) p"

text \<open>\<open>fopen\<close> with mode \<open>wb\<close> can open an existing file or create one in an existing directory.\<close>

definition fopen_w_ok :: "'x env_scheme \<Rightarrow> world \<Rightarrow> string \<Rightarrow> bool" where
  "fopen_w_ok e w p \<longleftrightarrow> can_write e p \<and>
     (files w p \<noteq> None \<or> file_dir p \<in> set (dirs w) \<or> file_dir p = file_dir (cfg_str e ''datafolder''))"

section \<open>Providers\<close>

datatype BlobType = BMBLOB_TYPE_MAIL | BMBLOB_TYPE_WEBDISK

definition extensionMap :: "BlobType \<Rightarrow> string" where
  "extensionMap ty = (case ty of BMBLOB_TYPE_MAIL \<Rightarrow> ''msg'' | BMBLOB_TYPE_WEBDISK \<Rightarrow> ''dsk'')"

definition blob_type_no :: "BlobType \<Rightarrow> int" where
  "blob_type_no ty = (case ty of BMBLOB_TYPE_MAIL \<Rightarrow> 0 | BMBLOB_TYPE_WEBDISK \<Rightarrow> 1)"

definition blobPath :: "'x env_scheme \<Rightarrow> world \<Rightarrow> BlobType \<Rightarrow> int \<Rightarrow> string \<times> world" where
  "blobPath e w ty iID = MailPath e w iID (extensionMap ty) True"

definition sf_storeBlob ::
  "'x env_scheme \<Rightarrow> world \<Rightarrow> BlobType \<Rightarrow> int \<Rightarrow> string \<Rightarrow> bool \<times> world" where
  "sf_storeBlob e w ty iID dat =
     (let (path, w1) = blobPath e w ty iID
      in if path = [] then (False, w1)
         else if \<not> fopen_w_ok e w1 path then (False, w1)
         else (True, w1\<lparr>files := (files w1)(path \<mapsto> dat)\<rparr>))"

definition sf_loadBlob :: "'x env_scheme \<Rightarrow> world \<Rightarrow> BlobType \<Rightarrow> int \<Rightarrow> string option \<times> world" where
  "sf_loadBlob e w ty iID =
     (let (path, w1) = blobPath e w ty iID
      in if path = [] then (None, w1)
         else if \<not> FileExists w1 path then (None, w1)
         else (files w1 path, w1))"

definition sf_deleteBlob :: "'x env_scheme \<Rightarrow> world \<Rightarrow> BlobType \<Rightarrow> int \<Rightarrow> bool \<times> world" where
  "sf_deleteBlob e w ty iID =
     (let (path, w1) = blobPath e w ty iID
      in if path = [] then (False, w1)
         else if FileExists w1 path then (True, w1\<lparr>files := (files w1)(path := None)\<rparr>)
         else (True, w1))"

definition sf_getBlobSize :: "'x env_scheme \<Rightarrow> world \<Rightarrow> BlobType \<Rightarrow> int \<Rightarrow> int \<times> world" where
  "sf_getBlobSize e w ty iID =
     (let (path, w1) = blobPath e w ty iID
      in (case files w1 path of Some d \<Rightarrow> int (length d) | None \<Rightarrow> 0, w1))"

text \<open>
  The per-user database. \<open>sdb\<close> says whether \<open>open\<close> was called (it is not for user ids below
  1) and SQLite could open the file; a provider whose \<open>sdb\<close> is NULL answers failure.
\<close>

definition ud_opened :: "'x env_scheme \<Rightarrow> world \<Rightarrow> int \<Rightarrow> bool" where
  "ud_opened e w userID \<longleftrightarrow> 0 < userID \<and> can_write e (fst (MailPath e w userID ''blobdb'' True))"

definition ud_compressed :: "'x env_scheme \<Rightarrow> BlobType \<Rightarrow> bool" where
  "ud_compressed e ty \<longleftrightarrow>
     (ty = BMBLOB_TYPE_MAIL \<and> cfg_str e ''blobstorage_compress'' = ''yes'') \<or>
     (ty = BMBLOB_TYPE_WEBDISK \<and> cfg_str e ''blobstorage_webdisk_compress'' = ''yes'')"

definition ud_storeBlob ::
  "'x env_scheme \<Rightarrow> int \<Rightarrow> bool \<Rightarrow> world \<Rightarrow> BlobType \<Rightarrow> int \<Rightarrow> string \<Rightarrow> bool \<times> world" where
  "ud_storeBlob e userID sdb w ty iID dat =
     (if \<not> sdb then (False, w)
      else (True, w\<lparr>blobs := (blobs w)((userID, blob_type_no ty, iID) \<mapsto>
              (if ud_compressed e ty then (1, int (length dat), deflate e dat)
               else (0, int (length dat), dat)))\<rparr>))"

definition ud_loadBlob :: "'x env_scheme \<Rightarrow> int \<Rightarrow> bool \<Rightarrow> world \<Rightarrow> BlobType \<Rightarrow> int \<Rightarrow> string option" where
  "ud_loadBlob e userID sdb w ty iID =
     (if \<not> sdb then None
      else case blobs w (userID, blob_type_no ty, iID) of
             None \<Rightarrow> None
           | Some (flags, _, dat) \<Rightarrow> Some (if flags AND 1 \<noteq> 0 then inflate e dat else dat))"

definition ud_deleteBlob :: "int \<Rightarrow> bool \<Rightarrow> world \<Rightarrow> BlobType \<Rightarrow> int \<Rightarrow> bool \<times> world" where
  "ud_deleteBlob userID sdb w ty iID =
     (if \<not> sdb then (False, w)
      else (True, w\<lparr>blobs := (blobs w)((userID, blob_type_no ty, iID) := None)\<rparr>))"

definition ud_getBlobSize :: "int \<Rightarrow> bool \<Rightarrow> world \<Rightarrow> BlobType \<Rightarrow> int \<Rightarrow> int" where
  "ud_getBlobSize userID sdb w ty iID =
     (if \<not> sdb then 0
      else case blobs w (userID, blob_type_no ty, iID) of None \<Rightarrow> 0 | Some (_, sz, _) \<Rightarrow> sz)"

text \<open>
  \<open>CreateBlobStorageProvider\<close>: the provider number and whether the provider's own \<open>open\<close>
  succeeded; \<open>None\<close> for an unknown number or a failed \<open>open\<close>.
\<close>

datatype provider = SeparateFiles | UserDB int bool

definition CreateBlobStorageProvider :: "'x env_scheme \<Rightarrow> world \<Rightarrow> int \<Rightarrow> int \<Rightarrow> provider option" where
  "CreateBlobStorageProvider e w iID userID =
     (if iID = 0 then Some SeparateFiles
      else if iID = 1
      then (if 0 < userID
            then (if ud_opened e w userID then Some (UserDB userID True) else None)
            else Some (UserDB userID False))
      else None)"

definition DeleteBlob :: "'x env_scheme \<Rightarrow> world \<Rightarrow> int \<Rightarrow> BlobType \<Rightarrow> int \<Rightarrow> int \<Rightarrow> bool \<times> world" where
  "DeleteBlob e w blobStorageID ty iID userID =
     (let b = (if \<not> cfg_is1 e ''enable_blobstorage'' then 0 else blobStorageID)
      in case CreateBlobStorageProvider e w b userID of
           None \<Rightarrow> (False, w)
         | Some SeparateFiles \<Rightarrow> sf_deleteBlob e w ty iID
         | Some (UserDB u sdb) \<Rightarrow> ud_deleteBlob u sdb w ty iID)"

text \<open>\<open>GetMessageFP\<close>: the bytes of the opened file, \<open>None\<close> for a NULL file pointer.\<close>

definition plugin_body :: "'x env_scheme \<Rightarrow> string \<Rightarrow> string" where
  "plugin_body e s = (case filter (\<lambda>f. f s \<noteq> None) (plugin_open_body e) of [] \<Rightarrow> s | f # _ \<Rightarrow> the (f s))"

definition message_rows :: "world \<Rightarrow> int \<Rightarrow> int \<Rightarrow> mail_row list" where
  "message_rows w iID userID =
     filter (\<lambda>m. m_id m = iID \<and> (0 < userID \<longrightarrow> m_userid m = userID)) (mails w)"

definition message_file :: "'x env_scheme \<Rightarrow> world \<Rightarrow> int \<Rightarrow> int \<Rightarrow> string option \<times> world" where
  "message_file e w iID userID =
     (case message_rows w iID userID of
        [m] \<Rightarrow>
          if \<not> cfg_is1 e ''enable_blobstorage''
          then (if m_body m = ''file''
                then let (p, w1) = MailPath e w iID ''msg'' False in (files w1 p, w1)
                else (Some (m_body m), w))
          else (case CreateBlobStorageProvider e w (m_blobstorage m) (m_userid m) of
                  None \<Rightarrow> (None, w)
                | Some SeparateFiles \<Rightarrow> sf_loadBlob e w BMBLOB_TYPE_MAIL iID
                | Some (UserDB u sdb) \<Rightarrow> (ud_loadBlob e u sdb w BMBLOB_TYPE_MAIL iID, w))
      | _ \<Rightarrow> (None, w))"

definition GetMessageFP :: "'x env_scheme \<Rightarrow> world \<Rightarrow> int \<Rightarrow> int \<Rightarrow> string option \<times> world" where
  "GetMessageFP e w iID userID =
     (let (fp, w1) = message_file e w iID userID in (map_option (plugin_body e) fp, w1))"

section \<open>Facts on paths\<close>

abbreviation no_sep :: "string \<Rightarrow> string" where
  "no_sep \<equiv> filter (\<lambda>c. c \<noteq> SEP)"

lemma struct_walk_extends:
  "\<exists>r. fst (struct_walk n i acc s) = acc @ r \<and> no_sep r = no_sep s \<and> (s \<noteq> [] \<longrightarrow> r \<noteq> [])"
proof (induction n i acc s rule: struct_walk.induct)
  case (2 n i acc c cs)
  show ?case
  proof (cases "(i + 1) mod 2 = 0")
    case True
    with 2(1) obtain r where "fst (struct_walk n (i + 1) (acc @ [c, SEP]) cs) = (acc @ [c, SEP]) @ r"
        "no_sep r = no_sep cs" by blast
    then show ?thesis
      using True by (auto simp: split_beta Let_def intro!: exI [of _ "c # SEP # r"])
  next
    case False
    with 2(2) obtain r where "fst (struct_walk n (i + 1) (acc @ [c]) cs) = (acc @ [c]) @ r"
        "no_sep r = no_sep cs" by blast
    then show ?thesis using False by (auto intro!: exI [of _ "c # r"])
  qed
qed simp

lemma no_sep_strip_sep [simp]: "no_sep (strip_sep s) = no_sep s"
  by (cases s rule: rev_cases) (simp_all add: strip_sep_def)

lemma no_sep_digits [simp]: "no_sep (show_int n) = show_int n"
proof -
  have "\<forall>c \<in> set (show_nat m). c \<noteq> SEP" for m
    using show_nat_digits [of m] by (auto simp: is_digit_def code_def)
  then show ?thesis by (simp add: show_int_def filter_id_conv)
qed

lemma dot_free_digits: "CHR ''.'' \<notin> set (show_int n)"
proof -
  have "CHR ''.'' \<notin> set (show_nat m)" for m
    using show_nat_digits [of m] by (auto simp: is_digit_def code_def)
  then show ?thesis by (simp add: show_int_def)
qed

lemma show_int_nonempty [simp]: "show_int n \<noteq> []"
  by (simp add: show_int_def)

lemma show_int_inj: "show_int m = show_int n \<longleftrightarrow> m = n"
proof
  assume *: "show_int m = show_int n"
  have hd_digit: "hd (show_nat k) \<noteq> CHR ''-''" for k
    using hd_show_nat_digit [of k] by (metis is_digit_not_sign(1))
  have "show_nat a = show_nat b \<longleftrightarrow> a = b" for a b
    by (metis digits_val_show_nat)
  then show "m = n"
    using * hd_digit by (auto simp: show_int_def split: if_splits) (metis list.sel(1))+
qed simp

lemma strip_sep_append: "r \<noteq> [] \<Longrightarrow> strip_sep (s @ r) = s @ strip_sep r"
  by (simp add: strip_sep_def butlast_append)

text \<open>What a path says about its blob: without separators it is the id, a dot and the extension.\<close>

lemma flat_path_key: "flat_path e i x = cfg_str e ''datafolder'' @ show_int i @ ''.'' @ x"
  by (simp add: flat_path_def)

lemma struct_path_key:
  "\<exists>r. struct_path e i x = cfg_str e ''datafolder'' @ r @ ''.'' @ x \<and> no_sep r = show_int i"
proof -
  obtain r where r: "fst (struct_walk (length (show_int i)) 0 (cfg_str e ''datafolder'') (show_int i)) =
      cfg_str e ''datafolder'' @ r" "no_sep r = no_sep (show_int i)" "r \<noteq> []"
    using struct_walk_extends [of "length (show_int i)" 0 "cfg_str e ''datafolder''" "show_int i"] by auto
  then show ?thesis
    by (intro exI [of _ "strip_sep r"]) (simp add: struct_path_def strip_sep_append)
qed

definition blob_paths :: "'x env_scheme \<Rightarrow> int \<Rightarrow> string \<Rightarrow> string set" where
  "blob_paths e i x = {flat_path e i x, struct_path e i x}"

lemma blob_paths_key:
  assumes "p \<in> blob_paths e i x" and "SEP \<notin> set x"
  shows "no_sep p = no_sep (cfg_str e ''datafolder'') @ show_int i @ ''.'' @ x"
proof -
  have "no_sep x = x" using assms(2) by (auto simp: filter_id_conv)
  then show ?thesis
    using assms(1) struct_path_key [of e i x] by (auto simp: blob_paths_def flat_path_def)
qed

lemma split_at_dot:
  "a @ CHR ''.'' # x = b @ CHR ''.'' # y \<Longrightarrow> CHR ''.'' \<notin> set a \<Longrightarrow> CHR ''.'' \<notin> set b \<Longrightarrow> a = b \<and> x = y"
  by (induction a arbitrary: b) (auto simp: Cons_eq_append_conv)

lemma blob_paths_disjoint:
  assumes "p \<in> blob_paths e i x" "p \<in> blob_paths e j y" "SEP \<notin> set x" "SEP \<notin> set y"
  shows "i = j \<and> x = y"
proof -
  have "show_int i @ ''.'' @ x = show_int j @ ''.'' @ y"
    using blob_paths_key [OF assms(1,3)] blob_paths_key [OF assms(2,4)] by simp
  then show ?thesis
    using split_at_dot [of "show_int i" x "show_int j" y] dot_free_digits show_int_inj by auto
qed

text \<open>
  Two messages never share a file, and neither do a message and a web disk file. Whatever
  layouts are in use (ids 1234 and 12340 among directories named by pairs of digits included)
  the path \<open>MailPath\<close> gives for one id and extension is never one it gives for another.
\<close>

theorem MailPath_injective:
  assumes "fst (MailPath e w i x create) = fst (MailPath e w' j y create')"
    and "SEP \<notin> set x" and "SEP \<notin> set y"
  shows "i = j \<and> x = y"
proof -
  have "fst (MailPath e v k z c) \<in> blob_paths e k z" for v k z c
    by (auto simp: MailPath_def blob_paths_def Let_def)
  then show ?thesis using blob_paths_disjoint [OF _ _ assms(2,3)] assms(1) by metis
qed

lemma MailPath_injective_witness:
  "12345 = (12345::int) \<and> ''msg'' = ''msg''"
  using MailPath_injective [of "sample_env [(''datafolder'', ''/d/'')]" sample_world 12345 "''msg''" True
    sample_world 12345 "''msg''" True] by simp

section \<open>The contract of a provider\<close>

text \<open>
  The operations of \<open>BlobStorageProvider\<close> over states \<open>'w\<close>, environments \<open>'e\<close> and keys \<open>'k\<close>:
  \<open>store\<close> and \<open>delete\<close> answer whether they succeeded, \<open>load\<close> answers the bytes. \<open>faithful\<close> is
  what the provider needs of the libraries, \<open>ok\<close> its own invariant.
\<close>

locale blob_store =
  fixes store :: "'e \<Rightarrow> 'w \<Rightarrow> 'k \<Rightarrow> string \<Rightarrow> bool \<times> 'w"
    and load :: "'e \<Rightarrow> 'w \<Rightarrow> 'k \<Rightarrow> string option \<times> 'w"
    and delete :: "'e \<Rightarrow> 'w \<Rightarrow> 'k \<Rightarrow> bool \<times> 'w"
    and faithful :: "'e \<Rightarrow> bool"
    and ok :: "'e \<Rightarrow> 'w \<Rightarrow> bool"
  assumes store_ok: "ok e w \<Longrightarrow> ok e (snd (store e w k d))"
    and load_ok: "ok e w \<Longrightarrow> ok e (snd (load e w k))"
    and delete_ok: "ok e w \<Longrightarrow> ok e (snd (delete e w k))"
    and load_store: "faithful e \<Longrightarrow> ok e w \<Longrightarrow> fst (store e w k d) \<Longrightarrow>
          fst (load e (snd (store e w k d)) k) = Some d"
    and load_store_fail: "ok e w \<Longrightarrow> \<not> fst (store e w k d) \<Longrightarrow>
          fst (load e (snd (store e w k d)) k') = fst (load e w k')"
    and load_store_other: "ok e w \<Longrightarrow> k \<noteq> k' \<Longrightarrow>
          fst (load e (snd (store e w k d)) k') = fst (load e w k')"
    and load_delete: "ok e w \<Longrightarrow> fst (delete e w k) \<Longrightarrow>
          fst (load e (snd (delete e w k)) k) = None"
    and load_delete_fail: "ok e w \<Longrightarrow> \<not> fst (delete e w k) \<Longrightarrow>
          fst (load e (snd (delete e w k)) k') = fst (load e w k')"
    and load_delete_other: "ok e w \<Longrightarrow> k \<noteq> k' \<Longrightarrow>
          fst (load e (snd (delete e w k)) k') = fst (load e w k')"
    and load_load: "ok e w \<Longrightarrow> fst (load e (snd (load e w k)) k') = fst (load e w k')"
begin

definition contents :: "'e \<Rightarrow> 'w \<Rightarrow> 'k \<Rightarrow> string option" where
  "contents e w k = fst (load e w k)"

text \<open>A sequence of operations: store, delete or load.\<close>

fun exec :: "'e \<Rightarrow> 'w \<Rightarrow> ('k \<times> string + 'k + 'k) list \<Rightarrow> 'w" where
  "exec e w [] = w"
| "exec e w (Inl (k, d) # os) = exec e (snd (store e w k d)) os"
| "exec e w (Inr (Inl k) # os) = exec e (snd (delete e w k)) os"
| "exec e w (Inr (Inr k) # os) = exec e (snd (load e w k)) os"

text \<open>The same sequence on a map, where an operation that failed changes nothing.\<close>

fun spec :: "'e \<Rightarrow> 'w \<Rightarrow> ('k \<Rightarrow> string option) \<Rightarrow> ('k \<times> string + 'k + 'k) list \<Rightarrow> 'k \<Rightarrow> string option" where
  "spec e w m [] = m"
| "spec e w m (Inl (k, d) # os) =
     spec e (snd (store e w k d)) (if fst (store e w k d) then m(k \<mapsto> d) else m) os"
| "spec e w m (Inr (Inl k) # os) =
     spec e (snd (delete e w k)) (if fst (delete e w k) then m(k := None) else m) os"
| "spec e w m (Inr (Inr k) # os) = spec e (snd (load e w k)) m os"

lemma contents_store:
  "faithful e \<Longrightarrow> ok e w \<Longrightarrow> contents e (snd (store e w k d)) =
     (if fst (store e w k d) then (contents e w)(k \<mapsto> d) else contents e w)"
  using load_store load_store_fail load_store_other by (auto simp: contents_def fun_eq_iff)

lemma contents_delete:
  "ok e w \<Longrightarrow> contents e (snd (delete e w k)) =
     (if fst (delete e w k) then (contents e w)(k := None) else contents e w)"
  using load_delete load_delete_fail load_delete_other by (auto simp: contents_def fun_eq_iff)

lemma contents_load: "ok e w \<Longrightarrow> contents e (snd (load e w k)) = contents e w"
  using load_load by (auto simp: contents_def fun_eq_iff)

lemma exec_refines_map:
  "faithful e \<Longrightarrow> ok e w \<Longrightarrow> contents e (exec e w os) = spec e w (contents e w) os"
  by (induction e w os rule: exec.induct)
     (simp_all add: contents_store contents_delete contents_load store_ok delete_ok load_ok)

end

section \<open>Separate files provide it\<close>

text \<open>
  Between calls no blob has both a flat and a structured file, and the directories the server
  created end in a separator.
\<close>

definition sep_dirs :: "world \<Rightarrow> bool" where
  "sep_dirs w \<longleftrightarrow> (\<forall>d \<in> set (dirs w). d \<noteq> [] \<and> last d = SEP)"

definition sf_ok :: "'x env_scheme \<Rightarrow> world \<Rightarrow> bool" where
  "sf_ok e w \<longleftrightarrow> sep_dirs w \<and>
     (\<forall>i ty. files w (flat_path e i (extensionMap ty)) = None \<or>
             files w (struct_path e i (extensionMap ty)) = None \<or>
             flat_path e i (extensionMap ty) = struct_path e i (extensionMap ty))"

lemma extensionMap_facts [simp]:
  "SEP \<notin> set (extensionMap ty)" "extensionMap ty \<noteq> []" "last (extensionMap ty) \<noteq> SEP"
  "extensionMap ty = extensionMap ty' \<longleftrightarrow> ty = ty'"
  by (cases ty; cases ty'; simp add: extensionMap_def)+

lemma blob_paths_last: "p \<in> blob_paths e i (extensionMap ty) \<Longrightarrow> p \<noteq> [] \<and> last p \<noteq> SEP"
  by (auto simp: blob_paths_def flat_path_def struct_path_def)

lemma files_make_dirs [simp]: "files (foldl (make_dir e) w ds) = files w"
  by (induction ds arbitrary: w) (simp_all add: make_dir_def)

lemma sep_make_dir: "sep_dirs w \<Longrightarrow> p \<noteq> [] \<Longrightarrow> last p = SEP \<Longrightarrow> sep_dirs (make_dir e w p)"
  by (auto simp: make_dir_def sep_dirs_def)

lemma make_dirs_sep:
  "(\<And>d. d \<in> set ds \<Longrightarrow> d \<noteq> [] \<and> last d = SEP) \<Longrightarrow> sep_dirs w \<Longrightarrow> sep_dirs (foldl (make_dir e) w ds)"
  by (induction ds arbitrary: w) (simp_all add: sep_make_dir)

lemma struct_walk_dirs: "d \<in> set (snd (struct_walk n i acc s)) \<Longrightarrow> d \<noteq> [] \<and> last d = SEP"
  by (induction n i acc s rule: struct_walk.induct) (auto simp: split_beta Let_def split: if_splits)

lemma MailPath_files [simp]: "files (snd (MailPath e w i x c)) = files w"
  by (simp add: MailPath_def Let_def)

lemma MailPath_sep_dirs: "sep_dirs w \<Longrightarrow> sep_dirs (snd (MailPath e w i x c))"
  by (simp add: MailPath_def Let_def make_dirs_sep struct_walk_dirs)

lemma sf_ok_MailPath: "sf_ok e w \<Longrightarrow> sf_ok e (snd (MailPath e w i x c))"
  by (simp add: sf_ok_def MailPath_sep_dirs)

lemma FileExists_blob:
  "sf_ok e w \<Longrightarrow> p \<in> blob_paths e i (extensionMap ty) \<Longrightarrow> FileExists w p \<longleftrightarrow> files w p \<noteq> None"
  using blob_paths_last [of p e i ty] by (auto simp: FileExists_def sf_ok_def sep_dirs_def)

text \<open>The path that the provider uses for a blob.\<close>

definition sf_path :: "'x env_scheme \<Rightarrow> world \<Rightarrow> int \<Rightarrow> string \<Rightarrow> string" where
  "sf_path e w i x =
     (if files w (flat_path e i x) \<noteq> None then flat_path e i x
      else if files w (struct_path e i x) \<noteq> None \<or> cfg e ''structstorage'' = Some ''yes''
      then struct_path e i x else flat_path e i x)"

lemma blobPath_eq:
  assumes "sf_ok e w"
  shows "blobPath e w ty i =
    (sf_path e w i (extensionMap ty), snd (MailPath e w i (extensionMap ty) True))"
proof -
  let ?x = "extensionMap ty"
  have mem: "flat_path e i ?x \<in> blob_paths e i ?x" "struct_path e i ?x \<in> blob_paths e i ?x"
    by (simp_all add: blob_paths_def)
  have "fst (MailPath e w i ?x True) = sf_path e w i ?x"
  proof (cases "files w (flat_path e i ?x) = None")
    case False
    then show ?thesis
      using FileExists_blob [OF assms mem(1)] by (simp add: MailPath_def sf_path_def)
  next
    case True
    let ?w1 = "snd (MailPath e w i ?x True)"
    have "FileExists ?w1 (struct_path e i ?x) \<longleftrightarrow> files w (struct_path e i ?x) \<noteq> None"
      using FileExists_blob [OF sf_ok_MailPath [OF assms] mem(2)] by simp
    then show ?thesis
      using True FileExists_blob [OF assms mem(1)] by (simp add: MailPath_def sf_path_def Let_def)
  qed
  then show ?thesis by (simp add: blobPath_def prod_eq_iff)
qed

lemma sf_path_mem: "sf_path e w i x \<in> blob_paths e i x"
  by (simp add: sf_path_def blob_paths_def)

lemma sf_load_eq:
  assumes "sf_ok e w"
  shows "fst (sf_loadBlob e w ty i) =
    (if files w (flat_path e i (extensionMap ty)) \<noteq> None
     then files w (flat_path e i (extensionMap ty))
     else files w (struct_path e i (extensionMap ty)))"
proof -
  let ?p = "sf_path e w i (extensionMap ty)"
  have "fst (sf_loadBlob e w ty i) = files w ?p"
    using blobPath_eq [OF assms, of ty i] blob_paths_last [OF sf_path_mem]
      FileExists_blob [OF sf_ok_MailPath [OF assms] sf_path_mem [of e w i "extensionMap ty"]]
    by (auto simp: sf_loadBlob_def)
  then show ?thesis by (auto simp: sf_path_def)
qed

lemma sf_store_eq:
  assumes "sf_ok e w"
  shows "files (snd (sf_storeBlob e w ty i d)) =
    (if fst (sf_storeBlob e w ty i d) then (files w)(sf_path e w i (extensionMap ty) \<mapsto> d) else files w)"
  and "sep_dirs (snd (sf_storeBlob e w ty i d))"
proof -
  have "sep_dirs (snd (MailPath e w i (extensionMap ty) True))"
    using assms by (simp add: sf_ok_def MailPath_sep_dirs)
  then show "sep_dirs (snd (sf_storeBlob e w ty i d))"
    using blobPath_eq [OF assms, of ty i] by (simp add: sf_storeBlob_def sep_dirs_def)
qed (use blobPath_eq [OF assms, of ty i] in \<open>simp_all add: sf_storeBlob_def\<close>)

lemma sf_delete_eq:
  assumes "sf_ok e w"
  shows "files (snd (sf_deleteBlob e w ty i)) = (files w)(sf_path e w i (extensionMap ty) := None)"
    and "fst (sf_deleteBlob e w ty i)" and "sep_dirs (snd (sf_deleteBlob e w ty i))"
proof -
  let ?p = "sf_path e w i (extensionMap ty)"
  let ?w1 = "snd (MailPath e w i (extensionMap ty) True)"
  have ne: "?p \<noteq> []" using blob_paths_last [OF sf_path_mem] by blast
  have ex: "FileExists ?w1 ?p \<longleftrightarrow> files w ?p \<noteq> None"
    using FileExists_blob [OF sf_ok_MailPath [OF assms] sf_path_mem [of e w i "extensionMap ty"]] by simp
  have sd: "sep_dirs ?w1" using assms by (simp add: sf_ok_def MailPath_sep_dirs)
  show "files (snd (sf_deleteBlob e w ty i)) = (files w)(?p := None)"
    using ne ex blobPath_eq [OF assms, of ty i] by (auto simp: sf_deleteBlob_def fun_eq_iff)
  show "fst (sf_deleteBlob e w ty i)"
    using ne blobPath_eq [OF assms, of ty i] by (simp add: sf_deleteBlob_def)
  show "sep_dirs (snd (sf_deleteBlob e w ty i))"
    using sd blobPath_eq [OF assms, of ty i] by (simp add: sf_deleteBlob_def sep_dirs_def)
qed

lemma sf_load_files:
  "sf_ok e w \<Longrightarrow> files (snd (sf_loadBlob e w ty i)) = files w \<and> sep_dirs (snd (sf_loadBlob e w ty i))"
  by (simp add: sf_loadBlob_def blobPath_eq MailPath_sep_dirs) (simp add: sf_ok_def MailPath_sep_dirs)

text \<open>Writing or removing the file of one blob, as the providers do.\<close>

lemma other_blob_paths:
  assumes "(ty, i) \<noteq> (ty', i')" and "p \<in> blob_paths e i (extensionMap ty)"
    and "q \<in> blob_paths e i' (extensionMap ty')"
  shows "p \<noteq> q"
  using assms blob_paths_disjoint [of p e i "extensionMap ty" i' "extensionMap ty'"] by auto

lemma sf_path_other:
  assumes "(ty, i) \<noteq> (t, j)"
  shows "sf_path e w i (extensionMap ty) \<noteq> flat_path e j (extensionMap t)"
    and "sf_path e w i (extensionMap ty) \<noteq> struct_path e j (extensionMap t)"
  by (rule other_blob_paths [OF assms sf_path_mem]; simp add: blob_paths_def)+

lemma sf_ok_update:
  assumes "sf_ok e w" and "files w' = (files w)(sf_path e w i (extensionMap ty) := v)" and "sep_dirs w'"
  shows "sf_ok e w'"
proof -
  have "files w' (flat_path e j (extensionMap t)) = None \<or> files w' (struct_path e j (extensionMap t)) = None
      \<or> flat_path e j (extensionMap t) = struct_path e j (extensionMap t)" for j t
  proof (cases "(ty, i) = (t, j)")
    case True
    moreover have "files w (flat_path e j (extensionMap t)) = None \<or>
        files w (struct_path e j (extensionMap t)) = None \<or>
        flat_path e j (extensionMap t) = struct_path e j (extensionMap t)"
      using assms(1) by (simp add: sf_ok_def)
    ultimately show ?thesis using assms(2) by (auto simp: sf_path_def)
  next
    case False
    then show ?thesis
      using assms(1,2) sf_path_other [OF False, of e w] by (auto simp: sf_ok_def)
  qed
  with assms(3) show ?thesis by (simp add: sf_ok_def)
qed

lemma sf_load_update_other:
  assumes "sf_ok e w" "sf_ok e w'" and "files w' = (files w)(sf_path e w i (extensionMap ty) := v)"
    and "(ty, i) \<noteq> (t, j)"
  shows "fst (sf_loadBlob e w' t j) = fst (sf_loadBlob e w t j)"
  unfolding sf_load_eq [OF assms(1)] sf_load_eq [OF assms(2)] assms(3)
  using sf_path_other [OF assms(4), of e w] by simp

lemma sf_load_update_same:
  assumes "sf_ok e w" "sf_ok e w'" and "files w' = (files w)(sf_path e w i (extensionMap ty) := v)"
  shows "fst (sf_loadBlob e w' ty i) = v"
proof -
  have "files w (flat_path e i (extensionMap ty)) = None \<or>
      files w (struct_path e i (extensionMap ty)) = None \<or>
      flat_path e i (extensionMap ty) = struct_path e i (extensionMap ty)"
    using assms(1) by (simp add: sf_ok_def)
  then show ?thesis
    unfolding sf_load_eq [OF assms(2)] assms(3) by (auto simp: sf_path_def)
qed

lemma sf_load_same_files:
  "sf_ok e w \<Longrightarrow> sf_ok e w' \<Longrightarrow> files w' = files w \<Longrightarrow> fst (sf_loadBlob e w' t j) = fst (sf_loadBlob e w t j)"
  by (simp add: sf_load_eq cong: option.case_cong)

lemma sf_ok_same_files: "sf_ok e w \<Longrightarrow> files w' = files w \<Longrightarrow> sep_dirs w' \<Longrightarrow> sf_ok e w'"
  by (simp add: sf_ok_def)

lemma sf_store_ok: "sf_ok e w \<Longrightarrow> sf_ok e (snd (sf_storeBlob e w ty i d))"
  using sf_store_eq [of e w ty i d] sf_ok_update [of e w "snd (sf_storeBlob e w ty i d)" i ty "Some d"]
    sf_ok_same_files by (auto split: if_splits)

lemma sf_delete_ok: "sf_ok e w \<Longrightarrow> sf_ok e (snd (sf_deleteBlob e w ty i))"
  using sf_delete_eq [of e w ty i] sf_ok_update by blast

lemma sf_load_ok: "sf_ok e w \<Longrightarrow> sf_ok e (snd (sf_loadBlob e w ty i))"
  using sf_load_files [of e w ty i] sf_ok_same_files by blast

interpretation sf: blob_store
  "\<lambda>e w (ty, i). sf_storeBlob e w ty i" "\<lambda>e w (ty, i). sf_loadBlob e w ty i"
  "\<lambda>e w (ty, i). sf_deleteBlob e w ty i" "\<lambda>e :: env. True" sf_ok
proof (unfold_locales, goal_cases)
  case (1 e w k d)
  then show ?case by (cases k) (simp add: sf_store_ok)
next
  case (2 e w k)
  then show ?case by (cases k) (simp add: sf_load_ok)
next
  case (3 e w k)
  then show ?case by (cases k) (simp add: sf_delete_ok)
next
  case (4 e w k d)
  then obtain ty i where k: "k = (ty, i)" by (cases k)
  with 4 show ?case
    using sf_store_eq(1) [of e w ty i d] sf_store_ok [of e w ty i d]
      sf_load_update_same [of e w "snd (sf_storeBlob e w ty i d)" i ty "Some d"] by simp
next
  case (5 e w k d k')
  then show ?case
    using sf_store_eq(1) [of e w "fst k" "snd k" d] sf_store_ok [of e w "fst k" "snd k" d]
      sf_load_same_files [of e w "snd (sf_storeBlob e w (fst k) (snd k) d)"] by (simp add: split_beta)
next
  case (6 e w k k' d)
  then show ?case
    using sf_store_eq(1) [of e w "fst k" "snd k" d] sf_store_ok [of e w "fst k" "snd k" d]
      sf_load_same_files [of e w "snd (sf_storeBlob e w (fst k) (snd k) d)"]
      sf_load_update_other [of e w "snd (sf_storeBlob e w (fst k) (snd k) d)" "snd k" "fst k" "Some d"]
    by (auto simp: split_beta prod_eq_iff split: if_splits)
next
  case (7 e w k)
  then show ?case
    using sf_delete_eq(1) [of e w "fst k" "snd k"] sf_delete_ok [of e w "fst k" "snd k"]
      sf_load_update_same [of e w "snd (sf_deleteBlob e w (fst k) (snd k))" "snd k" "fst k" None]
    by (simp add: split_beta)
next
  case (8 e w k k')
  then show ?case using sf_delete_eq(2) [of e w "fst k" "snd k"] by (simp add: split_beta)
next
  case (9 e w k k')
  then show ?case
    using sf_delete_eq(1) [of e w "fst k" "snd k"] sf_delete_ok [of e w "fst k" "snd k"]
      sf_load_update_other [of e w "snd (sf_deleteBlob e w (fst k) (snd k))" "snd k" "fst k" None "fst k'" "snd k'"]
    by (auto simp: split_beta prod_eq_iff)
next
  case (10 e w k k')
  then show ?case
    using sf_load_files [of e w "fst k" "snd k"] sf_load_ok [of e w "fst k" "snd k"]
      sf_load_same_files [of e w "snd (sf_loadBlob e w (fst k) (snd k))"]
    by (simp add: split_beta)
qed

text \<open>
  Blobs in separate files behave as a map from (type, id) to bytes. When no blob has two
  files, a successful \<open>storeBlob\<close> is what \<open>loadBlob\<close> answers from then on for that blob, every
  other blob answers as before, whatever the layout, and no blob has two files afterwards.
\<close>

theorem sf_store_load:
  fixes e :: env
  assumes "sf_ok e w" and "fst (sf_storeBlob e w ty i d)"
  shows "fst (sf_loadBlob e (snd (sf_storeBlob e w ty i d)) ty' i') =
           (if ty' = ty \<and> i' = i then Some d else fst (sf_loadBlob e w ty' i'))
         \<and> sf_ok e (snd (sf_storeBlob e w ty i d))"
  using sf.contents_store [of e w "(ty, i)" d] sf.store_ok [of e w "(ty, i)" d] assms
  by (simp add: sf.contents_def fun_eq_iff split: if_splits)

lemma sf_ok_empty: "sf_ok e (empty_world t)"
  by (simp add: sf_ok_def sep_dirs_def empty_world_def)

definition files_env :: env where
  "files_env = sample_env [(''datafolder'', ''/d/''), (''structstorage'', ''yes'')]"

lemma sf_store_load_witness:
  "fst (sf_loadBlob files_env (snd (sf_storeBlob files_env (empty_world 1) BMBLOB_TYPE_MAIL 123 ''x''))
     BMBLOB_TYPE_MAIL 123) = Some ''x''"
proof -
  have "fst (sf_storeBlob files_env (empty_world 1) BMBLOB_TYPE_MAIL 123 ''x'')" by code_simp
  from sf_store_load [OF sf_ok_empty this] show ?thesis by simp
qed

text \<open>
  A deleted blob is gone: after \<open>deleteBlob\<close> on separate files (which always reports
  success) \<open>loadBlob\<close> answers NULL for that blob and as before for every other one. This
  needs that no blob has two files: with two, the second one would reappear.
\<close>

theorem sf_delete_load:
  fixes e :: env
  assumes "sf_ok e w"
  shows "fst (sf_loadBlob e (snd (sf_deleteBlob e w ty i)) ty' i') =
           (if ty' = ty \<and> i' = i then None else fst (sf_loadBlob e w ty' i'))"
  using sf.contents_delete [of e w "(ty, i)"] sf_delete_eq(2) [OF assms, of ty i] assms
  by (simp add: sf.contents_def fun_eq_iff split: if_splits)

lemma sf_delete_load_witness:
  "fst (sf_loadBlob files_env (snd (sf_deleteBlob files_env (empty_world 1) BMBLOB_TYPE_MAIL 3))
     BMBLOB_TYPE_MAIL 3) = None"
  using sf_delete_load [OF sf_ok_empty, of files_env 1 BMBLOB_TYPE_MAIL 3 BMBLOB_TYPE_MAIL 3] by simp

section \<open>Storing succeeds\<close>

lemma file_dir_ext: "SEP \<notin> set x \<Longrightarrow> file_dir (p @ x) = file_dir p"
  by (induction x rule: rev_induct) (auto simp: file_dir_def simp flip: append_assoc)

lemma file_dir_sep [simp]: "file_dir (p @ [SEP]) = p @ [SEP]"
  by (simp add: file_dir_def)

lemma struct_walk_parent:
  assumes "SEP \<notin> set s" and "s \<noteq> []" and "n = i + length s"
  shows "file_dir (strip_sep (fst (struct_walk n i acc s))) = file_dir acc \<or>
         file_dir (strip_sep (fst (struct_walk n i acc s))) \<in> set (snd (struct_walk n i acc s))"
  using assms
proof (induction n i acc s rule: struct_walk.induct)
  case (2 n i acc c cs)
  have c: "c \<noteq> SEP" "SEP \<notin> set cs" using 2(3) by auto
  show ?case
  proof (cases "cs = []")
    case True
    then show ?thesis
      using c file_dir_ext [of "[c]" acc] by (auto simp: strip_sep_def butlast_append)
  next
    case False
    then have n: "n = i + 1 + length cs" "i + 1 < n" using 2(5) by auto
    show ?thesis
    proof (cases "(i + 1) mod 2 = 0")
      case True
      have "file_dir (acc @ [c, SEP]) = acc @ [c, SEP]"
        using file_dir_sep [of "acc @ [c]"] by simp
      with 2(1) [OF True c(2) False n(1)] True n(2) show ?thesis
        by (auto simp: split_beta Let_def)
    next
      case odd: False
      have "file_dir (acc @ [c]) = file_dir acc"
        using c by (intro file_dir_ext) auto
      with 2(2) [OF odd c(2) False n(1)] odd show ?thesis by simp
    qed
  qed
qed simp

lemma make_dirs_all:
  assumes "\<And>p. can_write e p"
  shows "d \<in> set ds \<Longrightarrow> (\<And>d. d \<in> set ds \<Longrightarrow> files w d = None) \<Longrightarrow> d \<in> set (dirs (foldl (make_dir e) w ds))"
proof -
  have keep: "x \<in> set (dirs v) \<Longrightarrow> x \<in> set (dirs (foldl (make_dir e) v xs))" for x v xs
    by (induction xs arbitrary: v) (auto simp: make_dir_def)
  show "d \<in> set ds \<Longrightarrow> (\<And>d. d \<in> set ds \<Longrightarrow> files w d = None) \<Longrightarrow> d \<in> set (dirs (foldl (make_dir e) w ds))"
  proof (induction ds arbitrary: w)
    case (Cons x xs)
    have "x \<in> set (dirs (make_dir e w x))"
      using assms Cons.prems(2) [of x] by (auto simp: make_dir_def FileExists_def)
    moreover have "files (make_dir e w x) = files w" by (simp add: make_dir_def)
    ultimately show ?case using Cons keep by auto
  qed simp
qed

text \<open>
  Storing a blob does not fail for want of a directory. When the server may write
  everywhere and no plain file stands where a directory is needed, \<open>storeBlob\<close> on separate
  files succeeds for every id: with the structured layout \<open>MailPath\<close> has created exactly the
  directories on the way to the file.
\<close>

theorem sf_store_succeeds:
  fixes e :: env
  assumes "sf_ok e w" and "\<And>p. can_write e p"
    and "\<And>p. p \<noteq> [] \<Longrightarrow> last p = SEP \<Longrightarrow> files w p = None"
  shows "fst (sf_storeBlob e w ty i d)"
proof -
  let ?x = "extensionMap ty" and ?base = "cfg_str e ''datafolder''" and ?n = "length (show_int i)"
  let ?w1 = "snd (MailPath e w i ?x True)"
  have digits: "SEP \<notin> set (show_int i)"
    using no_sep_digits [of i] unfolding filter_id_conv by blast
  have flat: "file_dir (flat_path e i ?x) = file_dir ?base"
    using digits by (simp add: flat_path_def file_dir_ext)
  have struct: "file_dir (struct_path e i ?x) = file_dir ?base \<or>
      file_dir (struct_path e i ?x) \<in> set (snd (struct_walk ?n 0 ?base (show_int i)))"
    using struct_walk_parent [OF digits, of ?n 0 ?base]
    by (simp add: struct_path_def file_dir_ext [of "CHR ''.'' # ?x"])
  have "fopen_w_ok e ?w1 (sf_path e w i ?x)"
  proof (cases "files w (sf_path e w i ?x) = None")
    case True
    then have none: "files w (flat_path e i ?x) = None" by (auto simp: sf_path_def split: if_splits)
    have ne: "\<not> FileExists w (flat_path e i ?x)"
      using FileExists_blob [OF assms(1), of "flat_path e i ?x" i ty] none by (simp add: blob_paths_def)
    show ?thesis
    proof (cases "cfg e ''structstorage'' = Some ''yes''")
      case True
      have "set (snd (struct_walk ?n 0 ?base (show_int i))) \<subseteq> set (dirs ?w1)"
        using ne True make_dirs_all [OF assms(2), of _ "snd (struct_walk ?n 0 ?base (show_int i))" w]
          struct_walk_dirs [of _ ?n 0 ?base "show_int i"] assms(3)
        by (auto simp: MailPath_def Let_def)
      with struct flat assms(2) show ?thesis by (auto simp: fopen_w_ok_def sf_path_def)
    next
      case False
      with flat assms(2) True show ?thesis by (auto simp: fopen_w_ok_def sf_path_def)
    qed
  qed (use assms(2) in \<open>simp add: fopen_w_ok_def\<close>)
  then show ?thesis
    using blobPath_eq [OF assms(1), of ty i] blob_paths_last [OF sf_path_mem [of e w i ?x]]
    by (simp add: sf_storeBlob_def)
qed

lemma sf_store_succeeds_witness:
  "fst (sf_storeBlob files_env (empty_world 1) BMBLOB_TYPE_MAIL 12367 ''x'')"
proof (rule sf_store_succeeds [OF sf_ok_empty])
  show "can_write files_env p" for p by (simp add: files_env_def sample_env_def)
  show "files (empty_world 1) p = None" for p by (simp add: empty_world_def)
qed

section \<open>The user database provides it\<close>

definition zlib_ok :: "'x env_scheme \<Rightarrow> bool" where
  "zlib_ok e \<longleftrightarrow> (\<forall>d. inflate e (deflate e d) = d)"

lemma blob_type_no_inj [simp]: "blob_type_no a = blob_type_no b \<longleftrightarrow> a = b"
  by (cases a; cases b) (simp_all add: blob_type_no_def)

interpretation ud: blob_store
  "\<lambda>e w (u, ty, i) d. ud_storeBlob e u True w ty i d"
  "\<lambda>e w (u, ty, i). (ud_loadBlob e u True w ty i, w)"
  "\<lambda>e w (u, ty, i). ud_deleteBlob u True w ty i"
  "\<lambda>e :: env. zlib_ok e" "\<lambda>e w. True"
  by unfold_locales
     (auto simp: ud_storeBlob_def ud_loadBlob_def ud_deleteBlob_def zlib_ok_def split: prod.splits)

text \<open>
  Blobs in the per-user databases behave as a map from (user, type, id) to bytes when zlib
  restores what it compressed: whether or not the type is configured to be compressed,
  \<open>loadBlob\<close> answers what \<open>storeBlob\<close> was given, and blobs of other users, types and ids are
  untouched. \<open>getBlobSize\<close> answers the length of the uncompressed data.
\<close>

theorem ud_store_load:
  fixes e :: env
  assumes "\<And>d. inflate e (deflate e d) = d"
  shows "ud_loadBlob e u' True (snd (ud_storeBlob e u True w ty i d)) ty' i' =
           (if u' = u \<and> ty' = ty \<and> i' = i then Some d else ud_loadBlob e u' True w ty' i')
         \<and> ud_getBlobSize u True (snd (ud_storeBlob e u True w ty i d)) ty i = int (length d)"
proof -
  have z: "zlib_ok e" using assms by (simp add: zlib_ok_def)
  have "fst (ud_storeBlob e u True w ty i d)" by (simp add: ud_storeBlob_def)
  with ud.contents_store [OF z TrueI, of w "(u, ty, i)" d]
  have "ud_loadBlob e u' True (snd (ud_storeBlob e u True w ty i d)) ty' i' =
      (if u' = u \<and> ty' = ty \<and> i' = i then Some d else ud_loadBlob e u' True w ty' i')"
    by (simp add: ud.contents_def fun_eq_iff)
  then show ?thesis by (simp add: ud_storeBlob_def ud_getBlobSize_def)
qed

lemma ud_store_load_witness:
  "ud_loadBlob (sample_env [(''blobstorage_compress'', ''yes'')]) 3 True
     (snd (ud_storeBlob (sample_env [(''blobstorage_compress'', ''yes'')]) 3 True sample_world BMBLOB_TYPE_MAIL 9 ''hi''))
     BMBLOB_TYPE_MAIL 9 = Some ''hi''"
  using ud_store_load [of "sample_env [(''blobstorage_compress'', ''yes'')]" 3 3 sample_world
    BMBLOB_TYPE_MAIL 9 "''hi''" BMBLOB_TYPE_MAIL 9]
  by (simp add: sample_env_def)

end
