(* ===== verification/Session.thy ===== *)
theory Session
  imports Database
begin

text \<open>
  What the line-based servers (SMTP, POP3) share: the state of a connection, the
  \<open>fgets\<close> and \<open>printf\<close> wrappers of src/io.cpp with their TLS mode, and the loop that reads a
  line and handles it. The contract between the loop and a protocol is the locale
  \<open>line_server\<close>: if a protocol's handler never puts input back and keeps an invariant, the
  loop ends and every state that a session reaches satisfies the invariant, whatever the other
  processes do to the database between two lines.
\<close>

section \<open>Connection state\<close>

text \<open>
  \<open>inp\<close> holds the bytes that will arrive in the clear, \<open>ssl_inp\<close> those that will arrive through
  TLS; both end where the peer closes the connection or a signal closes stdin. \<open>buf\<close> is the line
  buffer with whatever earlier lines left in it. \<open>failed\<close> says that an exception has left the
  handler and ends the process.
\<close>

record session =
  inp :: string
  ssl_inp :: string
  out :: "string list"
  buf :: string
  bIO_SSL :: bool
  bTLSMode :: bool
  wld :: world
  strPeer :: string
  bTimeout :: bool
  bQuit :: bool
  bBanned :: bool
  failed :: bool
  iUserID :: int

definition printf :: "string \<Rightarrow> 's session_scheme \<Rightarrow> 's session_scheme" where
  "printf t s = s\<lparr>out := out s @ [t]\<rparr>"

definition PEER_IP :: "'x env_scheme \<Rightarrow> 's session_scheme \<Rightarrow> IPAddress" where
  "PEER_IP e s = (if strPeer s \<noteq> [] \<and> strPeer s \<noteq> ''(unknown)''
                  then IPAddress_of_string (net e) (strPeer s) else IPAddress_v4 [0, 0, 0, 0])"

section \<open>Reading lines\<close>

text \<open>\<open>SSL_read\<close> byte by byte: \<open>m\<close> bytes still fit. End of input answers NULL and loses the bytes.\<close>

fun tls_upto :: "nat \<Rightarrow> string \<Rightarrow> string \<Rightarrow> string option \<times> string" where
  "tls_upto m acc [] = (None, [])"
| "tls_upto m acc (c # cs) =
     (if c = NL \<or> m \<le> 1 then (Some (acc @ [c]), cs) else tls_upto (m - 1) (acc @ [c]) cs)"

definition read_line :: "nat \<Rightarrow> 's session_scheme \<Rightarrow> string option \<times> 's session_scheme" where
  "read_line n s =
     (if bIO_SSL s
      then let (l, rest) = tls_upto (n - 1) [] (ssl_inp s) in (l, s\<lparr>ssl_inp := rest\<rparr>)
      else case fgets n (inp s) of
             None \<Rightarrow> (None, s)
           | Some (l, rest) \<Rightarrow> (Some l, s\<lparr>inp := rest\<rparr>))"

text \<open>Into the line buffer: TLS mode clears the \<open>n\<close> bytes first.\<close>

definition my_fgets :: "nat \<Rightarrow> 's session_scheme \<Rightarrow> bool \<times> 's session_scheme" where
  "my_fgets n s =
     (case read_line n s of
        (None, s1) \<Rightarrow> (False, s1)
      | (Some l, s1) \<Rightarrow>
          (True, s1\<lparr>buf := (if bIO_SSL s then l @ replicate (n - length l) NUL @ drop n (buf s1)
                            else l @ NUL # drop (length l + 1) (buf s1))\<rparr>))"

text \<open>The C string at an offset of the buffer.\<close>

definition szLine :: "'s session_scheme \<Rightarrow> string" where
  "szLine s = cstr (buf s)"

definition szLine_at :: "nat \<Rightarrow> 's session_scheme \<Rightarrow> string" where
  "szLine_at k s = cstr (drop k (buf s))"

definition todo :: "'s session_scheme \<Rightarrow> nat" where
  "todo s = length (inp s) + length (ssl_inp s)"

lemma tls_upto_decreases: "tls_upto m acc s = (l, r) \<Longrightarrow> length r \<le> length s"
  and tls_upto_Some: "tls_upto m acc s = (Some t, r) \<Longrightarrow> length r < length s"
  by (induction m acc s rule: tls_upto.induct) (auto split: if_splits)

lemma read_line_todo:
  "read_line n s = (l, s') \<Longrightarrow> todo s' \<le> todo s"
  "read_line n s = (Some t, s') \<Longrightarrow> 1 < n \<Longrightarrow> todo s' < todo s"
  using tls_upto_decreases tls_upto_Some
  by (auto simp: read_line_def todo_def split: if_splits prod.splits option.splits
      dest: fgets_Some fgets_decreases)

lemma my_fgets_todo: "my_fgets n s = (True, s') \<Longrightarrow> 1 < n \<Longrightarrow> todo s' < todo s"
  using read_line_todo by (fastforce simp: my_fgets_def todo_def split: prod.splits option.splits)

section \<open>Frames\<close>

lemma printf_session [simp]:
  "inp (printf x s) = inp s" "ssl_inp (printf x s) = ssl_inp s" "buf (printf x s) = buf s"
  "bIO_SSL (printf x s) = bIO_SSL s" "bTLSMode (printf x s) = bTLSMode s" "wld (printf x s) = wld s"
  "strPeer (printf x s) = strPeer s" "bBanned (printf x s) = bBanned s" "failed (printf x s) = failed s"
  "iUserID (printf x s) = iUserID s" "out (printf x s) = out s @ [x]"
  "session.more (printf x s) = session.more s"
  by (simp_all add: printf_def)

text \<open>What is left of the input, which only reading changes.\<close>

definition rest_of_input :: "'s session_scheme \<Rightarrow> string \<times> string" where
  "rest_of_input s = (inp s, ssl_inp s)"

lemma todo_rest: "rest_of_input t = rest_of_input s \<Longrightarrow> todo t = todo s"
  by (simp add: todo_def rest_of_input_def)

lemma rest_session [simp]:
  "rest_of_input (printf x s) = rest_of_input s" "rest_of_input (s\<lparr>wld := w\<rparr>) = rest_of_input s"
  "rest_of_input (s\<lparr>failed := f\<rparr>) = rest_of_input s" "rest_of_input (s\<lparr>bBanned := f\<rparr>) = rest_of_input s"
  "rest_of_input (s\<lparr>iUserID := d\<rparr>) = rest_of_input s" "rest_of_input (s\<lparr>bTLSMode := f\<rparr>) = rest_of_input s"
  "rest_of_input (s\<lparr>bIO_SSL := f\<rparr>) = rest_of_input s"
  by (simp_all add: rest_of_input_def)

section \<open>The loop\<close>

text \<open>
  The main loop of \<open>Run\<close>: while the session is alive, read a line, handle it, stop when the
  handler says so. \<open>None\<close> means that the fuel was not enough.
\<close>

fun serve ::
  "nat \<Rightarrow> ('s \<Rightarrow> bool \<times> 's) \<Rightarrow> ('s \<Rightarrow> bool \<times> 's) \<Rightarrow> ('s \<Rightarrow> bool) \<Rightarrow> 's \<Rightarrow> 's option" where
  "serve 0 readl handle alive s = None"
| "serve (Suc n) readl handle alive s =
     (if \<not> alive s then Some s
      else case readl s of
             (False, s1) \<Rightarrow> Some s1
           | (True, s1) \<Rightarrow>
               (case handle s1 of
                  (False, s2) \<Rightarrow> Some s2
                | (True, s2) \<Rightarrow> serve n readl handle alive s2))"

text \<open>The states between two lines, with steps of the other processes interleaved.\<close>

inductive reaches ::
  "('s \<Rightarrow> bool \<times> 's) \<Rightarrow> ('s \<Rightarrow> bool \<times> 's) \<Rightarrow> ('s \<Rightarrow> 's \<Rightarrow> bool) \<Rightarrow> 's \<Rightarrow> 's \<Rightarrow> bool"
  for readl handle others s
where
  start: "reaches readl handle others s s"
| line: "reaches readl handle others s t \<Longrightarrow> readl t = (True, u) \<Longrightarrow> handle u = (True, v) \<Longrightarrow>
           reaches readl handle others s v"
| other: "reaches readl handle others s t \<Longrightarrow> others t u \<Longrightarrow> reaches readl handle others s u"

inductive_cases reachesE: "reaches readl handle others s t"

text \<open>Handling the next \<open>n\<close> lines, if there are that many and none of them ends the session.\<close>

fun feed :: "nat \<Rightarrow> ('s \<Rightarrow> bool \<times> 's) \<Rightarrow> ('s \<Rightarrow> bool \<times> 's) \<Rightarrow> 's \<Rightarrow> 's option" where
  "feed 0 readl handle s = Some s"
| "feed (Suc n) readl handle s =
     (case feed n readl handle s of
        None \<Rightarrow> None
      | Some t \<Rightarrow>
          (case readl t of
             (False, _) \<Rightarrow> None
           | (True, u) \<Rightarrow> (case handle u of (False, _) \<Rightarrow> None | (True, v) \<Rightarrow> Some v)))"

lemma feed_reaches: "feed n readl handle s = Some t \<Longrightarrow> reaches readl handle others s t"
proof (induction n arbitrary: t)
  case (Suc n)
  then show ?case by (auto split: option.splits prod.splits bool.splits intro: reaches.line)
qed (simp add: reaches.start)

lemma feed_front:
  "readl s = (True, u) \<Longrightarrow> handle u = (True, v) \<Longrightarrow> feed (Suc n) readl handle s = feed n readl handle v"
  by (induction n) simp_all

text \<open>
  \<open>inv\<close> holds between two lines of a live session, \<open>fin\<close> when the loop is left.
\<close>

locale line_server =
  fixes readl :: "'e \<Rightarrow> 's \<Rightarrow> bool \<times> 's"
    and handle :: "'e \<Rightarrow> 's \<Rightarrow> bool \<times> 's"
    and alive :: "'s \<Rightarrow> bool"
    and others :: "'s \<Rightarrow> 's \<Rightarrow> bool"
    and left :: "'s \<Rightarrow> nat"
    and inv :: "'e \<Rightarrow> 's \<Rightarrow> bool"
    and fin :: "'e \<Rightarrow> 's \<Rightarrow> bool"
  assumes readl_left: "readl e s = (True, s') \<Longrightarrow> left s' < left s"
    and handle_left: "handle e s = (b, s') \<Longrightarrow> left s' \<le> left s"
    and inv_fin: "inv e s \<Longrightarrow> fin e s"
    and readl_inv: "inv e s \<Longrightarrow> readl e s = (b, s') \<Longrightarrow> inv e s'"
    and handle_inv: "inv e s \<Longrightarrow> handle e s = (True, s') \<Longrightarrow> inv e s'"
    and handle_fin: "inv e s \<Longrightarrow> handle e s = (False, s') \<Longrightarrow> fin e s'"
    and others_inv: "inv e s \<Longrightarrow> others s s' \<Longrightarrow> inv e s'"
begin

lemma serve_ends:
  "left s < n \<Longrightarrow> inv e s \<Longrightarrow> \<exists>s'. serve n (readl e) (handle e) alive s = Some s' \<and> fin e s'"
proof (induction n arbitrary: s)
  case 0
  then show ?case by simp
next
  case (Suc n)
  obtain r s1 where r: "readl e s = (r, s1)" by fastforce
  obtain h s2 where h: "handle e s1 = (h, s2)" by fastforce
  have s1: "inv e s1" using Suc.prems r readl_inv by blast
  have "h \<Longrightarrow> inv e s2" "\<not> h \<Longrightarrow> fin e s2"
    using s1 h handle_inv [of e s1 s2] handle_fin [of e s1 s2] by auto
  moreover have "r \<Longrightarrow> left s2 < n"
    using Suc.prems r h readl_left [of e s s1] handle_left [of e s1 h s2] by simp
  moreover have "fin e s" "fin e s1" using Suc.prems s1 inv_fin by blast+
  ultimately show ?case
    using r h Suc.IH [of s2] by (cases r; cases h) auto
qed

lemma reaches_inv: "reaches (readl e) (handle e) others s t \<Longrightarrow> inv e s \<Longrightarrow> inv e t"
  by (induction rule: reaches.induct) (auto intro: readl_inv handle_inv others_inv)

end

text \<open>The other processes change the database and the clock; the session's own fields stay.\<close>

definition world_changes :: "'s session_scheme \<Rightarrow> 's session_scheme \<Rightarrow> bool" where
  "world_changes s t \<longleftrightarrow> t = s\<lparr>wld := wld t\<rparr>"

section \<open>Complete lines\<close>

lemma tls_upto_fgets:
  "0 < m \<Longrightarrow> tls_upto m acc s =
     (case fgets_upto m s of (l, r) \<Rightarrow>
        if length l = m \<or> (l \<noteq> [] \<and> last l = NL) then (Some (acc @ l), r) else (None, []))"
proof (induction m acc s rule: tls_upto.induct)
  case (1 m acc)
  then show ?case by (cases m) simp_all
next
  case (2 m acc c cs)
  then obtain k where k: "m = Suc k" by (cases m) auto
  show ?case
  proof (cases "c = NL \<or> m \<le> 1")
    case True
    with k show ?thesis by (cases k) (auto split: prod.splits)
  next
    case False
    obtain l r where lr: "fgets_upto k cs = (l, r)" by fastforce
    from False k have "0 < k" by simp
    with 2(1) False k lr show ?thesis by auto
  qed
qed

lemma tls_upto_rest:
  "0 < m \<Longrightarrow> fst (tls_upto m acc s) \<noteq> None \<Longrightarrow> snd (tls_upto m acc s) = snd (fgets_upto m s)"
proof (induction m acc s rule: tls_upto.induct)
  case (2 m acc c cs)
  then obtain k where k: "m = Suc k" by (cases m) auto
  show ?case
  proof (cases "c = NL \<or> m \<le> 1")
    case False
    then have "0 < k" using k by simp
    with 2 k False show ?thesis by (simp add: split_beta)
  qed (use k in \<open>cases k; simp\<close>)
qed simp

text \<open>The bytes that the next read takes from, in the clear or through TLS.\<close>

definition pending :: "'s session_scheme \<Rightarrow> string" where
  "pending s = (if bIO_SSL s then ssl_inp s else inp s)"

definition set_pending :: "string \<Rightarrow> 's session_scheme \<Rightarrow> 's session_scheme" where
  "set_pending r s = (if bIO_SSL s then s\<lparr>ssl_inp := r\<rparr> else s\<lparr>inp := r\<rparr>)"

lemma fgets_upto_line: "NL \<notin> set l \<Longrightarrow> length l < n \<Longrightarrow> fgets_upto n (l @ NL # r) = (l @ [NL], r)"
proof (induction l arbitrary: n)
  case Nil
  then show ?case by (cases n) auto
next
  case (Cons c l)
  then show ?case by (cases n) auto
qed

lemma read_line_complete:
  assumes "pending s = l @ NL # r" and "NL \<notin> set l" and "length l < n - 1"
  shows "read_line n s = (Some (l @ [NL]), set_pending r s)"
proof -
  have f: "fgets_upto (n - 1) (l @ NL # r) = (l @ [NL], r)" using assms(2,3) by (rule fgets_upto_line)
  moreover have "tls_upto (n - 1) [] (l @ NL # r) = (Some (l @ [NL]), r)"
    using tls_upto_fgets [of "n - 1" "[]" "l @ NL # r"] f assms(3)
      tls_upto_rest [of "n - 1" "[]" "l @ NL # r"] by simp
  ultimately show ?thesis
    using assms(1) by (simp add: read_line_def pending_def set_pending_def fgets_def split: if_splits)
qed

text \<open>A complete line that fits arrives whole in the line buffer, whatever the buffer held.\<close>

lemma my_fgets_complete:
  assumes "pending s = l @ NL # r" and "NL \<notin> set l" and "NUL \<notin> set l" and "length l < n - 1"
  shows "\<exists>u. my_fgets n s = (True, u) \<and> szLine u = l @ [NL] \<and> u = (set_pending r s)\<lparr>buf := buf u\<rparr>"
proof -
  have "cstr (l @ NL # replicate m NUL @ x) = l @ [NL]" if "0 < m" for m x
    using cstr_append_nul [of "l @ [NL]" "replicate (m - 1) NUL @ x"] that assms(3)
    by (cases m) simp_all
  moreover have "cstr (l @ NL # NUL # x) = l @ [NL]" for x
    using cstr_append_nul [of "l @ [NL]" x] assms(3) by simp
  ultimately show ?thesis
    using read_line_complete [OF assms(1,2,4)] assms(4)
    by (simp add: my_fgets_def szLine_def)
qed

section \<open>TLS and plain reading compared\<close>

text \<open>
  Reading a line through TLS gives the same line as reading it in the clear, except at the
  end of the input: where \<open>fgets\<close> returns a last line that lacks its newline, the TLS loop
  returns NULL and drops the bytes.
\<close>

theorem read_line_tls_plain:
  assumes "1 < n" and "bIO_SSL s" and "\<not> bIO_SSL p" and "ssl_inp s = inp p"
  shows "fst (read_line n s) =
    (case fst (read_line n p) of
       None \<Rightarrow> None
     | Some l \<Rightarrow> if length l = n - 1 \<or> last l = NL then Some l else None)"
proof -
  from assms(1) have n: "0 < n - 1" by simp
  show ?thesis
  proof (cases "inp p")
    case Nil
    with assms show ?thesis by (simp add: read_line_def fgets_def)
  next
    case (Cons c cs)
    obtain l r where lr: "fgets_upto (n - 1) (c # cs) = (l, r)" by fastforce
    have "l \<noteq> []" using lr n fgets_upto_nonempty by (metis Suc_pred)
    with lr tls_upto_fgets [OF n, of "[]" "c # cs"]
    have "fst (tls_upto (n - 1) [] (c # cs)) =
        (if length l = n - 1 \<or> last l = NL then Some l else None)"
      by (simp del: tls_upto.simps fgets_upto.simps)
    with assms Cons lr show ?thesis
      by (simp add: read_line_def fgets_def split_beta del: tls_upto.simps fgets_upto.simps)
  qed
qed

definition new_session :: "string \<Rightarrow> string \<Rightarrow> string \<Rightarrow> world \<Rightarrow> session" where
  "new_session i t peer w =
     \<lparr>inp = i, ssl_inp = t, out = [], buf = [], bIO_SSL = False, bTLSMode = False, wld = w,
      strPeer = peer, bTimeout = False, bQuit = False, bBanned = False, failed = False, iUserID = 0\<rparr>"

lemma read_line_tls_plain_witness:
  "fst (read_line 10 ((new_session [] ''quit'' [] sample_world)\<lparr>bIO_SSL := True\<rparr>)) = None"
  using read_line_tls_plain [of 10 "(new_session [] ''quit'' [] sample_world)\<lparr>bIO_SSL := True\<rparr>"
    "new_session ''quit'' [] [] sample_world"]
  by (simp add: new_session_def read_line_def fgets_def numeral_eq_Suc)

end
