(* ===== verification/Pop3.thy ===== *)
theory Pop3
  imports Session BlobStorage
begin

text \<open>
  The POP3 server (src/pop3/pop3.cpp): its session record, one definition per command, the
  dispatcher and \<open>Run\<close>. \<open>Redirect\<close>, which copies bytes between two sockets until one closes, is
  only recorded. Logging and delays are left out.
\<close>

section \<open>State\<close>

datatype ePOP3State = POP3_STATE_AUTHORIZATION | POP3_STATE_TRANSACTION

record POP3Msg =
  iNr :: int
  iID :: int
  iSize :: "64 word"
  strUID :: string
  bFile :: bool
  bDele :: bool
  iBlobStorage :: int

record pop3 = session +
  p3State :: ePOP3State
  strUser :: string
  p3Commands :: int
  iFetched :: int
  iPartFetched :: int
  iBadTries :: int
  iDele :: int
  iDropSize :: "64 word"
  iDeleSize :: "64 word"
  vMessages :: "POP3Msg list"
  redirected :: "(int \<times> string) option"

definition FAILBAN_POP3LOGIN :: int where "FAILBAN_POP3LOGIN = 1"
definition BMS_EVENT_DELETEMAIL :: int where "BMS_EVENT_DELETEMAIL = 2"
definition POP3_LINEMAX :: nat where "POP3_LINEMAX = 512"

definition new_pop3 :: "session \<Rightarrow> pop3" where
  "new_pop3 s = session.extend s
     \<lparr>p3State = POP3_STATE_AUTHORIZATION, strUser = [], p3Commands = 0, iFetched = 0,
      iPartFetched = 0, iBadTries = 0, iDele = 0, iDropSize = 0, iDeleSize = 0, vMessages = [],
      redirected = None\<rparr>"

text \<open>\<open>%u\<close> of a value cast to \<open>unsigned int\<close>, \<open>%ld\<close> of one cast to \<open>long\<close>, \<open>%32s\<close>.\<close>

definition show_u32 :: "64 word \<Rightarrow> string" where
  "show_u32 n = show_int (uint n mod 2 ^ 32)"

definition show_long :: "64 word \<Rightarrow> string" where
  "show_long n = show_int (sint n)"

definition show_s32 :: "string \<Rightarrow> string" where
  "show_s32 s = pad_left 32 (CHR '' '') s"

text \<open>\<open>sscanf(szLine, "%*s %d", &iID)\<close> and the variant with two numbers.\<close>

definition scan_arg :: "string \<Rightarrow> (int \<times> string) option" where
  "scan_arg l = (case scan_word l of None \<Rightarrow> None | Some (_, r) \<Rightarrow> scan_int r)"

definition VALID_MSG :: "'x pop3_scheme \<Rightarrow> int \<Rightarrow> bool" where
  "VALID_MSG s x \<longleftrightarrow> (0 < x \<and> x \<le> int (length (vMessages s))) \<and> \<not> bDele (vMessages s ! nat (x - 1))"

definition msg_at :: "'x pop3_scheme \<Rightarrow> int \<Rightarrow> POP3Msg" where
  "msg_at s x = vMessages s ! nat (x - 1)"

section \<open>Commands outside a mailbox\<close>

definition POP3_Noop :: "'x pop3_scheme \<Rightarrow> 'x pop3_scheme" where
  "POP3_Noop s = printf (''+OK Yup'' @ CRLF) s"

definition POP3_Capa :: "'x env_scheme \<Rightarrow> 'y pop3_scheme \<Rightarrow> 'y pop3_scheme" where
  "POP3_Capa e s =
     (let s1 = printf (''+OK Capability list follows'' @ CRLF) s;
          s2 = printf (''TOP'' @ CRLF) s1;
          s3 = printf (''USER'' @ CRLF) s2;
          s4 = printf (''UIDL'' @ CRLF) s3;
          s5 = (if \<not> bTLSMode s \<and> tls_available e then printf (''STLS'' @ CRLF) s4 else s4)
      in printf (''.'' @ CRLF) s5)"

definition POP3_STLS :: "'x env_scheme \<Rightarrow> 'y pop3_scheme \<Rightarrow> 'y pop3_scheme" where
  "POP3_STLS e s =
     (if bTLSMode s then printf (''-ERR Already in TLS mode'' @ CRLF) s
      else let s1 = printf (''+OK Begin TLS negotiation'' @ CRLF) s
           in case begin_tls e of
                None \<Rightarrow> s1\<lparr>bTLSMode := True, bIO_SSL := True\<rparr>
              | Some err \<Rightarrow> printf (''-ERR '' @ err @ CRLF) (s1\<lparr>bIO_SSL := False\<rparr>))"

text \<open>The user: the result is false when the connection was handed to the alternative server.\<close>

definition pop3_user_rows :: "'x env_scheme \<Rightarrow> world \<Rightarrow> string \<Rightarrow> int \<Rightarrow> user_row list" where
  "pop3_user_rows e w usr iAlias = filter (\<lambda>u. sql_eq e (u_email u) usr \<or> u_id u = iAlias) (users w)"

definition POP3_User :: "'x env_scheme \<Rightarrow> 'y pop3_scheme \<Rightarrow> bool \<times> 'y pop3_scheme" where
  "POP3_User e s =
     (case scan_str 5 (szLine s) of
        None \<Rightarrow> (True, printf (''-ERR Syntax: USER [username]'' @ CRLF) s)
      | Some (_, r) \<Rightarrow>
          (case scan_word r of
             None \<Rightarrow> (True, printf (''-ERR Syntax: USER [username]'' @ CRLF) s)
           | Some (usr, _) \<Rightarrow>
               (case pop3_user_rows e (wld s) usr (GetAlias e (wld s) usr) of
                  u # _ \<Rightarrow>
                    (True, printf (''+OK Password required'' @ CRLF)
                             (s\<lparr>strUser := u_email u, iUserID := u_id u\<rparr>))
                | [] \<Rightarrow>
                    let s1 = s\<lparr>strUser := usr, iUserID := -1\<rparr>
                    in if cfg e ''altpop3'' \<noteq> None \<and> 0 < cfg_int e ''altpop3''
                       then (False, s1\<lparr>redirected := Some (cfg_int e ''altpop3'', usr)\<rparr>)
                       else (True, printf (''+OK Password required'' @ CRLF) s1))))"

section \<open>Login\<close>

text \<open>The rows of the password query.\<close>

definition pop3_login_rows :: "'x env_scheme \<Rightarrow> world \<Rightarrow> int \<Rightarrow> string \<Rightarrow> (user_row \<times> group_row) list" where
  "pop3_login_rows e w userID pass =
     filter (\<lambda>(u, g). password_ok e u pass \<and> u_locked u = ''no'' \<and> u_gesperrt u = ''no'' \<and>
               g_id g = u_gruppe u \<and> g_pop3 g = ''yes'' \<and> u_id u = userID)
       (List.product (users w) (groups w))"

text \<open>The folders that the session shows: whether all own folders, and the listed numbers.\<close>

definition pop3_folder_pref :: "'x env_scheme \<Rightarrow> world \<Rightarrow> int \<Rightarrow> string" where
  "pop3_folder_pref e w userID =
     (if cfg_int e ''user_chosepop3folders'' = 1
      then GetUserPref e w userID ''pop3Folders'' (cfg_str e ''pop3_folders'')
      else cfg_str e ''pop3_folders'')"

definition pop3_folder_ids :: "string \<Rightarrow> bool \<times> string list" where
  "pop3_folder_ids pref =
     (let ids = ExplodeOutsideOfQuotation pref (CHR '','') False
      in (''-128'' \<in> set ids, filter (\<lambda>i. i \<noteq> ''-128'' \<and> IsNumeric i) ids))"

definition pop3_folderQuery :: "bool \<Rightarrow> string list \<Rightarrow> string" where
  "pop3_folderQuery allUserFolders ids =
     (let q = foldl (\<lambda>q i. (if q \<noteq> [] then q @ '','' else q) @ i) [] ids
      in if allUserFolders
         then (if q \<noteq> [] then ''folder>0 OR folder IN('' @ q @ '')'' else ''folder>0'')
         else if q \<noteq> [] then ''folder IN('' @ q @ '')'' else ''0'')"

text \<open>
  What the server makes of the condition: each listed number needs a digit, otherwise the
  statement is refused and \<open>Query\<close> throws. (\<open>IsNumeric\<close> accepts a lone minus sign.)
\<close>

definition sql_number :: "string \<Rightarrow> int option" where
  "sql_number i =
     (let (neg, ds) = split_sign i
      in if ds = [] \<or> \<not> list_all is_digit ds then None
         else Some (if neg then - int (digits_val ds) else int (digits_val ds)))"

definition folder_query_ok :: "string list \<Rightarrow> bool" where
  "folder_query_ok ids \<longleftrightarrow> list_all (\<lambda>i. sql_number i \<noteq> None) ids"

definition in_folders :: "bool \<Rightarrow> string list \<Rightarrow> int \<Rightarrow> bool" where
  "in_folders allUserFolders ids folder \<longleftrightarrow>
     (allUserFolders \<and> 0 < folder) \<or> list_ex (\<lambda>i. sql_number i = Some folder) ids"

definition pop3_mail_rows :: "world \<Rightarrow> int \<Rightarrow> bool \<Rightarrow> string list \<Rightarrow> mail_row list" where
  "pop3_mail_rows w userID allUserFolders ids =
     sort_key m_id (filter (\<lambda>m. m_userid m = userID \<and> in_folders allUserFolders ids (m_folder m)) (mails w))"

definition pop3_msg :: "'x env_scheme \<Rightarrow> string \<Rightarrow> nat \<Rightarrow> mail_row \<Rightarrow> POP3Msg" where
  "pop3_msg e usr n m =
     (let haveBlobStorage = cfg_is1 e ''enable_blobstorage''
      in \<lparr>iNr = int n + 1, iID = m_id m, iSize = word_of_int (m_size m),
          strUID = md5 e (show_int (m_id m) @ usr),
          bFile = (haveBlobStorage \<or> length (m_body m) = 4), bDele = False,
          iBlobStorage = (if haveBlobStorage then m_blobstorage m else 0)\<rparr>)"

definition pop3_push :: "'x env_scheme \<Rightarrow> 'y pop3_scheme \<Rightarrow> mail_row \<Rightarrow> 'y pop3_scheme" where
  "pop3_push e s m =
     (let msg = pop3_msg e (strUser s) (length (vMessages s)) m
      in s\<lparr>iDropSize := iDropSize s + iSize msg, vMessages := vMessages s @ [msg]\<rparr>)"

definition pop3_open_mailbox :: "'x env_scheme \<Rightarrow> 'y pop3_scheme \<Rightarrow> 'y pop3_scheme" where
  "pop3_open_mailbox e s =
     (let w1 = (wld s)\<lparr>users := map (\<lambda>u. if u_id u = iUserID s then u\<lparr>u_last_pop3 := now (wld s)\<rparr> else u)
                 (users (wld s))\<rparr>;
          s1 = s\<lparr>wld := w1, p3State := POP3_STATE_TRANSACTION\<rparr>;
          (allF, ids) = pop3_folder_ids (pop3_folder_pref e w1 (iUserID s));
          s2 = s1\<lparr>iDropSize := 0\<rparr>
      in if \<not> folder_query_ok ids then s2\<lparr>failed := True\<rparr>
         else let s3 = foldl (pop3_push e) s2 (pop3_mail_rows w1 (iUserID s) allF ids)
              in printf (''+OK Logged in, you have '' @ show_int (int (length (vMessages s3))) @
                   '' messages ('' @ show_long (iDropSize s3) @ '' octets)'' @ CRLF) s3)"

text \<open>The outcome of the checks of \<open>Pass\<close> on the matching rows.\<close>

datatype login_check = LoginOk | LoginMinPOP3 int | LoginWebLogin | LoginBad

definition pop3_check_login :: "'x env_scheme \<Rightarrow> world \<Rightarrow> int \<Rightarrow> string \<Rightarrow> login_check" where
  "pop3_check_login e w userID pass =
     (case pop3_login_rows e w userID pass of
        [(u, g)] \<Rightarrow>
          let iMinPOP3 = atoi (GetGroupOption e w userID ''minpop3'' ''0'')
          in if 0 < iMinPOP3 \<and> u_last_pop3 u > now w - iMinPOP3 then LoginMinPOP3 iMinPOP3
             else if web_login_missing e w userID (u_lastlogin u) then LoginWebLogin
             else LoginOk
      | _ \<Rightarrow> LoginBad)"

definition pop3_login_failed :: "'x env_scheme \<Rightarrow> string \<Rightarrow> 'y pop3_scheme \<Rightarrow> 'y pop3_scheme" where
  "pop3_login_failed e msg s =
     (let s1 = printf msg (s\<lparr>iBadTries := iBadTries s + 1\<rparr>);
          (b, w1) = Failban_LoginFailed e (wld s1) (PEER_IP e s1) FAILBAN_POP3LOGIN
      in s1\<lparr>wld := w1, bBanned := (b \<or> bBanned s1)\<rparr>)"

definition POP3_Pass :: "'x env_scheme \<Rightarrow> 'y pop3_scheme \<Rightarrow> 'y pop3_scheme" where
  "POP3_Pass e s =
     (if 7 < length (szLine s)
      then let strPass = RTrim (drop 5 (szLine s)) [CR, NL]
           in if strUser s = [] then printf (''-ERR Please send username first'' @ CRLF) s
              else if iUserID s < 0 then pop3_login_failed e (''-ERR Login failed'' @ CRLF) s
              else (case pop3_check_login e (wld s) (iUserID s) strPass of
                      LoginOk \<Rightarrow> pop3_open_mailbox e s
                    | LoginMinPOP3 n \<Rightarrow>
                        pop3_login_failed e
                          (''-ERR Minimum login interval is '' @ show_int n @ '' seconds'' @ CRLF) s
                    | LoginWebLogin \<Rightarrow>
                        pop3_login_failed e (''-ERR Please login to your webmail account first'' @ CRLF) s
                    | LoginBad \<Rightarrow> pop3_login_failed e (''-ERR Login failed'' @ CRLF) s)
      else printf (''-ERR Syntax: PASS [password]'' @ CRLF) s)"

section \<open>Commands of the transaction state\<close>

definition POP3_List :: "'y pop3_scheme \<Rightarrow> 'y pop3_scheme" where
  "POP3_List s =
     (case scan_arg (szLine s) of
        Some (n, _) \<Rightarrow>
          if VALID_MSG s n
          then printf (''+OK '' @ show_int n @ '' '' @ show_u32 (iSize (msg_at s n)) @ CRLF) s
          else printf (''-ERR Invalid message'' @ CRLF) s
      | None \<Rightarrow>
          let s1 = printf (''+OK '' @ show_int (int (length (vMessages s)) - iDele s) @ '' messages ('' @
                     show_long (iDropSize s - iDeleSize s) @ '' octets)'' @ CRLF) s;
              s2 = foldl (\<lambda>t m. printf (show_int (iNr m) @ '' '' @ show_u32 (iSize m) @ CRLF) t) s1
                     (filter (\<lambda>m. \<not> bDele m) (vMessages s))
          in printf (''.'' @ CRLF) s2)"

definition POP3_Uidl :: "'y pop3_scheme \<Rightarrow> 'y pop3_scheme" where
  "POP3_Uidl s =
     (case scan_arg (szLine s) of
        Some (n, _) \<Rightarrow>
          if VALID_MSG s n
          then printf (''+OK '' @ show_int n @ '' '' @ show_s32 (strUID (msg_at s n)) @ CRLF) s
          else printf (''-ERR Invalid message'' @ CRLF) s
      | None \<Rightarrow>
          let s1 = printf (''+OK '' @ show_int (int (length (vMessages s)) - iDele s) @ '' messages'' @ CRLF) s;
              s2 = foldl (\<lambda>t m. printf (show_int (iNr m) @ '' '' @ show_s32 (strUID m) @ CRLF) t) s1
                     (filter (\<lambda>m. \<not> bDele m) (vMessages s))
          in printf (''.'' @ CRLF) s2)"

definition POP3_Dele :: "'y pop3_scheme \<Rightarrow> 'y pop3_scheme" where
  "POP3_Dele s =
     (case scan_arg (szLine s) of
        Some (n, _) \<Rightarrow>
          if VALID_MSG s n
          then printf (''+OK Message marked for deletion'' @ CRLF)
                 (s\<lparr>vMessages := (vMessages s)[nat (n - 1) := (msg_at s n)\<lparr>bDele := True\<rparr>],
                    iDele := iDele s + 1,
                    iDeleSize := iDeleSize s + iSize (msg_at s n)\<rparr>)
          else printf (''-ERR Invalid message'' @ CRLF) s
      | None \<Rightarrow> printf (''-ERR Syntax: DELE [msgnr]'' @ CRLF) s)"

definition POP3_Rset :: "'y pop3_scheme \<Rightarrow> 'y pop3_scheme" where
  "POP3_Rset s =
     printf (''+OK Done'' @ CRLF)
       (s\<lparr>vMessages := map (\<lambda>m. m\<lparr>bDele := False\<rparr>) (vMessages s), iDele := 0, iDeleSize := 0\<rparr>)"

definition POP3_Stat :: "'y pop3_scheme \<Rightarrow> 'y pop3_scheme" where
  "POP3_Stat s =
     printf (''+OK '' @ show_int (int (length (vMessages s)) - iDele s) @ '' '' @
       show_long (iDropSize s - iDeleSize s) @ CRLF) s"

text \<open>
  The copy loop of \<open>Retr\<close>: \<open>fgets\<close> of at most 4094 bytes into a zeroed buffer, a dot before
  a chunk that starts with one, the chunk up to its first NUL. \<open>feof\<close> holds after a chunk that
  neither ends in a newline nor fills the buffer, and after an empty read.
\<close>

definition chunk_max :: nat where "chunk_max = 4094"

definition dot_stuff :: "string \<Rightarrow> string" where
  "dot_stuff c = (if c \<noteq> [] \<and> hd c = CHR ''.'' then CHR ''.'' # c else c)"

function retr_copy :: "string \<Rightarrow> string" where
  "retr_copy d =
     (case fgets (Suc chunk_max) d of
        None \<Rightarrow> []
      | Some (c, rest) \<Rightarrow>
          dot_stuff (cstr c) @
          (if last c = NL \<or> length c = chunk_max then retr_copy rest else []))"
  by pat_completeness auto

termination
  by (relation "measure length") (auto dest: fgets_decreases simp: chunk_max_def)

declare retr_copy.simps [simp del]

text \<open>The copy loop of \<open>Top\<close>: the state is whether the header has passed and the lines sent.\<close>

definition ends_header :: "string \<Rightarrow> bool" where
  "ends_header c \<longleftrightarrow> c = [NL] \<or> c = CRLF \<or> c = [] \<or> c = [CR]"

function top_copy :: "bool \<Rightarrow> int \<Rightarrow> int \<Rightarrow> string \<Rightarrow> string" where
  "top_copy passed sent iLines d =
     (if passed \<and> \<not> sent < iLines then []
      else case fgets (Suc chunk_max) d of
             None \<Rightarrow> []
           | Some (c, rest) \<Rightarrow>
               dot_stuff (cstr c) @
               (if last c = NL \<or> length c = chunk_max
                then top_copy (passed \<or> ends_header (cstr c)) (if passed then sent + 1 else sent) iLines rest
                else []))"
  by pat_completeness auto

termination
  by (relation "measure (\<lambda>(_, _, _, d). length d)") (auto dest: fgets_decreases simp: chunk_max_def)

declare top_copy.simps [simp del]

definition pop3_message_body :: "'x env_scheme \<Rightarrow> 'y pop3_scheme \<Rightarrow> int \<Rightarrow> string option \<times> 'y pop3_scheme" where
  "pop3_message_body e s n =
     (let (fp, w1) = GetMessageFP e (wld s) (iID (msg_at s n)) (iUserID s)
      in (fp, s\<lparr>wld := w1\<rparr>))"

definition POP3_Retr :: "'x env_scheme \<Rightarrow> 'y pop3_scheme \<Rightarrow> 'y pop3_scheme" where
  "POP3_Retr e s =
     (case scan_arg (szLine s) of
        Some (n, _) \<Rightarrow>
          if VALID_MSG s n
          then let s1 = printf (''+OK '' @ show_u32 (iSize (msg_at s n)) @ '' octets'' @ CRLF) s;
                   (fp, s2) = pop3_message_body e s1 n;
                   s3 = (case fp of Some d \<Rightarrow> printf (retr_copy d) s2
                         | None \<Rightarrow> printf (''Internal error'' @ CRLF) s2)
               in (printf (CRLF @ ''.'' @ CRLF) s3)\<lparr>iFetched := iFetched s + 1\<rparr>
          else printf (''-ERR Invalid message'' @ CRLF) s
      | None \<Rightarrow> printf (''-ERR Syntax: RETR [msgnr]'' @ CRLF) s)"

definition POP3_Top :: "'x env_scheme \<Rightarrow> 'y pop3_scheme \<Rightarrow> 'y pop3_scheme" where
  "POP3_Top e s =
     (case scan_arg (szLine s) of
        Some (n, r) \<Rightarrow>
          (case scan_int r of
             Some (iLines, _) \<Rightarrow>
               if VALID_MSG s n
               then let s1 = printf (''+OK Header and first '' @ show_int iLines @ '' lines follow'' @ CRLF) s;
                        (fp, s2) = pop3_message_body e s1 n;
                        s3 = (case fp of Some d \<Rightarrow> printf (top_copy False 0 iLines d) s2
                              | None \<Rightarrow> printf (''Internal error'' @ CRLF) s2)
                    in (printf (CRLF @ ''.'' @ CRLF) s3)\<lparr>iPartFetched := iPartFetched s + 1\<rparr>
               else printf (''-ERR Invalid message'' @ CRLF) s
           | None \<Rightarrow> printf (''-ERR Syntax: TOP [msgnr] [lines]'' @ CRLF) s)
      | None \<Rightarrow> printf (''-ERR Syntax: TOP [msgnr] [lines]'' @ CRLF) s)"

section \<open>QUIT\<close>

definition POP3_IncGeneration :: "int \<Rightarrow> int \<Rightarrow> 'y pop3_scheme \<Rightarrow> 'y pop3_scheme" where
  "POP3_IncGeneration iGeneration iStructureGeneration s =
     (if iUserID s < 1 then s
      else s\<lparr>wld := (wld s)\<lparr>users := map (\<lambda>u. if u_id u = iUserID s
               then u\<lparr>u_mailbox_generation := u_mailbox_generation u + iGeneration,
                      u_structure_generation := u_structure_generation u + iStructureGeneration\<rparr>
               else u) (users (wld s))\<rparr>\<rparr>)"

text \<open>One message of the deletion loop; the number is the freed space so far.\<close>

definition pop3_delete_msg ::
  "'x env_scheme \<Rightarrow> int \<Rightarrow> 64 word \<times> world \<Rightarrow> POP3Msg \<Rightarrow> 64 word \<times> world" where
  "pop3_delete_msg e userID = (\<lambda>(freedSpace, w) m.
     (if \<not> bDele m then (freedSpace, w)
      else let w1 = (if bFile m then snd (DeleteBlob e w (iBlobStorage m) BMBLOB_TYPE_MAIL (iID m) userID) else w);
               hit = (\<lambda>r. m_id r = iID m \<and> m_userid r = userID);
               affectedRows = length (filter hit (mails w1));
               w2 = w1\<lparr>mails := filter (\<lambda>r. \<not> hit r) (mails w1)\<rparr>;
               (f, w3) = (if affectedRows = 1
                          then (freedSpace + iSize m,
                                w2\<lparr>attachments := filter (\<lambda>(a, u). \<not> (a = iID m \<and> u = userID)) (attachments w2)\<rparr>)
                          else (freedSpace, w2))
           in (f, PostEvent w3 userID BMS_EVENT_DELETEMAIL (iID m) 0)))"

definition int_of_size :: "64 word \<Rightarrow> int" where
  "int_of_size n = to_int32 (uint n)"

definition POP3_Quit :: "'x env_scheme \<Rightarrow> 'y pop3_scheme \<Rightarrow> 'y pop3_scheme" where
  "POP3_Quit e s =
     (let s1 =
        (if p3State s = POP3_STATE_TRANSACTION
         then let (freedSpace, w1) = foldl (pop3_delete_msg e (iUserID s)) (0, wld s) (vMessages s)
              in if freedSpace > 0
                 then POP3_IncGeneration 1 0
                   (s\<lparr>wld := w1\<lparr>users := map (\<lambda>u. if u_id u = iUserID s
                       then u\<lparr>u_mailspace_used := u_mailspace_used u - min (u_mailspace_used u) (int_of_size freedSpace)\<rparr>
                       else u) (users w1)\<rparr>\<rparr>)
                 else s\<lparr>wld := w1\<rparr>
         else s)
      in printf (''+OK Bye (deleted: '' @ show_int (iDele s) @ '' / fetched: '' @ show_int (iFetched s) @
           '' / partialy fetched: '' @ show_int (iPartFetched s) @ '')'' @ CRLF) s1)"

section \<open>Dispatcher and session\<close>

text \<open>The commands that are available, the ones of each state after their guards.\<close>

definition POP3_transaction ::
  "'x env_scheme \<Rightarrow> string \<Rightarrow> 'y pop3_scheme \<Rightarrow> 'y pop3_scheme option" where
  "POP3_transaction e c s =
     (if p3State s \<noteq> POP3_STATE_TRANSACTION then None
      else if strcaseeq c ''rset'' then Some (POP3_Rset s)
      else if strcaseeq c ''stat'' then Some (POP3_Stat s)
      else if strcaseeq c ''list'' then Some (POP3_List s)
      else if strcaseeq c ''uidl'' then Some (POP3_Uidl s)
      else if strcaseeq c ''dele'' then Some (POP3_Dele s)
      else if strcaseeq c ''retr'' then Some (POP3_Retr e s)
      else if strcaseeq c ''top'' then Some (POP3_Top e s)
      else None)"

text \<open>The chain of command names: false when the dispatcher returns false at once.\<close>

definition POP3_command :: "'x env_scheme \<Rightarrow> string \<Rightarrow> 'y pop3_scheme \<Rightarrow> bool \<times> 'y pop3_scheme" where
  "POP3_command e c s =
     (if strcaseeq c ''capa'' then (True, POP3_Capa e s)
      else if strcaseeq c ''stls'' \<and> p3State s = POP3_STATE_AUTHORIZATION \<and> tls_available e \<and> \<not> bTLSMode s
      then (True, POP3_STLS e s)
      else if strcaseeq c ''quit'' then (False, POP3_Quit e s)
      else if strcaseeq c ''noop'' then (True, POP3_Noop s)
      else if strcaseeq c ''user'' \<and> p3State s = POP3_STATE_AUTHORIZATION then POP3_User e s
      else if strcaseeq c ''pass'' \<and> p3State s = POP3_STATE_AUTHORIZATION then (True, POP3_Pass e s)
      else case POP3_transaction e c s of
             Some t \<Rightarrow> (True, t)
           | None \<Rightarrow>
               (True, printf (''-ERR Unknown command: '' @ c @ CRLF) (s\<lparr>p3Commands := p3Commands s - 1\<rparr>)))"

definition POP3_ProcessLine :: "'x env_scheme \<Rightarrow> 'y pop3_scheme \<Rightarrow> bool \<times> 'y pop3_scheme" where
  "POP3_ProcessLine e s =
     (let (go, t) =
        (case scan_str 5 (szLine s) of
           Some (szCommand, _) \<Rightarrow> POP3_command e szCommand (s\<lparr>p3Commands := p3Commands s + 1\<rparr>)
         | None \<Rightarrow> (True, printf (''-ERR Syntax error'' @ CRLF) s))
      in (go \<and> \<not> failed t \<and> iBadTries t < 3, t))"

definition pop3_loop :: "'x env_scheme \<Rightarrow> 'y pop3_scheme \<Rightarrow> 'y pop3_scheme option" where
  "pop3_loop e s = serve (Suc (todo s)) (my_fgets POP3_LINEMAX) (POP3_ProcessLine e) (\<lambda>s. \<not> bBanned s) s"

definition pop3_epilogue :: "'x env_scheme \<Rightarrow> 'y pop3_scheme \<Rightarrow> 'y pop3_scheme" where
  "pop3_epilogue e s =
     (if bTimeout s then printf (''-ERR Timeout ('' @ show_int (cfg_int e ''pop3_timeout'') @ ''s)'' @ CRLF) s
      else if bQuit s then printf (''-ERR Closing connection'' @ CRLF) s
      else s)"

definition POP3_Run :: "'x env_scheme \<Rightarrow> 'y pop3_scheme \<Rightarrow> 'y pop3_scheme option" where
  "POP3_Run e s =
     (if Failban_IsBanned e (wld s) (PEER_IP e s) FAILBAN_POP3LOGIN
      then Some (printf (''-ERR IP temporarily banned because of too many failed login attempts'' @ CRLF)
             (s\<lparr>bBanned := True\<rparr>))
      else case pop3_loop e (printf (''+OK '' @ cfg_str e ''pop3greeting'' @ CRLF) s) of
             None \<Rightarrow> None
           | Some t \<Rightarrow> Some (if failed t then t else pop3_epilogue e t))"

end
