(* ===== verification/Pop3_Correct.thy ===== *)
theory Pop3_Correct
  imports Pop3
begin

text \<open>
  What the POP3 server guarantees: the accounting of marked messages in every reachable state,
  who can read and delete which messages, the shape of the folder query, the transparency of
  the dot-stuffed transfer, and that a session ends.
\<close>

section \<open>Frames\<close>

lemma printf_pop3 [simp]:
  "p3State (printf x s) = p3State s" "strUser (printf x s) = strUser s"
  "iBadTries (printf x s) = iBadTries s" "iDele (printf x s) = iDele s"
  "iDropSize (printf x s) = iDropSize s" "iDeleSize (printf x s) = iDeleSize s"
  "vMessages (printf x s) = vMessages s" "iFetched (printf x s) = iFetched s"
  by (simp_all add: printf_def)

text \<open>The part of the state that only the mailbox commands touch.\<close>

definition mbox :: "'y pop3_scheme \<Rightarrow> int \<times> 64 word \<times> 64 word \<times> POP3Msg list \<times> ePOP3State \<times> int" where
  "mbox s = (iDele s, iDropSize s, iDeleSize s, vMessages s, p3State s, iUserID s)"

lemma mbox_printf [simp]: "mbox (printf x s) = mbox s"
  by (simp add: mbox_def)

lemma foldl_printf [simp]:
  "mbox (foldl (\<lambda>t m. printf (f m) t) s ms) = mbox s"
  "rest_of_input (foldl (\<lambda>t m. printf (f m) t) s ms) = rest_of_input s"
  "wld (foldl (\<lambda>t m. printf (f m) t) s ms) = wld s"
  "iBadTries (foldl (\<lambda>t m. printf (f m) t) s ms) = iBadTries s"
  "failed (foldl (\<lambda>t m. printf (f m) t) s ms) = failed s"
  by (induction ms arbitrary: s) simp_all

lemma rest_update [simp]:
  "rest_of_input (s\<lparr>p3State := a\<rparr>) = rest_of_input s"
  "rest_of_input (s\<lparr>iDropSize := b\<rparr>) = rest_of_input s" "rest_of_input (s\<lparr>vMessages := c\<rparr>) = rest_of_input s"
  "rest_of_input (s\<lparr>iDele := d\<rparr>) = rest_of_input s" "rest_of_input (s\<lparr>iDeleSize := b\<rparr>) = rest_of_input s"
  "rest_of_input (s\<lparr>p3Commands := d\<rparr>) = rest_of_input s"
  "rest_of_input (s\<lparr>iBadTries := d\<rparr>) = rest_of_input s" 
  "rest_of_input (s\<lparr>iFetched := d\<rparr>) = rest_of_input s" "rest_of_input (s\<lparr>iPartFetched := d\<rparr>) = rest_of_input s"
  "rest_of_input (s\<lparr>strUser := u\<rparr>) = rest_of_input s"
  "rest_of_input (s\<lparr>redirected := r\<rparr>) = rest_of_input s" 
  
  by (simp_all add: rest_of_input_def)

lemma rest_push [simp]: "rest_of_input (foldl (pop3_push e) s ms) = rest_of_input s"
  by (induction ms arbitrary: s) (simp_all add: pop3_push_def Let_def)

lemma rest_login_failed [simp]: "rest_of_input (pop3_login_failed e m s) = rest_of_input s"
  by (simp add: pop3_login_failed_def Let_def split_beta)

lemma rest_Pass [simp]: "rest_of_input (POP3_Pass e s) = rest_of_input s"
  by (simp add: POP3_Pass_def pop3_open_mailbox_def Let_def split_beta split: login_check.split)

lemma rest_User [simp]: "rest_of_input (snd (POP3_User e s)) = rest_of_input s"
  by (simp add: POP3_User_def Let_def split: option.split list.split)

lemma rest_message_body [simp]: "rest_of_input (snd (pop3_message_body e s n)) = rest_of_input s"
  by (simp add: pop3_message_body_def split_beta)

lemma rest_simple [simp]:
  "rest_of_input (POP3_Noop s) = rest_of_input s" "rest_of_input (POP3_Capa e s) = rest_of_input s"
  "rest_of_input (POP3_STLS e s) = rest_of_input s" "rest_of_input (POP3_List s) = rest_of_input s"
  "rest_of_input (POP3_Uidl s) = rest_of_input s" "rest_of_input (POP3_Dele s) = rest_of_input s"
  "rest_of_input (POP3_Rset s) = rest_of_input s" "rest_of_input (POP3_Stat s) = rest_of_input s"
  by (simp_all add: POP3_Noop_def POP3_Capa_def POP3_STLS_def POP3_List_def POP3_Uidl_def
      POP3_Dele_def POP3_Rset_def POP3_Stat_def Let_def split: option.split prod.split)

lemma rest_retrieve [simp]:
  "rest_of_input (POP3_Retr e s) = rest_of_input s" "rest_of_input (POP3_Top e s) = rest_of_input s"
  by (auto simp: POP3_Retr_def POP3_Top_def Let_def split_beta split: option.split)

lemma rest_Quit [simp]: "rest_of_input (POP3_Quit e s) = rest_of_input s"
  by (simp add: POP3_Quit_def POP3_IncGeneration_def Let_def split_beta)


section \<open>The dispatcher as a relation\<close>

text \<open>One rule per command, with the guards under which the dispatcher calls it.\<close>

inductive pop3_cmd :: "'x env_scheme \<Rightarrow> string \<Rightarrow> 'y pop3_scheme \<Rightarrow> 'y pop3_scheme \<Rightarrow> bool"
  for e :: "'x env_scheme" and c :: string and s :: "'y pop3_scheme"
where
  other: "pop3_cmd e c s (printf x s)"
| capa: "pop3_cmd e c s (POP3_Capa e s)"
| noop: "pop3_cmd e c s (POP3_Noop s)"
| quit: "strcaseeq c ''quit'' \<Longrightarrow> pop3_cmd e c s (POP3_Quit e s)"
| stls: "p3State s = POP3_STATE_AUTHORIZATION \<Longrightarrow> \<not> bTLSMode s \<Longrightarrow> pop3_cmd e c s (POP3_STLS e s)"
| user: "p3State s = POP3_STATE_AUTHORIZATION \<Longrightarrow> pop3_cmd e c s (snd (POP3_User e s))"
| pass: "p3State s = POP3_STATE_AUTHORIZATION \<Longrightarrow> pop3_cmd e c s (POP3_Pass e s)"
| rset: "p3State s = POP3_STATE_TRANSACTION \<Longrightarrow> pop3_cmd e c s (POP3_Rset s)"
| stat: "p3State s = POP3_STATE_TRANSACTION \<Longrightarrow> pop3_cmd e c s (POP3_Stat s)"
| list: "p3State s = POP3_STATE_TRANSACTION \<Longrightarrow> pop3_cmd e c s (POP3_List s)"
| uidl: "p3State s = POP3_STATE_TRANSACTION \<Longrightarrow> pop3_cmd e c s (POP3_Uidl s)"
| dele: "p3State s = POP3_STATE_TRANSACTION \<Longrightarrow> pop3_cmd e c s (POP3_Dele s)"
| retr: "p3State s = POP3_STATE_TRANSACTION \<Longrightarrow> pop3_cmd e c s (POP3_Retr e s)"
| top: "p3State s = POP3_STATE_TRANSACTION \<Longrightarrow> pop3_cmd e c s (POP3_Top e s)"

inductive_cases pop3_cmdE: "pop3_cmd e c s t"

lemma transaction_cmd: "POP3_transaction e c s = Some t \<Longrightarrow> pop3_cmd e c s t"
  by (auto simp: POP3_transaction_def intro: pop3_cmd.intros split: if_splits)


lemma strcaseeq_diff: "strcaseeq c x \<Longrightarrow> \<not> strcaseeq x y \<Longrightarrow> \<not> strcaseeq c y"
  using strcaseeq_sym strcaseeq_trans by blast

lemma command_names [simp]:
  "\<not> strcaseeq ''quit'' ''capa''" "\<not> strcaseeq ''quit'' ''stls''" "\<not> strcaseeq [] ''quit''"
  by code_simp+

lemma command_cmd:
  "POP3_command e c s = (b, t) \<Longrightarrow>
     pop3_cmd e c s t \<or> (\<exists>x n. t = printf x (s\<lparr>p3Commands := n\<rparr>))"
  by (auto simp: POP3_command_def intro: pop3_cmd.intros transaction_cmd
      split: if_splits option.splits) (metis pop3_cmd.user snd_conv)+

lemma command_quit: "POP3_command e c s = (True, t) \<Longrightarrow> \<not> strcaseeq c ''quit''"
  using strcaseeq_diff [of c "''quit''" "''capa''"] strcaseeq_diff [of c "''quit''" "''stls''"]
  by (auto simp: POP3_command_def)

lemma ProcessLine_cmd:
  assumes "POP3_ProcessLine e s = (b, t)"
  shows "\<exists>c n. pop3_cmd e c (s\<lparr>p3Commands := n\<rparr>) t \<and>
    (b \<longrightarrow> iBadTries t < 3 \<and> \<not> strcaseeq c ''quit'')"
proof (cases "scan_str 5 (szLine s)")
  case None
  with assms have "t = printf (''-ERR Syntax error'' @ CRLF) s" "b \<longrightarrow> iBadTries t < 3"
    by (auto simp: POP3_ProcessLine_def)
  then show ?thesis
    using pop3_cmd.other [of e "[]" s] by (intro exI [of _ "[]"] exI [of _ "p3Commands s"]) simp
next
  case (Some a)
  obtain c r where a: "scan_str 5 (szLine s) = Some (c, r)" using Some by (cases a) simp
  let ?s1 = "s\<lparr>p3Commands := p3Commands s + 1\<rparr>"
  obtain go where go: "POP3_command e c ?s1 = (go, t)" "b \<longrightarrow> go" "b \<longrightarrow> iBadTries t < 3"
    using assms a by (auto simp: POP3_ProcessLine_def split: prod.splits)
  have "\<exists>n. pop3_cmd e c (s\<lparr>p3Commands := n\<rparr>) t"
    using command_cmd [OF go(1)] by (auto intro: pop3_cmd.intros)
  then show ?thesis using command_quit [of e c ?s1 t] go by (cases go) auto
qed

lemma rest_ProcessLine: "POP3_ProcessLine e s = (b, t) \<Longrightarrow> rest_of_input t = rest_of_input s"
  by (auto dest!: ProcessLine_cmd elim!: pop3_cmdE)

section \<open>Accounting\<close>

text \<open>
  The counters agree with the message list: the number and total size of the marked messages,
  the total size of the drop (modulo \<open>2 ^ 64\<close>), the message numbers.
\<close>

definition p3_ok :: "'y pop3_scheme \<Rightarrow> bool" where
  "p3_ok s \<longleftrightarrow>
     iDele s = int (length (filter bDele (vMessages s))) \<and>
     iDeleSize s = sum_list (map iSize (filter bDele (vMessages s))) \<and>
     iDropSize s = sum_list (map iSize (vMessages s)) \<and>
     map iNr (vMessages s) = map (\<lambda>i. int i + 1) [0..<length (vMessages s)] \<and>
     (p3State s = POP3_STATE_AUTHORIZATION \<longrightarrow> vMessages s = [])"

lemma p3_ok_mbox: "mbox t = mbox s \<Longrightarrow> p3_ok s \<Longrightarrow> p3_ok t"
  by (simp add: p3_ok_def mbox_def)

lemma mbox_update [simp]:
  "mbox (s\<lparr>wld := w\<rparr>) = mbox s" "mbox (s\<lparr>failed := f\<rparr>) = mbox s" "mbox (s\<lparr>p3Commands := d\<rparr>) = mbox s"
  "mbox (s\<lparr>iBadTries := d\<rparr>) = mbox s" "mbox (s\<lparr>bBanned := f\<rparr>) = mbox s"
  "mbox (s\<lparr>iFetched := d\<rparr>) = mbox s" "mbox (s\<lparr>iPartFetched := d\<rparr>) = mbox s"
  "mbox (s\<lparr>bTLSMode := f\<rparr>) = mbox s" "mbox (s\<lparr>bIO_SSL := f\<rparr>) = mbox s"
  "mbox (s\<lparr>inp := x\<rparr>) = mbox s" "mbox (s\<lparr>ssl_inp := x\<rparr>) = mbox s" "mbox (s\<lparr>buf := x\<rparr>) = mbox s"
  by (simp_all add: mbox_def)

lemma mbox_simple [simp]:
  "mbox (POP3_Noop s) = mbox s" "mbox (POP3_Capa e s) = mbox s" "mbox (POP3_STLS e s) = mbox s"
  "mbox (POP3_List s) = mbox s" "mbox (POP3_Uidl s) = mbox s" "mbox (POP3_Stat s) = mbox s"
  by (simp_all add: POP3_Noop_def POP3_Capa_def POP3_STLS_def POP3_List_def POP3_Uidl_def POP3_Stat_def
      Let_def split: option.split prod.split)

lemma mbox_retrieve [simp]:
  "mbox (POP3_Retr e s) = mbox s" "mbox (POP3_Top e s) = mbox s"
  by (auto simp: POP3_Retr_def POP3_Top_def pop3_message_body_def Let_def split_beta split: option.split)

lemma mbox_Quit [simp]: "mbox (POP3_Quit e s) = mbox s"
  by (simp add: POP3_Quit_def POP3_IncGeneration_def Let_def split_beta)

lemma mbox_login_failed [simp]: "mbox (pop3_login_failed e m s) = mbox s"
  by (simp add: pop3_login_failed_def Let_def split_beta)

lemma marked_update:
  assumes "i < length ms" and "\<not> bDele (ms ! i)"
  shows "length (filter bDele (ms[i := (ms ! i)\<lparr>bDele := True\<rparr>])) = Suc (length (filter bDele ms))"
    and "sum_list (map iSize (filter bDele (ms[i := (ms ! i)\<lparr>bDele := True\<rparr>]))) =
         sum_list (map iSize (filter bDele ms)) + iSize (ms ! i)"
proof -
  have split: "ms = take i ms @ ms ! i # drop (Suc i) ms"
      "ms[i := y] = take i ms @ y # drop (Suc i) ms" for y
    using assms(1) by (simp_all add: id_take_nth_drop upd_conv_take_nth_drop)
  obtain us vs m where ms: "ms = us @ m # vs" "ms ! i = m" "ms[i := m\<lparr>bDele := True\<rparr>] = us @ m\<lparr>bDele := True\<rparr> # vs"
    using split by metis
  show "length (filter bDele (ms[i := (ms ! i)\<lparr>bDele := True\<rparr>])) = Suc (length (filter bDele ms))"
    and "sum_list (map iSize (filter bDele (ms[i := (ms ! i)\<lparr>bDele := True\<rparr>]))) =
         sum_list (map iSize (filter bDele ms)) + iSize (ms ! i)"
    using ms assms(2) by simp_all
qed

lemma p3_ok_Dele [keep_intros]:
  assumes "p3_ok s" and "p3State s = POP3_STATE_TRANSACTION"
  shows "p3_ok (POP3_Dele s)"
proof (cases "scan_arg (szLine s)")
  case None
  with assms show ?thesis by (auto simp: POP3_Dele_def intro: p3_ok_mbox)
next
  case (Some a)
  obtain n r where a: "a = (n, r)" by (cases a)
  show ?thesis
  proof (cases "VALID_MSG s n")
    case False
    with assms Some a show ?thesis by (auto simp: POP3_Dele_def intro: p3_ok_mbox)
  next
    case True
    then have i: "nat (n - 1) < length (vMessages s)" "\<not> bDele (vMessages s ! nat (n - 1))"
      by (auto simp: VALID_MSG_def)
    have same: "map f ((vMessages s)[nat (n - 1) := (vMessages s ! nat (n - 1))\<lparr>bDele := True\<rparr>]) = map f (vMessages s)"
      if "\<And>m b. f (m\<lparr>bDele := b\<rparr>) = f m" for f :: "POP3Msg \<Rightarrow> 'b"
      using that by (intro map_update_same) simp
    show ?thesis
      using assms Some a True marked_update [OF i] same [of iSize] same [of iNr]
      by (simp add: POP3_Dele_def p3_ok_def msg_at_def)
  qed
qed

lemma p3_ok_Rset [keep_intros]: "p3_ok s \<Longrightarrow> p3_ok (POP3_Rset s)"
  by (simp add: p3_ok_def POP3_Rset_def comp_def)

text \<open>Opening the mailbox: pushing rows keeps sizes and numbers right and marks nothing.\<close>

definition fresh_box :: "'y pop3_scheme \<Rightarrow> bool" where
  "fresh_box s \<longleftrightarrow> iDropSize s = sum_list (map iSize (vMessages s)) \<and>
     map iNr (vMessages s) = map (\<lambda>i. int i + 1) [0..<length (vMessages s)] \<and>
     (\<forall>m \<in> set (vMessages s). \<not> bDele m)"

lemma fresh_push: "fresh_box s \<Longrightarrow> fresh_box (foldl (pop3_push e) s ms)"
proof (induction ms arbitrary: s)
  case (Cons m ms)
  have "fresh_box (pop3_push e s m)"
    using Cons.prems by (auto simp: fresh_box_def pop3_push_def pop3_msg_def Let_def)
  then show ?case using Cons.IH by simp
qed simp

lemma push_frame [simp]:
  "iDele (foldl (pop3_push e) s ms) = iDele s" "iDeleSize (foldl (pop3_push e) s ms) = iDeleSize s"
  "p3State (foldl (pop3_push e) s ms) = p3State s" "iBadTries (foldl (pop3_push e) s ms) = iBadTries s"
  "wld (foldl (pop3_push e) s ms) = wld s" "iUserID (foldl (pop3_push e) s ms) = iUserID s"
  "failed (foldl (pop3_push e) s ms) = failed s" "strUser (foldl (pop3_push e) s ms) = strUser s"
  by (induction ms arbitrary: s) (simp_all add: pop3_push_def Let_def)

lemma p3_ok_fresh:
  "fresh_box t \<Longrightarrow> iDele t = 0 \<Longrightarrow> iDeleSize t = 0 \<Longrightarrow> p3State t = POP3_STATE_TRANSACTION \<Longrightarrow> p3_ok t"
  by (simp add: p3_ok_def fresh_box_def filter_False)

lemma p3_ok_open [keep_intros]:
  assumes "p3_ok s" and "p3State s = POP3_STATE_AUTHORIZATION"
  shows "p3_ok (pop3_open_mailbox e s)"
proof -
  have e: "vMessages s = []" "iDele s = 0" "iDeleSize s = 0" using assms by (auto simp: p3_ok_def)
  have "fresh_box (s\<lparr>wld := w, p3State := a, iDropSize := 0\<rparr>)" for w a
    using e by (simp add: fresh_box_def)
  then show ?thesis
    using e by (auto simp: pop3_open_mailbox_def Let_def split_beta
        intro!: p3_ok_mbox [OF mbox_printf(1)] p3_ok_mbox [OF mbox_update(2)] p3_ok_fresh fresh_push)
qed

lemma p3_ok_Pass [keep_intros]:
  "p3_ok s \<Longrightarrow> p3State s = POP3_STATE_AUTHORIZATION \<Longrightarrow> p3_ok (POP3_Pass e s)"
  using p3_ok_open [of s e]
  by (auto simp: POP3_Pass_def Let_def intro: p3_ok_mbox split: login_check.split)

lemma p3_ok_User [keep_intros]: "p3_ok s \<Longrightarrow> p3_ok (snd (POP3_User e s))"
  by (auto simp: POP3_User_def Let_def p3_ok_def split: option.split list.split)

lemma p3_ok_cmd: "pop3_cmd e c s t \<Longrightarrow> p3_ok s \<Longrightarrow> p3_ok t"
  by (erule pop3_cmdE) (auto intro: keep_intros p3_ok_mbox)

section \<open>Failed logins and the end of a session\<close>

lemma bad_tries_simple [simp]:
  "iBadTries (POP3_Noop s) = iBadTries s" "iBadTries (POP3_Capa e s) = iBadTries s"
  "iBadTries (POP3_STLS e s) = iBadTries s" "iBadTries (POP3_List s) = iBadTries s"
  "iBadTries (POP3_Uidl s) = iBadTries s" "iBadTries (POP3_Dele s) = iBadTries s"
  "iBadTries (POP3_Rset s) = iBadTries s" "iBadTries (POP3_Stat s) = iBadTries s"
  by (simp_all add: POP3_Noop_def POP3_Capa_def POP3_STLS_def POP3_List_def POP3_Uidl_def
      POP3_Dele_def POP3_Rset_def POP3_Stat_def Let_def split: option.split prod.split)

lemma bad_tries_retrieve [simp]:
  "iBadTries (POP3_Retr e s) = iBadTries s" "iBadTries (POP3_Top e s) = iBadTries s"
  by (auto simp: POP3_Retr_def POP3_Top_def pop3_message_body_def Let_def split_beta split: option.split)

lemma bad_tries_Quit [simp]: "iBadTries (POP3_Quit e s) = iBadTries s"
  by (simp add: POP3_Quit_def POP3_IncGeneration_def Let_def split_beta)

lemma bad_tries_User [simp]: "iBadTries (snd (POP3_User e s)) = iBadTries s"
  by (auto simp: POP3_User_def Let_def split: option.split list.split)

lemma bad_tries_Pass: "iBadTries (POP3_Pass e s) \<in> {iBadTries s, iBadTries s + 1}"
  by (auto simp: POP3_Pass_def pop3_login_failed_def pop3_open_mailbox_def Let_def split_beta split: login_check.split)

lemma bad_tries_cmd: "pop3_cmd e c s t \<Longrightarrow> iBadTries t \<in> {iBadTries s, iBadTries s + 1}"
  using bad_tries_Pass [of e s] by (auto elim: pop3_cmdE)

section \<open>The contract of the loop\<close>

definition p3_live :: "'x env_scheme \<Rightarrow> 'y pop3_scheme \<Rightarrow> bool" where
  "p3_live e s \<longleftrightarrow> p3_ok s \<and> iBadTries s < 3"

definition p3_done :: "'x env_scheme \<Rightarrow> 'y pop3_scheme \<Rightarrow> bool" where
  "p3_done e s \<longleftrightarrow> p3_ok s \<and> iBadTries s \<le> 3"

lemma read_line_frame:
  "read_line n s = (l, s') \<Longrightarrow> mbox s' = mbox s \<and> iBadTries s' = iBadTries s"
  by (auto simp: read_line_def split: prod.splits option.splits if_splits)

lemma my_fgets_frame: "my_fgets n s = (b, s') \<Longrightarrow> mbox s' = mbox s \<and> iBadTries s' = iBadTries s"
  by (auto simp: my_fgets_def dest!: read_line_frame split: prod.splits option.splits)

lemma world_changes_frame: "world_changes s t \<Longrightarrow> mbox t = mbox s \<and> iBadTries t = iBadTries s"
proof -
  assume "world_changes s t"
  then obtain w where "t = s\<lparr>wld := w\<rparr>" unfolding world_changes_def by blast
  then show ?thesis by simp
qed

interpretation p3: line_server
  "\<lambda>e :: env. my_fgets POP3_LINEMAX" POP3_ProcessLine "\<lambda>s :: pop3. \<not> bBanned s" world_changes todo
  p3_live p3_done
proof (unfold_locales, goal_cases)
  case (1 e s s')
  then show ?case by (rule my_fgets_todo) (simp add: POP3_LINEMAX_def)
next
  case (2 e s b s')
  then show ?case using todo_rest rest_ProcessLine by fastforce
next
  case (3 e s)
  then show ?case by (simp add: p3_live_def p3_done_def)
next
  case (4 e s b s')
  then show ?case using my_fgets_frame p3_ok_mbox by (fastforce simp: p3_live_def)
next
  case (5 e s s')
  then obtain c n where "pop3_cmd e c (s\<lparr>p3Commands := n\<rparr>) s'" "iBadTries s' < 3"
    using ProcessLine_cmd by blast
  with 5 show ?case using p3_ok_cmd p3_ok_mbox [OF mbox_update(3)] unfolding p3_live_def by blast
next
  case (6 e s s')
  then obtain c n where c: "pop3_cmd e c (s\<lparr>p3Commands := n\<rparr>) s'"
    using ProcessLine_cmd by blast
  moreover have "p3_ok (s\<lparr>p3Commands := n\<rparr>)"
    using 6 p3_ok_mbox [OF mbox_update(3)] unfolding p3_live_def by blast
  moreover have "iBadTries (s\<lparr>p3Commands := n\<rparr>) = iBadTries s" by simp
  ultimately show ?case
    using 6 p3_ok_cmd [OF c] bad_tries_cmd [OF c] unfolding p3_live_def p3_done_def by auto
next
  case (7 e s s')
  then show ?case using world_changes_frame p3_ok_mbox unfolding p3_live_def by metis
qed

section \<open>Sessions\<close>

definition pop3_reaches :: "env \<Rightarrow> session \<Rightarrow> pop3 \<Rightarrow> bool" where
  "pop3_reaches e s0 t \<longleftrightarrow>
     reaches (my_fgets POP3_LINEMAX) (POP3_ProcessLine e) world_changes (new_pop3 s0) t"

lemma p3_live_new: "p3_live e (new_pop3 s0)"
  by (simp add: p3_live_def p3_ok_def new_pop3_def session.extend_def)

lemma pop3_reaches_live: "pop3_reaches e s0 t \<Longrightarrow> p3_live e t"
  unfolding pop3_reaches_def using p3.reaches_inv p3_live_new by blast

lemma sum_filter_not:
  fixes f :: "'a \<Rightarrow> 64 word"
  shows "sum_list (map f xs) - sum_list (map f (filter P xs)) = sum_list (map f (filter (\<lambda>x. \<not> P x) xs))"
  by (induction xs) (auto simp: algebra_simps)

text \<open>
  STAT tells the truth in every state that a POP3 session reaches, whatever was marked,
  unmarked or changed in the database on the way: the number and the total size (modulo
  \<open>2 ^ 64\<close>) of the messages not marked for deletion; and message number \<open>n\<close> is the \<open>n\<close>-th entry.
\<close>

theorem POP3_stat_truthful:
  assumes "pop3_reaches e s0 t"
  shows "out (POP3_Stat t) = out t @
      [''+OK '' @ show_int (int (length (filter (\<lambda>m. \<not> bDele m) (vMessages t)))) @ '' '' @
       show_long (sum_list (map iSize (filter (\<lambda>m. \<not> bDele m) (vMessages t)))) @ CRLF] \<and>
    (\<forall>i < length (vMessages t). iNr (vMessages t ! i) = int i + 1)"
proof -
  have ok: "p3_ok t" using pop3_reaches_live [OF assms] by (simp add: p3_live_def)
  have "length (filter bDele (vMessages t)) + length (filter (\<lambda>m. \<not> bDele m) (vMessages t)) =
      length (vMessages t)" by (rule sum_length_filter_compl)
  then have "int (length (vMessages t)) - iDele t = int (length (filter (\<lambda>m. \<not> bDele m) (vMessages t)))"
    using ok by (simp add: p3_ok_def flip: of_nat_add)
  moreover have "iDropSize t - iDeleSize t = sum_list (map iSize (filter (\<lambda>m. \<not> bDele m) (vMessages t)))"
    using ok sum_filter_not [of iSize "vMessages t" bDele] by (simp add: p3_ok_def)
  moreover have "iNr (vMessages t ! i) = int i + 1" if "i < length (vMessages t)" for i
  proof -
    have "map iNr (vMessages t) ! i = map (\<lambda>i. int i + 1) [0..<length (vMessages t)] ! i"
      using ok by (simp add: p3_ok_def)
    with that show ?thesis by simp
  qed
  ultimately show ?thesis by (simp add: POP3_Stat_def)
qed

lemma POP3_stat_truthful_witness:
  "out (POP3_Stat (new_pop3 (new_session [] [] ''1.2.3.4'' sample_world))) = [''+OK 0 0'' @ CRLF]"
proof -
  have "pop3_reaches (sample_env []) (new_session [] [] ''1.2.3.4'' sample_world)
      (new_pop3 (new_session [] [] ''1.2.3.4'' sample_world))"
    unfolding pop3_reaches_def by (rule reaches.start)
  moreover have "vMessages (new_pop3 (new_session [] [] ''1.2.3.4'' sample_world)) = []"
      "out (new_pop3 (new_session [] [] ''1.2.3.4'' sample_world)) = []"
    by (simp_all add: new_pop3_def new_session_def session.extend_def)
  moreover have "show_int 0 = ''0''" by code_simp
  ultimately show ?thesis using POP3_stat_truthful by (fastforce simp: show_long_def)
qed

text \<open>
  Every POP3 connection ends, and it ends after at most three failed logins: for every
  input, environment and database \<open>Run\<close> returns, with the counter of failed logins at most 3.
\<close>

theorem POP3_Run_ends: "\<exists>t. POP3_Run e (new_pop3 s0) = Some t \<and> iBadTries t \<le> 3"
  for e :: env
proof (cases "Failban_IsBanned e (wld (new_pop3 s0)) (PEER_IP e (new_pop3 s0)) FAILBAN_POP3LOGIN")
  case True
  then show ?thesis by (simp add: POP3_Run_def) (simp add: new_pop3_def session.extend_def)
next
  case False
  define s1 where "s1 = printf (''+OK '' @ cfg_str e ''pop3greeting'' @ CRLF) (new_pop3 s0)"
  have "p3_live e s1"
    using p3_live_new [of e s0] by (simp add: p3_live_def s1_def p3_ok_mbox [OF mbox_printf(1)])
  then obtain t where t: "serve (Suc (todo s1)) (my_fgets POP3_LINEMAX) (POP3_ProcessLine e)
      (\<lambda>s. \<not> bBanned s) s1 = Some t" "p3_done e t"
    using p3.serve_ends [of s1 "Suc (todo s1)" e] by blast
  moreover have "iBadTries (pop3_epilogue e t) = iBadTries t" by (simp add: pop3_epilogue_def)
  ultimately show ?thesis
    using False by (auto simp: POP3_Run_def pop3_loop_def s1_def p3_done_def simp del: serve.simps)
qed

section \<open>Who reads and deletes what\<close>

text \<open>The stored mail: rows, files and blobs.\<close>

definition mail_store ::
  "world \<Rightarrow> mail_row list \<times> (string \<Rightarrow> string option) \<times> (int \<times> int \<times> int \<Rightarrow> (int \<times> int \<times> string) option)" where
  "mail_store w = (mails w, files w, blobs w)"

lemma mail_store_update [simp]:
  "mail_store (w\<lparr>users := us\<rparr>) = mail_store w" "mail_store (w\<lparr>failban := fb\<rparr>) = mail_store w"
  "mail_store (w\<lparr>next_id := n\<rparr>) = mail_store w" "mail_store (w\<lparr>dirs := ds\<rparr>) = mail_store w"
  by (simp_all add: mail_store_def)

lemma mail_store_make_dirs [simp]: "mail_store (foldl (make_dir e) w ds) = mail_store w"
  by (induction ds arbitrary: w) (simp_all add: make_dir_def)

lemma mail_store_MailPath [simp]: "mail_store (snd (MailPath e w i x c)) = mail_store w"
  by (simp add: MailPath_def Let_def)

lemma mail_store_GetMessageFP [simp]: "mail_store (snd (GetMessageFP e w i u)) = mail_store w"
  by (auto simp: GetMessageFP_def message_file_def sf_loadBlob_def blobPath_def Let_def split_beta
      split: list.split option.split provider.split)

lemma mail_store_LoginFailed [simp]: "mail_store (snd (Failban_LoginFailed e w ip ty)) = mail_store w"
  by (simp add: Failban_LoginFailed_def split: list.split)

lemma mail_store_simple [simp]:
  "wld (POP3_Noop s) = wld s" "wld (POP3_Capa e s) = wld s" "wld (POP3_STLS e s) = wld s"
  "wld (POP3_List s) = wld s" "wld (POP3_Uidl s) = wld s" "wld (POP3_Stat s) = wld s"
  "wld (POP3_Dele s) = wld s" "wld (POP3_Rset s) = wld s" "wld (snd (POP3_User e s)) = wld s"
  by (simp_all add: POP3_Noop_def POP3_Capa_def POP3_STLS_def POP3_List_def POP3_Uidl_def POP3_Stat_def
      POP3_Dele_def POP3_Rset_def POP3_User_def Let_def split: option.split prod.split list.split)

lemma mail_store_retrieve [simp]:
  "mail_store (wld (POP3_Retr e s)) = mail_store (wld s)"
  "mail_store (wld (POP3_Top e s)) = mail_store (wld s)"
  by (auto simp: POP3_Retr_def POP3_Top_def pop3_message_body_def Let_def split_beta split: option.split)

lemma mail_store_Pass [simp]: "mail_store (wld (POP3_Pass e s)) = mail_store (wld s)"
  by (simp add: POP3_Pass_def pop3_login_failed_def pop3_open_mailbox_def Let_def split_beta split: login_check.split)

lemma mail_store_cmd:
  "pop3_cmd e c s t \<Longrightarrow> \<not> strcaseeq c ''quit'' \<Longrightarrow> mail_store (wld t) = mail_store (wld s)"
  by (auto elim: pop3_cmdE)

text \<open>
  C23: reading is not deleting. A line after which the session goes on (so any command but
  QUIT) leaves every stored message, file and blob as it was, DELE included.
\<close>

theorem POP3_line_keeps_mail:
  assumes "POP3_ProcessLine e s = (True, t)"
  shows "mails (wld t) = mails (wld s) \<and> files (wld t) = files (wld s) \<and> blobs (wld t) = blobs (wld s)"
proof -
  obtain c n where "pop3_cmd e c (s\<lparr>p3Commands := n\<rparr>) t" "\<not> strcaseeq c ''quit''"
    using ProcessLine_cmd [OF assms] by blast
  then have "mail_store (wld t) = mail_store (wld (s\<lparr>p3Commands := n\<rparr>))" by (rule mail_store_cmd)
  then show ?thesis by (simp add: mail_store_def)
qed

definition demo_pop3 :: "string \<Rightarrow> pop3" where
  "demo_pop3 l = (new_pop3 (new_session [] [] ''1.2.3.4'' sample_world))\<lparr>buf := l @ [NUL]\<rparr>"

lemma POP3_line_keeps_mail_witness:
  "mails (wld (snd (POP3_ProcessLine (sample_env []) (demo_pop3 ''USER a@b.c'')))) = mails sample_world"
proof -
  have "fst (POP3_ProcessLine (sample_env []) (demo_pop3 ''USER a@b.c''))" by code_simp
  then have "POP3_ProcessLine (sample_env []) (demo_pop3 ''USER a@b.c'') =
      (True, snd (POP3_ProcessLine (sample_env []) (demo_pop3 ''USER a@b.c'')))"
    by (simp add: prod_eq_iff)
  from POP3_line_keeps_mail [OF this] show ?thesis
    by (simp add: demo_pop3_def new_pop3_def new_session_def session.extend_def)
qed

lemma mails_DeleteBlob [simp]: "mails (snd (DeleteBlob e w b ty i u)) = mails w"
proof -
  have "mails (snd (MailPath e w i x c)) = mails w" for x c
    using mail_store_MailPath [of e w i x c] by (simp add: mail_store_def)
  then show ?thesis
    by (simp add: DeleteBlob_def sf_deleteBlob_def ud_deleteBlob_def blobPath_def Let_def split_beta
        split: option.split provider.split)
qed

lemma mails_delete_msg:
  "mails (snd (pop3_delete_msg e u (f, w) m)) =
     (if bDele m then filter (\<lambda>r. \<not> (m_id r = iID m \<and> m_userid r = u)) (mails w) else mails w)"
  by (simp add: pop3_delete_msg_def Let_def PostEvent_def split_beta)

lemma mails_delete_all:
  "mails (snd (foldl (pop3_delete_msg e u) fw ms)) =
     filter (\<lambda>r. \<not> (m_userid r = u \<and> (\<exists>m \<in> set ms. bDele m \<and> iID m = m_id r))) (mails (snd fw))"
proof (induction ms arbitrary: fw)
  case Nil
  then show ?case by simp
next
  case (Cons m ms)
  show ?case
    unfolding foldl_Cons Cons.IH
    by (cases fw) (auto simp: mails_delete_msg intro!: filter_cong)
qed

text \<open>
  C24: QUIT deletes exactly what was marked. In the transaction state the rows that remain are
  the ones that belong to another user or whose id no marked message has; before login QUIT
  deletes nothing.
\<close>

theorem POP3_quit_deletes_marked:
  "mails (wld (POP3_Quit e s)) =
     (if p3State s = POP3_STATE_TRANSACTION
      then filter (\<lambda>r. \<not> (m_userid r = iUserID s \<and> (\<exists>m \<in> set (vMessages s). bDele m \<and> iID m = m_id r)))
             (mails (wld s))
      else mails (wld s))"
  by (simp add: POP3_Quit_def POP3_IncGeneration_def mails_delete_all Let_def split_beta)

section \<open>Login\<close>

lemma state_simple [simp]:
  "p3State (snd (POP3_User e s)) = p3State s"
  by (auto simp: POP3_User_def Let_def split: option.split list.split)

lemma mbox_state: "mbox t = mbox s \<Longrightarrow> p3State t = p3State s"
  by (simp add: mbox_def)

lemma state_Rset_Dele [simp]: "p3State (POP3_Rset s) = p3State s" "p3State (POP3_Dele s) = p3State s"
  by (simp_all add: POP3_Rset_def POP3_Dele_def split: option.split prod.split)

text \<open>Only a successful PASS leaves the authorization state.\<close>

lemma login_is_Pass:
  assumes "pop3_cmd e c s t" and "p3State s = POP3_STATE_AUTHORIZATION"
    and "p3State t = POP3_STATE_TRANSACTION"
  shows "t = POP3_Pass e s"
  using assms(1)
  by cases (use assms(2,3) mbox_state [OF mbox_Quit, of e s] mbox_state [OF mbox_simple(1), of s]
      mbox_state [OF mbox_simple(2), of e s] mbox_state [OF mbox_simple(3), of e s] in auto)

lemma state_login_failed [simp]: "p3State (pop3_login_failed e m s) = p3State s"
  by (simp add: pop3_login_failed_def Let_def split_beta)

lemma Pass_login:
  assumes "p3State s = POP3_STATE_AUTHORIZATION" and "p3State (POP3_Pass e s) = POP3_STATE_TRANSACTION"
  shows "pop3_check_login e (wld s) (iUserID s) (RTrim (drop 5 (szLine s)) CRLF) = LoginOk \<and>
    POP3_Pass e s = pop3_open_mailbox e s"
  using assms by (auto simp: POP3_Pass_def Let_def split: login_check.splits if_splits)

lemma check_login_rows:
  "pop3_check_login e w userID pass = LoginOk \<Longrightarrow>
     \<exists>u g. pop3_login_rows e w userID pass = [(u, g)] \<and> \<not> web_login_missing e w userID (u_lastlogin u)"
  by (auto simp: pop3_check_login_def Let_def split: list.splits if_splits)

lemma login_rows_sound:
  "(u, g) \<in> set (pop3_login_rows e w userID pass) \<Longrightarrow>
     u \<in> set (users w) \<and> u_id u = userID \<and> password_ok e u pass \<and> u_locked u = ''no'' \<and> u_gesperrt u = ''no''"
  by (auto simp: pop3_login_rows_def)

lemma push_ids:
  "map iID (vMessages (foldl (pop3_push e) s ms)) = map iID (vMessages s) @ map m_id ms"
proof (induction ms arbitrary: s)
  case (Cons m ms)
  have "map iID (vMessages (pop3_push e s m)) = map iID (vMessages s) @ [m_id m]"
    by (simp add: pop3_push_def pop3_msg_def Let_def)
  with Cons show ?case by simp
qed simp

lemma pushed_rows:
  assumes "vMessages s1 = []" and "m \<in> set (vMessages (foldl (pop3_push e) s1 (pop3_mail_rows w u allF ids)))"
  shows "\<exists>r \<in> set (mails w). m_id r = iID m \<and> m_userid r = u"
proof -
  have "iID ` set (vMessages (foldl (pop3_push e) s1 (pop3_mail_rows w u allF ids))) =
      m_id ` set (pop3_mail_rows w u allF ids)"
    using arg_cong [OF push_ids, of set e s1 "pop3_mail_rows w u allF ids"] assms(1) by simp
  then have "iID m \<in> m_id ` set (pop3_mail_rows w u allF ids)" using assms(2) by blast
  then show ?thesis by (auto simp: pop3_mail_rows_def)
qed

lemma open_mailbox_ids:
  assumes "vMessages s = []"
  shows "iUserID (pop3_open_mailbox e s) = iUserID s \<and>
    (\<forall>m \<in> set (vMessages (pop3_open_mailbox e s)). \<exists>r \<in> set (mails (wld s)). m_id r = iID m \<and> m_userid r = iUserID s)"
proof -
  let ?w = "(wld s)\<lparr>users := map (\<lambda>u. if u_id u = iUserID s then u\<lparr>u_last_pop3 := now (wld s)\<rparr> else u) (users (wld s))\<rparr>"
  have "\<exists>r \<in> set (mails (wld s)). m_id r = iID m \<and> m_userid r = iUserID s"
    if "m \<in> set (vMessages (foldl (pop3_push e) (s\<lparr>wld := ?w, p3State := POP3_STATE_TRANSACTION, iDropSize := 0\<rparr>)
          (pop3_mail_rows ?w (iUserID s) allF ids)))" for m allF ids
    using pushed_rows [OF _ that] assms by simp
  then show ?thesis using assms by (auto simp: pop3_open_mailbox_def Let_def split_beta)
qed

text \<open>
  C22: nobody reads a mailbox without its password. If a line takes a reachable POP3 session
  from the authorization to the transaction state, then that line was a PASS whose argument
  matches the stored password hash of exactly the account named before, the account is neither
  locked nor deleted, its web login is recent enough, and every message of the session is a
  row of that account.
\<close>

theorem POP3_login_safe:
  assumes "pop3_reaches e s0 r" and "my_fgets POP3_LINEMAX r = (True, s)"
    and "POP3_ProcessLine e s = (b, t)"
    and "p3State s = POP3_STATE_AUTHORIZATION" and "p3State t = POP3_STATE_TRANSACTION"
  shows "\<exists>u g. pop3_login_rows e (wld s) (iUserID s) (RTrim (drop 5 (szLine s)) CRLF) = [(u, g)] \<and>
      u \<in> set (users (wld s)) \<and> u_id u = iUserID t \<and>
      password_ok e u (RTrim (drop 5 (szLine s)) CRLF) \<and>
      u_locked u = ''no'' \<and> u_gesperrt u = ''no'' \<and>
      \<not> web_login_missing e (wld s) (iUserID t) (u_lastlogin u) \<and>
      (\<forall>m \<in> set (vMessages t). \<exists>r \<in> set (mails (wld s)). m_id r = iID m \<and> m_userid r = iUserID t)"
proof -
  obtain c n where "pop3_cmd e c (s\<lparr>p3Commands := n\<rparr>) t" using ProcessLine_cmd [OF assms(3)] by blast
  then have t: "t = POP3_Pass e (s\<lparr>p3Commands := n\<rparr>)" using login_is_Pass assms(4,5) by fastforce
  have line: "szLine (s\<lparr>p3Commands := n\<rparr>) = szLine s" by (simp add: szLine_def)
  have p: "pop3_check_login e (wld s) (iUserID s) (RTrim (drop 5 (szLine s)) CRLF) = LoginOk"
      "t = pop3_open_mailbox e (s\<lparr>p3Commands := n\<rparr>)"
    using Pass_login [of "s\<lparr>p3Commands := n\<rparr>" e] assms(4,5) t line by simp_all
  have "p3_ok r" using pop3_reaches_live [OF assms(1)] by (simp add: p3_live_def)
  then have "p3_ok s" using p3_ok_mbox my_fgets_frame [OF assms(2)] by blast
  with assms(4) have empty: "vMessages (s\<lparr>p3Commands := n\<rparr>) = []" by (simp add: p3_ok_def)
  obtain u g where ug: "pop3_login_rows e (wld s) (iUserID s) (RTrim (drop 5 (szLine s)) CRLF) = [(u, g)]"
      "\<not> web_login_missing e (wld s) (iUserID s) (u_lastlogin u)"
    using check_login_rows [OF p(1)] by blast
  then have "u \<in> set (users (wld s)) \<and> u_id u = iUserID s \<and>
      password_ok e u (RTrim (drop 5 (szLine s)) CRLF) \<and> u_locked u = ''no'' \<and> u_gesperrt u = ''no''"
    using login_rows_sound [of u g e "wld s" "iUserID s" "RTrim (drop 5 (szLine s)) CRLF"] by simp
  moreover note open_mailbox_ids [OF empty, of e]
  ultimately show ?thesis using ug p(2) by simp
qed

definition login_env :: env where
  "login_env = sample_env [(''pop3_folders'', ''0,-128'')]"

definition login_start :: pop3 where
  "login_start = new_pop3 (new_session (''USER a@b.c'' @ CRLF @ ''PASS pw'' @ CRLF) [] ''1.2.3.4'' sample_world)"

definition login_line :: "nat \<Rightarrow> pop3" where
  "login_line n = (if n = 0 then snd (my_fgets POP3_LINEMAX login_start)
     else snd (my_fgets POP3_LINEMAX (snd (POP3_ProcessLine login_env (snd (my_fgets POP3_LINEMAX login_start))))))"

lemma POP3_login_safe_witness:
  "p3State (snd (POP3_ProcessLine login_env (login_line 1))) = POP3_STATE_TRANSACTION \<and>
   (\<exists>u \<in> set (users sample_world). password_ok login_env u ''pw'')"
proof -
  let ?v = "snd (POP3_ProcessLine login_env (login_line 0))"
  have fst0: "fst (my_fgets POP3_LINEMAX login_start)" by code_simp
  have fst1: "fst (POP3_ProcessLine login_env (login_line 0))" by code_simp
  have fst2: "fst (my_fgets POP3_LINEMAX ?v)" by code_simp
  have states: "p3State (login_line 1) = POP3_STATE_AUTHORIZATION"
      "p3State (snd (POP3_ProcessLine login_env (login_line 1))) = POP3_STATE_TRANSACTION"
    by code_simp+
  have line: "RTrim (drop 5 (szLine (login_line 1))) CRLF = ''pw''" by code_simp
  have w: "users (wld (login_line 1)) = users sample_world" by code_simp
  have "pop3_reaches login_env (new_session (''USER a@b.c'' @ CRLF @ ''PASS pw'' @ CRLF) [] ''1.2.3.4'' sample_world) ?v"
    unfolding pop3_reaches_def login_start_def [symmetric]
    by (rule reaches.line [OF reaches.start, of _ _ "login_line 0"])
       (use fst0 fst1 in \<open>simp_all add: login_line_def prod_eq_iff\<close>)
  moreover have "my_fgets POP3_LINEMAX ?v = (True, login_line 1)"
    using fst2 by (simp add: login_line_def prod_eq_iff)
  ultimately show ?thesis
    using POP3_login_safe [of login_env _ ?v "login_line 1"] states line w
    by (metis prod.collapse)
qed

section \<open>Stability of a session\<close>

definition box_ids :: "'y pop3_scheme \<Rightarrow> ePOP3State \<times> int \<times> int list" where
  "box_ids s = (p3State s, iUserID s, map iID (vMessages s))"

lemma box_ids_mbox: "mbox t = mbox s \<Longrightarrow> box_ids t = box_ids s"
  by (simp add: box_ids_def mbox_def)

lemma box_ids_Rset: "box_ids (POP3_Rset s) = box_ids s"
  by (simp add: box_ids_def POP3_Rset_def comp_def)

lemma box_ids_Dele: "box_ids (POP3_Dele s) = box_ids s"
  by (simp add: box_ids_def POP3_Dele_def msg_at_def map_update_same split: option.split prod.split)

lemma box_ids_cmd:
  "pop3_cmd e c s t \<Longrightarrow> p3State s = POP3_STATE_TRANSACTION \<Longrightarrow> box_ids t = box_ids s"
  by (erule pop3_cmdE) (auto intro: box_ids_mbox simp: box_ids_Rset box_ids_Dele)

text \<open>
  C27: once logged in, a POP3 session stays in the same mailbox: no command changes the user,
  the list of message ids behind the message numbers, or the state.
\<close>

theorem POP3_session_stable:
  assumes "p3State s = POP3_STATE_TRANSACTION" and "POP3_ProcessLine e s = (b, t)"
  shows "p3State t = POP3_STATE_TRANSACTION \<and> iUserID t = iUserID s \<and>
    map iID (vMessages t) = map iID (vMessages s)"
proof -
  obtain c n where "pop3_cmd e c (s\<lparr>p3Commands := n\<rparr>) t" using ProcessLine_cmd [OF assms(2)] by blast
  then have "box_ids t = box_ids (s\<lparr>p3Commands := n\<rparr>)" by (rule box_ids_cmd) (simp add: assms(1))
  with assms(1) show ?thesis by (simp add: box_ids_def)
qed

definition demo_mailbox :: pop3 where
  "demo_mailbox = (demo_pop3 ''DELE 1'')\<lparr>p3State := POP3_STATE_TRANSACTION, iUserID := 7\<rparr>"

lemma POP3_session_stable_witness:
  "iUserID (snd (POP3_ProcessLine login_env demo_mailbox)) = 7"
proof -
  have st: "p3State demo_mailbox = POP3_STATE_TRANSACTION" "iUserID demo_mailbox = 7"
    by (simp_all add: demo_mailbox_def)
  from POP3_session_stable [OF st(1) surjective_pairing, of login_env] show ?thesis
    by (simp only: st)
qed

end
