(* ===== verification/Pop3_Transfer.thy ===== *)
theory Pop3_Transfer
  imports Pop3
begin

text \<open>
  The POP3 server's text: the folder condition it puts into SQL, and what a client makes of the
  bytes that RETR and TOP send (src/pop3/pop3.cpp).
\<close>

section \<open>The folder condition\<close>

definition number_list_char :: "char \<Rightarrow> bool" where
  "number_list_char c \<longleftrightarrow> is_digit c \<or> c = CHR ''-'' \<or> c = CHR '',''"

lemma folder_list_chars:
  "\<forall>i \<in> set ids. \<forall>c \<in> set i. number_list_char c \<Longrightarrow> \<forall>c \<in> set q. number_list_char c \<Longrightarrow>
     \<forall>c \<in> set (foldl (\<lambda>q i. (if q \<noteq> [] then q @ '','' else q) @ i) q ids). number_list_char c"
proof (induction ids arbitrary: q)
  case (Cons i ids)
  have "\<forall>c \<in> set ((if q \<noteq> [] then q @ '','' else q) @ i). number_list_char c"
    using Cons.prems by (auto simp: number_list_char_def)
  from Cons.IH [OF _ this] Cons.prems(1) show ?case unfolding foldl_Cons by simp
qed simp

text \<open>
  The folder preference of a user cannot change the SQL statement. Whatever bytes the
  preference holds, the condition that \<open>Pass\<close> builds is one of four fixed texts around a list
  made only of digits, minus signs and commas.
\<close>

theorem folderQuery_no_injection:
  "\<exists>q. (\<forall>c \<in> set q. is_digit c \<or> c = CHR ''-'' \<or> c = CHR '','') \<and>
     pop3_folderQuery (fst (pop3_folder_ids pref)) (snd (pop3_folder_ids pref)) \<in>
       {''0'', ''folder>0'', ''folder IN('' @ q @ '')'', ''folder>0 OR folder IN('' @ q @ '')''}"
proof -
  let ?ids = "snd (pop3_folder_ids pref)"
  let ?q = "foldl (\<lambda>q i. (if q \<noteq> [] then q @ '','' else q) @ i) [] ?ids"
  have "\<forall>i \<in> set ?ids. \<forall>c \<in> set i. number_list_char c"
    using IsNumeric_chars by (auto simp: pop3_folder_ids_def Let_def number_list_char_def)
  then have "\<forall>c \<in> set ?q. number_list_char c" by (rule folder_list_chars) simp
  then show ?thesis
    by (intro exI [of _ ?q]) (auto simp: pop3_folderQuery_def Let_def number_list_char_def)
qed

lemma folderQuery_no_injection_witness:
  "\<exists>q. (\<forall>c \<in> set q. is_digit c \<or> c = CHR ''-'' \<or> c = CHR '','') \<and>
     pop3_folderQuery (fst (pop3_folder_ids ''3,x) OR (1=1'')) (snd (pop3_folder_ids ''3,x) OR (1=1'')) \<in>
       {''0'', ''folder>0'', ''folder IN('' @ q @ '')'', ''folder>0 OR folder IN('' @ q @ '')''}"
  by (rule folderQuery_no_injection)

section \<open>The transfer\<close>

lemma drop_line_shorter: "find_pos p d = Some i \<Longrightarrow> length (drop (Suc i) d) < length d"
proof -
  assume "find_pos p d = Some i"
  then have "i < length d" using find_pos_Some by blast
  then show ?thesis by simp
qed

text \<open>
  The client's side (RFC 1939, section 3): lines up to a newline; the line with a single dot
  ends the answer; a leading dot of any other line is dropped. The result is the message and
  the bytes after the end line, \<open>None\<close> if the end line never comes.
\<close>

function pop3_receive :: "string \<Rightarrow> (string \<times> string) option" where
  "pop3_receive d =
     (case find_chr NL d of
        None \<Rightarrow> None
      | Some i \<Rightarrow>
          let l = take (Suc i) d; r = drop (Suc i) d
          in if l = ''.'' @ CRLF then Some ([], r)
             else map_option (\<lambda>(b, z). ((if hd l = CHR ''.'' then tl l else l) @ b, z)) (pop3_receive r))"
  by pat_completeness auto

termination
  by (relation "measure length") (simp, simp only: in_measure drop_line_shorter)

declare pop3_receive.simps [simp del]

text \<open>Every line of the message, its newline included, fits into the server's buffer.\<close>

fun lines_fit :: "nat \<Rightarrow> string \<Rightarrow> bool" where
  "lines_fit k [] = True"
| "lines_fit k (c # cs) = (0 < k \<and> (if c = NL then lines_fit chunk_max cs else lines_fit (k - 1) cs))"

lemma fgets_line:
  "lines_fit k d \<Longrightarrow> fgets_upto k d = (c, rest) \<Longrightarrow>
     (\<exists>l. c = l @ [NL] \<and> NL \<notin> set l \<and> lines_fit chunk_max rest) \<or> (rest = [] \<and> c = d \<and> NL \<notin> set c)"
proof (induction k d arbitrary: c rest rule: fgets_upto.induct)
  case (1 s)
  then show ?case by (cases s) auto
next
  case (2 n)
  then show ?case by auto
next
  case (3 n x xs)
  show ?case
  proof (cases "x = NL")
    case True
    with 3 show ?thesis by (auto intro!: exI [of _ "[]"])
  next
    case False
    obtain a b where ab: "fgets_upto n xs = (a, b)" by fastforce
    with False 3(3) have c: "c = x # a" "rest = b" by auto
    from False 3(2) have "lines_fit n xs" by simp
    from 3(1) [OF False this ab] show ?thesis
    proof
      assume "\<exists>l. a = l @ [NL] \<and> NL \<notin> set l \<and> lines_fit chunk_max b"
      then obtain l where "a = l @ [NL]" "NL \<notin> set l" "lines_fit chunk_max b" by blast
      with c False have "c = (x # l) @ [NL] \<and> NL \<notin> set (x # l) \<and> lines_fit chunk_max rest" by auto
      then show ?thesis by blast
    qed (use c False in auto)
  qed
qed

lemma find_NL_line: "NL \<notin> set l \<Longrightarrow> find_chr NL (l @ NL # r) = Some (length l)"
  by (induction l) auto

lemma receive_line:
  assumes "NL \<notin> set l"
  shows "pop3_receive (l @ NL # r) =
    (if l = ''.'' @ [CR] then Some ([], r)
     else map_option (\<lambda>(b, z). ((if hd (l @ [NL]) = CHR ''.'' then tl (l @ [NL]) else l @ [NL]) @ b, z))
            (pop3_receive r))"
proof -
  have "l @ [NL] = ''.'' @ CRLF \<longleftrightarrow> l = ''.'' @ [CR]" by (auto simp: append_eq_Cons_conv)
  then show ?thesis
    by (subst pop3_receive.simps) (simp add: find_NL_line [OF assms] Let_def)
qed

text \<open>A stuffed line is received as it was sent.\<close>

lemma receive_stuffed:
  assumes "NL \<notin> set l"
  shows "pop3_receive (dot_stuff (l @ [NL]) @ r) = map_option (\<lambda>(b, z). (l @ NL # b, z)) (pop3_receive r)"
proof (cases "l \<noteq> [] \<and> hd l = CHR ''.''")
  case True
  then obtain m where l: "l = CHR ''.'' # m" by (cases l) auto
  have "pop3_receive ((CHR ''.'' # l) @ NL # r) =
      map_option (\<lambda>(b, z). ((l @ [NL]) @ b, z)) (pop3_receive r)"
    using assms l by (subst receive_line) auto
  then show ?thesis using l by (simp add: dot_stuff_def)
next
  case False
  then have "dot_stuff (l @ [NL]) = l @ [NL]" "l \<noteq> ''.'' @ [CR]" "hd (l @ [NL]) \<noteq> CHR ''.''"
    by (cases l; auto simp: dot_stuff_def)+
  then show ?thesis using receive_line [OF assms, of r] by simp
qed

lemma retr_copy_line:
  assumes "lines_fit chunk_max d" and "NUL \<notin> set d" and "d \<noteq> []"
  shows "(\<exists>l rest. d = l @ NL # rest \<and> NL \<notin> set l \<and> lines_fit chunk_max rest \<and>
            retr_copy d = dot_stuff (l @ [NL]) @ retr_copy rest) \<or>
         (NL \<notin> set d \<and> retr_copy d = dot_stuff d)"
proof -
  obtain c rest where c: "fgets_upto chunk_max d = (c, rest)" by fastforce
  then have f: "fgets (Suc chunk_max) d = Some (c, rest)" using assms(3) by (simp add: fgets_def)
  have d: "d = c @ rest" using fgets_Some [OF f] by blast
  then have nul: "cstr c = c" using assms(2) by simp
  from fgets_line [OF assms(1) c] show ?thesis
  proof
    assume "\<exists>l. c = l @ [NL] \<and> NL \<notin> set l \<and> lines_fit chunk_max rest"
    then obtain l where l: "c = l @ [NL]" "NL \<notin> set l" "lines_fit chunk_max rest" by blast
    then have "retr_copy d = dot_stuff (l @ [NL]) @ retr_copy rest"
      by (subst retr_copy.simps) (use f nul in simp)
    with l d show ?thesis by auto
  next
    assume r: "rest = [] \<and> c = d \<and> NL \<notin> set c"
    have "retr_copy [] = []" by (subst retr_copy.simps) (simp add: fgets_def)
    then have "retr_copy d = dot_stuff d"
      by (subst retr_copy.simps) (use f nul r in simp)
    with r show ?thesis by blast
  qed
qed

lemma receive_retr_copy:
  "lines_fit chunk_max d \<Longrightarrow> NUL \<notin> set d \<Longrightarrow>
     pop3_receive (retr_copy d @ CRLF @ ''.'' @ CRLF @ z) = Some (d @ CRLF, z)"
proof (induction d rule: length_induct)
  case (1 d)
  have last_line: "pop3_receive (''.'' @ CRLF @ z) = Some ([], z)"
    using receive_line [of "''.'' @ [CR]" z] by simp
  show ?case
  proof (cases "d = []")
    case True
    have "retr_copy [] = []" by (subst retr_copy.simps) (simp add: fgets_def)
    then show ?thesis using True receive_line [of "[CR]" "''.'' @ CRLF @ z"] last_line by simp
  next
    case False
    from retr_copy_line [OF 1(2,3) False] show ?thesis
    proof
      assume "\<exists>l rest. d = l @ NL # rest \<and> NL \<notin> set l \<and> lines_fit chunk_max rest \<and>
          retr_copy d = dot_stuff (l @ [NL]) @ retr_copy rest"
      then obtain l rest where l: "d = l @ NL # rest" "NL \<notin> set l" "lines_fit chunk_max rest"
          "retr_copy d = dot_stuff (l @ [NL]) @ retr_copy rest" by blast
      have "pop3_receive (retr_copy rest @ CRLF @ ''.'' @ CRLF @ z) = Some (rest @ CRLF, z)"
        using 1 l by auto
      then show ?thesis using l receive_stuffed [OF l(2)] by simp
    next
      assume r: "NL \<notin> set d \<and> retr_copy d = dot_stuff d"
      have "dot_stuff d @ CRLF @ ''.'' @ CRLF @ z = dot_stuff ((d @ [CR]) @ [NL]) @ ''.'' @ CRLF @ z"
        using False by (simp add: dot_stuff_def)
      then have "pop3_receive (retr_copy d @ CRLF @ ''.'' @ CRLF @ z) =
          pop3_receive (dot_stuff ((d @ [CR]) @ [NL]) @ ''.'' @ CRLF @ z)"
        using r by (simp only:)
      also have "\<dots> = Some (d @ CRLF, z)"
        using r by (subst receive_stuffed) (simp_all add: last_line [simplified])
      finally show ?thesis .
    qed
  qed
qed

text \<open>
  RETR is transparent for messages with lines of at most 4094 bytes and no NUL: a client
  that reads up to the end line and removes the leading dots gets the message back, followed by
  one line break, and no line of the message, a single dot included, ends the answer early.
\<close>

theorem Retr_roundtrip:
  assumes "lines_fit chunk_max d" and "NUL \<notin> set d"
  shows "pop3_receive (retr_copy d @ CRLF @ ''.'' @ CRLF @ z) = Some (d @ CRLF, z)"
  using assms by (rule receive_retr_copy)

lemma Retr_roundtrip_witness:
  "pop3_receive (retr_copy (''a'' @ CRLF @ ''.'' @ CRLF @ ''b'') @ CRLF @ ''.'' @ CRLF @ ''+OK'') =
     Some (''a'' @ CRLF @ ''.'' @ CRLF @ ''b'' @ CRLF, ''+OK'')"
  using Retr_roundtrip [of "''a'' @ CRLF @ ''.'' @ CRLF @ ''b''" "''+OK''"] by (simp add: chunk_max_def)

text \<open>
  Longer lines are corrupted. The copy loop treats each 4094 bytes of a line as a line of
  its own, so a dot that happens to follow is doubled although it is in the middle of the line,
  and the client, which only looks at line starts, keeps both.
\<close>

theorem Retr_long_line_corrupted:
  "retr_copy (replicate chunk_max (CHR ''a'') @ ''.b'') = replicate chunk_max (CHR ''a'') @ ''..b''"
proof -
  have full: "fgets_upto n (replicate n (CHR ''a'') @ r) = (replicate n (CHR ''a''), r)" for n r
    by (induction n) simp_all
  have pos: "0 < chunk_max" by (simp add: chunk_max_def)
  have "fgets (Suc chunk_max) (replicate chunk_max (CHR ''a'') @ ''.b'') =
      Some (replicate chunk_max (CHR ''a''), ''.b'')"
    using full [of chunk_max "''.b''"] pos by (simp add: fgets_def)
  moreover have "retr_copy ''.b'' = ''..b''"
    by (subst retr_copy.simps) (simp add: fgets_def chunk_max_def numeral_eq_Suc dot_stuff_def)
  moreover have "dot_stuff (replicate chunk_max (CHR ''a'')) = replicate chunk_max (CHR ''a'')"
    using pos by (cases chunk_max) (simp_all add: dot_stuff_def)
  ultimately show ?thesis
    using pos by (subst retr_copy.simps) (simp add: set_replicate_conv_if)
qed

lemma top_copy_prefix: "\<exists>z. retr_copy d = top_copy passed sent n d @ z"
proof (induction passed sent n d rule: top_copy.induct)
  case (1 passed sent n d)
  show ?case
  proof (cases "passed \<and> \<not> sent < n")
    case True
    then show ?thesis by (subst top_copy.simps) simp
  next
    case False
    show ?thesis
    proof (cases "fgets (Suc chunk_max) d")
      case None
      with False show ?thesis by (subst retr_copy.simps, subst top_copy.simps) simp
    next
      case (Some p)
      obtain c rest where p: "p = (c, rest)" by (cases p)
      show ?thesis
      proof (cases "last c = NL \<or> length c = chunk_max")
        case True
        from 1 [OF False Some p [symmetric] True] obtain z where
          "retr_copy rest = top_copy (passed \<or> ends_header (cstr c)) (if passed then sent + 1 else sent) n rest @ z"
          by blast
        then show ?thesis
          using False Some p True by (subst retr_copy.simps, subst top_copy.simps) auto
      next
        case f: False
        then show ?thesis
          using False Some p by (subst retr_copy.simps, subst top_copy.simps) simp
      qed
    qed
  qed
qed

text \<open>TOP sends a prefix of what RETR sends, for every number of lines, negative ones included.\<close>

theorem Top_prefix_of_Retr: "\<exists>z. retr_copy d = top_copy False 0 n d @ z"
  by (rule top_copy_prefix)

end
