(* ===== verification/Enqueue.thy ===== *)
theory Enqueue
  imports Database
begin

text \<open>
  Putting messages into the queue (src/msgqueue/enqueue.cpp) and the parts of
  src/msgqueue/msgqueue.cpp it uses: queue file names, delivery status. A message is assembled,
  optionally passed through the altermime program (a parameter), stored as a queue file and as
  a row of the queue table that stays active, so invisible to the queue runner, until the
  caller releases it.
\<close>

record mta_env = env +
  rfc_time :: "int \<Rightarrow> string"                    \<comment> \<open>\<open>strftime\<close> of the header date format\<close>
  tz_abbrev :: "int \<Rightarrow> string"
  tz_seconds :: "int \<Rightarrow> int"                     \<comment> \<open>local time minus UTC\<close>
  has_altermime :: bool
  altermime :: "string \<Rightarrow> string \<Rightarrow> string option"  \<comment> \<open>disclaimer file, message; None on failure\<close>
  plugin_signature :: "(int \<Rightarrow> string \<Rightarrow> string option) list"

definition MESSAGE_INBOUND :: int where "MESSAGE_INBOUND = 0"
definition MESSAGE_OUTBOUND :: int where "MESSAGE_OUTBOUND = 1"
definition MDSTATUS_RECEIVED_BY_MTA :: int where "MDSTATUS_RECEIVED_BY_MTA = 2"

section \<open>Files and ids\<close>

definition GET_QUEUE_DIR :: "'x env_scheme \<Rightarrow> string" where
  "GET_QUEUE_DIR e = (case cfg e ''queue_dir'' of None \<Rightarrow> ''/opt/b1gmailserver/queue'' | Some d \<Rightarrow> d)"

fun hex_digits :: "nat \<Rightarrow> nat \<Rightarrow> string" where
  "hex_digits 0 n = []"
| "hex_digits (Suc k) n = hex_digits k (n div 16) @ [hex_char True (n mod 16)]"

text \<open>\<open>%08X\<close> of an \<open>int\<close>: the eight digits of its 32 bits.\<close>

definition hex_id :: "int \<Rightarrow> string" where
  "hex_id iID = hex_digits 8 (nat (iID mod 2 ^ 32))"

definition QueueFileNameStr :: "'x env_scheme \<Rightarrow> int \<Rightarrow> string" where
  "QueueFileNameStr e iID =
     GET_QUEUE_DIR e @ ''/'' @ [hex_id iID ! 7] @ ''/'' @ hex_id iID"

definition draw :: "nat \<Rightarrow> world \<Rightarrow> int list \<times> world" where
  "draw k w = (map (rands w) [0..<k], w\<lparr>rands := (\<lambda>n. rands w (n + k))\<rparr>)"

text \<open>Four random bytes read as a little-endian \<open>int32_t\<close>.\<close>

definition random_result :: "int list \<Rightarrow> int" where
  "random_result bs =
     to_int32 (foldr (\<lambda>b n. b mod 256 + 256 * n) bs 0)"

definition queue_id_used :: "world \<Rightarrow> int \<Rightarrow> bool" where
  "queue_id_used w i \<longleftrightarrow> list_ex (\<lambda>r. q_id r = i) (msgqueue w)"

text \<open>
  The do-while loop with its flag: \<open>continue\<close> jumps to the test of the flag, so a zero result
  ends the loop when no earlier id was taken. \<open>None\<close> means that the loop does not end.
\<close>

partial_function (option) random_id_loop :: "bool \<Rightarrow> world \<Rightarrow> (int \<times> world) option" where
  "random_id_loop bAlreadyExists w =
     (let (bs, w1) = draw 4 w; Result = random_result bs
      in if Result = 0
         then (if bAlreadyExists then random_id_loop True w1 else Some (0, w1))
         else let r = (if Result < 0 then to_int32 (- Result) else Result)
              in if queue_id_used w1 r then random_id_loop True w1 else Some (r, w1))"

definition GenerateRandomQueueID :: "world \<Rightarrow> (int \<times> world) option" where
  "GenerateRandomQueueID w = random_id_loop False w"

definition szSaltChars :: string where
  "szSaltChars = ''abcdefghijklmnopqrstuvwxyzABCDEFGHIJKLMNOPQRSTUVWXYZ0123456789''"

definition MakeRandomKey :: "nat \<Rightarrow> world \<Rightarrow> string \<times> world" where
  "MakeRandomKey n w =
     (let (rs, w1) = draw n w in (map (\<lambda>r. szSaltChars ! nat (r mod 62)) rs, w1))"

section \<open>Delivery status\<close>

definition SetMailDeliveryStatus ::
  "'x env_scheme \<Rightarrow> world \<Rightarrow> int \<Rightarrow> int \<Rightarrow> string option \<Rightarrow> world" where
  "SetMailDeliveryStatus e w i status deliveredTo =
     (if 0 < i \<and> cfg_is1 e ''enable_mdstatus''
      then w\<lparr>mdstatus := map (\<lambda>r. if md_id r = i
             then (case deliveredTo of
                     None \<Rightarrow> r\<lparr>md_status := status, md_updated := now w\<rparr>
                   | Some d \<Rightarrow> r\<lparr>md_status := status, md_delivered_to := d, md_updated := now w\<rparr>)
             else r) (mdstatus w)\<rparr>
      else w)"

section \<open>The message\<close>

text \<open>
  \<open>GetTimeZone\<close> divides the offset by 36 and truncates; the headers print the result after a
  sign of their own, padded with zeros to four columns.
\<close>

definition GetTimeZone :: "'x mta_env_scheme \<Rightarrow> int \<Rightarrow> int" where
  "GetTimeZone e t =
     (if tz_seconds e t < 0 then - ((- tz_seconds e t) div 36) else tz_seconds e t div 36)"

definition zone_text :: "int \<Rightarrow> string" where
  "zone_text iTimeZone =
     (if iTimeZone \<ge> 0 then '' +'' else '' -'') @ pad_left 4 (CHR ''0'') (show_int iTimeZone)"

definition date_text :: "'x mta_env_scheme \<Rightarrow> int \<Rightarrow> string" where
  "date_text e t = rfc_time e t @ zone_text (GetTimeZone e t) @ '' ('' @ tz_abbrev e t @ '')''"

record enqueue_args =
  qa_headers :: "(string \<times> string) list"
  qa_body :: string
  qa_type :: int
  qa_from :: string
  qa_to :: string
  qa_smtp_user :: int
  qa_write_headers :: bool
  qa_write_message_id :: bool
  qa_write_date :: bool
  qa_helo :: string
  qa_peer :: string
  qa_peer_host :: string
  qa_b1gmail_user :: int
  qa_instant_release :: bool
  qa_tls :: bool
  qa_dsid :: int

definition received_header :: "'x mta_env_scheme \<Rightarrow> int \<Rightarrow> int \<Rightarrow> enqueue_args \<Rightarrow> string" where
  "received_header e t iID a =
     ''from '' @ qa_helo a @ '' ('' @ qa_peer_host a @ '' ['' @ qa_peer a @ ''])'' @ CRLF @
     [TAB] @ ''by '' @ cfg_str e ''b1gmta_host'' @
     (if \<not> cfg_is1 e ''received_header_no_expose'' then '' (b1gMailServer)'' else []) @
     '' with '' @ (if qa_tls a then ''ESMTPS'' else ''ESMTP'') @ '' id '' @ hex_id iID @ CRLF @
     [TAB] @ ''for <'' @ qa_to a @ ''>; '' @ date_text e t"

definition written_headers ::
  "'x mta_env_scheme \<Rightarrow> world \<Rightarrow> int \<Rightarrow> enqueue_args \<Rightarrow> (string \<times> string) list \<times> world" where
  "written_headers e w iID a =
     (if \<not> qa_write_headers a then (qa_headers a, w)
      else let t = now w;
               h1 = (if qa_write_date a then [(''Date'', date_text e t)] else []) @ qa_headers a;
               (h2, w2) = (if qa_write_message_id a
                  then let (key, w') = MakeRandomKey 32 w
                       in ((''Message-ID'', ''<'' @ key @ ''@'' @ cfg_str e ''b1gmta_host'' @ ''>'') # h1, w')
                  else (h1, w));
               h3 = (if 0 < qa_smtp_user a
                  then [(''X-ESMTP-Authenticated-User'', hex_id (qa_smtp_user a))] else []) @ h2;
               h4 = (if qa_smtp_user a \<le> 0 \<or> cfg_str e ''smtp_auth_no_received'' = ''0''
                  then [(''Received'', received_header e t iID a)] else []) @ h3;
               h5 = (if qa_type a = MESSAGE_INBOUND
                  then [(''Return-Path'', ''<'' @ qa_from a @ ''>'')] else []) @ h4
           in (h5, w2))"

definition assemble_message :: "'x mta_env_scheme \<Rightarrow> enqueue_args \<Rightarrow> (string \<times> string) list \<Rightarrow> string" where
  "assemble_message e a hs =
     concat (map (\<lambda>(k, v). k @ '': '' @ v @ CRLF) hs) @
     (if qa_write_headers a
      then (if qa_type a = MESSAGE_INBOUND then cfg_str e ''inbound_headers''
            else if qa_type a = MESSAGE_OUTBOUND then cfg_str e ''outbound_headers''
            else [])
      else []) @
     (if hs = [] then CRLF @ CRLF else CRLF) @ qa_body a"

text \<open>
  The signature file of an authenticated sender: a plugin's text, otherwise the signature of
  the group without its carriage returns; none when neither exists.
\<close>

definition signature_file :: "'x mta_env_scheme \<Rightarrow> world \<Rightarrow> int \<Rightarrow> string option" where
  "signature_file e w userID =
     (let sep = cfg_str e ''outbound_signature_sep''
      in case filter (\<lambda>f. f userID sep \<noteq> None) (plugin_signature e) of
           f # _ \<Rightarrow> f userID sep
         | [] \<Rightarrow>
             (case filter (\<lambda>(g, u). g_id g = u_gruppe u \<and> u_id u = userID) (List.product (groups w) (users w)) of
                [(g, u)] \<Rightarrow>
                  if g_signatur g \<noteq> []
                  then Some ([NL] @ sep @ [NL] @ filter (\<lambda>c. c \<noteq> CR) (g_signatur g) @ [NL])
                  else None
              | _ \<Rightarrow> None))"

definition add_signature :: "'x mta_env_scheme \<Rightarrow> world \<Rightarrow> enqueue_args \<Rightarrow> string \<Rightarrow> string" where
  "add_signature e w a msg =
     (if qa_type a = MESSAGE_OUTBOUND \<and> 0 < qa_smtp_user a \<and> cfg_is1 e ''outbound_add_signature'' \<and>
         has_altermime e
      then (case signature_file e w (qa_smtp_user a) of
              None \<Rightarrow> msg
            | Some sig \<Rightarrow> (case altermime e sig msg of None \<Rightarrow> msg | Some m \<Rightarrow> m))
      else msg)"

section \<open>Enqueueing\<close>

definition to_domain :: "string \<Rightarrow> string" where
  "to_domain strTo = (case find_chr (CHR ''@'') strTo of None \<Rightarrow> [] | Some i \<Rightarrow> drop (i + 1) strTo)"

definition fresh_queue_row :: "world \<Rightarrow> int \<Rightarrow> enqueue_args \<Rightarrow> queue_row" where
  "fresh_queue_row w iID a =
     \<lparr>q_id = iID, q_active = 1, q_deleted = 0, q_type = qa_type a, q_date = now w,
      q_size = 1024 + int (length (qa_body a)), q_from = qa_from a, q_to = qa_to a,
      q_to_domain = to_domain (qa_to a), q_attempts = 0, q_last_attempt = 0,
      q_last_status = 0, q_last_status_info = [], q_last_status_code = [],
      q_last_diagnostic_code = [], q_smtp_user = qa_smtp_user a,
      q_b1gmail_user = qa_b1gmail_user a, q_deliverystatusid = qa_dsid a\<rparr>"

text \<open>The \<open>INSERT\<close>: an id of 0 lets the server assign the next one.\<close>

definition insert_queue_row :: "world \<Rightarrow> int \<Rightarrow> enqueue_args \<Rightarrow> int \<times> world" where
  "insert_queue_row w i a =
     (let iID = (if i = 0 then next_id w else i)
      in (iID, w\<lparr>msgqueue := msgqueue w @ [fresh_queue_row w iID a],
                 next_id := max (next_id w) iID + 1\<rparr>))"

definition new_queue_row :: "'x mta_env_scheme \<Rightarrow> world \<Rightarrow> enqueue_args \<Rightarrow> (int \<times> world) option" where
  "new_queue_row e w a =
     (if cfg_is1 e ''random_queue_id''
      then (case GenerateRandomQueueID w of
              None \<Rightarrow> None
            | Some (i, w1) \<Rightarrow> Some (insert_queue_row w1 i a))
      else Some (insert_queue_row w 0 a))"

definition delete_queue_rows :: "(int \<Rightarrow> bool) \<Rightarrow> world \<Rightarrow> world" where
  "delete_queue_rows p w = w\<lparr>msgqueue := filter (\<lambda>r. \<not> p (q_id r)) (msgqueue w)\<rparr>"

definition update_queue_rows :: "(int \<Rightarrow> bool) \<Rightarrow> (queue_row \<Rightarrow> queue_row) \<Rightarrow> world \<Rightarrow> world" where
  "update_queue_rows p f w = w\<lparr>msgqueue := map (\<lambda>r. if p (q_id r) then f r else r) (msgqueue w)\<rparr>"

definition unlink :: "string \<Rightarrow> world \<Rightarrow> world" where
  "unlink p w = w\<lparr>files := (files w)(p := None)\<rparr>"

text \<open>The result is the id of the row, or 0 when the queue file cannot be created.\<close>

definition EnqueueMessage :: "'x mta_env_scheme \<Rightarrow> world \<Rightarrow> enqueue_args \<Rightarrow> (int \<times> world) option" where
  "EnqueueMessage e w a =
     (case new_queue_row e w a of
        None \<Rightarrow> None
      | Some (iID, w1) \<Rightarrow>
          let (hs, w2) = written_headers e w1 iID a;
              msg = add_signature e w2 a (assemble_message e a hs);
              f = QueueFileNameStr e iID
          in if \<not> can_write e f then Some (0, delete_queue_rows (\<lambda>i. i = iID) w2)
             else let w3 = w2\<lparr>files := (files w2)(f \<mapsto> msg)\<rparr>;
                      w4 = SetMailDeliveryStatus e w3 (qa_dsid a) MDSTATUS_RECEIVED_BY_MTA None
                  in Some (iID, update_queue_rows (\<lambda>i. i = iID)
                       (\<lambda>r. r\<lparr>q_active := (if qa_instant_release a then 0 else 1), q_size := int (length msg)\<rparr>) w4))"

definition ReleaseMessages :: "int list \<Rightarrow> world \<Rightarrow> world" where
  "ReleaseMessages IDs w =
     (if IDs = [] then w else update_queue_rows (\<lambda>i. i \<in> set IDs) (\<lambda>r. r\<lparr>q_active := 0\<rparr>) w)"

definition DeleteMessages :: "'x env_scheme \<Rightarrow> int list \<Rightarrow> world \<Rightarrow> world" where
  "DeleteMessages e IDs w =
     (if IDs = [] then w
      else delete_queue_rows (\<lambda>i. i \<in> set IDs) (foldl (\<lambda>v i. unlink (QueueFileNameStr e i) v) w IDs))"

section \<open>File names\<close>

lemma hex_digits_inj:
  "hex_digits k m = hex_digits k n \<Longrightarrow> m < 16 ^ k \<Longrightarrow> n < 16 ^ k \<Longrightarrow> m = n"
proof (induction k arbitrary: m n)
  case (Suc k)
  have hex: "hex_char True a = hex_char True b \<Longrightarrow> a < 16 \<Longrightarrow> b < 16 \<Longrightarrow> a = b" for a b
    by (auto simp: hex_char_def split: if_splits)
  have "m div 16 = n div 16" using Suc by (auto intro!: Suc.IH simp: less_mult_imp_div_less mult.commute)
  moreover have "m mod 16 = n mod 16" using Suc.prems(1) hex by auto
  ultimately show ?case by (metis div_mult_mod_eq)
qed simp

lemma length_hex_digits [simp]: "length (hex_digits k n) = k"
  by (induction k arbitrary: n) simp_all

lemma hex_id_inj:
  assumes "hex_id i = hex_id j" and "- (2 ^ 31) \<le> i" "i < 2 ^ 31" "- (2 ^ 31) \<le> j" "j < 2 ^ 31"
  shows "i = j"
proof -
  have "nat (i mod 2 ^ 32) = nat (j mod 2 ^ 32)"
    by (rule hex_digits_inj [of 8]) (use assms(1) in \<open>simp_all add: hex_id_def nat_less_iff\<close>)
  then have "i mod 2 ^ 32 = j mod 2 ^ 32" by (simp add: nat_eq_iff)
  then have "(i + 2 ^ 31) mod 2 ^ 32 = (j + 2 ^ 31) mod 2 ^ 32" by (metis mod_add_left_eq)
  then show ?thesis using assms(2-5) by simp
qed

lemma QueueFileName_key:
  "QueueFileNameStr e i = QueueFileNameStr e j \<Longrightarrow> hex_id i = hex_id j"
proof -
  assume *: "QueueFileNameStr e i = QueueFileNameStr e j"
  have "length (hex_id k) = 8" for k by (simp add: hex_id_def)
  moreover have "drop (length (GET_QUEUE_DIR e) + 3) (QueueFileNameStr e k) = hex_id k" for k
    by (simp add: QueueFileNameStr_def)
  ultimately show ?thesis using * by metis
qed

text \<open>
  Two queue items never share a file: \<open>QueueFileNameStr\<close> is injective on all 32-bit ids,
  negative ones included, and every name has the eight digits that the code insists on.
\<close>

theorem QueueFileName_injective:
  assumes "QueueFileNameStr e i = QueueFileNameStr e j"
    and "- (2 ^ 31) \<le> i" "i < 2 ^ 31" "- (2 ^ 31) \<le> j" "j < 2 ^ 31"
  shows "i = j \<and> length (hex_id i) = 8"
  using hex_id_inj [OF QueueFileName_key [OF assms(1)]] assms by (simp add: hex_id_def)

lemma QueueFileName_injective_witness: "(-5 :: int) = -5 \<and> length (hex_id (-5)) = 8"
  using QueueFileName_injective [of "sample_env []" "-5" "-5"] by simp

section \<open>Random ids\<close>

definition same_queue :: "world \<Rightarrow> world \<Rightarrow> bool" where
  "same_queue w w' \<longleftrightarrow> (\<exists>r. w' = w\<lparr>rands := r\<rparr>)"

lemma same_queue_draw: "same_queue w (snd (draw k w))"
  by (auto simp: same_queue_def draw_def)

lemma same_queue_trans: "same_queue u v \<Longrightarrow> same_queue v w \<Longrightarrow> same_queue u w"
  by (auto simp: same_queue_def)

lemma same_queue_used: "same_queue w w' \<Longrightarrow> queue_id_used w' i = queue_id_used w i"
  by (auto simp: same_queue_def queue_id_used_def)

lemma random_id_loop_result:
  "random_id_loop b w = Some r \<Longrightarrow>
     same_queue w (snd r) \<and> (fst r = 0 \<or> \<not> queue_id_used w (fst r))"
proof (erule random_id_loop.raw_induct [rotated], goal_cases)
  case (1 f b w r)
  obtain bs w1 where d: "draw 4 w = (bs, w1)" by fastforce
  have sq: "same_queue w w1" using same_queue_draw [of w 4] d by simp
  define n where "n = random_result bs"
  define m where "m = (if n < 0 then to_int32 (- n) else n)"
  have "(if n = 0 then (if b then f True w1 else Some (0, w1))
         else if queue_id_used w1 m then f True w1 else Some (m, w1)) = Some r"
    using 1(2) unfolding Let_def d prod.case n_def m_def .
  note eq = this
  have rec: ?case if "f True w1 = Some r"
    using 1(1) [OF that] same_queue_trans [OF sq, of "snd r"] same_queue_used [OF sq, of "fst r"] by simp
  show ?case
  proof (cases "n = 0")
    case True
    then show ?thesis using eq rec sq by (cases b) auto
  next
    case False
    show ?thesis
    proof (cases "queue_id_used w1 m")
      case True
      with False eq rec show ?thesis by simp
    next
      case unused: False
      with False eq have "r = (m, w1)" by simp
      then show ?thesis using unused sq same_queue_used [OF sq, of m] by simp
    qed
  qed
qed

definition future_id :: "world \<Rightarrow> nat \<Rightarrow> int" where
  "future_id w k = (let n = random_result (map (rands w) [4 * k..<4 * k + 4])
                    in if n < 0 then to_int32 (- n) else n)"

lemma to_int32_neg_zero: "- (2 ^ 31) \<le> n \<Longrightarrow> n < 0 \<Longrightarrow> to_int32 (- n) \<noteq> 0"
  by (cases "n = - (2 ^ 31)") (simp_all add: to_int32_def)

lemma random_result_bounds: "- (2 ^ 31) \<le> random_result bs"
  using to_int32_bounds by (simp add: random_result_def)

lemma random_id_loop_returns:
  "future_id w k \<noteq> 0 \<Longrightarrow> \<not> queue_id_used w (future_id w k) \<Longrightarrow> \<exists>r. random_id_loop b w = Some r"
proof (induction k arbitrary: b w)
  case 0
  define n where "n = random_result (map (rands w) [0..<4])"
  have f: "future_id w 0 = (if n < 0 then to_int32 (- n) else n)" by (simp add: future_id_def n_def)
  have "n \<noteq> 0" using 0 f by auto
  moreover have "\<not> queue_id_used (snd (draw 4 w)) (future_id w 0)"
    using 0 same_queue_used [OF same_queue_draw] by blast
  ultimately show ?case
    using f by (subst random_id_loop.simps) (simp add: draw_def n_def [symmetric] split: if_split_asm)
next
  case (Suc k)
  define w1 where "w1 = snd (draw 4 w)"
  have shift: "future_id w1 k = future_id w (Suc k)"
    by (simp add: future_id_def w1_def draw_def numeral_eq_Suc)
  have "\<not> queue_id_used w1 (future_id w1 k)"
    using Suc.prems(2) same_queue_used [OF same_queue_draw] shift by (simp add: w1_def)
  then have "\<exists>r. random_id_loop True w1 = Some r"
    using Suc shift by simp
  then show ?case
    by (subst random_id_loop.simps) (auto simp: w1_def draw_def Let_def)
qed

text \<open>
  The random queue id. The search returns as soon as one of the future random numbers is
  neither zero nor taken; what it returns is never the id of a stored message. (It may be zero,
  because \<open>continue\<close> leaves the loop: the server then assigns an id itself.)
\<close>

theorem GenerateRandomQueueID_unused:
  assumes "future_id w k \<noteq> 0" and "\<not> queue_id_used w (future_id w k)"
  shows "\<exists>i w'. GenerateRandomQueueID w = Some (i, w') \<and> (i = 0 \<or> \<not> queue_id_used w i) \<and>
    msgqueue w' = msgqueue w"
proof -
  obtain r where r: "random_id_loop False w = Some r" using random_id_loop_returns [OF assms] by blast
  moreover have "msgqueue (snd r) = msgqueue w"
    using random_id_loop_result [OF r] by (auto simp: same_queue_def)
  ultimately show ?thesis
    using random_id_loop_result [OF r] unfolding GenerateRandomQueueID_def by (metis prod.collapse)
qed

lemma GenerateRandomQueueID_unused_witness:
  "\<exists>i w'. GenerateRandomQueueID sample_world = Some (i, w') \<and> (i = 0 \<or> \<not> queue_id_used sample_world i) \<and>
    msgqueue w' = msgqueue sample_world"
proof (rule GenerateRandomQueueID_unused [of _ 0])
  show "future_id sample_world 0 \<noteq> 0" by code_simp
  show "\<not> queue_id_used sample_world (future_id sample_world 0)" by code_simp
qed

section \<open>The effect of enqueueing\<close>

text \<open>Ids are unique and the server's counter is above them.\<close>

definition queue_ids_ok :: "world \<Rightarrow> bool" where
  "queue_ids_ok w \<longleftrightarrow> distinct (map q_id (msgqueue w)) \<and> 0 < next_id w \<and>
     (\<forall>r \<in> set (msgqueue w). q_id r < next_id w)"

text \<open>The only tables that queue operations write.\<close>

definition queue_change :: "world \<Rightarrow> world \<Rightarrow> bool" where
  "queue_change w w' \<longleftrightarrow>
     w' = w\<lparr>msgqueue := msgqueue w', files := files w', next_id := next_id w', rands := rands w',
            mdstatus := mdstatus w'\<rparr>"

lemma queue_change_refl [simp]: "queue_change w w"
  by (simp add: queue_change_def)

lemma queue_change_trans: "queue_change u v \<Longrightarrow> queue_change v w \<Longrightarrow> queue_change u w"
proof -
  assume 1: "queue_change u v" and 2: "queue_change v w"
  have "w = v\<lparr>msgqueue := msgqueue w, files := files w, next_id := next_id w, rands := rands w,
      mdstatus := mdstatus w\<rparr>" using 2 by (simp only: queue_change_def)
  also have "\<dots> = u\<lparr>msgqueue := msgqueue w, files := files w, next_id := next_id w, rands := rands w,
      mdstatus := mdstatus w\<rparr>" by (subst 1 [unfolded queue_change_def]) simp
  finally show ?thesis by (simp only: queue_change_def)
qed

lemma queue_change_simps:
  assumes "queue_change w w'"
  shows "users w' = users w" "groups w' = groups w" "sendstats w' = sendstats w"
    "smtpstats w' = smtpstats w" "now w' = now w" "mails w' = mails w"
  by (subst assms [unfolded queue_change_def], simp)+

lemma queue_change_update [simp]:
  "queue_change w (update_queue_rows p f w)" "queue_change w (delete_queue_rows p w)"
  "queue_change w (unlink x w)" "queue_change w (SetMailDeliveryStatus e w i st d)"
  "queue_change w (w\<lparr>files := g\<rparr>)"
  by (simp_all add: queue_change_def update_queue_rows_def delete_queue_rows_def unlink_def
      SetMailDeliveryStatus_def)

lemma queue_change_written: "queue_change w (snd (written_headers e w i a))"
  by (simp add: queue_change_def written_headers_def MakeRandomKey_def draw_def Let_def split_beta)

lemma written_same:
  "msgqueue (snd (written_headers e w i a)) = msgqueue w" "files (snd (written_headers e w i a)) = files w"
  "next_id (snd (written_headers e w i a)) = next_id w"
  by (simp_all add: written_headers_def MakeRandomKey_def draw_def Let_def split_beta)

lemma SetMailDeliveryStatus_same [simp]:
  "msgqueue (SetMailDeliveryStatus e w i st d) = msgqueue w" "files (SetMailDeliveryStatus e w i st d) = files w"
  "next_id (SetMailDeliveryStatus e w i st d) = next_id w"
  by (simp_all add: SetMailDeliveryStatus_def)

lemma same_queue_change: "same_queue w w' \<Longrightarrow> queue_change w w'"
  by (auto simp: same_queue_def queue_change_def)

text \<open>The new row has an id that no other row has.\<close>

definition queue_row_for :: "enqueue_args \<Rightarrow> int \<Rightarrow> queue_row \<Rightarrow> bool" where
  "queue_row_for a i r \<longleftrightarrow> q_id r = i \<and> q_deleted r = 0 \<and> q_type r = qa_type a \<and>
     q_from r = qa_from a \<and> q_to r = qa_to a \<and> q_smtp_user r = qa_smtp_user a \<and> q_attempts r = 0 \<and>
     q_last_attempt r = 0"

lemma insert_queue_row_effect:
  assumes "queue_ids_ok w" and "i = 0 \<or> \<not> queue_id_used w i"
    and "insert_queue_row w i a = (j, w')"
  shows "j \<noteq> 0 \<and> \<not> queue_id_used w j \<and> queue_ids_ok w' \<and> queue_change w w' \<and> files w' = files w \<and>
    (\<exists>r. msgqueue w' = msgqueue w @ [r] \<and> queue_row_for a j r \<and> q_active r = 1)"
proof -
  let ?j = "if i = 0 then next_id w else i"
  define r where "r = fresh_queue_row w ?j a"
  have rf: "queue_row_for a ?j r" "q_active r = 1"
    by (simp_all add: r_def queue_row_for_def fresh_queue_row_def)
  have r: "w' = w\<lparr>msgqueue := msgqueue w @ [r], next_id := max (next_id w) ?j + 1\<rparr>" "j = ?j"
    using assms(3) unfolding insert_queue_row_def Let_def r_def [symmetric] by auto
  have "\<not> queue_id_used w ?j"
    using assms(1,2) by (auto simp: queue_id_used_def queue_ids_ok_def list_ex_iff)
  then have "queue_ids_ok w'"
    using assms(1) r rf by (auto simp: queue_ids_ok_def queue_id_used_def list_ex_iff queue_row_for_def)
  moreover have "queue_change w w'" unfolding queue_change_def r(1) by simp
  moreover have "?j \<noteq> 0" using assms(1) by (auto simp: queue_ids_ok_def)
  ultimately show ?thesis using r rf \<open>\<not> queue_id_used w ?j\<close> by auto
qed

lemma new_queue_row_effect:
  assumes "queue_ids_ok w" and "new_queue_row e w a = Some (j, w')"
  shows "j \<noteq> 0 \<and> \<not> queue_id_used w j \<and> queue_ids_ok w' \<and> queue_change w w' \<and> files w' = files w \<and>
    (\<exists>r. msgqueue w' = msgqueue w @ [r] \<and> queue_row_for a j r \<and> q_active r = 1)"
proof (cases "cfg_is1 e ''random_queue_id''")
  case True
  with assms(2) obtain i w1 where i: "GenerateRandomQueueID w = Some (i, w1)"
      "insert_queue_row w1 i a = (j, w')"
    by (auto simp: new_queue_row_def split: option.splits)
  then have sq: "same_queue w w1" "i = 0 \<or> \<not> queue_id_used w i"
    using random_id_loop_result [of False w "(i, w1)"] by (simp_all add: GenerateRandomQueueID_def)
  have same: "msgqueue w1 = msgqueue w" "files w1 = files w" "next_id w1 = next_id w"
    using sq(1) by (auto simp: same_queue_def)
  then have ok: "queue_ids_ok w1" and used: "queue_id_used w1 x = queue_id_used w x" for x
    using assms(1) by (simp_all add: queue_ids_ok_def queue_id_used_def)
  from insert_queue_row_effect [OF ok _ i(2)] sq(2) used same show ?thesis
    using queue_change_trans [OF same_queue_change [OF sq(1)]] by auto
next
  case False
  then have "insert_queue_row w 0 a = (j, w')" using assms(2) by (simp add: new_queue_row_def)
  from insert_queue_row_effect [OF assms(1) _ this] show ?thesis by simp
qed

lemma delete_fresh:
  "\<not> queue_id_used w j \<Longrightarrow> msgqueue v = msgqueue w @ [r] \<Longrightarrow> q_id r = j \<Longrightarrow>
     msgqueue (delete_queue_rows (\<lambda>i. i = j) v) = msgqueue w"
  by (auto simp: delete_queue_rows_def queue_id_used_def list_ex_iff filter_id_conv)

lemma update_fresh:
  "\<not> queue_id_used w j \<Longrightarrow> msgqueue v = msgqueue w @ [r] \<Longrightarrow> q_id r = j \<Longrightarrow>
     msgqueue (update_queue_rows (\<lambda>i. i = j) f v) = msgqueue w @ [f r]"
  by (auto simp: update_queue_rows_def queue_id_used_def list_ex_iff intro!: map_idI)

lemma queue_ids_ok_same:
  "queue_ids_ok v \<Longrightarrow> map q_id (msgqueue w) = map q_id (msgqueue v) \<Longrightarrow> next_id v \<le> next_id w \<Longrightarrow> queue_ids_ok w"
proof -
  assume a: "queue_ids_ok v" "map q_id (msgqueue w) = map q_id (msgqueue v)" "next_id v \<le> next_id w"
  then have "q_id ` set (msgqueue w) = q_id ` set (msgqueue v)" by (metis set_map)
  then have "q_id r \<in> q_id ` set (msgqueue v)" if "r \<in> set (msgqueue w)" for r using that by blast
  then show ?thesis using a by (fastforce simp: queue_ids_ok_def)
qed

lemma EnqueueMessage_result:
  assumes "queue_ids_ok w" and "EnqueueMessage e w a = Some (i, w')"
  shows "queue_ids_ok w' \<and> queue_change w w' \<and>
    (if i = 0 then msgqueue w' = msgqueue w \<and> files w' = files w
     else \<not> queue_id_used w i \<and>
       (\<exists>r m. msgqueue w' = msgqueue w @ [r] \<and> queue_row_for a i r \<and>
          q_active r = (if qa_instant_release a then 0 else 1) \<and> q_size r = int (length m) \<and>
          files w' = (files w)(QueueFileNameStr e i \<mapsto> m)))"
proof -
  obtain j w1 where j: "new_queue_row e w a = Some (j, w1)"
    using assms(2) by (auto simp: EnqueueMessage_def split: option.splits)
  from new_queue_row_effect [OF assms(1) j] obtain r where
    r: "j \<noteq> 0" "\<not> queue_id_used w j" "queue_ids_ok w1" "queue_change w w1" "files w1 = files w"
      "msgqueue w1 = msgqueue w @ [r]" "queue_row_for a j r" "q_active r = 1" by blast
  obtain hs w2 where h: "written_headers e w1 j a = (hs, w2)" by fastforce
  have w2: "msgqueue w2 = msgqueue w1" "files w2 = files w1" "next_id w2 = next_id w1" "queue_change w1 w2"
    using written_same [of e w1 j a] queue_change_written [of w1 e j a] h by simp_all
  have rj: "q_id r = j" using r(7) by (simp add: queue_row_for_def)
  show ?thesis
  proof (cases "can_write e (QueueFileNameStr e j)")
    case False
    then have w': "i = 0" "w' = delete_queue_rows (\<lambda>k. k = j) w2"
      using assms(2) j h by (simp_all add: EnqueueMessage_def)
    have q: "msgqueue w' = msgqueue w" using delete_fresh [OF r(2), of w2 r] w2(1) r(6) rj w'(2) by simp
    have n: "next_id w' = next_id w1" "files w' = files w"
      using w'(2) w2 r(5) by (simp_all add: delete_queue_rows_def)
    have "queue_ids_ok w'"
      using r(3,6) q n(1) by (auto simp: queue_ids_ok_def)
    moreover have "queue_change w w'"
      using queue_change_trans [OF r(4) queue_change_trans [OF w2(4)]] w'(2) by simp
    ultimately show ?thesis using w'(1) q n by simp
  next
    case True
    define msg where "msg = add_signature e w2 a (assemble_message e a hs)"
    define w3 where "w3 = w2\<lparr>files := (files w2)(QueueFileNameStr e j \<mapsto> msg)\<rparr>"
    define w4 where "w4 = SetMailDeliveryStatus e w3 (qa_dsid a) MDSTATUS_RECEIVED_BY_MTA None"
    define f where "f = (\<lambda>r :: queue_row. r\<lparr>q_active := (if qa_instant_release a then 0 else 1), q_size := int (length msg)\<rparr>)"
    have "EnqueueMessage e w a = Some (j, update_queue_rows (\<lambda>k. k = j) f w4)"
      unfolding f_def w4_def w3_def msg_def using j h True
      by (simp only: EnqueueMessage_def Let_def option.case prod.case not_True_eq_False if_False)
    then have w': "i = j" "w' = update_queue_rows (\<lambda>k. k = j) f w4"
      using assms(2) by simp_all
    have w4: "msgqueue w4 = msgqueue w @ [r]" "next_id w4 = next_id w1"
        "files w4 = (files w)(QueueFileNameStr e j \<mapsto> msg)"
      using w2 r(5,6) by (simp_all add: w4_def w3_def)
    have q: "msgqueue w' = msgqueue w @ [f r]"
      unfolding w'(2) by (rule update_fresh [OF r(2) w4(1) rj])
    have "queue_ids_ok w'"
      by (rule queue_ids_ok_same [OF r(3)])
         (use q r(6) w4(2) w'(2) in \<open>simp_all add: f_def update_queue_rows_def\<close>)
    moreover have "queue_change w w'"
    proof -
      have "queue_change w2 w3" "queue_change w3 w4" "queue_change w4 w'"
        by (simp_all add: w3_def w4_def w'(2))
      then show ?thesis using queue_change_trans r(4) w2(4) by blast
    qed
    moreover have "files w' = (files w)(QueueFileNameStr e j \<mapsto> msg)"
      using w4(3) by (simp add: w'(2) update_queue_rows_def)
    moreover have "queue_row_for a j (f r)" "q_active (f r) = (if qa_instant_release a then 0 else 1)"
        "q_size (f r) = int (length msg)"
      using r(7) by (simp_all add: f_def queue_row_for_def)
    ultimately show ?thesis using w'(1) q r(1,2) by auto
  qed
qed


definition sample_mta :: "(string \<times> string) list \<Rightarrow> mta_env" where
  "sample_mta kvs = env.extend (sample_env kvs)
     \<lparr>rfc_time = (\<lambda>_. ''Sat, 01 Jan 2022 00:00:00''), tz_abbrev = (\<lambda>_. ''UTC''), tz_seconds = (\<lambda>_. 0),
      has_altermime = False, altermime = (\<lambda>_ _. None), plugin_signature = []\<rparr>"

definition sample_args :: enqueue_args where
  "sample_args =
     \<lparr>qa_headers = [(''Subject'', ''x'')], qa_body = ''hi'', qa_type = MESSAGE_OUTBOUND, qa_from = ''a@b.c'',
      qa_to = ''x@y.z'', qa_smtp_user = 7, qa_write_headers = False, qa_write_message_id = False,
      qa_write_date = False, qa_helo = ''h'', qa_peer = ''1.2.3.4'', qa_peer_host = ''h'',
      qa_b1gmail_user = 7, qa_instant_release = False, qa_tls = False, qa_dsid = 0\<rparr>"


section \<open>Time zones in headers\<close>

text \<open>The zone of RFC 5322: a sign, two digits of hours, two of minutes.\<close>

definition rfc5322_zone :: "int \<Rightarrow> string" where
  "rfc5322_zone s =
     (if s \<ge> 0 then ''+'' else ''-'') @ pad_left 2 (CHR ''0'') (show_nat (nat (\<bar>s\<bar> div 3600))) @
     pad_left 2 (CHR ''0'') (show_nat (nat (\<bar>s\<bar> div 60 mod 60)))"

lemma show_nat_length: "10 ^ k \<le> n \<Longrightarrow> k < length (show_nat n)"
proof (induction k arbitrary: n)
  case (Suc k)
  then have "10 ^ k \<le> n div 10" "\<not> n < 10"
    using div_le_mono [OF Suc.prems, of 10] one_le_power [of "10 :: nat" k] by auto
  then show ?case using Suc.IH [of "n div 10"] by (subst show_nat.simps) simp
qed (simp add: Suc_le_eq)

text \<open>
  The time zone in the \<open>Date\<close> and \<open>Received\<close> headers is wrong west of Greenwich: for every
  offset of an hour or more behind UTC the header text has two minus signs. It is wrong in zones
  with half hours too, because the offset is printed in hundredths of an hour: India's
  \<open>+0530\<close> becomes \<open>+0550\<close>.
\<close>

theorem zone_text_wrong:
  "(\<forall>t. tz_seconds e t \<le> -3600 \<longrightarrow> (\<exists>ds. zone_text (GetTimeZone e t) = '' --'' @ ds)) \<and>
   (tz_seconds e t = 19800 \<longrightarrow> zone_text (GetTimeZone e t) = '' +0550'' \<and> rfc5322_zone 19800 = ''+0530'')"
proof -
  have "\<exists>ds. zone_text (GetTimeZone e t) = '' --'' @ ds" if "tz_seconds e t \<le> -3600" for t
  proof -
    define n where "n = (- tz_seconds e t) div 36"
    have n: "100 \<le> n" using that zdiv_mono1 [of 3600 "- tz_seconds e t" 36] by (simp add: n_def)
    have z: "GetTimeZone e t = - n" using that by (simp add: GetTimeZone_def n_def)
    have "2 < length (show_nat (nat n))" using n by (intro show_nat_length) simp
    then have "4 - length (show_int (- n)) = 0" using n by (simp add: show_int_def)
    then have "zone_text (- n) = '' -'' @ show_int (- n)" using n by (simp add: zone_text_def pad_left_def)
    then show ?thesis using n z by (simp add: show_int_def)
  qed
  moreover have "zone_text 550 = '' +0550''" "rfc5322_zone 19800 = ''+0530''" by code_simp+
  ultimately show ?thesis by (auto simp: GetTimeZone_def)
qed

lemma zone_text_wrong_witness:
  "\<exists>ds. zone_text (GetTimeZone ((sample_mta [])\<lparr>tz_seconds := (\<lambda>_. -18000)\<rparr>) 0) = '' --'' @ ds"
  using zone_text_wrong [of "(sample_mta [])\<lparr>tz_seconds := (\<lambda>_. -18000)\<rparr>" 0] by simp

end
