(* ===== verification/ThreadPool.thy ===== *)
theory ThreadPool
  imports Prelude
begin

text \<open>
  The thread pool (src/core/threadpool.cpp): a queue of jobs, the counters that decide when a
  further thread is made, and \<open>popJob\<close> of the worker threads. What the queue runner needs of it
  is the interface \<open>job_pool\<close>: jobs are handed out in the order they came, each once.
\<close>

section \<open>The pool\<close>

text \<open>
  Jobs in the order of \<open>addToQueue\<close>, and the counters that decide about further threads. A
  dynamic thread is one that \<open>grow\<close> made; it ends when it finds no job within its timeout.
\<close>

record 'j threadpool =
  tp_queue :: "'j list"
  threadCount :: nat
  maxGrow :: nat
  createdThreads :: nat
  busyThreads :: nat
  finishedDynamicThreads :: nat
  tp_run :: bool

definition new_ThreadPool :: "nat \<Rightarrow> nat \<Rightarrow> 'j threadpool" where
  "new_ThreadPool count mx =
     (let c = max 1 count
      in \<lparr>tp_queue = [], threadCount = c, maxGrow = max c mx, createdThreads = 0, busyThreads = 0,
          finishedDynamicThreads = 0, tp_run = False\<rparr>)"

definition tp_start :: "'j threadpool \<Rightarrow> 'j threadpool" where
  "tp_start p = p\<lparr>tp_run := True, createdThreads := createdThreads p + threadCount p\<rparr>"

definition tp_grow :: "'j threadpool \<Rightarrow> 'j threadpool" where
  "tp_grow p = (if createdThreads p \<ge> maxGrow p then p else p\<lparr>createdThreads := createdThreads p + 1\<rparr>)"

definition addToQueue :: "'j \<Rightarrow> 'j threadpool \<Rightarrow> 'j threadpool" where
  "addToQueue j p =
     (let q = p\<lparr>tp_queue := tp_queue p @ [j]\<rparr>
      in if (busyThreads q \<ge> createdThreads q \<or> length (tp_queue q) > createdThreads q) \<and>
            createdThreads q < maxGrow q
         then tp_grow q else q)"

definition tp_shrink :: "'j threadpool \<Rightarrow> 'j threadpool" where
  "tp_shrink p = p\<lparr>createdThreads := createdThreads p - finishedDynamicThreads p, finishedDynamicThreads := 0\<rparr>"

text \<open>
  \<open>popJob\<close>: a thread enters, gives up being busy and, unless it may skip the wait, sleeps on
  the condition variable; other threads run in between. When it wakes it takes a job if there
  is one. The results: whether the thread counts as busy, and the job.
\<close>

definition popJob_enter :: "bool \<Rightarrow> bool \<Rightarrow> 'j threadpool \<Rightarrow> (bool \<times> 'j threadpool) option" where
  "popJob_enter isBusy skipWait p =
     (if \<not> tp_run p then None
      else if \<not> skipWait \<and> isBusy then Some (False, p\<lparr>busyThreads := busyThreads p - 1\<rparr>)
      else Some (isBusy, p))"

definition popJob_take :: "bool \<Rightarrow> bool \<Rightarrow> 'j threadpool \<Rightarrow> 'j option \<times> bool \<times> 'j threadpool" where
  "popJob_take isBusy skipWait p =
     (case tp_queue p of
        [] \<Rightarrow> (None, isBusy, p)
      | j # js \<Rightarrow>
          let q = p\<lparr>tp_queue := js\<rparr>
          in if \<not> skipWait \<and> \<not> isBusy then (Some j, True, q\<lparr>busyThreads := busyThreads q + 1\<rparr>)
             else (Some j, isBusy, q))"

text \<open>A dynamic thread without a job ends. \<open>stop\<close> lets every thread finish what it holds.\<close>

definition thread_end :: "'j threadpool \<Rightarrow> 'j threadpool" where
  "thread_end p = p\<lparr>finishedDynamicThreads := finishedDynamicThreads p + 1\<rparr>"

definition tp_stop :: "'j threadpool \<Rightarrow> 'j threadpool" where
  "tp_stop p = p\<lparr>tp_run := False\<rparr>"

section \<open>The interface\<close>

text \<open>A pool with jobs \<open>js\<close>: \<open>add\<close> appends, \<open>take\<close> hands out the first, \<open>tidy\<close> is anything else.\<close>

locale job_pool =
  fixes jobs :: "'p \<Rightarrow> 'j list" and add :: "'j \<Rightarrow> 'p \<Rightarrow> 'p" and take_job :: "'p \<Rightarrow> 'j option \<Rightarrow> 'p \<Rightarrow> bool"
    and tidy :: "'p \<Rightarrow> 'p \<Rightarrow> bool"
  assumes add_jobs: "jobs (add j p) = jobs p @ [j]"
    and take_some: "take_job p (Some j) q \<Longrightarrow> jobs p = j # jobs q"
    and take_none: "take_job p None q \<Longrightarrow> jobs p = [] \<and> jobs q = []"
    and tidy_jobs: "tidy p q \<Longrightarrow> jobs q = jobs p"
begin

lemma add_all: "jobs (fold add js p) = jobs p @ js"
  by (induction js arbitrary: p) (simp_all add: add_jobs)

text \<open>Runs of the pool: the jobs added and the jobs taken on the way.\<close>

inductive run :: "'p \<Rightarrow> 'j list \<Rightarrow> 'j list \<Rightarrow> 'p \<Rightarrow> bool" where
  start: "run p [] [] p"
| added: "run p xs ys q \<Longrightarrow> run p (xs @ [j]) ys (add j q)"
| taken: "run p xs ys q \<Longrightarrow> take_job q (Some j) r \<Longrightarrow> run p xs (ys @ [j]) r"
| idle: "run p xs ys q \<Longrightarrow> take_job q None r \<Longrightarrow> run p xs ys r"
| other: "run p xs ys q \<Longrightarrow> tidy q r \<Longrightarrow> run p xs ys r"

lemma run_fifo: "run p xs ys q \<Longrightarrow> jobs p @ xs = ys @ jobs q"
proof (induction rule: run.induct)
  case (taken p xs ys q j r)
  then show ?case using take_some by simp
next
  case (idle p xs ys q r)
  then show ?case using take_none by auto
qed (simp_all add: add_jobs tidy_jobs flip: append_assoc)

end

section \<open>The pool implements it\<close>

definition pool_take :: "'j threadpool \<Rightarrow> 'j option \<Rightarrow> 'j threadpool \<Rightarrow> bool" where
  "pool_take p j q \<longleftrightarrow> (\<exists>b skip b'. popJob_take b skip p = (j, b', q))"

inductive pool_tidy :: "'j threadpool \<Rightarrow> 'j threadpool \<Rightarrow> bool" where
  shrink: "pool_tidy p (tp_shrink p)"
| finish: "pool_tidy p (thread_end p)"
| enter: "popJob_enter b skip p = Some (b', q) \<Longrightarrow> pool_tidy p q"
| start: "pool_tidy p (tp_start p)"
| stop: "pool_tidy p (tp_stop p)"

lemma popJob_enter_queue: "popJob_enter b skip p = Some (b', q) \<Longrightarrow> tp_queue q = tp_queue p"
  by (auto simp: popJob_enter_def split: if_splits)

lemma popJob_take_queue:
  "popJob_take b skip p = (j, b', q) \<Longrightarrow>
     (case j of None \<Rightarrow> tp_queue p = [] \<and> q = p | Some i \<Rightarrow> tp_queue p = i # tp_queue q)"
  by (auto simp: popJob_take_def Let_def split: list.splits if_splits)

lemma pool_queue [simp]:
  "tp_queue (addToQueue j p) = tp_queue p @ [j]" "tp_queue (tp_shrink p) = tp_queue p"
  "tp_queue (thread_end p) = tp_queue p" "tp_queue (tp_stop p) = tp_queue p" "tp_queue (tp_start p) = tp_queue p"
  by (simp_all add: addToQueue_def tp_grow_def tp_shrink_def thread_end_def tp_stop_def tp_start_def Let_def)

interpretation tp: job_pool tp_queue addToQueue pool_take pool_tidy
proof unfold_locales
  show "pool_tidy p q \<Longrightarrow> tp_queue q = tp_queue p" for p q :: "'a threadpool"
    by (induction rule: pool_tidy.induct) (simp_all add: popJob_enter_queue)
qed (auto simp: pool_take_def dest: popJob_take_queue)

section \<open>How many threads\<close>

definition pool_bounded :: "'j threadpool \<Rightarrow> bool" where
  "pool_bounded p \<longleftrightarrow> createdThreads p \<le> maxGrow p"

lemma pool_bounded_simps [simp]:
  "pool_bounded p \<Longrightarrow> pool_bounded (addToQueue j p)" "pool_bounded p \<Longrightarrow> pool_bounded (tp_shrink p)"
  "pool_bounded p \<Longrightarrow> pool_bounded (thread_end p)" "pool_bounded p \<Longrightarrow> pool_bounded (tp_stop p)"
  "pool_bounded (tp_start (new_ThreadPool c m))"
  by (simp_all add: pool_bounded_def addToQueue_def tp_grow_def tp_shrink_def thread_end_def tp_stop_def tp_start_def
      new_ThreadPool_def Let_def)

lemma popJob_bounded:
  "popJob_enter b skip p = Some (b', q) \<Longrightarrow> pool_bounded p \<Longrightarrow> pool_bounded q"
  "popJob_take b skip p = (j, b', q) \<Longrightarrow> pool_bounded p \<Longrightarrow> pool_bounded q"
  by (auto simp: popJob_enter_def popJob_take_def pool_bounded_def Let_def split: if_splits list.splits)

text \<open>
  The thread pool is a fair queue. Jobs are handed out in the order in which they were added,
  none twice and none left out: in any run from a new pool, whatever threads come, wait and go,
  the jobs taken so far followed by those still waiting are exactly the jobs added.
\<close>

theorem ThreadPool_fifo:
  "tp.run (tp_start (new_ThreadPool c m)) added taken q \<Longrightarrow> taken @ tp_queue q = added"
  using tp.run_fifo [of "tp_start (new_ThreadPool c m)" added taken q]
  by (simp add: new_ThreadPool_def Let_def)

lemma ThreadPool_fifo_witness:
  "let q = addToQueue ''b'' (addToQueue ''a'' (tp_start (new_ThreadPool 1 2)))
   in [''a''] @ tp_queue (snd (snd (popJob_take False True q))) = [''a'', ''b'']"
proof -
  let ?p = "tp_start (new_ThreadPool 1 2)" and ?q = "addToQueue ''b'' (addToQueue ''a'' (tp_start (new_ThreadPool 1 2)))"
  have "tp.run ?p [''a''] [] (addToQueue ''a'' ?p)" using tp.run.added [OF tp.run.start, of ?p "''a''"] by simp
  from tp.run.added [OF this, of "''b''"] have "tp.run ?p [''a'', ''b''] [] ?q" by simp
  moreover have "pool_take ?q (Some ''a'') (snd (snd (popJob_take False True ?q)))"
    unfolding pool_take_def
    by (intro exI [of _ False] exI [of _ True] exI [of _ False])
       (simp add: popJob_take_def new_ThreadPool_def tp_start_def addToQueue_def tp_grow_def Let_def)
  ultimately have "tp.run ?p [''a'', ''b''] [''a''] (snd (snd (popJob_take False True ?q)))"
    using tp.run.taken by fastforce
  from ThreadPool_fifo [OF this] show ?thesis by (simp add: Let_def)
qed

end
