(* ===== verification/MsgQueue.thy ===== *)
theory MsgQueue
  imports Enqueue ThreadPool "HOL-Library.Product_Lexorder"
begin

text \<open>
  The queue runner (src/msgqueue/msgqueue.cpp, bounce.cpp): reading due messages from the queue
  table, handing them to the worker threads of the pool, and writing the results
  of the deliveries back: removal, retry or bounce. The deliveries themselves are in
  \<open>Delivery\<close>; here a worker is a thread that has taken an item and leaves a result.
\<close>

section \<open>Data\<close>

definition QUEUE_RUN_MAX :: nat where "QUEUE_RUN_MAX = 1000"
definition MAILER_DAEMON_USER :: string where "MAILER_DAEMON_USER = ''postmaster''"
definition BMUSER_SYSTEM :: int where "BMUSER_SYSTEM = -1"

definition MDSTATUS_DELIVERED_BY_MTA :: int where "MDSTATUS_DELIVERED_BY_MTA = 3"
definition MDSTATUS_DELIVERY_DEFERRED :: int where "MDSTATUS_DELIVERY_DEFERRED = 4"
definition MDSTATUS_DELIVERY_FAILED :: int where "MDSTATUS_DELIVERY_FAILED = 5"

datatype eQueueStatus =
  QUEUE_STATUS_SUCCESS | QUEUE_STATUS_UNKNOWN_ERROR | QUEUE_STATUS_TEMPORARY_ERROR
| QUEUE_STATUS_FATAL_ERROR | QUEUE_STATUS_INVALID_ITEM

fun status_code :: "eQueueStatus \<Rightarrow> int" where
  "status_code QUEUE_STATUS_SUCCESS = 0"
| "status_code QUEUE_STATUS_UNKNOWN_ERROR = 1"
| "status_code QUEUE_STATUS_TEMPORARY_ERROR = 2"
| "status_code QUEUE_STATUS_FATAL_ERROR = 3"
| "status_code QUEUE_STATUS_INVALID_ITEM = 4"

record MSGQueueItem =
  it_id :: int
  it_type :: int
  it_date :: int
  it_size :: int
  it_domain :: string
  it_from :: string
  it_to :: string
  it_attempts :: int
  it_lastAttempt :: int
  it_lastStatus :: int
  it_lastStatusCode :: string
  it_lastDiagnosticCode :: string
  it_smtpUser :: int
  it_b1gMailUser :: int
  it_deliveryStatusID :: int

record MSGQueueResult =
  rs_item :: MSGQueueItem
  rs_status :: eQueueStatus
  rs_statusInfo :: string
  rs_statusCode :: string
  rs_deliveredTo :: string
  rs_diagnosticCode :: string
  rs_apPointType :: int
  rs_apPointComment :: string

definition RowToMSGQueueItem :: "'x env_scheme \<Rightarrow> queue_row \<Rightarrow> MSGQueueItem" where
  "RowToMSGQueueItem e r =
     \<lparr>it_id = q_id r, it_type = q_type r, it_date = q_date r, it_size = q_size r,
      it_domain = sql_lower e (q_to_domain r), it_from = q_from r, it_to = q_to r,
      it_attempts = q_attempts r, it_lastAttempt = q_last_attempt r, it_lastStatus = q_last_status r,
      it_lastStatusCode = q_last_status_code r, it_lastDiagnosticCode = q_last_diagnostic_code r,
      it_smtpUser = q_smtp_user r, it_b1gMailUser = q_b1gmail_user r,
      it_deliveryStatusID = q_deliverystatusid r\<rparr>"

section \<open>The state of the runner\<close>

record mq_env = mta_env +
  gm_time :: "int \<Rightarrow> string"        \<comment> \<open>\<open>strftime\<close> of \<open>gmtime\<close> in the header date format\<close>

text \<open>The workers: the items that threads have taken; then the results in the order they came.\<close>

record mq =
  mq_world :: world
  threadPool :: "MSGQueueItem threadpool"
  working :: "MSGQueueItem list"
  results :: "MSGQueueResult list"
  greylistQueue :: "int list"
  localDomains :: "string set"
  moreQueueEntries :: bool

definition IsLocalDomain :: "mq \<Rightarrow> string \<Rightarrow> bool" where
  "IsLocalDomain s domain \<longleftrightarrow> domain \<in> localDomains s"

definition RefreshLocalDomains :: "'x env_scheme \<Rightarrow> mq \<Rightarrow> mq" where
  "RefreshLocalDomains e s = s\<lparr>localDomains := GetLocalDomains e (mq_world s)\<rparr>"

definition AddToGreylist :: "int \<Rightarrow> mq \<Rightarrow> mq" where
  "AddToGreylist addr s = s\<lparr>greylistQueue := greylistQueue s @ [addr]\<rparr>"

section \<open>Bounces\<close>

definition bounce_headers :: "'x mq_env_scheme \<Rightarrow> MSGQueueItem \<Rightarrow> string \<Rightarrow> string \<Rightarrow> (string \<times> string) list" where
  "bounce_headers e i boundary mid =
     [(''Return-Path'', ''<>''), (''To'', ''<'' @ it_from i @ ''>''),
      (''From'', DQUOTE # ''Mail Delivery System'' @ [DQUOTE] @ '' <'' @ MAILER_DAEMON_USER @ ''@'' @ cfg_str e ''b1gmta_host'' @ ''>''),
      (''Subject'', ''Returned mail: see error report for details''),
      (''Message-ID'', ''<'' @ mid @ ''@'' @ cfg_str e ''b1gmta_host'' @ ''>''),
      (''MIME-Version'', ''1.0''),
      (''Content-type'', ''multipart/report; report-type=delivery-status; boundary='' @ [DQUOTE] @ boundary @ [DQUOTE])]"

definition bounce_part :: "string \<Rightarrow> string list \<Rightarrow> string" where
  "bounce_part boundary hs = CRLF @ ''--'' @ boundary @ CRLF @ concat (map (\<lambda>h. h @ CRLF) hs) @ CRLF"

definition bounce_body ::
  "'x mq_env_scheme \<Rightarrow> string option \<Rightarrow> MSGQueueItem \<Rightarrow> MSGQueueResult \<Rightarrow> string \<Rightarrow> string" where
  "bounce_body e message i r boundary =
     ''This is a multi-part message in MIME format.'' @ CRLF @
     bounce_part boundary [''Content-Type: text/plain; charset='' @ [DQUOTE] @ ''US-ASCII'' @ [DQUOTE],
       ''Content-Transfer-Encoding: 8bit''] @
     ''The original message was received at '' @ gm_time e (it_date i) @ ''.'' @ CRLF @ CRLF @
     ''   ----- Error description -----'' @ CRLF @ rs_statusInfo r @ CRLF @ CRLF @
     ''   ----- The message was not delivered to the following addresses -----'' @ CRLF @
     ''<'' @ it_to i @ ''>'' @ CRLF @ CRLF @
     bounce_part boundary [''Content-Type: message/delivery-status'', ''Content-Transfer-Encoding: 8bit''] @
     ''Reporting-MTA: dns; '' @ cfg_str e ''b1gmta_host'' @ CRLF @
     ''Arrival-Date: '' @ time_text e (it_date i) @ CRLF @ CRLF @
     ''Final-Recipient: rfc822; '' @ it_to i @ CRLF @ ''Action: failed'' @ CRLF @
     (if rs_statusCode r \<noteq> [] then ''Status: '' @ rs_statusCode r @ CRLF else []) @
     (if rs_diagnosticCode r \<noteq> [] then ''Diagnostic-Code: '' @ rs_diagnosticCode r @ CRLF else []) @
     ''Last-Attempt-Date: '' @ time_text e (it_lastAttempt i) @ CRLF @ CRLF @
     bounce_part boundary [''Content-Type: message/rfc822'', ''Content-Transfer-Encoding: 8bit'',
       ''Content-Disposition: attachment; filename='' @ [DQUOTE] @ ''returned-message.eml'' @ [DQUOTE]] @
     (case message of Some d \<Rightarrow> d | None \<Rightarrow> ''The original message was lost.'' @ CRLF) @
     CRLF @ ''--'' @ boundary @ ''--'' @ CRLF"

text \<open>The bounce: whether one was enqueued. \<open>None\<close> is the endless search for a queue id.\<close>

definition bounce_args :: "MSGQueueItem \<Rightarrow> (string \<times> string) list \<Rightarrow> string \<Rightarrow> int \<Rightarrow> enqueue_args" where
  "bounce_args i hs body returnPathUser =
     \<lparr>qa_headers = hs, qa_body = body,
      qa_type = (if returnPathUser = 0 then MESSAGE_OUTBOUND else MESSAGE_INBOUND),
      qa_from = [], qa_to = it_from i, qa_smtp_user = 0, qa_write_headers = False,
      qa_write_message_id = False, qa_write_date = False, qa_helo = [], qa_peer = [],
      qa_peer_host = [], qa_b1gmail_user = BMUSER_SYSTEM, qa_instant_release = True, qa_tls = False,
      qa_dsid = 0\<rparr>"

definition BounceMessage ::
  "'x mq_env_scheme \<Rightarrow> world \<Rightarrow> MSGQueueItem \<Rightarrow> MSGQueueResult \<Rightarrow> (bool \<times> world) option" where
  "BounceMessage e w i r =
     (if length (it_from i) < 5 \<or> strcaseeq (it_from i) (it_to i) then Some (False, w)
      else let returnPathUser = LookupUser e w (it_from i) False False;
               (key, w1) = MakeRandomKey 32 w;
               (mid, w2) = MakeRandomKey 32 w1;
               boundary = ''--Boundary-=_'' @ key;
               message = files w2 (QueueFileNameStr e (it_id i));
               a = bounce_args i (bounce_headers e i boundary mid) (bounce_body e message i r boundary) returnPathUser
           in map_option (\<lambda>(j, w3). (0 < j, w3)) (EnqueueMessage e w2 a))"

section \<open>Results\<close>

definition remove_item :: "'x env_scheme \<Rightarrow> int \<Rightarrow> world \<Rightarrow> world" where
  "remove_item e i w = unlink (QueueFileNameStr e i) (delete_queue_rows (\<lambda>j. j = i) w)"

text \<open>Giving up on an item: a bounce if the return path is long enough, then the removal.\<close>

definition give_up :: "'x mq_env_scheme \<Rightarrow> world \<Rightarrow> MSGQueueItem \<Rightarrow> MSGQueueResult \<Rightarrow> world option" where
  "give_up e w i r =
     map_option (\<lambda>w1. SetMailDeliveryStatus e (remove_item e (it_id i) w1) (it_deliveryStatusID i)
                        MDSTATUS_DELIVERY_FAILED None)
       (if length (it_from i) > 3 then map_option snd (BounceMessage e w i r) else Some w)"

definition retry_later :: "'x env_scheme \<Rightarrow> world \<Rightarrow> MSGQueueItem \<Rightarrow> MSGQueueResult \<Rightarrow> world" where
  "retry_later e w i r =
     SetMailDeliveryStatus e
       (update_queue_rows (\<lambda>j. j = it_id i)
          (\<lambda>q. q\<lparr>q_active := 0, q_attempts := it_attempts i, q_last_attempt := it_lastAttempt i,
                 q_last_status := it_lastStatus i, q_last_status_info := rs_statusInfo r,
                 q_last_status_code := rs_statusCode r, q_last_diagnostic_code := rs_diagnosticCode r\<rparr>) w)
       (it_deliveryStatusID i) MDSTATUS_DELIVERY_DEFERRED None"

definition result_abuse :: "'x env_scheme \<Rightarrow> MSGQueueItem \<Rightarrow> MSGQueueResult \<Rightarrow> world \<Rightarrow> world" where
  "result_abuse e i r w =
     (if 0 < rs_apPointType r \<and> (0 < it_smtpUser i \<or> 0 < it_b1gMailUser i)
      then AddAbusePoint e w (if 0 < it_b1gMailUser i then it_b1gMailUser i else it_smtpUser i)
             (rs_apPointType r) (rs_apPointComment r)
      else w)"

definition ProcessResult :: "'x mq_env_scheme \<Rightarrow> world \<Rightarrow> MSGQueueResult \<Rightarrow> world option" where
  "ProcessResult e w r =
     (let i = (rs_item r)\<lparr>it_lastStatus := status_code (rs_status r)\<rparr>
      in map_option (result_abuse e i r)
           (case rs_status r of
              QUEUE_STATUS_SUCCESS \<Rightarrow>
                Some (SetMailDeliveryStatus e (remove_item e (it_id i) w) (it_deliveryStatusID i)
                        MDSTATUS_DELIVERED_BY_MTA (Some (rs_deliveredTo r)))
            | QUEUE_STATUS_FATAL_ERROR \<Rightarrow> give_up e w i r
            | _ \<Rightarrow>
                let i1 = i\<lparr>it_attempts := it_attempts i + 1, it_lastAttempt := now w\<rparr>
                in if it_date i1 + cfg_int e ''queue_lifetime'' < now w then give_up e w i1 r
                   else Some (retry_later e w i1 r)))"

fun process_all :: "'x mq_env_scheme \<Rightarrow> MSGQueueResult list \<Rightarrow> world \<Rightarrow> world option" where
  "process_all e [] w = Some w"
| "process_all e (r # rs) w =
     (case ProcessResult e w r of None \<Rightarrow> None | Some w1 \<Rightarrow> process_all e rs w1)"

text \<open>
  An address for the greylist. The query for an existing row has a format directive without an
  argument, so what it finds is undefined: \<open>found\<close> is the position of the row it happens to
  find for the \<open>k\<close>-th address, if any.
\<close>

definition greylist_add :: "nat option \<Rightarrow> int \<Rightarrow> world \<Rightarrow> world" where
  "greylist_add found addr w =
     (case found of
        Some k \<Rightarrow> w\<lparr>greylist := (greylist w)[k := (greylist w ! k)\<lparr>gl_time := now w, gl_confirmed := 1\<rparr>]\<rparr>
      | None \<Rightarrow> w\<lparr>greylist := greylist w @
                   [\<lparr>gl_ip = show_int (to_int32 addr), gl_ip6 = [], gl_time = now w, gl_confirmed = 1\<rparr>]\<rparr>)"

definition ProcessResults :: "'x mq_env_scheme \<Rightarrow> (nat \<Rightarrow> nat option) \<Rightarrow> mq \<Rightarrow> mq option" where
  "ProcessResults e found s =
     map_option (\<lambda>w. s\<lparr>mq_world := fold (\<lambda>(k, a). greylist_add (found k) a) (enumerate 0 (greylistQueue s)) w,
                       results := [], greylistQueue := []\<rparr>)
       (process_all e (results s) (mq_world s))"

section \<open>Reading the queue\<close>

text \<open>Rows that were marked for deletion and are not being delivered.\<close>

definition delete_marked :: "'x env_scheme \<Rightarrow> world \<Rightarrow> world" where
  "delete_marked e w =
     fold (\<lambda>r. remove_item e (q_id r)) (filter (\<lambda>r. q_deleted r = 1 \<and> q_active r = 0) (msgqueue w)) w"

definition due :: "'x env_scheme \<Rightarrow> world \<Rightarrow> queue_row \<Rightarrow> bool" where
  "due e w r \<longleftrightarrow> q_deleted r = 0 \<and> q_active r = 0 \<and>
     q_last_attempt r < now w - q_attempts r * cfg_int e ''queue_retry''"

definition due_rows :: "'x env_scheme \<Rightarrow> world \<Rightarrow> queue_row list" where
  "due_rows e w = sort_key (\<lambda>r. (q_attempts r, q_last_attempt r, q_id r)) (filter (due e w) (msgqueue w))"

definition items_to_read :: "mq \<Rightarrow> nat" where
  "items_to_read s = QUEUE_RUN_MAX - length (tp_queue (threadPool s))"

definition fetch_due :: "'x env_scheme \<Rightarrow> mq \<Rightarrow> mq" where
  "fetch_due e s =
     (let w = mq_world s; n = items_to_read s; found = take (n + 1) (due_rows e w);
          work = map (RowToMSGQueueItem e) (take n found)
      in s\<lparr>moreQueueEntries := length found > n,
           threadPool := fold addToQueue work (threadPool s),
           mq_world := (if work = [] then w
                        else update_queue_rows (\<lambda>i. i \<in> it_id ` set work) (\<lambda>r. r\<lparr>q_active := 1\<rparr>) w)\<rparr>)"

definition ProcessQueue :: "'x env_scheme \<Rightarrow> mq \<Rightarrow> mq" where
  "ProcessQueue e s = fetch_due e (s\<lparr>mq_world := delete_marked e (mq_world s)\<rparr>)"

section \<open>Start and end\<close>

text \<open>\<open>Run\<close> first releases whatever was active when the last runner ended.\<close>

definition reanimate :: "world \<Rightarrow> world" where
  "reanimate w =
     w\<lparr>msgqueue := map (\<lambda>r. if q_active r = 1
        then r\<lparr>q_active := 0, q_attempts := q_attempts r + 1, q_last_attempt := now w,
               q_last_status := status_code QUEUE_STATUS_UNKNOWN_ERROR,
               q_last_status_info := ''Deferred after unexpected termination.'',
               q_last_status_code := ''4.0.0'', q_last_diagnostic_code := []\<rparr>
        else r) (msgqueue w)\<rparr>"

definition start_runner :: "'x env_scheme \<Rightarrow> world \<Rightarrow> mq" where
  "start_runner e w =
     RefreshLocalDomains e
       \<lparr>mq_world = reanimate w,
        threadPool = tp_start (new_ThreadPool (nat (cfg_int e ''queue_threads'')) (nat (cfg_int e ''queue_maxthreads''))),
        working = [], results = [], greylistQueue = [], localDomains = {}, moreQueueEntries = False\<rparr>"

definition ClearQueue :: "mq \<Rightarrow> mq" where
  "ClearQueue s =
     (let q = tp_queue (threadPool s)
      in if q = [] then s
         else s\<lparr>threadPool := (threadPool s)\<lparr>tp_queue := []\<rparr>,
                mq_world := update_queue_rows (\<lambda>i. i \<in> it_id ` set q) (\<lambda>r. r\<lparr>q_active := 0\<rparr>) (mq_world s)\<rparr>)"

end
