(* ===== verification/Socket.thy ===== *)
theory Socket
  imports Prelude
begin

text \<open>
  The client sockets (\<open>Socket\<close> in src/core/socket.cpp) as the queue runner's control channel and
  the SMTP client use them: what the peer sends in the clear and later through TLS, whether the
  end of it is a timeout or a closed connection, what was written, and how many bytes the system
  takes at each of the next writes (\<open>None\<close> and the end of the list for any number). Name lookup,
  connecting and the TLS handshake are parameters of the clients.
\<close>

record sock =
  sk_in :: string
  sk_tls_in :: string
  sk_stalls :: bool
  sk_out :: string
  sk_room :: "nat option list"

text \<open>
  \<open>Write\<close>: the number of bytes that the system took, -1 for an error, or the exception of a
  timeout. A partial write takes what there is room for.
\<close>

datatype wresult = Wrote int | WriteTimeout

definition sk_Write :: "string \<Rightarrow> sock \<Rightarrow> wresult \<times> sock" where
  "sk_Write t s =
     (let s1 = s\<lparr>sk_room := tl (sk_room s)\<rparr>; n = (case sk_room s of Some n # _ \<Rightarrow> min n (length t) | _ \<Rightarrow> length t)
      in if n = 0 \<and> t \<noteq> [] then (if sk_stalls s then WriteTimeout else Wrote (-1), s1)
         else (Wrote (int n), s1\<lparr>sk_out := sk_out s @ take n t\<rparr>))"

text \<open>After the handshake the peer is heard through TLS; the same stream of bytes is written.\<close>

definition sk_tls :: "sock \<Rightarrow> sock" where
  "sk_tls s = s\<lparr>sk_in := sk_tls_in s, sk_tls_in := []\<rparr>"

text \<open>
  \<open>ReadLine\<close> fills the buffer byte by byte up to a newline, its last byte included. An empty line
  leaves the pointer where it was, so it is the NULL of a closed connection. The content ends at
  its first NUL; when all \<open>n\<close> bytes were stored there is none, and the string runs into whatever
  follows: the model takes that to be a NUL.
\<close>

datatype line = Line string | NoLine | ReadTimeout

definition sk_ReadLine :: "nat \<Rightarrow> sock \<Rightarrow> line \<times> sock" where
  "sk_ReadLine n s =
     (let (a, b) = fgets_upto n (sk_in s); t = s\<lparr>sk_in := b\<rparr>
      in if length a < n \<and> (a = [] \<or> last a \<noteq> NL) \<and> sk_stalls s then (ReadTimeout, t)
         else if a = [] \<or> a = [NL] then (NoLine, t)
         else (Line (cstr a), t))"

definition unterminated :: "nat \<Rightarrow> sock \<Rightarrow> bool" where
  "unterminated n s \<longleftrightarrow> length (fst (fgets_upto n (sk_in s))) = n"

section \<open>Reading\<close>

lemma sk_simps [simp]:
  "sk_in (snd (sk_Write t s)) = sk_in s" "sk_stalls (snd (sk_Write t s)) = sk_stalls s"
  "sk_tls_in (snd (sk_Write t s)) = sk_tls_in s"
  by (simp_all add: sk_Write_def Let_def)

lemma sk_Write_all:
  "sk_room s = [] \<Longrightarrow> sk_Write t s = (Wrote (int (length t)), s\<lparr>sk_out := sk_out s @ t\<rparr>)"
  by (simp add: sk_Write_def)

text \<open>What a peer gets is a prefix of what is written, all of it if the count says so.\<close>

lemma sk_Write_prefix: "\<exists>n. sk_out (snd (sk_Write t s)) = sk_out s @ take n t"
  by (auto simp: sk_Write_def Let_def intro: exI [of _ 0])

lemma sk_Write_count:
  "sk_Write t s = (Wrote (int (length t)), s') \<Longrightarrow> sk_out s' = sk_out s @ t \<and> sk_in s' = sk_in s"
  by (auto simp: sk_Write_def Let_def split: if_splits)

lemma fgets_upto_nl:
  "NL \<notin> set l \<Longrightarrow> length l < n \<Longrightarrow> fgets_upto n (l @ NL # r) = (l @ [NL], r)"
proof (induction l arbitrary: n)
  case Nil
  then show ?case by (cases n) simp_all
next
  case (Cons c l)
  then obtain m where "n = Suc m" by (cases n) auto
  with Cons show ?case by auto
qed

text \<open>A line that fits is read whole, and the input after it stays.\<close>

lemma ReadLine_line:
  assumes "NL \<notin> set l" and "NUL \<notin> set l" and "l \<noteq> []" and "length l < n" and "sk_in s = l @ NL # r"
  shows "sk_ReadLine n s = (Line (l @ [NL]), s\<lparr>sk_in := r\<rparr>)"
proof -
  have "cstr (l @ [NL]) = l @ [NL]" using assms(2) by (intro cstr_id) simp_all
  then show ?thesis using fgets_upto_nl [OF assms(1,4)] assms(3,5) by (simp add: sk_ReadLine_def)
qed

text \<open>An empty line is indistinguishable from a closed connection.\<close>

lemma ReadLine_empty_line: "0 < n \<Longrightarrow> sk_in s = NL # r \<Longrightarrow> fst (sk_ReadLine n s) = NoLine"
  by (cases n) (simp_all add: sk_ReadLine_def)

lemma ReadLine_out [simp]: "sk_out (snd (sk_ReadLine n s)) = sk_out s"
  by (simp add: sk_ReadLine_def Let_def split_beta)

lemma ReadLine_stalls [simp]: "sk_stalls (snd (sk_ReadLine n s)) = sk_stalls s"
  by (simp add: sk_ReadLine_def Let_def split_beta)

lemma ReadLine_in: "sk_ReadLine n s = (l, t) \<Longrightarrow> \<exists>a. sk_in s = a @ sk_in t \<and> length a \<le> n"
proof -
  assume r: "sk_ReadLine n s = (l, t)"
  obtain a b where ab: "fgets_upto n (sk_in s) = (a, b)" by fastforce
  then have "sk_in t = b" using r by (auto simp: sk_ReadLine_def Let_def split: if_splits)
  then show ?thesis using fgets_upto_split [OF ab] by blast
qed

text \<open>A reading that yields a line consumes input.\<close>

lemma ReadLine_consumes: "sk_ReadLine n s = (Line l, t) \<Longrightarrow> length (sk_in t) < length (sk_in s)"
proof -
  assume r: "sk_ReadLine n s = (Line l, t)"
  obtain a b where ab: "fgets_upto n (sk_in s) = (a, b)" by fastforce
  then have "sk_in t = b" "a \<noteq> []" using r by (auto simp: sk_ReadLine_def Let_def split: if_splits)
  then show ?thesis using fgets_upto_split [OF ab] by simp
qed

lemma fgets_upto_full: "n \<le> length s \<Longrightarrow> NL \<notin> set (take n s) \<Longrightarrow> fgets_upto n s = (take n s, drop n s)"
  by (induction n s rule: fgets_upto.induct) auto

lemma ReadLine_unterminated: "n \<le> length (sk_in s) \<Longrightarrow> NL \<notin> set (take n (sk_in s)) \<Longrightarrow> unterminated n s"
  by (simp add: unterminated_def fgets_upto_full)

lemma ReadLine_prefix: "sk_ReadLine n s = (Line l, t) \<Longrightarrow> \<exists>b. sk_in s = l @ b"
proof -
  assume r: "sk_ReadLine n s = (Line l, t)"
  obtain a b where ab: "fgets_upto n (sk_in s) = (a, b)" by fastforce
  then have "l = cstr a" using r by (auto simp: sk_ReadLine_def Let_def split: if_splits)
  then have "l = takeWhile (\<lambda>c. c \<noteq> NUL) a" by (simp add: cstr_def)
  then have "sk_in s = l @ dropWhile (\<lambda>c. c \<noteq> NUL) a @ b" using fgets_upto_split [OF ab] by simp
  then show ?thesis by blast
qed

end
