(* ===== verification/SmtpClient.thy ===== *)
theory SmtpClient
  imports MsgQueue Socket UtilsBase64
begin

text \<open>
  The SMTP client of the queue runner (src/msgqueue/smtpsession.cpp) and its pool of sessions
  (src/msgqueue/smtpsessionpool.cpp). Connecting, the TLS handshake and the TLSA lookup are
  parameters; everything the peer says is the input of the socket. An operation ends with a value
  or with an exception: a delivery failure, or a socket exception that no caller catches.
\<close>

section \<open>State\<close>

record TLSARecord =
  tlsa_usage :: int
  tlsa_selector :: int
  tlsa_matchingType :: int
  tlsa_value :: string

record DANEResult =
  usingDANE :: bool
  dane_verified :: bool
  dane_depth :: int
  verifiedUsage :: int
  verifiedSelector :: int
  verifiedMType :: int
  usableRecords :: int

definition no_DANE :: DANEResult where
  "no_DANE = \<lparr>usingDANE = False, dane_verified = False, dane_depth = -1, verifiedUsage = 255,
     verifiedSelector = 255, verifiedMType = 255, usableRecords = 0\<rparr>"

record DeliveryException =
  de_host :: string
  de_statusInfo :: string
  de_errorCode :: eQueueStatus
  de_statusCode :: string
  de_diagnosticCode :: string

datatype fault = Delivery DeliveryException | CoreException string | NullSocket

record client_env = mq_env +
  tcp_connect :: "string \<Rightarrow> int \<Rightarrow> string + sock"   \<comment> \<open>host, port; the message of the exception\<close>
  tls_connect :: "TLSARecord list \<Rightarrow> string \<Rightarrow> string \<Rightarrow> sock \<Rightarrow> string + DANEResult"
  TLSALookup :: "string \<Rightarrow> int \<Rightarrow> TLSARecord list"

record smtp_session =
  ss_domain :: string
  ss_host :: string
  ss_port :: int
  lastUse :: int
  sessionActive :: bool
  addedToGreylist :: bool
  authenticated :: bool
  isMXConnection :: bool
  tlsSupported :: bool
  useTLS :: bool
  useTLSA :: bool
  mxAuthenticated :: bool
  tlsActive :: bool
  isDirty :: bool
  sizeSupported :: bool
  tlsaRecords :: "TLSARecord list"
  daneResult :: DANEResult
  ss_sock :: "sock option"
  ss_greylisted :: bool          \<comment> \<open>the peer's address was handed to \<open>AddToGreylist\<close>\<close>

definition new_SMTPSession :: "string \<Rightarrow> string \<Rightarrow> int \<Rightarrow> int \<Rightarrow> smtp_session" where
  "new_SMTPSession domain host port t =
     \<lparr>ss_domain = domain, ss_host = host, ss_port = port, lastUse = t, sessionActive = False,
      addedToGreylist = False, authenticated = False, isMXConnection = False, tlsSupported = False,
      useTLS = False, useTLSA = False, mxAuthenticated = False, tlsActive = False, isDirty = True,
      sizeSupported = False, tlsaRecords = [], daneResult = no_DANE, ss_sock = None, ss_greylisted = False\<rparr>"

section \<open>Operations that may throw\<close>

type_synonym 'a call = "smtp_session \<Rightarrow> (fault + 'a) \<times> smtp_session"

definition ret :: "'a \<Rightarrow> 'a call" where "ret a s = (Inr a, s)"

definition throw :: "fault \<Rightarrow> 'a call" where "throw f s = (Inl f, s)"

definition after :: "'a call \<Rightarrow> ('a \<Rightarrow> 'b call) \<Rightarrow> 'b call" where
  "after m f s = (case m s of (Inl x, t) \<Rightarrow> (Inl x, t) | (Inr a, t) \<Rightarrow> f a t)"

definition modify :: "(smtp_session \<Rightarrow> smtp_session) \<Rightarrow> unit call" where "modify f s = (Inr (), f s)"

definition fails :: "string \<Rightarrow> eQueueStatus \<Rightarrow> string \<Rightarrow> string \<Rightarrow> 'a call" where
  "fails info st sc diag s =
     (Inl (Delivery \<lparr>de_host = ss_host s, de_statusInfo = info, de_errorCode = st, de_statusCode = sc,
        de_diagnosticCode = diag\<rparr>), s)"

text \<open>Writing: the number of bytes that were taken; a timeout is an exception of the socket.\<close>

definition ss_Write :: "string \<Rightarrow> int call" where
  "ss_Write t s =
     (case ss_sock s of
        None \<Rightarrow> (Inl NullSocket, s)
      | Some k \<Rightarrow> (case sk_Write t k of
          (Wrote n, k') \<Rightarrow> (Inr n, s\<lparr>ss_sock := Some k'\<rparr>)
        | (WriteTimeout, k') \<Rightarrow> (Inl (CoreException ''Socket write timeout''), s\<lparr>ss_sock := Some k'\<rparr>)))"

definition ss_PrintF :: "string \<Rightarrow> unit call" where
  "ss_PrintF t = after (ss_Write t) (\<lambda>_. ret ())"

section \<open>Responses\<close>

text \<open>
  The lines of a response, concatenated: a line whose fourth character is a minus sign is followed
  by another. The buffer has 513 bytes.
\<close>

function response_lines :: "sock \<Rightarrow> string \<Rightarrow> line \<times> string \<times> sock" where
  "response_lines k acc =
     (case sk_ReadLine 513 k of
        (Line l, k') \<Rightarrow> if 3 < length l \<and> l ! 3 = CHR ''-'' then response_lines k' (acc @ l)
                         else (Line l, acc @ l, k')
      | (x, k') \<Rightarrow> (x, acc, k'))"
  by pat_completeness auto

termination
  by (relation "measure (\<lambda>(k, _). length (sk_in k))") (auto dest: ReadLine_consumes [OF sym])

declare response_lines.simps [simp del]

definition readResponse :: "string call" where
  "readResponse s =
     (case ss_sock s of
        None \<Rightarrow> (Inl NullSocket, s)
      | Some k \<Rightarrow>
          (case response_lines k [] of
             (x, r, k') \<Rightarrow>
               let t = s\<lparr>ss_sock := Some k'\<rparr>
               in case x of
                    NoLine \<Rightarrow> fails ''Failed to read SMTP response.'' QUEUE_STATUS_TEMPORARY_ERROR ''4.4.2'' [] t
                  | ReadTimeout \<Rightarrow> fails ''Failed to read SMTP response: Socket read timeout''
                      QUEUE_STATUS_TEMPORARY_ERROR ''4.4.2'' [] t
                  | Line _ \<Rightarrow> if r = [] then fails ''Empty SMTP response.'' QUEUE_STATUS_TEMPORARY_ERROR ''4.5.0'' [] t
                               else (Inr r, t)))"

text \<open>The exception for a response that is not the expected one: its class decides.\<close>

definition throwError :: "string \<Rightarrow> string \<Rightarrow> string \<Rightarrow> string \<Rightarrow> string \<Rightarrow> string \<Rightarrow> string \<Rightarrow> 'a call" where
  "throwError response tempMsg fatalMsg elseMsg tempStatusCode fatalStatusCode elseStatusCode =
     (let answer = CRLF @ ''Server answered: '' @ [DQUOTE] @ Trim response blanks @ [DQUOTE];
          diag = ''smtp; '' @ response
      in if starts_with ''4'' response then fails (tempMsg @ answer) QUEUE_STATUS_TEMPORARY_ERROR tempStatusCode diag
         else if starts_with ''5'' response then fails (fatalMsg @ answer) QUEUE_STATUS_FATAL_ERROR fatalStatusCode diag
         else fails (elseMsg @ answer) QUEUE_STATUS_TEMPORARY_ERROR elseStatusCode diag)"

text \<open>A command and the test of its response; what follows if the response begins as expected.\<close>

definition ask :: "string \<Rightarrow> string call" where
  "ask t = after (ss_PrintF t) (\<lambda>_. readResponse)"

section \<open>The commands\<close>

definition ss_rset :: "unit call" where
  "ss_rset s =
     (if \<not> isDirty s then (Inr (), s)
      else after (ask (''RSET'' @ CRLF)) (\<lambda>r.
             if \<not> starts_with ''250'' r
             then fails ''SMTP session reset failed.'' QUEUE_STATUS_TEMPORARY_ERROR ''4.5.0'' (''smtp; '' @ r)
             else modify (\<lambda>s. s\<lparr>isDirty := False\<rparr>)) s)"

definition ehlo_text :: "'x env_scheme \<Rightarrow> string" where
  "ehlo_text e = ''EHLO '' @ cfg_str e ''b1gmta_host'' @ CRLF"

definition ehlo_over_tls :: "'x env_scheme \<Rightarrow> unit call" where
  "ehlo_over_tls e =
     after (ask (ehlo_text e)) (\<lambda>r.
       if \<not> starts_with ''250'' r
       then fails ''EHLO after STARTTLS failed'' QUEUE_STATUS_TEMPORARY_ERROR ''4.5.0'' (''smtp; '' @ r)
       else modify (\<lambda>s. s\<lparr>isDirty := False, tlsActive := True\<rparr>))"

definition handshake :: "'x client_env_scheme \<Rightarrow> unit call" where
  "handshake e s =
     (case ss_sock s of
        None \<Rightarrow> (Inl NullSocket, s)
      | Some k \<Rightarrow>
          (case tls_connect e (tlsaRecords s) (ss_host s) (ss_domain s) k of
             Inl err \<Rightarrow> fails (''TLS initiation failed: '' @ err) QUEUE_STATUS_TEMPORARY_ERROR ''4.4.2'' [] s
           | Inr d \<Rightarrow> ehlo_over_tls e (s\<lparr>ss_sock := Some (sk_tls k), daneResult := d\<rparr>)))"

text \<open>A refusal of STARTTLS is not an error here: the session goes on without TLS.\<close>

definition startTLS :: "'x client_env_scheme \<Rightarrow> unit call" where
  "startTLS e =
     after (ask (''STARTTLS'' @ CRLF)) (\<lambda>r. if \<not> starts_with ''220'' r then ret () else handshake e)"

definition auth_rejected :: "string \<Rightarrow> 'a call" where
  "auth_rejected r =
     throwError r ''Server temporarily rejected AUTH LOGIN command.'' ''Server rejected AUTH LOGIN command.''
       ''Unexpected server response (AUTH LOGIN).'' ''4.3.5'' ''5.3.5'' ''4.5.0''"

definition b64_line :: "string \<Rightarrow> string" where
  "b64_line t = Base64Encode False (map byte_of (cstr t)) @ CRLF"

definition ss_auth :: "string \<Rightarrow> string \<Rightarrow> unit call" where
  "ss_auth user pass s =
     (if authenticated s then (Inr (), s)
      else after (ask (''AUTH LOGIN'' @ CRLF)) (\<lambda>r.
             if \<not> starts_with ''334'' r then auth_rejected r
             else after (ask (b64_line user)) (\<lambda>r.
               if \<not> starts_with ''334'' r then auth_rejected r
               else after (ask (b64_line pass)) (\<lambda>r.
                 if \<not> starts_with ''235'' r
                 then throwError r ''Server temporarily rejected credentials.'' ''Server rejected credentials.''
                        ''Unexpected server response (AUTH LOGIN after credentials submission).''
                        ''4.3.0'' ''5.3.0'' ''4.3.0''
                 else modify (\<lambda>s. s\<lparr>authenticated := True\<rparr>)))) s)"

definition ss_mailFrom :: "string \<Rightarrow> int \<Rightarrow> unit call" where
  "ss_mailFrom returnPath mailSize s =
     after (ask (''MAIL FROM:<'' @ cstr returnPath @ ''>'' @
                 (if sizeSupported s \<and> 0 < mailSize then '' SIZE='' @ show_int mailSize else []) @ CRLF)) (\<lambda>r.
       if \<not> starts_with ''250'' r
       then throwError r ''Server temporarily rejected return path.'' ''Server rejected return path.''
              ''Unexpected server response (MAIL FROM).'' ''4.0.0'' ''5.0.0.'' ''4.0.0''
       else ret ()) (s\<lparr>isDirty := True\<rparr>)"

definition ss_rcptTo :: "string \<Rightarrow> unit call" where
  "ss_rcptTo recipient s =
     after (ask (''RCPT TO:<'' @ cstr recipient @ ''>'' @ CRLF)) (\<lambda>r.
       if \<not> starts_with ''250'' r
       then throwError r ''Server temporarily rejected recipient.'' ''Server rejected recipient.''
              ''Unexpected server response (RCPT TO).'' ''4.0.0'' ''5.0.0'' ''4.5.0''
       else ret ()) (s\<lparr>isDirty := True\<rparr>)"

section \<open>The message\<close>

definition MAIL_LINEMAX :: nat where "MAIL_LINEMAX = 1001"

definition sent_line :: "string \<Rightarrow> string" where
  "sent_line b = drop_last_while (\<lambda>x. x = NL \<or> x = CR) b @ CRLF"

text \<open>
  The loop over the queue file: a line of at most 1000 bytes up to its first NUL, its line end made
  CR LF, a leading dot doubled. It ends with the file, at an empty string or when fewer bytes were
  taken than given.
\<close>

function send_lines :: "string \<Rightarrow> unit call" where
  "send_lines d s =
     (case fgets MAIL_LINEMAX d of
        None \<Rightarrow> (Inr (), s)
      | Some (c, rest) \<Rightarrow>
          if cstr c = [] then (Inr (), s)
          else let l = sent_line (cstr c)
               in case (if hd l = CHR ''.'' then ss_Write ''.'' s else (Inr 0, s)) of
                    (Inl x, t) \<Rightarrow> (Inl x, t)
                  | (Inr _, t) \<Rightarrow>
                      (case ss_Write l t of
                         (Inl x, u) \<Rightarrow> (Inl x, u)
                       | (Inr n, u) \<Rightarrow> if n \<noteq> int (length l) then (Inr (), u) else send_lines rest u))"
  by pat_completeness auto

termination
  by (relation "measure (\<lambda>(d, s). length d)") (auto simp: MAIL_LINEMAX_def dest: fgets_decreases)

declare send_lines.simps [simp del]

definition ss_data :: "int \<Rightarrow> string \<Rightarrow> unit call" where
  "ss_data t stream s =
     after (ask (''DATA'' @ CRLF)) (\<lambda>r.
       if \<not> starts_with ''354'' r
       then throwError r ''Server temporarily rejected DATA command.'' ''Server rejected DATA command.''
              ''Unexpected server response (DATA).'' ''4.0.0'' ''5.0.0'' ''4.5.0''
       else after (send_lines stream) (\<lambda>_.
              after (ask (CRLF @ ''.'' @ CRLF)) (\<lambda>r.
                if \<not> starts_with ''250'' r
                then throwError r ''Server temporarily rejected message.'' ''Server rejected message.''
                       ''Unexpected server response (message).'' ''4.0.0'' ''5.0.0'' ''4.5.0''
                else modify (\<lambda>s. s\<lparr>lastUse := t\<rparr>)))) (s\<lparr>isDirty := True\<rparr>)"

section \<open>Begin and end\<close>

definition addToGreylist :: "'x env_scheme \<Rightarrow> unit call" where
  "addToGreylist e s =
     (if \<not> cfg_is1 e ''grey_enabled'' \<or> addedToGreylist s then (Inr (), s)
      else (Inr (), s\<lparr>ss_greylisted := True, addedToGreylist := True\<rparr>))"

definition remoteHostName :: "string \<Rightarrow> string" where
  "remoteHostName r = (if 6 \<le> length r then takeWhile (\<lambda>c. c \<noteq> CHR '' '') (drop 4 r) else [])"

definition extension :: "string \<Rightarrow> string \<Rightarrow> bool" where
  "extension x r \<longleftrightarrow> find_sub (''-'' @ x) r \<noteq> None \<or> find_sub ('' '' @ x) r \<noteq> None"

text \<open>What follows an accepted EHLO or HELO.\<close>

definition greeted :: "'x client_env_scheme \<Rightarrow> string \<Rightarrow> unit call" where
  "greeted e r s =
     (if cfg_str e ''b1gmta_host'' = remoteHostName r
      then fails ''Mail loops back to myself.'' QUEUE_STATUS_FATAL_ERROR ''5.4.6'' [] s
      else let s1 = s\<lparr>tlsSupported := extension (''STARTTLS'' @ CRLF) r, sizeSupported := extension ''SIZE'' r\<rparr>;
               dane = useTLSA s1 \<and> tlsaRecords s1 \<noteq> []
           in if dane \<and> \<not> tlsSupported s1
              then fails ''STARTTLS not supported despite published TLSA records!'' QUEUE_STATUS_TEMPORARY_ERROR ''4.3.0'' [] s1
              else after (if dane \<or> (tlsSupported s1 \<and> useTLS s1) then startTLS e else ret ()) (\<lambda>_.
                     after (modify (\<lambda>s. s\<lparr>sessionActive := True, isDirty := False\<rparr>)) (\<lambda>_ s.
                       if isMXConnection s then addToGreylist e s else (Inr (), s))) s1)"

definition greet :: "'x client_env_scheme \<Rightarrow> bool \<Rightarrow> unit call" where
  "greet e ehlo =
     after readResponse (\<lambda>r.
       if \<not> starts_with ''220'' r
       then throwError r ''Temporary server error (init).'' ''Fatal server error (init).''
              ''Unexpected server response (init).'' ''4.0.0'' ''5.0.0'' ''4.5.0''
       else after (ask (ehlo_text e)) (\<lambda>r1.
         after (if starts_with ''500'' r1 \<or> starts_with ''502'' r1 \<or> starts_with ''503'' r1
                then if ehlo
                     then throwError r1 ''Server seems to temporarily not support the EHLO command.''
                            ''Server seems not to support the EHLO command.'' ''Unexpected SMTP response (EHLO).''
                            ''4.0.0'' ''5.0.0'' ''4.5.0''
                     else ask (''HELO '' @ cfg_str e ''b1gmta_host'' @ CRLF)
                else ret r1) (\<lambda>r2.
           if starts_with ''250'' r2 then greeted e r2
           else throwError r2 ''Server temporarily rejected our HELO hostname.'' ''Server rejected our HELO hostname.''
                  ''Unexpected SMTP response (HELO).'' ''4.0.0'' ''5.0.0'' ''4.5.0'')))"

text \<open>Socket exceptions become temporary delivery failures here, and only here.\<close>

definition beginSession :: "'x client_env_scheme \<Rightarrow> bool \<Rightarrow> unit call" where
  "beginSession e ehlo s =
     (if sessionActive s then (Inr (), s)
      else let s1 = s\<lparr>daneResult := no_DANE,
                      tlsaRecords := (if useTLSA s \<and> mxAuthenticated s then TLSALookup e (ss_host s) (ss_port s) else [])\<rparr>
           in case (case tcp_connect e (ss_host s1) (ss_port s1) of
                      Inl err \<Rightarrow> (Inl (CoreException err), s1)
                    | Inr k \<Rightarrow> greet e ehlo (s1\<lparr>ss_sock := Some k\<rparr>)) of
                (Inl (CoreException err), t) \<Rightarrow>
                  fails (if err = [] then ''Unknown exception'' else err) QUEUE_STATUS_TEMPORARY_ERROR ''4.0.0'' [] t
              | x \<Rightarrow> x)"

definition endSession :: "smtp_session \<Rightarrow> smtp_session" where
  "endSession s =
     (snd (if ss_sock s = None then (Inr (), s)
           else after (ask (''QUIT'' @ CRLF)) (\<lambda>_. ret ()) s))\<lparr>ss_sock := None, sessionActive := False\<rparr>"

section \<open>The pool\<close>

definition getSMTPSession ::
  "int \<Rightarrow> string \<Rightarrow> string \<Rightarrow> int \<Rightarrow> smtp_session list \<Rightarrow> smtp_session \<times> smtp_session list" where
  "getSMTPSession t domain host port pool =
     (case dropWhile (\<lambda>s. ss_domain s \<noteq> domain) pool of
        [] \<Rightarrow> (new_SMTPSession domain host port t, pool)
      | s # rest \<Rightarrow> (s, takeWhile (\<lambda>s. ss_domain s \<noteq> domain) pool @ rest))"

definition putBackSMTPSession :: "smtp_session \<Rightarrow> smtp_session list \<Rightarrow> smtp_session list" where
  "putBackSMTPSession s pool = pool @ [s]"

definition SMTP_SESSION_HOLDTIME :: int where "SMTP_SESSION_HOLDTIME = 10"

definition cleanUp :: "int \<Rightarrow> smtp_session list \<Rightarrow> smtp_session list" where
  "cleanUp t pool = filter (\<lambda>s. \<not> lastUse s < t - SMTP_SESSION_HOLDTIME) pool"

end
