(* ===== verification/Delivery.thy ===== *)
theory Delivery
  imports SmtpClient
begin

text \<open>
  The deliveries of the queue runner (src/msgqueue): delivery rules (deliveryrules.cpp,
  msgqueue_rule.cpp), outbound delivery to the sendmail program, a relay server or the MX servers
  of the domain (msgqueue_outbound.cpp), inbound delivery through the pipe program
  (msgqueue_inbound.cpp, inboundprocess.cpp, inboundprocesspool.cpp), and the worker that turns
  what happened into a result (msgqueue.cpp). Child processes (src/core/process.cpp), the MX
  lookup and regular expressions are parameters.
\<close>

section \<open>Environment and state\<close>

datatype pexit = Exited nat | Abnormal | Killed string    \<comment> \<open>the signal after the timeout\<close>

record deliv_env = client_env +
  pcre_compiles :: "string \<Rightarrow> bool \<Rightarrow> bool"
  MXLookup :: "string \<Rightarrow> bool \<Rightarrow> (string \<times> bool) list"     \<comment> \<open>domain, DNSSEC; hosts, authenticated\<close>
  can_run :: "string \<Rightarrow> bool"                              \<comment> \<open>\<open>Process::Open\<close>\<close>
  run_process :: "string \<Rightarrow> int \<Rightarrow> string \<Rightarrow> pexit"       \<comment> \<open>command, timeout, input\<close>
  pipe_says :: "string \<Rightarrow> string"                          \<comment> \<open>output of a kept process\<close>
  pipe_runs :: "string \<Rightarrow> bool"                            \<comment> \<open>what a process was told; \<open>IsRunning\<close>\<close>
  host_addr :: "string \<Rightarrow> int"                             \<comment> \<open>\<open>InAddr\<close> of a connection\<close>

record pipe =
  pp_says :: string
  pp_told :: string

record inbound_process =
  ip_keepAlive :: bool
  ip_proc :: "pipe option"
  ip_active :: bool
  ip_lastUse :: int

record DeliveryRule =
  dr_id :: int
  dr_mailType :: int
  dr_subject :: int
  dr_rule :: string
  dr_compiled :: bool
  dr_target :: int
  dr_targetParam :: string
  dr_flags :: int

record RelayServerInfo =
  rl_host :: string
  rl_port :: int
  rl_requiresAuth :: bool
  rl_user :: string
  rl_pass :: string

record delivery =
  dl_mq :: mq
  smtpPool :: "smtp_session list"
  inboundPool :: "inbound_process list"
  deliveryRules :: "DeliveryRule list"
  dl_bQuit :: bool

definition BMAP_SEND_RECP_LOCAL_INVALID :: int where "BMAP_SEND_RECP_LOCAL_INVALID = 4"
definition BMAP_SEND_RECP_DOMAIN_INVALID :: int where "BMAP_SEND_RECP_DOMAIN_INVALID = 5"

text \<open>A delivery works on the result it is given and on the runner's pools.\<close>

type_synonym work = "MSGQueueResult \<times> delivery \<Rightarrow> (fault + unit) \<times> MSGQueueResult \<times> delivery"

definition failing :: "string \<Rightarrow> string \<Rightarrow> eQueueStatus \<Rightarrow> string \<Rightarrow> fault" where
  "failing host info st sc =
     Delivery \<lparr>de_host = host, de_statusInfo = info, de_errorCode = st, de_statusCode = sc, de_diagnosticCode = []\<rparr>"

definition dl_now :: "delivery \<Rightarrow> int" where "dl_now d = now (mq_world (dl_mq d))"

definition queue_file :: "'x env_scheme \<Rightarrow> delivery \<Rightarrow> MSGQueueItem \<Rightarrow> string option" where
  "queue_file e d i = files (mq_world (dl_mq d)) (QueueFileNameStr e (it_id i))"

definition starts1 :: "'x env_scheme \<Rightarrow> string \<Rightarrow> bool" where
  "starts1 e k \<longleftrightarrow> starts_with ''1'' (cfg_str e k)"

section \<open>Rules\<close>

definition RULE_SUBJECT_DOMAIN :: int where "RULE_SUBJECT_DOMAIN = 0"
definition RULE_SUBJECT_FROM :: int where "RULE_SUBJECT_FROM = 1"
definition RULE_SUBJECT_TO :: int where "RULE_SUBJECT_TO = 2"
definition MESSAGE_TARGET_INBOUND :: int where "MESSAGE_TARGET_INBOUND = 0"
definition MESSAGE_TARGET_SENDMAIL :: int where "MESSAGE_TARGET_SENDMAIL = 1"
definition MESSAGE_TARGET_SMTPRELAY :: int where "MESSAGE_TARGET_SMTPRELAY = 2"
definition MESSAGE_TARGET_DELIVER_SELF :: int where "MESSAGE_TARGET_DELIVER_SELF = 3"

definition rule_caseless :: "DeliveryRule \<Rightarrow> bool" where "rule_caseless r \<longleftrightarrow> odd (dr_flags r)"
definition rule_regexp :: "DeliveryRule \<Rightarrow> bool" where "rule_regexp r \<longleftrightarrow> odd (dr_flags r div 2)"

definition rule_subject :: "DeliveryRule \<Rightarrow> MSGQueueItem \<Rightarrow> string" where
  "rule_subject r i =
     (if dr_subject r = RULE_SUBJECT_FROM then (if it_from i = [] then ''<>'' else it_from i)
      else if dr_subject r = RULE_SUBJECT_TO then (if it_to i = [] then ''<>'' else it_to i)
      else if dr_subject r = RULE_SUBJECT_DOMAIN then it_domain i
      else [])"

definition Matches :: "'x env_scheme \<Rightarrow> DeliveryRule \<Rightarrow> MSGQueueItem \<Rightarrow> bool" where
  "Matches e r i =
     (let sbj = rule_subject r i
      in if dr_compiled r then pcre_match e (dr_rule r) sbj (rule_caseless r)
         else if rule_caseless r then strcaseeq sbj (dr_rule r) else sbj = dr_rule r)"

text \<open>A rule that does not compile is left out.\<close>

definition Compile :: "'x deliv_env_scheme \<Rightarrow> DeliveryRule \<Rightarrow> DeliveryRule option" where
  "Compile e r =
     (if rule_regexp r
      then if pcre_compiles e (dr_rule r) (rule_caseless r) then Some (r\<lparr>dr_compiled := True\<rparr>) else None
      else Some (r\<lparr>dr_compiled := False\<rparr>))"

text \<open>The rows come ordered by position.\<close>

definition ReadFromDB :: "'x deliv_env_scheme \<Rightarrow> DeliveryRule list \<Rightarrow> DeliveryRule list" where
  "ReadFromDB e rows = List.map_filter (Compile e) rows"

definition FindMatch :: "'x env_scheme \<Rightarrow> DeliveryRule list \<Rightarrow> MSGQueueItem \<Rightarrow> DeliveryRule option" where
  "FindMatch e rules i = List.find (\<lambda>r. Matches e r i) rules"

definition ParseTargetRelayServer :: "string \<Rightarrow> RelayServerInfo" where
  "ParseTargetRelayServer p =
     (let (authPart, hostPart) = (case find_chr (CHR ''@'') p of
            Some k \<Rightarrow> (take k p, drop (Suc k) p) | None \<Rightarrow> ([], p));
          (user, pass) = (case find_chr (CHR '':'') authPart of
            Some k \<Rightarrow> (take k authPart, drop (Suc k) authPart) | None \<Rightarrow> (authPart, []));
          (host, port) = (case find_chr (CHR '':'') hostPart of
            Some k \<Rightarrow> (take k hostPart, let n = atoi (drop (Suc k) hostPart) in if n = 0 then 25 else n)
          | None \<Rightarrow> (hostPart, 25))
      in \<lparr>rl_host = host, rl_port = port, rl_requiresAuth = (authPart \<noteq> []), rl_user = user, rl_pass = pass\<rparr>)"

section \<open>The sendmail program\<close>

definition sendmail_command :: "string \<Rightarrow> MSGQueueItem \<Rightarrow> string" where
  "sendmail_command path i =
     DQUOTE # path @ [DQUOTE] @ '' -f '' @ [DQUOTE] @ it_from i @ [DQUOTE] @ '' -- '' @ [DQUOTE] @ it_to i @ [DQUOTE]"

text \<open>The message with its line ends made NL, in pieces of at most 1000 bytes, each up to its first NUL.\<close>

function unix_lines :: "string \<Rightarrow> string" where
  "unix_lines d =
     (case fgets MAIL_LINEMAX d of
        None \<Rightarrow> []
      | Some (c, rest) \<Rightarrow> drop_last_while (\<lambda>x. x = NL \<or> x = CR) (cstr c) @ [NL] @ unix_lines rest)"
  by pat_completeness auto

termination
  by (relation "measure length") (auto simp: MAIL_LINEMAX_def dest: fgets_decreases)

declare unix_lines.simps [simp del]

definition success :: "string \<Rightarrow> string \<Rightarrow> MSGQueueResult \<Rightarrow> MSGQueueResult" where
  "success info to r = r\<lparr>rs_status := QUEUE_STATUS_SUCCESS, rs_statusInfo := info, rs_deliveredTo := to\<rparr>"

definition DeliverOutboundToSendmail :: "'x deliv_env_scheme \<Rightarrow> MSGQueueItem \<Rightarrow> string \<Rightarrow> work" where
  "DeliverOutboundToSendmail e i path = (\<lambda>(r, d).
     let fail = (\<lambda>info. (Inl (failing ''DeliverOutboundToSendmail'' info QUEUE_STATUS_TEMPORARY_ERROR ''4.3.0''), r, d))
     in case queue_file e d i of
          None \<Rightarrow> fail ''Failed to open queue message file.''
        | Some msg \<Rightarrow>
            if \<not> can_run e (sendmail_command path i) then fail ''Failed to create sendmail process.''
            else case run_process e (sendmail_command path i) 0 (unix_lines msg) of
                   Killed sig \<Rightarrow> fail (''Timeout while waiting for sendmail to finish - sent '' @ sig @ ''.'')
                 | Abnormal \<Rightarrow> fail ''Sendmail exited abnormally.''
                 | Exited n \<Rightarrow> if n \<noteq> 0 then fail ''Got error exit code from sendmail.''
                     else (Inr (), success ''Delivered to sendmail.'' ''sendmail'' r, d))"

section \<open>Relay and MX servers\<close>

text \<open>Opening a session; a first use of an MX address puts it on the greylist queue.\<close>

definition begin_with :: "'x deliv_env_scheme \<Rightarrow> bool \<Rightarrow> smtp_session \<Rightarrow> delivery \<Rightarrow> (fault + unit) \<times> smtp_session \<times> delivery" where
  "begin_with e ehlo s d =
     (case beginSession e ehlo s of
        (x, t) \<Rightarrow> (x, t, if ss_greylisted t \<and> \<not> ss_greylisted s
                         then d\<lparr>dl_mq := AddToGreylist (host_addr e (ss_host t)) (dl_mq d)\<rparr> else d))"

definition fatal :: "fault \<Rightarrow> bool" where
  "fatal f = (case f of Delivery x \<Rightarrow> de_errorCode x = QUEUE_STATUS_FATAL_ERROR | _ \<Rightarrow> False)"

text \<open>After a failed dialogue the session goes back to the pool unless the failure is final.\<close>

definition give_back :: "fault \<Rightarrow> smtp_session \<Rightarrow> delivery \<Rightarrow> delivery" where
  "give_back f s d = (case f of
     Delivery x \<Rightarrow> if fatal f then d else d\<lparr>smtpPool := putBackSMTPSession s (smtpPool d)\<rparr>
   | _ \<Rightarrow> d)"

definition relay_dialogue :: "MSGQueueItem \<Rightarrow> RelayServerInfo \<Rightarrow> int \<Rightarrow> string \<Rightarrow> unit call" where
  "relay_dialogue i rs t msg =
     after (if rl_requiresAuth rs then ss_auth (rl_user rs) (rl_pass rs) else ret ()) (\<lambda>_.
       after ss_rset (\<lambda>_. after (ss_mailFrom (it_from i) (it_size i)) (\<lambda>_.
         after (ss_rcptTo (it_to i)) (\<lambda>_. ss_data t msg))))"

definition DeliverOutboundToSMTPRelay :: "'x deliv_env_scheme \<Rightarrow> MSGQueueItem \<Rightarrow> RelayServerInfo \<Rightarrow> work" where
  "DeliverOutboundToSMTPRelay e i rs = (\<lambda>(r, d).
     let (s0, pool) = getSMTPSession (dl_now d) (''smtpRelay@'' @ rl_host rs) (rl_host rs) (rl_port rs) (smtpPool d);
         s1 = s0\<lparr>isMXConnection := False, useTLS := starts1 e ''outbound_smtp_usetls'', useTLSA := False\<rparr>
     in case begin_with e (rl_requiresAuth rs) s1 (d\<lparr>smtpPool := pool\<rparr>) of
          (Inl (Delivery x), _, d1) \<Rightarrow> if fatal (Delivery x) then (Inl (Delivery x), r, d1) else (Inr (), r, d1)
        | (Inl f, _, d1) \<Rightarrow> (Inl f, r, d1)
        | (Inr _, s2, d1) \<Rightarrow>
            (case queue_file e d1 i of
               None \<Rightarrow> (Inl (failing ''DeliverOutboundToSMTPRelay'' ''Failed to open queue message file.''
                              QUEUE_STATUS_TEMPORARY_ERROR ''4.3.0''), r,
                        d1\<lparr>smtpPool := putBackSMTPSession s2 (smtpPool d1)\<rparr>)
             | Some msg \<Rightarrow>
                 (case relay_dialogue i rs (dl_now d1) msg s2 of
                    (Inl f, s3) \<Rightarrow> (Inl f, r, give_back f s3 d1)
                  | (Inr _, s3) \<Rightarrow>
                      (Inr (), success (''Delivered to relay server '' @ ss_host s3 @
                                        (if tlsActive s3 then '' (using TLS)'' else []) @ ''.'') ''relay server'' r,
                       d1\<lparr>smtpPool := putBackSMTPSession s3 (smtpPool d1)\<rparr>))))"

text \<open>The MX servers in turn: the session with the first that answers, or the last failure.\<close>

fun connect_mx ::
  "'x deliv_env_scheme \<Rightarrow> string \<Rightarrow> (string \<times> bool) list \<Rightarrow> DeliveryException option \<Rightarrow> delivery \<Rightarrow>
     (fault + smtp_session option) \<times> DeliveryException option \<times> delivery" where
  "connect_mx e domain [] lastError d = (Inr None, lastError, d)"
| "connect_mx e domain ((host, auth) # mx) lastError d =
     (let (s0, pool) = getSMTPSession (dl_now d) domain host 25 (smtpPool d);
          tls = starts1 e ''outbound_smtp_usetls'';
          s1 = s0\<lparr>isMXConnection := True, useTLS := tls, useTLSA := tls \<and> starts1 e ''outbound_smtp_usedane'',
                  mxAuthenticated := auth\<rparr>
      in case begin_with e False s1 (d\<lparr>smtpPool := pool\<rparr>) of
           (Inr _, s2, d1) \<Rightarrow> (Inr (Some s2), lastError, d1)
         | (Inl (Delivery x), _, d1) \<Rightarrow>
             if fatal (Delivery x) \<or> dl_bQuit d1 then (Inl (Delivery x), lastError, d1)
             else connect_mx e domain mx (Some x) d1
         | (Inl f, _, d1) \<Rightarrow> (Inl f, lastError, d1))"

definition point :: "int \<Rightarrow> string \<Rightarrow> MSGQueueResult \<Rightarrow> MSGQueueResult" where
  "point ty comment r = r\<lparr>rs_apPointType := ty, rs_apPointComment := comment\<rparr>"

text \<open>What the success message says about TLS.\<close>

definition tls_status :: "smtp_session \<Rightarrow> DANEResult \<Rightarrow> string" where
  "tls_status s dane =
     (if \<not> tlsActive s then []
      else '' (using TLS'' @
        (if usingDANE dane \<and> dane_verified dane
         then ''; DANE validated: '' @ show_int (dane_depth dane) @ '', '' @ show_int (verifiedUsage dane) @ '', '' @
              show_int (verifiedSelector dane) @ '', '' @ show_int (verifiedMType dane)
         else if useTLSA s then ''; not DANE validated, usable TLSA records: '' @ show_int (usableRecords dane)
         else []) @ '')'')"

text \<open>The dialogue; a final refusal of the recipient costs a point.\<close>

definition mx_dialogue :: "MSGQueueItem \<Rightarrow> int \<Rightarrow> string \<Rightarrow> MSGQueueResult \<Rightarrow> smtp_session \<Rightarrow>
    (fault + unit) \<times> MSGQueueResult \<times> smtp_session" where
  "mx_dialogue i t msg r s =
     (case after ss_rset (\<lambda>_. ss_mailFrom (it_from i) (it_size i)) s of
        (Inl f, s1) \<Rightarrow> (Inl f, r, s1)
      | (Inr _, s1) \<Rightarrow>
          (case ss_rcptTo (it_to i) s1 of
             (Inl f, s2) \<Rightarrow>
               (Inl f, if fatal f then point BMAP_SEND_RECP_LOCAL_INVALID
                         (''MX server rejected recipient address '' @ it_to i) r else r, s2)
           | (Inr _, s2) \<Rightarrow> (case ss_data t msg s2 of (x, s3) \<Rightarrow> (x, r, s3))))"

definition mx_deliver :: "'x deliv_env_scheme \<Rightarrow> MSGQueueItem \<Rightarrow> smtp_session \<Rightarrow> work" where
  "mx_deliver e i s = (\<lambda>(r, d).
     case queue_file e d i of
       None \<Rightarrow> (Inl (failing ''DeliverOutbound'' ''Failed to open queue message file.'' QUEUE_STATUS_TEMPORARY_ERROR ''4.3.0''),
                r, d\<lparr>smtpPool := putBackSMTPSession s (smtpPool d)\<rparr>)
     | Some msg \<Rightarrow>
         (case mx_dialogue i (dl_now d) msg r s of
            (Inl f, r1, s1) \<Rightarrow> (Inl f, r1, give_back f s1 d)
          | (Inr _, r1, s1) \<Rightarrow>
              (Inr (), success (''Delivered to '' @ ss_host s1 @ tls_status s1 (daneResult s) @ ''.'') (ss_host s1) r1,
               d\<lparr>smtpPool := putBackSMTPSession s1 (smtpPool d)\<rparr>)))"

definition DeliverOutbound :: "'x deliv_env_scheme \<Rightarrow> MSGQueueItem \<Rightarrow> work" where
  "DeliverOutbound e i = (\<lambda>(r, d).
     case find_chr (CHR ''@'') (it_to i) of
       None \<Rightarrow> (Inl (failing (it_to i) ''Invalid mail recipient.'' QUEUE_STATUS_FATAL_ERROR ''5.1.3''), r, d)
     | Some k \<Rightarrow>
         let domain = drop (Suc k) (it_to i); mx = MXLookup e domain (starts1 e ''outbound_smtp_usednssec'')
         in if mx = []
            then (Inl (failing domain ''No MX server found for domain.'' QUEUE_STATUS_FATAL_ERROR ''5.1.2''),
                  point BMAP_SEND_RECP_DOMAIN_INVALID (''No MX server found for domain '' @ domain) r, d)
            else (case connect_mx e domain mx None d of
                    (Inl f, _, d1) \<Rightarrow> (Inl f, r, d1)
                  | (Inr (Some s), _, d1) \<Rightarrow> mx_deliver e i s (r, d1)
                  | (Inr None, Some x, d1) \<Rightarrow>
                      if de_errorCode x \<noteq> QUEUE_STATUS_UNKNOWN_ERROR then (Inl (Delivery x), r, d1)
                      else (Inl (failing domain ''Could not connect to a responsible MX server.''
                                   QUEUE_STATUS_TEMPORARY_ERROR ''4.4.1''), r, d1)
                  | (Inr None, None, d1) \<Rightarrow>
                      (Inl (failing domain ''Could not connect to a responsible MX server.''
                              QUEUE_STATUS_TEMPORARY_ERROR ''4.4.1''), r, d1)))"

end
