(* ===== verification/Worker.thy ===== *)
theory Worker
  imports Delivery
begin

text \<open>
  Inbound delivery to the pipe program, kept running or started for each message
  (src/msgqueue/inboundprocess.cpp, inboundprocesspool.cpp, msgqueue_inbound.cpp), the choice of
  the kind of delivery (msgqueue_outbound.cpp, msgqueue_rule.cpp), and the worker
  (\<open>WorkProcessor\<close> in msgqueue.cpp).
\<close>

section \<open>The pipe program\<close>

definition pipe_command :: "'x env_scheme \<Rightarrow> string" where
  "pipe_command e = DQUOTE # cfg_str e ''php_path'' @ [DQUOTE, CHR '' '', DQUOTE] @ cfg_str e ''selffolder'' @
     ''interface/pipe.php'' @ [DQUOTE] @ '' --timeout='' @ cfg_str e ''queue_timeout''"

definition keep_command :: "'x env_scheme \<Rightarrow> string" where
  "keep_command e = pipe_command e @ '' --keep-alive''"

definition single_command :: "'x env_scheme \<Rightarrow> string \<Rightarrow> string \<Rightarrow> string" where
  "single_command e from to =
     pipe_command e @ '' '' @ [DQUOTE] @ from @ [DQUOTE] @ '' -- '' @ [DQUOTE] @ to @ [DQUOTE]"

definition pipe_failing :: "string \<Rightarrow> fault" where
  "pipe_failing info = failing ''Inbound pipe'' info QUEUE_STATUS_TEMPORARY_ERROR ''4.3.0''"

definition new_InboundProcess :: "'x env_scheme \<Rightarrow> int \<Rightarrow> inbound_process" where
  "new_InboundProcess e t =
     \<lparr>ip_keepAlive = cfg_is1 e ''inbound_reuse_process'', ip_proc = None, ip_active = False, ip_lastUse = t\<rparr>"

definition ip_running :: "'x deliv_env_scheme \<Rightarrow> inbound_process \<Rightarrow> bool" where
  "ip_running e p = (case ip_proc p of None \<Rightarrow> False | Some k \<Rightarrow> pipe_runs e (pp_told k))"

definition ip_endSession :: "inbound_process \<Rightarrow> inbound_process" where
  "ip_endSession p = p\<lparr>ip_proc := None, ip_active := False\<rparr>"

definition ip_beginSession :: "'x deliv_env_scheme \<Rightarrow> inbound_process \<Rightarrow> (fault + unit) \<times> inbound_process" where
  "ip_beginSession e p0 =
     (let p = (if ip_proc p0 \<noteq> None \<and> \<not> ip_running e p0 then ip_endSession p0 else p0)
      in if ip_active p \<and> ip_running e p then (Inr (), p)
         else if \<not> ip_keepAlive p then (Inr (), p\<lparr>ip_active := True\<rparr>)
         else if can_run e (keep_command e)
         then (Inr (), p\<lparr>ip_proc := Some \<lparr>pp_says = pipe_says e (keep_command e), pp_told = []\<rparr>, ip_active := True\<rparr>)
         else (Inl (pipe_failing ''Failed to create pipe process (keep-alive: 1).''),
               p\<lparr>ip_proc := None, ip_active := False\<rparr>))"

section \<open>Handing over a message\<close>

definition INBOUND_BUFFER_SIZE :: nat where "INBOUND_BUFFER_SIZE = 4096"

text \<open>One line of the process: does it begin as expected? An exhausted pipe is a failure.\<close>

definition pipe_expect :: "string \<Rightarrow> pipe \<Rightarrow> bool \<times> pipe" where
  "pipe_expect w k =
     (case fgets INBOUND_BUFFER_SIZE (pp_says k) of
        None \<Rightarrow> (False, k)
      | Some (l, rest) \<Rightarrow> (starts_with w (cstr l), k\<lparr>pp_says := rest\<rparr>))"

definition pipe_tell :: "string \<Rightarrow> pipe \<Rightarrow> pipe" where
  "pipe_tell t k = k\<lparr>pp_told := pp_told k @ t\<rparr>"

text \<open>The file in pieces of at most 4095 bytes, each up to its first NUL, with or without dots doubled.\<close>

function pipe_copy :: "bool \<Rightarrow> string \<Rightarrow> string" where
  "pipe_copy dots d =
     (case fgets INBOUND_BUFFER_SIZE d of
        None \<Rightarrow> []
      | Some (c, rest) \<Rightarrow> (if dots \<and> hd c = CHR ''.'' then ''.'' else []) @ cstr c @ pipe_copy dots rest)"
  by pat_completeness auto

termination
  by (relation "measure (\<lambda>(_, d). length d)") (auto simp: INBOUND_BUFFER_SIZE_def dest: fgets_decreases)

declare pipe_copy.simps [simp del]

definition deliver_kept :: "string \<Rightarrow> string \<Rightarrow> pipe \<Rightarrow> (fault + unit) \<times> pipe" where
  "deliver_kept to msg k =
     (case pipe_expect ''250'' (pipe_tell (''RCPT TO:<'' @ cstr to @ ''>'' @ CRLF) k) of
        (False, k1) \<Rightarrow> (Inl (pipe_failing ''b1gMail pipe RCPT TO command failed (keep-alive: 1).''), k1)
      | (True, k1) \<Rightarrow>
          (case pipe_expect ''354'' (pipe_tell (''DATA'' @ CRLF) k1) of
             (False, k2) \<Rightarrow> (Inl (pipe_failing ''b1gMail pipe DATA command failed (keep-alive: 1).''), k2)
           | (True, k2) \<Rightarrow>
               (case pipe_expect ''250'' (pipe_tell (pipe_copy True msg @ CRLF @ ''.'' @ CRLF) k2) of
                  (False, k3) \<Rightarrow> (Inl (pipe_failing ''b1gMail pipe rejected message data (keep-alive: 1).''), k3)
                | (True, k3) \<Rightarrow> (Inr (), k3))))"

definition pipe_timeout :: "'x env_scheme \<Rightarrow> int" where
  "pipe_timeout e = (let n = cfg_int e ''queue_timeout'' in if 0 < n then n + 1 else if n < 0 then 30 else n)"

definition deliver_once :: "'x deliv_env_scheme \<Rightarrow> string \<Rightarrow> string \<Rightarrow> string \<Rightarrow> fault + unit" where
  "deliver_once e from to msg =
     (let c = single_command e from to
      in if \<not> can_run e c then Inl (pipe_failing ''Failed to create pipe process (keep-alive: 0).'')
         else case run_process e c (pipe_timeout e) (pipe_copy False msg) of
                Killed sig \<Rightarrow> Inl (pipe_failing (''Timeout while waiting for b1gMail pipe to finish - sent '' @ sig @ ''.''))
              | Abnormal \<Rightarrow> Inl (pipe_failing ''b1gMail pipe exited abnormally.'')
              | Exited n \<Rightarrow> if n \<noteq> 0 then Inl (pipe_failing ''Got error exit code from b1gMail pipe.'') else Inr ())"

definition ip_deliver ::
  "'x deliv_env_scheme \<Rightarrow> int \<Rightarrow> string \<Rightarrow> string \<Rightarrow> string \<Rightarrow> inbound_process \<Rightarrow> (fault + unit) \<times> inbound_process" where
  "ip_deliver e t from to msg p =
     (if ip_keepAlive p
      then (case ip_proc p of
              None \<Rightarrow> (Inl NullSocket, p)
            | Some k \<Rightarrow> (case deliver_kept to msg k of
                (Inl f, k1) \<Rightarrow> (Inl f, p\<lparr>ip_proc := Some k1\<rparr>)
              | (Inr _, k1) \<Rightarrow> (Inr (), p\<lparr>ip_proc := Some k1, ip_lastUse := t\<rparr>)))
      else case deliver_once e from to msg of
             Inl f \<Rightarrow> (Inl f, p)
           | Inr _ \<Rightarrow> (Inr (), p\<lparr>ip_lastUse := t\<rparr>))"

section \<open>Inbound items\<close>

definition getInboundProcess :: "'x env_scheme \<Rightarrow> delivery \<Rightarrow> inbound_process \<times> delivery" where
  "getInboundProcess e d =
     (case inboundPool d of
        [] \<Rightarrow> (new_InboundProcess e (dl_now d), d)
      | p # ps \<Rightarrow> (p, d\<lparr>inboundPool := ps\<rparr>))"

text \<open>A process that failed is not put back.\<close>

definition ProcessInbound :: "'x deliv_env_scheme \<Rightarrow> MSGQueueItem \<Rightarrow> work" where
  "ProcessInbound e i = (\<lambda>(r, d).
     case queue_file e d i of
       None \<Rightarrow> (Inl (failing ''ProcessInbound'' ''Failed to open queue message file.'' QUEUE_STATUS_TEMPORARY_ERROR ''4.3.0''),
                r, d)
     | Some msg \<Rightarrow>
         let (p, d1) = getInboundProcess e d
         in case ip_beginSession e p of
              (Inl f, _) \<Rightarrow> (Inl f, r, d1)
            | (Inr _, p1) \<Rightarrow>
                (case ip_deliver e (dl_now d1) (it_from i) (it_to i) msg p1 of
                   (Inl f, _) \<Rightarrow> (Inl f, r, d1)
                 | (Inr _, p2) \<Rightarrow> (Inr (), success ''Delivered to b1gMail pipe.'' ''local user'' r,
                                  d1\<lparr>inboundPool := inboundPool d1 @ [p2]\<rparr>)))"

section \<open>Outbound items\<close>

definition relay_from_config :: "'x env_scheme \<Rightarrow> RelayServerInfo" where
  "relay_from_config e =
     \<lparr>rl_host = cfg_str e ''outbound_smtp_relay_host'', rl_port = cfg_int e ''outbound_smtp_relay_port'',
      rl_requiresAuth = starts1 e ''outbound_smtp_relay_auth'', rl_user = cfg_str e ''outbound_smtp_relay_user'',
      rl_pass = cfg_str e ''outbound_smtp_relay_pass''\<rparr>"

definition ProcessOutbound :: "'x deliv_env_scheme \<Rightarrow> MSGQueueItem \<Rightarrow> work" where
  "ProcessOutbound e i = (\<lambda>(r, d).
     let rcptDomain = map c_tolower (it_domain i); target = cfg_int e ''outbound_target''
     in if rcptDomain \<noteq> [] \<and> IsLocalDomain (dl_mq d) rcptDomain
        then (Inl (failing (it_to i) (''Mailbox does not exist at local domain '' @ it_domain i @ ''.'')
                     QUEUE_STATUS_FATAL_ERROR ''5.1.1''),
              point BMAP_SEND_RECP_LOCAL_INVALID (''Mailbox '' @ it_to i @ '' does not exist at local domain '' @ rcptDomain) r,
              d)
        else if target = 0 then DeliverOutboundToSendmail e i (cfg_str e ''outbound_sendmail_path'') (r, d)
        else if target = 1 then DeliverOutboundToSMTPRelay e i (relay_from_config e) (r, d)
        else if target = 2 then DeliverOutbound e i (r, d)
        else (Inl (failing ''ProcessOutbound'' ''Unknown outbound target.'' QUEUE_STATUS_TEMPORARY_ERROR ''4.3.5''), r, d))"

definition ProcessRule :: "'x deliv_env_scheme \<Rightarrow> MSGQueueItem \<Rightarrow> DeliveryRule \<Rightarrow> work" where
  "ProcessRule e i rule = (\<lambda>(r, d).
     if dr_target rule = MESSAGE_TARGET_INBOUND then ProcessInbound e i (r, d)
     else if dr_target rule = MESSAGE_TARGET_SENDMAIL
     then DeliverOutboundToSendmail e i (dr_targetParam rule) (r, d)
     else if dr_target rule = MESSAGE_TARGET_SMTPRELAY
     then DeliverOutboundToSMTPRelay e i (ParseTargetRelayServer (dr_targetParam rule)) (r, d)
     else if dr_target rule = MESSAGE_TARGET_DELIVER_SELF then DeliverOutbound e i (r, d)
     else (Inl (failing ''ProcessRule'' ''Unknown rule target.'' QUEUE_STATUS_TEMPORARY_ERROR ''4.3.5''), r, d))"

section \<open>The worker\<close>

definition initial_result :: "MSGQueueItem \<Rightarrow> MSGQueueResult" where
  "initial_result i =
     \<lparr>rs_item = i, rs_status = QUEUE_STATUS_TEMPORARY_ERROR, rs_statusInfo = ''Unknown error'', rs_statusCode = [],
      rs_deliveredTo = [], rs_diagnosticCode = [], rs_apPointType = 0, rs_apPointComment = []\<rparr>"

definition process_item :: "'x deliv_env_scheme \<Rightarrow> MSGQueueItem \<Rightarrow> work" where
  "process_item e i = (\<lambda>(r, d).
     case FindMatch e (deliveryRules d) i of
       Some rule \<Rightarrow> ProcessRule e i rule (r, d)
     | None \<Rightarrow>
         if it_type i = MESSAGE_INBOUND then ProcessInbound e i (r, d)
         else if it_type i = MESSAGE_OUTBOUND then ProcessOutbound e i (r, d)
         else (Inl (failing ''WorkProcessor'' ''Unknown queue item type.'' QUEUE_STATUS_FATAL_ERROR ''5.3.5''), r, d))"

text \<open>
  The result of a worker for an item, or \<open>None\<close> when an exception escapes that nobody catches: the
  thread has no handler for it, so it ends the process.
\<close>

definition WorkProcessor :: "'x deliv_env_scheme \<Rightarrow> MSGQueueItem \<Rightarrow> delivery \<Rightarrow> (MSGQueueResult \<times> delivery) option" where
  "WorkProcessor e i d =
     (case process_item e i (initial_result i, d) of
        (Inr _, r, d1) \<Rightarrow> Some (r, d1)
      | (Inl (Delivery x), r, d1) \<Rightarrow>
          Some (r\<lparr>rs_status := de_errorCode x,
                  rs_statusInfo := (if de_host x = [] then de_statusInfo x else de_host x @ '': '' @ de_statusInfo x),
                  rs_statusCode := de_statusCode x, rs_diagnosticCode := de_diagnosticCode x\<rparr>, d1)
      | (Inl _, _, _) \<Rightarrow> None)"

text \<open>The result joins those that wait.\<close>

definition store_result :: "MSGQueueResult \<Rightarrow> delivery \<Rightarrow> delivery" where
  "store_result r d = d\<lparr>dl_mq := (dl_mq d)\<lparr>results := results (dl_mq d) @ [r]\<rparr>\<rparr>"

end
