(* ===== verification/MsgQueue_Correct.thy ===== *)
theory MsgQueue_Correct
  imports MsgQueue "HOL-Library.Multiset"
begin

text \<open>
  The queue runner together with everybody else who works on the queue table: SMTP sessions that
  enqueue, release or withdraw messages, the administration that marks messages for deletion,
  and the worker threads. In every interleaving a message is in one pair of hands at a time, and
  it leaves the queue only for a reason.
\<close>

section \<open>Hands\<close>

text \<open>The items that the runner holds: waiting, with a worker, or with a result.\<close>

definition in_flight :: "mq \<Rightarrow> MSGQueueItem list" where
  "in_flight s = tp_queue (threadPool s) @ working s @ map rs_item (results s)"

definition item_of :: "queue_row \<Rightarrow> MSGQueueItem \<Rightarrow> bool" where
  "item_of r i \<longleftrightarrow> it_id i = q_id r \<and> it_from i = q_from r \<and> it_to i = q_to r \<and> it_date i = q_date r \<and>
     it_attempts i = q_attempts r \<and> it_type i = q_type r"

text \<open>
  Row ids are unique; the runner's items and the unreleased ids of producers are different rows
  of the table, and exactly these rows are active.
\<close>

definition queue_ok :: "world \<Rightarrow> MSGQueueItem list \<Rightarrow> int set \<Rightarrow> bool" where
  "queue_ok w is u \<longleftrightarrow> queue_ids_ok w \<and> distinct (map it_id is) \<and> it_id ` set is \<inter> u = {} \<and>
     (\<forall>i \<in> set is. \<exists>r \<in> set (msgqueue w). item_of r i) \<and> u \<subseteq> q_id ` set (msgqueue w) \<and>
     (\<forall>r \<in> set (msgqueue w). q_active r = 1 \<longleftrightarrow> q_id r \<in> it_id ` set is \<union> u)"

definition mq_ok :: "mq \<times> int set \<Rightarrow> bool" where
  "mq_ok = (\<lambda>(s, u). queue_ok (mq_world s) (in_flight s) u)"

lemma queue_ok_perm: "mset is = mset js \<Longrightarrow> queue_ok w is u = queue_ok w js u"
proof -
  assume m: "mset is = mset js"
  then have "mset (map it_id is) = mset (map it_id js)" by (simp only: mset_map)
  then have "distinct (map it_id is) = distinct (map it_id js)" by (rule mset_eq_imp_distinct_iff)
  moreover have "set is = set js" using m by (rule mset_eq_setD)
  ultimately show ?thesis by (simp add: queue_ok_def)
qed

lemma unique_row:
  "queue_ids_ok w \<Longrightarrow> r \<in> set (msgqueue w) \<Longrightarrow> q \<in> set (msgqueue w) \<Longrightarrow> q_id r = q_id q \<Longrightarrow> r = q"
  by (auto simp: queue_ids_ok_def distinct_map dest: inj_onD)

lemma queue_ok_row: "queue_ok w is u \<Longrightarrow> i \<in> set is \<Longrightarrow> \<exists>r \<in> set (msgqueue w). item_of r i"
  by (simp add: queue_ok_def)

lemma queue_ok_other: "queue_ok w (i # is) u \<Longrightarrow> j \<in> set is \<Longrightarrow> it_id j \<noteq> it_id i"
  unfolding queue_ok_def by (metis distinct.simps(2) image_eqI list.simps(9) set_map)

text \<open>Other tables do not matter.\<close>

lemma queue_ok_world:
  "queue_ok w is u \<Longrightarrow> msgqueue v = msgqueue w \<Longrightarrow> next_id w \<le> next_id v \<Longrightarrow> queue_ok v is u"
  unfolding queue_ok_def queue_ids_ok_def by (simp, blast intro: less_le_trans)

lemma queue_ok_remove:
  assumes "queue_ok w (i # is) u" and "msgqueue v = filter (\<lambda>r. q_id r \<noteq> it_id i) (msgqueue w)"
    and "next_id w \<le> next_id v"
  shows "queue_ok v is u"
proof -
  have "queue_ids_ok v"
    using assms by (auto simp: queue_ok_def queue_ids_ok_def distinct_map_filter)
  moreover have "\<exists>r \<in> set (msgqueue v). item_of r j" if j: "j \<in> set is" for j
  proof -
    obtain r where "r \<in> set (msgqueue w)" "item_of r j" using queue_ok_row [OF assms(1), of j] j by auto
    moreover have "it_id j \<noteq> it_id i" using assms(1) j by (rule queue_ok_other)
    ultimately show ?thesis using assms(2) by (auto simp: item_of_def)
  qed
  moreover have "u \<subseteq> q_id ` set (msgqueue v)"
  proof
    fix x assume x: "x \<in> u"
    then have "x \<in> q_id ` set (msgqueue w)" "x \<noteq> it_id i"
      using assms(1) unfolding queue_ok_def by (blast, auto)
    then show "x \<in> q_id ` set (msgqueue v)" using assms(2) by auto
  qed
  moreover have "q_active r = 1 \<longleftrightarrow> q_id r \<in> it_id ` set is \<union> u" if "r \<in> set (msgqueue v)" for r
    using that assms(1,2) by (simp add: queue_ok_def)
  ultimately show ?thesis using assms(1) by (simp add: queue_ok_def)
qed

lemma queue_ok_update:
  assumes "queue_ok w (i # is) u"
    and "msgqueue v = map (\<lambda>r. if q_id r = it_id i then f r else r) (msgqueue w)"
    and "\<forall>r. q_id (f r) = q_id r \<and> q_active (f r) = 0" and "next_id w \<le> next_id v"
  shows "queue_ok v is u"
proof -
  let ?g = "\<lambda>r. if q_id r = it_id i then f r else r"
  have ids: "map q_id (msgqueue v) = map q_id (msgqueue w)" using assms(2,3) by simp
  have ok: "queue_ids_ok v" by (rule queue_ids_ok_same [OF _ ids assms(4)]) (use assms(1) in \<open>simp add: queue_ok_def\<close>)
  have fresh: "it_id i \<notin> it_id ` set is \<union> u" using assms(1) by (auto simp: queue_ok_def)
  have "\<exists>r \<in> set (msgqueue v). item_of r j" if j: "j \<in> set is" for j
  proof -
    obtain r where r: "r \<in> set (msgqueue w)" "item_of r j" using queue_ok_row [OF assms(1), of j] j by auto
    then have "q_id r \<noteq> it_id i" using queue_ok_other [OF assms(1) j] by (simp add: item_of_def)
    then have "?g r = r" by simp
    then have "r \<in> set (msgqueue v)" using r(1) unfolding assms(2) set_map by (rule image_eqI [OF sym])
    then show ?thesis using r(2) by blast
  qed
  moreover have "q_id ` set (msgqueue v) = q_id ` set (msgqueue w)" using ids by (metis set_map)
  moreover have "q_active r = 1 \<longleftrightarrow> q_id r \<in> it_id ` set is \<union> u" if r: "r \<in> set (msgqueue v)" for r
  proof -
    obtain q where q: "q \<in> set (msgqueue w)" "r = ?g q" using r assms(2) by auto
    show ?thesis
    proof (cases "q_id q = it_id i")
      case True
      then show ?thesis using q(2) assms(3) fresh by simp
    next
      case False
      then show ?thesis using q assms(1) by (auto simp: queue_ok_def)
    qed
  qed
  ultimately show ?thesis using assms(1) ok by (simp add: queue_ok_def)
qed

lemma queue_ok_enqueue:
  assumes "queue_ok w is u" and "EnqueueMessage e w a = Some (j, v)"
  shows "queue_ok v is (if qa_instant_release a \<or> j = 0 then u else insert j u)"
proof -
  note r = EnqueueMessage_result [OF _ assms(2)]
  have ok: "queue_ids_ok w" using assms(1) by (simp add: queue_ok_def)
  show ?thesis
  proof (cases "j = 0")
    case True
    then show ?thesis using r [OF ok] assms(1) by (simp add: queue_ok_def)
  next
    case False
    with r [OF ok] obtain q where q: "queue_ids_ok v" "\<not> queue_id_used w j" "msgqueue v = msgqueue w @ [q]"
        "q_id q = j" "q_active q = (if qa_instant_release a then 0 else 1)"
      by (auto simp: queue_row_for_def)
    have n: "j \<notin> q_id ` set (msgqueue w)" using q(2) by (auto simp: queue_id_used_def list_ex_iff)
    have "it_id k \<in> q_id ` set (msgqueue w)" if "k \<in> set is" for k
      using queue_ok_row [OF assms(1) that] by (auto simp: item_of_def)
    then have f: "j \<notin> it_id ` set is \<union> u" using n assms(1) by (auto simp: queue_ok_def)
    have rows: "\<forall>r \<in> set (msgqueue w). q_active r = 1 \<longleftrightarrow> q_id r \<in> it_id ` set is \<union> u" "u \<subseteq> q_id ` set (msgqueue w)"
        "distinct (map it_id is)" "it_id ` set is \<inter> u = {}" "\<forall>i \<in> set is. \<exists>r \<in> set (msgqueue w). item_of r i"
      using assms(1) by (simp_all add: queue_ok_def)
    have "\<forall>r \<in> set (msgqueue w). q_id r \<noteq> j" using n by auto
    then show ?thesis using rows q(1,3-5) f False by (cases "qa_instant_release a") (auto simp: queue_ok_def)
  qed
qed

section \<open>Results\<close>

text \<open>A bounce goes to the sender, has no sender itself and is visible at once.\<close>

definition bounce_row :: "MSGQueueItem \<Rightarrow> queue_row \<Rightarrow> bool" where
  "bounce_row i q \<longleftrightarrow> q_to q = it_from i \<and> q_from q = [] \<and> q_active q = 0 \<and> q_deleted q = 0"

lemma EnqueueMessage_written:
  assumes "queue_ids_ok w" and "EnqueueMessage e w a = Some (i, v)" and "\<forall>p. can_write e p"
  shows "i \<noteq> 0"
proof -
  obtain j w1 where j: "new_queue_row e w a = Some (j, w1)"
    using assms(2) by (auto simp: EnqueueMessage_def split: option.splits)
  then have "i = j" using assms(2,3) by (simp add: EnqueueMessage_def Let_def split_beta)
  then show ?thesis using new_queue_row_effect [OF assms(1) j] by simp
qed

lemma MakeRandomKey_same:
  "MakeRandomKey n w = (k, v) \<Longrightarrow> msgqueue v = msgqueue w \<and> next_id v = next_id w \<and> files v = files w \<and> now v = now w"
  by (auto simp: MakeRandomKey_def draw_def)

definition wants_bounce :: "MSGQueueItem \<Rightarrow> bool" where
  "wants_bounce i \<longleftrightarrow> 5 \<le> length (it_from i) \<and> \<not> strcaseeq (it_from i) (it_to i)"

lemma BounceMessage_ok:
  assumes "queue_ok w is u" and "BounceMessage e w i r = Some (b, v)"
  shows "queue_ok v is u \<and> (\<exists>bs. msgqueue v = msgqueue w @ bs \<and> length bs \<le> 1 \<and> (\<forall>q \<in> set bs. bounce_row i q) \<and>
    (bs \<noteq> [] \<longrightarrow> wants_bounce i) \<and> (wants_bounce i \<and> (\<forall>p. can_write e p) \<longrightarrow> bs \<noteq> []))"
proof (cases "wants_bounce i")
  case False
  then have "v = w" using assms(2) by (auto simp: BounceMessage_def wants_bounce_def not_le)
  then show ?thesis using assms(1) False by (intro conjI exI [of _ "[]"]) simp_all
next
  case True
  obtain key w1 where k: "MakeRandomKey 32 w = (key, w1)" by fastforce
  obtain mid w2 where m: "MakeRandomKey 32 w1 = (mid, w2)" by fastforce
  obtain a j where a: "EnqueueMessage e w2 a = Some (j, v)" "qa_instant_release a" "qa_to a = it_from i" "qa_from a = []"
    using True assms(2) k m by (auto simp: BounceMessage_def wants_bounce_def Let_def not_le bounce_args_def)
  have w2: "msgqueue w2 = msgqueue w" "next_id w2 = next_id w"
    using MakeRandomKey_same [OF k] MakeRandomKey_same [OF m] by simp_all
  have ok: "queue_ok w2 is u" by (rule queue_ok_world [OF assms(1)]) (simp_all add: w2)
  then have ids: "queue_ids_ok w2" by (simp add: queue_ok_def)
  have "queue_ok v is u" using queue_ok_enqueue [OF ok a(1)] a(2) by simp
  moreover have "\<exists>bs. msgqueue v = msgqueue w @ bs \<and> length bs \<le> 1 \<and> (\<forall>q \<in> set bs. bounce_row i q) \<and> (j \<noteq> 0 \<longrightarrow> bs \<noteq> [])"
    using EnqueueMessage_result [OF ids a(1)] a(2-4) w2
    by (cases "j = 0") (auto simp: bounce_row_def queue_row_for_def)
  ultimately show ?thesis using True EnqueueMessage_written [OF ids a(1)] by blast
qed

lemma remove_item_queue [simp]:
  "msgqueue (remove_item e i w) = filter (\<lambda>r. q_id r \<noteq> i) (msgqueue w)" "next_id (remove_item e i w) = next_id w"
  by (simp_all add: remove_item_def unlink_def delete_queue_rows_def)

text \<open>Removing a row that is in the table, behind which only bounces were added.\<close>

lemma remove_then_rows:
  assumes "queue_ok w (i # is) u" and "queue_ids_ok v" and "msgqueue v = msgqueue w @ bs"
  shows "filter (\<lambda>r. q_id r \<noteq> it_id i) (msgqueue v) = filter (\<lambda>r. q_id r \<noteq> it_id i) (msgqueue w) @ bs"
proof -
  obtain r where r: "r \<in> set (msgqueue w)" "it_id i = q_id r"
    using queue_ok_row [OF assms(1), of i] by (auto simp: item_of_def)
  have "q_id ` set (msgqueue w) \<inter> q_id ` set bs = {}" using assms(2,3) by (simp add: queue_ids_ok_def)
  moreover have "it_id i \<in> q_id ` set (msgqueue w)" unfolding r(2) using r(1) by (rule imageI)
  ultimately have "\<forall>b \<in> set bs. q_id b \<noteq> it_id i" by (metis IntI empty_iff image_eqI)
  then show ?thesis using assms(3) by (simp add: filter_id_conv)
qed

lemma give_up_ok:
  assumes "queue_ok w (i # is) u" and "give_up e w i' r = Some v" and "it_id i' = it_id i"
  shows "queue_ok v is u \<and> (\<exists>bs. msgqueue v = filter (\<lambda>r. q_id r \<noteq> it_id i) (msgqueue w) @ bs \<and> length bs \<le> 1 \<and>
    (\<forall>q \<in> set bs. bounce_row i' q) \<and> (bs \<noteq> [] \<longrightarrow> wants_bounce i') \<and>
    (wants_bounce i' \<and> (\<forall>p. can_write e p) \<longrightarrow> bs \<noteq> []))"
proof -
  obtain w1 where w1: "(if length (it_from i') > 3 then map_option snd (BounceMessage e w i' r) else Some w) = Some w1"
      "v = SetMailDeliveryStatus e (remove_item e (it_id i) w1) (it_deliveryStatusID i') MDSTATUS_DELIVERY_FAILED None"
    using assms(2,3) by (auto simp: give_up_def)
  have "queue_ok w1 (i # is) u \<and> (\<exists>bs. msgqueue w1 = msgqueue w @ bs \<and> length bs \<le> 1 \<and>
      (\<forall>q \<in> set bs. bounce_row i' q) \<and> (bs \<noteq> [] \<longrightarrow> wants_bounce i') \<and>
      (wants_bounce i' \<and> (\<forall>p. can_write e p) \<longrightarrow> bs \<noteq> []))"
  proof (cases "length (it_from i') > 3")
    case True
    then obtain b where "BounceMessage e w i' r = Some (b, w1)" using w1(1) by auto
    from BounceMessage_ok [OF assms(1) this] show ?thesis .
  next
    case False
    then have "w1 = w" "\<not> wants_bounce i'" using w1(1) by (simp_all add: wants_bounce_def)
    then show ?thesis using assms(1) by (intro conjI exI [of _ "[]"]) simp_all
  qed
  then obtain bs where bs: "queue_ok w1 (i # is) u" "msgqueue w1 = msgqueue w @ bs" "length bs \<le> 1"
      "\<forall>q \<in> set bs. bounce_row i' q" "bs \<noteq> [] \<longrightarrow> wants_bounce i'" "wants_bounce i' \<and> (\<forall>p. can_write e p) \<longrightarrow> bs \<noteq> []" by blast
  have "msgqueue v = filter (\<lambda>r. q_id r \<noteq> it_id i) (msgqueue w) @ bs"
    using remove_then_rows [OF assms(1) _ bs(2)] bs(1) w1(2) by (simp add: queue_ok_def)
  moreover have "queue_ok v is u"
    by (rule queue_ok_remove [OF bs(1)]) (simp_all add: w1(2))
  ultimately show ?thesis using bs(3-6) by blast
qed

section \<open>One result\<close>

lemma update_queue_rows_queue [simp]:
  "msgqueue (update_queue_rows p f w) = map (\<lambda>r. if p (q_id r) then f r else r) (msgqueue w)"
  "next_id (update_queue_rows p f w) = next_id w"
  by (simp_all add: update_queue_rows_def)

lemma result_abuse_same [simp]:
  "msgqueue (result_abuse e i r w) = msgqueue w" "next_id (result_abuse e i r w) = next_id w"
  by (simp_all add: result_abuse_def AddAbusePoint_def Let_def split: option.split)

text \<open>A result ends the message when it is a success, a fatal error, or too late for another try.\<close>

definition expired :: "'x env_scheme \<Rightarrow> world \<Rightarrow> MSGQueueItem \<Rightarrow> bool" where
  "expired e w i \<longleftrightarrow> it_date i + cfg_int e ''queue_lifetime'' < now w"

definition gives_up :: "'x env_scheme \<Rightarrow> world \<Rightarrow> MSGQueueResult \<Rightarrow> bool" where
  "gives_up e w r \<longleftrightarrow> rs_status r = QUEUE_STATUS_FATAL_ERROR \<or>
     (rs_status r \<noteq> QUEUE_STATUS_SUCCESS \<and> expired e w (rs_item r))"

text \<open>The row after a try that is to be repeated.\<close>

definition deferred :: "world \<Rightarrow> MSGQueueResult \<Rightarrow> queue_row \<Rightarrow> queue_row" where
  "deferred w r q =
     q\<lparr>q_active := 0, q_attempts := it_attempts (rs_item r) + 1, q_last_attempt := now w,
       q_last_status := status_code (rs_status r), q_last_status_info := rs_statusInfo r,
       q_last_status_code := rs_statusCode r, q_last_diagnostic_code := rs_diagnosticCode r\<rparr>"

definition row_removed :: "int \<Rightarrow> queue_row list \<Rightarrow> queue_row list" where
  "row_removed i rs = filter (\<lambda>q. q_id q \<noteq> i) rs"

text \<open>The bounces of an item: at most one, one if the item wants one and files can be written.\<close>

definition bounces_for :: "'x env_scheme \<Rightarrow> MSGQueueItem \<Rightarrow> queue_row list \<Rightarrow> bool" where
  "bounces_for e i bs \<longleftrightarrow> length bs \<le> 1 \<and> (\<forall>q \<in> set bs. bounce_row i q) \<and> (bs \<noteq> [] \<longrightarrow> wants_bounce i) \<and>
     (wants_bounce i \<and> (\<forall>p. can_write e p) \<longrightarrow> bs \<noteq> [])"

lemma bounces_for_same:
  "it_from j = it_from i \<Longrightarrow> it_to j = it_to i \<Longrightarrow> bounces_for e j bs = bounces_for e i bs"
  by (simp add: bounces_for_def bounce_row_def wants_bounce_def)

lemma ProcessResult_success:
  assumes "ProcessResult e w r = Some v" and "rs_status r = QUEUE_STATUS_SUCCESS"
  shows "msgqueue v = row_removed (it_id (rs_item r)) (msgqueue w) \<and> next_id v = next_id w"
  using assms by (auto simp: ProcessResult_def row_removed_def)

lemma ProcessResult_retry:
  assumes "ProcessResult e w r = Some v" and "rs_status r \<noteq> QUEUE_STATUS_SUCCESS" and "\<not> gives_up e w r"
  shows "msgqueue v = map (\<lambda>q. if q_id q = it_id (rs_item r) then deferred w r q else q) (msgqueue w) \<and>
    next_id v = next_id w"
  using assms
  by (cases "rs_status r")
     (auto simp: ProcessResult_def gives_up_def expired_def retry_later_def deferred_def Let_def)

lemma ProcessResult_giving_up:
  assumes "queue_ok w (rs_item r # is) u" and "ProcessResult e w r = Some v" and "gives_up e w r"
  shows "queue_ok v is u \<and>
    (\<exists>bs. bounces_for e (rs_item r) bs \<and> msgqueue v = row_removed (it_id (rs_item r)) (msgqueue w) @ bs)"
proof -
  let ?i = "(rs_item r)\<lparr>it_lastStatus := status_code (rs_status r)\<rparr>"
  obtain j v1 where j: "give_up e w j r = Some v1" "v = result_abuse e ?i r v1"
      "it_id j = it_id (rs_item r)" "it_from j = it_from (rs_item r)" "it_to j = it_to (rs_item r)"
  proof (cases "rs_status r = QUEUE_STATUS_FATAL_ERROR")
    case True
    then show ?thesis using assms(2) that [of ?i] by (auto simp: ProcessResult_def Let_def)
  next
    case False
    then show ?thesis
      using assms(2,3) that [of "?i\<lparr>it_attempts := it_attempts (rs_item r) + 1, it_lastAttempt := now w\<rparr>"]
      by (cases "rs_status r") (auto simp: ProcessResult_def gives_up_def expired_def Let_def)
  qed
  from give_up_ok [OF assms(1) j(1,3)] obtain bs where
    bs: "queue_ok v1 is u" "msgqueue v1 = row_removed (it_id (rs_item r)) (msgqueue w) @ bs" "bounces_for e j bs"
    by (auto simp: row_removed_def bounces_for_def)
  then have "queue_ok v is u" using j(2) by (intro queue_ok_world [OF bs(1)]) simp_all
  then show ?thesis using bs(2,3) bounces_for_same [OF j(4,5)] j(2) by auto
qed

lemma ProcessResult_ok:
  assumes "queue_ok w (rs_item r # is) u" and "ProcessResult e w r = Some v"
  shows "queue_ok v is u"
proof -
  consider "rs_status r = QUEUE_STATUS_SUCCESS" | "gives_up e w r"
    | "rs_status r \<noteq> QUEUE_STATUS_SUCCESS" "\<not> gives_up e w r" by blast
  then show ?thesis
  proof cases
    case 1
    then show ?thesis
      using ProcessResult_success [OF assms(2)] by (intro queue_ok_remove [OF assms(1)]) (simp_all add: row_removed_def)
  next
    case 2
    then show ?thesis using ProcessResult_giving_up [OF assms] by blast
  next
    case 3
    then show ?thesis
      using ProcessResult_retry [OF assms(2)]
      by (intro queue_ok_update [OF assms(1), where f = "deferred w r"]) (simp_all add: deferred_def)
  qed
qed

end
