(* ===== verification/Control.thy ===== *)
theory Control
  imports MsgQueue Socket
begin

text \<open>
  The control channel of the queue runner (src/msgqueue/control.cpp): a line protocol on a local
  port, with a secret, through which the web interface and the command line inspect, flush,
  delete and clear the queue.
\<close>

record ctl_env = mq_env +
  apns_subscriptions :: "int \<Rightarrow> (string \<times> string) list"  \<comment> \<open>account and device token by id\<close>
  CertHash :: string                                       \<comment> \<open>hash of the certificate, empty without one\<close>

text \<open>
  A connection, with the control instance's quit flag and the messages handed to the APNS
  dispatcher (\<open>None\<close> when there is no dispatcher).
\<close>

record control =
  ct_sock :: sock
  ct_world :: world
  ct_secret :: string
  ct_authenticated :: bool
  ct_threads :: nat
  ct_apns :: "(string \<times> string) list option"
  ct_bQuit :: bool

text \<open>An answer. (A peer that does not read until the write times out ends the process: the exception
  is not caught. The connections here have readers.)\<close>

definition say :: "string \<Rightarrow> control \<Rightarrow> control" where
  "say t s = s\<lparr>ct_sock := snd (sk_Write t (ct_sock s))\<rparr>"

definition on_world :: "(world \<Rightarrow> world) \<Rightarrow> control \<Rightarrow> control" where
  "on_world f s = s\<lparr>ct_world := f (ct_world s)\<rparr>"

section \<open>Arguments\<close>

text \<open>\<open>sscanf\<close> of a word that is skipped and a number or a word of at most 32 characters.\<close>

definition skip_word_int :: "string \<Rightarrow> int option" where
  "skip_word_int l = (case scan_word l of None \<Rightarrow> None | Some (_, r) \<Rightarrow> map_option fst (scan_int r))"

definition skip_word_str :: "string \<Rightarrow> string option" where
  "skip_word_str l = (case scan_word l of None \<Rightarrow> None | Some (_, r) \<Rightarrow> map_option fst (scan_str 32 r))"

text \<open>The end of the input before a conversion is \<open>EOF\<close>, which counts as true without a comparison.\<close>

definition apns_id :: "string \<Rightarrow> int option" where
  "apns_id l =
     (case scan_word l of
        None \<Rightarrow> Some 0
      | Some (_, r) \<Rightarrow> if list_all is_space r then Some 0 else map_option fst (scan_int r))"

section \<open>The queue\<close>

text \<open>Deleting one row unless it is active; \<open>active\<close> stays true when there is no such row.\<close>

definition row_active :: "world \<Rightarrow> int \<Rightarrow> bool" where
  "row_active w i = foldl (\<lambda>a r. q_active r = 1) True (filter (\<lambda>r. q_id r = i) (msgqueue w))"

definition delete_queueitem :: "'x env_scheme \<Rightarrow> int \<Rightarrow> world \<Rightarrow> bool \<times> world" where
  "delete_queueitem e i w = (if row_active w i then (False, w) else (True, remove_item e i w))"

definition flush_msgqueue :: "world \<Rightarrow> world" where
  "flush_msgqueue w =
     w\<lparr>msgqueue := map (\<lambda>r. if q_deleted r = 0 then r\<lparr>q_last_attempt := 0\<rparr> else r) (msgqueue w)\<rparr>"

definition clear_msgqueue :: "'x env_scheme \<Rightarrow> world \<Rightarrow> world" where
  "clear_msgqueue e w =
     (let w1 = fold (\<lambda>r. unlink (QueueFileNameStr e (q_id r))) (filter (\<lambda>r. q_active r = 0) (msgqueue w)) w
      in w1\<lparr>msgqueue := filter (\<lambda>r. q_active r \<noteq> 0) (msgqueue w1)\<rparr>)"

text \<open>
  The stored message: \<open>fgets\<close> into a cleared buffer, a dot before a chunk that starts with one,
  the chunk up to its first NUL, and the end line.
\<close>

function dotted_copy :: "string \<Rightarrow> string" where
  "dotted_copy d =
     (case fgets 4095 d of
        None \<Rightarrow> []
      | Some (c, rest) \<Rightarrow> (if hd c = CHR ''.'' then ''.'' else []) @ cstr c @ dotted_copy rest)"
  by pat_completeness auto

termination
  by (relation "measure length") (auto dest: fgets_decreases)

declare dotted_copy.simps [simp del]

section \<open>Requests\<close>

definition control_apns_notify :: "'x ctl_env_scheme \<Rightarrow> string \<Rightarrow> control \<Rightarrow> control" where
  "control_apns_notify e l s =
     (case ct_apns s of
        None \<Rightarrow> say (''-ERR APNS not enabled'' @ CRLF) s
      | Some ms \<Rightarrow>
          (case apns_id l of
             None \<Rightarrow> say (''-ERR Usage: APNS_NOTIFY [subscription-id]'' @ CRLF) s
           | Some i \<Rightarrow>
               let new = map (\<lambda>(account, token).
                     (token, ''{'' @ [DQUOTE] @ ''aps'' @ [DQUOTE] @ '':{'' @ [DQUOTE] @ ''account-id'' @ [DQUOTE] @
                        '':'' @ [DQUOTE] @ account @ [DQUOTE] @ ''}}'')) (apns_subscriptions e i)
               in say (''+OK'' @ CRLF) (s\<lparr>ct_apns := Some (ms @ new)\<rparr>)))"

definition control_delete :: "'x ctl_env_scheme \<Rightarrow> string \<Rightarrow> control \<Rightarrow> control" where
  "control_delete e l s =
     (case skip_word_int l of
        None \<Rightarrow> say (''-ERR Usage: DELETE_QUEUEITEM [id]'' @ CRLF) s
      | Some i \<Rightarrow>
          let (ok, w) = delete_queueitem e i (ct_world s)
          in say (if ok then ''+OK'' @ CRLF else ''-ERR Queue item not found or currently in use'' @ CRLF)
               (s\<lparr>ct_world := w\<rparr>))"

definition control_get :: "'x ctl_env_scheme \<Rightarrow> string \<Rightarrow> control \<Rightarrow> control" where
  "control_get e l s =
     (case skip_word_int l of
        None \<Rightarrow> say (''-ERR Usage: GET_QUEUEITEM [id]'' @ CRLF) s
      | Some i \<Rightarrow>
          (case files (ct_world s) (QueueFileNameStr e i) of
             None \<Rightarrow> say (''-ERR Item not found'' @ CRLF) s
           | Some d \<Rightarrow> say (''+OK'' @ CRLF @ dotted_copy d @ CRLF @ ''.'' @ CRLF) s))"

definition control_auth :: "string \<Rightarrow> control \<Rightarrow> control" where
  "control_auth l s =
     (case skip_word_str l of
        None \<Rightarrow> say (''-ERR Usage: AUTH [secret]'' @ CRLF) s
      | Some k \<Rightarrow> if k = ct_secret s then say (''+OK'' @ CRLF) (s\<lparr>ct_authenticated := True\<rparr>)
                  else say (''-ERR'' @ CRLF) (s\<lparr>ct_authenticated := False\<rparr>))"

text \<open>
  One request line: whether the connection goes on. The command is read into 32 bytes with a
  width of 32, so a word that long writes its NUL behind the buffer (\<open>command_overruns\<close>).
\<close>

definition command_overruns :: "string \<Rightarrow> bool" where
  "command_overruns l \<longleftrightarrow> (case scan_str 32 l of None \<Rightarrow> False | Some (c, _) \<Rightarrow> 32 \<le> length c)"

definition ProcessRequestLine :: "'x ctl_env_scheme \<Rightarrow> string \<Rightarrow> control \<Rightarrow> bool \<times> control" where
  "ProcessRequestLine e l s =
     (case scan_str 32 l of
        None \<Rightarrow> (True, say (''-ERR Syntax error'' @ CRLF) s)
      | Some (c, _) \<Rightarrow>
          if strcaseeq c ''ping'' then (True, say (''+OK'' @ CRLF) s)
          else if strcaseeq c ''quit'' then (False, say (''+OK'' @ CRLF) s)
          else if strcaseeq c ''get_threadcount'' then (True, say (''+OK '' @ show_int (int (ct_threads s)) @ CRLF) s)
          else if strcaseeq c ''apns_notify'' \<and> ct_authenticated s then (True, control_apns_notify e l s)
          else if strcaseeq c ''delete_queueitem'' \<and> ct_authenticated s then (True, control_delete e l s)
          else if strcaseeq c ''restart_msgqueue'' \<and> ct_authenticated s
          then (False, say (''+OK'' @ CRLF) s\<lparr>ct_bQuit := True\<rparr>)
          else if strcaseeq c ''get_queueitem'' \<and> ct_authenticated s then (True, control_get e l s)
          else if strcaseeq c ''flush_msgqueue'' \<and> ct_authenticated s
          then (True, say (''+OK'' @ CRLF) (on_world flush_msgqueue s))
          else if strcaseeq c ''clear_msgqueue'' \<and> ct_authenticated s
          then (True, say (''+OK'' @ CRLF) (on_world (clear_msgqueue e) s))
          else if strcaseeq c ''get_tlsarecord'' \<and> ct_authenticated s
          then (True, say (if CertHash e = [] then ''-ERR'' @ CRLF
                           else ''+OK 3 1 1 '' @ CertHash e @ CRLF) s)
          else if strcaseeq c ''auth'' then (True, control_auth l s)
          else (True, say (''-ERR Unknown command'' @ CRLF) s))"

lemma say_simps [simp]:
  "sk_in (ct_sock (say t s)) = sk_in (ct_sock s)" "ct_world (say t s) = ct_world s" "ct_apns (say t s) = ct_apns s"
  "ct_bQuit (say t s) = ct_bQuit s" "ct_authenticated (say t s) = ct_authenticated s" "ct_secret (say t s) = ct_secret s"
  by (simp_all add: say_def)

text \<open>The answers of a request line: those for anyone, and those that need the secret.\<close>

lemma ProcessRequestLine_cases:
  assumes "\<And>b t. P (b, say t s)" and "P (True, control_auth l s)"
    and "ct_authenticated s \<Longrightarrow> P (True, control_apns_notify e l s)"
    and "ct_authenticated s \<Longrightarrow> P (True, control_delete e l s)"
    and "ct_authenticated s \<Longrightarrow> P (False, say (''+OK'' @ CRLF) s\<lparr>ct_bQuit := True\<rparr>)"
    and "ct_authenticated s \<Longrightarrow> P (True, control_get e l s)"
    and "ct_authenticated s \<Longrightarrow> P (True, say (''+OK'' @ CRLF) (on_world flush_msgqueue s))"
    and "ct_authenticated s \<Longrightarrow> P (True, say (''+OK'' @ CRLF) (on_world (clear_msgqueue e) s))"
  shows "P (ProcessRequestLine e l s)"
proof (cases "scan_str 32 l")
  case None
  then show ?thesis using assms(1) by (simp add: ProcessRequestLine_def)
next
  case (Some p)
  obtain c r where p: "p = (c, r)" by fastforce
  show ?thesis
    unfolding ProcessRequestLine_def Some p option.case prod.case
    using assms by (simp only: split: if_split) blast
qed

text \<open>Requests read nothing from the socket, and the secret stays.\<close>

lemma ProcessRequestLine_in [simp]:
  "sk_in (ct_sock (snd (ProcessRequestLine e l s))) = sk_in (ct_sock s)"
  by (rule ProcessRequestLine_cases)
     (simp_all add: control_apns_notify_def control_delete_def control_get_def control_auth_def
      on_world_def Let_def split_beta split: option.split)

lemma ProcessRequestLine_secret [simp]: "ct_secret (snd (ProcessRequestLine e l s)) = ct_secret s"
  by (rule ProcessRequestLine_cases)
     (simp_all add: control_apns_notify_def control_delete_def control_get_def control_auth_def
      on_world_def Let_def split_beta split: option.split)

section \<open>A connection\<close>

text \<open>The loop ends with the input, a timeout or the request to close.\<close>

function control_serve :: "'x ctl_env_scheme \<Rightarrow> control \<Rightarrow> control" where
  "control_serve e s =
     (case sk_ReadLine 512 (ct_sock s) of
        (Line l, k) \<Rightarrow>
          (case ProcessRequestLine e l (s\<lparr>ct_sock := k\<rparr>) of
             (True, t) \<Rightarrow> control_serve e t
           | (False, t) \<Rightarrow> t)
      | (_, k) \<Rightarrow> s\<lparr>ct_sock := k\<rparr>)"
  by pat_completeness auto

termination
proof (relation "measure (\<lambda>(e, s). length (sk_in (ct_sock s)))")
  fix e :: "'x ctl_env_scheme" and s line k l b t
  assume a: "(line, k) = sk_ReadLine 512 (ct_sock s)" "line = Line l"
    and p: "(b, t) = ProcessRequestLine e l (s\<lparr>ct_sock := k\<rparr>)"
  have "sk_in (ct_sock t) = sk_in k"
    using ProcessRequestLine_in [of e l "s\<lparr>ct_sock := k\<rparr>"] unfolding p [symmetric] by simp
  moreover have "length (sk_in k) < length (sk_in (ct_sock s))"
    by (rule ReadLine_consumes [of 512 "ct_sock s" l k]) (simp add: a [symmetric] a(2) [symmetric])
  ultimately show "((e, t), e, s) \<in> measure (\<lambda>(e, s). length (sk_in (ct_sock s)))" by simp
qed simp

declare control_serve.simps [simp del]

definition control_connection ::
  "'x ctl_env_scheme \<Rightarrow> world \<Rightarrow> string \<Rightarrow> nat \<Rightarrow> (string \<times> string) list option \<Rightarrow> string \<Rightarrow> bool \<Rightarrow> control" where
  "control_connection e w secret threads apns input stalls =
     control_serve e \<lparr>ct_sock = \<lparr>sk_in = input, sk_tls_in = [], sk_stalls = stalls, sk_out = [],
       sk_room = []\<rparr>, ct_world = w, ct_secret = secret,
       ct_authenticated = False, ct_threads = threads, ct_apns = apns, ct_bQuit = False\<rparr>"

section \<open>The secret\<close>

text \<open>What a connection may change besides its own state.\<close>

definition powerless :: "control \<Rightarrow> control \<Rightarrow> bool" where
  "powerless s t \<longleftrightarrow> ct_world t = ct_world s \<and> ct_apns t = ct_apns s \<and> ct_bQuit t = ct_bQuit s"

lemma scan_word_infix: "scan_str w l = Some (k, r) \<Longrightarrow> \<exists>a. l = a @ k @ r"
proof -
  assume s: "scan_str w l = Some (k, r)"
  let ?t = "dropWhile is_space l"
  have k: "k = take w (takeWhile (\<lambda>c. \<not> is_space c) ?t)" "r = drop (length k) ?t"
    using s by (auto simp: scan_str_def Let_def split: if_splits)
  then have "k = take (length k) ?t"
    by (metis append_eq_conv_conj append_take_drop_id takeWhile_dropWhile_id append.assoc)
  then have "k @ r = ?t" using k(2) by (metis append_take_drop_id)
  then have "l = takeWhile is_space l @ k @ r" by (simp add: takeWhile_dropWhile_id)
  then show ?thesis by blast
qed

lemma skip_word_str_infix: "skip_word_str l = Some k \<Longrightarrow> \<exists>a b. l = a @ k @ b"
proof -
  assume "skip_word_str l = Some k"
  then obtain c r r' where "scan_str (length l) l = Some (c, r)" "scan_str 32 r = Some (k, r')"
    by (auto simp: skip_word_str_def scan_word_def split: option.splits)
  then obtain a a' where "l = a @ c @ r" "r = a' @ k @ r'" using scan_word_infix by blast
  then have "l = (a @ c @ a') @ k @ r'" by simp
  then show ?thesis by blast
qed

lemma ProcessRequestLine_powerless:
  assumes "\<not> ct_authenticated s" and "\<forall>a b. l \<noteq> a @ ct_secret s @ b"
  shows "powerless s (snd (ProcessRequestLine e l s)) \<and> \<not> ct_authenticated (snd (ProcessRequestLine e l s))"
proof -
  have "skip_word_str l \<noteq> Some (ct_secret s)" using assms(2) skip_word_str_infix by blast
  then have "powerless s (control_auth l s) \<and> \<not> ct_authenticated (control_auth l s)"
    using assms(1) by (auto simp: control_auth_def powerless_def split: option.split)
  then show ?thesis
    using assms(1)
    by (intro ProcessRequestLine_cases [where P = "\<lambda>p. powerless s (snd p) \<and> \<not> ct_authenticated (snd p)"])
       (simp_all add: powerless_def)
qed

lemma powerless_trans: "powerless s t \<Longrightarrow> powerless t v \<Longrightarrow> powerless s v"
  by (simp add: powerless_def)


definition sample_control :: control where
  "sample_control =
     \<lparr>ct_sock = \<lparr>sk_in = ''AUTH guess'' @ [NL] @ ''clear_msgqueue'' @ [NL], sk_tls_in = [],
        sk_stalls = False, sk_out = [], sk_room = []\<rparr>,
      ct_world = sample_world, ct_secret = ''hidden'', ct_authenticated = False, ct_threads = 1, ct_apns = None,
      ct_bQuit = False\<rparr>"


end
