(* ===== verification/MsgQueue_Steps.thy ===== *)
theory MsgQueue_Steps
  imports MsgQueue_Correct Control
begin

text \<open>
  The queue runner as a step relation: its main loop, its worker threads, the sessions that
  enqueue and release messages, and the control channel, in any order. The invariant \<open>mq_ok\<close>
  says that a message is in one pair of hands at a time; the steps say how a message can leave
  the queue.
\<close>

section \<open>Several rows at once\<close>

lemma queue_ok_filter:
  assumes "queue_ok w is u" and "msgqueue v = filter p (msgqueue w)" and "next_id w \<le> next_id v"
    and "\<forall>r \<in> set (msgqueue w). q_active r = 1 \<longrightarrow> p r"
  shows "queue_ok v is u"
proof -
  have w: "queue_ids_ok w" "\<forall>i \<in> set is. \<exists>r \<in> set (msgqueue w). item_of r i" "u \<subseteq> q_id ` set (msgqueue w)"
      "\<forall>r \<in> set (msgqueue w). q_active r = 1 \<longleftrightarrow> q_id r \<in> it_id ` set is \<union> u"
      "distinct (map it_id is)" "it_id ` set is \<inter> u = {}"
    using assms(1) by (simp_all add: queue_ok_def)
  have "queue_ids_ok v" using w(1) assms(2,3) by (auto simp: queue_ids_ok_def distinct_map_filter)
  moreover have "\<exists>r \<in> set (msgqueue v). item_of r i" if i: "i \<in> set is" for i
  proof -
    obtain r where r: "r \<in> set (msgqueue w)" "item_of r i" using w(2) i by blast
    then have "q_id r \<in> it_id ` set is" using i by (metis image_eqI item_of_def)
    then have "p r" using r w(4) assms(4) by blast
    then show ?thesis using r assms(2) by auto
  qed
  moreover have "u \<subseteq> q_id ` set (msgqueue v)"
  proof
    fix x assume x: "x \<in> u"
    then obtain r where r: "r \<in> set (msgqueue w)" "x = q_id r" using w(3) by blast
    then have "p r" using w(4) assms(4) x by blast
    then show "x \<in> q_id ` set (msgqueue v)" using r assms(2) by auto
  qed
  ultimately show ?thesis using w assms(2) by (simp add: queue_ok_def)
qed

text \<open>Rows change hands: \<open>is\<close> and \<open>u\<close> to \<open>js\<close> and \<open>x\<close>, their activity to match.\<close>

lemma queue_ok_hands:
  assumes "queue_ok w is u" and "msgqueue v = map f (msgqueue w)" and "next_id w \<le> next_id v"
    and "\<forall>r. q_id (f r) = q_id r \<and> (\<forall>i. item_of r i \<longrightarrow> item_of (f r) i)"
    and "distinct (map it_id js)" and "it_id ` set js \<inter> x = {}"
    and "\<forall>i \<in> set js. \<exists>r \<in> set (msgqueue w). item_of r i" and "x \<subseteq> q_id ` set (msgqueue w)"
    and "\<forall>r \<in> set (msgqueue w). q_active (f r) = 1 \<longleftrightarrow> q_id r \<in> it_id ` set js \<union> x"
  shows "queue_ok v js x"
proof -
  have "queue_ids_ok v"
    by (rule queue_ids_ok_same [of w]) (use assms in \<open>simp_all add: queue_ok_def\<close>)
  moreover have "q_id ` set (msgqueue v) = q_id ` set (msgqueue w)" using assms(2,4) by (simp add: image_image)
  moreover have "\<exists>r \<in> set (msgqueue v). item_of r i" if "i \<in> set js" for i
    using assms(2,4,7) that by (metis image_eqI list.set_map)
  ultimately show ?thesis using assms(2,4,5,6,8,9) by (auto simp: queue_ok_def)
qed

text \<open>Columns that the items do not copy may change at any time.\<close>

lemma queue_ok_map:
  assumes "queue_ok w is u" and "msgqueue v = map f (msgqueue w)" and "next_id w \<le> next_id v"
    and "\<forall>r. q_id (f r) = q_id r \<and> q_active (f r) = q_active r \<and> (\<forall>i. item_of r i \<longrightarrow> item_of (f r) i)"
  shows "queue_ok v is u"
  by (rule queue_ok_hands [OF assms(1-3)]) (use assms(1,4) in \<open>simp_all add: queue_ok_def\<close>)

section \<open>The control channel\<close>

lemma fold_unlink_queue [simp]:
  "msgqueue (fold (\<lambda>r. unlink (f r)) rs w) = msgqueue w" "next_id (fold (\<lambda>r. unlink (f r)) rs w) = next_id w"
  by (induction rs arbitrary: w) (simp_all add: unlink_def)

lemma foldl_last: "foldl (\<lambda>a x. f x) b xs = (if xs = [] then b else f (last xs))"
  by (induction xs arbitrary: b) (simp_all split: list.split)

lemma row_active_in:
  "queue_ids_ok w \<Longrightarrow> r \<in> set (msgqueue w) \<Longrightarrow> row_active w (q_id r) = (q_active r = 1)"
proof -
  assume w: "queue_ids_ok w" "r \<in> set (msgqueue w)"
  let ?f = "filter (\<lambda>q. q_id q = q_id r) (msgqueue w)"
  have n: "?f \<noteq> []" using w(2) by (auto simp: filter_empty_conv)
  moreover have "last ?f = r"
  proof -
    have "last ?f \<in> set ?f" using n by (rule last_in_set)
    then show ?thesis using unique_row [OF w(1), of "last ?f" r] w(2) by simp
  qed
  ultimately show ?thesis by (simp add: row_active_def foldl_last)
qed

lemma delete_queueitem_ok:
  assumes "queue_ok w is u" and "delete_queueitem e i w = (b, v)"
  shows "queue_ok v is u"
proof (cases "row_active w i")
  case True
  then show ?thesis using assms by (simp add: delete_queueitem_def)
next
  case False
  have "queue_ids_ok w" using assms(1) by (simp add: queue_ok_def)
  then have "\<forall>r \<in> set (msgqueue w). q_active r = 1 \<longrightarrow> q_id r \<noteq> i" using False row_active_in by blast
  moreover have "v = remove_item e i w" using False assms(2) by (simp add: delete_queueitem_def)
  ultimately show ?thesis by (intro queue_ok_filter [OF assms(1), of _ "\<lambda>r. q_id r \<noteq> i"]) simp_all
qed

lemma clear_msgqueue_ok: "queue_ok w is u \<Longrightarrow> queue_ok (clear_msgqueue e w) is u"
  by (erule queue_ok_filter [where p = "\<lambda>r. q_active r \<noteq> 0"]) (simp_all add: clear_msgqueue_def Let_def)

lemma flush_msgqueue_ok: "queue_ok w is u \<Longrightarrow> queue_ok (flush_msgqueue w) is u"
  by (erule queue_ok_map [where f = "\<lambda>r. if q_deleted r = 0 then r\<lparr>q_last_attempt := 0\<rparr> else r"])
     (simp_all add: flush_msgqueue_def item_of_def)

section \<open>Reading the queue\<close>

lemma fold_remove_queue:
  "msgqueue (fold (\<lambda>r. remove_item e (q_id r)) rs w) = filter (\<lambda>q. q_id q \<notin> q_id ` set rs) (msgqueue w)"
  "next_id (fold (\<lambda>r. remove_item e (q_id r)) rs w) = next_id w"
  by (induction rs arbitrary: w) (auto intro: filter_cong)

lemma delete_marked_queue:
  assumes "queue_ids_ok w"
  shows "msgqueue (delete_marked e w) = filter (\<lambda>r. \<not> (q_deleted r = 1 \<and> q_active r = 0)) (msgqueue w)"
proof -
  let ?L = "filter (\<lambda>r. q_deleted r = 1 \<and> q_active r = 0) (msgqueue w)"
  have "q_id r \<in> q_id ` set ?L \<longleftrightarrow> q_deleted r = 1 \<and> q_active r = 0" if r: "r \<in> set (msgqueue w)" for r
    using unique_row [OF assms] r by fastforce
  then show ?thesis unfolding delete_marked_def fold_remove_queue by (intro filter_cong) auto
qed

lemma delete_marked_ok: "queue_ok w is u \<Longrightarrow> queue_ok (delete_marked e w) is u"
proof -
  assume ok: "queue_ok w is u"
  show ?thesis
  proof (rule queue_ok_filter [OF ok delete_marked_queue])
    show "queue_ids_ok w" using ok by (simp add: queue_ok_def)
  qed (simp_all add: delete_marked_def fold_remove_queue)
qed

lemma item_of_row [simp]: "item_of r (RowToMSGQueueItem e r)"
  by (simp add: item_of_def RowToMSGQueueItem_def)

lemma it_id_row [simp]: "it_id (RowToMSGQueueItem e r) = q_id r"
  by (simp add: RowToMSGQueueItem_def)

text \<open>What the runner reads: at most as many due rows as its queue has room for, the first in order.\<close>

definition fetched :: "'x env_scheme \<Rightarrow> mq \<Rightarrow> MSGQueueItem list" where
  "fetched e s = map (RowToMSGQueueItem e) (take (items_to_read s) (due_rows e (mq_world s)))"

lemma fetched_rows: "i \<in> set (fetched e s) \<Longrightarrow>
    \<exists>r \<in> set (msgqueue (mq_world s)). i = RowToMSGQueueItem e r \<and> due e (mq_world s) r"
  by (auto simp: fetched_def due_rows_def dest!: in_set_takeD)

lemma fetched_distinct: "queue_ids_ok (mq_world s) \<Longrightarrow> distinct (map it_id (fetched e s))"
proof -
  assume "queue_ids_ok (mq_world s)"
  then have "distinct (map q_id (due_rows e (mq_world s)))"
    by (auto simp: queue_ids_ok_def due_rows_def distinct_map intro: inj_on_subset)
  then show ?thesis by (simp add: fetched_def comp_def take_map [symmetric] distinct_take)
qed

lemma fetch_due_state:
  "tp_queue (threadPool (fetch_due e s)) = tp_queue (threadPool s) @ fetched e s"
  "working (fetch_due e s) = working s" "results (fetch_due e s) = results s"
  "msgqueue (mq_world (fetch_due e s)) =
     map (\<lambda>r. if q_id r \<in> it_id ` set (fetched e s) then r\<lparr>q_active := 1\<rparr> else r) (msgqueue (mq_world s))"
  "next_id (mq_world (fetch_due e s)) = next_id (mq_world s)"
  by (simp_all add: fetch_due_def fetched_def tp.add_all Let_def)

lemma fetch_due_ok:
  assumes "queue_ok (mq_world s) (in_flight s) u"
  shows "queue_ok (mq_world (fetch_due e s)) (in_flight (fetch_due e s)) u"
proof -
  let ?w = "mq_world s" and ?new = "fetched e s"
  have w: "queue_ids_ok ?w" "distinct (map it_id (in_flight s))" "it_id ` set (in_flight s) \<inter> u = {}"
      "\<forall>i \<in> set (in_flight s). \<exists>r \<in> set (msgqueue ?w). item_of r i" "u \<subseteq> q_id ` set (msgqueue ?w)"
      "\<forall>r \<in> set (msgqueue ?w). q_active r = 1 \<longleftrightarrow> q_id r \<in> it_id ` set (in_flight s) \<union> u"
    using assms by (simp_all add: queue_ok_def)
  have fresh: "it_id i \<notin> it_id ` set (in_flight s) \<union> u" if i: "i \<in> set ?new" for i
  proof -
    obtain r where r: "r \<in> set (msgqueue ?w)" "i = RowToMSGQueueItem e r" "due e ?w r" using fetched_rows [OF i] by blast
    then have "q_active r \<noteq> 1" by (simp add: due_def)
    then show ?thesis using w(6) r(1,2) by simp
  qed
  then have apart: "it_id ` set ?new \<inter> it_id ` set (in_flight s) = {}" "it_id ` set ?new \<inter> u = {}" by blast+
  have "queue_ok (mq_world (fetch_due e s)) (in_flight s @ ?new) u"
  proof (rule queue_ok_hands [OF assms fetch_due_state(4)])
    show "distinct (map it_id (in_flight s @ ?new))" 
      using w(2) fetched_distinct [OF w(1)] apart(1) by (simp add: Int_commute)
    show "\<forall>i \<in> set (in_flight s @ ?new). \<exists>r \<in> set (msgqueue ?w). item_of r i"
      using w(4) fetched_rows [of _ e s] item_of_row by (fastforce simp del: set_map)
    show "it_id ` set (in_flight s @ ?new) \<inter> u = {}" using w(3) apart(2) by auto
  qed (use w in \<open>auto simp: fetch_due_state item_of_def\<close>)
  moreover have "mset (in_flight s @ ?new) = mset (in_flight (fetch_due e s))"
    by (simp add: in_flight_def fetch_due_state)
  ultimately show ?thesis using queue_ok_perm by blast
qed

lemma ProcessQueue_ok:
  assumes "queue_ok (mq_world s) (in_flight s) u"
  shows "queue_ok (mq_world (ProcessQueue e s)) (in_flight (ProcessQueue e s)) u"
  unfolding ProcessQueue_def
  by (rule fetch_due_ok) (simp add: in_flight_def delete_marked_ok [OF assms, unfolded in_flight_def])

section \<open>Releasing and withdrawing\<close>

lemma ReleaseMessages_ok:
  assumes "queue_ok w is u" and "set IDs \<subseteq> u"
  shows "queue_ok (ReleaseMessages IDs w) is (u - set IDs)"
proof (rule queue_ok_hands [OF assms(1), where f = "\<lambda>r. if q_id r \<in> set IDs then r\<lparr>q_active := 0\<rparr> else r"])
  have "it_id ` set is \<inter> u = {}" using assms(1) by (simp add: queue_ok_def)
  then show "\<forall>r \<in> set (msgqueue w). q_active (if q_id r \<in> set IDs then r\<lparr>q_active := 0\<rparr> else r) = 1 \<longleftrightarrow>
      q_id r \<in> it_id ` set is \<union> (u - set IDs)"
    using assms by (auto simp: queue_ok_def)
qed (use assms in \<open>auto simp: ReleaseMessages_def item_of_def queue_ok_def\<close>)

lemma foldl_unlink_queue [simp]:
  "msgqueue (foldl (\<lambda>v i. unlink (f i) v) w xs) = msgqueue w" "next_id (foldl (\<lambda>v i. unlink (f i) v) w xs) = next_id w"
  by (induction xs arbitrary: w) (simp_all add: unlink_def)

lemma DeleteMessages_queue:
  "msgqueue (DeleteMessages e IDs w) = filter (\<lambda>r. q_id r \<notin> set IDs) (msgqueue w)"
  "next_id (DeleteMessages e IDs w) = next_id w"
  by (simp_all add: DeleteMessages_def delete_queue_rows_def)

lemma DeleteMessages_ok:
  assumes "queue_ok w is u" and "set IDs \<subseteq> u"
  shows "queue_ok (DeleteMessages e IDs w) is (u - set IDs)"
proof -
  let ?f = "\<lambda>r. if q_id r \<in> set IDs then r\<lparr>q_active := 0\<rparr> else r"
  have rel: "queue_ok (ReleaseMessages IDs w) is (u - set IDs)" by (rule ReleaseMessages_ok [OF assms])
  have "msgqueue (DeleteMessages e IDs w) = filter (\<lambda>r. q_id r \<notin> set IDs) (msgqueue (ReleaseMessages IDs w))"
    by (auto simp: DeleteMessages_queue ReleaseMessages_def filter_map comp_def intro!: map_idI [symmetric])
  then show ?thesis
    by (rule queue_ok_filter [OF rel]) (auto simp: DeleteMessages_queue ReleaseMessages_def)
qed

section \<open>All results\<close>

lemma process_all_ok:
  "process_all e rs w = Some v \<Longrightarrow> queue_ok w (map rs_item rs @ is) u \<Longrightarrow> queue_ok v is u"
proof (induction rs arbitrary: w)
  case (Cons r rs)
  then obtain w1 where w1: "ProcessResult e w r = Some w1" "process_all e rs w1 = Some v" by (auto split: option.splits)
  have "queue_ok w1 (map rs_item rs @ is) u" by (rule ProcessResult_ok [OF _ w1(1)]) (use Cons.prems(2) in simp)
  then show ?case by (rule Cons.IH [OF w1(2)])
qed simp

lemma greylist_fold_queue [simp]:
  "msgqueue (fold (\<lambda>(k, a). greylist_add (f k) a) xs w) = msgqueue w"
  "next_id (fold (\<lambda>(k, a). greylist_add (f k) a) xs w) = next_id w"
  by (induction xs arbitrary: w) (auto simp: greylist_add_def split: option.split)

lemma ProcessResults_ok:
  assumes "queue_ok (mq_world s) (in_flight s) u" and "ProcessResults e found s = Some t"
  shows "queue_ok (mq_world t) (in_flight t) u"
proof -
  obtain w where w: "process_all e (results s) (mq_world s) = Some w" "msgqueue (mq_world t) = msgqueue w"
      "next_id (mq_world t) = next_id w" "in_flight t = tp_queue (threadPool s) @ working s"
    using assms(2) by (auto simp: ProcessResults_def in_flight_def)
  have "mset (in_flight s) = mset (map rs_item (results s) @ tp_queue (threadPool s) @ working s)"
    by (simp add: in_flight_def)
  then have "queue_ok (mq_world s) (map rs_item (results s) @ tp_queue (threadPool s) @ working s) u"
    using assms(1) queue_ok_perm by blast
  from process_all_ok [OF w(1) this] show ?thesis unfolding w(4) by (rule queue_ok_world) (simp_all add: w)
qed

section \<open>Steps\<close>

text \<open>
  The state of the runner, and the ids that producers hold: rows that an SMTP session or a caller
  of \<open>EnqueueMessage\<close> has made and not yet released.
\<close>

inductive mq_step :: "'x mq_env_scheme \<Rightarrow> mq \<times> int set \<Rightarrow> mq \<times> int set \<Rightarrow> bool" for e where
  read_queue: "mq_step e (s, u) (ProcessQueue e s, u)"
| write_results: "ProcessResults e found s = Some t \<Longrightarrow> mq_step e (s, u) (t, u)"
| shrink: "mq_step e (s, u) (s\<lparr>threadPool := tp_shrink (threadPool s)\<rparr>, u)"
| refresh: "mq_step e (s, u) (RefreshLocalDomains e s, u)"
| enter: "popJob_enter b skip (threadPool s) = Some (b', p) \<Longrightarrow> mq_step e (s, u) (s\<lparr>threadPool := p\<rparr>, u)"
| take_job: "popJob_take b skip (threadPool s) = (Some i, b', p) \<Longrightarrow>
    mq_step e (s, u) (s\<lparr>threadPool := p, working := working s @ [i]\<rparr>, u)"
| no_job: "popJob_take b skip (threadPool s) = (None, b', p) \<Longrightarrow>
    mq_step e (s, u) (s\<lparr>threadPool := thread_end p\<rparr>, u)"
| finish: "working s = xs @ rs_item r # ys \<Longrightarrow>
    mq_step e (s, u) (s\<lparr>working := xs @ ys, results := results s @ [r]\<rparr>, u)"
| greylist: "mq_step e (s, u) (AddToGreylist a s, u)"
| stop: "mq_step e (s, u) (s\<lparr>threadPool := tp_stop (threadPool s)\<rparr>, u)"
| clear: "mq_step e (s, u) (ClearQueue s, u)"
| enqueue: "EnqueueMessage e (mq_world s) a = Some (j, w) \<Longrightarrow>
    mq_step e (s, u) (s\<lparr>mq_world := w\<rparr>, if qa_instant_release a \<or> j = 0 then u else insert j u)"
| release: "set IDs \<subseteq> u \<Longrightarrow> mq_step e (s, u) (s\<lparr>mq_world := ReleaseMessages IDs (mq_world s)\<rparr>, u - set IDs)"
| withdraw: "set IDs \<subseteq> u \<Longrightarrow> mq_step e (s, u) (s\<lparr>mq_world := DeleteMessages e IDs (mq_world s)\<rparr>, u - set IDs)"
| ctl_delete: "delete_queueitem e i (mq_world s) = (b, w) \<Longrightarrow> mq_step e (s, u) (s\<lparr>mq_world := w\<rparr>, u)"
| ctl_flush: "mq_step e (s, u) (s\<lparr>mq_world := flush_msgqueue (mq_world s)\<rparr>, u)"
| ctl_clear: "mq_step e (s, u) (s\<lparr>mq_world := clear_msgqueue e (mq_world s)\<rparr>, u)"
| mark: "mq_step e (s, u) (s\<lparr>mq_world := update_queue_rows p (\<lambda>r. r\<lparr>q_deleted := 1\<rparr>) (mq_world s)\<rparr>, u)"
| others: "msgqueue w = msgqueue (mq_world s) \<Longrightarrow> next_id (mq_world s) \<le> next_id w \<Longrightarrow>
    mq_step e (s, u) (s\<lparr>mq_world := w\<rparr>, u)"

inductive mq_steps :: "'x mq_env_scheme \<Rightarrow> mq \<times> int set \<Rightarrow> mq \<times> int set \<Rightarrow> bool" for e where
  refl: "mq_steps e a a"
| step: "mq_steps e a b \<Longrightarrow> mq_step e b c \<Longrightarrow> mq_steps e a c"

lemma queue_ok_drop:
  assumes "queue_ok w (qs @ is) u"
    and "msgqueue v = map (\<lambda>r. if q_id r \<in> it_id ` set qs then r\<lparr>q_active := 0\<rparr> else r) (msgqueue w)"
    and "next_id w \<le> next_id v"
  shows "queue_ok v is u"
proof (rule queue_ok_hands [OF assms])
  have d: "it_id ` set qs \<inter> it_id ` set is = {}" "it_id ` set qs \<inter> u = {}"
    using assms(1) by (simp_all add: queue_ok_def image_Un Int_Un_distrib2)
  have "\<forall>r \<in> set (msgqueue w). q_active r = 1 \<longleftrightarrow> q_id r \<in> it_id ` set qs \<union> it_id ` set is \<union> u"
    using assms(1) by (simp add: queue_ok_def image_Un Un_assoc)
  then show "\<forall>r \<in> set (msgqueue w). q_active (if q_id r \<in> it_id ` set qs then r\<lparr>q_active := 0\<rparr> else r) = 1 \<longleftrightarrow>
      q_id r \<in> it_id ` set is \<union> u"
    using d by auto
qed (use assms in \<open>auto simp: queue_ok_def item_of_def\<close>)

lemma ClearQueue_ok:
  assumes "queue_ok (mq_world s) (in_flight s) u"
  shows "queue_ok (mq_world (ClearQueue s)) (in_flight (ClearQueue s)) u"
proof -
  have "in_flight (ClearQueue s) = working s @ map rs_item (results s)"
    by (simp add: in_flight_def ClearQueue_def Let_def)
  then show ?thesis
    using queue_ok_drop [OF assms [unfolded in_flight_def], of "mq_world (ClearQueue s)"]
    by (simp add: ClearQueue_def Let_def)
qed

lemma in_flight_simps [simp]:
  "in_flight (s\<lparr>mq_world := w\<rparr>) = in_flight s" "in_flight (AddToGreylist a s) = in_flight s"
  "in_flight (RefreshLocalDomains e s) = in_flight s" "mq_world (RefreshLocalDomains e s) = mq_world s"
  "mq_world (AddToGreylist a s) = mq_world s"
  by (simp_all add: in_flight_def AddToGreylist_def RefreshLocalDomains_def)

lemma in_flight_pool: "tp_queue p = tp_queue (threadPool s) \<Longrightarrow> in_flight (s\<lparr>threadPool := p\<rparr>) = in_flight s"
  by (simp add: in_flight_def)

lemma mq_ok_pool: "tp_queue p = tp_queue (threadPool s) \<Longrightarrow> mq_ok (s, u) \<Longrightarrow> mq_ok (s\<lparr>threadPool := p\<rparr>, u)"
  by (simp add: mq_ok_def in_flight_pool)

lemma mq_ok_perm:
  "mset (in_flight t) = mset (in_flight s) \<Longrightarrow> mq_world t = mq_world s \<Longrightarrow> mq_ok (s, u) \<Longrightarrow> mq_ok (t, u)"
  by (simp add: mq_ok_def queue_ok_perm [of "in_flight t" "in_flight s"])

lemma mq_step_ok:
  assumes "mq_step e a b" and "mq_ok a"
  shows "mq_ok b"
  using assms
proof (induction rule: mq_step.induct)
  case (take_job b skip s i b' p u)
  have "tp_queue (threadPool s) = i # tp_queue p" using popJob_take_queue [OF take_job(1)] by simp
  then show ?case by (intro mq_ok_perm [OF _ _ take_job(2)]) (simp_all add: in_flight_def)
next
  case (finish s xs r ys u)
  then show ?case by (intro mq_ok_perm [OF _ _ finish(2)]) (simp_all add: in_flight_def)
next
  case (no_job b skip s b' p u)
  then show ?case using popJob_take_queue [OF no_job(1)] by (intro mq_ok_pool) simp_all
next
  case (enter b skip s b' p u)
  then show ?case using popJob_enter_queue by (intro mq_ok_pool) simp_all
next
  case (mark s u p)
  then have ok: "queue_ok (mq_world s) (in_flight s) u" by (simp add: mq_ok_def)
  have "queue_ok (update_queue_rows p (\<lambda>r. r\<lparr>q_deleted := 1\<rparr>) (mq_world s)) (in_flight s) u"
    by (rule queue_ok_map [OF ok, where f = "\<lambda>r. if p (q_id r) then r\<lparr>q_deleted := 1\<rparr> else r"])
       (simp_all add: item_of_def)
  then show ?case by (simp add: mq_ok_def)
next
  case (write_results found s t u)
  then show ?case using ProcessResults_ok by (simp add: mq_ok_def)
next
  case (enqueue s a j w u)
  then show ?case using queue_ok_enqueue [OF _ enqueue(1)] by (simp add: mq_ok_def)
next
  case (others w s u)
  then show ?case using queue_ok_world [of "mq_world s" "in_flight s" u w] by (simp add: mq_ok_def)
qed (simp_all add: mq_ok_def ProcessQueue_ok ClearQueue_ok ReleaseMessages_ok DeleteMessages_ok delete_queueitem_ok
    flush_msgqueue_ok clear_msgqueue_ok in_flight_pool)

lemma mq_steps_ok: "mq_steps e a b \<Longrightarrow> mq_ok a \<Longrightarrow> mq_ok b"
  by (induction rule: mq_steps.induct) (auto intro: mq_step_ok)

end
