(* ===== verification/MsgQueue_Safe.thy ===== *)
theory MsgQueue_Safe
  imports MsgQueue_Steps
begin

text \<open>
  What the queue runner promises: one pair of hands per message, no message lost while it is in
  someone's hands, the outcome of every delivery result, the choice of the messages to deliver,
  and a clean end; and the restart that breaks the first promise.
\<close>

section \<open>One pair of hands\<close>

lemma start_runner_ok: "queue_ids_ok w \<Longrightarrow> mq_ok (start_runner e w, {})"
proof -
  assume "queue_ids_ok w"
  then have "queue_ids_ok (reanimate w)"
    by (rule queue_ids_ok_same) (simp_all add: reanimate_def comp_def if_distrib)
  then show ?thesis
    by (auto simp: mq_ok_def queue_ok_def start_runner_def in_flight_def RefreshLocalDomains_def new_ThreadPool_def
        tp_start_def reanimate_def Let_def)
qed


section \<open>Leaving the queue\<close>

definition final_result :: "'x env_scheme \<Rightarrow> world \<Rightarrow> MSGQueueResult \<Rightarrow> bool" where
  "final_result e w r \<longleftrightarrow> rs_status r = QUEUE_STATUS_SUCCESS \<or> gives_up e w r"

lemma BounceMessage_now: "BounceMessage e w i r = Some (b, v) \<Longrightarrow> queue_ids_ok w \<Longrightarrow> now v = now w"
proof (cases "length (it_from i) < 5 \<or> strcaseeq (it_from i) (it_to i)")
  case False
  assume r: "BounceMessage e w i r = Some (b, v)" and w: "queue_ids_ok w"
  obtain key w1 where k: "MakeRandomKey 32 w = (key, w1)" by fastforce
  obtain mid w2 where m: "MakeRandomKey 32 w1 = (mid, w2)" by fastforce
  obtain a j where a: "EnqueueMessage e w2 a = Some (j, v)"
    using False r k m by (auto simp: BounceMessage_def Let_def)
  have same: "msgqueue w2 = msgqueue w" "next_id w2 = next_id w" "now w2 = now w"
    using MakeRandomKey_same [OF k] MakeRandomKey_same [OF m] by simp_all
  then have "queue_ids_ok w2" using w by (simp add: queue_ids_ok_def)
  then have "queue_change w2 v" using EnqueueMessage_result a by blast
  then show ?thesis using queue_change_simps(5) same(3) by simp
qed (simp add: BounceMessage_def)

lemma now_same [simp]:
  "now (SetMailDeliveryStatus e w i st d) = now w" "now (remove_item e i w) = now w"
  "now (result_abuse e j r w) = now w" "now (update_queue_rows p f w) = now w"
  by (simp_all add: SetMailDeliveryStatus_def remove_item_def unlink_def delete_queue_rows_def result_abuse_def
      AddAbusePoint_def update_queue_rows_def Let_def split: option.split)

lemma give_up_now: "give_up e w i r = Some v \<Longrightarrow> queue_ids_ok w \<Longrightarrow> now v = now w"
  using BounceMessage_now by (fastforce simp: give_up_def split: if_splits)

lemma ProcessResult_now: "ProcessResult e w r = Some v \<Longrightarrow> queue_ids_ok w \<Longrightarrow> now v = now w"
  by (cases "rs_status r")
     (auto simp: ProcessResult_def retry_later_def Let_def dest: give_up_now split: if_splits)

lemma row_removed_ids: "q_id ` set (row_removed i rs) = q_id ` set rs - {i}"
  by (auto simp: row_removed_def)

lemma ProcessResult_ids:
  assumes "queue_ok w (rs_item r # is) u" and "ProcessResult e w r = Some v"
    and "x \<in> q_id ` set (msgqueue w)" and "x \<notin> q_id ` set (msgqueue v)"
  shows "it_id (rs_item r) = x \<and> final_result e w r"
proof -
  consider "rs_status r = QUEUE_STATUS_SUCCESS" | "gives_up e w r"
    | "rs_status r \<noteq> QUEUE_STATUS_SUCCESS" "\<not> gives_up e w r" by blast
  then show ?thesis
  proof cases
    case 1
    then have "q_id ` set (msgqueue v) = q_id ` set (msgqueue w) - {it_id (rs_item r)}"
      using ProcessResult_success [OF assms(2)] by (simp add: row_removed_ids)
    then show ?thesis using assms(3,4) 1 by (auto simp: final_result_def)
  next
    case 2
    obtain bs where "msgqueue v = row_removed (it_id (rs_item r)) (msgqueue w) @ bs"
      using ProcessResult_giving_up [OF assms(1,2) 2] by blast
    then have "q_id ` set (msgqueue w) - {it_id (rs_item r)} \<subseteq> q_id ` set (msgqueue v)"
      by (simp add: image_Un row_removed_ids)
    then show ?thesis using assms(3,4) 2 by (auto simp: final_result_def)
  next
    case 3
    have "map q_id (msgqueue v) = map q_id (msgqueue w)"
      using ProcessResult_retry [OF assms(2) 3] by (simp add: deferred_def)
    then have "q_id ` set (msgqueue v) = q_id ` set (msgqueue w)" by (metis set_map)
    then show ?thesis using assms(3,4) by simp
  qed
qed

lemma process_all_ids:
  "process_all e rs w = Some v \<Longrightarrow> queue_ok w (map rs_item rs @ is) u \<Longrightarrow> x \<in> q_id ` set (msgqueue w) \<Longrightarrow>
     x \<notin> q_id ` set (msgqueue v) \<Longrightarrow> \<exists>r \<in> set rs. it_id (rs_item r) = x \<and> final_result e w r"
proof (induction rs arbitrary: w)
  case (Cons r rs)
  then obtain w1 where w1: "ProcessResult e w r = Some w1" "process_all e rs w1 = Some v" by (auto split: option.splits)
  have ok: "queue_ok w (rs_item r # map rs_item rs @ is) u" using Cons.prems(2) by simp
  have n: "now w1 = now w" using ProcessResult_now [OF w1(1)] ok by (simp add: queue_ok_def)
  show ?case
  proof (cases "x \<in> q_id ` set (msgqueue w1)")
    case True
    from Cons.IH [OF w1(2) ProcessResult_ok [OF ok w1(1)] True Cons.prems(4)]
    show ?thesis using n by (auto simp: final_result_def gives_up_def expired_def)
  next
    case False
    then show ?thesis using ProcessResult_ids [OF ok w1(1) Cons.prems(3)] by simp
  qed
qed simp

text \<open>Every row that is active stays.\<close>

definition stays :: "world \<Rightarrow> world \<Rightarrow> bool" where
  "stays w v \<longleftrightarrow> (\<forall>r \<in> set (msgqueue w). q_active r = 1 \<longrightarrow> q_id r \<in> q_id ` set (msgqueue v))"

lemma stays_map: "msgqueue v = map f (msgqueue w) \<Longrightarrow> \<forall>r. q_id (f r) = q_id r \<Longrightarrow> stays w v"
  by (auto simp: stays_def image_image)

lemma stays_filter: "msgqueue v = filter p (msgqueue w) \<Longrightarrow> \<forall>r \<in> set (msgqueue w). q_active r = 1 \<longrightarrow> p r \<Longrightarrow> stays w v"
  by (auto simp: stays_def)

lemma stays_more: "set (msgqueue w) \<subseteq> set (msgqueue v) \<Longrightarrow> stays w v"
  by (auto simp: stays_def)

lemma stays_read: "queue_ids_ok (mq_world s) \<Longrightarrow> stays (mq_world s) (mq_world (ProcessQueue e s))"
proof -
  assume ids: "queue_ids_ok (mq_world s)"
  let ?p = "\<lambda>r. \<not> (q_deleted r = 1 \<and> q_active r = 0)"
    and ?I = "it_id ` set (fetched e (s\<lparr>mq_world := delete_marked e (mq_world s)\<rparr>))"
  have "msgqueue (mq_world (ProcessQueue e s)) =
      map (\<lambda>r. if q_id r \<in> ?I then r\<lparr>q_active := 1\<rparr> else r) (filter ?p (msgqueue (mq_world s)))"
    by (simp add: ProcessQueue_def fetch_due_state delete_marked_queue [OF ids])
  then have "map q_id (msgqueue (mq_world (ProcessQueue e s))) = map q_id (filter ?p (msgqueue (mq_world s)))" by simp
  then have "q_id ` set (msgqueue (mq_world (ProcessQueue e s))) = q_id ` set (filter ?p (msgqueue (mq_world s)))"
    by (metis set_map)
  then show ?thesis by (auto simp: stays_def)
qed

lemma stays_ctl_delete:
  "queue_ids_ok w \<Longrightarrow> delete_queueitem e i w = (b, v) \<Longrightarrow> stays w v"
proof (cases "row_active w i")
  case False
  assume w: "queue_ids_ok w" "delete_queueitem e i w = (b, v)"
  have "\<forall>r \<in> set (msgqueue w). q_active r = 1 \<longrightarrow> q_id r \<noteq> i" using row_active_in [OF w(1)] False by blast
  then show ?thesis
    by (rule stays_filter [where p = "\<lambda>r. q_id r \<noteq> i", rotated]) (use w(2) False in \<open>auto simp: delete_queueitem_def\<close>)
qed (auto simp: delete_queueitem_def stays_def)

text \<open>
  C19: no message is lost while it is in someone's hands. When a step of the system makes a row
  disappear that was active, then the runner has just processed a result for it that was a
  success, a fatal error or beyond the lifetime, or the producer that still held the row has
  withdrawn it. Neither the control channel nor a deletion mark nor the end of the runner does.
\<close>

theorem MQ_leaves_for_a_reason:
  assumes "mq_step e (s, u) (t, v)" and "mq_ok (s, u)"
    and "r \<in> set (msgqueue (mq_world s))" and "q_active r = 1" and "q_id r \<notin> q_id ` set (msgqueue (mq_world t))"
  shows "(\<exists>x \<in> set (results s). it_id (rs_item x) = q_id r \<and> final_result e (mq_world s) x) \<or> q_id r \<in> u - v"
proof -
  have ok: "queue_ok (mq_world s) (in_flight s) u" using assms(2) by (simp add: mq_ok_def)
  have ids: "queue_ids_ok (mq_world s)" using ok by (simp add: queue_ok_def)
  have r: "q_id r \<in> q_id ` set (msgqueue (mq_world s))" using assms(3) by simp
  have lost: False if "stays (mq_world s) (mq_world t)" using that assms(3-5) by (auto simp: stays_def)
  from assms(1) show ?thesis
  proof cases
    case (write_results found)
    obtain w where w: "process_all e (results s) (mq_world s) = Some w" "msgqueue (mq_world t) = msgqueue w"
      using write_results(2) by (auto simp: ProcessResults_def)
    have "mset (in_flight s) = mset (map rs_item (results s) @ tp_queue (threadPool s) @ working s)"
      by (simp add: in_flight_def)
    then have "queue_ok (mq_world s) (map rs_item (results s) @ tp_queue (threadPool s) @ working s) u"
      using ok queue_ok_perm by blast
    from process_all_ids [OF w(1) this r] show ?thesis using assms(5) w(2) by simp
  next
    case (withdraw IDs)
    then show ?thesis using assms(3,5) by (auto simp: DeleteMessages_queue)
  next
    case read_queue
    then show ?thesis using lost stays_read [OF ids] by blast
  next
    case (ctl_delete i b w)
    then show ?thesis using lost stays_ctl_delete [OF ids ctl_delete(3)] by simp
  next
    case (enqueue a j w)
    have "set (msgqueue (mq_world s)) \<subseteq> set (msgqueue w)"
      using EnqueueMessage_result [OF ids enqueue(3)] by (auto split: if_splits)
    then show ?thesis using lost stays_more enqueue(1) by simp
  next
    case clear
    have "stays (mq_world s) (mq_world t)"
      by (rule stays_map [where f = "\<lambda>r. if q_id r \<in> it_id ` set (tp_queue (threadPool s)) then r\<lparr>q_active := 0\<rparr> else r"])
         (simp_all add: clear ClearQueue_def Let_def)
    then show ?thesis using lost by blast
  next
    case (release IDs)
    have "stays (mq_world s) (mq_world t)"
      by (rule stays_map [where f = "\<lambda>r. if q_id r \<in> set IDs then r\<lparr>q_active := 0\<rparr> else r"])
         (simp_all add: release ReleaseMessages_def)
    then show ?thesis using lost by blast
  next
    case ctl_flush
    have "stays (mq_world s) (mq_world t)"
      by (rule stays_map [where f = "\<lambda>r. if q_deleted r = 0 then r\<lparr>q_last_attempt := 0\<rparr> else r"])
         (simp_all add: ctl_flush flush_msgqueue_def)
    then show ?thesis using lost by blast
  next
    case ctl_clear
    have "stays (mq_world s) (mq_world t)"
      by (rule stays_filter [where p = "\<lambda>r. q_active r \<noteq> 0"]) (simp_all add: ctl_clear clear_msgqueue_def Let_def)
    then show ?thesis using lost by blast
  next
    case (mark p)
    have "stays (mq_world s) (mq_world t)"
      by (rule stays_map [where f = "\<lambda>r. if p (q_id r) then r\<lparr>q_deleted := 1\<rparr> else r"]) (simp_all add: mark)
    then show ?thesis using lost by blast
  next
    case (others w)
    then show ?thesis using lost stays_more [of "mq_world s" "mq_world t"] by simp
  qed (use lost stays_more [of "mq_world s" "mq_world t"] in simp_all)
qed

section \<open>Outcomes\<close>


section \<open>Choosing messages\<close>

definition row_key :: "queue_row \<Rightarrow> int \<times> int \<times> int" where
  "row_key r = (q_attempts r, q_last_attempt r, q_id r)"

lemma due_rows_sorted: "sorted (map row_key (due_rows e w))"
  by (simp add: due_rows_def row_key_def [abs_def])

lemma sorted_take_drop:
  "sorted xs \<Longrightarrow> x \<in> set (take n xs) \<Longrightarrow> y \<in> set (drop n xs) \<Longrightarrow> x \<le> y"
  by (metis append_take_drop_id sorted_append)

text \<open>
  Which messages a run of the queue takes. The pool's queue never grows beyond its limit of
  1000 items. Every due message is either taken or comes after all that are taken: fewer attempts
  go first, then the earlier last attempt, then the smaller id. When the runner does not note that
  there is more to read, every due message has been taken.
\<close>

theorem fetch_due_choice:
  "length (tp_queue (threadPool (fetch_due e s))) \<le> max (length (tp_queue (threadPool s))) QUEUE_RUN_MAX \<and>
   (\<forall>r \<in> set (msgqueue (mq_world s)). due e (mq_world s) r \<longrightarrow>
      RowToMSGQueueItem e r \<in> set (tp_queue (threadPool (fetch_due e s))) \<or>
      (moreQueueEntries (fetch_due e s) \<and>
       (\<forall>q \<in> set (take (items_to_read s) (due_rows e (mq_world s))). row_key q \<le> row_key r)))"
proof -
  let ?n = "items_to_read s" and ?due = "due_rows e (mq_world s)"
  have q: "tp_queue (threadPool (fetch_due e s)) = tp_queue (threadPool s) @ map (RowToMSGQueueItem e) (take ?n ?due)"
    by (simp add: fetch_due_state fetched_def)
  have "RowToMSGQueueItem e r \<in> set (tp_queue (threadPool (fetch_due e s))) \<or>
      (moreQueueEntries (fetch_due e s) \<and> (\<forall>q \<in> set (take ?n ?due). row_key q \<le> row_key r))"
    if r: "r \<in> set (msgqueue (mq_world s))" "due e (mq_world s) r" for r
  proof -
    have "r \<in> set ?due" using r by (simp add: due_rows_def)
    then have "r \<in> set (take ?n ?due) \<or> r \<in> set (drop ?n ?due)"
      by (metis append_take_drop_id Un_iff set_append)
    then show ?thesis
    proof
      assume d: "r \<in> set (drop ?n ?due)"
      then have "?n < length ?due" by (metis drop_all empty_iff leI list.set(1))
      then have "moreQueueEntries (fetch_due e s)" by (simp add: fetch_due_def Let_def)
      moreover have "row_key q \<le> row_key r" if "q \<in> set (take ?n ?due)" for q
        using sorted_take_drop [OF due_rows_sorted [of e "mq_world s"], of "row_key q" ?n "row_key r"] that d
        by (simp add: take_map drop_map)
      ultimately show ?thesis by blast
    qed (simp add: q)
  qed
  moreover have "length (take ?n ?due) \<le> QUEUE_RUN_MAX - length (tp_queue (threadPool s))"
    by (simp add: items_to_read_def)
  ultimately show ?thesis by (auto simp: q)
qed

text \<open>A message that failed waits longer after each attempt.\<close>

lemma deferred_due:
  "due e w' (deferred w r q) \<longleftrightarrow>
     q_deleted q = 0 \<and> now w + (it_attempts (rs_item r) + 1) * cfg_int e ''queue_retry'' < now w'"
  by (auto simp: due_def deferred_def)

section \<open>The end\<close>

text \<open>
  An orderly end leaves nothing active. When the worker threads have finished, writing the
  last results and giving back what still waits leaves the runner with empty hands and exactly
  the rows active that producers still hold, so the next start finds the queue as it is.
\<close>

theorem MQ_shutdown:
  assumes "mq_ok (s, u)" and "working s = []" and "ProcessResults e found s = Some t"
  shows "in_flight (ClearQueue t) = [] \<and>
    (\<forall>r \<in> set (msgqueue (mq_world (ClearQueue t))). q_active r = 1 \<longleftrightarrow> q_id r \<in> u)"
proof -
  have "queue_ok (mq_world t) (in_flight t) u" using assms(1,3) ProcessResults_ok by (simp add: mq_ok_def)
  then have "queue_ok (mq_world (ClearQueue t)) (in_flight (ClearQueue t)) u" by (rule ClearQueue_ok)
  moreover have "in_flight (ClearQueue t) = []"
    using assms(2,3) by (auto simp: in_flight_def ClearQueue_def ProcessResults_def Let_def)
  ultimately show ?thesis by (simp add: queue_ok_def)
qed

section \<open>Samples\<close>

definition sample_mq :: "(string \<times> string) list \<Rightarrow> mq_env" where
  "sample_mq kvs = mta_env.extend (sample_mta kvs) \<lparr>gm_time = (\<lambda>_. ''Sat, 01 Jan 2022 00:00:00 +0000'')\<rparr>"

text \<open>A queue with one message, free or held by whoever enqueued it.\<close>

definition sample_queue :: "int \<Rightarrow> world" where
  "sample_queue active =
     (let w = sample_world\<lparr>now := 100\<rparr>
      in w\<lparr>msgqueue := [(fresh_queue_row w 7 sample_args)\<lparr>q_active := active\<rparr>], next_id := 8\<rparr>)"

definition retry_env :: mq_env where "retry_env = sample_mq [(''queue_retry'', ''60'')]"

definition later :: "int \<Rightarrow> mq \<Rightarrow> mq" where
  "later t s = s\<lparr>mq_world := (mq_world s)\<lparr>now := t\<rparr>\<rparr>"

lemma later_step: "mq_step e (s, u) (later t s, u)"
  unfolding later_def by (rule mq_step.others) simp_all

lemma sample_queue_ids: "queue_ids_ok (sample_queue a)"
  by (simp add: queue_ids_ok_def sample_queue_def fresh_queue_row_def Let_def)

definition sample_run :: mq where
  "sample_run = ProcessQueue retry_env (later 200 (start_runner retry_env (sample_queue 0)))"

lemma sample_run_steps: "mq_steps retry_env (start_runner retry_env (sample_queue 0), {}) (sample_run, {})"
  unfolding sample_run_def
  by (rule mq_steps.step [OF mq_steps.step [OF mq_steps.refl later_step] mq_step.read_queue])

lemma sample_run_jobs: "map it_id (tp_queue (threadPool sample_run)) = [7]" by code_simp


definition sample_result :: "eQueueStatus \<Rightarrow> MSGQueueResult" where
  "sample_result st =
     \<lparr>rs_item = RowToMSGQueueItem retry_env (hd (msgqueue (sample_queue 0))), rs_status = st, rs_statusInfo = ''no'',
      rs_statusCode = ''5.0.0'', rs_deliveredTo = [], rs_diagnosticCode = [], rs_apPointType = 0,
      rs_apPointComment = []\<rparr>"

lemma sample_row: "item_of (hd (msgqueue (sample_queue 1))) (rs_item (sample_result st))"
  by (simp add: sample_result_def sample_queue_def item_of_def RowToMSGQueueItem_def fresh_queue_row_def Let_def)

lemma queue_ok_single:
  "queue_ids_ok w \<Longrightarrow> msgqueue w = [r] \<Longrightarrow> item_of r i \<Longrightarrow> q_active r = 1 \<Longrightarrow> queue_ok w [i] {}"
  by (simp add: queue_ok_def item_of_def)

lemma sample_held: "queue_ok (sample_queue 1) [rs_item (sample_result st)] {}"
  by (rule queue_ok_single [OF sample_queue_ids _ sample_row]) (simp_all add: sample_queue_def Let_def)

text \<open>With ids from the server's counter, writing a result always comes to an end.\<close>

lemma ProcessResult_returns:
  assumes "\<not> cfg_is1 e ''random_queue_id''"
  shows "\<exists>v. ProcessResult e w r = Some v"
proof -
  have "EnqueueMessage e w' a \<noteq> None" for w' a
    using assms by (simp add: EnqueueMessage_def new_queue_row_def insert_queue_row_def Let_def split_beta)
  then have b: "BounceMessage e w' i r \<noteq> None" for w' i
    by (simp del: not_None_eq add: BounceMessage_def Let_def split_beta)
  then have "give_up e w' i r \<noteq> None" for w' i
    by (simp del: not_None_eq add: give_up_def)
  then show ?thesis by (cases "rs_status r") (simp_all add: ProcessResult_def Let_def)
qed

lemma retry_env_ids: "\<not> cfg_is1 retry_env ''random_queue_id''" by code_simp


lemma fetch_due_choice_witness:
  "RowToMSGQueueItem retry_env (hd (msgqueue (mq_world (later 200 (start_runner retry_env (sample_queue 0))))))
     \<in> set (tp_queue (threadPool (fetch_due retry_env (later 200 (start_runner retry_env (sample_queue 0))))))"
proof -
  let ?s = "later 200 (start_runner retry_env (sample_queue 0))"
  have h: "hd (msgqueue (mq_world ?s)) \<in> set (msgqueue (mq_world ?s))" "due retry_env (mq_world ?s) (hd (msgqueue (mq_world ?s)))"
    by code_simp+
  have "\<not> moreQueueEntries (fetch_due retry_env ?s)" by code_simp
  then show ?thesis using fetch_due_choice [of retry_env ?s] h by blast
qed

lemma MQ_shutdown_witness:
  "\<exists>t. ProcessResults retry_env (\<lambda>_. None) sample_run = Some t \<and> in_flight (ClearQueue t) = []"
proof -
  have ok: "mq_ok (sample_run, {})" by (rule mq_steps_ok [OF sample_run_steps start_runner_ok [OF sample_queue_ids]])
  have w: "working sample_run = []" by code_simp
  have r: "results sample_run = []" by code_simp
  then obtain t where t: "ProcessResults retry_env (\<lambda>_. None) sample_run = Some t" by (auto simp: ProcessResults_def)
  then show ?thesis using MQ_shutdown [OF ok w t] by blast
qed

text \<open>The message of \<open>sample_run\<close> is delivered, and its row goes.\<close>

lemma MQ_leaves_for_a_reason_witness:
  "\<exists>s t :: mq. mq_step retry_env (s, {}) (t, {}) \<and> map q_id (msgqueue (mq_world s)) = [7] \<and> msgqueue (mq_world t) = [] \<and>
     (\<exists>x \<in> set (results s). final_result retry_env (mq_world s) x)"
proof -
  let ?x = "sample_result QUEUE_STATUS_SUCCESS"
  define s :: mq where "s = (start_runner retry_env (sample_queue 0))\<lparr>mq_world := sample_queue 1, results := [?x]\<rparr>"
  have "ProcessResults retry_env (\<lambda>_. None) s \<noteq> None" by (simp add: s_def ProcessResults_def ProcessResult_def sample_result_def)
  then obtain t where t: "ProcessResults retry_env (\<lambda>_. None) s = Some t" by blast
  have i: "in_flight s = [rs_item ?x]"
    by (simp add: s_def in_flight_def start_runner_def RefreshLocalDomains_def new_ThreadPool_def tp_start_def Let_def)
  have w: "mq_world s = sample_queue 1" "results s = [?x]" by (simp_all add: s_def)
  have ok: "mq_ok (s, {})" using sample_held by (simp add: mq_ok_def i w)
  have st: "mq_step retry_env (s, {}) (t, {})" by (rule mq_step.write_results [OF t])
  obtain r where r: "msgqueue (sample_queue 1) = [r]" "q_active r = 1" "q_id r = 7"
    by (simp add: sample_queue_def fresh_queue_row_def Let_def)
  have "it_id (rs_item ?x) = 7"
    by (simp add: sample_result_def sample_queue_def RowToMSGQueueItem_def fresh_queue_row_def Let_def)
  then have e: "msgqueue (mq_world t) = []"
    using t r ProcessResult_success [of retry_env "sample_queue 1" ?x]
    by (auto simp: ProcessResults_def w row_removed_def sample_result_def split: option.splits)
  have "\<exists>x \<in> set (results s). it_id (rs_item x) = q_id r \<and> final_result retry_env (mq_world s) x"
    using MQ_leaves_for_a_reason [OF st ok, of r] r e w by simp
  then show ?thesis using st r e w by (intro exI [of _ s] exI [of _ t]) auto
qed

section \<open>A restart\<close>

text \<open>The runner starts while a session has not released its message; time passes; it is released.\<close>

definition restarted :: mq where
  "restarted = ProcessQueue retry_env (later 200 (start_runner retry_env (sample_queue 1)))"

definition redelivered :: mq where
  "redelivered = ProcessQueue retry_env
     (later 300 (restarted\<lparr>mq_world := ReleaseMessages [7] (mq_world restarted)\<rparr>))"

text \<open>
  A restart of the runner can deliver a message twice. It takes every active row for one that
  its predecessor left behind, also the row of a message that an SMTP session has just enqueued
  and not released. That row becomes due; while a thread delivers it, the session releases it,
  which makes it inactive and so due again: the same message is in the queue of jobs twice. The
  first promise of the runner therefore needs the assumption that nobody holds rows at the start.
\<close>

theorem MQ_restart_duplicates:
  "mq_steps retry_env (start_runner retry_env (sample_queue 1), {7}) (redelivered, {}) \<and>
   \<not> distinct (map it_id (in_flight redelivered))"
proof -
  let ?s = "start_runner retry_env (sample_queue 1)"
  have "mq_steps retry_env (?s, {7}) (restarted, {7})" unfolding restarted_def
    by (rule mq_steps.step [OF mq_steps.step [OF mq_steps.refl later_step] mq_step.read_queue])
  moreover have "mq_step retry_env (restarted, {7}) (restarted\<lparr>mq_world := ReleaseMessages [7] (mq_world restarted)\<rparr>, {})"
    using mq_step.release [of "[7]" "{7}" retry_env restarted] by simp
  ultimately have "mq_steps retry_env (?s, {7}) (redelivered, {})" unfolding redelivered_def
    by (intro mq_steps.step [OF mq_steps.step [OF mq_steps.step later_step] mq_step.read_queue])
  moreover have "map it_id (tp_queue (threadPool redelivered)) = [7, 7]" by code_simp
  ultimately show ?thesis by (simp add: in_flight_def)
qed

end
