(* ===== verification/SmtpPeer.thy ===== *)
theory SmtpPeer
  imports Enqueue
begin

text \<open>
  What the SMTP server decides about a peer before the first command: the address and host
  name of the connection (src/core/utils.cpp), its class by plugins, subnets and DNS block
  lists (src/smtp/smtp_peer.cpp) and greylisting (the head of \<open>SMTP::Run\<close> in
  src/smtp/smtp.cpp). The socket and resolver calls are parameters, gathered in the
  environment \<open>peer_env\<close>.
\<close>

record hostent =
  h_inet :: bool                                   \<comment> \<open>\<open>h_addrtype == AF_INET\<close>\<close>
  h_addr_list :: "byte list list"

record peer_env = mta_env +
  getpeername :: "IPAddress option"                \<comment> \<open>of stdin; IPv4 or IPv6\<close>
  sin6_flowinfo :: "byte list"
  inet_ntop :: "IPAddress \<Rightarrow> string"
  peer_name_lookup :: "string \<Rightarrow> string option"      \<comment> \<open>\<open>getnameinfo\<close>, \<open>gethostbyaddr\<close>\<close>
  gethostbyname :: "string \<Rightarrow> hostent option"
  plugin_classify :: "(IPAddress \<Rightarrow> int) list"
  data_before_greeting :: bool                     \<comment> \<open>stdin readable during the delay\<close>
  bms_version :: string

definition ORIGIN_UNKNOWN :: int where "ORIGIN_UNKNOWN = 0"
definition ORIGIN_DEFAULT :: int where "ORIGIN_DEFAULT = 1"
definition ORIGIN_TRUSTED :: int where "ORIGIN_TRUSTED = 2"
definition ORIGIN_DIALUP :: int where "ORIGIN_DIALUP = 3"
definition ORIGIN_REJECT :: int where "ORIGIN_REJECT = 4"
definition ORIGIN_NOGREY :: int where "ORIGIN_NOGREY = 5"
definition ORIGIN_NOGREYANDBAN :: int where "ORIGIN_NOGREYANDBAN = 6"

lemmas origin_defs = ORIGIN_UNKNOWN_def ORIGIN_DEFAULT_def ORIGIN_TRUSTED_def ORIGIN_DIALUP_def
  ORIGIN_REJECT_def ORIGIN_NOGREY_def ORIGIN_NOGREYANDBAN_def

section \<open>Address and name of the peer\<close>

definition GetPeerAddress :: "'x peer_env_scheme \<Rightarrow> bool \<Rightarrow> string option" where
  "GetPeerAddress e bReally =
     (let bNoIPLog = cfg_is1 e ''disable_iplog'' \<and> \<not> bReally
      in case getpeername e of
           None \<Rightarrow> None
         | Some theIP \<Rightarrow>
             if isLocalhost (net e) theIP \<or> \<not> bNoIPLog then Some (inet_ntop e theIP) else None)"

text \<open>The name, and whether the lookup succeeded; on failure the address itself.\<close>

definition GetHostByAddr :: "'x peer_env_scheme \<Rightarrow> string \<Rightarrow> string \<times> bool" where
  "GetHostByAddr e szIPAddress =
     (if find_chr (CHR '':'') szIPAddress \<noteq> None \<and> inet_pton6 (net e) szIPAddress = None
      then (szIPAddress, False)
      else case peer_name_lookup e szIPAddress of
             Some szHost \<Rightarrow> (szHost, True)
           | None \<Rightarrow> (szIPAddress, False))"

section \<open>Matching the answers of a block list\<close>

definition alnum_val :: "char \<Rightarrow> nat" where
  "alnum_val c = (if is_digit c then code c - 48 else if is_lower c then code c - 87
                  else if is_upper c then code c - 55 else 36)"

definition strtoul_base :: "nat \<Rightarrow> string \<Rightarrow> nat \<times> string" where
  "strtoul_base b t =
     (if b \<noteq> 0 then (b, t)
      else if take 1 t \<noteq> ''0'' then (10, t)
      else if 3 \<le> length t \<and> c_tolower (t ! 1) = CHR ''x'' \<and> alnum_val (t ! 2) < 16 then (16, drop 2 t)
      else (8, t))"

text \<open>\<open>strtoul(s, NULL, b)\<close> of a 64-bit \<open>unsigned long\<close>.\<close>

definition strtoul :: "nat \<Rightarrow> string \<Rightarrow> nat" where
  "strtoul b s =
     (let (neg, t) = split_sign (dropWhile is_space s);
          (b', u) = strtoul_base b t;
          n = foldl (\<lambda>a c. b' * a + alnum_val c) 0 (takeWhile (\<lambda>c. alnum_val c < b') u)
      in if n \<ge> 2 ^ 64 then 2 ^ 64 - 1 else if neg then (2 ^ 64 - n) mod 2 ^ 64 else n)"

definition match_octet :: "string \<Rightarrow> byte \<Rightarrow> bool" where
  "match_octet part b =
     (let ipPartStr = Trim (Trim part blanks) ''[]''
      in case find_chr (CHR ''-'') ipPartStr of
           Some dashPos \<Rightarrow>
             let ipPartFrom = strtoul 10 (take dashPos ipPartStr);
                 ipPartTo = strtoul 10 (drop (dashPos + 1) ipPartStr)
             in \<not> (ipPartTo < ipPartFrom \<or> ipPartFrom > 255 \<or> ipPartTo > 255 \<or>
                   unat b < ipPartFrom \<or> unat b > ipPartTo)
         | None \<Rightarrow> let ipPart = strtoul 0 ipPartStr in \<not> ipPart > 255 \<and> unat b = ipPart)"

definition match_item :: "byte list list \<Rightarrow> string \<Rightarrow> bool" where
  "match_item hostentIPs item =
     (let ipParts = Explode (Trim item blanks) (CHR ''.'')
      in length ipParts = 4 \<and>
         list_ex (\<lambda>ip. list_all (\<lambda>i. match_octet (ipParts ! i) (ip ! i)) [0..<4]) hostentIPs)"

definition doesHostentMatchIPs :: "hostent option \<Rightarrow> string \<Rightarrow> bool" where
  "doesHostentMatchIPs he matchIPs =
     (case he of
        None \<Rightarrow> False
      | Some h \<Rightarrow>
          if matchIPs = [] then True
          else if \<not> h_inet h then False
          else list_ex (match_item (h_addr_list h)) (Explode matchIPs (CHR '','')))"

section \<open>Classification\<close>

definition peer_binary :: "'x peer_env_scheme \<Rightarrow> IPAddress \<Rightarrow> IPAddress" where
  "peer_binary e raw = (if isMappedIPv4 (net e) raw then mappedIPv4 raw else raw)"

text \<open>
  A plugin is asked about the IPv6 bytes or, for an IPv4 peer, about the bytes that an IPv4
  socket address holds at this offset; for a mapped address these are the flow information.
\<close>

definition plugin_view :: "'x peer_env_scheme \<Rightarrow> IPAddress \<Rightarrow> IPAddress" where
  "plugin_view e raw =
     (if isMappedIPv4 (net e) raw then IPAddress_v4 (sin6_flowinfo e) else raw)"

fun first_origin :: "(IPAddress \<Rightarrow> int) list \<Rightarrow> IPAddress \<Rightarrow> int \<Rightarrow> int" where
  "first_origin [] a origin = origin"
| "first_origin (p # ps) a origin = (if p a \<noteq> ORIGIN_UNKNOWN then p a else first_origin ps a (p a))"

definition subnet_rule :: "'x env_scheme \<Rightarrow> IPAddress \<Rightarrow> string \<times> string \<times> int \<Rightarrow> bool" where
  "subnet_rule e peerAddr = (\<lambda>(ip, mask, _).
     (if find_chr (CHR '':'') ip \<noteq> None \<and> isIPv6 peerAddr then matches_mask (net e) peerAddr ip mask
      else find_chr (CHR ''.'') ip \<noteq> None \<and> \<not> isIPv6 peerAddr \<and> matches_mask (net e) peerAddr ip mask))"

definition lookup_name :: "string \<Rightarrow> string \<Rightarrow> string" where
  "lookup_name reversedIP host =
     reversedIP @ ''.'' @ host @ (if host = [] \<or> last host \<noteq> CHR ''.'' then ''.'' else [])"

definition dnsbl_hit :: "'x peer_env_scheme \<Rightarrow> IPAddress \<Rightarrow> dnsbl_row \<Rightarrow> bool" where
  "dnsbl_hit e peerAddr r =
     (let lookupResult = gethostbyname e (lookup_name (toReversedString peerAddr) (bl_host r))
      in if isIPv6 peerAddr then lookupResult \<noteq> None
         else doesHostentMatchIPs lookupResult
                (if cfg_is1 e ''enable_dnsbl_matchips'' then Trim (bl_match_ips r) blanks else []))"

definition dnsbl_rows :: "world \<Rightarrow> IPAddress \<Rightarrow> dnsbl_row list" where
  "dnsbl_rows w peerAddr =
     filter (\<lambda>r. bl_type r \<in> {if isIPv6 peerAddr then ''ipv6'' else ''ipv4'', ''both''}) (dnsbls w)"

text \<open>The class of the first row that hits, or the class so far.\<close>

definition first_class :: "('r \<Rightarrow> bool) \<Rightarrow> ('r \<Rightarrow> int) \<Rightarrow> 'r list \<Rightarrow> int \<Rightarrow> int" where
  "first_class hit cls rows origin =
     (if origin \<noteq> ORIGIN_UNKNOWN then origin
      else case filter hit rows of [] \<Rightarrow> origin | r # _ \<Rightarrow> cls r)"

definition ClassifyPeer :: "'x peer_env_scheme \<Rightarrow> world \<Rightarrow> int" where
  "ClassifyPeer e w =
     (case getpeername e of
        None \<Rightarrow> ORIGIN_DEFAULT
      | Some raw \<Rightarrow>
          let peerAddr = peer_binary e raw;
              o1 = first_origin (plugin_classify e) (plugin_view e raw) ORIGIN_UNKNOWN;
              o2 = first_class (subnet_rule e peerAddr) (\<lambda>(_, _, c). c) (subnets w) o1;
              o3 = first_class (dnsbl_hit e peerAddr) bl_classification (dnsbl_rows w peerAddr) o2
          in if o3 = ORIGIN_UNKNOWN then ORIGIN_DEFAULT else o3)"

section \<open>Greylisting\<close>

text \<open>
  The rows are keyed like the ban list. (The column \<open>ip\<close> is an integer with default 0, so the
  conditions \<open>ip=''\<close> and \<open>ip='0'\<close> select the same rows.)
\<close>

definition gl_key :: "greylist_row \<Rightarrow> string \<times> string" where
  "gl_key r = (gl_ip r, gl_ip6 r)"

definition update_greylist ::
  "string \<times> string \<Rightarrow> (greylist_row \<Rightarrow> greylist_row) \<Rightarrow> world \<Rightarrow> world" where
  "update_greylist k f w = w\<lparr>greylist := map (\<lambda>r. if gl_key r = k then f r else r) (greylist w)\<rparr>"

text \<open>The answer is \<open>bBreak\<close>.\<close>

definition greylist_check :: "'x env_scheme \<Rightarrow> IPAddress \<Rightarrow> world \<Rightarrow> bool \<times> world" where
  "greylist_check e peerIP w =
     (let k = ban_key peerIP;
          renew = update_greylist k (\<lambda>r. r\<lparr>gl_time := now w, gl_confirmed := 0\<rparr>) w
      in case filter (\<lambda>r. gl_key r = k) (greylist w) of
           [] \<Rightarrow> (True, w\<lparr>greylist := greylist w @
                   [\<lparr>gl_ip = fst k, gl_ip6 = snd k, gl_time = now w, gl_confirmed = 0\<rparr>]\<rparr>)
         | r # _ \<Rightarrow>
             if gl_confirmed r = 0
             then if gl_time r + cfg_int e ''grey_wait_time'' \<ge> now w
                  then if gl_time r + cfg_int e ''grey_interval'' \<le> now w
                       then (False, update_greylist k (\<lambda>r. r\<lparr>gl_confirmed := 1\<rparr>) w)
                       else (True, w)
                  else (True, renew)
             else if gl_time r + cfg_int e ''grey_good_time'' \<ge> now w then (False, w)
             else (True, renew))"

section \<open>What greylisting does to a peer\<close>

text \<open>Later contacts: a time and the address of the peer each.\<close>

definition greylist_run :: "'x env_scheme \<Rightarrow> (int \<times> IPAddress) list \<Rightarrow> world \<Rightarrow> world" where
  "greylist_run e cs w = foldl (\<lambda>v (t, ip). snd (greylist_check e ip (v\<lparr>now := t\<rparr>))) w cs"

lemma greylist_run_simps [simp]:
  "greylist_run e [] w = w"
  "greylist_run e ((t, ip) # cs) w = greylist_run e cs (snd (greylist_check e ip (w\<lparr>now := t\<rparr>)))"
  by (simp_all add: greylist_run_def)

definition gl_rows :: "string \<times> string \<Rightarrow> world \<Rightarrow> greylist_row list" where
  "gl_rows k w = filter (\<lambda>r. gl_key r = k) (greylist w)"

lemma gl_rows_now [simp]: "gl_rows k (w\<lparr>now := t\<rparr>) = gl_rows k w"
  by (simp add: gl_rows_def)

lemma gl_rows_update:
  assumes "\<And>r. gl_key (f r) = gl_key r"
  shows "gl_rows k' (update_greylist k f w) = (if k' = k then map f (gl_rows k w) else gl_rows k' w)"
proof -
  have "filter (\<lambda>r. gl_key r = k') (map (\<lambda>r. if gl_key r = k then f r else r) rs) =
      (if k' = k then map f (filter (\<lambda>r. gl_key r = k) rs) else filter (\<lambda>r. gl_key r = k') rs)" for rs
    using assms by (induction rs) auto
  then show ?thesis by (simp add: gl_rows_def update_greylist_def)
qed

lemma gl_key_fields [simp]:
  "gl_key (r\<lparr>gl_time := t\<rparr>) = gl_key r" "gl_key (r\<lparr>gl_confirmed := c\<rparr>) = gl_key r"
  by (simp_all add: gl_key_def)

text \<open>The check in terms of the rows of the peer.\<close>

lemma greylist_check_rows:
  "greylist_check e p w =
     (case gl_rows (ban_key p) w of
        [] \<Rightarrow> (True, w\<lparr>greylist := greylist w @
                [\<lparr>gl_ip = fst (ban_key p), gl_ip6 = snd (ban_key p), gl_time = now w, gl_confirmed = 0\<rparr>]\<rparr>)
      | r # _ \<Rightarrow>
          if gl_confirmed r = 0
          then if gl_time r + cfg_int e ''grey_wait_time'' \<ge> now w
               then if gl_time r + cfg_int e ''grey_interval'' \<le> now w
                    then (False, update_greylist (ban_key p) (\<lambda>r. r\<lparr>gl_confirmed := 1\<rparr>) w)
                    else (True, w)
               else (True, update_greylist (ban_key p) (\<lambda>r. r\<lparr>gl_time := now w, gl_confirmed := 0\<rparr>) w)
          else if gl_time r + cfg_int e ''grey_good_time'' \<ge> now w then (False, w)
          else (True, update_greylist (ban_key p) (\<lambda>r. r\<lparr>gl_time := now w, gl_confirmed := 0\<rparr>) w))"
  by (simp add: greylist_check_def gl_rows_def Let_def)

lemma gl_rows_other:
  "ban_key q \<noteq> k \<Longrightarrow> gl_rows k (snd (greylist_check e q w)) = gl_rows k w"
  by (cases "gl_rows (ban_key q) w")
     (auto simp: greylist_check_rows gl_rows_update, auto simp: gl_rows_def gl_key_def)

text \<open>A row of an unconfirmed peer stays until the interval has passed.\<close>

lemma gl_rows_early:
  assumes "gl_rows (ban_key p) w = [r]" and "gl_confirmed r = 0"
    and "now w < gl_time r + cfg_int e ''grey_interval''"
    and "cfg_int e ''grey_interval'' \<le> cfg_int e ''grey_wait_time''"
  shows "greylist_check e p w = (True, w)"
  using assms by (simp add: greylist_check_rows)

lemma gl_rows_run:
  assumes "gl_rows (ban_key p) w = [r]" and "gl_confirmed r = 0"
    and "cfg_int e ''grey_interval'' \<le> cfg_int e ''grey_wait_time''"
    and "\<And>t q. (t, q) \<in> set cs \<Longrightarrow> ban_key q = ban_key p \<Longrightarrow> t < gl_time r + cfg_int e ''grey_interval''"
  shows "gl_rows (ban_key p) (greylist_run e cs w) = [r]"
  using assms
proof (induction cs arbitrary: w)
  case (Cons c cs)
  obtain t q where c: "c = (t, q)" by fastforce
  have "gl_rows (ban_key p) (snd (greylist_check e q (w\<lparr>now := t\<rparr>))) = [r]"
  proof (cases "ban_key q = ban_key p")
    case True
    then have "greylist_check e q (w\<lparr>now := t\<rparr>) = (True, w\<lparr>now := t\<rparr>)"
      using Cons.prems c by (intro gl_rows_early [where r = r]) auto
    then show ?thesis using Cons.prems(1) by simp
  qed (simp add: gl_rows_other Cons.prems(1))
  then have "gl_rows (ban_key p) (greylist_run e cs (snd (greylist_check e q (w\<lparr>now := t\<rparr>)))) = [r]"
    using Cons.prems by (intro Cons.IH) auto
  then show ?case by (simp add: c)
qed simp

text \<open>
  The greylisting schedule. A peer without an entry is refused at its first contact, at
  time \<open>t0\<close>. Whatever contacts of other peers and earlier contacts of its own follow, at time
  \<open>t\<close> it is let through iff the interval has passed and the waiting time has not: hammering the
  server neither helps nor resets the clock. After that it is let through until the good time,
  counted from the first contact, is over.
\<close>

theorem greylist_schedule:
  assumes "gl_rows (ban_key p) w = []"
    and "cfg_int e ''grey_interval'' \<le> cfg_int e ''grey_wait_time''"
    and "\<And>t q. (t, q) \<in> set cs \<Longrightarrow> ban_key q = ban_key p \<Longrightarrow> t < now w + cfg_int e ''grey_interval''"
    and "w1 = greylist_run e cs (snd (greylist_check e p w))"
    and "\<And>t' q. (t', q) \<in> set ds \<Longrightarrow> ban_key q \<noteq> ban_key p"
  shows "fst (greylist_check e p w) \<and>
    (fst (greylist_check e p (w1\<lparr>now := t\<rparr>)) \<longleftrightarrow>
       \<not> (now w + cfg_int e ''grey_interval'' \<le> t \<and> t \<le> now w + cfg_int e ''grey_wait_time'')) \<and>
    (now w + cfg_int e ''grey_interval'' \<le> t \<and> t \<le> now w + cfg_int e ''grey_wait_time'' \<longrightarrow>
       (fst (greylist_check e p ((greylist_run e ds (snd (greylist_check e p (w1\<lparr>now := t\<rparr>))))\<lparr>now := t2\<rparr>)) \<longleftrightarrow>
          now w + cfg_int e ''grey_good_time'' < t2))"
proof -
  define r where "r = \<lparr>gl_ip = fst (ban_key p), gl_ip6 = snd (ban_key p), gl_time = now w, gl_confirmed = 0\<rparr>"
  have first: "greylist_check e p w = (True, w\<lparr>greylist := greylist w @ [r]\<rparr>)"
    using assms(1) by (simp add: greylist_check_rows r_def)
  have "gl_rows (ban_key p) (snd (greylist_check e p w)) = [r]"
    using assms(1) by (simp add: first gl_rows_def gl_key_def r_def)
  then have w1: "gl_rows (ban_key p) (w1\<lparr>now := t\<rparr>) = [r]"
    unfolding gl_rows_now assms(4)
    by (rule gl_rows_run) (use assms(2,3) in \<open>auto simp: r_def\<close>)
  have other: "gl_rows (ban_key p) (greylist_run e ds v) = gl_rows (ban_key p) v" for v
    using assms(5)
  proof (induction ds arbitrary: v)
    case (Cons d ds)
    obtain t' q where d: "d = (t', q)" by fastforce
    then have "ban_key q \<noteq> ban_key p" using Cons.prems [of t' q] by simp
    then have "gl_rows (ban_key p) (snd (greylist_check e q (v\<lparr>now := t'\<rparr>))) = gl_rows (ban_key p) v"
      by (simp add: gl_rows_other)
    moreover have "gl_rows (ban_key p) (greylist_run e ds u) = gl_rows (ban_key p) u" for u
      by (rule Cons.IH) (use Cons.prems in auto)
    ultimately show ?case by (simp add: d)
  qed simp
  have r: "gl_time r = now w" "gl_confirmed r = 0" by (simp_all add: r_def)
  show ?thesis
  proof (intro conjI impI)
    show "fst (greylist_check e p w)" by (simp add: first)
    show "fst (greylist_check e p (w1\<lparr>now := t\<rparr>)) \<longleftrightarrow>
       \<not> (now w + cfg_int e ''grey_interval'' \<le> t \<and> t \<le> now w + cfg_int e ''grey_wait_time'')"
      unfolding greylist_check_rows w1 using r by auto
    assume t: "now w + cfg_int e ''grey_interval'' \<le> t \<and> t \<le> now w + cfg_int e ''grey_wait_time''"
    then have "snd (greylist_check e p (w1\<lparr>now := t\<rparr>)) =
        update_greylist (ban_key p) (\<lambda>r. r\<lparr>gl_confirmed := 1\<rparr>) (w1\<lparr>now := t\<rparr>)"
      unfolding greylist_check_rows w1 using r by simp
    then have "gl_rows (ban_key p) (greylist_run e ds (snd (greylist_check e p (w1\<lparr>now := t\<rparr>)))) =
        [r\<lparr>gl_confirmed := 1\<rparr>]"
      using w1 by (simp add: other gl_rows_update)
    then show "fst (greylist_check e p
        ((greylist_run e ds (snd (greylist_check e p (w1\<lparr>now := t\<rparr>))))\<lparr>now := t2\<rparr>)) \<longleftrightarrow>
          now w + cfg_int e ''grey_good_time'' < t2"
      using r by (simp add: greylist_check_rows)
  qed
qed

definition grey_env :: env where
  "grey_env = sample_env [(''grey_interval'', ''60''), (''grey_wait_time'', ''900''), (''grey_good_time'', ''9000'')]"

lemma greylist_schedule_witness:
  "fst (greylist_check grey_env (IPAddress_v4 [5, 0, 0, 0]) sample_world) \<and>
   \<not> fst (greylist_check grey_env (IPAddress_v4 [5, 0, 0, 0])
      ((greylist_run grey_env [(1010, IPAddress_v4 [5, 0, 0, 0]), (2000, IPAddress_v4 [6, 0, 0, 0])]
         (snd (greylist_check grey_env (IPAddress_v4 [5, 0, 0, 0]) sample_world)))\<lparr>now := 1100\<rparr>))"
proof -
  let ?p = "IPAddress_v4 [5, 0, 0, 0]" and ?q = "IPAddress_v4 [6, 0, 0, 0]"
  let ?cs = "[(1010, ?p), (2000, ?q)]"
  have c: "cfg_int grey_env ''grey_interval'' = 60" "cfg_int grey_env ''grey_wait_time'' = 900"
    by code_simp+
  have k: "ban_key ?q \<noteq> ban_key ?p" by code_simp
  have w: "gl_rows (ban_key ?p) sample_world = []" "now sample_world = 1000"
    by (simp_all add: gl_rows_def sample_world_def empty_world_def)
  have early: "t < now sample_world + cfg_int grey_env ''grey_interval''"
    if "(t, q) \<in> set ?cs" "ban_key q = ban_key ?p" for t q
    using that k c w by auto
  have le: "cfg_int grey_env ''grey_interval'' \<le> cfg_int grey_env ''grey_wait_time''" by (simp add: c)
  have none: "(t', q) \<in> set [] \<Longrightarrow> ban_key q \<noteq> ban_key ?p" for t' :: int and q by simp
  note sched = greylist_schedule [where ds = "[]" and t = 1100 and w = sample_world and e = grey_env
      and cs = ?cs and p = ?p, OF w(1) le]
  show ?thesis by (rule conjI, rule sched [THEN conjunct1, OF early refl none], assumption+,
      subst sched [THEN conjunct2, THEN conjunct1, OF early refl none]) (assumption+, simp add: c w)
qed

end
