(* ===== verification/Smtp.thy ===== *)
theory Smtp
  imports SmtpPeer Session
begin

text \<open>
  The SMTP server (src/smtp/smtp.cpp, smtp_auth.cpp): the state of a session and its commands
  outside the data phase. The SPF check (src/smtp/spf.cpp) and the milter client
  (src/smtp/milter.cpp) enter as functions of the environment: every property here holds
  whatever they answer, unless it says otherwise. A command works on the line buffer of the
  session; \<open>MAIL\<close> and \<open>RCPT\<close> read it from offset 5, whatever is there.
\<close>

section \<open>State\<close>

datatype eSMTPState =
  SMTP_STATE_PREHELO | SMTP_STATE_HELO | SMTP_STATE_EHLO | SMTP_STATE_MAIL | SMTP_STATE_DATA
| SMTP_STATE_QUIT

datatype eSenderCheckMode = SMTP_SENDERCHECK_NO | SMTP_SENDERCHECK_MAILFROM | SMTP_SENDERCHECK_FULL

datatype SPFResult =
  SPF_RESULT_NONE | SPF_RESULT_NEUTRAL | SPF_RESULT_PASS | SPF_RESULT_FAIL | SPF_RESULT_SOFTFAIL
| SPF_RESULT_TEMPERROR | SPF_RESULT_PERMERROR

record SMTPRecipient =
  strAddress :: string
  iLocalRecipient :: int
  iDeliveryStatusID :: int

record smtp_message =
  ms_headers :: "(string \<times> string) list"
  ms_body :: string
  ms_from :: string
  ms_rcpts :: "SMTPRecipient list"

record milter_conn =
  mc_hostName :: string
  mc_heloHostName :: string
  mc_family :: char
  mc_ipAddress :: string
  mc_port :: int
  mc_isAuthenticated :: bool
  mc_authMethod :: string

record milter_result =
  mr_code :: char
  mr_message :: smtp_message
  mr_reply :: "int \<times> string"

record smtp_env = peer_env +
  peer_port :: int
  spf_check :: "string \<Rightarrow> string \<Rightarrow> string \<Rightarrow> string \<Rightarrow> string \<Rightarrow> SPFResult \<times> string"
    \<comment> \<open>HELO name, peer, peer name, domain, sender; the explanation\<close>
  milter_process :: "milter_row \<Rightarrow> milter_conn \<Rightarrow> smtp_message \<Rightarrow> milter_result"

record smtp = session +
  strRealPeer :: string
  iPeerOrigin :: int
  strPeerHost :: string
  bHasReverseDNS :: bool
  bSubmission :: bool
  iState :: eSMTPState
  iInboundMessages :: int
  iOutboundMessages :: int
  iErrorCounter :: int
  smtpCommands :: int
  iRecipientLimit :: int
  iMessageSizeLimit :: int
  iMessageCountLimit :: int
  iSMTPLimitCount :: int
  iSMTPLimitTime :: int
  bTodayKeyValid :: bool
  strHeloHost :: string
  strReturnPath :: string
  bAuthenticated :: bool
  bEhlo :: bool
  bGreylisted :: bool
  strAuthUser :: string
  strAuthMethod :: string
  iSenderCheckMode :: eSenderCheckMode
  iLastFetch :: int
  ib1gMailUserID :: int
  vRecipients :: "SMTPRecipient list"
  spfResult :: SPFResult
  spfExplanation :: string
  bSizeLimitExceeded :: bool
  bWriteMessageIDHeader :: bool
  bWriteDateHeader :: bool
  bPrevLineEndsWithCrLf :: bool
  bDataPassedHeaders :: bool
  bValidFromHeader :: bool
  iHopCounter :: int
  iHeaderBytes :: int
  vHeaders :: "(string \<times> string) list"
  strBody :: string
  bOverrun :: bool      \<comment> \<open>\<open>%128s\<close> wrote past \<open>szHostname[128]\<close>\<close>

definition FAILBAN_SMTPLOGIN :: int where "FAILBAN_SMTPLOGIN = 4"
definition FAILBAN_SMTPRCPT :: int where "FAILBAN_SMTPRCPT = 8"
definition BMAP_SEND_RECP_LIMIT :: int where "BMAP_SEND_RECP_LIMIT = 1"
definition BMAP_SEND_FREQ_LIMIT :: int where "BMAP_SEND_FREQ_LIMIT = 2"
definition BMAP_SEND_RECP_BLOCKED :: int where "BMAP_SEND_RECP_BLOCKED = 3"
definition BMAP_SEND_WITHOUT_RECEIVE :: int where "BMAP_SEND_WITHOUT_RECEIVE = 6"
definition SMTP_LINEMAX :: nat where "SMTP_LINEMAX = 1001"

text \<open>The constructor, on a fresh session: the address and class of the peer.\<close>

definition new_smtp :: "'x peer_env_scheme \<Rightarrow> bool \<Rightarrow> session \<Rightarrow> smtp" where
  "new_smtp e submission s =
     (let real = (case GetPeerAddress e True of None \<Rightarrow> ''(unknown)'' | Some a \<Rightarrow> a);
          (host, rdns) = (if cfg_is1 e ''smtp_reversedns'' \<and> GetPeerAddress e True \<noteq> None
                          then GetHostByAddr e real else (real, False))
      in session.extend
          (s\<lparr>strPeer := (case GetPeerAddress e False of None \<Rightarrow> ''(unknown)'' | Some a \<Rightarrow> a)\<rparr>)
          \<lparr>strRealPeer = real, iPeerOrigin = ClassifyPeer e (wld s), strPeerHost = host,
           bHasReverseDNS = rdns, bSubmission = submission, iState = SMTP_STATE_PREHELO,
           iInboundMessages = 0, iOutboundMessages = 0, iErrorCounter = 0, smtpCommands = 0,
           iRecipientLimit = cfg_int e ''smtp_recipient_limit'',
           iMessageSizeLimit = cfg_int e ''smtp_size_limit'', iMessageCountLimit = -1,
           iSMTPLimitCount = 0, iSMTPLimitTime = 0, bTodayKeyValid = False, strHeloHost = [],
           strReturnPath = [], bAuthenticated = False, bEhlo = False, bGreylisted = False,
           strAuthUser = [], strAuthMethod = [], iSenderCheckMode = SMTP_SENDERCHECK_NO,
           iLastFetch = 0, ib1gMailUserID = 0, vRecipients = [], spfResult = SPF_RESULT_NONE,
           spfExplanation = [], bSizeLimitExceeded = False, bWriteMessageIDHeader = False,
           bWriteDateHeader = False, bPrevLineEndsWithCrLf = False, bDataPassedHeaders = False,
           bValidFromHeader = False, iHopCounter = 0, iHeaderBytes = 0, vHeaders = [],
           strBody = [], bOverrun = False\<rparr>)"

definition trusted :: "'y smtp_scheme \<Rightarrow> bool" where
  "trusted s \<longleftrightarrow> iPeerOrigin s = ORIGIN_TRUSTED"

section \<open>Replies\<close>

definition SMTP_Error :: "'x env_scheme \<Rightarrow> int \<Rightarrow> string \<Rightarrow> 'y smtp_scheme \<Rightarrow> 'y smtp_scheme" where
  "SMTP_Error e iErrNo szMsg s =
     (let iErrorHardLimit = cfg_int e ''smtp_error_hardlimit'';
          s1 = s\<lparr>iErrorCounter := iErrorCounter s + 1\<rparr>
      in if 0 < iErrorHardLimit \<and> iErrorCounter s1 > iErrorHardLimit \<and> \<not> trusted s1
         then (printf (''554 5.7.0 Too many erroneous commands, closing connection'' @ CRLF) s1)
                \<lparr>iState := SMTP_STATE_QUIT\<rparr>
         else printf (pad_left 3 (CHR ''0'') (show_int iErrNo) @ '' '' @ szMsg @ CRLF) s1)"

definition login_ban :: "'x env_scheme \<Rightarrow> int \<Rightarrow> 'y smtp_scheme \<Rightarrow> 'y smtp_scheme" where
  "login_ban e iType s =
     (if iPeerOrigin s \<noteq> ORIGIN_NOGREYANDBAN
      then let (b, w1) = Failban_LoginFailed e (wld s) (PEER_IP e s) iType
           in s\<lparr>wld := w1, bBanned := b \<or> bBanned s\<rparr>
      else s)"

section \<open>Greeting commands\<close>

definition ehlo_lines :: "'x env_scheme \<Rightarrow> 'y smtp_scheme \<Rightarrow> 'y smtp_scheme" where
  "ehlo_lines e s =
     (let s1 = (if iMessageSizeLimit s \<noteq> 0
                then printf (''250-SIZE '' @ show_int (iMessageSizeLimit s) @ CRLF) s else s);
          s2 = (if cfg_int e ''smtp_auth_enabled'' = 1
                then printf (''250-AUTH=PLAIN LOGIN'' @ CRLF) (printf (''250-AUTH PLAIN LOGIN'' @ CRLF) s1)
                else s1);
          s3 = (if tls_available e \<and> \<not> bTLSMode s then printf (''250-STARTTLS'' @ CRLF) s2 else s2)
      in printf (''250 8BITMIME'' @ CRLF) s3)"

definition SMTP_Helo :: "'x env_scheme \<Rightarrow> bool \<Rightarrow> 'y smtp_scheme \<Rightarrow> 'y smtp_scheme" where
  "SMTP_Helo e ehlo s =
     (case (case scan_str 4 (szLine s) of None \<Rightarrow> None | Some (_, r) \<Rightarrow> scan_str 128 r) of
        Some (szHostname, _) \<Rightarrow>
          let s1 = s\<lparr>strHeloHost := szHostname,
                     iState := (if ehlo then SMTP_STATE_EHLO else SMTP_STATE_HELO), bEhlo := ehlo,
                     bOverrun := bOverrun s \<or> 128 \<le> length szHostname\<rparr>;
              s2 = printf (''250'' @ (if ehlo then ''-'' else '' '') @ cfg_str e ''b1gmta_host'' @
                     '' Pleased to meet you, '' @ strPeerHost s @ '' ['' @ strRealPeer s @ '']'' @ CRLF) s1
          in if ehlo then ehlo_lines e s2 else s2
      | None \<Rightarrow>
          SMTP_Error e 501 (if ehlo then ''5.5.4 Usage: EHLO [hostname]''
                            else ''5.5.4 Usage: HELO [hostname]'') s)"

definition SMTP_Noop :: "'y smtp_scheme \<Rightarrow> 'y smtp_scheme" where
  "SMTP_Noop s = printf (''250 Doing nothing'' @ CRLF) s"

definition SMTP_Quit :: "'x env_scheme \<Rightarrow> 'y smtp_scheme \<Rightarrow> 'y smtp_scheme" where
  "SMTP_Quit e s =
     (printf (''221 '' @ cfg_str e ''b1gmta_host'' @ '' Closing connection'' @ CRLF) s)
       \<lparr>iState := SMTP_STATE_QUIT\<rparr>"

definition SMTP_Rset :: "bool \<Rightarrow> 'y smtp_scheme \<Rightarrow> 'y smtp_scheme" where
  "SMTP_Rset bSilent s =
     (let s1 = s\<lparr>strReturnPath := [], vRecipients := [], ib1gMailUserID := 0,
                 iState := (if bEhlo s then SMTP_STATE_EHLO else SMTP_STATE_HELO)\<rparr>
      in if bSilent then s1 else printf (''250 OK'' @ CRLF) s1)"

definition SMTP_StartTLS :: "'x env_scheme \<Rightarrow> 'y smtp_scheme \<Rightarrow> 'y smtp_scheme" where
  "SMTP_StartTLS e s =
     (if bTLSMode s then printf (''454 Already in TLS mode'' @ CRLF) s
      else let s1 = printf (''220 Begin TLS negotiation'' @ CRLF) s
           in case begin_tls e of
                None \<Rightarrow> s1\<lparr>bTLSMode := True, bIO_SSL := True\<rparr>
              | Some err \<Rightarrow> printf (''454 '' @ err @ CRLF) (s1\<lparr>bIO_SSL := False\<rparr>))"

section \<open>MAIL\<close>

text \<open>\<open>Mail::ExtractMailAddress\<close>: the first match of the address pattern.\<close>

definition ExtractMailAddress :: "'x env_scheme \<Rightarrow> string \<Rightarrow> string option" where
  "ExtractMailAddress e s = (case mail_match e s of
     None \<Rightarrow> None | Some (a, b) \<Rightarrow> Some (take (b - a) (drop a s)))"

text \<open>What a trusted peer may write instead of an address.\<close>

definition repair_return_path :: "'x env_scheme \<Rightarrow> string \<Rightarrow> string option" where
  "repair_return_path e s =
     (let t = Trim s blanks
      in if t = [] then None
         else let t1 = (if hd t = CHR ''<'' then tl t else t);
                  t2 = (if t1 \<noteq> [] \<and> last t1 = CHR ''>'' then butlast t1 else t1)
              in if CHR ''@'' \<notin> set t2
                 then Some ((if t2 = [] then ''postmaster'' else t2) @ ''@'' @ cfg_str e ''b1gmta_host'')
                 else Some t2)"

text \<open>The return path, or the message of the error 501.\<close>

definition mail_return_path :: "'x env_scheme \<Rightarrow> 'y smtp_scheme \<Rightarrow> string + string" where
  "mail_return_path e s =
     (let l = szLine_at 5 s
      in if length l < 6 \<or> \<not> starts_with_case ''FROM:'' l then Inl ''5.5.4 Usage: MAIL FROM:<return-path>''
         else if find_sub ''<>'' l \<noteq> None then Inr []
         else case ExtractMailAddress e (drop 5 l) of
                Some a \<Rightarrow> Inr a
              | None \<Rightarrow>
                  if \<not> trusted s then Inl ''5.1.7 Invalid mail address in MAIL FROM:''
                  else case repair_return_path e (drop 5 l) of
                         Some a \<Rightarrow> Inr a
                       | None \<Rightarrow> Inl ''5.1.7 Invalid mail address in MAIL FROM:'')"

text \<open>The checks before and after the SPF lookup, in their order; the error they raise.\<close>

definition mail_state_refusal :: "'x env_scheme \<Rightarrow> 'y smtp_scheme \<Rightarrow> (int \<times> string) option" where
  "mail_state_refusal e s =
     (if iState s = SMTP_STATE_PREHELO then Some (503, ''5.5.1 Please say HELO/EHLO first'')
      else if iState s = SMTP_STATE_MAIL then Some (503, ''5.5.1 Return path already specified'')
      else if bSubmission s \<and> \<not> bAuthenticated s then Some (530, ''5.7.0 Authentication required'')
      else if iPeerOrigin s = ORIGIN_DIALUP \<and> \<not> bAuthenticated s
      then (if cfg_int e ''smtp_auth_enabled'' = 1 then Some (530, ''5.7.1 Authentication required'')
            else Some (554, ''5.7.1 Transaction failed''))
      else None)"

definition spf_domain :: "string \<Rightarrow> string" where
  "spf_domain returnPath =
     (let d = (case find_chr (CHR ''@'') returnPath of None \<Rightarrow> returnPath | Some i \<Rightarrow> drop (i + 1) returnPath)
      in if d \<noteq> [] \<and> last d \<noteq> CHR ''.'' then d @ ''.'' else d)"

definition mail_spf :: "'x smtp_env_scheme \<Rightarrow> string \<Rightarrow> 'y smtp_scheme \<Rightarrow> 'y smtp_scheme" where
  "mail_spf e returnPath s =
     (if \<not> bAuthenticated s \<and> \<not> trusted s \<and> cfg_is1 e ''spf_enable''
      then let (r, expl) = spf_check e (strHeloHost s) (strRealPeer s) (strPeerHost s)
                             (spf_domain returnPath) returnPath
           in s\<lparr>spfResult := r, spfExplanation := expl\<rparr>
      else s\<lparr>spfResult := SPF_RESULT_NONE, spfExplanation := []\<rparr>)"

definition spf_refuses :: "'x env_scheme \<Rightarrow> 'y smtp_scheme \<Rightarrow> bool" where
  "spf_refuses e s \<longleftrightarrow> \<not> bAuthenticated s \<and> \<not> trusted s \<and> cfg_is1 e ''spf_enable'' \<and>
     spfResult s = SPF_RESULT_FAIL \<and> cfg_is1 e ''spf_reject_mails''"

definition spf_error :: "'x env_scheme \<Rightarrow> string \<Rightarrow> 'y smtp_scheme \<Rightarrow> 'y smtp_scheme" where
  "spf_error e returnPath s =
     (if spfExplanation s \<noteq> []
      then SMTP_Error e 550 (''5.7.1 '' @ spfExplanation s)
             (printf (''550-5.7.1 The domain '' @ spf_domain returnPath @ '' explains:'' @ CRLF)
               (printf (''550-5.7.1 SPF MAIL FROM check failed:'' @ CRLF) s))
      else SMTP_Error e 550 ''5.7.1 SPF MAIL FROM check failed'' s)"

definition helo_forged :: "'x env_scheme \<Rightarrow> 'y smtp_scheme \<Rightarrow> bool" where
  "helo_forged e s \<longleftrightarrow>
     (if cfg_int e ''smtp_check_helo'' = 1 then \<not> strcaseeq (strPeerHost s) (strHeloHost s)
      else cfg_int e ''smtp_check_helo'' = 2 \<and> \<not> DomainMatches (strPeerHost s) (strHeloHost s))"

definition mail_peer_refusal :: "'x env_scheme \<Rightarrow> 'y smtp_scheme \<Rightarrow> (int \<times> string) option" where
  "mail_peer_refusal e s =
     (let outsider = \<not> bAuthenticated s \<and> \<not> trusted s \<and> cfg_is1 e ''smtp_reversedns''
      in if bGreylisted s \<and> \<not> bAuthenticated s \<and>
            \<not> (spfResult s = SPF_RESULT_PASS \<and> cfg_is1 e ''spf_disable_greylisting'')
         then Some (451, ''4.7.0 Greylisted, please try again later'')
         else if bAuthenticated s \<and> iMessageCountLimit s \<noteq> -1 \<and>
                 iMessageCountLimit s - iInboundMessages s - iOutboundMessages s \<le> 0
         then Some (451, ''4.7.0 User message limit exceeded for today'')
         else if outsider \<and> cfg_is1 e ''smtp_reject_noreversedns'' \<and> \<not> bHasReverseDNS s
         then Some (550, ''5.7.1 Your reverse DNS is misconfigured'')
         else if outsider \<and> helo_forged e s then Some (550, ''5.7.1 Forged HELO hostname detected'')
         else None)"

text \<open>The number after a keyword, as \<open>strstr\<close> and \<open>sscanf\<close> find it.\<close>

definition number_after :: "string \<Rightarrow> string \<Rightarrow> int option" where
  "number_after key l =
     (case find_sub key l of
        None \<Rightarrow> None
      | Some i \<Rightarrow> map_option fst (scan_int (drop (i + length key) l)))"

definition mail_user_tag :: "'y smtp_scheme \<Rightarrow> 'y smtp_scheme" where
  "mail_user_tag s =
     (if trusted s
      then (case number_after ''X-B1GMAIL-USERID='' (szLine_at 5 s) of
              Some n \<Rightarrow> s\<lparr>ib1gMailUserID := n\<rparr> | None \<Rightarrow> s)
      else s)"

definition mail_final_refusal :: "string \<Rightarrow> 'y smtp_scheme \<Rightarrow> (int \<times> string) option" where
  "mail_final_refusal returnPath s =
     (if (case number_after ''SIZE='' (szLine_at 5 s) of
            Some iSize \<Rightarrow> iSize > iMessageSizeLimit s | None \<Rightarrow> False)
      then Some (552, ''5.3.4 Message size exceeds fixed maximium message size'')
      else if returnPath \<noteq> [] \<and> bAuthenticated s \<and> iSenderCheckMode s \<noteq> SMTP_SENDERCHECK_NO \<and>
              \<not> IsValidSenderAddressForUser (wld s) (iUserID s) returnPath
      then Some (501, ''5.1.0 Please use one of your account's email addresses in MAIL FROM:'')
      else None)"

definition SMTP_Mail :: "'x smtp_env_scheme \<Rightarrow> 'y smtp_scheme \<Rightarrow> 'y smtp_scheme" where
  "SMTP_Mail e s =
     (case mail_return_path e s of
        Inl msg \<Rightarrow> SMTP_Error e 501 msg s
      | Inr returnPath \<Rightarrow>
          (case mail_state_refusal e s of
             Some (n, msg) \<Rightarrow> SMTP_Error e n msg s
           | None \<Rightarrow>
               let s1 = mail_spf e returnPath s
               in if spf_refuses e s1 then spf_error e returnPath s1
                  else case mail_peer_refusal e s1 of
                         Some (n, msg) \<Rightarrow> SMTP_Error e n msg s1
                       | None \<Rightarrow>
                           let s2 = mail_user_tag s1
                           in case mail_final_refusal returnPath s2 of
                                Some (n, msg) \<Rightarrow> SMTP_Error e n msg s2
                              | None \<Rightarrow>
                                  printf (''250 2.1.0 Return path OK'' @ CRLF)
                                    (s2\<lparr>strReturnPath := returnPath, iState := SMTP_STATE_MAIL\<rparr>)))"

section \<open>RCPT\<close>

definition group_rows :: "world \<Rightarrow> int \<Rightarrow> (user_row \<times> group_row) list" where
  "group_rows w userID =
     filter (\<lambda>(u, g). g_id g = u_gruppe u \<and> u_id u = userID) (List.product (users w) (groups w))"

text \<open>Both sizes are read as unsigned 64-bit numbers; \<open>MAILBOX_MIN_QUOTA\<close> is 2048.\<close>

definition over_quota :: "'x env_scheme \<Rightarrow> world \<Rightarrow> int \<Rightarrow> bool" where
  "over_quota e w userID =
     list_ex (\<lambda>(u, g).
         (word_of_int (u_mailspace_used u) :: 64 word) + 2048 >
         word_of_int (g_storage g + (if cfg_is1 e ''user_space_add'' then u_mailspace_add u else 0)))
       (group_rows w userID)"

definition rcpt_denied :: "'x env_scheme \<Rightarrow> string \<Rightarrow> 'y smtp_scheme \<Rightarrow> 'y smtp_scheme" where
  "rcpt_denied e msg s = login_ban e FAILBAN_SMTPRCPT (SMTP_Error e 550 msg s)"

text \<open>
  The sending limit of the account: whether \<open>n\<close> more recipients exceed it, and the count of
  recent recipients. The statistics of older installations are compared by \<open>over\<close>; no row at
  all makes the sum NULL, which passes.
\<close>

definition smtp_limit ::
  "'x env_scheme \<Rightarrow> int \<Rightarrow> (int \<Rightarrow> int \<Rightarrow> bool) \<Rightarrow> 'y smtp_scheme \<Rightarrow> bool \<times> int" where
  "smtp_limit e n over s =
     (if bAuthenticated s \<and> 0 < iSMTPLimitCount s \<and> 0 < iSMTPLimitTime s
      then if cfg_is1 e ''enable_sendstats''
           then let (ok, count) = MaySendMail (wld s) (iUserID s) n (iSMTPLimitCount s) (iSMTPLimitTime s)
                in (\<not> ok, count)
           else case stat_sum (smtpstats (wld s)) (iUserID s) (now (wld s) - iSMTPLimitTime s * 60) of
                  None \<Rightarrow> (False, 0)
                | Some count \<Rightarrow> (over (count + n) (iSMTPLimitCount s), count)
      else (False, 0))"

definition limit_error :: "'x env_scheme \<Rightarrow> int \<Rightarrow> 'y smtp_scheme \<Rightarrow> 'y smtp_scheme" where
  "limit_error e count s =
     SMTP_Error e 450 ''4.5.3 Mail limit reached. Please try again later.''
       (s\<lparr>wld := AddAbusePoint e (wld s) (iUserID s) BMAP_SEND_FREQ_LIMIT
          (''SMTP, '' @ show_int count @ '' recipients in the last '' @ show_int (iSMTPLimitTime s) @
           '' minutes'')\<rparr>)"

definition send_without_receive :: "'x env_scheme \<Rightarrow> 'y smtp_scheme \<Rightarrow> 'y smtp_scheme" where
  "send_without_receive e s =
     (if bAuthenticated s \<and> 0 < iUserID s \<and> cfg_is1 e ''enable_ap''
      then let (v, w1) = GetAbuseTypeConfig e (wld s) BMAP_SEND_WITHOUT_RECEIVE ''interval'';
               iIntervalM = atoi v
           in if 0 < iIntervalM \<and> iLastFetch s < now w1 - iIntervalM * 60
              then s\<lparr>wld := AddAbusePoint e w1 (iUserID s) BMAP_SEND_WITHOUT_RECEIVE
                     (''SMTP, last IMAP/POP3 login at '' @
                      (if iLastFetch s = 0 then ''(never)'' else time_text e (iLastFetch s)))\<rparr>
              else s\<lparr>wld := w1\<rparr>
      else s)"

definition same_recipient :: "SMTPRecipient \<Rightarrow> SMTPRecipient \<Rightarrow> bool" where
  "same_recipient c r \<longleftrightarrow> strcaseeq (strAddress r) (strAddress c) \<or>
     (iLocalRecipient r \<noteq> 0 \<and> iLocalRecipient c = iLocalRecipient r)"

definition add_recipient :: "SMTPRecipient \<Rightarrow> SMTPRecipient list \<Rightarrow> SMTPRecipient list" where
  "add_recipient c rs = (if list_ex (same_recipient c) rs then rs else rs @ [c])"

definition rcpt_count :: "'y smtp_scheme \<Rightarrow> int" where
  "rcpt_count s = int (length (vRecipients s))"

definition rcpt_accept :: "'x env_scheme \<Rightarrow> SMTPRecipient \<Rightarrow> 'y smtp_scheme \<Rightarrow> 'y smtp_scheme" where
  "rcpt_accept e c s =
     (if iRecipientLimit s \<noteq> 0 \<and> rcpt_count s + 1 > iRecipientLimit s
      then SMTP_Error e 450 ''4.5.3 Recipient limit reached''
             (s\<lparr>wld := AddAbusePoint e (wld s) (iUserID s) BMAP_SEND_RECP_LIMIT
                (''SMTP, '' @ show_int (rcpt_count s + 1) @ '' recipients'')\<rparr>)
      else let (bLimitError, count) = smtp_limit e (rcpt_count s + 1) (>) s
           in if bLimitError then limit_error e count s
              else let s1 = send_without_receive e s
                   in printf (''250 2.1.5 Recipient OK'' @ CRLF)
                        (s1\<lparr>vRecipients := add_recipient c (vRecipients s1)\<rparr>))"

definition rcpt_decide :: "'x env_scheme \<Rightarrow> SMTPRecipient \<Rightarrow> 'y smtp_scheme \<Rightarrow> 'y smtp_scheme" where
  "rcpt_decide e c s =
     (if iLocalRecipient c = 0
      then if trusted s \<or> bAuthenticated s
           then if \<not> trusted s \<and> IsRecipientBlocked (pcre_match e) (cfg_str e ''blocked'') (strAddress c)
                then rcpt_denied e ''Relaying to this recipient is blocked''
                       (s\<lparr>wld := AddAbusePoint e (wld s) (iUserID s) BMAP_SEND_RECP_BLOCKED
                          (''SMTP, to '' @ strAddress c)\<rparr>)
                else rcpt_accept e c s
           else rcpt_denied e ''No such local user, unauthenticated relaying denied'' s
      else if \<not> trusted s \<and> \<not> bAuthenticated s \<and> 0 < iLocalRecipient c \<and>
              over_quota e (wld s) (iLocalRecipient c)
      then SMTP_Error e 552 ''5.5.2 User quota limit exceeded (mailbox is full)'' s
      else rcpt_accept e c s)"

definition rcpt_recipient :: "'x env_scheme \<Rightarrow> string \<Rightarrow> 'y smtp_scheme \<Rightarrow> SMTPRecipient" where
  "rcpt_recipient e adr s =
     \<lparr>strAddress = adr, iLocalRecipient = LookupUser e (wld s) adr False False,
      iDeliveryStatusID =
        (if trusted s
         then (case number_after ''X-B1GMAIL-DSID='' (drop 3 (szLine_at 5 s)) of Some n \<Rightarrow> n | None \<Rightarrow> 0)
         else 0)\<rparr>"

definition SMTP_Rcpt :: "'x env_scheme \<Rightarrow> 'y smtp_scheme \<Rightarrow> 'y smtp_scheme" where
  "SMTP_Rcpt e s =
     (let l = szLine_at 5 s
      in if iState s \<noteq> SMTP_STATE_MAIL then SMTP_Error e 503 ''5.5.1 Please send MAIL command first'' s
         else if length l < 4 \<or> \<not> starts_with_case ''TO:'' l
         then SMTP_Error e 501 ''5.5.4 Usage: RCPT TO:<forward-path>'' s
         else case ExtractMailAddress e (drop 3 l) of
                None \<Rightarrow> SMTP_Error e 501 ''5.1.3 Invalid mail address in RCPT TO:'' s
              | Some adr \<Rightarrow> rcpt_decide e (rcpt_recipient e adr s) s)"

section \<open>AUTH\<close>

text \<open>One more line from the client, into a buffer of its own.\<close>

definition auth_line :: "'y smtp_scheme \<Rightarrow> string option \<times> 'y smtp_scheme" where
  "auth_line s = (case read_line 255 s of (None, t) \<Rightarrow> (None, t) | (Some l, t) \<Rightarrow> (Some (cstr l), t))"

text \<open>The initial response on the command line, or the answer to the prompt.\<close>

definition auth_response :: "string \<Rightarrow> string \<Rightarrow> 'y smtp_scheme \<Rightarrow> string option \<times> 'y smtp_scheme" where
  "auth_response prompt r s =
     (case scan_str 255 r of
        Some (tok, _) \<Rightarrow> (Some tok, s)
      | None \<Rightarrow> auth_line (printf prompt s))"

definition c_bytes :: "byte list \<Rightarrow> string" where
  "c_bytes bs = cstr (map char_of_byte bs)"

text \<open>User and password in the decoded response of PLAIN.\<close>

definition plain_credentials :: "byte list \<Rightarrow> string \<times> string" where
  "plain_credentials bs =
     (let iLen = length bs; a = length (c_bytes bs)
      in if iLen > a + 4
         then let szUser = c_bytes (drop (a + 1) bs)
              in if szUser \<noteq> []
                 then (szUser,
                       if iLen > a + 1 + length szUser + 2
                       then c_bytes (drop (a + 1 + length szUser + 1) bs) else [])
                 else ([], [])
         else ([], []))"

definition auth_plain :: "'x env_scheme \<Rightarrow> string \<Rightarrow> 'y smtp_scheme \<Rightarrow> (string \<times> string) option \<times> 'y smtp_scheme" where
  "auth_plain e r s =
     (case auth_response (''334 '' @ CRLF) r s of
        (None, t) \<Rightarrow> (None, SMTP_Error e 501 ''Invalid PLAIN authentication string'' t)
      | (Some szAuthString, t) \<Rightarrow>
          (case Base64Decode False szAuthString of
             None \<Rightarrow> (None, SMTP_Error e 501 ''Invalid PLAIN authentication string'' t)
           | Some bs \<Rightarrow> (Some (plain_credentials bs), t)))"

definition decoded :: "string \<Rightarrow> string" where
  "decoded l = (case Base64Decode False l of None \<Rightarrow> [] | Some bs \<Rightarrow> c_bytes bs)"

definition auth_login :: "string \<Rightarrow> 'y smtp_scheme \<Rightarrow> (string \<times> string) option \<times> 'y smtp_scheme" where
  "auth_login r s =
     (case auth_response (''334 VXNlcm5hbWU6'' @ CRLF) r s of
        (None, t) \<Rightarrow> (Some ([], []), t)
      | (Some l, t) \<Rightarrow>
          (case auth_line (printf (''334 UGFzc3dvcmQ6'' @ CRLF) t) of
             (None, v) \<Rightarrow> (Some (decoded l, []), v)
           | (Some p, v) \<Rightarrow> (Some (decoded l, decoded p), v)))"

definition smtp_login_rows :: "'x env_scheme \<Rightarrow> world \<Rightarrow> int \<Rightarrow> string \<Rightarrow> (user_row \<times> group_row) list" where
  "smtp_login_rows e w userID pass =
     filter (\<lambda>(u, g). u_id u = userID \<and> password_ok e u pass \<and> u_locked u = ''no'' \<and>
               u_gesperrt u = ''no'' \<and> g_id g = u_gruppe u \<and> g_smtp g = ''yes'')
       (List.product (users w) (groups w))"

text \<open>The limits and the identity that the row of the login query gives to the session.\<close>

definition auth_limits :: "'x env_scheme \<Rightarrow> user_row \<Rightarrow> group_row \<Rightarrow> 'y smtp_scheme \<Rightarrow> 'y smtp_scheme" where
  "auth_limits e u g s =
     (if cfg_is1 e ''enable_sendstats''
      then s\<lparr>iMessageCountLimit := -1, iSMTPLimitCount := g_send_limit_count g,
             iSMTPLimitTime := g_send_limit_time g\<rparr>
      else if 0 < g_send_limit g
      then let n = 86400 div g_send_limit g
           in if u_today_key u = today_key e (now (wld s))
              then s\<lparr>iMessageCountLimit := n - u_today_sent u, bTodayKeyValid := True\<rparr>
              else s\<lparr>iMessageCountLimit := n\<rparr>
      else s\<lparr>iMessageCountLimit := -1\<rparr>)"

definition auth_identity ::
  "string \<Rightarrow> string \<Rightarrow> int \<Rightarrow> user_row \<Rightarrow> group_row \<Rightarrow> 'y smtp_scheme \<Rightarrow> 'y smtp_scheme" where
  "auth_identity meth usr userID u g s =
     s\<lparr>iRecipientLimit := g_max_recps g, iMessageSizeLimit := g_anlagen g,
       iLastFetch := max (u_last_pop3 u) (u_last_imap u), bAuthenticated := True, iUserID := userID,
       strAuthUser := usr, strAuthMethod := meth\<rparr>"

definition sender_check_mode :: "string \<Rightarrow> eSenderCheckMode" where
  "sender_check_mode v =
     (if v = ''mailfrom'' then SMTP_SENDERCHECK_MAILFROM
      else if v = ''full'' then SMTP_SENDERCHECK_FULL else SMTP_SENDERCHECK_NO)"

definition scan_into :: "string \<Rightarrow> int \<Rightarrow> int" where
  "scan_into v old = (case scan_int v of Some (n, _) \<Rightarrow> n | None \<Rightarrow> old)"

definition auth_group_option :: "bool \<Rightarrow> 'y smtp_scheme \<Rightarrow> string \<times> string \<Rightarrow> 'y smtp_scheme" where
  "auth_group_option haveStats s = (\<lambda>(k, v).
     (if k = ''smtplimit_count'' \<and> \<not> haveStats then s\<lparr>iSMTPLimitCount := scan_into v (iSMTPLimitCount s)\<rparr>
      else if k = ''smtplimit_time'' \<and> \<not> haveStats then s\<lparr>iSMTPLimitTime := scan_into v (iSMTPLimitTime s)\<rparr>
      else if k = ''smtp_sendercheck'' then s\<lparr>iSenderCheckMode := sender_check_mode v\<rparr>
      else s))"

definition auth_succeeded :: "'x env_scheme \<Rightarrow> int \<Rightarrow> 'y smtp_scheme \<Rightarrow> 'y smtp_scheme" where
  "auth_succeeded e groupID s =
     (let haveStats = cfg_is1 e ''enable_sendstats'';
          s1 = s\<lparr>iSenderCheckMode := SMTP_SENDERCHECK_MAILFROM\<rparr>;
          s2 = (if haveStats then s1 else s1\<lparr>iSMTPLimitCount := 30, iSMTPLimitTime := 60\<rparr>);
          s3 = foldl (auth_group_option haveStats) s2
                 (map snd (filter (\<lambda>(g, _). g = groupID) (groupoptions (wld s))));
          w1 = (wld s)\<lparr>users := map (\<lambda>u. if u_id u = iUserID s then u\<lparr>u_last_smtp := now (wld s)\<rparr> else u)
                 (users (wld s))\<rparr>
      in printf (''235 Authentication successful'' @ CRLF) (s3\<lparr>wld := w1\<rparr>))"

definition auth_failed :: "'x env_scheme \<Rightarrow> bool \<Rightarrow> 'y smtp_scheme \<Rightarrow> 'y smtp_scheme" where
  "auth_failed e webLoginIssue s =
     login_ban e FAILBAN_SMTPLOGIN
       (SMTP_Error e 535 (if webLoginIssue then ''Please login to your webmail account first''
                          else ''Authentication failed'') (s\<lparr>iUserID := 0\<rparr>))"

definition auth_verify :: "'x env_scheme \<Rightarrow> string \<Rightarrow> string \<Rightarrow> string \<Rightarrow> 'y smtp_scheme \<Rightarrow> 'y smtp_scheme" where
  "auth_verify e meth usr pass s =
     (let userID = LookupUser e (wld s) usr True True
      in case (if 0 < userID then smtp_login_rows e (wld s) userID pass else []) of
           [] \<Rightarrow> auth_failed e False s
         | (u, g) # _ \<Rightarrow>
             let s1 = auth_identity meth usr userID u g (auth_limits e u g s)
             in if web_login_missing e (wld s1) userID (u_lastlogin u)
                then auth_failed e True (s1\<lparr>bAuthenticated := False, strAuthMethod := []\<rparr>)
                else auth_succeeded e (g_id g) s1)"

definition SMTP_Auth :: "'x env_scheme \<Rightarrow> 'y smtp_scheme \<Rightarrow> 'y smtp_scheme" where
  "SMTP_Auth e s =
     (if \<not> bEhlo s \<or> cfg_int e ''smtp_auth_enabled'' \<noteq> 1
      then SMTP_Error e 500 ''5.5.1 Unrecognized command'' s
      else if iState s = SMTP_STATE_MAIL
      then SMTP_Error e 503 ''5.5.1 Command not allowed during mail transaction'' s
      else if bAuthenticated s then SMTP_Error e 503 ''5.5.1 Already authenticated'' s
      else case (case scan_str 4 (szLine s) of None \<Rightarrow> None | Some (_, r) \<Rightarrow> scan_str 16 r) of
             None \<Rightarrow> SMTP_Error e 501 ''5.5.4 Usage: AUTH [method]'' s
           | Some (szAuthMethod, r) \<Rightarrow>
               if strcaseeq szAuthMethod ''plain'' \<or> strcaseeq szAuthMethod ''login''
               then (case (if strcaseeq szAuthMethod ''plain'' then auth_plain e r s else auth_login r s) of
                       (None, t) \<Rightarrow> t
                     | (Some (usr, pass), t) \<Rightarrow> auth_verify e szAuthMethod usr pass t)
               else SMTP_Error e 504 ''Unrecognized authentication method'' s)"

end
