(* ===== verification/Smtp_Data.thy ===== *)
theory Smtp_Data
  imports Smtp
begin

text \<open>
  The data phase of the SMTP server (src/smtp/smtp_data.cpp): collecting header and body,
  checking and enqueueing the message, and the dispatcher and main loop of src/smtp/smtp.cpp
  that tie it to the commands. \<open>failed\<close> is set where \<open>EnqueueMessage\<close> does not return.
\<close>

section \<open>DATA\<close>

definition SMTP_Data :: "'x env_scheme \<Rightarrow> 'y smtp_scheme \<Rightarrow> 'y smtp_scheme" where
  "SMTP_Data e s =
     (if iState s \<noteq> SMTP_STATE_MAIL \<or> length (vRecipients s) < 1
      then SMTP_Error e 503 ''5.5.1 Please send valid MAIL/RCPT commands first'' s
      else printf (''354 Send data (max '' @ show_int (cfg_int e ''smtp_size_limit'') @
             '' bytes), end with '' @ [BACKSLASH, CHR ''r'', BACKSLASH, CHR ''n'', CHR ''.'',
               BACKSLASH, CHR ''r'', BACKSLASH, CHR ''n''] @ CRLF)
             (s\<lparr>iHopCounter := 0, bValidFromHeader := False, bSizeLimitExceeded := False,
                bDataPassedHeaders := False, bWriteMessageIDHeader := bAuthenticated s \<or> trusted s,
                bWriteDateHeader := bAuthenticated s \<or> trusted s, bPrevLineEndsWithCrLf := False,
                iHeaderBytes := 0, strBody := [], vHeaders := [], iState := SMTP_STATE_DATA\<rparr>))"

section \<open>A line of the message\<close>

text \<open>The first space or tab of a header line.\<close>

definition blank_pos :: "string \<Rightarrow> nat option" where
  "blank_pos l =
     (case (find_chr (CHR '' '') l, find_chr TAB l) of
        (None, t) \<Rightarrow> t
      | (Some sp, Some t) \<Rightarrow> if t < sp then Some t else Some sp
      | (Some sp, None) \<Rightarrow> Some sp)"

text \<open>A field line starts a header, a line with leading blank continues the last one.\<close>

definition add_header_line :: "string \<Rightarrow> (string \<times> string) list \<Rightarrow> (string \<times> string) list" where
  "add_header_line strLine hs =
     (let colonPos = find_chr (CHR '':'') strLine; spacePos = blank_pos strLine
      in if colonPos \<noteq> None \<and> (spacePos = None \<or> the colonPos < the spacePos)
         then hs @ [(Trim (take (the colonPos) strLine) blanks, Trim (drop (the colonPos + 1) strLine) blanks)]
         else if spacePos = Some 0 \<and> hs \<noteq> []
         then butlast hs @ [(fst (last hs), snd (last hs) @ CRLF @ strLine)]
         else hs)"

text \<open>What the session notes about a header line: \<open>strlen\<close> has to exceed the name and its NUL.\<close>

definition header_is :: "string \<Rightarrow> string \<Rightarrow> bool" where
  "header_is name l \<longleftrightarrow> length l > length name + 1 \<and> starts_with_case name l"

definition note_header :: "'x env_scheme \<Rightarrow> string \<Rightarrow> 'y smtp_scheme \<Rightarrow> 'y smtp_scheme" where
  "note_header e l s =
     (if header_is ''date:'' l then s\<lparr>bWriteDateHeader := False\<rparr>
      else if header_is ''message-id:'' l then s\<lparr>bWriteMessageIDHeader := False\<rparr>
      else if header_is ''from:'' l
      then (if bAuthenticated s
            then (case ExtractMailAddress e (drop 5 l) of
                    Some a \<Rightarrow>
                      if IsValidSenderAddressForUser (wld s) (iUserID s) a
                      then s\<lparr>bValidFromHeader := True\<rparr> else s
                  | None \<Rightarrow> s)
            else s)
      else if header_is ''received:'' l then s\<lparr>iHopCounter := iHopCounter s + 1\<rparr>
      else s)"

definition header_line :: "'x env_scheme \<Rightarrow> string \<Rightarrow> 'y smtp_scheme \<Rightarrow> 'y smtp_scheme" where
  "header_line e l s =
     note_header e l
       (s\<lparr>iHeaderBytes := iHeaderBytes s + int (length l),
          vHeaders := add_header_line (RTrim l [CR, NL]) (vHeaders s)\<rparr>)"

text \<open>A leading dot is dropped, the end of the line is written as CRLF.\<close>

definition body_text :: "string \<Rightarrow> string" where
  "body_text l =
     (let t = RTrim l [CR, NL] in (if t \<noteq> [] \<and> hd t = CHR ''.'' then tl t else t) @ CRLF)"

definition data_text :: "'x env_scheme \<Rightarrow> string \<Rightarrow> 'y smtp_scheme \<Rightarrow> 'y smtp_scheme" where
  "data_text e l s =
     (if bSizeLimitExceeded s then s
      else if iMessageSizeLimit s \<noteq> 0 \<and>
              int (length (strBody s)) + iHeaderBytes s + int (length l) > iMessageSizeLimit s
      then s\<lparr>bSizeLimitExceeded := True\<rparr>
      else if bDataPassedHeaders s then s\<lparr>strBody := strBody s @ body_text l\<rparr>
      else if l = [NL] \<or> l = CRLF \<or> l = [] then s\<lparr>bDataPassedHeaders := True\<rparr>
      else header_line e l s)"

section \<open>The whole message\<close>

definition message_refusal :: "'x env_scheme \<Rightarrow> 'y smtp_scheme \<Rightarrow> (int \<times> string) option" where
  "message_refusal e s =
     (if bSizeLimitExceeded s then Some (552, ''5.3.4 Message size limit exceeded'')
      else if bAuthenticated s \<and> iSenderCheckMode s = SMTP_SENDERCHECK_FULL \<and> \<not> bValidFromHeader s
      then Some (554, ''5.7.1 Please supply 'From' header field disclosing one of your account's email addresses'')
      else if 0 < cfg_int e ''smtp_hop_limit'' \<and> iHopCounter s \<ge> cfg_int e ''smtp_hop_limit''
      then Some (554, ''5.4.0 Too many hops'')
      else None)"

text \<open>The row of the sending statistics and its id, 0 for none.\<close>

definition add_stat :: "'x env_scheme \<Rightarrow> 'y smtp_scheme \<Rightarrow> int \<times> world" where
  "add_stat e s =
     (let w = wld s
      in if \<not> bAuthenticated s then (0, w)
         else if cfg_is1 e ''enable_sendstats'' then AddSendStat w (iUserID s) (rcpt_count s)
         else (next_id w,
               w\<lparr>smtpstats := smtpstats w @
                   [\<lparr>st_id = next_id w, st_userid = iUserID s, st_recipients = rcpt_count s,
                     st_time = now w\<rparr>],
                 next_id := next_id w + 1\<rparr>))"

definition remove_stat :: "'x env_scheme \<Rightarrow> int \<Rightarrow> world \<Rightarrow> world" where
  "remove_stat e i w =
     (if \<not> 0 < i then w
      else if cfg_is1 e ''enable_sendstats''
      then w\<lparr>sendstats := filter (\<lambda>r. st_id r \<noteq> i) (sendstats w)\<rparr>
      else w\<lparr>smtpstats := filter (\<lambda>r. st_id r \<noteq> i) (smtpstats w)\<rparr>)"

fun spf_text :: "SPFResult \<Rightarrow> string" where
  "spf_text SPF_RESULT_NONE = ''None''"
| "spf_text SPF_RESULT_NEUTRAL = ''Neutral''"
| "spf_text SPF_RESULT_PASS = ''Pass''"
| "spf_text SPF_RESULT_FAIL = ''Fail''"
| "spf_text SPF_RESULT_SOFTFAIL = ''SoftFail''"
| "spf_text SPF_RESULT_TEMPERROR = ''TempError''"
| "spf_text SPF_RESULT_PERMERROR = ''PermError''"

definition add_spf_header :: "'x env_scheme \<Rightarrow> 'y smtp_scheme \<Rightarrow> 'y smtp_scheme" where
  "add_spf_header e s =
     (if \<not> bAuthenticated s \<and> \<not> trusted s \<and> cfg_is1 e ''spf_enable'' \<and> cfg_is1 e ''spf_inject_header''
      then s\<lparr>vHeaders := (''Received-SPF'',
               spf_text (spfResult s) @ CRLF @ [TAB] @ ''identity='' @ strReturnPath s @
               ''; client-ip='' @ strPeer s @ '';'' @ CRLF @ [TAB] @ ''helo='' @ strHeloHost s) # vHeaders s\<rparr>
      else s)"

subsection \<open>Milters\<close>

definition milter_connection :: "'x smtp_env_scheme \<Rightarrow> 'y smtp_scheme \<Rightarrow> milter_conn" where
  "milter_connection e s =
     (let host = (if strPeerHost s = ''(unknown)'' then ''localhost'' else strPeerHost s);
          unknown = strPeer s = [] \<or> strPeer s = ''(unknown)''
      in \<lparr>mc_hostName = (if host = strRealPeer s then ''['' @ host @ '']'' else host),
          mc_heloHostName = strHeloHost s,
          mc_family = (if unknown then CHR ''U''
                       else if isIPv6 (IPAddress_of_string (net e) (strPeer s)) then CHR ''6'' else CHR ''4''),
          mc_ipAddress = (if unknown then [] else strPeer s),
          mc_port = (if unknown then 0 else peer_port e),
          mc_isAuthenticated = bAuthenticated s, mc_authMethod = strAuthMethod s\<rparr>)"

definition message_of :: "'y smtp_scheme \<Rightarrow> smtp_message" where
  "message_of s = \<lparr>ms_headers = vHeaders s, ms_body = strBody s, ms_from = strReturnPath s,
                   ms_rcpts = vRecipients s\<rparr>"

definition set_message :: "smtp_message \<Rightarrow> 'y smtp_scheme \<Rightarrow> 'y smtp_scheme" where
  "set_message m s = s\<lparr>vHeaders := ms_headers m, strBody := ms_body m, vRecipients := ms_rcpts m,
                       strReturnPath := ms_from m\<rparr>"

definition milter_applies :: "'y smtp_scheme \<Rightarrow> milter_row \<Rightarrow> bool" where
  "milter_applies s r \<longleftrightarrow> (mi_flags r AND 2 \<noteq> 0 \<and> \<not> bAuthenticated s) \<or>
     (mi_flags r AND 4 \<noteq> 0 \<and> bAuthenticated s)"

text \<open>The result says whether the message is rejected and whether to shut down.\<close>

fun run_milters :: "'x smtp_env_scheme \<Rightarrow> milter_conn \<Rightarrow> milter_row list \<Rightarrow> 'y smtp_scheme \<Rightarrow>
    (bool \<times> bool) \<times> 'y smtp_scheme" where
  "run_milters e c [] s = ((False, False), s)"
| "run_milters e c (r # rs) s =
     (if \<not> milter_applies s r then run_milters e c rs s
      else let m = milter_process e r c (message_of s); mr = mr_code m
           in if mr = CHR ''a'' \<or> mr = CHR ''c'' then run_milters e c rs (set_message (mr_message m) s)
              else if mr = CHR ''d'' \<or> mr = CHR ''r''
              then ((True, False), SMTP_Error e 554 ''5.7.1 Mail rejected by content filter'' s)
              else if mr = CHR ''f'' then ((True, True), s)
              else if mr = CHR ''t'' then ((True, False), SMTP_Error e 451 ''4.7.0 Please try again later'' s)
              else if mr = CHR ''y'' then ((True, False), SMTP_Error e (fst (mr_reply m)) (snd (mr_reply m)) s)
              else if mr = CHR ''4'' then ((True, True), SMTP_Error e 421 ''Shutting down connection'' s)
              else run_milters e c rs s)"

subsection \<open>Enqueueing\<close>

definition message_args :: "'y smtp_scheme \<Rightarrow> SMTPRecipient \<Rightarrow> enqueue_args" where
  "message_args s r =
     \<lparr>qa_headers = vHeaders s, qa_body = strBody s,
      qa_type = (if iLocalRecipient r = 0 then MESSAGE_OUTBOUND else MESSAGE_INBOUND),
      qa_from = strReturnPath s, qa_to = strAddress r, qa_smtp_user = iUserID s,
      qa_write_headers = True, qa_write_message_id = bWriteMessageIDHeader s,
      qa_write_date = bWriteDateHeader s, qa_helo = strHeloHost s, qa_peer = strPeer s,
      qa_peer_host = strPeerHost s,
      qa_b1gmail_user = (if iUserID s \<noteq> 0 then iUserID s else ib1gMailUserID s),
      qa_instant_release = False, qa_tls = bTLSMode s, qa_dsid = iDeliveryStatusID r\<rparr>"

definition count_message :: "SMTPRecipient \<Rightarrow> 'y smtp_scheme \<Rightarrow> 'y smtp_scheme" where
  "count_message r s =
     (if iLocalRecipient r = 0 then s\<lparr>iOutboundMessages := iOutboundMessages s + 1\<rparr>
      else s\<lparr>iInboundMessages := iInboundMessages s + 1\<rparr>)"

text \<open>The loop over the recipients with \<open>queueIDs\<close>; the flag is \<open>bOK\<close>.\<close>

fun enqueue_all :: "'x mta_env_scheme \<Rightarrow> SMTPRecipient list \<Rightarrow> int list \<Rightarrow> 'y smtp_scheme \<Rightarrow>
    (bool \<times> int list \<times> 'y smtp_scheme) option" where
  "enqueue_all e [] ids s = Some (True, ids, s)"
| "enqueue_all e (r # rs) ids s =
     (case EnqueueMessage e (wld s) (message_args s r) of
        None \<Rightarrow> None
      | Some (currentID, w1) \<Rightarrow>
          if currentID \<le> 0 then Some (False, ids, s\<lparr>wld := w1\<rparr>)
          else enqueue_all e rs (ids @ [currentID]) (count_message r (s\<lparr>wld := w1\<rparr>)))"

definition enqueue_message :: "'x mta_env_scheme \<Rightarrow> int \<Rightarrow> 'y smtp_scheme \<Rightarrow> 'y smtp_scheme" where
  "enqueue_message e statID s =
     (case enqueue_all e (vRecipients s) [] s of
        None \<Rightarrow> s\<lparr>failed := True\<rparr>
      | Some (True, queueIDs, t) \<Rightarrow>
          printf (''250 2.0.0 Message enqueued for delivery'' @ CRLF)
            (t\<lparr>wld := ReleaseMessages queueIDs (wld t), iErrorCounter := 0\<rparr>)
      | Some (False, queueIDs, t) \<Rightarrow>
          SMTP_Error e 451 ''4.3.0 Internal error while enqueueing message for one or more recipient(s)''
            (t\<lparr>wld := remove_stat e statID (DeleteMessages e queueIDs (wld t))\<rparr>))"

definition message_deliver :: "'x smtp_env_scheme \<Rightarrow> 'y smtp_scheme \<Rightarrow> 'y smtp_scheme" where
  "message_deliver e s =
     (let (statID, w1) = add_stat e s;
          s1 = add_spf_header e (s\<lparr>wld := w1\<rparr>);
          ((doReject, doShutdown), s2) = run_milters e (milter_connection e s1) (milters (wld s1)) s1
      in if doReject then (if doShutdown then s2\<lparr>iState := SMTP_STATE_QUIT\<rparr> else s2)
         else enqueue_message e statID s2)"

definition message_outcome :: "'x smtp_env_scheme \<Rightarrow> 'y smtp_scheme \<Rightarrow> 'y smtp_scheme" where
  "message_outcome e s =
     (case message_refusal e s of
        Some (n, msg) \<Rightarrow> SMTP_Error e n msg s
      | None \<Rightarrow>
          let (bLimitError, count) = smtp_limit e (rcpt_count s) (\<ge>) s
          in if bLimitError then limit_error e count s else message_deliver e s)"

definition SMTP_ProcessMessage :: "'x smtp_env_scheme \<Rightarrow> 'y smtp_scheme \<Rightarrow> 'y smtp_scheme" where
  "SMTP_ProcessMessage e s = SMTP_Rset True (message_outcome e s)"

definition SMTP_ProcessDataLine :: "'x smtp_env_scheme \<Rightarrow> 'y smtp_scheme \<Rightarrow> 'y smtp_scheme" where
  "SMTP_ProcessDataLine e s =
     (if szLine s = ''.'' @ CRLF \<and> bPrevLineEndsWithCrLf s then SMTP_ProcessMessage e s
      else data_text e (szLine s) s)"

section \<open>Dispatcher and session\<close>

definition SMTP_command :: "'x smtp_env_scheme \<Rightarrow> string \<Rightarrow> 'y smtp_scheme \<Rightarrow> bool \<times> 'y smtp_scheme" where
  "SMTP_command e c s =
     (if strcaseeq c ''helo'' then (True, SMTP_Helo e False s)
      else if strcaseeq c ''ehlo'' then (True, SMTP_Helo e True s)
      else if \<not> bTLSMode s \<and> strcaseeq c ''starttls'' \<and> tls_available e then (True, SMTP_StartTLS e s)
      else if strcaseeq c ''noop'' then (True, SMTP_Noop s)
      else if strcaseeq c ''quit'' then (False, SMTP_Quit e s)
      else if bEhlo s \<and> strcaseeq c ''auth'' \<and> cfg_int e ''smtp_auth_enabled'' = 1
      then (True, SMTP_Auth e s)
      else if strcaseeq c ''mail'' then (True, SMTP_Mail e s)
      else if strcaseeq c ''rcpt'' then (True, SMTP_Rcpt e s)
      else if strcaseeq c ''data'' then (True, SMTP_Data e s)
      else if strcaseeq c ''rset'' then (True, SMTP_Rset False s)
      else (True, SMTP_Error e 500 ''5.5.1 Unrecognized command'' s))"

definition ends_crlf :: "string \<Rightarrow> bool" where
  "ends_crlf l \<longleftrightarrow> length l \<ge> 2 \<and> drop (length l - 2) l = CRLF"

definition SMTP_ProcessLine :: "'x smtp_env_scheme \<Rightarrow> 'y smtp_scheme \<Rightarrow> bool \<times> 'y smtp_scheme" where
  "SMTP_ProcessLine e s =
     (if iState s = SMTP_STATE_DATA
      then (True, (SMTP_ProcessDataLine e s)\<lparr>bPrevLineEndsWithCrLf := ends_crlf (szLine s)\<rparr>)
      else case scan_str 10 (szLine s) of
             Some (szCommand, _) \<Rightarrow> SMTP_command e szCommand (s\<lparr>smtpCommands := smtpCommands s + 1\<rparr>)
           | None \<Rightarrow> (True, SMTP_Error e 500 ''5.5.2 Syntax error'' s))"

text \<open>One round of the main loop; it is left on a false result and in the state QUIT.\<close>

definition SMTP_handle :: "'x smtp_env_scheme \<Rightarrow> 'y smtp_scheme \<Rightarrow> bool \<times> 'y smtp_scheme" where
  "SMTP_handle e s =
     (let (go, t) = SMTP_ProcessLine e s in (go \<and> iState t \<noteq> SMTP_STATE_QUIT \<and> \<not> failed t, t))"

definition smtp_loop :: "'x smtp_env_scheme \<Rightarrow> 'y smtp_scheme \<Rightarrow> 'y smtp_scheme option" where
  "smtp_loop e s = serve (Suc (todo s)) (my_fgets SMTP_LINEMAX) (SMTP_handle e) (\<lambda>s. \<not> bBanned s) s"

text \<open>Greylisting as \<open>Run\<close> applies it to this session.\<close>

definition smtp_greylist :: "'x env_scheme \<Rightarrow> 'y smtp_scheme \<Rightarrow> 'y smtp_scheme" where
  "smtp_greylist e s =
     (if cfg_is1 e ''grey_enabled'' \<and> strPeer s \<noteq> ''(unknown)'' \<and>
         iPeerOrigin s \<notin> {ORIGIN_TRUSTED, ORIGIN_NOGREY, ORIGIN_NOGREYANDBAN}
      then let (bBreak, w1) = greylist_check e (IPAddress_of_string (net e) (strPeer s)) (wld s)
           in s\<lparr>wld := w1, bGreylisted := bBreak \<or> bGreylisted s\<rparr>
      else s)"

text \<open>The messages sent through an account are added to its counters at the end.\<close>

definition save_counters :: "'x env_scheme \<Rightarrow> 'y smtp_scheme \<Rightarrow> 'y smtp_scheme" where
  "save_counters e s =
     (let n = iInboundMessages s + iOutboundMessages s; w = wld s
      in if bAuthenticated s \<and> 0 < n
         then s\<lparr>wld := w\<lparr>users := map (\<lambda>u. if u_id u = iUserID s
                then (let v = u\<lparr>u_sent_mails := u_sent_mails u + n, u_mta_sentmails := u_mta_sentmails u + n\<rparr>
                      in if bTodayKeyValid s then v\<lparr>u_today_sent := u_today_sent u + n\<rparr>
                         else v\<lparr>u_today_sent := n, u_today_key := today_key e (now w)\<rparr>)
                else u) (users w)\<rparr>\<rparr>
         else s)"

definition smtp_epilogue :: "'x env_scheme \<Rightarrow> 'y smtp_scheme \<Rightarrow> 'y smtp_scheme" where
  "smtp_epilogue e s =
     save_counters e
       (if bTimeout s
        then printf (''421 '' @ cfg_str e ''b1gmta_host'' @ '' Closing connection due to timeout ('' @
               show_int (cfg_int e ''smtp_timeout'') @ ''s)'' @ CRLF) s
        else if bQuit s then printf (''421 '' @ cfg_str e ''b1gmta_host'' @ '' Closing connection'' @ CRLF) s
        else s)"

definition smtp_greeting :: "'x peer_env_scheme \<Rightarrow> 'y smtp_scheme \<Rightarrow> string" where
  "smtp_greeting e s =
     ''220 '' @ cfg_str e ''b1gmta_host'' @ '' '' @ cfg_str e ''smtpgreeting'' @
     (if trusted s then '' [bMS-'' @ bms_version e @ '']'' else []) @ CRLF"

definition SMTP_Run :: "'x smtp_env_scheme \<Rightarrow> 'y smtp_scheme \<Rightarrow> 'y smtp_scheme option" where
  "SMTP_Run e s =
     (if Failban_IsBanned e (wld s) (PEER_IP e s) (FAILBAN_SMTPLOGIN OR FAILBAN_SMTPRCPT)
      then Some (printf (''554 5.7.1 IP temporarily banned because of too many failed login attempts'' @ CRLF)
             (s\<lparr>bBanned := True\<rparr>))
      else if iPeerOrigin s = ORIGIN_REJECT
      then Some (printf (''554 5.7.1 Connection rejected'' @ CRLF) s)
      else let s1 = smtp_greylist e s
           in if 0 < cfg_int e ''smtp_greeting_delay'' \<and> \<not> trusted s \<and> \<not> bSubmission s \<and>
                 data_before_greeting e
              then Some (printf (''554 5.5.1 Synchronization error'' @ CRLF) s1)
              else case smtp_loop e (printf (smtp_greeting e s1) s1) of
                     None \<Rightarrow> None
                   | Some t \<Rightarrow> Some (if failed t then t else smtp_epilogue e t))"

end
