(* ===== verification/Smtp_Correct.thy ===== *)
theory Smtp_Correct
  imports Smtp_Data
begin

text \<open>
  What the SMTP server guarantees in every reachable state of a session: who may relay, who has
  to authenticate, that recipients are distinct, that a session ends; and what the data phase
  makes of the bytes of a message.
\<close>

section \<open>Frames\<close>

text \<open>Who the session serves, and what it has collected for the next message.\<close>

definition who :: "'y smtp_scheme \<Rightarrow> int \<times> bool \<times> bool \<times> int" where
  "who s = (iPeerOrigin s, bSubmission s, bAuthenticated s, iUserID s)"

definition core :: "'y smtp_scheme \<Rightarrow> (int \<times> bool \<times> bool \<times> int) \<times> SMTPRecipient list" where
  "core s = (who s, vRecipients s)"

lemma core_update [simp]:
  "core (printf x s) = core s" "core (s\<lparr>wld := w\<rparr>) = core s" "core (s\<lparr>iState := st\<rparr>) = core s"
  "core (s\<lparr>iErrorCounter := n\<rparr>) = core s" "core (s\<lparr>smtpCommands := n\<rparr>) = core s"
  "core (s\<lparr>bBanned := b\<rparr>) = core s" "core (s\<lparr>failed := b\<rparr>) = core s"
  "core (s\<lparr>strReturnPath := x\<rparr>) = core s" "core (s\<lparr>ib1gMailUserID := n\<rparr>) = core s"
  "core (s\<lparr>spfResult := r\<rparr>) = core s" "core (s\<lparr>spfExplanation := x\<rparr>) = core s"
  "core (s\<lparr>bPrevLineEndsWithCrLf := b\<rparr>) = core s" "core (s\<lparr>bTLSMode := b\<rparr>) = core s"
  "core (s\<lparr>bIO_SSL := b\<rparr>) = core s" "core (s\<lparr>bGreylisted := b\<rparr>) = core s"
  "core (s\<lparr>strHeloHost := x\<rparr>) = core s" "core (s\<lparr>bEhlo := b\<rparr>) = core s" "core (s\<lparr>bOverrun := b\<rparr>) = core s"
  "core (s\<lparr>bSizeLimitExceeded := b\<rparr>) = core s" "core (s\<lparr>strBody := x\<rparr>) = core s"
  "core (s\<lparr>bDataPassedHeaders := b\<rparr>) = core s" "core (s\<lparr>iHeaderBytes := n\<rparr>) = core s"
  "core (s\<lparr>vHeaders := hs\<rparr>) = core s" "core (s\<lparr>bWriteDateHeader := b\<rparr>) = core s"
  "core (s\<lparr>bWriteMessageIDHeader := b\<rparr>) = core s" "core (s\<lparr>bValidFromHeader := b\<rparr>) = core s"
  "core (s\<lparr>iHopCounter := n\<rparr>) = core s" "core (s\<lparr>iInboundMessages := n\<rparr>) = core s"
  "core (s\<lparr>iOutboundMessages := n\<rparr>) = core s"
  by (simp_all add: core_def who_def printf_def)

lemma printf_smtp [simp]:
  "iState (printf x s) = iState s" "vRecipients (printf x s) = vRecipients s"
  "iPeerOrigin (printf x s) = iPeerOrigin s" "bAuthenticated (printf x s) = bAuthenticated s"
  "who (printf x s) = who s" "bEhlo (printf x s) = bEhlo s" "iErrorCounter (printf x s) = iErrorCounter s"
  "bSubmission (printf x s) = bSubmission s"
  by (simp_all add: printf_def who_def)

lemma who_core: "core t = core s \<Longrightarrow> who t = who s"
  by (simp add: core_def)

lemma rest_smtp [simp]:
  "rest_of_input (s\<lparr>iState := st\<rparr>) = rest_of_input s" "rest_of_input (s\<lparr>iErrorCounter := n\<rparr>) = rest_of_input s"
  "rest_of_input (s\<lparr>smtpCommands := n\<rparr>) = rest_of_input s" "rest_of_input (s\<lparr>strReturnPath := x\<rparr>) = rest_of_input s"
  "rest_of_input (s\<lparr>ib1gMailUserID := n\<rparr>) = rest_of_input s" "rest_of_input (s\<lparr>spfResult := r\<rparr>) = rest_of_input s"
  "rest_of_input (s\<lparr>spfExplanation := x\<rparr>) = rest_of_input s" "rest_of_input (s\<lparr>vRecipients := rs\<rparr>) = rest_of_input s"
  "rest_of_input (s\<lparr>bPrevLineEndsWithCrLf := b\<rparr>) = rest_of_input s" "rest_of_input (s\<lparr>strHeloHost := x\<rparr>) = rest_of_input s"
  "rest_of_input (s\<lparr>bEhlo := b\<rparr>) = rest_of_input s" "rest_of_input (s\<lparr>bOverrun := b\<rparr>) = rest_of_input s"
  "rest_of_input (s\<lparr>bSizeLimitExceeded := b\<rparr>) = rest_of_input s" "rest_of_input (s\<lparr>strBody := x\<rparr>) = rest_of_input s"
  "rest_of_input (s\<lparr>bDataPassedHeaders := b\<rparr>) = rest_of_input s" "rest_of_input (s\<lparr>iHeaderBytes := n\<rparr>) = rest_of_input s"
  "rest_of_input (s\<lparr>vHeaders := hs\<rparr>) = rest_of_input s" "rest_of_input (s\<lparr>bWriteDateHeader := b\<rparr>) = rest_of_input s"
  "rest_of_input (s\<lparr>bWriteMessageIDHeader := b\<rparr>) = rest_of_input s" "rest_of_input (s\<lparr>bValidFromHeader := b\<rparr>) = rest_of_input s"
  "rest_of_input (s\<lparr>iHopCounter := n\<rparr>) = rest_of_input s" "rest_of_input (s\<lparr>iInboundMessages := n\<rparr>) = rest_of_input s"
  "rest_of_input (s\<lparr>iOutboundMessages := n\<rparr>) = rest_of_input s" "rest_of_input (s\<lparr>bAuthenticated := b\<rparr>) = rest_of_input s"
  "rest_of_input (s\<lparr>strAuthMethod := x\<rparr>) = rest_of_input s" "rest_of_input (s\<lparr>iSenderCheckMode := m\<rparr>) = rest_of_input s"
  "rest_of_input (s\<lparr>iSMTPLimitCount := n\<rparr>) = rest_of_input s" "rest_of_input (s\<lparr>iSMTPLimitTime := n\<rparr>) = rest_of_input s"
  by (simp_all add: rest_of_input_def)

text \<open>An error reply leaves the core and the input; the state stays or becomes QUIT.\<close>

lemma error_frame [simp]:
  "core (SMTP_Error e n m s) = core s" "rest_of_input (SMTP_Error e n m s) = rest_of_input s"
  "wld (SMTP_Error e n m s) = wld s" "failed (SMTP_Error e n m s) = failed s"
  by (simp_all add: SMTP_Error_def Let_def)

definition state_kept :: "'y smtp_scheme \<Rightarrow> 'y smtp_scheme \<Rightarrow> bool" where
  "state_kept s t \<longleftrightarrow> iState t \<in> {iState s, SMTP_STATE_QUIT}"

lemma state_kept_refl [simp]: "state_kept s s"
  by (simp add: state_kept_def)

lemma state_kept_Error [simp]: "state_kept s t \<Longrightarrow> state_kept s (SMTP_Error e n m t)"
  by (auto simp: state_kept_def SMTP_Error_def Let_def)

lemma state_kept_update [simp]:
  "state_kept s (printf x t) = state_kept s t" "state_kept s (t\<lparr>wld := w\<rparr>) = state_kept s t"
  "state_kept s (t\<lparr>vRecipients := rs\<rparr>) = state_kept s t" "state_kept s (t\<lparr>iUserID := n\<rparr>) = state_kept s t"
  "state_kept s (t\<lparr>bBanned := b\<rparr>) = state_kept s t" "state_kept s (t\<lparr>bTLSMode := b\<rparr>) = state_kept s t"
  "state_kept s (t\<lparr>bIO_SSL := b\<rparr>) = state_kept s t" "state_kept s (t\<lparr>ib1gMailUserID := n\<rparr>) = state_kept s t"
  "state_kept s (t\<lparr>bAuthenticated := b\<rparr>) = state_kept s t" "state_kept s (t\<lparr>strAuthMethod := x\<rparr>) = state_kept s t"
  "state_kept s (t\<lparr>spfResult := r\<rparr>) = state_kept s t" "state_kept s (t\<lparr>spfExplanation := x\<rparr>) = state_kept s t"
  "state_kept s (t\<lparr>iSMTPLimitTime := n\<rparr>) = state_kept s t" "state_kept s (t\<lparr>iSMTPLimitCount := n\<rparr>) = state_kept s t"
  "state_kept s (t\<lparr>iSenderCheckMode := m\<rparr>) = state_kept s t"
  by (simp_all add: state_kept_def printf_def)

lemma login_ban_frame [simp]:
  "core (login_ban e ty s) = core s" "rest_of_input (login_ban e ty s) = rest_of_input s"
  "state_kept t (login_ban e ty s) = state_kept t s" "who (login_ban e ty s) = who s"
  "vRecipients (login_ban e ty s) = vRecipients s"
  by (simp_all add: login_ban_def core_def who_def state_kept_def split: prod.split)

lemma simple_frame [simp]:
  "core (SMTP_Helo e b s) = core s" "rest_of_input (SMTP_Helo e b s) = rest_of_input s"
  "core (SMTP_Noop s) = core s" "rest_of_input (SMTP_Noop s) = rest_of_input s" "state_kept s (SMTP_Noop s)"
  "core (SMTP_Quit e s) = core s" "rest_of_input (SMTP_Quit e s) = rest_of_input s"
  "state_kept s (SMTP_Quit e s)"
  "core (SMTP_StartTLS e s) = core s" "rest_of_input (SMTP_StartTLS e s) = rest_of_input s"
  "state_kept s (SMTP_StartTLS e s)"
  by (auto simp: SMTP_Helo_def SMTP_Noop_def SMTP_Quit_def SMTP_StartTLS_def ehlo_lines_def Let_def
      split: option.split prod.split) (simp add: state_kept_def)

lemma Helo_state:
  "iState (SMTP_Helo e b s) \<in> {SMTP_STATE_EHLO, SMTP_STATE_HELO} \<or> state_kept s (SMTP_Helo e b s)"
  by (auto simp: SMTP_Helo_def ehlo_lines_def Let_def split: option.split)

lemma Rset_frame [simp]:
  "who (SMTP_Rset b s) = who s" "rest_of_input (SMTP_Rset b s) = rest_of_input s"
  "vRecipients (SMTP_Rset b s) = []" "iState (SMTP_Rset b s) = (if bEhlo s then SMTP_STATE_EHLO else SMTP_STATE_HELO)"
  "failed (SMTP_Rset b s) = failed s" "wld (SMTP_Rset b s) = wld s"
  by (simp_all add: SMTP_Rset_def Let_def who_def rest_of_input_def)

lemma mail_parts_frame [simp]:
  "core (mail_spf e r s) = core s" "rest_of_input (mail_spf e r s) = rest_of_input s"
  "iState (mail_spf e r s) = iState s" "state_kept t (mail_spf e r s) = state_kept t s"
  "core (mail_user_tag s) = core s" "rest_of_input (mail_user_tag s) = rest_of_input s"
  "state_kept t (mail_user_tag s) = state_kept t s"
  "core (spf_error e r s) = core s" "rest_of_input (spf_error e r s) = rest_of_input s"
  "state_kept t s \<Longrightarrow> state_kept t (spf_error e r s)"
  by (simp_all add: mail_spf_def mail_user_tag_def spf_error_def state_kept_def split: prod.split option.split)
     (auto simp: SMTP_Error_def Let_def)

lemma Mail_frame [simp]:
  "core (SMTP_Mail e s) = core s" "rest_of_input (SMTP_Mail e s) = rest_of_input s"
  by (simp_all add: SMTP_Mail_def Let_def split: sum.split option.split prod.split)

lemma Mail_state:
  "state_kept s (SMTP_Mail e s) \<or> mail_state_refusal e s = None"
  by (simp add: SMTP_Mail_def split: sum.split option.split prod.split)

lemma Data_frame [simp]:
  "core (SMTP_Data e s) = core s" "rest_of_input (SMTP_Data e s) = rest_of_input s"
  by (simp_all add: SMTP_Data_def)

lemma Data_state:
  "state_kept s (SMTP_Data e s) \<or> (iState s = SMTP_STATE_MAIL \<and> vRecipients s \<noteq> [])"
  by (simp add: SMTP_Data_def)

section \<open>Recipients\<close>

definition rcpt_change :: "SMTPRecipient \<Rightarrow> 'y smtp_scheme \<Rightarrow> 'y smtp_scheme \<Rightarrow> bool" where
  "rcpt_change c s t \<longleftrightarrow> who t = who s \<and> rest_of_input t = rest_of_input s \<and> state_kept s t \<and>
     (vRecipients t = vRecipients s \<or> vRecipients t = add_recipient c (vRecipients s))"

lemma rcpt_change_core:
  "core t = core s \<Longrightarrow> rest_of_input t = rest_of_input s \<Longrightarrow> state_kept s t \<Longrightarrow> rcpt_change c s t"
  by (simp add: rcpt_change_def core_def)

lemma without_receive_frame [simp]:
  "core (send_without_receive e s) = core s" "rest_of_input (send_without_receive e s) = rest_of_input s"
  "state_kept t (send_without_receive e s) = state_kept t s"
  by (simp_all add: send_without_receive_def Let_def split: prod.split)

lemma rcpt_accept_change: "rcpt_change c s (rcpt_accept e c s)"
proof -
  have "who (send_without_receive e s) = who s" "vRecipients (send_without_receive e s) = vRecipients s"
    using without_receive_frame(1) [of e s] unfolding core_def by blast+
  then have "rcpt_change c s (printf x ((send_without_receive e s)\<lparr>vRecipients :=
      add_recipient c (vRecipients (send_without_receive e s))\<rparr>))" for x
    by (simp add: rcpt_change_def who_def)
  then show ?thesis
    by (auto simp: rcpt_accept_def limit_error_def Let_def intro: rcpt_change_core split: prod.split)
qed

lemma rcpt_decide_cases:
  "(iLocalRecipient c = 0 \<longrightarrow> trusted s \<or> bAuthenticated s) \<and> rcpt_change c s (rcpt_decide e c s) \<or>
   core (rcpt_decide e c s) = core s \<and> rest_of_input (rcpt_decide e c s) = rest_of_input s \<and>
   state_kept s (rcpt_decide e c s)"
  by (simp add: rcpt_decide_def rcpt_accept_change rcpt_denied_def)

lemma Rcpt_cases:
  "(\<exists>adr. let c = rcpt_recipient e adr s in
      (iLocalRecipient c = 0 \<longrightarrow> trusted s \<or> bAuthenticated s) \<and> iState s = SMTP_STATE_MAIL \<and>
      rcpt_change c s (SMTP_Rcpt e s)) \<or>
   core (SMTP_Rcpt e s) = core s \<and> rest_of_input (SMTP_Rcpt e s) = rest_of_input s \<and>
   state_kept s (SMTP_Rcpt e s)"
  using rcpt_decide_cases [of "rcpt_recipient e adr s" s e for adr]
  by (auto simp: SMTP_Rcpt_def Let_def split: option.split)

section \<open>AUTH\<close>

text \<open>Login can give the session an account; nothing else about it changes but the input.\<close>

definition anonymous :: "'y smtp_scheme \<Rightarrow> bool" where
  "anonymous s \<longleftrightarrow> \<not> bAuthenticated s \<and> iUserID s = 0"

definition same_peer :: "'y smtp_scheme \<Rightarrow> 'y smtp_scheme \<Rightarrow> bool" where
  "same_peer s t \<longleftrightarrow> iPeerOrigin t = iPeerOrigin s \<and> bSubmission t = bSubmission s \<and>
     vRecipients t = vRecipients s"

lemma same_peer_core: "core t = core s \<Longrightarrow> same_peer s t"
  by (simp add: same_peer_def core_def who_def)

lemma auth_limits_frame [simp]:
  "core (auth_limits e u g s) = core s" "rest_of_input (auth_limits e u g s) = rest_of_input s"
  "state_kept t (auth_limits e u g s) = state_kept t s" "wld (auth_limits e u g s) = wld s"
  by (simp_all add: auth_limits_def core_def who_def rest_of_input_def state_kept_def Let_def)

lemma group_option_frame [simp]:
  "core (foldl (auth_group_option b) s kvs) = core s"
  "rest_of_input (foldl (auth_group_option b) s kvs) = rest_of_input s"
  "state_kept t (foldl (auth_group_option b) s kvs) = state_kept t s"
  "wld (foldl (auth_group_option b) s kvs) = wld s"
  by (induction kvs arbitrary: s)
     (simp_all add: auth_group_option_def core_def who_def rest_of_input_def state_kept_def split: prod.split)

lemma auth_succeeded_frame [simp]:
  "core (auth_succeeded e g s) = core s" "rest_of_input (auth_succeeded e g s) = rest_of_input s"
  "state_kept t (auth_succeeded e g s) = state_kept t s"
  by (simp_all add: auth_succeeded_def Let_def)
     (simp_all add: core_def who_def rest_of_input_def state_kept_def)

lemma auth_failed_frame [simp]:
  "rest_of_input (auth_failed e b s) = rest_of_input s"
  "state_kept t s \<Longrightarrow> state_kept t (auth_failed e b s)"
  "core (auth_failed e b s) = core (s\<lparr>iUserID := 0\<rparr>)"
  by (simp_all add: auth_failed_def)

lemma auth_identity_frame:
  "same_peer s (auth_identity m x i u g s)" "rest_of_input (auth_identity m x i u g s) = rest_of_input s"
  "state_kept t (auth_identity m x i u g s) = state_kept t s" "bAuthenticated (auth_identity m x i u g s)"
  "iUserID (auth_identity m x i u g s) = i" "wld (auth_identity m x i u g s) = wld s"
  by (simp_all add: auth_identity_def same_peer_def rest_of_input_def state_kept_def)

text \<open>
  Who a successful login lets in: the account that the name looks up to, with the right
  password, not locked, in a group that may use SMTP, with a recent web login where required.
\<close>

definition login_ok :: "'x env_scheme \<Rightarrow> world \<Rightarrow> string \<Rightarrow> string \<Rightarrow> int \<Rightarrow> bool" where
  "login_ok e w usr pass userID \<longleftrightarrow>
     0 < userID \<and> userID = LookupUser e w usr True True \<and>
     (\<exists>u \<in> set (users w). \<exists>g \<in> set (groups w). u_id u = userID \<and> password_ok e u pass \<and>
        u_locked u = ''no'' \<and> u_gesperrt u = ''no'' \<and> g_id g = u_gruppe u \<and> g_smtp g = ''yes'' \<and>
        \<not> web_login_missing e w userID (u_lastlogin u))"

lemma auth_verify_cases:
  assumes "anonymous s" and "t = auth_verify e meth usr pass s"
  shows "rest_of_input t = rest_of_input s \<and> state_kept s t \<and> same_peer s t \<and>
    (anonymous t \<or> bAuthenticated t \<and> login_ok e (wld s) usr pass (iUserID t))"
proof -
  define i where "i = LookupUser e (wld s) usr True True"
  define rows where "rows = (if 0 < i then smtp_login_rows e (wld s) i pass else [])"
  have failed: ?thesis if "t = auth_failed e b v" "same_peer s v" "rest_of_input v = rest_of_input s"
      "state_kept s v" "\<not> bAuthenticated v" for b v
    using that auth_failed_frame(3) [of e b v]
    by (simp add: anonymous_def same_peer_def core_def who_def)
  show ?thesis
  proof (cases rows)
    case Nil
    then have "t = auth_failed e False s"
      using assms(2) by (simp add: auth_verify_def Let_def i_def [symmetric] rows_def [symmetric])
    then show ?thesis
      by (rule failed) (use assms(1) in \<open>simp_all add: same_peer_def anonymous_def\<close>)
  next
    case (Cons r rs)
    obtain u g where r: "r = (u, g)" by fastforce
    define v where "v = auth_identity meth usr i u g (auth_limits e u g s)"
    have "r \<in> set rows" using Cons by simp
    then have ug: "0 < i" "u \<in> set (users (wld s))" "g \<in> set (groups (wld s))" "u_id u = i"
        "password_ok e u pass" "u_locked u = ''no''" "u_gesperrt u = ''no''" "g_id g = u_gruppe u"
        "g_smtp g = ''yes''"
      using r by (auto simp: rows_def smtp_login_rows_def split: if_splits)
    have v: "same_peer s v" "rest_of_input v = rest_of_input s" "state_kept s v" "bAuthenticated v"
        "iUserID v = i" "wld v = wld s"
      using auth_identity_frame [where s = "auth_limits e u g s"] same_peer_core [OF auth_limits_frame(1)]
      by (simp_all add: v_def same_peer_def)
    have t: "t = (if web_login_missing e (wld v) i (u_lastlogin u)
        then auth_failed e True (v\<lparr>bAuthenticated := False, strAuthMethod := []\<rparr>)
        else auth_succeeded e (g_id g) v)"
      using assms(2) Cons r
      by (simp add: auth_verify_def Let_def i_def [symmetric] rows_def [symmetric] v_def [symmetric])
    show ?thesis
    proof (cases "web_login_missing e (wld s) i (u_lastlogin u)")
      case True
      then have "t = auth_failed e True (v\<lparr>bAuthenticated := False, strAuthMethod := []\<rparr>)"
        using t v by simp
      then show ?thesis by (rule failed) (use v in \<open>simp_all add: same_peer_def\<close>)
    next
      case False
      then have t: "t = auth_succeeded e (g_id g) v" using t v by simp
      have "core t = core v" by (simp add: t)
      then have "bAuthenticated t" "iUserID t = i" "same_peer s t"
        using v by (simp_all add: core_def who_def same_peer_def)
      moreover have "login_ok e (wld s) usr pass i"
        using ug False by (auto simp: login_ok_def i_def)
      ultimately show ?thesis using v t by simp
    qed
  qed
qed

text \<open>Reading a response only consumes input.\<close>

definition reads :: "'y smtp_scheme \<Rightarrow> 'y smtp_scheme \<Rightarrow> bool" where
  "reads s t \<longleftrightarrow> core t = core s \<and> wld t = wld s \<and> state_kept s t \<and> todo t \<le> todo s"

lemma reads_refl [simp]: "reads s s"
  by (simp add: reads_def)

lemma state_kept_trans: "state_kept s t \<Longrightarrow> state_kept t u \<Longrightarrow> state_kept s u"
  by (auto simp: state_kept_def)

lemma reads_trans: "reads s t \<Longrightarrow> reads t u \<Longrightarrow> reads s u"
  using state_kept_trans by (fastforce simp: reads_def)

lemma todo_printf [simp]: "todo (printf x s) = todo s"
  by (rule todo_rest) simp

lemma todo_Error [simp]: "todo (SMTP_Error e n m s) = todo s"
  by (rule todo_rest) simp

lemma read_line_reads: "read_line n s = (l, t) \<Longrightarrow> reads s t"
  using read_line_todo(1) [of n s l t]
  by (auto simp: reads_def read_line_def core_def who_def state_kept_def split: if_splits prod.splits option.splits)

lemma auth_line_reads: "auth_line s = (l, t) \<Longrightarrow> reads s t"
  by (auto simp: auth_line_def split: prod.splits option.splits dest: read_line_reads)

lemma reads_printf: "reads s (printf x s)"
  by (simp add: reads_def)

lemma auth_response_reads: "auth_response pr r s = (l, t) \<Longrightarrow> reads s t"
  using reads_trans [OF reads_printf auth_line_reads, of pr s l t]
  by (auto simp: auth_response_def split: option.splits)

lemma reads_Error: "reads s t \<Longrightarrow> reads s (SMTP_Error e n m t)"
  by (simp add: reads_def)

lemma auth_plain_reads: "reads s (snd (auth_plain e r s))"
proof -
  obtain l t where l: "auth_response (''334 '' @ CRLF) r s = (l, t)" by fastforce
  show ?thesis
    using auth_response_reads [OF l] unfolding auth_plain_def l by (simp add: reads_Error split: option.split)
qed

lemma auth_login_reads: "reads s (snd (auth_login r s))"
proof -
  obtain l t where l: "auth_response (''334 VXNlcm5hbWU6'' @ CRLF) r s = (l, t)" by fastforce
  obtain p v where p: "auth_line (printf (''334 UGFzc3dvcmQ6'' @ CRLF) t) = (p, v)" by fastforce
  have "reads s t" "reads s v"
    using auth_response_reads [OF l] reads_trans [OF reads_printf auth_line_reads [OF p]] reads_trans by blast+
  then show ?thesis unfolding auth_login_def l prod.case p by (simp split: option.split)
qed

lemma Auth_steps:
  assumes "t = SMTP_Auth e s"
  obtains (login) meth usr pass v where "\<not> bAuthenticated s" "iState s \<noteq> SMTP_STATE_MAIL" "reads s v"
      "t = auth_verify e meth usr pass v" | (refused) "reads s t"
proof (cases "(\<not> bEhlo s \<or> cfg_int e ''smtp_auth_enabled'' \<noteq> 1) \<or> iState s = SMTP_STATE_MAIL \<or> bAuthenticated s")
  case True
  then have "reads s t" using assms by (auto simp: SMTP_Auth_def intro: reads_Error)
  then show ?thesis by (rule refused)
next
  case False
  show ?thesis
  proof (cases "case scan_str 4 (szLine s) of None \<Rightarrow> None | Some (_, r) \<Rightarrow> scan_str 16 r")
    case None
    with False assms have "t = SMTP_Error e 501 ''5.5.4 Usage: AUTH [method]'' s"
      by (simp add: SMTP_Auth_def)
    then show ?thesis by (intro refused) (simp add: reads_Error)
  next
    case (Some mr)
    obtain m r where mr: "mr = (m, r)" by fastforce
    define c where "c = (if strcaseeq m ''plain'' then auth_plain e r s else auth_login r s)"
    obtain up v where v: "c = (up, v)" by fastforce
    have rv: "reads s v" using auth_plain_reads [of s e r] auth_login_reads [of s r] v
      by (simp add: c_def split: if_splits)
    have t: "t = (if strcaseeq m ''plain'' \<or> strcaseeq m ''login''
        then (case up of None \<Rightarrow> v | Some (usr, pass) \<Rightarrow> auth_verify e m usr pass v)
        else SMTP_Error e 504 ''Unrecognized authentication method'' s)"
      using False Some mr assms v by (auto simp: SMTP_Auth_def c_def [symmetric] split: option.split)
    show ?thesis
    proof (cases "(strcaseeq m ''plain'' \<or> strcaseeq m ''login'') \<and> up \<noteq> None")
      case True
      then obtain usr pass where "up = Some (usr, pass)" by auto
      then have "t = auth_verify e m usr pass v" using t True by simp
      then show ?thesis by (rule login [rotated 3]) (use False rv in simp_all)
    next
      case False
      then have "t = v \<or> t = SMTP_Error e 504 ''Unrecognized authentication method'' s"
        using t by (cases up) (auto split: if_splits)
      then have "reads s t" using rv reads_Error [OF reads_refl] by auto
      then show ?thesis by (rule refused)
    qed
  qed
qed

text \<open>
  The whole command: a refusal, or a login attempt of an anonymous session with the
  credentials that the client sent.
\<close>

lemma Auth_cases:
  assumes "bAuthenticated s \<longrightarrow> 0 < iUserID s" and "\<not> bAuthenticated s \<longrightarrow> iUserID s = 0"
    and "t = SMTP_Auth e s"
  shows "state_kept s t \<and> todo t \<le> todo s \<and> same_peer s t \<and>
    (who t = who s \<or>
     anonymous s \<and> iState s \<noteq> SMTP_STATE_MAIL \<and> (\<exists>usr pass. bAuthenticated t \<and> login_ok e (wld s) usr pass (iUserID t)))"
proof -
  have refused: ?thesis if "reads s t"
    using that same_peer_core [of t s] who_core [of t s] by (simp add: reads_def)
  from assms(3) show ?thesis
  proof (cases rule: Auth_steps)
    case (login meth usr pass v)
    have s: "anonymous s" using login(1) assms by (simp add: anonymous_def)
    have v: "core v = core s" "wld v = wld s" "state_kept s v" "todo v \<le> todo s"
      using login(3) by (simp_all add: reads_def)
    then have av: "anonymous v" using s by (simp add: anonymous_def core_def who_def)
    note c = auth_verify_cases [OF av login(4)]
    have "todo t = todo v" using c by (intro todo_rest) simp
    moreover have "same_peer s t" using c same_peer_core [OF v(1)] by (simp add: same_peer_def)
    moreover have "state_kept s t" using c v(3) state_kept_trans by blast
    moreover have "who t = who s" if "anonymous t"
      using that s \<open>same_peer s t\<close> by (simp add: who_def same_peer_def anonymous_def)
    ultimately show ?thesis using c v s login(2) by auto
  qed (rule refused)
qed

section \<open>The data phase\<close>

lemma note_header_frame [simp]:
  "core (note_header e l s) = core s" "rest_of_input (note_header e l s) = rest_of_input s"
  "iState (note_header e l s) = iState s" "wld (note_header e l s) = wld s" "failed (note_header e l s) = failed s"
  by (simp_all add: note_header_def split: option.split)

lemma data_text_frame [simp]:
  "core (data_text e l s) = core s" "rest_of_input (data_text e l s) = rest_of_input s"
  "iState (data_text e l s) = iState s" "wld (data_text e l s) = wld s" "failed (data_text e l s) = failed s"
  by (simp_all add: data_text_def header_line_def)

lemma spf_header_frame [simp]:
  "core (add_spf_header e s) = core s" "rest_of_input (add_spf_header e s) = rest_of_input s"
  "wld (add_spf_header e s) = wld s"
  by (simp_all add: add_spf_header_def)

definition msg_frame :: "'y smtp_scheme \<Rightarrow> 'y smtp_scheme \<Rightarrow> bool" where
  "msg_frame s t \<longleftrightarrow> who t = who s \<and> rest_of_input t = rest_of_input s \<and> bEhlo t = bEhlo s"

lemma msg_frame_refl [simp]: "msg_frame s s"
  by (simp add: msg_frame_def)

lemma msg_frame_trans: "msg_frame s t \<Longrightarrow> msg_frame t u \<Longrightarrow> msg_frame s u"
  by (simp add: msg_frame_def)

lemma msg_frame_update [simp]:
  "msg_frame s (t\<lparr>wld := w\<rparr>) = msg_frame s t" "msg_frame s (t\<lparr>iState := st\<rparr>) = msg_frame s t"
  "msg_frame s (t\<lparr>failed := b\<rparr>) = msg_frame s t" "msg_frame s (t\<lparr>iErrorCounter := n\<rparr>) = msg_frame s t"
  "msg_frame s (printf x t) = msg_frame s t" "msg_frame s (SMTP_Error e n m t) = msg_frame s t"
  "msg_frame s (set_message ms t) = msg_frame s t" "msg_frame s (count_message r t) = msg_frame s t"
  "msg_frame s (add_spf_header e t) = msg_frame s t"
  "msg_frame (set_message ms s) t = msg_frame s t" "msg_frame (count_message r s) t = msg_frame s t"
  "msg_frame (s\<lparr>wld := w\<rparr>) t = msg_frame s t"
  by (simp_all add: msg_frame_def who_def set_message_def count_message_def SMTP_Error_def Let_def
      add_spf_header_def printf_def rest_of_input_def)

lemma run_milters_frame: "msg_frame s (snd (run_milters e c rs s))"
  by (induction e c rs s rule: run_milters.induct) (simp_all add: Let_def)

lemma enqueue_all_frame: "enqueue_all e rs ids s = Some (b, ids', t) \<Longrightarrow> msg_frame s t"
proof (induction e rs ids s rule: enqueue_all.induct)
  case (2 e r rs ids s)
  then show ?case by (auto split: option.splits if_splits)
qed simp

lemma message_frame: "msg_frame s (message_outcome e s)"
proof -
  have enq: "msg_frame v (enqueue_message e i v)" for v i
    by (auto simp: enqueue_message_def split: option.split bool.split dest: enqueue_all_frame)
  have "msg_frame s (message_deliver e s)"
  proof -
    obtain i w where w: "add_stat e s = (i, w)" by fastforce
    define s1 where "s1 = add_spf_header e (s\<lparr>wld := w\<rparr>)"
    obtain r d s2 where m: "run_milters e (milter_connection e s1) (milters w) s1 = ((r, d), s2)"
      by (metis prod.collapse)
    have "msg_frame s s1" by (simp add: s1_def)
    moreover have "msg_frame s1 s2" using run_milters_frame [of s1 e _ _] m by (metis snd_conv)
    ultimately have s2: "msg_frame s s2" by (rule msg_frame_trans)
    have "message_deliver e s = (if r then (if d then s2\<lparr>iState := SMTP_STATE_QUIT\<rparr> else s2)
        else enqueue_message e i s2)"
      using m by (simp add: message_deliver_def w s1_def Let_def)
    then show ?thesis using s2 msg_frame_trans [OF s2 enq] by simp
  qed
  then show ?thesis
    by (auto simp: message_outcome_def limit_error_def split: option.split prod.split)
qed

lemma ProcessMessage_frame [simp]:
  "who (SMTP_ProcessMessage e s) = who s" "rest_of_input (SMTP_ProcessMessage e s) = rest_of_input s"
  "vRecipients (SMTP_ProcessMessage e s) = []"
  "iState (SMTP_ProcessMessage e s) = (if bEhlo s then SMTP_STATE_EHLO else SMTP_STATE_HELO)"
  using message_frame [of s e] by (simp_all add: SMTP_ProcessMessage_def msg_frame_def)

section \<open>Steps of a session\<close>

text \<open>What a line can do, by the command that it holds.\<close>

inductive smtp_cmd :: "'x smtp_env_scheme \<Rightarrow> string \<Rightarrow> 'y smtp_scheme \<Rightarrow> 'y smtp_scheme \<Rightarrow> bool"
  for e
where
  helo: "strcaseeq c (if b then ''ehlo'' else ''helo'') \<Longrightarrow> smtp_cmd e c s (SMTP_Helo e b s)"
| starttls: "strcaseeq c ''starttls'' \<Longrightarrow> \<not> bTLSMode s \<Longrightarrow> smtp_cmd e c s (SMTP_StartTLS e s)"
| noop: "strcaseeq c ''noop'' \<Longrightarrow> smtp_cmd e c s (SMTP_Noop s)"
| quit: "strcaseeq c ''quit'' \<Longrightarrow> smtp_cmd e c s (SMTP_Quit e s)"
| auth: "strcaseeq c ''auth'' \<Longrightarrow> bEhlo s \<Longrightarrow> smtp_cmd e c s (SMTP_Auth e s)"
| mail: "strcaseeq c ''mail'' \<Longrightarrow> smtp_cmd e c s (SMTP_Mail e s)"
| rcpt: "strcaseeq c ''rcpt'' \<Longrightarrow> smtp_cmd e c s (SMTP_Rcpt e s)"
| data: "strcaseeq c ''data'' \<Longrightarrow> smtp_cmd e c s (SMTP_Data e s)"
| rset: "strcaseeq c ''rset'' \<Longrightarrow> smtp_cmd e c s (SMTP_Rset False s)"
| bad: "smtp_cmd e c s (SMTP_Error e 500 m s)"

inductive_cases smtp_cmdE: "smtp_cmd e c s t"

lemma command_smtp_cmd: "SMTP_command e c s = (b, t) \<Longrightarrow> smtp_cmd e c s t"
  using helo [of c True e s] helo [of c False e s]
  by (auto simp: SMTP_command_def split: if_splits intro: smtp_cmd.intros)

inductive smtp_step :: "'x smtp_env_scheme \<Rightarrow> 'y smtp_scheme \<Rightarrow> 'y smtp_scheme \<Rightarrow> bool"
  for e
where
  command: "iState s \<noteq> SMTP_STATE_DATA \<Longrightarrow> smtp_cmd e c (s\<lparr>smtpCommands := n\<rparr>) t \<Longrightarrow> smtp_step e s t"
| text_line: "iState s = SMTP_STATE_DATA \<Longrightarrow>
    smtp_step e s ((data_text e l s)\<lparr>bPrevLineEndsWithCrLf := b\<rparr>)"
| message: "iState s = SMTP_STATE_DATA \<Longrightarrow>
    smtp_step e s ((SMTP_ProcessMessage e s)\<lparr>bPrevLineEndsWithCrLf := b\<rparr>)"

inductive_cases smtp_stepE: "smtp_step e s t"

lemma ProcessLine_step: "SMTP_ProcessLine e s = (b, t) \<Longrightarrow> smtp_step e s t"
proof -
  assume p: "SMTP_ProcessLine e s = (b, t)"
  show ?thesis
  proof (cases "iState s = SMTP_STATE_DATA")
    case True
    with p show ?thesis
      by (auto simp: SMTP_ProcessLine_def SMTP_ProcessDataLine_def split: if_splits
          intro: smtp_step.text_line smtp_step.message)
  next
    case False
    show ?thesis
    proof (cases "scan_str 10 (szLine s)")
      case None
      with p False have "t = SMTP_Error e 500 ''5.5.2 Syntax error'' s" by (simp add: SMTP_ProcessLine_def)
      then have "smtp_cmd e [] (s\<lparr>smtpCommands := smtpCommands s\<rparr>) t" by (simp add: bad)
      with False show ?thesis by (rule command)
    next
      case (Some cr)
      with p False have "SMTP_command e (fst cr) (s\<lparr>smtpCommands := smtpCommands s + 1\<rparr>) = (b, t)"
        by (simp add: SMTP_ProcessLine_def split: prod.splits)
      from command [OF False command_smtp_cmd [OF this]] show ?thesis .
    qed
  qed
qed

section \<open>The invariant\<close>

definition distinct_rcpts :: "SMTPRecipient list \<Rightarrow> bool" where
  "distinct_rcpts rs \<longleftrightarrow> sorted_wrt (\<lambda>r c. \<not> same_recipient c r) rs"

definition in_transaction :: "'y smtp_scheme \<Rightarrow> bool" where
  "in_transaction s \<longleftrightarrow> iState s \<in> {SMTP_STATE_MAIL, SMTP_STATE_DATA}"

text \<open>
  An account goes with being authenticated; only a trusted or authenticated session has
  recipients elsewhere; recipients differ; a transaction on the submission port or from a
  dial-up peer is authenticated; data is received for someone.
\<close>

definition smtp_ok :: "'y smtp_scheme \<Rightarrow> bool" where
  "smtp_ok s \<longleftrightarrow>
     (if bAuthenticated s then 0 < iUserID s else iUserID s = 0) \<and>
     (\<forall>r \<in> set (vRecipients s). iLocalRecipient r = 0 \<longrightarrow> trusted s \<or> bAuthenticated s) \<and>
     distinct_rcpts (vRecipients s) \<and>
     (iState s = SMTP_STATE_DATA \<longrightarrow> vRecipients s \<noteq> []) \<and>
     (in_transaction s \<and> (bSubmission s \<or> iPeerOrigin s = ORIGIN_DIALUP) \<longrightarrow> bAuthenticated s)"

lemma distinct_add: "distinct_rcpts rs \<Longrightarrow> distinct_rcpts (add_recipient c rs)"
  by (auto simp: distinct_rcpts_def add_recipient_def sorted_wrt_append list_ex_iff)

lemma set_add: "set (add_recipient c rs) \<subseteq> insert c (set rs)"
  by (auto simp: add_recipient_def)

lemma smtp_ok_core:
  "core t = core s \<Longrightarrow> smtp_ok s \<Longrightarrow> state_kept s t \<or> \<not> in_transaction t \<Longrightarrow> smtp_ok t"
  by (auto simp: smtp_ok_def core_def who_def state_kept_def in_transaction_def trusted_def)

lemma smtp_ok_Helo [keep_intros]: "smtp_ok s \<Longrightarrow> smtp_ok (SMTP_Helo e b s)"
  using Helo_state [of e b s] smtp_ok_core [of "SMTP_Helo e b s" s] by (auto simp: in_transaction_def)

lemma smtp_ok_simple [keep_intros]:
  "smtp_ok s \<Longrightarrow> smtp_ok (SMTP_StartTLS e s)" "smtp_ok s \<Longrightarrow> smtp_ok (SMTP_Noop s)"
  "smtp_ok s \<Longrightarrow> smtp_ok (SMTP_Quit e s)" "smtp_ok s \<Longrightarrow> smtp_ok (SMTP_Error e n m s)"
  by (rule smtp_ok_core [of _ s]; simp)+

lemma smtp_ok_who:
  "who t = who s \<Longrightarrow> vRecipients t = [] \<Longrightarrow> \<not> in_transaction t \<Longrightarrow> smtp_ok s \<Longrightarrow> smtp_ok t"
  by (auto simp: smtp_ok_def who_def distinct_rcpts_def in_transaction_def)

lemma smtp_ok_Rset [keep_intros]: "smtp_ok s \<Longrightarrow> smtp_ok (SMTP_Rset b s)"
  by (rule smtp_ok_who [of _ s]) (simp_all add: in_transaction_def)

lemma smtp_ok_Mail [keep_intros]: "smtp_ok s \<Longrightarrow> smtp_ok (SMTP_Mail e s)"
proof -
  assume ok: "smtp_ok s"
  show ?thesis
  proof (cases "state_kept s (SMTP_Mail e s)")
    case False
    then have "mail_state_refusal e s = None" using Mail_state [of s e] by blast
    then have "bSubmission s \<or> iPeerOrigin s = ORIGIN_DIALUP \<longrightarrow> bAuthenticated s"
      by (auto simp: mail_state_refusal_def split: if_splits)
    moreover have "iState (SMTP_Mail e s) \<noteq> SMTP_STATE_DATA \<or> state_kept s (SMTP_Mail e s)"
      by (auto simp: SMTP_Mail_def Let_def split: sum.split option.split prod.split)
    ultimately show ?thesis
      using ok False Mail_frame(1) [of e s] by (auto simp: smtp_ok_def core_def who_def trusted_def)
  qed (use ok in \<open>auto intro: smtp_ok_core\<close>)
qed

lemma smtp_ok_Data [keep_intros]: "smtp_ok s \<Longrightarrow> smtp_ok (SMTP_Data e s)"
  using Data_state [of s e] Data_frame(1) [of e s]
  by (auto simp: smtp_ok_def core_def who_def in_transaction_def trusted_def state_kept_def)

lemma smtp_ok_Rcpt [keep_intros]: "smtp_ok s \<Longrightarrow> smtp_ok (SMTP_Rcpt e s)"
proof -
  assume ok: "smtp_ok s"
  consider (kept) "core (SMTP_Rcpt e s) = core s" "state_kept s (SMTP_Rcpt e s)"
    | (added) c where "iLocalRecipient c = 0 \<longrightarrow> trusted s \<or> bAuthenticated s"
        "iState s = SMTP_STATE_MAIL" "rcpt_change c s (SMTP_Rcpt e s)"
    using Rcpt_cases [of e s] by (auto simp: Let_def)
  then show ?thesis
  proof cases
    case added
    then show ?thesis
      using ok set_add [of c "vRecipients s"] distinct_add [of "vRecipients s" c]
      by (auto simp: rcpt_change_def smtp_ok_def who_def in_transaction_def trusted_def state_kept_def)
  qed (use ok in \<open>auto intro: smtp_ok_core\<close>)
qed

lemma smtp_ok_Auth [keep_intros]: "smtp_ok s \<Longrightarrow> iState s \<noteq> SMTP_STATE_DATA \<Longrightarrow> smtp_ok (SMTP_Auth e s)"
  using Auth_cases [of s "SMTP_Auth e s" e]
  by (auto simp: smtp_ok_def same_peer_def who_def in_transaction_def trusted_def state_kept_def login_ok_def
      anonymous_def split: if_splits)

lemma smtp_ok_cmd: "smtp_cmd e c s t \<Longrightarrow> smtp_ok s \<Longrightarrow> iState s \<noteq> SMTP_STATE_DATA \<Longrightarrow> smtp_ok t"
  by (erule smtp_cmdE) (simp_all add: keep_intros)

lemma smtp_ok_step: "smtp_step e s t \<Longrightarrow> smtp_ok s \<Longrightarrow> smtp_ok t"
proof (erule smtp_stepE)
  fix c n assume a: "smtp_ok s" "iState s \<noteq> SMTP_STATE_DATA" "smtp_cmd e c (s\<lparr>smtpCommands := n\<rparr>) t"
  then have "smtp_ok (s\<lparr>smtpCommands := n\<rparr>)" by (auto intro: smtp_ok_core simp: state_kept_def)
  from smtp_ok_cmd [OF a(3) this] a(2) show ?thesis by simp
next
  fix l b assume a: "smtp_ok s" "iState s = SMTP_STATE_DATA" "t = (data_text e l s)\<lparr>bPrevLineEndsWithCrLf := b\<rparr>"
  then show ?thesis by (intro smtp_ok_core [of t s]) (simp_all add: state_kept_def)
next
  fix b assume a: "smtp_ok s" "iState s = SMTP_STATE_DATA" "t = (SMTP_ProcessMessage e s)\<lparr>bPrevLineEndsWithCrLf := b\<rparr>"
  have "who t = who s" using a(3) ProcessMessage_frame(1) [of e s] by (simp add: who_def)
  moreover have "vRecipients t = []" "\<not> in_transaction t" using a(3) by (simp_all add: in_transaction_def)
  ultimately show ?thesis using a(1) by (rule smtp_ok_who)
qed

lemma auth_verify_rest [simp]: "rest_of_input (auth_verify e meth usr pass s) = rest_of_input s"
proof -
  have "rest_of_input (auth_identity m x i u g (auth_limits e u g s)) = rest_of_input s" for m x i u g
    by (simp add: auth_identity_frame)
  then show ?thesis by (simp add: auth_verify_def Let_def split: list.split prod.split)
qed

lemma Auth_todo: "todo (SMTP_Auth e s) \<le> todo s"
proof (rule Auth_steps [OF refl, of s e])
  fix meth usr pass v
  assume "reads s v" "SMTP_Auth e s = auth_verify e meth usr pass v"
  then show ?thesis using todo_rest [OF auth_verify_rest [of e meth usr pass v]] by (simp add: reads_def)
qed (simp add: reads_def)

lemma todo_cmd: "smtp_cmd e c s t \<Longrightarrow> todo t \<le> todo s"
proof (erule smtp_cmdE)
  assume "t = SMTP_Rcpt e s"
  then have "rest_of_input t = rest_of_input s"
    using Rcpt_cases [of e s] by (auto simp: rcpt_change_def Let_def)
  then show ?thesis using todo_rest [of t s] by simp
qed (auto intro!: Auth_todo eq_imp_le todo_rest)

lemma todo_step: "smtp_step e s t \<Longrightarrow> todo t \<le> todo s"
proof (erule smtp_stepE)
  fix c n assume a: "smtp_cmd e c (s\<lparr>smtpCommands := n\<rparr>) t"
  then have "todo t \<le> todo (s\<lparr>smtpCommands := n\<rparr>)" by (rule todo_cmd)
  then show ?thesis by (simp add: todo_def)
qed (auto intro!: eq_imp_le todo_rest)

lemma world_changes_core: "world_changes s t \<Longrightarrow> core t = core s \<and> iState t = iState s \<and> todo t = todo s"
proof -
  assume "world_changes s t"
  then obtain w where "t = s\<lparr>wld := w\<rparr>" by (auto simp: world_changes_def)
  then show ?thesis by (simp add: todo_def)
qed

section \<open>The server loop\<close>

lemma my_fgets_core: "my_fgets n s = (b, t) \<Longrightarrow> core t = core s \<and> iState t = iState s"
  by (auto simp: my_fgets_def read_line_def core_def who_def split: if_splits prod.splits option.splits)

lemma handle_step: "SMTP_handle e s = (b, t) \<Longrightarrow> smtp_step e s t"
  by (auto simp: SMTP_handle_def split: prod.splits intro: ProcessLine_step)

lemma smtp_ok_same: "core t = core s \<Longrightarrow> iState t = iState s \<Longrightarrow> smtp_ok s \<Longrightarrow> smtp_ok t"
  for s t :: "'y smtp_scheme"
  using smtp_ok_core [of t s] by (simp add: state_kept_def)

interpretation sm: line_server
  "\<lambda>e :: smtp_env. my_fgets SMTP_LINEMAX" SMTP_handle "\<lambda>s :: smtp. \<not> bBanned s" world_changes todo
  "\<lambda>e. smtp_ok" "\<lambda>e. smtp_ok"
proof (unfold_locales, goal_cases)
  case (1 e s s')
  then show ?case by (rule my_fgets_todo) (simp add: SMTP_LINEMAX_def)
next
  case (2 e s b s')
  then show ?case using todo_step handle_step by blast
next
  case (4 e s b s')
  then show ?case using my_fgets_core smtp_ok_same by blast
next
  case (7 e s s')
  then show ?case using world_changes_core smtp_ok_same by blast
qed (use handle_step smtp_ok_step in blast)+

text \<open>Without an invariant the loop still ends.\<close>

interpretation sm_any: line_server
  "\<lambda>e :: smtp_env. my_fgets SMTP_LINEMAX" SMTP_handle "\<lambda>s :: smtp. \<not> bBanned s" world_changes todo
  "\<lambda>_ _. True" "\<lambda>_ _. True"
proof (unfold_locales, goal_cases)
  case (1 e s s')
  then show ?case by (rule sm.readl_left)
next
  case (2 e s b s')
  then show ?case by (rule sm.handle_left)
qed simp_all

definition smtp_reaches :: "smtp_env \<Rightarrow> smtp \<Rightarrow> smtp \<Rightarrow> bool" where
  "smtp_reaches e s t \<longleftrightarrow> reaches (my_fgets SMTP_LINEMAX) (SMTP_handle e) world_changes s t"

lemma new_smtp_ok: "smtp_ok (new_smtp e sub s0)" if "iUserID s0 = 0"
  using that by (simp add: new_smtp_def smtp_ok_def distinct_rcpts_def in_transaction_def session.extend_def
      Let_def split_beta)

lemma smtp_reaches_ok: "smtp_reaches e s t \<Longrightarrow> smtp_ok s \<Longrightarrow> smtp_ok t"
  unfolding smtp_reaches_def by (rule sm.reaches_inv)

lemma greylist_core [simp]: "core (smtp_greylist e s) = core s" "iState (smtp_greylist e s) = iState s"
  by (simp_all add: smtp_greylist_def core_def who_def split: prod.split)

text \<open>
  C1: the server is no open relay, and the submission port is for accounts. In every state that
  a connection reaches, whatever it sends and whatever other processes do to the database: if
  the client is neither classified as trusted nor logged in, each accepted recipient is a local
  one; on the submission port and from a dial-up peer a transaction is open only after a login;
  no two recipients are the same address or the same account; and data is only received when
  there is a recipient.
\<close>

theorem SMTP_session_safe:
  assumes "iUserID s0 = 0" and "smtp_reaches e (new_smtp e sub s0) t"
  shows "(\<not> trusted t \<and> \<not> bAuthenticated t \<longrightarrow> (\<forall>r \<in> set (vRecipients t). iLocalRecipient r \<noteq> 0)) \<and>
    (iState t \<in> {SMTP_STATE_MAIL, SMTP_STATE_DATA} \<and> (bSubmission t \<or> iPeerOrigin t = ORIGIN_DIALUP) \<longrightarrow>
       bAuthenticated t \<and> 0 < iUserID t) \<and>
    sorted_wrt (\<lambda>r c. \<not> strcaseeq (strAddress r) (strAddress c) \<and>
        (iLocalRecipient r = iLocalRecipient c \<longrightarrow> iLocalRecipient r = 0)) (vRecipients t) \<and>
    (iState t = SMTP_STATE_DATA \<longrightarrow> vRecipients t \<noteq> [])"
proof -
  have ok: "smtp_ok t" using smtp_reaches_ok [OF assms(2) new_smtp_ok [OF assms(1)]] .
  have "sorted_wrt (\<lambda>r c. \<not> strcaseeq (strAddress r) (strAddress c) \<and>
        (iLocalRecipient r = iLocalRecipient c \<longrightarrow> iLocalRecipient r = 0)) (vRecipients t)"
    by (rule sorted_wrt_mono_rel [of _ "\<lambda>r c. \<not> same_recipient c r"])
       (use ok in \<open>auto simp: smtp_ok_def distinct_rcpts_def same_recipient_def\<close>)
  then show ?thesis using ok by (auto simp: smtp_ok_def in_transaction_def)
qed

text \<open>A session in which a stranger sends to the account 7 of the sample data.\<close>

definition sample_smtp :: "(string \<times> string) list \<Rightarrow> smtp_env" where
  "sample_smtp kvs = mta_env.extend
     ((sample_mta kvs)\<lparr>mail_match := (\<lambda>s. case find_chr (CHR ''<'') s of
        None \<Rightarrow> None | Some i \<Rightarrow> map_option (\<lambda>j. (i + 1, j)) (find_chr (CHR ''>'') s))\<rparr>)
     \<lparr>getpeername = Some (IPAddress_v4 [1, 2, 3, 4]), sin6_flowinfo = [0, 0, 0, 0],
      inet_ntop = (\<lambda>_. ''1.2.3.4''), peer_name_lookup = (\<lambda>_. None), gethostbyname = (\<lambda>_. None),
      plugin_classify = [], data_before_greeting = False, bms_version = ''1'', peer_port = 25,
      spf_check = (\<lambda>_ _ _ _ _. (SPF_RESULT_NONE, [])),
      milter_process = (\<lambda>_ _ m. \<lparr>mr_code = CHR ''a'', mr_message = m, mr_reply = (0, [])\<rparr>)\<rparr>"

definition sample_dialogue :: string where
  "sample_dialogue = ''HELO h'' @ CRLF @ ''MAIL FROM:<>'' @ CRLF @ ''RCPT TO:<a@b.c>'' @ CRLF @
     ''DATA'' @ CRLF @ ''Subject: x'' @ CRLF @ CRLF @ ''..hi'' @ CRLF @ ''.'' @ CRLF"

definition sample_conn :: smtp where
  "sample_conn = new_smtp (sample_smtp []) False (new_session sample_dialogue [] [] sample_world)"

lemma sample_feed:
  "feed n (my_fgets SMTP_LINEMAX) (SMTP_handle (sample_smtp [])) sample_conn = Some t \<Longrightarrow>
     smtp_reaches (sample_smtp []) sample_conn t"
  unfolding smtp_reaches_def by (rule feed_reaches)

lemma SMTP_session_safe_witness:
  "\<exists>t. smtp_reaches (sample_smtp []) sample_conn t \<and> iState t = SMTP_STATE_DATA \<and>
     vRecipients t \<noteq> [] \<and> (\<forall>r \<in> set (vRecipients t). iLocalRecipient r \<noteq> 0)"
proof -
  let ?f = "feed 4 (my_fgets SMTP_LINEMAX) (SMTP_handle (sample_smtp [])) sample_conn"
  have "(case ?f of None \<Rightarrow> False
     | Some t \<Rightarrow> iState t = SMTP_STATE_DATA \<and> \<not> trusted t \<and> \<not> bAuthenticated t)" by code_simp
  then obtain t where t: "?f = Some t" "iState t = SMTP_STATE_DATA" "\<not> trusted t" "\<not> bAuthenticated t"
    by (cases ?f) auto
  have "smtp_reaches (sample_smtp []) sample_conn t" using t(1) by (rule sample_feed)
  moreover have "iUserID (new_session sample_dialogue [] [] sample_world) = 0" by (simp add: new_session_def)
  ultimately show ?thesis
    using SMTP_session_safe [of "new_session sample_dialogue [] [] sample_world" "sample_smtp []" False t] t
    unfolding sample_conn_def [symmetric] by blast
qed

text \<open>
  Every SMTP connection ends: for every input, environment and database \<open>Run\<close> returns.
\<close>

theorem SMTP_Run_ends: "\<exists>t. SMTP_Run e (new_smtp e sub s0) = Some t"
  for e :: smtp_env
proof -
  have loop: "\<exists>t. smtp_loop e s = Some t" for s :: smtp
    using sm_any.serve_ends [of s "Suc (todo s)" e] by (simp add: smtp_loop_def del: serve.simps)
  obtain t where "smtp_loop e (printf (smtp_greeting e (smtp_greylist e (new_smtp e sub s0)))
      (smtp_greylist e (new_smtp e sub s0))) = Some t" using loop by blast
  then show ?thesis by (simp add: SMTP_Run_def Let_def)
qed

end
