(* ===== verification/Smtp_Message.thy ===== *)
theory Smtp_Message
  imports Smtp_Correct
begin

text \<open>
  What the SMTP server makes of a message: the bytes of the data phase arrive as they were sent,
  the message is enqueued for all recipients or for none, the queue only grows by what the
  session was entitled to send; and the places where the data phase and the commands around it
  do not do what they mean to.
\<close>

section \<open>The body arrives as it was sent\<close>

text \<open>The client's side (RFC 5321, section 4.5.2): a dot more in front of a leading dot.\<close>

definition wire_line :: "string \<Rightarrow> string" where
  "wire_line l = (if l \<noteq> [] \<and> hd l = CHR ''.'' then CHR ''.'' # l else l) @ CRLF"

text \<open>A line of at most 997 bytes that holds no end of line or NUL and does not end in CR.\<close>

definition plain_line :: "string \<Rightarrow> bool" where
  "plain_line l \<longleftrightarrow> length l \<le> 997 \<and> NL \<notin> set l \<and> NUL \<notin> set l \<and> (l = [] \<or> last l \<noteq> CR)"

definition receiving :: "'y smtp_scheme \<Rightarrow> bool" where
  "receiving s \<longleftrightarrow> iState s = SMTP_STATE_DATA \<and> bDataPassedHeaders s \<and> bPrevLineEndsWithCrLf s \<and>
     \<not> bSizeLimitExceeded s \<and> \<not> failed s"

text \<open>The size check compares what has arrived and the next line as sent.\<close>

definition fits :: "'y smtp_scheme \<Rightarrow> string \<Rightarrow> bool" where
  "fits s d \<longleftrightarrow> iMessageSizeLimit s = 0 \<or>
     int (length (strBody s)) + iHeaderBytes s + int (length d) \<le> iMessageSizeLimit s"

lemma body_wire_line: "plain_line l \<Longrightarrow> body_text (wire_line l) = l @ CRLF"
proof -
  assume p: "plain_line l"
  have r: "RTrim (x @ CRLF) [CR, NL] = x" if "x = [] \<or> last x \<noteq> CR \<and> last x \<noteq> NL" for x
    using that by (cases x rule: rev_cases) (simp_all add: RTrim_def drop_last_while_def)
  have "last l \<noteq> NL" if "l \<noteq> []"
    using p last_in_set [OF that] unfolding plain_line_def by metis
  then have l: "l = [] \<or> last l \<noteq> CR \<and> last l \<noteq> NL" using p by (auto simp: plain_line_def)
  show ?thesis
  proof (cases "l \<noteq> [] \<and> hd l = CHR ''.''")
    case True
    then have "RTrim (wire_line l) [CR, NL] = CHR ''.'' # l"
      using r [of "CHR ''.'' # l"] l by (simp add: wire_line_def)
    then show ?thesis by (simp add: body_text_def)
  next
    case False
    then have "wire_line l = l @ CRLF" by (auto simp: wire_line_def)
    then show ?thesis using False r [OF l] by (auto simp: body_text_def)
  qed
qed

lemma wire_line_not_end: "wire_line l \<noteq> ''.'' @ CRLF"
  by (cases l) (auto simp: wire_line_def)

lemma data_wire_line:
  "receiving s \<Longrightarrow> plain_line l \<Longrightarrow> fits s (wire_line l) \<Longrightarrow>
     data_text e (wire_line l) s = s\<lparr>strBody := strBody s @ l @ CRLF\<rparr>"
  by (auto simp: data_text_def receiving_def fits_def body_wire_line)

lemma handle_wire_line:
  assumes "receiving s" and "plain_line l" and "fits s (wire_line l)" and "szLine s = wire_line l"
  shows "SMTP_handle e s = (True, s\<lparr>strBody := strBody s @ l @ CRLF\<rparr>)"
proof -
  have "ends_crlf (wire_line l)" by (simp add: ends_crlf_def wire_line_def)
  moreover have "(s\<lparr>strBody := b, bPrevLineEndsWithCrLf := True\<rparr>) = s\<lparr>strBody := b\<rparr>" for b
    using assms(1) by (simp add: receiving_def)
  ultimately show ?thesis
    using assms data_wire_line [OF assms(1-3), of e] wire_line_not_end [of l]
    by (simp add: SMTP_handle_def SMTP_ProcessLine_def SMTP_ProcessDataLine_def receiving_def)
qed

lemma pending_simps [simp]:
  "pending (set_pending r s) = r" "pending (s\<lparr>buf := b\<rparr>) = pending s"
  "pending (s\<lparr>strBody := x\<rparr>) = pending s" "strBody (set_pending r s) = strBody s"
  for s :: "'y smtp_scheme"
  by (simp_all add: pending_def set_pending_def)

text \<open>Only the body, the input and the line buffer differ.\<close>

definition body_grown :: "'y smtp_scheme \<Rightarrow> 'y smtp_scheme \<Rightarrow> bool" where
  "body_grown s t \<longleftrightarrow> t = s\<lparr>strBody := strBody t, inp := inp t, ssl_inp := ssl_inp t, buf := buf t\<rparr>"

lemma body_grown_trans: "body_grown s t \<Longrightarrow> body_grown t u \<Longrightarrow> body_grown s u"
  unfolding body_grown_def by (erule ssubst, erule ssubst) simp

lemma body_grown_read: "u = (set_pending r s)\<lparr>buf := buf u\<rparr> \<Longrightarrow> body_grown s u"
  unfolding body_grown_def by (erule ssubst) (simp add: set_pending_def)

lemma body_grown_facts:
  assumes "body_grown s t"
  shows "receiving t = receiving s" "iHeaderBytes t = iHeaderBytes s"
    "iMessageSizeLimit t = iMessageSizeLimit s" "vHeaders t = vHeaders s" "vRecipients t = vRecipients s"
    "strReturnPath t = strReturnPath s" "wld t = wld s"
  by (subst assms [unfolded body_grown_def], simp add: receiving_def)+

lemma feed_line:
  assumes "receiving s" and "plain_line l" and "fits s (wire_line l)" and "pending s = wire_line l @ r"
  shows "\<exists>u v. my_fgets SMTP_LINEMAX s = (True, u) \<and> SMTP_handle e u = (True, v) \<and> pending v = r \<and>
    strBody v = strBody s @ l @ CRLF \<and> body_grown s v"
proof -
  define x where "x = butlast (wire_line l)"
  have x: "wire_line l = x @ [NL]" by (simp add: x_def wire_line_def butlast_append)
  have "NL \<notin> set x" "NUL \<notin> set x" "length x < SMTP_LINEMAX - 1"
    using assms(2) by (auto simp: x_def wire_line_def plain_line_def butlast_append SMTP_LINEMAX_def)
  then obtain u where u: "my_fgets SMTP_LINEMAX s = (True, u)" "szLine u = wire_line l"
      "u = (set_pending r s)\<lparr>buf := buf u\<rparr>"
    using my_fgets_complete [of s x r SMTP_LINEMAX] assms(4) x by auto
  have g: "body_grown s u" using u(3) by (rule body_grown_read)
  have b: "strBody u = strBody s" "pending u = r" by (subst u(3), simp)+
  have "receiving u" "fits u (wire_line l)" using assms(1,3) b body_grown_facts [OF g] by (simp_all add: fits_def)
  note h = handle_wire_line [OF this(1) assms(2) this(2) u(2), of e]
  have "body_grown u (u\<lparr>strBody := strBody u @ l @ CRLF\<rparr>)" by (simp add: body_grown_def)
  from body_grown_trans [OF g this] show ?thesis using u(1) h b by auto
qed

lemma feed_body:
  "receiving s \<Longrightarrow> list_all plain_line ls \<Longrightarrow> fits s (concat (map wire_line ls)) \<Longrightarrow>
   pending s = concat (map wire_line ls) @ r \<Longrightarrow>
   \<exists>t. feed (length ls) (my_fgets SMTP_LINEMAX) (SMTP_handle e) s = Some t \<and> pending t = r \<and>
     strBody t = strBody s @ concat (map (\<lambda>l. l @ CRLF) ls) \<and> body_grown s t"
proof (induction ls arbitrary: s)
  case Nil
  then show ?case by (simp add: body_grown_def)
next
  case (Cons l ls)
  have "fits s (wire_line l)" using Cons.prems(3) by (auto simp: fits_def)
  then obtain u v where u: "my_fgets SMTP_LINEMAX s = (True, u)" "SMTP_handle e u = (True, v)"
      "pending v = concat (map wire_line ls) @ r" "strBody v = strBody s @ l @ CRLF" "body_grown s v"
    using feed_line [of s l "concat (map wire_line ls) @ r" e] Cons.prems by auto
  have "length (l @ CRLF) \<le> length (wire_line l)" by (simp add: wire_line_def)
  then have "fits v (concat (map wire_line ls))"
    using Cons.prems(3) u(4) body_grown_facts [OF u(5)] by (auto simp: fits_def)
  moreover have "receiving v" using Cons.prems(1) body_grown_facts [OF u(5)] by simp
  ultimately obtain t where t: "feed (length ls) (my_fgets SMTP_LINEMAX) (SMTP_handle e) v = Some t"
      "pending t = r" "strBody t = strBody v @ concat (map (\<lambda>l. l @ CRLF) ls)" "body_grown v t"
    using Cons.IH [of v] Cons.prems(2) u(3) by auto
  have "feed (length (l # ls)) (my_fgets SMTP_LINEMAX) (SMTP_handle e) s = Some t"
    
    using feed_front [of "my_fgets SMTP_LINEMAX" s u "SMTP_handle e" v "length ls"] u(1,2) t(1) by simp
  then show ?case using t u(4) body_grown_trans [OF u(5) t(4)] by simp
qed

text \<open>The lines of a body and the end line.\<close>

lemma feed_message:
  assumes "receiving s" and "list_all plain_line ls" and "fits s (concat (map wire_line ls))"
    and "pending s = concat (map wire_line ls) @ ''.'' @ CRLF @ r"
  shows "\<exists>t u. feed (length ls) (my_fgets SMTP_LINEMAX) (SMTP_handle e) s = Some t \<and>
    my_fgets SMTP_LINEMAX t = (True, u) \<and>
    SMTP_ProcessLine e u = (True, (SMTP_ProcessMessage e u)\<lparr>bPrevLineEndsWithCrLf := True\<rparr>) \<and>
    strBody u = strBody s @ concat (map (\<lambda>l. l @ CRLF) ls) \<and> vHeaders u = vHeaders s \<and>
    vRecipients u = vRecipients s \<and> strReturnPath u = strReturnPath s \<and> wld u = wld s \<and> pending u = r"
proof -
  from feed_body [OF assms] obtain t where
    t: "feed (length ls) (my_fgets SMTP_LINEMAX) (SMTP_handle e) s = Some t"
      "pending t = ''.'' @ CRLF @ r" "strBody t = strBody s @ concat (map (\<lambda>l. l @ CRLF) ls)" "body_grown s t"
    by blast
  from my_fgets_complete [of t "''.'' @ [CR]" r SMTP_LINEMAX] t(2) obtain u where
    u: "my_fgets SMTP_LINEMAX t = (True, u)" "szLine u = ''.'' @ CRLF" "u = (set_pending r t)\<lparr>buf := buf u\<rparr>"
    by (auto simp: SMTP_LINEMAX_def)
  have g: "body_grown s u" using body_grown_trans [OF t(4) body_grown_read [OF u(3)]] .
  have b: "strBody u = strBody t" "pending u = r" by (subst u(3), simp)+
  have "receiving u" using assms(1) body_grown_facts [OF g] by simp
  then have "SMTP_ProcessLine e u = (True, (SMTP_ProcessMessage e u)\<lparr>bPrevLineEndsWithCrLf := True\<rparr>)"
    using u(2) by (simp add: SMTP_ProcessLine_def SMTP_ProcessDataLine_def receiving_def ends_crlf_def)
  then show ?thesis using t(1,3) u(1) b body_grown_facts(4-7) [OF g] by (intro exI [of _ t] exI [of _ u]) simp
qed

text \<open>
  The body of a message arrives byte for byte. After the headers, a client that doubles leading
  dots and ends its text with a line of a single dot, over any number of lines of at most 997
  bytes, in the clear or through TLS, within the size limit: every line is consumed as text, the
  stored body is the text that was sent, and the message is processed at the end line and not
  before, with the headers, recipients and return path it had; the bytes behind are not touched.
\<close>

theorem SMTP_body_roundtrip:
  assumes "receiving s" and "list_all plain_line ls" and "fits s (concat (map wire_line ls))"
    and "pending s = concat (map wire_line ls) @ ''.'' @ CRLF @ r"
  shows "\<exists>t u. feed (length ls) (my_fgets SMTP_LINEMAX) (SMTP_handle e) s = Some t \<and>
    my_fgets SMTP_LINEMAX t = (True, u) \<and>
    SMTP_ProcessLine e u = (True, (SMTP_ProcessMessage e u)\<lparr>bPrevLineEndsWithCrLf := True\<rparr>) \<and>
    strBody u = strBody s @ concat (map (\<lambda>l. l @ CRLF) ls) \<and> vHeaders u = vHeaders s \<and>
    vRecipients u = vRecipients s \<and> strReturnPath u = strReturnPath s \<and> wld u = wld s \<and> pending u = r"
  by (rule feed_message [OF assms])

lemma SMTP_body_roundtrip_witness:
  "\<exists>s t u. smtp_reaches (sample_smtp []) sample_conn s \<and>
     feed 1 (my_fgets SMTP_LINEMAX) (SMTP_handle (sample_smtp [])) s = Some t \<and>
     my_fgets SMTP_LINEMAX t = (True, u) \<and> strBody u = ''.hi'' @ CRLF \<and> pending u = []"
proof -
  let ?f = "feed 6 (my_fgets SMTP_LINEMAX) (SMTP_handle (sample_smtp [])) sample_conn"
  have "(case ?f of None \<Rightarrow> False
     | Some s \<Rightarrow> receiving s \<and> pending s = ''..hi'' @ CRLF @ ''.'' @ CRLF \<and> strBody s = [] \<and> iMessageSizeLimit s = 0)"
    by code_simp
  then obtain s where s: "?f = Some s" "receiving s" "pending s = ''..hi'' @ CRLF @ ''.'' @ CRLF" "strBody s = []"
      "iMessageSizeLimit s = 0" by (cases ?f) auto
  have "list_all plain_line [''.hi'']" by (simp add: plain_line_def)
  moreover have "fits s (concat (map wire_line [''.hi'']))" using s(5) by (simp add: fits_def)
  moreover have "pending s = concat (map wire_line [''.hi'']) @ ''.'' @ CRLF @ []"
    using s(3) by (simp add: wire_line_def)
  ultimately show ?thesis
    using SMTP_body_roundtrip [OF s(2), of "[''.hi'']" "[]" "sample_smtp []"] sample_feed [OF s(1)] s(4) by auto
qed

section \<open>Credentials\<close>

lemma nul_byte: "char_of_byte b = NUL \<longleftrightarrow> b = 0"
proof -
  have z: "char_of_byte 0 = NUL" by code_simp
  show ?thesis unfolding z [symmetric] by (metis byte_of_char_of_byte)
qed

lemma c_bytes_upto:
  "0 \<notin> set xs \<Longrightarrow> c_bytes (xs @ 0 # ys) = map char_of_byte xs"
  "0 \<notin> set xs \<Longrightarrow> c_bytes (xs @ replicate k 0) = map char_of_byte xs"
proof -
  assume "0 \<notin> set xs"
  then have n: "NUL \<notin> set (map char_of_byte xs)" by (metis (no_types) imageE list.set_map nul_byte)
  have z: "char_of_byte 0 = NUL" by (simp add: nul_byte)
  show "c_bytes (xs @ 0 # ys) = map char_of_byte xs" using n z by (simp add: c_bytes_def)
  show "c_bytes (xs @ replicate k 0) = map char_of_byte xs"
    using n z by (cases k) (simp_all add: c_bytes_def)
qed

text \<open>
  C36: \<open>AUTH PLAIN\<close> finds the user and the password in the response of the client, for every
  identity, user and password without zero bytes, with one exception: a password of a single
  byte is read as empty when base64 needs no padding, so whether such an account can log in
  depends on the length of its name.
\<close>

theorem SMTP_plain_credentials:
  assumes "0 \<notin> set authzid" and "0 \<notin> set user" and "0 \<notin> set password"
    and "2 \<le> length user" and "password \<noteq> []"
  shows "map_option plain_credentials (Base64Decode False (Base64Encode False (authzid @ 0 # user @ 0 # password))) =
    Some (map char_of_byte user,
          if length password = 1 \<and> (length authzid + length user) mod 3 = 0 then []
          else map char_of_byte password)"
proof -
  define msg where "msg = authzid @ 0 # user @ 0 # password"
  define k where "k = b64_fill msg"
  have k: "k = 0 \<longleftrightarrow> (length authzid + length user + 2 + length password) mod 3 = 0"
    by (simp add: k_def b64_fill_def msg_def) presburger
  have b: "Base64Decode False (Base64Encode False msg) = Some (msg @ replicate k 0)"
    using decode_loop_encode [of msg] by (simp add: Base64Decode_def encode_no_nul k_def)
  have a: "c_bytes (msg @ replicate k 0) = map char_of_byte authzid"
    "c_bytes (drop (length authzid + 1) (msg @ replicate k 0)) = map char_of_byte user"
    using assms(1,2) by (simp_all add: msg_def c_bytes_upto)
  have p: "c_bytes (drop (length authzid + 1 + length user + 1) (msg @ replicate k 0)) = map char_of_byte password"
    using assms(3) by (simp add: msg_def c_bytes_upto)
  have l: "length (msg @ replicate k 0) = length authzid + length user + length password + k + 2"
    by (simp add: msg_def)
  have "1 \<le> length password" using assms(5) by (simp add: Suc_le_eq)
  then have c: "length authzid + 1 + length user + 2 < length (msg @ replicate k 0) \<longleftrightarrow>
      \<not> (length password = 1 \<and> (length authzid + length user) mod 3 = 0)"
    using k unfolding l by presburger
  have "plain_credentials (msg @ replicate k 0) = (map char_of_byte user,
      if length password = 1 \<and> (length authzid + length user) mod 3 = 0 then [] else map char_of_byte password)"
    using assms(4,5) \<open>1 \<le> length password\<close> p c l a by (auto simp: plain_credentials_def Let_def)
  then show ?thesis by (simp add: b msg_def [symmetric])
qed

lemma SMTP_plain_credentials_witness:
  "map_option plain_credentials (Base64Decode False (Base64Encode False ([] @ 0 # [98, 111, 98] @ 0 # [115]))) =
     Some (''bob'', [])"
proof -
  have "map char_of_byte [98, 111, 98] = ''bob''" by code_simp
  then show ?thesis using SMTP_plain_credentials [of "[]" "[98, 111, 98]" "[115]"] by simp
qed

lemma who_cmd:
  assumes "smtp_cmd e c s t" and "bAuthenticated s \<longrightarrow> 0 < iUserID s" and "\<not> bAuthenticated s \<longrightarrow> iUserID s = 0"
  shows "who t = who s \<or> bAuthenticated t \<and> \<not> bAuthenticated s \<and> (\<exists>usr pass. login_ok e (wld s) usr pass (iUserID t))"
  using assms(1)
proof (cases rule: smtp_cmd.cases)
  case auth
  then show ?thesis using Auth_cases [OF assms(2,3)] by (auto simp: anonymous_def)
next
  case rcpt
  then show ?thesis using Rcpt_cases [of e s] by (auto simp: rcpt_change_def Let_def dest: who_core)
qed (use who_core [of t s] in simp_all)

lemma who_step:
  assumes "smtp_step e s t" and "iUserID s = 0 \<longleftrightarrow> \<not> bAuthenticated s" and "bAuthenticated s \<longrightarrow> 0 < iUserID s"
  shows "who t = who s \<or> bAuthenticated t \<and> \<not> bAuthenticated s \<and> (\<exists>usr pass. login_ok e (wld s) usr pass (iUserID t))"
  using assms(1)
proof (cases rule: smtp_step.cases)
  case (command c n)
  then show ?thesis using who_cmd [OF command(2)] assms(2,3) by (simp add: who_def)
next
  case (text_line l b)
  then show ?thesis using who_core [of t s] by simp
next
  case (message b)
  have "who ((SMTP_ProcessMessage e s)\<lparr>bPrevLineEndsWithCrLf := b\<rparr>) = who (SMTP_ProcessMessage e s)"
    by (simp add: who_def)
  then show ?thesis using message by simp
qed


definition login_smtp :: smtp_env where
  "login_smtp = sample_smtp [(''smtp_auth_enabled'', ''1'')]"

definition login_conn :: smtp where
  "login_conn = new_smtp login_smtp True
     (new_session (''EHLO h'' @ CRLF @ ''AUTH PLAIN AGFAYi5jAHB3'' @ CRLF) [] [] sample_world)"


section \<open>Where the code misses its intent\<close>

lemma silent_Rset [simp]: "out (SMTP_Rset True s) = out s"
  by (simp add: SMTP_Rset_def)

lemma silent_text [simp]: "out (data_text e l s) = out s"
  by (simp add: data_text_def header_line_def note_header_def split: option.split)

text \<open>
  The limit on errors does not hold in the data phase. When a client that has used up its
  errors ends a message that is refused, the server announces that it closes the connection,
  and then goes on: the reset at the end of \<open>ProcessMessage\<close> overwrites the state QUIT.
\<close>

theorem SMTP_hard_limit_ignored:
  assumes "iState s = SMTP_STATE_DATA" and "szLine s = ''.'' @ CRLF" and "bPrevLineEndsWithCrLf s" and "\<not> failed s"
    and "0 < cfg_int e ''smtp_error_hardlimit''" and "cfg_int e ''smtp_error_hardlimit'' \<le> iErrorCounter s"
    and "\<not> trusted s" and "message_refusal e s \<noteq> None"
  shows "\<exists>t. SMTP_handle e s = (True, t) \<and>
    out t = out s @ [''554 5.7.0 Too many erroneous commands, closing connection'' @ CRLF] \<and>
    iState t \<in> {SMTP_STATE_HELO, SMTP_STATE_EHLO}"
proof -
  obtain n msg where r: "message_refusal e s = Some (n, msg)" using assms(8) by auto
  have t: "trusted (s\<lparr>iErrorCounter := k\<rparr>) = trusted s" for k by (simp add: trusted_def)
  have "SMTP_Error e n msg s = (printf (''554 5.7.0 Too many erroneous commands, closing connection'' @ CRLF)
      (s\<lparr>iErrorCounter := iErrorCounter s + 1\<rparr>))\<lparr>iState := SMTP_STATE_QUIT\<rparr>"
    using assms(5-7) by (simp add: SMTP_Error_def t)
  then have "out (SMTP_Error e n msg s) = out s @ [''554 5.7.0 Too many erroneous commands, closing connection'' @ CRLF]"
    by simp
  then have "out (SMTP_ProcessMessage e s) =
      out s @ [''554 5.7.0 Too many erroneous commands, closing connection'' @ CRLF]"
    using r by (simp add: SMTP_ProcessMessage_def message_outcome_def)
  moreover have "\<not> failed (SMTP_ProcessMessage e s)"
    using r assms(4) by (simp add: SMTP_ProcessMessage_def message_outcome_def)
  ultimately show ?thesis
    using assms(1-3) by (simp add: SMTP_handle_def SMTP_ProcessLine_def SMTP_ProcessDataLine_def)
qed

text \<open>
  A message without any line is not recognised. A client that answers the go-ahead of \<open>DATA\<close>
  with the end line at once gets no reply and the server waits for more data: the check for the
  end of the data asks for a preceding line in the message.
\<close>

theorem SMTP_first_dot_missed:
  assumes "iState s = SMTP_STATE_MAIL" and "vRecipients s \<noteq> []" and "\<not> failed s"
    and "szLine ((SMTP_Data e s)\<lparr>buf := b\<rparr>) = ''.'' @ CRLF"
  shows "\<exists>t. SMTP_handle e ((SMTP_Data e s)\<lparr>buf := b\<rparr>) = (True, t) \<and> iState t = SMTP_STATE_DATA \<and>
    out t = out (SMTP_Data e s) \<and> wld t = wld s"
proof -
  let ?u = "(SMTP_Data e s)\<lparr>buf := b\<rparr>"
  have "\<not> length (vRecipients s) < 1" using assms(2) by (cases "vRecipients s") simp_all
  then have u: "iState ?u = SMTP_STATE_DATA" "\<not> bPrevLineEndsWithCrLf ?u" "\<not> failed ?u" "wld ?u = wld s"
    using assms(1,3) by (simp_all add: SMTP_Data_def printf_def)
  have "SMTP_handle e ?u = (True, (data_text e (''.'' @ CRLF) ?u)\<lparr>bPrevLineEndsWithCrLf := ends_crlf (''.'' @ CRLF)\<rparr>)"
    using u assms(4) by (simp add: SMTP_handle_def SMTP_ProcessLine_def SMTP_ProcessDataLine_def)
  then show ?thesis using u by simp
qed

text \<open>The client starts over with \<open>HELO\<close> in the middle of a transaction.\<close>

definition restart_dialogue :: string where
  "restart_dialogue = ''HELO h'' @ CRLF @ ''MAIL FROM:<old@x>'' @ CRLF @ ''RCPT TO:<a@b.c>'' @ CRLF @
     ''HELO h'' @ CRLF @ ''MAIL FROM:<new@x>'' @ CRLF @ ''DATA'' @ CRLF"

definition restart_conn :: smtp where
  "restart_conn = new_smtp (sample_smtp []) False (new_session restart_dialogue [] [] sample_world)"

text \<open>
  C38: \<open>HELO\<close> and \<open>EHLO\<close> do not clear the transaction: the recipients of an abandoned message
  stay and belong to the next one, which is then accepted without a \<open>RCPT\<close> of its own. In the
  concrete session, the message from \<open>new@x\<close> goes to the recipient of the one from \<open>old@x\<close>.
\<close>

theorem SMTP_helo_keeps_recipients:
  "vRecipients (SMTP_Mail e (SMTP_Helo e b s)) = vRecipients s \<and>
   map_option (\<lambda>t. (iState t, strReturnPath t, map strAddress (vRecipients t)))
     (feed 6 (my_fgets SMTP_LINEMAX) (SMTP_handle (sample_smtp [])) restart_conn) =
   Some (SMTP_STATE_DATA, ''new@x'', [''a@b.c''])"
proof
  show "vRecipients (SMTP_Mail e (SMTP_Helo e b s)) = vRecipients s"
    using Mail_frame(1) [of e "SMTP_Helo e b s"] simple_frame(1) [of e b s] by (simp add: core_def)
  show "map_option (\<lambda>t. (iState t, strReturnPath t, map strAddress (vRecipients t)))
     (feed 6 (my_fgets SMTP_LINEMAX) (SMTP_handle (sample_smtp [])) restart_conn) =
   Some (SMTP_STATE_DATA, ''new@x'', [''a@b.c''])" by code_simp
qed

text \<open>A session with two errors at the end of a message that is too long.\<close>

definition tired_conn :: smtp where
  "tired_conn = sample_conn\<lparr>iState := SMTP_STATE_DATA, buf := ''.'' @ CRLF, bPrevLineEndsWithCrLf := True,
     iErrorCounter := 2, bSizeLimitExceeded := True\<rparr>"

lemma SMTP_hard_limit_ignored_witness:
  "\<exists>t. SMTP_handle (sample_smtp [(''smtp_error_hardlimit'', ''2'')]) tired_conn = (True, t) \<and>
     iState t \<in> {SMTP_STATE_HELO, SMTP_STATE_EHLO}"
proof -
  let ?e = "sample_smtp [(''smtp_error_hardlimit'', ''2'')]"
  have "iState tired_conn = SMTP_STATE_DATA" "szLine tired_conn = ''.'' @ CRLF" "bPrevLineEndsWithCrLf tired_conn"
    "\<not> failed tired_conn" "0 < cfg_int ?e ''smtp_error_hardlimit''"
    "cfg_int ?e ''smtp_error_hardlimit'' \<le> iErrorCounter tired_conn" "\<not> trusted tired_conn"
    "message_refusal ?e tired_conn \<noteq> None" by code_simp+
  from SMTP_hard_limit_ignored [OF this] show ?thesis by blast
qed

text \<open>A session with a recipient that is about to say \<open>DATA\<close>.\<close>

definition ready_conn :: smtp where
  "ready_conn = sample_conn\<lparr>iState := SMTP_STATE_MAIL,
     vRecipients := [\<lparr>strAddress = ''a@b.c'', iLocalRecipient = 7, iDeliveryStatusID = 0\<rparr>]\<rparr>"

lemma SMTP_first_dot_missed_witness:
  "\<exists>t. SMTP_handle (sample_smtp []) ((SMTP_Data (sample_smtp []) ready_conn)\<lparr>buf := ''.'' @ CRLF\<rparr>) = (True, t) \<and>
     iState t = SMTP_STATE_DATA"
proof -
  have "iState ready_conn = SMTP_STATE_MAIL" "vRecipients ready_conn \<noteq> []" "\<not> failed ready_conn" by code_simp+
  moreover have "szLine ((SMTP_Data (sample_smtp []) ready_conn)\<lparr>buf := ''.'' @ CRLF\<rparr>) = ''.'' @ CRLF"
    by (simp add: szLine_def)
  ultimately show ?thesis using SMTP_first_dot_missed [of ready_conn "''.'' @ CRLF" "sample_smtp []"] by auto
qed

end
