(* ===== verification/SmtpClient_Correct.thy ===== *)
theory SmtpClient_Correct
  imports SmtpClient Smtp_Message
begin

text \<open>
  What the SMTP client's dialogue achieves: the bytes of a message on their way from a queue file
  through the client into the server of the same program, what a successful delivery means, the
  loop detection against that server, and two ways in which the client is too optimistic.
\<close>

section \<open>Dialogue steps\<close>

text \<open>A response of one line that fits into the buffer.\<close>

definition reply :: "string \<Rightarrow> bool" where
  "reply l \<longleftrightarrow> l \<noteq> [] \<and> last l = NL \<and> NL \<notin> set (butlast l) \<and> NUL \<notin> set l \<and> 2 \<le> length l \<and> length l \<le> 513 \<and>
     (3 < length l \<longrightarrow> l ! 3 \<noteq> CHR ''-'')"

text \<open>The session with another socket.\<close>

definition with_sock :: "sock \<Rightarrow> smtp_session \<Rightarrow> smtp_session" where
  "with_sock k s = s\<lparr>ss_sock := Some k\<rparr>"

lemma with_sock_simps [simp]:
  "ss_sock (with_sock k s) = Some k" "with_sock k (with_sock j s) = with_sock k s"
  "sessionActive (with_sock k s) = sessionActive s" "tlsActive (with_sock k s) = tlsActive s"
  "isDirty (with_sock k s) = isDirty s" "useTLSA (with_sock k s) = useTLSA s" "useTLS (with_sock k s) = useTLS s"
  "tlsaRecords (with_sock k s) = tlsaRecords s" "isMXConnection (with_sock k s) = isMXConnection s"
  "ss_host (with_sock k s) = ss_host s" "ss_port (with_sock k s) = ss_port s" "mxAuthenticated (with_sock k s) = mxAuthenticated s"
  "sizeSupported (with_sock k s) = sizeSupported s" "tlsSupported (with_sock k s) = tlsSupported s"
  by (simp_all add: with_sock_def)

lemma ss_Write_sock:
  "ss_sock s = Some k \<Longrightarrow> sk_Write t k = (Wrote n, k') \<Longrightarrow> ss_Write t s = (Inr n, with_sock k' s)"
  by (simp add: ss_Write_def with_sock_def)

lemma ReadLine_reply:
  assumes "reply l" and "sk_in k = l @ r"
  shows "sk_ReadLine 513 k = (Line l, k\<lparr>sk_in := r\<rparr>)"
proof -
  obtain x where x: "l = x @ [NL]" using assms(1) by (metis append_butlast_last_id reply_def)
  then have "x \<noteq> []" "NL \<notin> set x" "NUL \<notin> set x" "length x < 513" using assms(1) by (auto simp: reply_def)
  then show ?thesis using ReadLine_line [of x 513 k r] assms(2) x by simp
qed

lemma readResponse_reply:
  assumes "reply l" and "ss_sock s = Some k" and "sk_in k = l @ r"
  shows "readResponse s = (Inr l, with_sock (k\<lparr>sk_in := r\<rparr>) s)"
proof -
  have "response_lines k [] = (Line l, l, k\<lparr>sk_in := r\<rparr>)"
    using assms(1) by (subst response_lines.simps) (auto simp: ReadLine_reply [OF assms(1,3)] reply_def)
  then show ?thesis using assms(1,2) by (simp add: readResponse_def with_sock_def reply_def)
qed

text \<open>A command to a peer that takes what is written and has answered.\<close>

lemma ask_reply:
  assumes "reply l" and "ss_sock s = Some k" and "sk_room k = []" and "sk_in k = l @ r"
  shows "ask t s = (Inr l, with_sock (k\<lparr>sk_out := sk_out k @ t, sk_in := r\<rparr>) s)"
proof -
  let ?k = "k\<lparr>sk_out := sk_out k @ t\<rparr>"
  have "ss_Write t s = (Inr (int (length t)), with_sock ?k s)"
    by (rule ss_Write_sock [OF assms(2) sk_Write_all [OF assms(3)]])
  then have "ask t s = readResponse (with_sock ?k s)" by (simp add: ask_def after_def ss_PrintF_def ret_def)
  then show ?thesis using readResponse_reply [OF assms(1), of "with_sock ?k s" ?k r] assms(4) by simp
qed

section \<open>The message through client and server\<close>

definition file_text :: "string list \<Rightarrow> string" where
  "file_text ls = concat (map (\<lambda>l. l @ CRLF) ls)"

lemma sent_plain: "plain_line l \<Longrightarrow> sent_line (l @ CRLF) = l @ CRLF"
proof -
  assume p: "plain_line l"
  have "last l \<noteq> NL" if "l \<noteq> []" using p last_in_set [OF that] unfolding plain_line_def by metis
  then show ?thesis
    using p by (cases l rule: rev_cases) (auto simp: sent_line_def drop_last_while_def plain_line_def)
qed

lemma fgets_plain:
  assumes "plain_line l"
  shows "fgets MAIL_LINEMAX (l @ CRLF @ rest) = Some (l @ CRLF, rest)"
proof -
  have "NL \<notin> set (l @ [CR])" "length (l @ [CR]) < MAIL_LINEMAX - 1"
    using assms by (auto simp: plain_line_def MAIL_LINEMAX_def)
  from fgets_upto_nl [OF this, of rest] show ?thesis by (simp add: fgets_def)
qed

lemma send_lines_wire:
  "list_all plain_line ls \<Longrightarrow> ss_sock s = Some k \<Longrightarrow> sk_room k = [] \<Longrightarrow>
     send_lines (file_text ls) s = (Inr (), with_sock (k\<lparr>sk_out := sk_out k @ concat (map wire_line ls)\<rparr>) s)"
proof (induction ls arbitrary: s k)
  case Nil
  have "s = with_sock (k\<lparr>sk_out := sk_out k\<rparr>) s" using Nil(2) by (simp add: with_sock_def)
  then show ?case by (subst send_lines.simps) (simp add: file_text_def fgets_def)
next
  case (Cons l ls)
  then have p: "plain_line l" by simp
  have c: "cstr (l @ CRLF) = l @ CRLF" using p by (intro cstr_id) (simp add: plain_line_def)
  let ?k = "k\<lparr>sk_out := sk_out k @ wire_line l\<rparr>"
  let ?dot = "hd (l @ CRLF) = CHR ''.''"
  have f: "fgets MAIL_LINEMAX (file_text (l # ls)) = Some (l @ CRLF, file_text ls)"
    using fgets_plain [OF p] by (simp add: file_text_def)
  have w: "ss_Write t (with_sock j s) = (Inr (int (length t)), with_sock (j\<lparr>sk_out := sk_out j @ t\<rparr>) s)"
    if "sk_room j = []" for t j
    using ss_Write_sock [of "with_sock j s" j t] sk_Write_all [OF that, of t] by simp
  have s: "with_sock k s = s" using Cons.prems(2) by (simp add: with_sock_def)
  have "send_lines (file_text (l # ls)) s = send_lines (file_text ls) (with_sock ?k s)"
  proof (cases ?dot)
    case True
    then have "wire_line l = ''.'' @ l @ CRLF" by (cases l) (auto simp: wire_line_def)
    then show ?thesis
      using True w [of k "''.''"] w [of "k\<lparr>sk_out := sk_out k @ ''.''\<rparr>" "l @ CRLF"] Cons.prems(3) s
      by (subst send_lines.simps) (simp add: f c sent_plain [OF p])
  next
    case False
    then have "wire_line l = l @ CRLF" by (cases l) (auto simp: wire_line_def)
    then show ?thesis
      using False w [of k "l @ CRLF"] Cons.prems(3) s
      by (subst send_lines.simps) (simp add: f c sent_plain [OF p])
  qed
  also have "\<dots> = (Inr (), with_sock (?k\<lparr>sk_out := sk_out ?k @ concat (map wire_line ls)\<rparr>) (with_sock ?k s))"
    by (rule Cons.IH) (use Cons.prems in simp_all)
  finally show ?case by simp
qed

lemma ss_data_dialogue:
  assumes "reply a" "starts_with ''354'' a" and "reply b" "starts_with ''250'' b"
    and "list_all plain_line ls" and "ss_sock s = Some k" "sk_room k = []" "sk_in k = a @ b @ r"
  shows "ss_data t (file_text ls) s =
    (Inr (), (with_sock (k\<lparr>sk_in := r, sk_out := sk_out k @ ''DATA'' @ CRLF @
       concat (map wire_line (ls @ [[]])) @ ''.'' @ CRLF\<rparr>) s)\<lparr>isDirty := True, lastUse := t\<rparr>)"
proof -
  let ?s = "s\<lparr>isDirty := True\<rparr>"
  let ?k1 = "k\<lparr>sk_out := sk_out k @ ''DATA'' @ CRLF, sk_in := b @ r\<rparr>"
  let ?k2 = "?k1\<lparr>sk_out := sk_out ?k1 @ concat (map wire_line ls)\<rparr>"
  have 1: "ask (''DATA'' @ CRLF) ?s = (Inr a, with_sock ?k1 ?s)"
    using ask_reply [OF assms(1), of ?s k "b @ r"] assms(6-8) by simp
  have 2: "send_lines (file_text ls) (with_sock ?k1 ?s) = (Inr (), with_sock ?k2 ?s)"
    using send_lines_wire [OF assms(5), of "with_sock ?k1 ?s" ?k1] assms(7) by simp
  have 3: "ask (CRLF @ ''.'' @ CRLF) (with_sock ?k2 ?s) =
      (Inr b, with_sock (?k2\<lparr>sk_out := sk_out ?k2 @ CRLF @ ''.'' @ CRLF, sk_in := r\<rparr>) ?s)"
    using ask_reply [OF assms(3), of "with_sock ?k2 ?s" ?k2 r] assms(7) by simp
  show ?thesis
    using 1 2 3 assms(2,4)
    by (simp add: ss_data_def after_def modify_def with_sock_def wire_line_def)
qed

text \<open>
  C30: one hop from server to server. The client reads a queue file with lines of at most 997 bytes
  and sends it to a peer that answers 354 and, at the end, 250. A server session of this program in
  its data phase that receives exactly these bytes takes every line as text, stores the lines of
  the file as they were and processes the message at the end line; but the message has grown by
  an empty line, because the client puts a line end before the final dot although the last line
  had one.
\<close>

theorem SMTP_hop:
  assumes "reply a" "starts_with ''354'' a" and "reply b" "starts_with ''250'' b"
    and "list_all plain_line ls" and "ss_sock s = Some k" "sk_room k = []" "sk_in k = a @ b"
    and "receiving v" and "fits v (concat (map wire_line (ls @ [[]])))"
    and "pending v = drop (length (sk_out k @ ''DATA'' @ CRLF)) (sk_out (the (ss_sock (snd (ss_data t (file_text ls) s)))))"
  shows "\<exists>x u. feed (length ls + 1) (my_fgets SMTP_LINEMAX) (SMTP_handle e) v = Some x \<and>
    my_fgets SMTP_LINEMAX x = (True, u) \<and>
    SMTP_ProcessLine e u = (True, (SMTP_ProcessMessage e u)\<lparr>bPrevLineEndsWithCrLf := True\<rparr>) \<and>
    strBody u = strBody v @ file_text ls @ CRLF \<and> pending u = []"
proof -
  have d: "ss_data t (file_text ls) s =
    (Inr (), (with_sock (k\<lparr>sk_in := [], sk_out := sk_out k @ ''DATA'' @ CRLF @
       concat (map wire_line (ls @ [[]])) @ ''.'' @ CRLF\<rparr>) s)\<lparr>isDirty := True, lastUse := t\<rparr>)"
    by (rule ss_data_dialogue [OF assms(1-7)]) (simp add: assms(8))
  have all: "list_all plain_line (ls @ [[]])" using assms(5) by (simp add: plain_line_def)
  have "pending v = concat (map wire_line (ls @ [[]])) @ ''.'' @ CRLF @ []"
    using assms(11) unfolding d by simp
  from feed_message [OF assms(9) all assms(10) this, of e]
  show ?thesis by (simp add: file_text_def) blast
qed

definition sample_reply :: "string \<Rightarrow> string" where "sample_reply c = c @ '' x'' @ CRLF"

lemma sample_replies: "reply (sample_reply ''220'')" "reply (sample_reply ''250'')" "reply (sample_reply ''354'')"
  "reply (sample_reply ''454'')"
  by (simp_all add: reply_def sample_reply_def butlast_append)

definition sample_sock :: "string \<Rightarrow> sock" where
  "sample_sock i = \<lparr>sk_in = i, sk_tls_in = [], sk_stalls = False, sk_out = [], sk_room = []\<rparr>"

lemma SMTP_hop_witness:
  "\<exists>(v :: smtp) x u. receiving v \<and> feed 2 (my_fgets SMTP_LINEMAX) (SMTP_handle (sample_smtp [])) v = Some x \<and>
     my_fgets SMTP_LINEMAX x = (True, u) \<and> strBody u = strBody v @ ''.hi'' @ CRLF @ CRLF"
proof -
  let ?f = "feed 6 (my_fgets SMTP_LINEMAX) (SMTP_handle (sample_smtp [])) sample_conn"
  have "(case ?f of None \<Rightarrow> False | Some s \<Rightarrow> receiving s \<and> iMessageSizeLimit s = 0)" by code_simp
  then obtain s :: smtp where s: "receiving s" "iMessageSizeLimit s = 0" by (cases ?f) auto
  let ?k = "sample_sock (sample_reply ''354'' @ sample_reply ''250'')"
  let ?c = "with_sock ?k (new_SMTPSession ''h'' ''h'' 25 0)"
  let ?ls = "[''.hi'']"
  let ?p = "drop (length (sk_out ?k @ ''DATA'' @ CRLF)) (sk_out (the (ss_sock (snd (ss_data 0 (file_text ?ls) ?c)))))"
  define v where "v = set_pending ?p s"
  have v: "receiving v" "iMessageSizeLimit v = 0" "pending v = ?p"
    using s by (simp_all add: receiving_def set_pending_def pending_def v_def)
  have "list_all plain_line ?ls" by (simp add: plain_line_def)
  then obtain x u where "feed (length ?ls + 1) (my_fgets SMTP_LINEMAX) (SMTP_handle (sample_smtp [])) v = Some x \<and>
      my_fgets SMTP_LINEMAX x = (True, u) \<and>
      SMTP_ProcessLine (sample_smtp []) u = (True, (SMTP_ProcessMessage (sample_smtp []) u)\<lparr>bPrevLineEndsWithCrLf := True\<rparr>) \<and>
      strBody u = strBody v @ file_text ?ls @ CRLF \<and> pending u = []"
    using v SMTP_hop [OF sample_replies(3) _ sample_replies(2), of ?ls ?c ?k v 0 "sample_smtp []"]
    by (auto simp: sample_reply_def starts_with_def sample_sock_def fits_def)
  then have "feed 2 (my_fgets SMTP_LINEMAX) (SMTP_handle (sample_smtp [])) v = Some x \<and>
      my_fgets SMTP_LINEMAX x = (True, u) \<and> strBody u = strBody v @ ''.hi'' @ CRLF @ CRLF"
    by (simp add: file_text_def numeral_2_eq_2)
  then show ?thesis using v(1) by blast
qed

section \<open>Bounces need a refusal\<close>

text \<open>An operation that fails for good has a permanent refusal of the peer to show, or a mail loop.\<close>

definition permanent :: "DeliveryException \<Rightarrow> bool" where
  "permanent x \<longleftrightarrow> (\<exists>r. de_diagnosticCode x = ''smtp; '' @ r \<and> starts_with ''5'' r) \<or> de_statusCode x = ''5.4.6''"

definition polite :: "'a call \<Rightarrow> bool" where
  "polite m \<longleftrightarrow> (\<forall>s x t. m s = (Inl (Delivery x), t) \<longrightarrow> de_errorCode x = QUEUE_STATUS_FATAL_ERROR \<longrightarrow> permanent x)"

lemma polite_ret [simp]: "polite (ret a)" "polite (modify f)" "polite (\<lambda>s. (Inr a, g s))"
  by (simp_all add: polite_def ret_def modify_def)

lemma polite_fails [simp]: "st \<noteq> QUEUE_STATUS_FATAL_ERROR \<Longrightarrow> polite (fails i st c d)"
  by (simp add: polite_def fails_def)

lemma polite_after [intro]: "polite m \<Longrightarrow> (\<And>a. polite (f a)) \<Longrightarrow> polite (after m f)"
  by (auto simp: polite_def after_def split: prod.splits sum.splits)

lemma polite_if [intro]: "polite m \<Longrightarrow> polite n \<Longrightarrow> polite (if b then m else n)"
  by simp

lemma polite_state [intro]: "polite m \<Longrightarrow> polite (\<lambda>s. m (g s))"
  by (simp add: polite_def)

lemma polite_cond [intro]: "polite m \<Longrightarrow> polite n \<Longrightarrow> polite (\<lambda>s. if b s then m s else n s)"
  by (simp add: polite_def)

lemma polite_throwError [simp]: "polite (throwError r a b c d e f)"
  by (auto simp: polite_def throwError_def fails_def permanent_def Let_def)

lemma polite_Write [simp]: "polite (ss_Write t)"
  by (auto simp: polite_def ss_Write_def split: option.splits prod.splits wresult.splits)

lemma polite_readResponse [simp]: "polite readResponse"
  by (auto simp: polite_def readResponse_def fails_def Let_def split: option.splits prod.splits line.splits if_splits)

lemma polite_ask [simp]: "polite (ask t)"
  unfolding ask_def ss_PrintF_def by (intro polite_after polite_ret polite_Write polite_readResponse)

lemma ss_Write_no_delivery: "ss_Write t s \<noteq> (Inl (Delivery x), u)"
  by (simp add: ss_Write_def split: option.split prod.split wresult.split)

lemma send_lines_no_delivery: "send_lines d s \<noteq> (Inl (Delivery x), t)"
proof (induction d s arbitrary: t rule: send_lines.induct)
  case (1 d s)
  show ?case
  proof (cases "fgets MAIL_LINEMAX d")
    case None
    then show ?thesis by (subst send_lines.simps) simp
  next
    case (Some p)
    obtain c rest where p: "p = (c, rest)" by fastforce
    let ?l = "sent_line (cstr c)"
    obtain r1 s1 where w1: "(if hd ?l = CHR ''.'' then ss_Write ''.'' s else (Inr 0, s)) = (r1, s1)" by fastforce
    obtain r2 s2 where w2: "ss_Write ?l s1 = (r2, s2)" by fastforce
    have n: "r1 \<noteq> Inl (Delivery x)" "r2 \<noteq> Inl (Delivery x)"
      using w1 w2 ss_Write_no_delivery [of "''.''" s x s1] ss_Write_no_delivery [of ?l s1 x s2]
      by (auto split: if_splits)
    show ?thesis
    proof (cases "cstr c \<noteq> [] \<and> (\<exists>a. r1 = Inr a) \<and> r2 = Inr (int (length ?l))")
      case True
      then obtain a where "r1 = Inr a" by blast
      then have "send_lines rest s2 \<noteq> (Inl (Delivery x), t)"
        using 1 [OF Some p [symmetric] _ refl w1 [symmetric] _ w2 [symmetric]] True by simp
      then show ?thesis using True \<open>r1 = Inr a\<close> Some p w1 w2 by (subst send_lines.simps) (simp add: Let_def)
    next
      case False
      then show ?thesis using n Some p w1 w2
        by (subst send_lines.simps) (auto simp: Let_def split: sum.splits)
    qed
  qed
qed

lemma polite_send_lines [simp]: "polite (send_lines d)"
  by (simp add: polite_def send_lines_no_delivery)

lemma polite_dep: "(\<And>x. polite (m x)) \<Longrightarrow> polite (\<lambda>s. m s (g s))"
  by (simp add: polite_def)

lemma polite_rset: "polite ss_rset"
  unfolding ss_rset_def [abs_def] by (intro polite_cond polite_after polite_if polite_ask polite_fails polite_ret) simp_all

lemma polite_mailFrom: "polite (ss_mailFrom r n)"
  unfolding ss_mailFrom_def [abs_def]
  by (rule polite_dep) (intro polite_after polite_if polite_ask polite_throwError polite_ret)

lemma polite_rcptTo: "polite (ss_rcptTo r)"
  unfolding ss_rcptTo_def [abs_def]
  by (rule polite_dep) (intro polite_after polite_if polite_ask polite_throwError polite_ret)

lemma polite_data: "polite (ss_data t d)"
  unfolding ss_data_def [abs_def]
  by (rule polite_dep)
     (intro polite_after polite_if polite_ask polite_throwError polite_ret polite_send_lines)

lemma polite_auth: "polite (ss_auth u p)"
  unfolding ss_auth_def [abs_def] auth_rejected_def
  by (intro polite_cond polite_after polite_if polite_ask polite_throwError polite_ret)

lemma polite_ehlo: "polite (ehlo_over_tls e)"
  unfolding ehlo_over_tls_def by (intro polite_after polite_if polite_ask polite_ret polite_fails) simp

lemma polite_startTLS: "polite (startTLS e)"
proof -
  have "polite (handshake e)"
    using polite_ehlo [of e] by (auto simp: polite_def handshake_def fails_def split: option.splits sum.splits)
  then show ?thesis unfolding startTLS_def by (intro polite_after polite_if polite_ask polite_ret)
qed

lemma polite_greeted: "polite (greeted e r)"
proof -
  have "polite (after (if b then startTLS e else ret ()) (\<lambda>_.
      after (modify (\<lambda>s. s\<lparr>sessionActive := True, isDirty := False\<rparr>)) (\<lambda>_ s.
        if isMXConnection s then addToGreylist e s else (Inr (), s))))" for b
    by (intro polite_after polite_if polite_startTLS polite_ret) (simp add: polite_def addToGreylist_def)
  then show ?thesis by (auto simp: polite_def greeted_def fails_def permanent_def Let_def)
qed

lemma polite_greet: "polite (greet e ehlo)"
  unfolding greet_def
  by (intro polite_after polite_if polite_ask polite_ret polite_throwError polite_readResponse polite_greeted)

lemma polite_beginSession: "polite (beginSession e ehlo)"
  using polite_greet [of e ehlo]
  by (auto simp: polite_def beginSession_def fails_def Let_def split: sum.splits fault.splits prod.splits if_splits)

text \<open>
  C31: a message bounces only for a reason that the peer gave. Whatever the peer sends and however
  the connection breaks: when opening a session, logging in, giving sender or recipient or sending
  the message fails for good, then either the answer of the peer began with a 5, and the exception
  carries this answer, or the peer turned out to be this very host.
\<close>

theorem client_fatal_needs_5xx:
  assumes "m \<in> {beginSession e ehlo, ss_auth user pass, ss_rset, ss_mailFrom from n, ss_rcptTo to, ss_data t d}"
    and "m s = (Inl (Delivery x), s')" and "de_errorCode x = QUEUE_STATUS_FATAL_ERROR"
  shows "(\<exists>r. de_diagnosticCode x = ''smtp; '' @ r \<and> starts_with ''5'' r) \<or> de_statusCode x = ''5.4.6''"
proof -
  have "polite m"
    using assms(1) polite_beginSession polite_auth polite_rset polite_mailFrom polite_rcptTo polite_data by auto
  then show ?thesis using assms(2,3) unfolding polite_def permanent_def by blast
qed

lemma client_fatal_needs_5xx_witness:
  "\<exists>x t. ss_rcptTo ''a@b'' (with_sock (sample_sock (sample_reply ''550'')) (new_SMTPSession ''h'' ''h'' 25 0)) =
     (Inl (Delivery x), t) \<and> (\<exists>r. de_diagnosticCode x = ''smtp; '' @ r \<and> starts_with ''5'' r)"
proof -
  let ?s = "with_sock (sample_sock (sample_reply ''550'')) (new_SMTPSession ''h'' ''h'' 25 0)"
  have "case ss_rcptTo ''a@b'' ?s of (Inl (Delivery x), t) \<Rightarrow> de_errorCode x = QUEUE_STATUS_FATAL_ERROR \<and>
      de_statusCode x \<noteq> ''5.4.6'' | _ \<Rightarrow> False" by code_simp
  then obtain x t where x: "ss_rcptTo ''a@b'' ?s = (Inl (Delivery x), t)" "de_errorCode x = QUEUE_STATUS_FATAL_ERROR"
      "de_statusCode x \<noteq> ''5.4.6''" by (auto split: prod.splits sum.splits fault.splits)
  then show ?thesis using client_fatal_needs_5xx [of "ss_rcptTo ''a@b''" _ _ _ _ _ _ "''a@b''" _ _ ?s x t] by auto
qed

section \<open>Opening a session\<close>

lemma ask_then:
  "reply l \<Longrightarrow> ss_sock s = Some k \<Longrightarrow> sk_room k = [] \<Longrightarrow> sk_in k = l @ r \<Longrightarrow>
     after (ask t) f s = f l (with_sock (k\<lparr>sk_out := sk_out k @ t, sk_in := r\<rparr>) s)"
  by (simp add: after_def ask_reply)

text \<open>The greeting of a peer and a first answer of one line.\<close>

lemma greet_reply:
  assumes "reply g" "starts_with ''220'' g" and "reply h" "starts_with ''250'' h"
    and "ss_sock s = Some k" "sk_room k = []" "sk_in k = g @ h @ r"
  shows "greet e ehlo s = greeted e h (with_sock (k\<lparr>sk_out := sk_out k @ ehlo_text e, sk_in := r\<rparr>) s)"
proof -
  let ?k = "k\<lparr>sk_in := h @ r\<rparr>"
  have "readResponse s = (Inr g, with_sock ?k s)" by (rule readResponse_reply [OF assms(1,5)]) (simp add: assms(7))
  moreover have "ask (ehlo_text e) (with_sock ?k s) = (Inr h, with_sock (k\<lparr>sk_out := sk_out k @ ehlo_text e, sk_in := r\<rparr>) s)"
    using ask_reply [OF assms(3), of "with_sock ?k s" ?k r "ehlo_text e"] assms(6) by simp
  moreover have "\<not> starts_with ''500'' h" "\<not> starts_with ''502'' h" "\<not> starts_with ''503'' h"
    using assms(4) by (simp_all add: starts_with_def)
  ultimately show ?thesis using assms(2,4) by (simp add: greet_def after_def ret_def)
qed

text \<open>
  Published TLSA records do not keep a message off an unencrypted connection. The client
  insists that a peer with such records announces STARTTLS; but when the peer then refuses the
  command, with any answer other than 220, the session is taken as established, without TLS, and
  the message is sent in the clear. An attacker between the hosts only has to replace that answer.
\<close>

theorem DANE_downgrade:
  assumes "\<not> sessionActive s" "useTLSA s" "mxAuthenticated s" "\<not> tlsActive s"
    and "TLSALookup e (ss_host s) (ss_port s) \<noteq> []" and "tcp_connect e (ss_host s) (ss_port s) = Inr k"
    and "sk_room k = []" "sk_in k = g @ h @ x @ r"
    and "reply g" "starts_with ''220'' g" "reply h" "starts_with ''250'' h" "reply x" "\<not> starts_with ''220'' x"
    and "extension (''STARTTLS'' @ CRLF) h" "remoteHostName h \<noteq> cfg_str e ''b1gmta_host''"
  shows "\<exists>t. beginSession e False s = (Inr (), t) \<and> sessionActive t \<and> \<not> tlsActive t \<and> tlsaRecords t \<noteq> [] \<and> useTLSA t"
proof -
  let ?s = "with_sock k (s\<lparr>daneResult := no_DANE, tlsaRecords := TLSALookup e (ss_host s) (ss_port s)\<rparr>)"
  let ?k = "k\<lparr>sk_out := sk_out k @ ehlo_text e, sk_in := x @ r\<rparr>"
  let ?s1 = "(with_sock ?k ?s)\<lparr>tlsSupported := True, sizeSupported := extension ''SIZE'' h\<rparr>"
  let ?s2 = "with_sock (?k\<lparr>sk_out := sk_out ?k @ ''STARTTLS'' @ CRLF, sk_in := r\<rparr>) ?s1"
  have g: "greet e False ?s = greeted e h (with_sock ?k ?s)"
    by (rule greet_reply [OF assms(9-12)]) (simp_all add: assms(7,8))
  have t: "startTLS e ?s1 = (Inr (), ?s2)"
    unfolding startTLS_def
    by (subst ask_then [OF assms(13), where k = ?k and r = r]) (use assms(7,14) in \<open>simp_all add: ret_def\<close>)
  have "greeted e h (with_sock ?k ?s) =
      after (startTLS e) (\<lambda>_. after (modify (\<lambda>s. s\<lparr>sessionActive := True, isDirty := False\<rparr>)) (\<lambda>_ s.
        if isMXConnection s then addToGreylist e s else (Inr (), s))) ?s1"
    using assms(2,5,15,16) by (simp add: greeted_def Let_def)
  also have "\<dots> = (if isMXConnection ?s2 then addToGreylist e (?s2\<lparr>sessionActive := True, isDirty := False\<rparr>)
      else (Inr (), ?s2\<lparr>sessionActive := True, isDirty := False\<rparr>))"
    using t by (simp add: after_def modify_def)
  finally obtain u where u: "greeted e h (with_sock ?k ?s) = (Inr (), u)" "sessionActive u" "tlsActive u = tlsActive s"
      "tlsaRecords u = TLSALookup e (ss_host s) (ss_port s)" "useTLSA u"
    using assms(2) by (auto simp: addToGreylist_def split: if_splits)
  have "beginSession e False s = (Inr (), u)"
    using assms(1-3,6) g u(1) by (simp add: beginSession_def Let_def with_sock_def)
  then show ?thesis using u(2-5) assms(4,5) by auto
qed

definition dane_env :: client_env where
  "dane_env = mq_env.extend (mta_env.extend (sample_mta [(''b1gmta_host'', ''me'')]) \<lparr>gm_time = (\<lambda>_. [])\<rparr>)
     \<lparr>tcp_connect = (\<lambda>_ _. Inr (sample_sock (sample_reply ''220'' @ ''250 h STARTTLS'' @ CRLF @ sample_reply ''454''))),
      tls_connect = (\<lambda>_ _ _ _. Inl []),
      TLSALookup = (\<lambda>_ _. [\<lparr>tlsa_usage = 3, tlsa_selector = 1, tlsa_matchingType = 1, tlsa_value = ''x''\<rparr>])\<rparr>"

lemma DANE_downgrade_witness:
  "\<exists>t. beginSession dane_env False ((new_SMTPSession ''h'' ''h'' 25 0)\<lparr>useTLSA := True, mxAuthenticated := True\<rparr>) =
     (Inr (), t) \<and> sessionActive t \<and> \<not> tlsActive t \<and> tlsaRecords t \<noteq> [] \<and> useTLSA t"
proof (rule DANE_downgrade)
  let ?s = "(new_SMTPSession ''h'' ''h'' 25 0)\<lparr>useTLSA := True, mxAuthenticated := True\<rparr>"
  let ?h = "''250 h STARTTLS'' @ CRLF"
  show "tcp_connect dane_env (ss_host ?s) (ss_port ?s) =
      Inr (sample_sock (sample_reply ''220'' @ ?h @ sample_reply ''454''))"
    by (simp add: dane_env_def mq_env.defs client_env.defs)
  show "sk_in (sample_sock (sample_reply ''220'' @ ?h @ sample_reply ''454'')) = sample_reply ''220'' @ ?h @ sample_reply ''454'' @ []"
    by (simp add: sample_sock_def)
  show "reply ?h" by (simp add: reply_def)
  show "extension (''STARTTLS'' @ CRLF) ?h" by code_simp
  show "remoteHostName ?h \<noteq> cfg_str dane_env ''b1gmta_host''" by code_simp
  show "TLSALookup dane_env (ss_host ?s) (ss_port ?s) \<noteq> []"
    by (simp add: dane_env_def mq_env.defs client_env.defs)
qed (simp_all add: new_SMTPSession_def sample_sock_def reply_def butlast_append sample_reply_def starts_with_def)

section \<open>Meeting oneself\<close>

lemma ehlo_lines_out: "\<exists>ls. out (ehlo_lines e s) = out s @ ls"
  by (simp add: ehlo_lines_def printf_def Let_def)

lemma SMTP_Helo_answer:
  assumes "scan_str 4 (szLine v) = Some (c, z)" and "scan_str 128 z = Some (h, z')"
  shows "\<exists>ls. out (SMTP_Helo e True v) = out v @ (''250-'' @ cfg_str e ''b1gmta_host'' @ '' Pleased to meet you, '' @
    strPeerHost v @ '' ['' @ strRealPeer v @ '']'' @ CRLF) # ls"
proof -
  let ?l = "''250-'' @ cfg_str e ''b1gmta_host'' @ '' Pleased to meet you, '' @
    strPeerHost v @ '' ['' @ strRealPeer v @ '']'' @ CRLF"
  let ?v = "printf ?l (v\<lparr>strHeloHost := h, iState := SMTP_STATE_EHLO, bEhlo := True,
    bOverrun := bOverrun v \<or> 128 \<le> length h\<rparr>)"
  have h: "SMTP_Helo e True v = ehlo_lines e ?v" using assms by (simp add: SMTP_Helo_def Let_def)
  obtain ls where "out (ehlo_lines e ?v) = out ?v @ ls" using ehlo_lines_out by blast
  then show ?thesis unfolding h by (simp add: printf_def)
qed

lemma remoteHostName_own:
  assumes "CHR '' '' \<notin> set host" and "2 \<le> length host"
  shows "remoteHostName (''250-'' @ host @ CHR '' '' # z) = host"
proof -
  have "takeWhile (\<lambda>c. c \<noteq> CHR '' '') (host @ CHR '' '' # z) = host"
    using assms(1) by (subst takeWhile_append2) auto
  then show ?thesis using assms(2) by (simp add: remoteHostName_def)
qed

text \<open>
  A message cannot circle between the client and the server of one host. When the EHLO of the
  client is answered by a server session of this program under the configured name, which has at
  least two characters and no space, then the client recognises itself: it gives up for good, with
  status 5.4.6, without sending anything further, and the runner bounces the message.
\<close>

theorem SMTP_loop_stops:
  assumes "scan_str 4 (szLine v) = Some (c, z)" and "scan_str 128 z = Some (h, z')"
    and "CHR '' '' \<notin> set (cfg_str e ''b1gmta_host'')" and "2 \<le> length (cfg_str e ''b1gmta_host'')"
    and "cfg_str d ''b1gmta_host'' = cfg_str e ''b1gmta_host''"
    and "r = concat (drop (length (out v)) (out (SMTP_Helo e True v)))"
  shows "\<exists>x. greeted d r s = (Inl (Delivery x), s) \<and> de_errorCode x = QUEUE_STATUS_FATAL_ERROR \<and> de_statusCode x = ''5.4.6''"
proof -
  obtain ls where "out (SMTP_Helo e True v) = out v @ (''250-'' @ cfg_str e ''b1gmta_host'' @ '' Pleased to meet you, '' @
      strPeerHost v @ '' ['' @ strRealPeer v @ '']'' @ CRLF) # ls" using SMTP_Helo_answer [OF assms(1,2)] by blast
  then have "r = ''250-'' @ cfg_str e ''b1gmta_host'' @ CHR '' '' # (''Pleased to meet you, '' @
      strPeerHost v @ '' ['' @ strRealPeer v @ '']'' @ CRLF @ concat ls)" using assms(6) by simp
  then have "remoteHostName r = cfg_str d ''b1gmta_host''" using remoteHostName_own assms(3-5) by metis
  then show ?thesis by (simp add: greeted_def fails_def)
qed

lemma SMTP_loop_stops_witness:
  "\<exists>x t. greeted dane_env (concat (drop (length (out sample_conn))
       (out (SMTP_Helo dane_env True (sample_conn\<lparr>buf := ''EHLO me''\<rparr>))))) (new_SMTPSession ''h'' ''h'' 25 0) =
     (Inl (Delivery x), t) \<and> de_statusCode x = ''5.4.6''"
proof -
  let ?v = "sample_conn\<lparr>buf := ''EHLO me''\<rparr>"
  let ?r = "concat (drop (length (out ?v)) (out (SMTP_Helo dane_env True ?v)))"
  have "\<exists>x. greeted dane_env ?r (new_SMTPSession ''h'' ''h'' 25 0) =
      (Inl (Delivery x), new_SMTPSession ''h'' ''h'' 25 0) \<and> de_errorCode x = QUEUE_STATUS_FATAL_ERROR \<and>
      de_statusCode x = ''5.4.6''"
  proof (rule SMTP_loop_stops)
    show "scan_str 4 (szLine ?v) = Some (''EHLO'', '' me'')" by (simp add: szLine_def cstr_def) code_simp
    show "scan_str 128 '' me'' = Some (''me'', [])" by code_simp
    show "CHR '' '' \<notin> set (cfg_str dane_env ''b1gmta_host'')" "2 \<le> length (cfg_str dane_env ''b1gmta_host'')" by code_simp+
  qed simp_all
  moreover have "out ?v = out sample_conn" by simp
  ultimately show ?thesis by auto
qed

section \<open>A message cut short\<close>

text \<open>
  A message can be delivered in pieces and count as delivered. When the system takes only a
  part of a line, the client stops sending, but it still ends the message with a dot; if that
  gets through, the peer accepts a message whose rest is missing, and the client reports success.
\<close>

theorem SMTP_partial_write_accepted:
  assumes "reply a" "starts_with ''354'' a" and "reply b" "starts_with ''250'' b"
    and "plain_line l" and "hd (l @ CRLF) \<noteq> CHR ''.''" and "0 < n" "n < length (l @ CRLF)"
    and "ss_sock s = Some k" "sk_room k = [None, Some n]" "sk_in k = a @ b @ r"
  shows "\<exists>u. ss_data t (file_text (l # ls)) s = (Inr (), u) \<and>
    sk_out (the (ss_sock u)) = sk_out k @ ''DATA'' @ CRLF @ take n (l @ CRLF) @ CRLF @ ''.'' @ CRLF"
proof -
  let ?s = "s\<lparr>isDirty := True\<rparr>"
  let ?k0 = "k\<lparr>sk_out := sk_out k @ ''DATA'' @ CRLF, sk_room := [Some n]\<rparr>"
  let ?k1 = "?k0\<lparr>sk_in := b @ r\<rparr>"
  let ?k2 = "?k1\<lparr>sk_out := sk_out ?k1 @ take n (l @ CRLF), sk_room := []\<rparr>"
  have "sk_Write (''DATA'' @ CRLF) k = (Wrote 6, ?k0)" using assms(10) by (simp add: sk_Write_def)
  then have "ask (''DATA'' @ CRLF) ?s = readResponse (with_sock ?k0 ?s)"
    using assms(9) by (simp add: ask_def after_def ss_PrintF_def ret_def ss_Write_def with_sock_def)
  then have 1: "ask (''DATA'' @ CRLF) ?s = (Inr a, with_sock ?k1 ?s)"
    using readResponse_reply [OF assms(1), of "with_sock ?k0 ?s" ?k0 "b @ r"] assms(11) by simp
  have c: "cstr (l @ CRLF) = l @ CRLF" using assms(5) by (intro cstr_id) (simp add: plain_line_def)
  have "fgets MAIL_LINEMAX (file_text (l # ls)) = Some (l @ CRLF, file_text ls)"
    using fgets_plain [OF assms(5)] by (simp add: file_text_def)
  moreover have "ss_Write (l @ CRLF) (with_sock ?k1 ?s) = (Inr (int n), with_sock ?k2 ?s)"
    using assms(7,8) by (simp add: ss_Write_def sk_Write_def with_sock_def Let_def)
  ultimately have 2: "send_lines (file_text (l # ls)) (with_sock ?k1 ?s) = (Inr (), with_sock ?k2 ?s)"
    using assms(6,8) by (subst send_lines.simps) (simp add: c sent_plain [OF assms(5)] Let_def)
  have 3: "ask (CRLF @ ''.'' @ CRLF) (with_sock ?k2 ?s) =
      (Inr b, with_sock (?k2\<lparr>sk_out := sk_out ?k2 @ CRLF @ ''.'' @ CRLF, sk_in := r\<rparr>) ?s)"
    using ask_reply [OF assms(3), of "with_sock ?k2 ?s" ?k2 r] by simp
  show ?thesis using 1 2 3 assms(2,4) by (simp add: ss_data_def after_def modify_def with_sock_def)
qed

lemma SMTP_partial_write_accepted_witness:
  "\<exists>u. ss_data 0 (file_text [''hello'', ''world''])
       (with_sock ((sample_sock (sample_reply ''354'' @ sample_reply ''250''))\<lparr>sk_room := [None, Some 2]\<rparr>)
          (new_SMTPSession ''h'' ''h'' 25 0)) = (Inr (), u) \<and>
     sk_out (the (ss_sock u)) = ''DATA'' @ CRLF @ ''he'' @ CRLF @ ''.'' @ CRLF"
  using SMTP_partial_write_accepted [OF sample_replies(3) _ sample_replies(2), of "''hello''" 2
      "with_sock ((sample_sock (sample_reply ''354'' @ sample_reply ''250''))\<lparr>sk_room := [None, Some 2]\<rparr>)
          (new_SMTPSession ''h'' ''h'' 25 0)" _ "[]" 0 "[''world'']"]
  by (simp add: sample_reply_def sample_sock_def starts_with_def plain_line_def)

end
