(* ===== verification/Worker_Correct.thy ===== *)
theory Worker_Correct
  imports Worker MsgQueue_Safe SmtpClient_Correct
begin

text \<open>
  What the workers promise: when a delivery is given up for good, that a worker's run is a step of
  the queue runner, what the shell makes of the commands; and the exception that ends the runner.
\<close>

section \<open>What a delivery leaves alone\<close>

text \<open>Pools may change, and addresses may join the greylist queue.\<close>

definition delivering :: "delivery \<Rightarrow> delivery \<Rightarrow> bool" where
  "delivering d d1 \<longleftrightarrow> (\<exists>as. dl_mq d1 = (dl_mq d)\<lparr>greylistQueue := greylistQueue (dl_mq d) @ as\<rparr>) \<and>
     deliveryRules d1 = deliveryRules d \<and> dl_bQuit d1 = dl_bQuit d"

lemma delivering_refl [simp]: "delivering d d"
  by (auto simp: delivering_def intro: exI [of _ "[]"])

lemma delivering_trans [trans]: "delivering a b \<Longrightarrow> delivering b c \<Longrightarrow> delivering a c"
  by (auto simp: delivering_def)

lemma delivering_pools [simp]:
  "delivering d (d1\<lparr>smtpPool := p\<rparr>) = delivering d d1" "delivering d (d1\<lparr>inboundPool := q\<rparr>) = delivering d d1"
  "delivering (d\<lparr>smtpPool := p\<rparr>) d1 = delivering d d1" "delivering (d\<lparr>inboundPool := q\<rparr>) d1 = delivering d d1"
  by (simp_all add: delivering_def)

lemma delivering_greylist: "delivering d (d\<lparr>dl_mq := AddToGreylist a (dl_mq d)\<rparr>)"
  by (simp add: delivering_def AddToGreylist_def) (rule exI [of _ "[a]"], simp)

lemma delivering_begin: "begin_with e h s d = (x, t, d1) \<Longrightarrow> delivering d d1"
  by (auto simp: begin_with_def delivering_greylist split: prod.splits)

lemma delivering_give_back [simp]: "delivering d (give_back f s d1) = delivering d d1"
  by (simp add: give_back_def split: fault.split)

text \<open>The item of the result stays what it was.\<close>

definition tame :: "work \<Rightarrow> bool" where
  "tame m \<longleftrightarrow> (\<forall>r d x r1 d1. m (r, d) = (x, r1, d1) \<longrightarrow> rs_item r1 = rs_item r \<and> delivering d d1)"

lemma result_item [simp]: "rs_item (success a b r) = rs_item r" "rs_item (point t c r) = rs_item r"
  by (simp_all add: success_def point_def)

lemma tame_sendmail: "tame (DeliverOutboundToSendmail e i p)"
  by (auto simp: tame_def DeliverOutboundToSendmail_def Let_def split: option.splits pexit.splits if_splits)

lemma tame_relay: "tame (DeliverOutboundToSMTPRelay e i rs)"
  by (auto simp: tame_def DeliverOutboundToSMTPRelay_def Let_def split: option.splits prod.splits sum.splits fault.splits if_splits
      dest!: delivering_begin)

lemma connect_mx_delivering: "connect_mx e domain mx l d = (x, l1, d1) \<Longrightarrow> delivering d d1"
proof (induction e domain mx l d rule: connect_mx.induct)
  case (2 e domain host auth mx lastError d)
  then show ?case
    by (auto simp: Let_def split: prod.splits sum.splits fault.splits if_splits dest!: delivering_begin intro: delivering_trans)
qed simp

lemma tame_mx_deliver: "tame (mx_deliver e i s)"
  by (auto simp: tame_def mx_deliver_def mx_dialogue_def Let_def split: option.splits prod.splits sum.splits if_splits)

lemma tame_outbound: "tame (DeliverOutbound e i)"
  using tame_mx_deliver [of e i]
  by (auto simp: tame_def DeliverOutbound_def Let_def split: option.splits prod.splits sum.splits if_splits
      dest!: connect_mx_delivering intro: delivering_trans)

lemma delivering_inbound: "getInboundProcess e d = (p, d1) \<Longrightarrow> delivering d d1"
  by (auto simp: getInboundProcess_def split: list.splits)

lemma tame_inbound: "tame (ProcessInbound e i)"
  by (auto simp: tame_def ProcessInbound_def Let_def split: option.splits prod.splits sum.splits dest!: delivering_inbound)

lemma tame_item: "tame (process_item e i)"
proof -
  have "tame (ProcessRule e i rule)" for rule
    using tame_inbound [of e i] tame_sendmail [of e i] tame_relay [of e i] tame_outbound [of e i]
    by (simp add: tame_def ProcessRule_def)
  moreover have "tame (ProcessOutbound e i)"
    using tame_sendmail [of e i] tame_relay [of e i] tame_outbound [of e i]
    by (simp add: tame_def ProcessOutbound_def Let_def)
  ultimately show ?thesis
    using tame_inbound [of e i] by (auto simp: tame_def process_item_def split: option.splits)
qed

lemma WorkProcessor_tame:
  assumes "WorkProcessor e i d = Some (r, d1)"
  shows "rs_item r = i \<and> delivering d d1"
proof -
  obtain x r0 d0 where w: "process_item e i (initial_result i, d) = (x, r0, d0)" by (metis prod_cases3)
  then have "rs_item r0 = i \<and> delivering d d0"
    using tame_item [of e i] unfolding tame_def initial_result_def by fastforce
  then show ?thesis using assms w by (auto simp: WorkProcessor_def split: sum.splits fault.splits)
qed

lemma greylist_steps: "mq_steps e (s, u) (s\<lparr>greylistQueue := greylistQueue s @ as\<rparr>, u)"
proof (induction as rule: rev_induct)
  case Nil
  then show ?case using mq_steps.refl [of e "(s, u)"] by simp
next
  case (snoc a as)
  have "mq_step e (s\<lparr>greylistQueue := greylistQueue s @ as\<rparr>, u) (s\<lparr>greylistQueue := greylistQueue s @ as @ [a]\<rparr>, u)"
    using mq_step.greylist [of e "s\<lparr>greylistQueue := greylistQueue s @ as\<rparr>" u a] by (simp add: AddToGreylist_def)
  then show ?case using snoc mq_steps.step by fastforce
qed


section \<open>Giving up for good\<close>

definition reason :: "'x deliv_env_scheme \<Rightarrow> MSGQueueItem \<Rightarrow> delivery \<Rightarrow> DeliveryException \<Rightarrow> bool" where
  "reason e i d x \<longleftrightarrow> permanent x \<or>
     (case find_chr (CHR ''@'') (it_to i) of
        None \<Rightarrow> True | Some k \<Rightarrow> MXLookup e (drop (Suc k) (it_to i)) (starts1 e ''outbound_smtp_usednssec'') = []) \<or>
     IsLocalDomain (dl_mq d) (map c_tolower (it_domain i)) \<or> it_type i \<notin> {MESSAGE_INBOUND, MESSAGE_OUTBOUND}"

definition excused :: "'x deliv_env_scheme \<Rightarrow> MSGQueueItem \<Rightarrow> delivery \<Rightarrow> fault \<Rightarrow> bool" where
  "excused e i d f \<longleftrightarrow> (\<forall>x. f = Delivery x \<longrightarrow> de_errorCode x = QUEUE_STATUS_FATAL_ERROR \<longrightarrow> reason e i d x)"

definition ok_result :: "'x deliv_env_scheme \<Rightarrow> MSGQueueItem \<Rightarrow> delivery \<Rightarrow> MSGQueueResult \<Rightarrow>
    (fault + unit) \<times> MSGQueueResult \<times> delivery \<Rightarrow> bool" where
  "ok_result e i d r p \<longleftrightarrow> (case p of
     (Inr _, r1, _) \<Rightarrow> rs_status r \<noteq> QUEUE_STATUS_FATAL_ERROR \<longrightarrow> rs_status r1 \<noteq> QUEUE_STATUS_FATAL_ERROR
   | (Inl f, _, _) \<Rightarrow> excused e i d f)"

definition justified :: "'x deliv_env_scheme \<Rightarrow> MSGQueueItem \<Rightarrow> work \<Rightarrow> bool" where
  "justified e i m \<longleftrightarrow> (\<forall>r d. ok_result e i d r (m (r, d)))"

lemma ok_result_simps [simp]:
  "ok_result e i d r (Inr (), success a b r1, d1)" "ok_result e i d r (Inr (), r, d1)"
  "ok_result e i d r (Inl f, r1, d1) = excused e i d f"
  by (simp_all add: ok_result_def success_def)

lemma excused_simps [simp]:
  "excused e i d (failing h t QUEUE_STATUS_TEMPORARY_ERROR c)" "excused e i d (CoreException m)" "excused e i d NullSocket"
  by (simp_all add: excused_def failing_def)

lemma excused_conditions [simp]:
  "IsLocalDomain (dl_mq d) (map c_tolower (it_domain i)) \<Longrightarrow> excused e i d f"
  "it_type i \<noteq> MESSAGE_INBOUND \<Longrightarrow> it_type i \<noteq> MESSAGE_OUTBOUND \<Longrightarrow> excused e i d f"
  by (simp_all add: excused_def reason_def)

lemma excused_mild: "\<not> fatal f \<Longrightarrow> excused e i d f"
  by (auto simp: excused_def fatal_def)

lemma politeD: "polite m \<Longrightarrow> m s = (Inl f, t) \<Longrightarrow> excused e i d f"
  unfolding polite_def excused_def reason_def by blast

lemma begin_excused: "begin_with e h s d0 = (Inl f, t, d1) \<Longrightarrow> excused e i d f"
  using politeD [OF polite_beginSession, of e h s f] by (auto simp: begin_with_def split: prod.splits)

lemma polite_relay: "polite (relay_dialogue i rs t msg)"
  unfolding relay_dialogue_def
  by (intro polite_after polite_if polite_auth polite_ret polite_rset polite_mailFrom polite_rcptTo polite_data)

lemma justified_sendmail: "justified e i (DeliverOutboundToSendmail e j p)"
  unfolding justified_def DeliverOutboundToSendmail_def Let_def prod.case
  by (simp split: option.split pexit.split)

lemma justified_relay: "justified e i (DeliverOutboundToSMTPRelay e j rs)"
  unfolding justified_def DeliverOutboundToSMTPRelay_def Let_def prod.case
  by (simp split: option.split prod.split sum.split fault.split)
     (blast intro: begin_excused politeD [OF polite_relay])

lemma connect_mx_excused: "connect_mx e domain mx l d0 = (Inl f, l1, d1) \<Longrightarrow> excused e i d f"
proof (induction e domain mx l d0 rule: connect_mx.induct)
  case (2 e domain host auth mx lastError d)
  then show ?case
    by (auto simp: Let_def split: prod.splits sum.splits fault.splits if_splits dest: begin_excused)
qed simp

text \<open>The last failure that the loop keeps was not a final one.\<close>

lemma connect_mx_last:
  "connect_mx e domain mx l d = (Inr s, Some x, d1) \<Longrightarrow> (\<And>y. l = Some y \<Longrightarrow> \<not> fatal (Delivery y)) \<Longrightarrow> \<not> fatal (Delivery x)"
proof (induction e domain mx l d rule: connect_mx.induct)
  case (2 e domain host auth mx lastError d)
  then show ?case
    by (auto simp: Let_def split: prod.splits sum.splits fault.splits if_splits)
qed simp

lemma mx_dialogue_excused: "mx_dialogue i t msg r s = (Inl f, r1, s1) \<Longrightarrow> excused e j d f"
proof -
  have "polite (after ss_rset (\<lambda>_. ss_mailFrom (it_from i) (it_size i)))"
    by (intro polite_after polite_rset polite_mailFrom)
  then show "mx_dialogue i t msg r s = (Inl f, r1, s1) \<Longrightarrow> excused e j d f"
    unfolding mx_dialogue_def
    by (auto split: prod.splits sum.splits intro: politeD politeD [OF polite_rcptTo] politeD [OF polite_data])
qed

lemma mx_deliver_excused: "ok_result e i d r (mx_deliver e j s (r, d1))"
  unfolding mx_deliver_def prod.case
  by (simp split: option.split prod.split sum.split) (blast intro: mx_dialogue_excused)

lemma justified_outbound: "justified e i (DeliverOutbound e i)"
proof -
  have "ok_result e i d r (DeliverOutbound e i (r, d))" for r d
  proof (cases "find_chr (CHR ''@'') (it_to i)")
    case None
    then show ?thesis by (simp add: DeliverOutbound_def excused_def reason_def)
  next
    case (Some k)
    let ?dom = "drop (Suc k) (it_to i)"
    let ?mx = "MXLookup e ?dom (starts1 e ''outbound_smtp_usednssec'')"
    show ?thesis
    proof (cases "?mx = []")
      case True
      then show ?thesis using Some by (simp add: DeliverOutbound_def excused_def reason_def Let_def)
    next
      case False
      obtain x l d1 where c: "connect_mx e ?dom ?mx None d = (x, l, d1)" by (metis prod_cases3)
      show ?thesis
      proof (cases x)
        case (Inl f)
        then show ?thesis using Some False c connect_mx_excused [of e ?dom ?mx None d f l d1]
          by (simp add: DeliverOutbound_def Let_def)
      next
        case (Inr s)
        show ?thesis
        proof (cases s)
          case None
          have "excused e i d (Delivery y)" if "l = Some y" for y
            using connect_mx_last [of e ?dom ?mx None d s y d1] c Inr that by (simp add: excused_mild)
          then show ?thesis using Some False c Inr None by (cases l) (simp_all add: DeliverOutbound_def Let_def)
        next
          case s: (Some t)
          then show ?thesis using Some False c Inr mx_deliver_excused by (simp add: DeliverOutbound_def Let_def)
        qed
      qed
    qed
  qed
  then show ?thesis by (simp add: justified_def)
qed

lemma ip_begin_excused: "ip_beginSession e p = (Inl f, q) \<Longrightarrow> excused e2 i d f"
  by (auto simp: ip_beginSession_def pipe_failing_def Let_def split: if_splits)

lemma ip_deliver_excused: "ip_deliver e t a b m p = (Inl f, q) \<Longrightarrow> excused e2 i d f"
  by (auto simp: ip_deliver_def deliver_kept_def deliver_once_def pipe_failing_def Let_def
      split: if_splits option.splits prod.splits sum.splits pexit.splits bool.splits)

lemma justified_inbound: "justified e i (ProcessInbound e j)"
  unfolding justified_def ProcessInbound_def Let_def prod.case
  by (simp split: option.split prod.split sum.split) (blast intro: ip_begin_excused ip_deliver_excused)

lemma justified_item: "justified e i (process_item e i)"
proof -
  have rule: "justified e i (ProcessRule e i rule)" for rule
    using justified_inbound [of e i i] justified_sendmail [of e i i] justified_relay [of e i i] justified_outbound [of e i]
    unfolding justified_def ProcessRule_def prod.case by (simp split: if_split)
  have "justified e i (ProcessOutbound e i)"
    using justified_sendmail [of e i i] justified_relay [of e i i] justified_outbound [of e i]
    unfolding justified_def ProcessOutbound_def prod.case Let_def by (simp split: if_split)
  then show ?thesis
    using justified_inbound [of e i i] rule
    unfolding justified_def process_item_def prod.case
    by (simp split: option.split if_split)
qed

text \<open>
  No message is given up for good without a reason that can be named. When a worker's result
  is a fatal error, then the answer of the peer began with a 5 and is part of the result, or the
  peer is this host (5.4.6), or the recipient has no at sign, or its domain has no mail server, or
  its domain is one of the own domains, or the item is neither inbound nor outbound. Timeouts,
  broken connections, missing files, failing programs and answers that make no sense only defer
  the message.
\<close>

theorem Worker_fatal_reasons:
  assumes "WorkProcessor e i d = Some (r, d1)" and "rs_status r = QUEUE_STATUS_FATAL_ERROR"
  shows "(\<exists>a. rs_diagnosticCode r = ''smtp; '' @ a \<and> starts_with ''5'' a) \<or> rs_statusCode r = ''5.4.6'' \<or>
    (case find_chr (CHR ''@'') (it_to i) of
       None \<Rightarrow> True | Some k \<Rightarrow> MXLookup e (drop (Suc k) (it_to i)) (starts1 e ''outbound_smtp_usednssec'') = []) \<or>
    IsLocalDomain (dl_mq d) (map c_tolower (it_domain i)) \<or> it_type i \<notin> {MESSAGE_INBOUND, MESSAGE_OUTBOUND}"
proof -
  obtain x r0 d0 where w: "process_item e i (initial_result i, d) = (x, r0, d0)" by (metis prod_cases3)
  have ok: "ok_result e i d (initial_result i) (x, r0, d0)"
    using justified_item [of e i] unfolding justified_def by (metis w)
  show ?thesis
  proof (cases x)
    case (Inr b)
    then have "rs_status r0 \<noteq> QUEUE_STATUS_FATAL_ERROR" using ok by (simp add: ok_result_def initial_result_def)
    then show ?thesis using assms w Inr by (simp add: WorkProcessor_def)
  next
    case (Inl f)
    then obtain y where y: "f = Delivery y" using assms(1) w by (cases f) (simp_all add: WorkProcessor_def)
    then have r: "de_errorCode y = rs_status r" "rs_diagnosticCode r = de_diagnosticCode y" "rs_statusCode r = de_statusCode y"
      using assms(1) w Inl by (auto simp: WorkProcessor_def)
    then have "reason e i d y" using ok Inl y assms(2) by (simp add: excused_def)
    then show ?thesis unfolding reason_def permanent_def r by blast
  qed
qed

section \<open>The shell\<close>

text \<open>
  What the shell makes of a command of plain words and double quotes (POSIX, 2.2.3): inside the
  quotes every character stands for itself but four; \<open>None\<close> for anything that it would expand,
  escape or treat as an operator.
\<close>

definition shell_plain :: "char \<Rightarrow> bool" where
  "shell_plain c \<longleftrightarrow> c \<noteq> DQUOTE \<and> c \<noteq> CHR ''$'' \<and> c \<noteq> CHR 0x60 \<and> c \<noteq> BACKSLASH"

definition bare_char :: "char \<Rightarrow> bool" where
  "bare_char c \<longleftrightarrow> c \<in> set ''abcdefghijklmnopqrstuvwxyzABCDEFGHIJKLMNOPQRSTUVWXYZ0123456789-_./='' "

fun sh_words :: "bool \<Rightarrow> string option \<Rightarrow> string \<Rightarrow> string list option" where
  "sh_words True w [] = None"
| "sh_words False w [] = Some (case w of None \<Rightarrow> [] | Some x \<Rightarrow> [x])"
| "sh_words True w (c # cs) =
     (if c = DQUOTE then sh_words False w cs
      else if shell_plain c then sh_words True (Some (the w @ [c])) cs else None)"
| "sh_words False w (c # cs) =
     (if c = DQUOTE then sh_words True (Some (case w of None \<Rightarrow> [] | Some x \<Rightarrow> x)) cs
      else if c = CHR '' '' then map_option (\<lambda>ws. (case w of None \<Rightarrow> ws | Some x \<Rightarrow> x # ws)) (sh_words False None cs)
      else if bare_char c then sh_words False (Some ((case w of None \<Rightarrow> [] | Some x \<Rightarrow> x) @ [c])) cs
      else None)"

lemma sh_quoted:
  "list_all shell_plain x \<Longrightarrow> sh_words True (Some w) (x @ DQUOTE # r) = sh_words False (Some (w @ x)) r"
  by (induction x arbitrary: w) (auto simp: shell_plain_def)

lemma sh_bare: "list_all bare_char x \<Longrightarrow> sh_words False (Some w) (x @ r) = sh_words False (Some (w @ x)) r"
  by (induction x arbitrary: w) (auto simp: bare_char_def)

lemma sh_arg: "list_all shell_plain x \<Longrightarrow> sh_words False None (DQUOTE # x @ DQUOTE # r) = sh_words False (Some x) r"
  using sh_quoted [of x "[]" r] by simp

lemma sh_dash: "bare_char (CHR ''-'')" "bare_char (CHR ''f'')"
  by (simp_all add: bare_char_def)

text \<open>
  Addresses cannot inject shell commands. As long as the program's path and the two addresses
  contain neither double quotes nor dollar signs, backquotes or backslashes, the shell runs exactly
  that program with the five words of the command: the addresses stay single arguments, whatever
  blanks, semicolons or other characters they have, and the recipient cannot be taken for an option.
\<close>

theorem sendmail_no_injection:
  assumes "list_all shell_plain path" and "list_all shell_plain (it_from i)" and "list_all shell_plain (it_to i)"
  shows "sh_words False None (sendmail_command path i) = Some [path, ''-f'', it_from i, ''--'', it_to i]"
proof -
  have c: "sendmail_command path i = DQUOTE # path @ DQUOTE # CHR '' '' # CHR ''-'' # CHR ''f'' # CHR '' '' #
      DQUOTE # it_from i @ DQUOTE # CHR '' '' # CHR ''-'' # CHR ''-'' # CHR '' '' # DQUOTE # it_to i @ DQUOTE # []"
    by (simp add: sendmail_command_def)
  show ?thesis unfolding c by (simp add: sh_quoted assms sh_dash del: sh_words.simps(3))
qed

lemma sendmail_no_injection_witness:
  "sh_words False None (sendmail_command ''/usr/sbin/sendmail'' ((rs_item (sample_result QUEUE_STATUS_SUCCESS))\<lparr>it_to := ''a b;c@d''\<rparr>)) =
     Some [''/usr/sbin/sendmail'', ''-f'', ''a@b.c'', ''--'', ''a b;c@d'']"
proof -
  let ?i = "(rs_item (sample_result QUEUE_STATUS_SUCCESS))\<lparr>it_to := ''a b;c@d''\<rparr>"
  have "it_from ?i = ''a@b.c''" by code_simp
  moreover have "list_all shell_plain ''/usr/sbin/sendmail''" "list_all shell_plain (it_from ?i)" "list_all shell_plain (it_to ?i)"
    by code_simp+
  ultimately show ?thesis using sendmail_no_injection [of "''/usr/sbin/sendmail''" ?i] by simp
qed

section \<open>Samples\<close>

definition sample_deliv :: deliv_env where
  "sample_deliv = client_env.extend dane_env
     \<lparr>pcre_compiles = (\<lambda>_ _. True), MXLookup = (\<lambda>_ _. []), can_run = (\<lambda>_. True),
      run_process = (\<lambda>_ _ _. Exited 0), pipe_says = (\<lambda>_. []), pipe_runs = (\<lambda>_. True), host_addr = (\<lambda>_. 0)\<rparr>"

definition sample_item :: MSGQueueItem where
  "sample_item = (rs_item (sample_result QUEUE_STATUS_SUCCESS))\<lparr>it_type := 2\<rparr>"

definition sample_delivery :: delivery where
  "sample_delivery =
     \<lparr>dl_mq = \<lparr>mq_world = sample_queue 1, threadPool = new_ThreadPool 1 1, working = [sample_item], results = [],
               greylistQueue = [], localDomains = {}, moreQueueEntries = False\<rparr>,
      smtpPool = [], inboundPool = [], deliveryRules = [], dl_bQuit = False\<rparr>"

lemma sample_worker:
  "\<exists>r. WorkProcessor sample_deliv sample_item sample_delivery = Some (r, sample_delivery) \<and>
     rs_status r = QUEUE_STATUS_FATAL_ERROR \<and> rs_statusCode r = ''5.3.5''"
  by (simp add: WorkProcessor_def process_item_def sample_delivery_def FindMatch_def sample_item_def
      MESSAGE_INBOUND_def MESSAGE_OUTBOUND_def failing_def)


lemma Worker_fatal_reasons_witness:
  "\<exists>r. WorkProcessor sample_deliv sample_item sample_delivery = Some (r, sample_delivery) \<and>
     ((\<exists>a. rs_diagnosticCode r = ''smtp; '' @ a \<and> starts_with ''5'' a) \<or> rs_statusCode r = ''5.4.6'' \<or>
      (case find_chr (CHR ''@'') (it_to sample_item) of
         None \<Rightarrow> True | Some k \<Rightarrow> MXLookup sample_deliv (drop (Suc k) (it_to sample_item))
                          (starts1 sample_deliv ''outbound_smtp_usednssec'') = []) \<or>
      IsLocalDomain (dl_mq sample_delivery) (map c_tolower (it_domain sample_item)) \<or>
      it_type sample_item \<notin> {MESSAGE_INBOUND, MESSAGE_OUTBOUND})"
proof -
  obtain r where "WorkProcessor sample_deliv sample_item sample_delivery = Some (r, sample_delivery)"
      "rs_status r = QUEUE_STATUS_FATAL_ERROR" using sample_worker by blast
  then show ?thesis using Worker_fatal_reasons by blast
qed

section \<open>The exception that nobody catches\<close>

text \<open>
  One peer that stops reading ends the runner. When writing to a pooled session times out, the
  socket throws an exception that is not a delivery exception; neither the delivery nor the worker
  handles it, so the thread ends the whole process. Every message in flight then counts as an
  unexpected termination at the next start.
\<close>

theorem Worker_write_timeout_crashes:
  assumes "FindMatch e (deliveryRules d) i = None" and "it_type i = MESSAGE_OUTBOUND"
    and "\<not> IsLocalDomain (dl_mq d) (map c_tolower (it_domain i))" and "cfg_int e ''outbound_target'' = 2"
    and "find_chr (CHR ''@'') (it_to i) = Some n" and "queue_file e d i = Some msg"
    and "MXLookup e (drop (Suc n) (it_to i)) (starts1 e ''outbound_smtp_usednssec'') \<noteq> []"
    and "smtpPool d = s # pool" "ss_domain s = drop (Suc n) (it_to i)" "sessionActive s" "isDirty s"
    and "ss_sock s = Some k" "sk_room k = Some 0 # ps" "sk_stalls k"
  shows "WorkProcessor e i d = None"
proof -
  let ?dom = "drop (Suc n) (it_to i)" and ?tls = "starts1 e ''outbound_smtp_usetls''"
  obtain h auth mx where mx: "MXLookup e ?dom (starts1 e ''outbound_smtp_usednssec'') = (h, auth) # mx"
    using assms(7) by (metis list.exhaust surj_pair)
  let ?s = "s\<lparr>isMXConnection := True, useTLS := ?tls, useTLSA := ?tls \<and> starts1 e ''outbound_smtp_usedane'',
    mxAuthenticated := auth\<rparr>"
  have "getSMTPSession t ?dom h 25 (smtpPool d) = (s, pool)" for t using assms(8,9) by (simp add: getSMTPSession_def)
  moreover have "begin_with e False ?s d1 = (Inr (), ?s, d1)" for d1
    using assms(10) by (simp add: begin_with_def beginSession_def)
  ultimately have c: "connect_mx e ?dom ((h, auth) # mx) None d = (Inr (Some ?s), None, d\<lparr>smtpPool := pool\<rparr>)"
    by (simp add: Let_def)
  have "ss_PrintF (''RSET'' @ CRLF) ?s = (Inl (CoreException ''Socket write timeout''), ?s\<lparr>ss_sock := Some (k\<lparr>sk_room := ps\<rparr>)\<rparr>)"
    using assms(12-14) by (simp add: ss_PrintF_def after_def ss_Write_def sk_Write_def)
  then have "\<exists>u. after ss_rset (\<lambda>_. ss_mailFrom (it_from i) (it_size i)) ?s = (Inl (CoreException ''Socket write timeout''), u)"
    using assms(11) by (simp add: after_def ss_rset_def ask_def)
  then obtain u where u: "after ss_rset (\<lambda>_. ss_mailFrom (it_from i) (it_size i)) ?s = (Inl (CoreException ''Socket write timeout''), u)"
    by blast
  have f: "queue_file e (d\<lparr>smtpPool := pool\<rparr>) i = Some msg" using assms(6) by (simp add: queue_file_def)
  have "DeliverOutbound e i (r, d) = mx_deliver e i ?s (r, d\<lparr>smtpPool := pool\<rparr>)" for r
    using assms(5) mx c by (simp add: DeliverOutbound_def Let_def del: connect_mx.simps)
  moreover have "\<exists>d1. mx_deliver e i ?s (r, d\<lparr>smtpPool := pool\<rparr>) = (Inl (CoreException ''Socket write timeout''), r, d1)" for r
    using u by (simp add: mx_deliver_def f mx_dialogue_def)
  ultimately obtain d1 where "process_item e i (initial_result i, d) = (Inl (CoreException ''Socket write timeout''), initial_result i, d1)"
    using assms(1-4) by (fastforce simp: process_item_def ProcessOutbound_def Let_def MESSAGE_INBOUND_def MESSAGE_OUTBOUND_def)
  then show ?thesis by (simp add: WorkProcessor_def)
qed

definition relay_env :: deliv_env where
  "relay_env = sample_deliv\<lparr>MXLookup := (\<lambda>_ _. [(''h'', False)]),
     cfg := (\<lambda>k. if k = ''outbound_target'' then Some ''2'' else cfg sample_deliv k)\<rparr>"

definition stuck_session :: smtp_session where
  "stuck_session = (with_sock ((sample_sock [])\<lparr>sk_room := [Some 0], sk_stalls := True\<rparr>) (new_SMTPSession ''y.z'' ''h'' 25 0))
     \<lparr>sessionActive := True\<rparr>"

definition stuck_delivery :: delivery where
  "stuck_delivery = sample_delivery\<lparr>smtpPool := [stuck_session],
     dl_mq := (dl_mq sample_delivery)\<lparr>mq_world := (sample_queue 1)\<lparr>files := (\<lambda>_. Some ''x'')\<rparr>\<rparr>\<rparr>"

lemma Worker_write_timeout_crashes_witness:
  "WorkProcessor relay_env (sample_item\<lparr>it_type := MESSAGE_OUTBOUND\<rparr>) stuck_delivery = None"
proof (rule Worker_write_timeout_crashes)
  let ?i = "sample_item\<lparr>it_type := MESSAGE_OUTBOUND\<rparr>"
  have t: "it_to ?i = ''x@y.z''" by code_simp
  show "find_chr (CHR ''@'') (it_to ?i) = Some 1" unfolding t by simp
  show "ss_domain stuck_session = drop (Suc 1) (it_to ?i)" unfolding t by (simp add: stuck_session_def new_SMTPSession_def with_sock_def)
  show "cfg_int relay_env ''outbound_target'' = 2" by code_simp
  show "sk_room ((sample_sock [])\<lparr>sk_room := [Some 0], sk_stalls := True\<rparr>) = Some 0 # []" by simp
qed (simp_all add: relay_env_def stuck_delivery_def stuck_session_def sample_delivery_def FindMatch_def IsLocalDomain_def
    queue_file_def new_SMTPSession_def with_sock_def)

end
