(* ===== verification/Spf.thy ===== *)
theory Spf
  imports Smtp
begin

text \<open>
  The SPF check (src/smtp/spf.cpp, class SPF): lookup of the record, macro expansion, the
  mechanisms and the recursive evaluation. What the resolver answers is a parameter; the questions
  it is asked are recorded in the order in which they are asked. The recursion is given fuel;
  theory Spf_Correct shows that 22 levels always suffice.
\<close>

definition SPF_LOOKUPLIMIT :: nat where "SPF_LOOKUPLIMIT = 20"

record spf_api =
  lookup_a :: "string \<Rightarrow> byte list list"
  lookup_aaaa :: "string \<Rightarrow> byte list list"
  lookup_mx :: "string \<Rightarrow> string list"       \<comment> \<open>host names of \<open>DNS::MXLookup\<close> without implicit MX\<close>
  lookup_ptr :: "string \<Rightarrow> string list"
  lookup_txt :: "string \<Rightarrow> nat \<Rightarrow> string list"
  spf_net :: net_api
  spf_now :: nat                            \<comment> \<open>\<open>time(NULL)\<close>\<close>

datatype question = QA string | QAAAA string | QMX string | QPTR string | QTXT string nat

record SPF =
  heloDomain :: string
  clientIP :: string
  clientHost :: string
  myDomain :: string
  checkedHosts :: "string list"
  lookupCounter :: nat
  asked :: "question list"

definition new_SPF :: "string \<Rightarrow> string \<Rightarrow> string \<Rightarrow> string \<Rightarrow> SPF" where
  "new_SPF helo ip host mine =
     \<lparr>heloDomain = helo, clientIP = ip, clientHost = host, myDomain = mine,
      checkedHosts = [], lookupCounter = 0, asked = []\<rparr>"

definition query :: "question list \<Rightarrow> SPF \<Rightarrow> SPF" where
  "query qs s = s\<lparr>asked := asked s @ qs\<rparr>"

section \<open>Macros\<close>

text \<open>
  The two digits after \<open>%x\<close>. Whatever else \<open>sscanf("%x")\<close> reads from two characters is a number
  below 16 or negative, which the source rejects like a failure.
\<close>

definition is_hex :: "char \<Rightarrow> bool" where
  "is_hex c \<longleftrightarrow> is_digit c \<or> (97 \<le> code (c_tolower c) \<and> code (c_tolower c) \<le> 102)"

definition hex_digit :: "char \<Rightarrow> nat" where
  "hex_digit c = (if is_digit c then code c - 48 else code (c_tolower c) - 87)"

definition macro_hex :: "char \<Rightarrow> char \<Rightarrow> char option" where
  "macro_hex a b =
     (if is_hex a \<and> is_hex b
      then let n = 16 * hex_digit a + hex_digit b
           in if (0x21 \<le> n \<and> n \<le> 0x24) \<or> (0x26 \<le> n \<and> n \<le> 0x7e) then Some (char_of n) else None
      else None)"

text \<open>\<open>strtok_r\<close>: the non-empty pieces between delimiters.\<close>

fun strtok_loop :: "string \<Rightarrow> string \<Rightarrow> string \<Rightarrow> string list" where
  "strtok_loop ds tmp [] = (if tmp = [] then [] else [tmp])"
| "strtok_loop ds tmp (c # cs) =
     (if c \<in> set ds then (if tmp = [] then [] else [tmp]) @ strtok_loop ds [] cs
      else strtok_loop ds (tmp @ [c]) cs)"

text \<open>What a macro letter stands for; \<open>None\<close> is a syntax error.\<close>

definition macro_value :: "spf_api \<Rightarrow> SPF \<Rightarrow> char \<Rightarrow> string \<Rightarrow> string \<Rightarrow> string \<Rightarrow> bool \<Rightarrow> string option" where
  "macro_value api s m domain ip sender exp =
     (if m = CHR ''s'' then Some sender
      else if m = CHR ''l''
      then Some (case find_chr (CHR ''@'') sender of None \<Rightarrow> sender | Some p \<Rightarrow> take p sender)
      else if m = CHR ''o''
      then Some (case find_chr (CHR ''@'') sender of None \<Rightarrow> sender
                 | Some p \<Rightarrow> if 0 < p then drop (p + 1) sender else [])
      else if m = CHR ''d''
      then Some (if domain \<noteq> [] \<and> last domain = CHR ''.'' then butlast domain else domain)
      else if m = CHR ''i'' then Some ip
      else if m = CHR ''p'' then Some (clientHost s)
      else if m = CHR ''v''
      then Some (if find_chr (CHR '':'') ip \<noteq> None then ''ip6'' else ''in-addr'')
      else if m = CHR ''h'' then Some (heloDomain s)
      else if m = CHR ''c'' then (if exp then Some (clientIP s) else None)
      else if m = CHR ''r'' then (if exp then Some (myDomain s) else None)
      else if m = CHR ''t'' then (if exp then Some (show_nat (spf_now api mod 2 ^ 32)) else None)
      else None)"

record macro_mods =
  numbers :: string
  delimiters :: string
  doReverse :: bool
  doSplit :: bool
  badMods :: bool

text \<open>The characters behind the macro letter, up to the first that is not allowed.\<close>

fun read_mods :: "string \<Rightarrow> macro_mods \<Rightarrow> macro_mods" where
  "read_mods [] m = m"
| "read_mods (c # cs) m =
     (if is_digit c then read_mods cs (m\<lparr>numbers := numbers m @ [c], doSplit := True\<rparr>)
      else if c \<in> set ''.-+,/_='' then read_mods cs (m\<lparr>delimiters := delimiters m @ [c], doSplit := True\<rparr>)
      else if c = CHR ''r'' then read_mods cs (m\<lparr>doReverse := True, doSplit := True\<rparr>)
      else m\<lparr>badMods := True\<rparr>)"

definition no_mods :: macro_mods where
  "no_mods = \<lparr>numbers = [], delimiters = [], doReverse = False, doSplit = False, badMods = False\<rparr>"

text \<open>\<open>sscanf("%u")\<close> of digits: saturated at 64 bits, then the low 32 of them.\<close>

definition scan_u :: "string \<Rightarrow> nat" where
  "scan_u ds = min (digits_val ds) (2 ^ 64 - 1) mod 2 ^ 32"

definition apply_mods :: "macro_mods \<Rightarrow> string \<Rightarrow> string" where
  "apply_mods m v =
     (if \<not> doSplit m then v
      else let items = strtok_loop (if delimiters m = [] then ''.'' else delimiters m) [] (cstr v);
               items = (if doReverse m then rev items else items);
               n = scan_u (numbers m);
               items = (if numbers m \<noteq> [] \<and> 0 < n then drop (length items - min n (length items)) items
                        else items)
           in join (CHR ''.'') items)"

text \<open>
  What stands behind a percent sign: an escape with its text, macro letters, or a broken \<open>%x\<close>;
  the second string is what the loop goes on with. A macro without braces is not skipped, so its
  letter is copied as well.
\<close>

datatype macro = Escape string string | Letters string string | Broken

definition read_macro :: "string \<Rightarrow> macro" where
  "read_macro t =
     (case t of
        [] \<Rightarrow> Letters [] []
      | d # ds \<Rightarrow>
          if d = CHR ''_'' then Escape '' '' ds
          else if d = CHR ''-'' then Escape ''%20'' ds
          else if d = CHR ''%'' then Escape ''%'' ds
          else if d = CHR ''x''
          then (case ds of
                  a # b # es \<Rightarrow> (case macro_hex a b of None \<Rightarrow> Broken | Some h \<Rightarrow> Escape [h] es)
                | _ \<Rightarrow> Letters [] ds)
          else if d = CHR ''{''
          then Letters (takeWhile (\<lambda>c. c \<noteq> CHR ''}'') ds) (drop 1 (dropWhile (\<lambda>c. c \<noteq> CHR ''}'') ds))
          else if d = NUL then Letters [] (d # ds)
          else Letters [d] (d # ds))"

lemma read_macro_length:
  "read_macro t = Escape x r \<Longrightarrow> length r \<le> length t"
  "read_macro t = Letters x r \<Longrightarrow> length r \<le> length t"
  by (auto simp: read_macro_def le_diff_conv split: list.splits if_splits option.splits)
     (meson length_dropWhile_le le_SucI)+

text \<open>
  The loop over the characters; it returns the text and the error flag. The escapes leave the list
  of macro letters empty and so run into the branch that reports a syntax error, but go on until
  the next macro.
\<close>

function expand :: "spf_api \<Rightarrow> SPF \<Rightarrow> string \<Rightarrow> string \<Rightarrow> string \<Rightarrow> bool \<Rightarrow> string \<Rightarrow> string \<Rightarrow> bool \<Rightarrow> string \<times> bool" where
  "expand api s domain ip sender exp [] result err = (result, err)"
| "expand api s domain ip sender exp (c # cs) result err =
     (if c \<noteq> CHR ''%'' then expand api s domain ip sender exp cs (result @ [c]) err
      else case read_macro cs of
             Broken \<Rightarrow> (result, True)
           | Escape t rest \<Rightarrow> expand api s domain ip sender exp rest (result @ t) True
           | Letters letters rest \<Rightarrow>
               (if letters = [] then expand api s domain ip sender exp rest result True
                else case macro_value api s (hd letters) domain ip sender exp of
                       None \<Rightarrow> (result, True)
                     | Some v \<Rightarrow>
                         (if err then (result, True)
                          else let m = read_mods (tl letters) no_mods
                               in expand api s domain ip sender exp rest (result @ apply_mods m v) (badMods m))))"
  by pat_completeness auto

termination
  by (relation "measure (\<lambda>(api, s, domain, ip, sender, exp, t, r, e). length t)")
     (auto dest: read_macro_length)

definition ExpandMacro :: "spf_api \<Rightarrow> SPF \<Rightarrow> string \<Rightarrow> string \<Rightarrow> string \<Rightarrow> string \<Rightarrow> bool \<Rightarrow> string \<times> bool" where
  "ExpandMacro api s t domain ip sender exp = expand api s domain ip sender exp t [] False"

section \<open>Mechanisms\<close>

definition with_dot :: "string \<Rightarrow> string" where
  "with_dot d = (if d \<noteq> [] \<and> last d \<noteq> CHR ''.'' then d @ ''.'' else d)"

definition spf_address :: "spf_api \<Rightarrow> string \<Rightarrow> IPAddress" where
  "spf_address api ip =
     (let a = IPAddress_of_string (spf_net api) ip
      in if isMappedIPv4 (spf_net api) a then mappedIPv4 a else a)"

text \<open>Does a host have the address; the question that this takes.\<close>

definition has_address :: "spf_api \<Rightarrow> IPAddress \<Rightarrow> string \<Rightarrow> bool" where
  "has_address api a host =
     (if isIPv6 a then v6Addr a \<in> set (lookup_aaaa api host) else v4Addr a \<in> set (lookup_a api host))"

definition address_question :: "IPAddress \<Rightarrow> string \<Rightarrow> question" where
  "address_question a host = (if isIPv6 a then QAAAA host else QA host)"

text \<open>Mechanisms that ask the resolver count, and are passed over at the limit.\<close>

definition limited :: "(SPF \<Rightarrow> bool \<times> SPF) \<Rightarrow> SPF \<Rightarrow> bool \<times> SPF" where
  "limited f s =
     (let t = s\<lparr>lookupCounter := lookupCounter s + 1\<rparr>
      in if lookupCounter s < SPF_LOOKUPLIMIT then f t else (False, t))"

definition mechanism_a :: "spf_api \<Rightarrow> IPAddress \<Rightarrow> string \<Rightarrow> string \<Rightarrow> SPF \<Rightarrow> bool \<times> SPF" where
  "mechanism_a api a domain entry s =
     (let d = with_dot (if starts_with ''a:'' entry then drop 2 entry else domain)
      in (has_address api a d, query [address_question a d] s))"

fun first_host :: "spf_api \<Rightarrow> IPAddress \<Rightarrow> string list \<Rightarrow> SPF \<Rightarrow> bool \<times> SPF" where
  "first_host api a [] s = (False, s)"
| "first_host api a (h # hs) s =
     (let t = query [address_question a h] s
      in if has_address api a h then (True, t) else first_host api a hs t)"

definition mechanism_mx :: "spf_api \<Rightarrow> IPAddress \<Rightarrow> string \<Rightarrow> string \<Rightarrow> SPF \<Rightarrow> bool \<times> SPF" where
  "mechanism_mx api a domain entry s =
     (let d = with_dot (if starts_with ''mx:'' entry then drop 3 entry else domain)
      in first_host api a (take 10 (lookup_mx api d)) (query [QMX d] s))"

definition ptr_matches :: "string \<Rightarrow> string \<Rightarrow> bool" where
  "ptr_matches spec host \<longleftrightarrow>
     strcaseeq (cstr host) (cstr spec) \<or>
     (length host > length spec \<and> strcaseeq (cstr (drop (length host - length spec) host)) (cstr spec))"

definition mechanism_ptr ::
  "spf_api \<Rightarrow> IPAddress \<Rightarrow> string \<Rightarrow> string \<Rightarrow> string \<Rightarrow> string \<Rightarrow> SPF \<Rightarrow> bool \<times> SPF" where
  "mechanism_ptr api a domain ip sender entry s =
     (let spec = (if starts_with ''ptr:'' entry
                  then fst (ExpandMacro api s (drop 4 entry) domain ip sender False) else domain);
          spec = (if spec \<noteq> [] \<and> last spec = CHR ''.'' then butlast spec else spec);
          hosts = take 10 (lookup_ptr api ip)
      in (list_ex (ptr_matches spec) (filter (has_address api a) hosts),
          query (QPTR ip # map (address_question a) hosts) s))"

definition mechanism_exists ::
  "spf_api \<Rightarrow> string \<Rightarrow> string \<Rightarrow> string \<Rightarrow> string \<Rightarrow> SPF \<Rightarrow> bool \<times> SPF" where
  "mechanism_exists api domain ip sender entry s =
     (let h = with_dot (fst (ExpandMacro api s (drop 7 entry) domain ip sender False))
      in (lookup_a api h \<noteq> [], query [QA h] s))"

text \<open>What the result of an included record means for the including one: a match and an error.\<close>

definition include_outcome :: "SPFResult \<Rightarrow> bool \<times> SPFResult" where
  "include_outcome r =
     (case r of
        SPF_RESULT_PASS \<Rightarrow> (True, SPF_RESULT_NONE)
      | SPF_RESULT_FAIL \<Rightarrow> (False, SPF_RESULT_NONE)
      | SPF_RESULT_SOFTFAIL \<Rightarrow> (False, SPF_RESULT_NONE)
      | SPF_RESULT_NEUTRAL \<Rightarrow> (False, SPF_RESULT_NONE)
      | SPF_RESULT_TEMPERROR \<Rightarrow> (False, SPF_RESULT_TEMPERROR)
      | _ \<Rightarrow> (False, SPF_RESULT_PERMERROR))"

text \<open>A nested check of a domain for a sender; \<open>None\<close> is fuel that ran out.\<close>

type_synonym nested = "string \<Rightarrow> string \<Rightarrow> SPF \<Rightarrow> (SPFResult \<times> SPF) option"

definition no_error :: "bool \<times> SPF \<Rightarrow> (bool \<times> SPFResult \<times> SPF) option" where
  "no_error r = Some (fst r, SPF_RESULT_NONE, snd r)"

definition EntryMatches ::
  "spf_api \<Rightarrow> nested \<Rightarrow> string \<Rightarrow> string \<Rightarrow> string \<Rightarrow> string \<Rightarrow> SPF \<Rightarrow> (bool \<times> SPFResult \<times> SPF) option" where
  "EntryMatches api check item domain ip sender s =
     (let a = spf_address api ip; entry = map c_tolower item
      in if entry = ''all'' then no_error (True, s)
         else if length entry > 8 \<and> starts_with ''include:'' entry
         then (case ExpandMacro api s (with_dot (drop 8 entry)) domain ip sender False of
                 (newDomain, syntaxError) \<Rightarrow>
                   if syntaxError then Some (False, SPF_RESULT_PERMERROR, s)
                   else map_option (\<lambda>(r, t). (fst (include_outcome r), snd (include_outcome r), t))
                          (check newDomain sender s))
         else if starts_with ''a'' entry then no_error (limited (mechanism_a api a domain entry) s)
         else if starts_with ''mx'' entry then no_error (limited (mechanism_mx api a domain entry) s)
         else if starts_with ''ptr'' entry
         then no_error (limited (mechanism_ptr api a domain ip sender entry) s)
         else if length entry > 4 \<and> starts_with ''ip4:'' entry
         then no_error (\<not> isIPv6 a \<and> matches_subnet (spf_net api) a (drop 4 entry), s)
         else if length entry > 4 \<and> starts_with ''ip6:'' entry
         then no_error (isIPv6 a \<and> matches_subnet (spf_net api) a (drop 4 entry), s)
         else if length entry > 7 \<and> starts_with ''exists:'' entry
         then no_error (limited (mechanism_exists api domain ip sender entry) s)
         else no_error (False, s))"

section \<open>The record\<close>

text \<open>TXT records are type 16, SPF records type 99; the second is asked for if there is no TXT.\<close>

definition LookupRecord :: "spf_api \<Rightarrow> string \<Rightarrow> SPF \<Rightarrow> string option \<times> SPF" where
  "LookupRecord api domain s =
     (let txt = lookup_txt api domain 16
      in if txt \<noteq> [] then (find (starts_with ''v=spf1 '') txt, query [QTXT domain 16] s)
         else (find (starts_with ''v=spf1 '') (lookup_txt api domain 99),
               query [QTXT domain 16, QTXT domain 99] s))"

record evaluation =
  evaluating :: bool
  resultQualifier :: char
  redirectDomain :: string
  expDomain :: string

definition new_evaluation :: evaluation where
  "new_evaluation =
     \<lparr>evaluating = True, resultQualifier = CHR ''?'', redirectDomain = [], expDomain = []\<rparr>"

definition split_qualifier :: "string \<Rightarrow> char \<times> string" where
  "split_qualifier item =
     (if hd item \<in> set ''+-~?'' then (hd item, tl item) else (CHR ''+'', item))"

fun check_items ::
  "spf_api \<Rightarrow> nested \<Rightarrow> string \<Rightarrow> string \<Rightarrow> string \<Rightarrow> string list \<Rightarrow> evaluation \<Rightarrow> SPF
   \<Rightarrow> ((SPFResult + evaluation) \<times> SPF) option" where
  "check_items api check domain ip sender [] v s = Some (Inr v, s)"
| "check_items api check domain ip sender (item # items) v s =
     (if item = ''v=spf1'' then check_items api check domain ip sender items v s
      else if length item > 9 \<and> starts_with ''redirect='' item
      then (case ExpandMacro api s (with_dot (drop 9 item)) domain ip sender False of
              (d, syntaxError) \<Rightarrow>
                if syntaxError then Some (Inl SPF_RESULT_PERMERROR, s)
                else check_items api check domain ip sender items (v\<lparr>redirectDomain := d\<rparr>) s)
      else if length item > 4 \<and> starts_with ''exp='' item
      then (case ExpandMacro api s (with_dot (drop 4 item)) domain ip sender False of
              (d, syntaxError) \<Rightarrow>
                if syntaxError then Some (Inl SPF_RESULT_PERMERROR, s)
                else check_items api check domain ip sender items (v\<lparr>expDomain := d\<rparr>) s)
      else if evaluating v
      then (case split_qualifier item of
              (qualifier, entry) \<Rightarrow>
                (case EntryMatches api check entry domain ip sender s of
                   None \<Rightarrow> None
                 | Some (match, err, t) \<Rightarrow>
                     if err \<noteq> SPF_RESULT_NONE then Some (Inl err, t)
                     else check_items api check domain ip sender items
                            (if match then v\<lparr>resultQualifier := qualifier, evaluating := False\<rparr> else v) t))
      else check_items api check domain ip sender items v s)"

section \<open>The check\<close>

definition qualifier_result :: "char \<Rightarrow> SPFResult" where
  "qualifier_result q =
     (if q = CHR ''+'' then SPF_RESULT_PASS
      else if q = CHR ''-'' then SPF_RESULT_FAIL
      else if q = CHR ''~'' then SPF_RESULT_SOFTFAIL
      else SPF_RESULT_NEUTRAL)"

definition explain :: "spf_api \<Rightarrow> string \<Rightarrow> string \<Rightarrow> string \<Rightarrow> string \<Rightarrow> SPF \<Rightarrow> string \<times> SPF" where
  "explain api expD domain ip sender s =
     (let t = query [QTXT expD 16] s; txt = lookup_txt api expD 16
      in if txt = [] then ([], t)
         else (case ExpandMacro api s (concat txt) domain ip sender True of
                 (x, syntaxError) \<Rightarrow> (if syntaxError then [] else x, t)))"

definition full_sender :: "string \<Rightarrow> string" where
  "full_sender sender =
     (case find_chr (CHR ''@'') sender of
        None \<Rightarrow> ''postmaster@'' @ sender
      | Some p \<Rightarrow> if p = 0 then ''postmaster'' @ sender else sender)"

text \<open>The evaluation of a record once it has been found, up to the redirection.\<close>

definition evaluate ::
  "spf_api \<Rightarrow> nested \<Rightarrow> bool \<Rightarrow> string \<Rightarrow> string \<Rightarrow> string \<Rightarrow> string \<Rightarrow> SPF
   \<Rightarrow> (SPFResult \<times> string \<times> SPF) option" where
  "evaluate api check initial ip domain sender rec s =
     (case check_items api check domain ip sender (ExplodeOutsideOfQuotation rec (CHR '' '') False)
             new_evaluation s of
        None \<Rightarrow> None
      | Some (Inl r, t) \<Rightarrow> Some (r, [], t)
      | Some (Inr v, t) \<Rightarrow>
          if SPF_LOOKUPLIMIT \<le> lookupCounter t then Some (SPF_RESULT_PERMERROR, [], t)
          else if evaluating v \<and> redirectDomain v \<noteq> []
          then map_option (\<lambda>(r, u). (r, [], u)) (check (redirectDomain v) sender t)
          else if initial \<and> resultQualifier v = CHR ''-'' \<and> expDomain v \<noteq> []
          then (case explain api (expDomain v) domain ip sender t of
                  (x, u) \<Rightarrow> Some (qualifier_result (resultQualifier v), x, u))
          else Some (qualifier_result (resultQualifier v), [], t))"

definition enter :: "bool \<Rightarrow> SPF \<Rightarrow> SPF" where
  "enter initial s =
     (if initial then s\<lparr>lookupCounter := 0, checkedHosts := []\<rparr>
      else s\<lparr>lookupCounter := lookupCounter s + 1\<rparr>)"

definition was_checked :: "string \<Rightarrow> SPF \<Rightarrow> bool" where
  "was_checked domain s \<longleftrightarrow> list_ex (\<lambda>h. strcaseeq (cstr h) (cstr domain)) (checkedHosts s)"

definition check_step ::
  "spf_api \<Rightarrow> nested \<Rightarrow> bool \<Rightarrow> string \<Rightarrow> string \<Rightarrow> string \<Rightarrow> SPF \<Rightarrow> (SPFResult \<times> string \<times> SPF) option" where
  "check_step api check initial ip domain sender s0 =
     (let s1 = enter initial s0; s = s1\<lparr>checkedHosts := checkedHosts s1 @ [domain]\<rparr>
      in if was_checked domain s1 then Some (SPF_RESULT_PERMERROR, [], s1)
         else if lookupCounter s > SPF_LOOKUPLIMIT then Some (SPF_RESULT_PERMERROR, [], s)
         else if length domain > 63 \<or> domain = [] \<or> last domain \<noteq> CHR ''.''
         then Some (SPF_RESULT_NONE, [], s)
         else case LookupRecord api domain s of
                (None, t) \<Rightarrow> Some (SPF_RESULT_NONE, [], t)
              | (Some rec, t) \<Rightarrow> evaluate api check initial ip domain (full_sender sender) rec t)"

fun CheckHost ::
  "spf_api \<Rightarrow> nat \<Rightarrow> bool \<Rightarrow> string \<Rightarrow> string \<Rightarrow> string \<Rightarrow> SPF \<Rightarrow> (SPFResult \<times> string \<times> SPF) option" where
  "CheckHost api 0 initial ip domain sender s = None"
| "CheckHost api (Suc n) initial ip domain sender s =
     check_step api
       (\<lambda>d f t. map_option (\<lambda>(r, x, u). (r, u)) (CheckHost api n False ip d f t))
       initial ip domain sender s"

declare CheckHost.simps [simp del]

text \<open>The check as the SMTP server calls it (\<open>mail_spf\<close> in theory Smtp), for its environment.\<close>

definition spf_check_code ::
  "spf_api \<Rightarrow> string \<Rightarrow> string \<Rightarrow> string \<Rightarrow> string \<Rightarrow> string \<Rightarrow> string \<Rightarrow> SPFResult \<times> string" where
  "spf_check_code api mine helo ip host domain sender =
     (case CheckHost api 22 True ip domain sender (new_SPF helo ip host mine) of
        None \<Rightarrow> (SPF_RESULT_NONE, [])
      | Some (r, x, _) \<Rightarrow> (r, x))"

end
