(* ===== verification/Spf_Correct.thy ===== *)
theory Spf_Correct
  imports Spf
begin

text \<open>
  The recursion of the SPF check ends after at most 22 levels, however the records of other
  domains refer to each other, and asks the resolver a bounded number of questions; what the
  result of a record is; and where macro expansion and the test for loops go wrong.
\<close>

section \<open>Counting questions\<close>

text \<open>
  A part of the check never takes back from the counter, and every step of the counter below the
  limit pays for at most eleven questions.
\<close>

definition spends :: "SPF \<Rightarrow> SPF \<Rightarrow> bool" where
  "spends s u \<longleftrightarrow> lookupCounter s \<le> lookupCounter u \<and>
     length (asked u) + 11 * min (lookupCounter s) 20 \<le> length (asked s) + 11 * min (lookupCounter u) 20"

lemma spends_refl [simp]: "spends s s"
  by (simp add: spends_def)

lemma spends_trans: "spends s t \<Longrightarrow> spends t u \<Longrightarrow> spends s u"
  by (auto simp: spends_def)

text \<open>A nested check that can be relied on when it starts at a counter of at least \<open>k\<close>.\<close>

definition fine :: "nat \<Rightarrow> nested \<Rightarrow> bool" where
  "fine k check \<longleftrightarrow> (\<forall>d f t. k \<le> lookupCounter t \<longrightarrow> (\<exists>r u. check d f t = Some (r, u) \<and> spends t u))"

lemma fineD: "fine k check \<Longrightarrow> k \<le> lookupCounter t \<Longrightarrow> \<exists>r u. check d f t = Some (r, u) \<and> spends t u"
  by (simp add: fine_def)

lemma query_simps [simp]:
  "lookupCounter (query qs s) = lookupCounter s" "asked (query qs s) = asked s @ qs"
  "checkedHosts (query qs s) = checkedHosts s"
  by (simp_all add: query_def)

lemma limited_spends:
  assumes "\<And>t. lookupCounter (snd (f t)) = lookupCounter t" and "\<And>t. length (asked (snd (f t))) \<le> length (asked t) + 11"
  shows "spends s (snd (limited f s))"
  using assms(1) [of "s\<lparr>lookupCounter := Suc (lookupCounter s)\<rparr>"] assms(2) [of "s\<lparr>lookupCounter := Suc (lookupCounter s)\<rparr>"]
  by (auto simp: limited_def spends_def SPF_LOOKUPLIMIT_def Let_def min_def)

lemma first_host_counts:
  "lookupCounter (snd (first_host api a hs s)) = lookupCounter s \<and>
   length (asked (snd (first_host api a hs s))) \<le> length (asked s) + length hs"
proof (induction hs arbitrary: s)
  case (Cons h hs)
  from Cons.IH [of "query [address_question a h] s"] show ?case by (simp add: Let_def)
qed simp

lemma mechanism_spends:
  "spends s (snd (limited (mechanism_a api a domain e) s))"
  "spends s (snd (limited (mechanism_mx api a domain e) s))"
  "spends s (snd (limited (mechanism_ptr api a domain ip sender e) s))"
  "spends s (snd (limited (mechanism_exists api domain ip sender e) s))"
proof -
  have m: "length (asked (snd (first_host api a (take 10 hs) (query [q] t)))) \<le> length (asked t) + 11" for hs q t
    using first_host_counts [of api a "take 10 hs" "query [q] t"] by auto
  show "spends s (snd (limited (mechanism_a api a domain e) s))"
    by (rule limited_spends) (simp_all add: mechanism_a_def Let_def)
  show "spends s (snd (limited (mechanism_mx api a domain e) s))"
    by (rule limited_spends) (simp_all add: mechanism_mx_def Let_def first_host_counts m)
  show "spends s (snd (limited (mechanism_ptr api a domain ip sender e) s))"
    by (rule limited_spends) (simp_all add: mechanism_ptr_def Let_def)
  show "spends s (snd (limited (mechanism_exists api domain ip sender e) s))"
    by (rule limited_spends) (simp_all add: mechanism_exists_def Let_def)
qed

text \<open>A result whose state comes last, after steps that count as above.\<close>

definition answers :: "SPF \<Rightarrow> (bool \<times> SPFResult \<times> SPF) option \<Rightarrow> bool" where
  "answers s x \<longleftrightarrow> (\<exists>m e u. x = Some (m, e, u) \<and> spends s u)"

lemma answers_intros:
  "spends s (snd r) \<Longrightarrow> answers s (no_error r)"
  "spends s u \<Longrightarrow> answers s (Some (m, e, u))"
  "answers s x \<Longrightarrow> answers s y \<Longrightarrow> answers s (if b then x else y)"
  "fine k check \<Longrightarrow> k \<le> lookupCounter s \<Longrightarrow>
     answers s (map_option (\<lambda>p. (g (fst p), h (fst p), snd p)) (check d f s))"
  by (auto simp: answers_def no_error_def dest: fineD [where d = d and f = f and t = s])

lemma EntryMatches_fine:
  assumes "fine k check" and "k \<le> lookupCounter s"
  shows "answers s (EntryMatches api check item domain ip sender s)"
  unfolding EntryMatches_def Let_def split_beta
  by (intro answers_intros(1-3) answers_intros(4) [OF assms] mechanism_spends) simp_all

lemma check_items_fine:
  assumes "fine k check" and "k \<le> lookupCounter s"
  shows "\<exists>r u. check_items api check domain ip sender items v s = Some (r, u) \<and> spends s u"
  using assms(2)
proof (induction items arbitrary: v s)
  case (Cons item items)
  obtain m e u where m: "EntryMatches api check (snd (split_qualifier item)) domain ip sender s = Some (m, e, u)"
    and u: "spends s u"
    using EntryMatches_fine [OF assms(1) Cons.prems] unfolding answers_def by blast
  then have "k \<le> lookupCounter u" using Cons.prems by (simp add: spends_def)
  from Cons.IH [OF this] u have "\<exists>r x. check_items api check domain ip sender items w u = Some (r, x) \<and> spends s x" for w
    using spends_trans by blast
  with Cons.IH [OF Cons.prems] m u show ?case
    by (simp add: split_beta)
qed simp


lemma evaluate_fine:
  assumes "fine k check" and "k \<le> lookupCounter s"
  shows "\<exists>r x u. evaluate api check initial ip domain sender rec s = Some (r, x, u) \<and>
           lookupCounter s \<le> lookupCounter u \<and>
           (if initial then length (asked u) + 11 * min (lookupCounter s) 20
                             \<le> length (asked s) + 11 * min (lookupCounter u) 20 + 1
            else spends s u)"
proof -
  let ?items = "ExplodeOutsideOfQuotation rec (CHR '' '') False"
  obtain w t where w: "check_items api check domain ip sender ?items new_evaluation s = Some (w, t)"
    and t: "spends s t"
    using check_items_fine [OF assms] by blast
  show ?thesis
  proof (cases w)
    case (Inl r)
    with w t show ?thesis by (simp add: evaluate_def spends_def)
  next
    case (Inr v)
    have "k \<le> lookupCounter t" using t assms(2) by (simp add: spends_def)
    from fineD [OF assms(1) this, of "redirectDomain v" sender] obtain r u
      where "check (redirectDomain v) sender t = Some (r, u)" and "spends t u" by blast
    moreover from this t have "spends s u" by (blast intro: spends_trans)
    ultimately show ?thesis
      using w Inr t by (auto simp: evaluate_def explain_def Let_def spends_def split_beta)
  qed
qed

lemma LookupRecord_counts:
  "lookupCounter (snd (LookupRecord api d s)) = lookupCounter s \<and> length (asked (snd (LookupRecord api d s))) \<le> length (asked s) + 2"
  by (simp add: LookupRecord_def Let_def)


section \<open>The recursion ends\<close>

definition nested_check :: "spf_api \<Rightarrow> string \<Rightarrow> nat \<Rightarrow> nested" where
  "nested_check api ip n = (\<lambda>d f t. map_option (\<lambda>(r, x, u). (r, u)) (CheckHost api n False ip d f t))"

lemma CheckHost_Suc: "CheckHost api (Suc n) initial ip = check_step api (nested_check api ip n) initial ip"
  by (intro ext) (simp add: CheckHost.simps nested_check_def)

lemma check_step_fine:
  assumes "lookupCounter s < 20 \<Longrightarrow> fine (lookupCounter s + 1) check"
  shows "\<exists>r x u. check_step api check False ip domain sender s = Some (r, x, u) \<and> spends s u"
proof -
  let ?s1 = "enter False s"
  let ?s = "?s1\<lparr>checkedHosts := checkedHosts ?s1 @ [domain]\<rparr>"
  have e: "spends s ?s1" "spends s ?s" by (auto simp: enter_def spends_def min_def)
  show ?thesis
  proof (cases "was_checked domain ?s1 \<or> SPF_LOOKUPLIMIT < lookupCounter ?s \<or> length domain > 63 \<or> domain = [] \<or> last domain \<noteq> CHR ''.''")
    case True
    with e show ?thesis by (auto simp: check_step_def Let_def)
  next
    case False
    then have c: "lookupCounter s < 20" by (simp add: enter_def SPF_LOOKUPLIMIT_def)
    obtain y t where t: "LookupRecord api domain ?s = (y, t)" by fastforce
    have st: "spends s t" and tc: "lookupCounter s + 1 \<le> lookupCounter t"
      using LookupRecord_counts [of api domain ?s] c unfolding t by (auto simp: enter_def spends_def)
    show ?thesis
    proof (cases y)
      case None
      with False t st show ?thesis by (simp add: check_step_def Let_def)
    next
      case (Some rec)
      from evaluate_fine [OF assms [OF c] tc, of api False ip domain "full_sender sender" rec]
      obtain r x u where "evaluate api check False ip domain (full_sender sender) rec t = Some (r, x, u)" "spends t u"
        by auto
      with False t Some st show ?thesis by (auto simp: check_step_def Let_def intro: spends_trans)
    qed
  qed
qed

lemma nested_check_fine: "21 \<le> k + n \<Longrightarrow> 1 \<le> n \<Longrightarrow> fine k (nested_check api ip n)"
proof (induction n arbitrary: k)
  case (Suc n)
  show ?case unfolding fine_def
  proof (intro allI impI)
    fix d f and t :: SPF
    assume k: "k \<le> lookupCounter t"
    have "fine (lookupCounter t + 1) (nested_check api ip n)" if "lookupCounter t < 20"
      using Suc k that by simp
    from check_step_fine [OF this, of api ip d f] obtain r x u
      where "check_step api (nested_check api ip n) False ip d f t = Some (r, x, u)" "spends t u" by blast
    then show "\<exists>r u. nested_check api ip (Suc n) d f t = Some (r, u) \<and> spends t u"
      by (simp add: nested_check_def CheckHost_Suc)
  qed
qed simp

lemma CheckHost_fine:
  assumes "22 \<le> n" and "asked s = []"
  shows "\<exists>r x u. CheckHost api n True ip domain sender s = Some (r, x, u) \<and> length (asked u) \<le> 223"
proof -
  from assms(1) obtain m where n: "n = Suc m" and m: "21 \<le> m" by (cases n) auto
  have f: "fine 0 (nested_check api ip m)" using m by (intro nested_check_fine) simp_all
  let ?s1 = "enter True s"
  let ?s = "?s1\<lparr>checkedHosts := checkedHosts ?s1 @ [domain]\<rparr>"
  have e: "asked ?s1 = []" "lookupCounter ?s1 = 0" "\<not> was_checked domain ?s1"
    using assms(2) by (simp_all add: enter_def was_checked_def)
  obtain y t where t: "LookupRecord api domain ?s = (y, t)" by fastforce
  have st: "length (asked t) \<le> 2" "lookupCounter t = 0"
    using LookupRecord_counts [of api domain ?s] e unfolding t by auto
  show ?thesis
  proof (cases y)
    case None
    with e t st n show ?thesis by (auto simp: CheckHost_Suc check_step_def Let_def SPF_LOOKUPLIMIT_def)
  next
    case (Some rec)
    from evaluate_fine [OF f le0, of api True ip domain "full_sender sender" rec t]
    obtain r x u where "evaluate api (nested_check api ip m) True ip domain (full_sender sender) rec t = Some (r, x, u)"
      and "length (asked u) \<le> length (asked t) + 11 * min (lookupCounter u) 20 + 1" by auto
    moreover from this(2) st have "length (asked u) \<le> 223" by linarith
    ultimately show ?thesis using e t Some n by (auto simp: CheckHost_Suc check_step_def Let_def SPF_LOOKUPLIMIT_def)
  qed
qed


text \<open>More fuel does not change a result.\<close>

definition below :: "nested \<Rightarrow> nested \<Rightarrow> bool" where
  "below c c' \<longleftrightarrow> (\<forall>d f t v. c d f t = Some v \<longrightarrow> c' d f t = Some v)"

definition agrees :: "'a option \<Rightarrow> 'a option \<Rightarrow> bool" where
  "agrees x y \<longleftrightarrow> (\<forall>v. x = Some v \<longrightarrow> y = Some v)"

lemma agrees_intros:
  "agrees x x"
  "agrees x x' \<Longrightarrow> agrees y y' \<Longrightarrow> agrees (if b then x else y) (if b then x' else y')"
  "below c c' \<Longrightarrow> agrees (map_option g (c d f t)) (map_option g (c' d f t))"
  "agrees z z' \<Longrightarrow> (\<And>a. agrees (k a) (k' a)) \<Longrightarrow>
     agrees (case z of None \<Rightarrow> None | Some a \<Rightarrow> k a) (case z' of None \<Rightarrow> None | Some a \<Rightarrow> k' a)"
  by (auto simp: agrees_def below_def split: option.splits)

lemma EntryMatches_below:
  "below c c' \<Longrightarrow> agrees (EntryMatches api c item domain ip sender s) (EntryMatches api c' item domain ip sender s)"
  unfolding EntryMatches_def Let_def split_beta by (intro agrees_intros)

lemma check_items_below:
  assumes "below c c'"
  shows "agrees (check_items api c domain ip sender items w s) (check_items api c' domain ip sender items w s)"
proof (induction items arbitrary: w s)
  case (Cons item items)
  show ?case unfolding check_items.simps split_beta
    by (intro agrees_intros EntryMatches_below assms Cons.IH)
qed (simp add: agrees_def)

lemma evaluate_below:
  assumes "below c c'" and "evaluate api c initial ip domain sender rec s = Some v"
  shows "evaluate api c' initial ip domain sender rec s = Some v"
proof -
  let ?items = "ExplodeOutsideOfQuotation rec (CHR '' '') False"
  obtain w t where w: "check_items api c domain ip sender ?items new_evaluation s = Some (w, t)"
    using assms(2) by (auto simp: evaluate_def split: option.splits)
  with check_items_below [OF assms(1)]
  have "check_items api c' domain ip sender ?items new_evaluation s = Some (w, t)"
    unfolding agrees_def by blast
  with w assms show ?thesis
    by (auto simp: evaluate_def below_def split: sum.splits if_splits)
qed

lemma CheckHost_below:
  "CheckHost api n initial ip domain sender s = Some v \<Longrightarrow> CheckHost api (n + k) initial ip domain sender s = Some v"
proof (induction n arbitrary: initial domain sender s v)
  case (Suc n)
  have "below (nested_check api ip n) (nested_check api ip (n + k))"
    using Suc.IH by (force simp: below_def nested_check_def)
  with Suc.prems show ?case
    by (auto simp: CheckHost_Suc check_step_def Let_def evaluate_below split: if_splits prod.splits option.splits)
qed (simp add: CheckHost.simps)

text \<open>
  C35: the SPF check always ends. Whatever the records of the involved domains say, and however
  they include and redirect to each other, 22 levels of recursion are enough, and with more the
  result is the same.
\<close>

theorem SPF_ends:
  assumes "22 \<le> n"
  shows "CheckHost api n True ip domain sender (new_SPF helo cip host mine) =
           CheckHost api 22 True ip domain sender (new_SPF helo cip host mine) \<and>
         CheckHost api 22 True ip domain sender (new_SPF helo cip host mine) \<noteq> None"
proof -
  obtain v where v: "CheckHost api 22 True ip domain sender (new_SPF helo cip host mine) = Some v"
    using CheckHost_fine [of 22 "new_SPF helo cip host mine" api ip domain sender]
    by (auto simp: new_SPF_def)
  with CheckHost_below [OF v, of "n - 22"] assms show ?thesis by simp
qed

text \<open>
  C37: one SPF check asks the resolver at most 223 questions, and this bound does not depend on
  the records, which a stranger can write: the limit of 20 counts nested checks and mechanisms
  together, and each of them asks at most eleven questions.
\<close>

theorem SPF_questions_bounded:
  "CheckHost api 22 True ip domain sender (new_SPF helo cip host mine) = Some (r, x, u) \<Longrightarrow>
   length (asked u) \<le> 223"
  using CheckHost_fine [of 22 "new_SPF helo cip host mine" api ip domain sender]
  by (auto simp: new_SPF_def)


section \<open>What a record means\<close>

text \<open>
  The part of the language that needs no questions: \<open>all\<close> and network addresses. Such a record
  means the qualifier of its first item that holds.
\<close>

definition entry_of :: "string \<Rightarrow> string" where
  "entry_of item = map c_tolower (snd (split_qualifier item))"

definition net_item :: "string \<Rightarrow> bool" where
  "net_item item \<longleftrightarrow>
     \<not> starts_with ''redirect='' item \<and> \<not> starts_with ''exp='' item \<and>
     (entry_of item = ''all'' \<or>
      length (entry_of item) > 4 \<and> (starts_with ''ip4:'' (entry_of item) \<or> starts_with ''ip6:'' (entry_of item)))"

definition net_holds :: "spf_api \<Rightarrow> string \<Rightarrow> string \<Rightarrow> bool" where
  "net_holds api ip item \<longleftrightarrow>
     (let a = spf_address api ip; entry = entry_of item
      in entry = ''all'' \<or>
         (isIPv6 a = starts_with ''ip6:'' entry \<and> matches_subnet (spf_net api) a (drop 4 entry)))"

definition first_match :: "spf_api \<Rightarrow> string \<Rightarrow> string list \<Rightarrow> SPFResult" where
  "first_match api ip items =
     (case find (net_holds api ip) items of
        None \<Rightarrow> SPF_RESULT_NEUTRAL
      | Some item \<Rightarrow> qualifier_result (fst (split_qualifier item)))"

lemma starts_with_ip:
  "starts_with ''ip4:'' e \<Longrightarrow>
     \<not> starts_with ''include:'' e \<and> \<not> starts_with ''a'' e \<and> \<not> starts_with ''mx'' e \<and> \<not> starts_with ''ptr'' e \<and>
     \<not> starts_with ''ip6:'' e \<and> e \<noteq> ''all''"
  "starts_with ''ip6:'' e \<Longrightarrow>
     \<not> starts_with ''include:'' e \<and> \<not> starts_with ''a'' e \<and> \<not> starts_with ''mx'' e \<and> \<not> starts_with ''ptr'' e \<and>
     \<not> starts_with ''ip4:'' e \<and> e \<noteq> ''all''"
  by (cases e rule: list.exhaust; cases "tl e"; cases "tl (tl e)"; simp add: starts_with_def; fail)+

lemma new_evaluation_simps [simp]:
  "evaluating new_evaluation" "resultQualifier new_evaluation = CHR ''?''"
  "redirectDomain new_evaluation = []" "expDomain new_evaluation = []"
  by (simp_all add: new_evaluation_def)

lemma EntryMatches_net:
  assumes "net_item item"
  shows "EntryMatches api check (snd (split_qualifier item)) domain ip sender s = no_error (net_holds api ip item, s)"
proof -
  let ?e = "entry_of item"
  have e: "map c_tolower (snd (split_qualifier item)) = ?e" by (simp add: entry_of_def)
  have l: "length ?e = length (snd (split_qualifier item))" by (simp add: entry_of_def)
  from assms consider "?e = ''all''" | "length ?e > 4" "starts_with ''ip4:'' ?e" | "length ?e > 4" "starts_with ''ip6:'' ?e"
    unfolding net_item_def by blast
  then show ?thesis
  proof cases
    case 1
    then show ?thesis by (simp add: EntryMatches_def e net_holds_def Let_def)
  next
    case 2
    with starts_with_ip(1) [OF 2(2)] show ?thesis
      by (simp add: EntryMatches_def e net_holds_def Let_def)
  next
    case 3
    with starts_with_ip(2) [OF 3(2)] show ?thesis
      by (simp add: EntryMatches_def e net_holds_def Let_def)
  qed
qed

lemma check_items_net:
  assumes "\<forall>i \<in> set items. i = ''v=spf1'' \<or> net_item i" and "redirectDomain v = []"
  shows "\<exists>w. check_items api check domain ip sender items v s = Some (Inr w, s) \<and>
           redirectDomain w = [] \<and> expDomain w = expDomain v \<and>
           resultQualifier w =
             (if evaluating v
              then (case find (net_holds api ip) (filter (\<lambda>i. i \<noteq> ''v=spf1'') items) of
                      None \<Rightarrow> resultQualifier v | Some i \<Rightarrow> fst (split_qualifier i))
              else resultQualifier v)"
  using assms
proof (induction items arbitrary: v)
  case (Cons item items)
  show ?case
  proof (cases "item = ''v=spf1''")
    case True
    with Cons.IH [of v] Cons.prems show ?thesis by (cases "evaluating v") simp_all
  next
    case False
    with Cons.prems have n: "net_item item" "\<not> starts_with ''redirect='' item" "\<not> starts_with ''exp='' item"
      by (simp_all add: net_item_def)
    have step: "check_items api check domain ip sender (item # items) v s =
      check_items api check domain ip sender items
        (if evaluating v \<and> net_holds api ip item
         then v\<lparr>resultQualifier := fst (split_qualifier item), evaluating := False\<rparr> else v) s"
      using n False EntryMatches_net [OF n(1)] by (simp add: split_beta no_error_def)
    show ?thesis
      unfolding step using Cons.IH [of v]
        Cons.IH [of "v\<lparr>resultQualifier := fst (split_qualifier item), evaluating := False\<rparr>"] Cons.prems False
      by auto
  qed
qed simp



section \<open>Who passes\<close>

text \<open>Items that can neither let anybody pass nor hand the decision to another domain.\<close>

definition grudging :: "string \<Rightarrow> bool" where
  "grudging item \<longleftrightarrow>
     item = ''v=spf1'' \<or>
     (\<not> starts_with ''redirect='' item \<and>
      (starts_with ''exp='' item \<and> length item > 4 \<or> fst (split_qualifier item) \<noteq> CHR ''+''))"

lemma include_error: "snd (include_outcome r) \<noteq> SPF_RESULT_PASS"
  by (simp add: include_outcome_def split: SPFResult.split)

definition never_pass_error :: "(bool \<times> SPFResult \<times> SPF) option \<Rightarrow> bool" where
  "never_pass_error x \<longleftrightarrow> (\<forall>m e u. x = Some (m, e, u) \<longrightarrow> e \<noteq> SPF_RESULT_PASS)"

lemma never_pass_error_intros:
  "never_pass_error (no_error r)"
  "never_pass_error (Some (False, SPF_RESULT_PERMERROR, s))"
  "never_pass_error x \<Longrightarrow> never_pass_error y \<Longrightarrow> never_pass_error (if b then x else y)"
  "never_pass_error (map_option (\<lambda>p. (fst (include_outcome (fst p)), snd (include_outcome (fst p)), snd p)) z)"
  by (auto simp: never_pass_error_def no_error_def include_error)

lemma EntryMatches_error: "EntryMatches api check item domain ip sender s = Some (m, e, u) \<Longrightarrow> e \<noteq> SPF_RESULT_PASS"
proof -
  have "never_pass_error (EntryMatches api check item domain ip sender s)"
    unfolding EntryMatches_def Let_def split_beta by (intro never_pass_error_intros)
  then show "EntryMatches api check item domain ip sender s = Some (m, e, u) \<Longrightarrow> ?thesis"
    by (simp add: never_pass_error_def)
qed

lemma check_items_grudging:
  assumes "\<forall>i \<in> set items. grudging i" and "redirectDomain v = []" and "resultQualifier v \<noteq> CHR ''+''"
    and "check_items api check domain ip sender items v s = Some (r, u)"
  shows "r \<noteq> Inl SPF_RESULT_PASS \<and> (\<forall>w. r = Inr w \<longrightarrow> redirectDomain w = [] \<and> resultQualifier w \<noteq> CHR ''+'')"
  using assms
proof (induction items arbitrary: v s)
  case (Cons item items)
  note prems = Cons.prems(2-4) and g = Cons.prems(1)
  let ?ok = "r \<noteq> Inl SPF_RESULT_PASS \<and> (\<forall>w. r = Inr w \<longrightarrow> redirectDomain w = [] \<and> resultQualifier w \<noteq> CHR ''+'')"
  have ih: ?ok if "check_items api check domain ip sender items w t = Some (r, u)"
    and "redirectDomain w = []" and "resultQualifier w \<noteq> CHR ''+''" for w t
    using g by (intro Cons.IH [OF _ that(2,3,1)]) simp
  have r: "\<not> starts_with ''redirect='' item \<or> item = ''v=spf1''"
    using g by (auto simp: grudging_def)
  consider "item = ''v=spf1''" | "item \<noteq> ''v=spf1''" "starts_with ''exp='' item \<and> length item > 4"
    | "item \<noteq> ''v=spf1''" "\<not> (starts_with ''exp='' item \<and> length item > 4)" by blast
  then show ?case
  proof cases
    case 1
    with prems ih [of v s] show ?thesis by simp
  next
    case 2
    let ?x = "ExpandMacro api s (with_dot (drop 4 item)) domain ip sender False"
    from 2 r prems ih [of "v\<lparr>expDomain := fst ?x\<rparr>" s] show ?thesis
      by (cases "snd ?x") (auto simp: split_beta)
  next
    case 3
    with r have ne: "\<not> (4 < length item \<and> starts_with ''exp='' item)"
      "\<not> (9 < length item \<and> starts_with ''redirect='' item)" by auto
    note step = check_items.simps(2) if_not_P [OF 3(1)] if_not_P [OF ne(1)] if_not_P [OF ne(2)]
    from 3 g have q: "fst (split_qualifier item) \<noteq> CHR ''+''" by (auto simp: grudging_def)
    show ?thesis
    proof (cases "evaluating v")
      case False
      with prems(1,2) prems(3) [unfolded step] ih [of v s] show ?thesis by simp
    next
      case True
      with prems(3) [unfolded step] obtain m e t
        where m: "EntryMatches api check (snd (split_qualifier item)) domain ip sender s = Some (m, e, t)"
        by (auto simp: split_beta split: option.splits)
      let ?w = "if m then v\<lparr>resultQualifier := fst (split_qualifier item), evaluating := False\<rparr> else v"
      have x: "(if e \<noteq> SPF_RESULT_NONE then Some (Inl e, t)
          else check_items api check domain ip sender items ?w t) = Some (r, u)"
        using prems(3) [unfolded step] True m
        by (cases m; cases "e = SPF_RESULT_NONE") (simp_all add: split_beta)
      show ?thesis
      proof (cases "e = SPF_RESULT_NONE")
        case True
        with x have "check_items api check domain ip sender items ?w t = Some (r, u)" by simp
        then show ?thesis by (rule ih) (use prems q in simp_all)
      next
        case False
        with x EntryMatches_error [OF m] show ?thesis by auto
      qed
    qed
  qed
qed auto

lemma LookupRecord_Some:
  "LookupRecord api d s = (Some rec, t) \<Longrightarrow> rec \<in> set (lookup_txt api d 16) \<union> set (lookup_txt api d 99)"
  by (auto simp: LookupRecord_def Let_def find_Some_iff split: if_splits)



section \<open>Macros and loops\<close>

lemma expand_plain:
  "CHR ''%'' \<notin> set t \<Longrightarrow> expand api s domain ip sender exp (t @ r) res err = expand api s domain ip sender exp r (res @ t) err"
  by (induction t arbitrary: res) auto

text \<open>Text without percent signs stays as it is.\<close>

lemma ExpandMacro_plain: "CHR ''%'' \<notin> set t \<Longrightarrow> ExpandMacro api s t domain ip sender exp = (t, False)"
  using expand_plain [of t api s domain ip sender exp "[]" "[]" False] by (simp add: ExpandMacro_def)

lemma expand_error: "snd (expand api s domain ip sender exp t res True)"
  by (induction api s domain ip sender exp t res "True" rule: expand.induct)
     (auto simp: Let_def split: macro.split option.split)

text \<open>
  The escapes of the macro language do not work. A percent sign, a blank or an encoded blank
  can only be written as an escape, but the first escape in a text makes the expansion report a
  syntax error: for an include or a redirection this is a permanent error of the whole check.
\<close>

theorem SPF_escape_rejected:
  assumes "CHR ''%'' \<notin> set a" and "c \<in> set ''%_-''"
  shows "snd (ExpandMacro api s (a @ CHR ''%'' # c # b) domain ip sender exp)"
  using assms expand_plain [OF assms(1), of api s domain ip sender exp "CHR ''%'' # c # b" "[]" False]
  by (auto simp: ExpandMacro_def read_macro_def expand_error)


lemma new_SPF_simps [simp]:
  "lookupCounter (new_SPF h i c m) = 0" "checkedHosts (new_SPF h i c m) = []"
  "enter True (new_SPF h i c m) = new_SPF h i c m"
  by (simp_all add: new_SPF_def enter_def)

declare check_items.simps(2) [simp del]

lemma version_item:
  "check_items api check domain ip sender (''v=spf1'' # items) v s = check_items api check domain ip sender items v s"
  by (simp add: check_items.simps(2))

text \<open>The two items of the next example, and the nested check of its included domain.\<close>

lemma EntryMatches_include_b:
  "EntryMatches api check ''include:b.'' domain ip sender s =
     map_option (\<lambda>p. (fst (include_outcome (fst p)), snd (include_outcome (fst p)), snd p)) (check ''b.'' sender s)"
proof -
  have "map c_tolower ''include:b.'' = ''include:b.''" "starts_with ''include:'' ''include:b.''"
    "with_dot (drop 8 ''include:b.'') = ''b.''" by code_simp+
  moreover have "ExpandMacro api s ''b.'' domain ip sender False = (''b.'', False)"
    by (rule ExpandMacro_plain) simp
  ultimately show ?thesis by (simp add: EntryMatches_def Let_def case_prod_unfold)
qed

lemma EntryMatches_all: "EntryMatches api check ''all'' domain ip sender s = no_error (True, s)"
proof -
  have "map c_tolower ''all'' = ''all''" by code_simp
  then show ?thesis by (simp add: EntryMatches_def)
qed

lemma all_item:
  "q \<in> set ''+-~?'' \<Longrightarrow> evaluating v \<Longrightarrow>
   check_items api check domain ip sender ((q # ''all'') # items) v s =
     check_items api check domain ip sender items (v\<lparr>resultQualifier := q, evaluating := False\<rparr>) s"
  by (simp add: check_items.simps(2) split_qualifier_def EntryMatches_all no_error_def)

lemma include_item:
  "evaluating v \<Longrightarrow> check ''b.'' sender s = Some (r, u) \<Longrightarrow>
   check_items api check domain ip sender (''include:b.'' # items) v s =
     (if snd (include_outcome r) \<noteq> SPF_RESULT_NONE then Some (Inl (snd (include_outcome r)), u)
      else check_items api check domain ip sender items
             (if fst (include_outcome r) then v\<lparr>resultQualifier := CHR ''+'', evaluating := False\<rparr> else v) u)"
  by (simp add: check_items.simps(2) starts_with_def split_qualifier_def EntryMatches_include_b)

lemma nested_unchecked:
  assumes "lookup_txt api ''b.'' 16 = [''v=spf1 ?all'']" and "lookupCounter t < 18" and "\<not> was_checked ''b.'' t"
  shows "\<exists>u. nested_check api ip (Suc n) ''b.'' f t = Some (SPF_RESULT_NEUTRAL, u) \<and>
    lookupCounter u = lookupCounter t + 1 \<and> checkedHosts u = checkedHosts t @ [''b.'']"
proof -
  have x: "ExplodeOutsideOfQuotation ''v=spf1 ?all'' (CHR '' '') False = [''v=spf1'', ''?all'']" by code_simp
  have w: "\<not> was_checked ''b.'' (enter False t)" using assms(3) by (simp add: was_checked_def enter_def)
  have s: "starts_with ''v=spf1 '' ''v=spf1 ?all''" by code_simp
  show ?thesis
    using assms(1,2) w s
    by (simp add: nested_check_def CheckHost_Suc check_step_def Let_def LookupRecord_def evaluate_def x
        version_item all_item enter_def SPF_LOOKUPLIMIT_def qualifier_result_def)
qed

lemma nested_checked:
  assumes "was_checked d t"
  shows "nested_check api ip (Suc n) d f t = Some (SPF_RESULT_PERMERROR, enter False t)"
proof -
  have "was_checked d (enter False t)" using assms by (simp add: was_checked_def enter_def)
  then show ?thesis by (simp add: nested_check_def CheckHost_Suc check_step_def)
qed

text \<open>
  A record may not mention a domain twice. The list of checked domains is never shortened, so
  the second include of a domain, which is no loop, is taken for one and makes the whole check a
  permanent error, where a single include leads to Fail.
\<close>

theorem SPF_repeated_include:
  assumes b: "lookup_txt api ''b.'' 16 = [''v=spf1 ?all'']"
    and a: "lookup_txt api ''a.'' 16 = [''v=spf1 include:b. include:b. -all'']"
    and c: "lookup_txt api ''c.'' 16 = [''v=spf1 include:b. -all'']"
  shows "fst (spf_check_code api mine helo ip host ''a.'' sender) = SPF_RESULT_PERMERROR \<and>
         fst (spf_check_code api mine helo ip host ''c.'' sender) = SPF_RESULT_FAIL"
proof -
  let ?new = "new_SPF helo ip host mine"
  let ?start = "\<lambda>d. query [QTXT d 16] (?new\<lparr>checkedHosts := [d]\<rparr>)"
  let ?check = "nested_check api ip 21"
  have n: "CheckHost api 22 True ip = check_step api ?check True ip"
    using CheckHost_Suc [of api 21 True ip] by simp
  have x: "ExplodeOutsideOfQuotation ''v=spf1 include:b. include:b. -all'' (CHR '' '') False
             = [''v=spf1'', ''include:b.'', ''include:b.'', ''-all'']"
    "ExplodeOutsideOfQuotation ''v=spf1 include:b. -all'' (CHR '' '') False
             = [''v=spf1'', ''include:b.'', ''-all'']" by code_simp+
  have w: "starts_with ''v=spf1 '' ''v=spf1 include:b. include:b. -all''"
    "starts_with ''v=spf1 '' ''v=spf1 include:b. -all''" by code_simp+
  have i: "snd (include_outcome SPF_RESULT_NEUTRAL) = SPF_RESULT_NONE" "\<not> fst (include_outcome SPF_RESULT_NEUTRAL)"
    "snd (include_outcome SPF_RESULT_PERMERROR) = SPF_RESULT_PERMERROR" by (simp_all add: include_outcome_def)
  have first: "\<exists>u. ?check ''b.'' f (?start d) = Some (SPF_RESULT_NEUTRAL, u) \<and> lookupCounter u = 1 \<and>
      checkedHosts u = [d, ''b.'']" if "d = ''a.'' \<or> d = ''c.''" for d f
  proof -
    have "\<not> was_checked ''b.'' (?start ''a.'')" "\<not> was_checked ''b.'' (?start ''c.'')"
      by (simp_all add: was_checked_def strcaseeq_def c_tolower_def is_upper_def code_def)
    with that nested_unchecked [OF b, of "?start d" ip 20 f, simplified] show ?thesis by auto
  qed
  have step: "check_step api ?check True ip d sender ?new =
      evaluate api ?check True ip d (full_sender sender) rec (?start d)"
    if "d = ''a.'' \<or> d = ''c.''" and "lookup_txt api d 16 = [rec]" and "starts_with ''v=spf1 '' rec" for d rec
    using that by (auto simp: check_step_def Let_def was_checked_def LookupRecord_def SPF_LOOKUPLIMIT_def)
  obtain u where u: "?check ''b.'' (full_sender sender) (?start ''a.'') = Some (SPF_RESULT_NEUTRAL, u)"
    and "checkedHosts u = [''a.'', ''b.'']" using first [of "''a.''" "full_sender sender"] by auto
  then have "was_checked ''b.'' u" by (simp add: was_checked_def)
  then have v: "?check ''b.'' (full_sender sender) u = Some (SPF_RESULT_PERMERROR, enter False u)"
    using nested_checked [of "''b.''" u api ip 20] by simp
  have A: "fst (spf_check_code api mine helo ip host ''a.'' sender) = SPF_RESULT_PERMERROR"
    unfolding spf_check_code_def n step [OF disjI1 [OF refl] a w(1)]
    by (simp add: evaluate_def x version_item include_item u v i)
  obtain u' where u': "?check ''b.'' (full_sender sender) (?start ''c.'') = Some (SPF_RESULT_NEUTRAL, u')"
    and "lookupCounter u' = 1" "checkedHosts u' = [''c.'', ''b.'']" using first [of "''c.''" "full_sender sender"] by auto
  then have "fst (spf_check_code api mine helo ip host ''c.'' sender) = SPF_RESULT_FAIL"
    unfolding spf_check_code_def n step [OF disjI2 [OF refl] c w(2)]
    by (simp add: evaluate_def x version_item include_item all_item u' i SPF_LOOKUPLIMIT_def qualifier_result_def)
  with A show ?thesis ..
qed


section \<open>Witnesses\<close>

definition sample_spf :: spf_api where
  "sample_spf =
     \<lparr>lookup_a = (\<lambda>_. []), lookup_aaaa = (\<lambda>_. []), lookup_mx = (\<lambda>_. []), lookup_ptr = (\<lambda>_. []),
      lookup_txt = (\<lambda>d n. if n \<noteq> 16 then []
                    else if d = ''a.'' then [''v=spf1 include:b. include:b. -all'']
                    else if d = ''b.'' then [''v=spf1 ?all'']
                    else if d = ''c.'' then [''v=spf1 include:b. -all''] else []),
      spf_net = sample_api, spf_now = 0\<rparr>"

theorem SPF_ends_witness:
  "CheckHost sample_spf 30 True ''127.0.0.1'' ''a.'' ''u@a'' (new_SPF ''h'' ''127.0.0.1'' ''h'' ''m'') =
   CheckHost sample_spf 22 True ''127.0.0.1'' ''a.'' ''u@a'' (new_SPF ''h'' ''127.0.0.1'' ''h'' ''m'')"
  using SPF_ends [of 30] by simp



theorem SPF_escape_rejected_witness:
  "snd (ExpandMacro sample_spf (new_SPF ''h'' ''1'' ''h'' ''m'') ''a%%b.'' ''a.'' ''1'' ''u@a'' False)"
  using SPF_escape_rejected [of "''a''" "CHR ''%''" sample_spf "new_SPF ''h'' ''1'' ''h'' ''m''" "''b.''" "''a.''" "''1''" "''u@a''" False]
  by simp

theorem SPF_repeated_include_witness:
  "fst (spf_check_code sample_spf ''m'' ''h'' ''127.0.0.1'' ''h'' ''a.'' ''u@a'') = SPF_RESULT_PERMERROR"
  using SPF_repeated_include [of sample_spf "''m''" "''h''" "''127.0.0.1''" "''h''" "''u@a''"]
  by (simp add: sample_spf_def)

theorem SPF_questions_bounded_witness:
  "\<exists>r x u. CheckHost sample_spf 22 True ''127.0.0.1'' ''x'' ''u@a'' (new_SPF ''h'' ''127.0.0.1'' ''h'' ''m'') = Some (r, x, u) \<and>
     length (asked u) \<le> 223"
proof -
  let ?c = "CheckHost sample_spf 22 True ''127.0.0.1'' ''x'' ''u@a'' (new_SPF ''h'' ''127.0.0.1'' ''h'' ''m'')"
  have "?c = check_step sample_spf (nested_check sample_spf ''127.0.0.1'' 21) True ''127.0.0.1'' ''x'' ''u@a''
      (new_SPF ''h'' ''127.0.0.1'' ''h'' ''m'')"
    using CheckHost_Suc [of sample_spf 21 True "''127.0.0.1''"] by simp
  then obtain r x u where "?c = Some (r, x, u)"
    by (simp add: check_step_def Let_def was_checked_def SPF_LOOKUPLIMIT_def)
  with SPF_questions_bounded [OF this] show ?thesis by blast
qed

end
