(* ===== verification/Dns.thy ===== *)
theory Dns
  imports Spf SmtpClient
begin

text \<open>
  Name resolution (src/core/dns.cpp, the Unix half): the lookups, the parsers of resolver answers
  and the order of mail servers. The resolver library is a parameter: \<open>res_nquery\<close>, which fills a
  buffer of 4096 bytes, \<open>dn_expand\<close>, \<open>getaddrinfo\<close>, \<open>gethostbyname_r\<close> and \<open>rand\<close>. The
  parsers work on the whole buffer; reading outside of it is the value \<open>None\<close>.
\<close>

definition DNS_BUFFERSIZE :: nat where "DNS_BUFFERSIZE = 4096"
definition DNS_HFIXEDSZ :: nat where "DNS_HFIXEDSZ = 12"
definition DNS_QFIXEDSZ :: nat where "DNS_QFIXEDSZ = 4"
definition DNS_RRFIXEDSZ :: nat where "DNS_RRFIXEDSZ = 10"

abbreviation "ns_c_in \<equiv> 1 :: nat"
abbreviation "ns_t_ptr \<equiv> 12 :: nat"
abbreviation "ns_t_mx \<equiv> 15 :: nat"
abbreviation "ns_t_txt \<equiv> 16 :: nat"
abbreviation "NS_T_TLSA \<equiv> 52 :: nat"

record resolver =
  res_nquery :: "string \<Rightarrow> nat \<Rightarrow> bool \<Rightarrow> int \<times> byte list"  \<comment> \<open>name, type, DNSSEC; length, buffer\<close>
  dn_expand :: "byte list \<Rightarrow> nat \<Rightarrow> nat \<Rightarrow> (nat \<times> string) option"   \<comment> \<open>buffer, length, position\<close>
  getaddrinfo4 :: "string \<Rightarrow> byte list list"      \<comment> \<open>the IPv4 addresses, [] on failure\<close>
  getaddrinfo6 :: "string \<Rightarrow> byte list list"
  hostent :: "string \<Rightarrow> (string \<times> string list) option"    \<comment> \<open>canonical name, aliases\<close>
  rand_at :: "nat \<Rightarrow> int"                          \<comment> \<open>successive values of \<open>rand\<close>\<close>

section \<open>Addresses\<close>

fun add_new :: "'a list \<Rightarrow> 'a list \<Rightarrow> 'a list" where
  "add_new found [] = found"
| "add_new found (a # rest) = add_new (if a \<in> set found then found else found @ [a]) rest"

definition ALookup :: "resolver \<Rightarrow> string \<Rightarrow> byte list list" where
  "ALookup d name = add_new [] (getaddrinfo4 d name)"

definition AAALookup :: "resolver \<Rightarrow> string \<Rightarrow> byte list list" where
  "AAALookup d name = add_new [] (getaddrinfo6 d name)"

section \<open>Answers\<close>

text \<open>Two bytes in network order.\<close>

definition rd16 :: "byte list \<Rightarrow> nat \<Rightarrow> nat" where
  "rd16 b i = 256 * unat (b ! i) + unat (b ! (i + 1))"

definition ad_flag :: "byte list \<Rightarrow> bool" where
  "ad_flag b \<longleftrightarrow> bit (b ! 3) 5"

text \<open>
  The part that the four parsers share. Header and question: the number of answers and the
  position of the first. Then the loop over the answers; \<open>take_rr\<close> is what a parser does with the
  data of a record of its type, at a position and with a length.
\<close>

definition answers_start :: "resolver \<Rightarrow> byte list \<Rightarrow> nat \<Rightarrow> (nat \<times> nat) option" where
  "answers_start d b len =
     (if len < DNS_HFIXEDSZ then None
      else if rd16 b 4 \<noteq> 1 then None
      else if rd16 b 6 = 0 then None
      else case dn_expand d b len DNS_HFIXEDSZ of
             None \<Rightarrow> None
           | Some (dnLen, _) \<Rightarrow>
               if DNS_HFIXEDSZ + dnLen + DNS_QFIXEDSZ > len then None
               else Some (rd16 b 6, DNS_HFIXEDSZ + dnLen + DNS_QFIXEDSZ))"

datatype 'r taken =
    Took "'r list" bool      \<comment> \<open>records to append, and whether all is well\<close>
  | Stop bool                \<comment> \<open>leave the loop\<close>
  | Overrun                  \<comment> \<open>a read outside the buffer\<close>

fun walk :: "resolver \<Rightarrow> (nat \<Rightarrow> nat \<Rightarrow> 'r taken) \<Rightarrow> nat \<Rightarrow> byte list \<Rightarrow> nat \<Rightarrow> nat \<Rightarrow> nat \<Rightarrow> 'r list \<Rightarrow> bool
    \<Rightarrow> (bool \<times> 'r list) option" where
  "walk d take_rr type b len 0 ptr found ok = Some (ok, found)"
| "walk d take_rr type b len (Suc n) ptr found ok =
     (case dn_expand d b len ptr of
        None \<Rightarrow> Some (ok, found)
      | Some (dnLen, _) \<Rightarrow>
          let p = ptr + dnLen
          in if p + DNS_RRFIXEDSZ > len then Some (False, found)
             else let rrType = rd16 b p; rrClass = rd16 b (p + 2); rrLen = rd16 b (p + 8);
                      q = p + DNS_RRFIXEDSZ
                  in if rrClass = ns_c_in \<and> rrType = type
                     then (case take_rr q rrLen of
                             Took rs good \<Rightarrow> walk d take_rr type b len n (q + rrLen) (found @ rs) (ok \<and> good)
                           | Stop good \<Rightarrow> Some (ok \<and> good, found)
                           | Overrun \<Rightarrow> None)
                     else walk d take_rr type b len n (q + rrLen) found ok)"

definition parse_answer ::
  "resolver \<Rightarrow> (nat \<Rightarrow> nat \<Rightarrow> 'r taken) \<Rightarrow> nat \<Rightarrow> byte list \<Rightarrow> nat \<Rightarrow> (bool \<times> 'r list) option" where
  "parse_answer d take_rr type b len =
     (case answers_start d b len of
        None \<Rightarrow> Some (False, [])
      | Some (n, ptr) \<Rightarrow> walk d take_rr type b len n ptr [] True)"

section \<open>MX\<close>

record MXServer =
  Hostname :: string
  Preference :: int
  RandomValue :: int
  Authenticated :: bool

definition take_mx :: "resolver \<Rightarrow> byte list \<Rightarrow> nat \<Rightarrow> bool \<Rightarrow> nat \<Rightarrow> nat \<Rightarrow> (string \<times> int \<times> bool) taken" where
  "take_mx d b len ad p rrLen =
     (if rrLen < 2 then Stop False
      else case dn_expand d b len (p + 2) of
             None \<Rightarrow> Stop True
           | Some (_, host) \<Rightarrow>
               if p + 2 > length b then Overrun
               else Took [(host, int (rd16 b p), ad)] True)"

definition ParseMXAnswer :: "resolver \<Rightarrow> byte list \<Rightarrow> nat \<Rightarrow> bool \<Rightarrow> (bool \<times> (string \<times> int \<times> bool) list) option" where
  "ParseMXAnswer d b len useDNSSEC =
     parse_answer d (take_mx d b len (useDNSSEC \<and> ad_flag b)) ns_t_mx b len"

text \<open>\<open>rand\<close> is called once per server, in the order of the answer.\<close>

definition with_rand :: "resolver \<Rightarrow> (string \<times> int \<times> bool) list \<Rightarrow> MXServer list" where
  "with_rand d hs =
     map (\<lambda>(i, h, p, a). \<lparr>Hostname = h, Preference = p, RandomValue = rand_at d i, Authenticated = a\<rparr>)
       (enumerate 0 hs)"

definition MXServerSort :: "MXServer \<Rightarrow> MXServer \<Rightarrow> bool" where
  "MXServerSort a b \<longleftrightarrow>
     (if Preference a = Preference b then RandomValue a < RandomValue b else Preference a < Preference b)"

text \<open>The servers of one query: \<open>None\<close> if the answer is too big.\<close>

definition mx_query :: "resolver \<Rightarrow> string \<Rightarrow> bool \<Rightarrow> (string \<times> int \<times> bool) list option" where
  "mx_query d name dnssec =
     (case res_nquery d name ns_t_mx dnssec of
        (n, b) \<Rightarrow>
          if n > int DNS_BUFFERSIZE then None
          else if n > 0
          then Some (case ParseMXAnswer d b (nat n) dnssec of None \<Rightarrow> [] | Some (_, found) \<Rightarrow> found)
          else Some [])"

definition canonical :: "resolver \<Rightarrow> string \<Rightarrow> string option" where
  "canonical d name = (case hostent d name of Some (h, _ # _) \<Rightarrow> Some h | _ \<Rightarrow> None)"

definition sort_mx :: "MXServer list \<Rightarrow> MXServer list" where
  "sort_mx = sort_key (\<lambda>m. (Preference m, RandomValue m))"

definition MXLookup :: "resolver \<Rightarrow> string \<Rightarrow> bool \<Rightarrow> bool \<Rightarrow> MXServer list" where
  "MXLookup d domain implicit useDNSSEC =
     (case mx_query d domain useDNSSEC of
        None \<Rightarrow> []
      | Some first \<Rightarrow>
          let cname = (if first = [] \<and> implicit then canonical d domain else None);
              name = (case cname of Some h \<Rightarrow> h | None \<Rightarrow> domain)
          in case (if cname = None then Some first else mx_query d name useDNSSEC) of
               None \<Rightarrow> []
             | Some found \<Rightarrow>
                 sort_mx (with_rand d (if found = [] \<and> implicit then [(name, 10, useDNSSEC)] else found)))"

section \<open>TXT, PTR and TLSA\<close>

text \<open>The character strings of a TXT record: appended until one reaches over the end.\<close>

function txt_strings :: "byte list \<Rightarrow> nat \<Rightarrow> nat \<Rightarrow> string \<Rightarrow> (string \<times> bool) option" where
  "txt_strings b p e acc =
     (if \<not> p < e then Some (acc, True)
      else if \<not> p < length b then None
      else let n = unat (b ! p)
           in if p + 1 + n > e then Some (acc, False)
              else if p + 1 + n > length b then None
              else txt_strings b (p + 1 + n) e (acc @ map char_of_byte (take n (drop (p + 1) b))))"
  by pat_completeness auto

termination
  by (relation "measure (\<lambda>(b, p, e, acc). e - p)") auto

declare txt_strings.simps [simp del]

definition take_txt :: "byte list \<Rightarrow> nat \<Rightarrow> nat \<Rightarrow> string taken" where
  "take_txt b p rrLen =
     (case txt_strings b p (p + rrLen) [] of
        None \<Rightarrow> Overrun
      | Some (t, good) \<Rightarrow> Took (if t = [] then [] else [t]) good)"

definition ParseTXTAnswer :: "resolver \<Rightarrow> byte list \<Rightarrow> nat \<Rightarrow> nat \<Rightarrow> (bool \<times> string list) option" where
  "ParseTXTAnswer d b len type = parse_answer d (take_txt b) type b len"

text \<open>The texts, none unless the whole answer is well formed. An overrun is undefined; here it is no text.\<close>

definition TXTLookup :: "resolver \<Rightarrow> string \<Rightarrow> nat \<Rightarrow> string list" where
  "TXTLookup d domain type =
     (case res_nquery d domain type False of
        (n, b) \<Rightarrow>
          if n \<le> 0 \<or> n > int DNS_BUFFERSIZE then []
          else case ParseTXTAnswer d b (nat n) type of Some (True, found) \<Rightarrow> found | _ \<Rightarrow> [])"

definition take_ptr :: "resolver \<Rightarrow> byte list \<Rightarrow> nat \<Rightarrow> nat \<Rightarrow> nat \<Rightarrow> string taken" where
  "take_ptr d b len p rrLen =
     (if rrLen < 2 then Stop False
      else case dn_expand d b len p of None \<Rightarrow> Stop True | Some (_, host) \<Rightarrow> Took [host] True)"

definition ParsePTRAnswer :: "resolver \<Rightarrow> byte list \<Rightarrow> nat \<Rightarrow> (bool \<times> string list) option" where
  "ParsePTRAnswer d b len = parse_answer d (take_ptr d b len) ns_t_ptr b len"

definition PTRLookup :: "resolver \<Rightarrow> net_api \<Rightarrow> string \<Rightarrow> string list" where
  "PTRLookup d api ip =
     (let a = IPAddress_of_string api ip;
          domain = toReversedString a @ (if isIPv6 a then ''.ip6.arpa.'' else ''.in-addr.arpa.'')
      in case res_nquery d domain ns_t_ptr False of
           (n, b) \<Rightarrow>
             if n > int DNS_BUFFERSIZE \<or> n \<le> 0 then []
             else case ParsePTRAnswer d b (nat n) of None \<Rightarrow> [] | Some (_, found) \<Rightarrow> found)"

definition take_tlsa :: "byte list \<Rightarrow> nat \<Rightarrow> nat \<Rightarrow> TLSARecord taken" where
  "take_tlsa b p rrLen =
     (if rrLen < 3 then Stop False
      else if p + rrLen > length b then Overrun
      else Took [\<lparr>tlsa_usage = int (unat (b ! p)), tlsa_selector = int (unat (b ! (p + 1))),
                  tlsa_matchingType = int (unat (b ! (p + 2))),
                  tlsa_value = map char_of_byte (take (rrLen - 3) (drop (p + 3) b))\<rparr>] True)"

text \<open>TLSA answers count only with the AD flag, which says that the resolver has validated them.\<close>

definition ParseTLSAAnswer :: "resolver \<Rightarrow> byte list \<Rightarrow> nat \<Rightarrow> (bool \<times> TLSARecord list) option" where
  "ParseTLSAAnswer d b len =
     (if answers_start d b len \<noteq> None \<and> \<not> ad_flag b then Some (False, [])
      else parse_answer d (take_tlsa b) NS_T_TLSA b len)"

definition TLSALookup_code :: "resolver \<Rightarrow> string \<Rightarrow> int \<Rightarrow> TLSARecord list" where
  "TLSALookup_code d domain port =
     (case res_nquery d (''_'' @ show_int port @ ''._tcp.'' @ domain) NS_T_TLSA True of
        (n, b) \<Rightarrow>
          if n \<le> 0 \<or> n > int DNS_BUFFERSIZE then []
          else case ParseTLSAAnswer d b (nat n) of None \<Rightarrow> [] | Some (_, found) \<Rightarrow> found)"

section \<open>The resolver of the SPF check\<close>

definition spf_resolver :: "resolver \<Rightarrow> net_api \<Rightarrow> nat \<Rightarrow> spf_api" where
  "spf_resolver d api t =
     \<lparr>lookup_a = ALookup d, lookup_aaaa = AAALookup d,
      lookup_mx = (\<lambda>n. map Hostname (MXLookup d n False False)),
      lookup_ptr = PTRLookup d api, lookup_txt = TXTLookup d, spf_net = api, spf_now = t\<rparr>"

end
