(* ===== verification/Dns_Correct.thy ===== *)
theory Dns_Correct
  imports Dns
begin

text \<open>
  The parsers of resolver answers: well-formed answers are understood, MX and PTR answers are never
  read outside the buffer, TXT answers are; and what the lookup of mail servers returns.
\<close>

section \<open>Bounds\<close>

text \<open>
  What the manual of \<open>dn_expand\<close> promises: a name starts inside the message and the bytes it takes
  up are inside.
\<close>

definition dn_contract :: "resolver \<Rightarrow> bool" where
  "dn_contract d \<longleftrightarrow> (\<forall>b len p k h. dn_expand d b len p = Some (k, h) \<longrightarrow> p < len \<and> p + k \<le> len)"

lemma walk_in_bounds:
  assumes "\<And>q n. take_rr q n \<noteq> Overrun"
  shows "walk d take_rr type b len n ptr acc ok \<noteq> None"
proof (induction n arbitrary: ptr acc ok)
  case (Suc n)
  show ?case
  proof (cases "dn_expand d b len ptr")
    case (Some r)
    obtain k h where "r = (k, h)" by fastforce
    with Some Suc.IH assms show ?thesis
      by (auto simp: Let_def simp del: not_None_eq split: taken.split)
  qed simp
qed simp

lemma parse_answer_in_bounds:
  "(\<And>q n. take_rr q n \<noteq> Overrun) \<Longrightarrow> parse_answer d take_rr type b len \<noteq> None"
  by (auto simp: parse_answer_def walk_in_bounds simp del: not_None_eq split: option.split)


section \<open>Encoding\<close>

definition be16 :: "nat \<Rightarrow> byte list" where
  "be16 n = [word_of_nat (n div 256), word_of_nat n]"

record rr =
  rr_name :: string
  rr_type :: nat
  rr_class :: nat
  rr_ttl :: "byte list"
  rr_data :: "byte list"

definition rr_ok :: "rr \<Rightarrow> bool" where
  "rr_ok r \<longleftrightarrow> length (rr_ttl r) = 4 \<and> rr_type r < 65536 \<and> rr_class r < 65536 \<and> length (rr_data r) < 65536"

definition encode_rr :: "(string \<Rightarrow> byte list) \<Rightarrow> rr \<Rightarrow> byte list" where
  "encode_rr wire r =
     wire (rr_name r) @ be16 (rr_type r) @ be16 (rr_class r) @ rr_ttl r @ be16 (length (rr_data r)) @ rr_data r"

definition encode_answer :: "(string \<Rightarrow> byte list) \<Rightarrow> byte list \<Rightarrow> string \<Rightarrow> nat \<Rightarrow> rr list \<Rightarrow> byte list" where
  "encode_answer wire idflags q qtype rrs =
     idflags @ be16 1 @ be16 (length rrs) @ be16 0 @ be16 0 @
     wire q @ be16 qtype @ be16 1 @ concat (map (encode_rr wire) rrs)"

text \<open>The resolver library decodes the names that \<open>wire\<close> encodes, wherever they stand.\<close>

definition decodes :: "resolver \<Rightarrow> (string \<Rightarrow> byte list) \<Rightarrow> bool" where
  "decodes d wire \<longleftrightarrow>
     (\<forall>a h r len. length a + length (wire h) \<le> len \<longrightarrow> len \<le> length (a @ wire h @ r) \<longrightarrow>
        dn_expand d (a @ wire h @ r) len (length a) = Some (length (wire h), h))"

lemma decodesD:
  "decodes d wire \<Longrightarrow> b = a @ wire h @ r \<Longrightarrow> length a + length (wire h) \<le> len \<Longrightarrow> len \<le> length b \<Longrightarrow>
   dn_expand d b len (length a) = Some (length (wire h), h)"
  by (simp add: decodes_def)

lemma be16_length [simp]: "length (be16 n) = 2"
  by (simp add: be16_def)

lemma rd16_be16 [simp]: "n < 65536 \<Longrightarrow> rd16 (a @ be16 n @ r) (length a) = n"
  by (simp add: rd16_def be16_def nth_append unat_of_nat)

lemma rd16_be16_at: "i = length a \<Longrightarrow> n < 65536 \<Longrightarrow> rd16 (a @ be16 n @ r) i = n"
  by simp

lemma rd16_in: "b = a @ be16 n @ r \<Longrightarrow> i = length a \<Longrightarrow> n < 65536 \<Longrightarrow> rd16 b i = n"
  by simp

text \<open>The loop over encoded records, for a parser that takes the records of its type well.\<close>

lemma walk_encoded:
  assumes "decodes d wire"
    and "\<forall>r \<in> set rrs. rr_ok r"
    and "\<And>a r c. r \<in> set rrs \<Longrightarrow> rr_type r = type \<Longrightarrow> rr_class r = ns_c_in \<Longrightarrow> b = a @ rr_data r @ c \<Longrightarrow>
           length a + length (rr_data r) \<le> len \<Longrightarrow> take_rr (length a) (length (rr_data r)) = Took (val r) True"
    and "b = pre @ concat (map (encode_rr wire) rrs) @ rest"
    and "length pre + length (concat (map (encode_rr wire) rrs)) \<le> len" and "len \<le> length b"
  shows "walk d take_rr type b len (length rrs) (length pre) acc ok =
           Some (ok, acc @ concat (map val (filter (\<lambda>r. rr_type r = type \<and> rr_class r = ns_c_in) rrs)))"
  using assms(2-)
proof (induction rrs arbitrary: pre acc)
  case (Cons r rrs)
  let ?tail = "concat (map (encode_rr wire) rrs) @ rest"
  let ?w = "wire (rr_name r)"
  let ?p = "length pre + length ?w"
  have ok: "rr_ok r" using Cons.prems(1) by simp
  have b: "b = pre @ ?w @ (be16 (rr_type r) @ be16 (rr_class r) @ rr_ttl r @ be16 (length (rr_data r)) @ rr_data r @ ?tail)"
    using Cons.prems(3) by (simp add: encode_rr_def [of wire r])
  have l: "?p + 10 + length (rr_data r) + length (concat (map (encode_rr wire) rrs)) \<le> len"
    using Cons.prems(4) ok by (simp add: encode_rr_def [of wire r] rr_ok_def)
  have e: "dn_expand d b len (length pre) = Some (length ?w, rr_name r)"
    by (rule decodesD [OF assms(1) b]) (use l Cons.prems(5) in simp_all)
  have t: "rd16 b ?p = rr_type r"
    unfolding b using ok by (intro rd16_be16_at [of _ "pre @ ?w", simplified]) (simp_all add: rr_ok_def)
  have c: "rd16 b (?p + 2) = rr_class r"
    unfolding b using ok
    by (intro rd16_be16_at [of _ "pre @ ?w @ be16 (rr_type r)", simplified]) (simp_all add: rr_ok_def)
  have n: "rd16 b (?p + 8) = length (rr_data r)"
    unfolding b using ok
    by (intro rd16_be16_at [of _ "pre @ ?w @ be16 (rr_type r) @ be16 (rr_class r) @ rr_ttl r", simplified])
       (simp_all add: rr_ok_def)
  let ?pre = "pre @ encode_rr wire r"
  have lp: "length ?pre = ?p + 10 + length (rr_data r)"
    using ok by (simp add: encode_rr_def rr_ok_def)
  have IH: "walk d take_rr type b len (length rrs) (?p + 10 + length (rr_data r)) acc' ok =
      Some (ok, acc' @ concat (map val (filter (\<lambda>r. rr_type r = type \<and> rr_class r = ns_c_in) rrs)))" for acc'
    unfolding lp [symmetric]
  proof (rule Cons.IH)
    show "b = ?pre @ concat (map (encode_rr wire) rrs) @ rest" using Cons.prems(3) by simp
    show "length ?pre + length (concat (map (encode_rr wire) rrs)) \<le> len" using Cons.prems(4) by simp
  qed (use Cons.prems in auto)
  have k: "take_rr (?p + 10) (length (rr_data r)) = Took (val r) True"
    if "rr_type r = type" "rr_class r = ns_c_in"
  proof -
    let ?a = "pre @ ?w @ be16 (rr_type r) @ be16 (rr_class r) @ rr_ttl r @ be16 (length (rr_data r))"
    have a: "length ?a = ?p + 10" using ok by (simp add: rr_ok_def)
    with l b have "take_rr (length ?a) (length (rr_data r)) = Took (val r) True"
      by (intro Cons.prems(2) [OF _ that, of ?a ?tail]) simp_all
    then show ?thesis unfolding a .
  qed
  show ?case
    using e t c n l k IH by (simp add: Let_def DNS_RRFIXEDSZ_def add.assoc)
qed simp


lemma parse_answer_encoded:
  assumes "decodes d wire" and "length idflags = 4" and "rrs \<noteq> []" and "length rrs < 65536"
    and "\<forall>r \<in> set rrs. rr_ok r"
    and "\<And>a r c. r \<in> set rrs \<Longrightarrow> rr_type r = type \<Longrightarrow> rr_class r = ns_c_in \<Longrightarrow> b = a @ rr_data r @ c \<Longrightarrow>
           length a + length (rr_data r) \<le> len \<Longrightarrow> take_rr (length a) (length (rr_data r)) = Took (val r) True"
    and "b = encode_answer wire idflags q qtype rrs @ rest"
    and "len = length (encode_answer wire idflags q qtype rrs)"
  shows "parse_answer d take_rr type b len =
           Some (True, concat (map val (filter (\<lambda>r. rr_type r = type \<and> rr_class r = ns_c_in) rrs)))"
proof -
  let ?hdr = "idflags @ be16 1 @ be16 (length rrs) @ be16 0 @ be16 0"
  let ?pre = "?hdr @ wire q @ be16 qtype @ be16 1"
  let ?rrs = "concat (map (encode_rr wire) rrs)"
  have b: "b = ?pre @ ?rrs @ rest" and l: "len = length ?pre + length ?rrs"
    using assms(7,8) by (simp_all add: encode_answer_def)
  have h: "length ?hdr = 12" using assms(2) by simp
  have "rd16 (idflags @ be16 1 @ (be16 (length rrs) @ be16 0 @ be16 0 @ wire q @ be16 qtype @ be16 1 @ ?rrs @ rest)) (length idflags) = 1"
    by (rule rd16_be16) simp
  then have q: "rd16 b 4 = 1" using assms(2) unfolding b by simp
  have "rd16 ((idflags @ be16 1) @ be16 (length rrs) @ (be16 0 @ be16 0 @ wire q @ be16 qtype @ be16 1 @ ?rrs @ rest)) (length (idflags @ be16 1)) = length rrs"
    using assms(4) by (rule rd16_be16)
  then have n: "rd16 b 6 = length rrs" using assms(2) unfolding b by simp
  have "b = ?hdr @ wire q @ (be16 qtype @ be16 1 @ ?rrs @ rest)" unfolding b by simp
  from decodesD [OF assms(1) this] have "dn_expand d b len (length ?hdr) = Some (length (wire q), q)"
    using l b by simp
  then have e: "dn_expand d b len 12 = Some (length (wire q), q)" using h by simp
  have s: "answers_start d b len = Some (length rrs, length ?pre)"
    using q n e l h assms(2,3)
    by (simp add: answers_start_def DNS_HFIXEDSZ_def DNS_QFIXEDSZ_def)
  have "walk d take_rr type b len (length rrs) (length ?pre) [] True =
      Some (True, [] @ concat (map val (filter (\<lambda>r. rr_type r = type \<and> rr_class r = ns_c_in) rrs)))"
  proof (rule walk_encoded [where val = val and pre = ?pre and rest = rest and wire = wire])
    show "take_rr (length a) (length (rr_data r)) = Took (val r) True"
      if "r \<in> set rrs" "rr_type r = type" "rr_class r = ns_c_in" "b = a @ rr_data r @ c"
        "length a + length (rr_data r) \<le> len" for a r c
      using that by (rule assms(6))
    show "len \<le> length b" using l unfolding b by simp
  qed (use assms(1,5) b l in simp_all)
  with s show ?thesis by (simp add: parse_answer_def)
qed

section \<open>Texts\<close>

definition txt_data :: "string list \<Rightarrow> byte list" where
  "txt_data ss = concat (map (\<lambda>s. word_of_nat (length s) # map byte_of s) ss)"

lemma txt_strings_data:
  assumes "b = a @ txt_data ss @ c" and "\<forall>s \<in> set ss. length s < 256"
  shows "txt_strings b (length a) (length a + length (txt_data ss)) acc = Some (acc @ concat ss, True)"
  using assms
proof (induction ss arbitrary: a acc)
  case Nil
  then show ?case by (subst txt_strings.simps) (simp add: txt_data_def)
next
  case (Cons s ss)
  let ?head = "word_of_nat (length s) # map byte_of s"
  have d: "txt_data (s # ss) = ?head @ txt_data ss" by (simp add: txt_data_def)
  have b: "b = (a @ ?head) @ txt_data ss @ c" using Cons.prems(1) d by simp
  have n: "unat (b ! length a) = length s" using b Cons.prems(2) by (simp add: unat_of_nat)
  have t: "map char_of_byte (take (length s) (drop (length a + 1) b)) = s"
    using b by (simp add: o_def)
  have "txt_strings b (length (a @ ?head)) (length (a @ ?head) + length (txt_data ss)) (acc @ s)
      = Some ((acc @ s) @ concat ss, True)"
    using Cons.IH [OF b] Cons.prems(2) by simp
  moreover have "length b = length a + 1 + length s + length (txt_data ss) + length c" using b by simp
  ultimately show ?case
    using n t d by (subst txt_strings.simps) (simp add: Let_def ac_simps)
qed



text \<open>
  An answer can make the server read what lies behind it. The length of a record is not
  compared with the end of the answer: a TXT record that claims more data than the answer has is
  filled up with the bytes that follow in the buffer, which an earlier query has left there.
\<close>

theorem DNS_txt_reads_past_answer:
  assumes "decodes d wire" and "length idflags = 4" and "0 < length old" and "length old < 256"
    and "a = idflags @ be16 1 @ be16 1 @ be16 0 @ be16 0 @ wire q @ be16 ns_t_txt @ be16 1 @
             wire q @ be16 ns_t_txt @ be16 1 @ [0, 0, 0, 0] @ be16 (length old + 1)"
  shows "ParseTXTAnswer d (a @ word_of_nat (length old) # old @ rest) (length a) ns_t_txt =
           Some (True, [map char_of_byte old])"
proof -
  let ?b = "a @ word_of_nat (length old) # old @ rest"
  let ?hdr = "idflags @ be16 1 @ be16 1 @ be16 0 @ be16 0"
  let ?pre = "?hdr @ wire q @ be16 ns_t_txt @ be16 1"
  let ?post = "word_of_nat (length old) # old @ rest"
  let ?p = "length ?pre + length (wire q)"
  have la: "length a = ?p + 10" and h: "length ?hdr = 12" using assms(2,5) by simp_all
  have b: "?b = ?hdr @ wire q @ (be16 ns_t_txt @ be16 1 @ wire q @ be16 ns_t_txt @ be16 1 @ [0, 0, 0, 0] @ be16 (length old + 1) @ ?post)"
    "?b = ?pre @ wire q @ (be16 ns_t_txt @ be16 1 @ [0, 0, 0, 0] @ be16 (length old + 1) @ ?post)"
    using assms(5) by simp_all
  have e1: "dn_expand d ?b (length a) 12 = Some (length (wire q), q)"
    using decodesD [OF assms(1) b(1), of "length a"] la h by simp
  have e2: "dn_expand d ?b (length a) (length ?pre) = Some (length (wire q), q)"
    by (rule decodesD [OF assms(1) b(2)]) (use la in simp_all)
  have q1: "rd16 ?b 4 = 1" by (rule rd16_in [of _ idflags]) (use assms(2,5) in auto)
  have q2: "rd16 ?b 6 = 1" by (rule rd16_in [of _ "idflags @ be16 1"]) (use assms(2,5) in auto)
  have t: "rd16 ?b ?p = 16" by (rule rd16_in [of _ "?pre @ wire q"]) (use assms(2,5) in auto)
  have c: "rd16 ?b (?p + 2) = 1" by (rule rd16_in [of _ "?pre @ wire q @ be16 16"]) (use assms(2,5) in auto)
  have n: "rd16 ?b (?p + 8) = length old + 1"
    by (rule rd16_in [of _ "?pre @ wire q @ be16 16 @ be16 1 @ [0, 0, 0, 0]"]) (use assms(2,4,5) in auto)
  have "txt_strings ?b (length a) (length a + length (txt_data [map char_of_byte old])) [] = Some (map char_of_byte old, True)"
    using txt_strings_data [of ?b a "[map char_of_byte old]" rest "[]"] assms(4)
    by (simp add: txt_data_def o_def)
  then have "take_txt ?b (?p + 10) (length old + 1) = Took [map char_of_byte old] True"
    using assms(3) by (simp add: take_txt_def txt_data_def la)
  then show ?thesis
    using e1 e2 q1 q2 t c n la h
    by (simp add: ParseTXTAnswer_def parse_answer_def answers_start_def DNS_HFIXEDSZ_def DNS_QFIXEDSZ_def
        DNS_RRFIXEDSZ_def Let_def ac_simps)
qed


section \<open>Mail servers\<close>

definition too_big :: "resolver \<Rightarrow> string \<Rightarrow> bool \<Rightarrow> bool" where
  "too_big d domain sec \<longleftrightarrow>
     mx_query d domain sec = None \<or>
     (mx_query d domain sec = Some [] \<and>
      (case canonical d domain of None \<Rightarrow> False | Some h \<Rightarrow> mx_query d h sec = None))"

text \<open>
  The mail servers of a domain. They come in the order of their preference, and as the random
  value says for equal preferences; a domain without MX records has its own name, or the one it is
  an alias of, for its only server. There is no server, and so a bounce, only when an answer does
  not fit into the buffer.
\<close>

theorem DNS_mx_lookup:
  "sorted (map Preference (MXLookup d domain True sec)) \<and>
   sorted_wrt (\<lambda>a b. \<not> MXServerSort b a) (MXLookup d domain True sec) \<and>
   (MXLookup d domain True sec = [] \<longleftrightarrow> too_big d domain sec)"
proof -
  have p: "sorted (map Preference (sort_mx ms))" "sorted_wrt (\<lambda>a b. \<not> MXServerSort b a) (sort_mx ms)" for ms
  proof -
    have s: "sorted_wrt (\<lambda>a b. (Preference a, RandomValue a) \<le> (Preference b, RandomValue b)) (sort_mx ms)"
      using sorted_sort_key [of "\<lambda>m. (Preference m, RandomValue m)" ms]
      by (simp add: sort_mx_def sorted_map)
    show "sorted (map Preference (sort_mx ms))"
      unfolding sorted_map by (rule sorted_wrt_mono_rel [OF _ s]) (auto simp: less_eq_prod_def)
    show "sorted_wrt (\<lambda>a b. \<not> MXServerSort b a) (sort_mx ms)"
      by (rule sorted_wrt_mono_rel [OF _ s]) (auto simp: less_eq_prod_def MXServerSort_def)
  qed
  have "length (sort_mx (with_rand d ms)) = length ms" for ms
    by (simp add: sort_mx_def with_rand_def)
  then have e: "sort_mx (with_rand d ms) = [] \<longleftrightarrow> ms = []" for ms by (metis length_0_conv)
  show ?thesis
    by (auto simp: MXLookup_def too_big_def p e Let_def simp del: not_None_eq split: option.splits)
qed

section \<open>Witnesses\<close>

text \<open>A resolver library with a simple encoding of names: a one before every character, a zero at the end.\<close>

definition sample_wire :: "string \<Rightarrow> byte list" where
  "sample_wire h = concat (map (\<lambda>c. [1, byte_of c]) h) @ [0]"

fun sample_name :: "byte list \<Rightarrow> (nat \<times> string) option" where
  "sample_name [] = None"
| "sample_name [x] = (if x = 0 then Some (1, []) else None)"
| "sample_name (x # c # r) =
     (if x = 0 then Some (1, []) else map_option (\<lambda>(k, h). (k + 2, char_of_byte c # h)) (sample_name r))"

definition sample_resolver :: resolver where
  "sample_resolver =
     \<lparr>res_nquery = (\<lambda>n t s. (0, [])),
      dn_expand = (\<lambda>b len p. if p < len then sample_name (take (len - p) (drop p b)) else None),
      getaddrinfo4 = (\<lambda>_. []), getaddrinfo6 = (\<lambda>_. []), hostent = (\<lambda>_. None), rand_at = (\<lambda>_. 0)\<rparr>"

lemma sample_name_wire: "sample_name (sample_wire h @ r) = Some (length (sample_wire h), h)"
proof (induction h)
  case Nil
  then show ?case by (cases r) (simp_all add: sample_wire_def)
next
  case (Cons c h)
  then show ?case by (simp add: sample_wire_def)
qed

lemma sample_name_length: "sample_name b = Some (k, h) \<Longrightarrow> k \<le> length b"
  by (induction b arbitrary: k h rule: sample_name.induct) (auto split: if_splits)

lemma sample_contract: "dn_contract sample_resolver"
proof -
  have "p < len \<and> p + k \<le> len" if "dn_expand sample_resolver b len p = Some (k, h)" for b len p k h
  proof -
    from that have "p < len" and "k \<le> length (take (len - p) (drop p b))"
      by (auto simp: sample_resolver_def dest: sample_name_length split: if_splits)
    then show ?thesis by auto
  qed
  then show ?thesis by (auto simp: dn_contract_def)
qed

lemma sample_wire_nonempty: "0 < length (sample_wire h)"
  by (simp add: sample_wire_def)

lemma sample_decodes: "decodes sample_resolver sample_wire"
proof -
  have "dn_expand sample_resolver (a @ sample_wire h @ r) len (length a) = Some (length (sample_wire h), h)"
    if "length a + length (sample_wire h) \<le> len" for a h r len
  proof -
    have "take (len - length a) (sample_wire h @ r) =
        sample_wire h @ take (len - length a - length (sample_wire h)) r" using that by simp
    moreover have "length a < len" using that sample_wire_nonempty [of h] by linarith
    ultimately show ?thesis using that by (simp add: sample_resolver_def sample_name_wire)
  qed
  then show ?thesis by (simp add: decodes_def)
qed



theorem DNS_txt_reads_past_answer_witness:
  "\<exists>a. ParseTXTAnswer sample_resolver (a @ [3, 115, 101, 99]) (length a) ns_t_txt = Some (True, [''sec''])"
proof -
  let ?a = "[0, 0, 0, 0] @ be16 1 @ be16 1 @ be16 0 @ be16 0 @ sample_wire ''a.'' @ be16 16 @ be16 1 @
      sample_wire ''a.'' @ be16 16 @ be16 1 @ [0, 0, 0, 0] @ be16 (length [115, 101, 99 :: byte] + 1)"
  have "map char_of_byte [115, 101, 99] = ''sec''" by code_simp
  moreover have "ParseTXTAnswer sample_resolver (?a @ word_of_nat (length [115, 101, 99 :: byte]) # [115, 101, 99] @ [])
      (length ?a) ns_t_txt = Some (True, [map char_of_byte [115, 101, 99]])"
    by (rule DNS_txt_reads_past_answer [OF sample_decodes _ _ _ refl]) simp_all
  ultimately have "ParseTXTAnswer sample_resolver (?a @ [3, 115, 101, 99]) (length ?a) ns_t_txt = Some (True, [''sec''])"
    by simp
  then show ?thesis by blast
qed

end
