(* ===== verification/ImapState.thy ===== *)
theory ImapState
  imports Session BlobStorage
begin

text \<open>
  The state of the IMAP server (src/imap/imap.h) and its operations on the tables
  (src/imap/imaphelper.cpp): the flags, the message list of a folder, the folder tree, the
  generation counters and the recursive deletion of a folder. The text that several
  \<open>printf\<close> calls make up within one line is printed at once. A statement that the server
  refuses throws and ends the process, which \<open>failed\<close> records.
\<close>

section \<open>Flags\<close>

definition FLAG_UNREAD :: int where "FLAG_UNREAD = 1"
definition FLAG_ANSWERED :: int where "FLAG_ANSWERED = 2"
definition FLAG_DELETED :: int where "FLAG_DELETED = 8"
definition FLAG_FLAGGED :: int where "FLAG_FLAGGED = 16"
definition FLAG_SEEN :: int where "FLAG_SEEN = 32"
definition FLAG_DRAFT :: int where "FLAG_DRAFT = 1024"

lemmas flag_values = FLAG_UNREAD_def FLAG_ANSWERED_def FLAG_DELETED_def FLAG_FLAGGED_def
  FLAG_SEEN_def FLAG_DRAFT_def

definition FLAG :: "int \<Rightarrow> int \<Rightarrow> int" where "FLAG flag x = x OR flag"
definition UNFLAG :: "int \<Rightarrow> int \<Rightarrow> int" where "UNFLAG flag x = x AND NOT flag"
definition FLAGGED :: "int \<Rightarrow> int \<Rightarrow> bool" where "FLAGGED flag x \<longleftrightarrow> x AND flag = flag"

text \<open>The flags as the protocol names them, each with the words of \<open>PrintFlags\<close>.\<close>

definition flag_words :: "int \<Rightarrow> string list" where
  "flag_words f =
     (if \<not> FLAGGED FLAG_UNREAD f then [BACKSLASH # ''Seen''] else []) @
     (if FLAGGED FLAG_ANSWERED f then [BACKSLASH # ''Answered''] else []) @
     (if FLAGGED FLAG_DELETED f then [BACKSLASH # ''Deleted''] else []) @
     (if FLAGGED FLAG_DRAFT f then [BACKSLASH # ''Draft''] else []) @
     (if \<not> FLAGGED FLAG_SEEN f then [BACKSLASH # ''Recent''] else []) @
     (if FLAGGED FLAG_FLAGGED f then [BACKSLASH # ''Flagged''] else [])"

definition PrintFlags :: "int \<Rightarrow> string" where
  "PrintFlags f = join (CHR '' '') (flag_words f)"

section \<open>State\<close>

record IMAPMsg =
  iUID :: int
  iMailID :: int
  iSequenceID :: int
  iFlags :: int
  iInternalDate :: int
  iSize :: "64 word"
  bFile :: bool
  iBlobStorage :: int

record IMAPFolder =
  strFullName :: string
  strReference :: string
  strName :: string
  strAttributes :: string
  iID :: int
  bSubscribed :: bool
  bIntelligent :: bool

datatype tIMAPState =
  IMAP_STATE_NON_AUTHENTICATED | IMAP_STATE_AUTHENTICATED | IMAP_STATE_SELECTED | IMAP_STATE_LOGOUT

text \<open>
  \<open>overrun\<close> records that \<open>fgets\<close> has written behind the end of the line buffer, \<open>overread\<close> that
  \<open>fwrite\<close> was asked for a negative number of bytes and so for all memory behind a text.
\<close>

record imap = session +
  cFolders :: "IMAPFolder list"
  vMessages :: "IMAPMsg list"
  iBadTries :: int
  iState :: tIMAPState
  iCommands :: int
  iSelected :: int
  iGeneration :: int
  iStructureGeneration :: int
  iSizeLimit :: "64 word"
  bReadonly :: bool
  szTag :: string
  strUser :: string
  bAPNS :: bool
  bAutoExpunge :: bool
  iLimit :: int
  iLastLoginUpdate :: int
  overrun :: bool
  overread :: bool

definition IMAP_MAXLINE :: nat where "IMAP_MAXLINE = 8192"
definition LASTLOGIN_UPDATE_INTERVAL :: int where "LASTLOGIN_UPDATE_INTERVAL = 60"
definition FAILBAN_IMAPLOGIN :: int where "FAILBAN_IMAPLOGIN = 2"
definition BMS_EVENT_STOREMAIL :: int where "BMS_EVENT_STOREMAIL = 1"
definition BMS_EVENT_DELETEMAIL :: int where "BMS_EVENT_DELETEMAIL = 2"
definition BMS_EVENT_MOVEMAIL :: int where "BMS_EVENT_MOVEMAIL = 3"
definition BMS_EVENT_CHANGEMAILFLAGS :: int where "BMS_EVENT_CHANGEMAILFLAGS = 4"

text \<open>
  The constructor. It leaves the generations, the size limit and \<open>bReadonly\<close> uninitialised;
  \<open>g\<close>, \<open>l\<close> and \<open>ro\<close> are what the memory holds there.
\<close>

definition new_imap :: "'x env_scheme \<Rightarrow> int \<times> int \<Rightarrow> 64 word \<Rightarrow> bool \<Rightarrow> session \<Rightarrow> imap" where
  "new_imap e g l ro s = session.extend (s\<lparr>iUserID := -1\<rparr>)
     \<lparr>cFolders = [], vMessages = [], iBadTries = 0, iState = IMAP_STATE_NON_AUTHENTICATED,
      iCommands = 0, iSelected = 0, iGeneration = fst g, iStructureGeneration = snd g,
      iSizeLimit = l, bReadonly = ro, szTag = [], strUser = [],
      bAPNS = (cfg_int e ''apns_enable'' = 1), bAutoExpunge = (cfg_int e ''imap_autoexpunge'' = 1),
      iLimit = 0, iLastLoginUpdate = 0, overrun = False, overread = False\<rparr>"

text \<open>An answer that starts with the tag of the command.\<close>

definition tagged :: "string \<Rightarrow> 'y imap_scheme \<Rightarrow> 'y imap_scheme" where
  "tagged t s = printf (szTag s @ t @ CRLF) s"

definition untagged :: "string \<Rightarrow> 'y imap_scheme \<Rightarrow> 'y imap_scheme" where
  "untagged t s = printf (''* '' @ t @ CRLF) s"

section \<open>Users\<close>

definition IncGeneration :: "world \<Rightarrow> int \<Rightarrow> int \<Rightarrow> int \<Rightarrow> world" where
  "IncGeneration w userID g sg =
     w\<lparr>users := map (\<lambda>u. if u_id u = userID
                        then u\<lparr>u_mailbox_generation := u_mailbox_generation u + g,
                               u_structure_generation := u_structure_generation u + sg\<rparr>
                        else u) (users w)\<rparr>"

definition GetGeneration :: "world \<Rightarrow> int \<Rightarrow> int \<times> int" where
  "GetGeneration w userID =
     (case filter (\<lambda>u. u_id u = userID) (users w) of
        [u] \<Rightarrow> (u_mailbox_generation u, u_structure_generation u)
      | _ \<Rightarrow> (0, 0))"

definition UserSize :: "world \<Rightarrow> int \<Rightarrow> 64 word" where
  "UserSize w userID =
     (case filter (\<lambda>u. u_id u = userID) (users w) of
        [] \<Rightarrow> 0
      | us \<Rightarrow> word_of_int (u_mailspace_used (last us)))"

text \<open>\<open>mailspace_used-LEAST(mailspace_used,%d)\<close> with a size cast to \<open>int\<close>.\<close>

definition release_space :: "world \<Rightarrow> int \<Rightarrow> 64 word \<Rightarrow> world" where
  "release_space w userID n =
     w\<lparr>users := map (\<lambda>u. if u_id u = userID
                        then u\<lparr>u_mailspace_used := u_mailspace_used u - min (u_mailspace_used u) (to_int32 (uint n))\<rparr>
                        else u) (users w)\<rparr>"

definition add_space :: "world \<Rightarrow> int \<Rightarrow> int \<Rightarrow> world" where
  "add_space w userID n =
     w\<lparr>users := map (\<lambda>u. if u_id u = userID then u\<lparr>u_mailspace_used := u_mailspace_used u + n\<rparr> else u)
         (users w)\<rparr>"

definition set_last_imap :: "world \<Rightarrow> int \<Rightarrow> world" where
  "set_last_imap w userID =
     w\<lparr>users := map (\<lambda>u. if u_id u = userID then u\<lparr>u_last_imap := now w\<rparr> else u) (users w)\<rparr>"

section \<open>The mails of a folder\<close>

definition AddUID :: "world \<Rightarrow> int \<Rightarrow> int \<times> world" where
  "AddUID w mailID =
     (let iUID = (case filter (\<lambda>(d, u). d = mailID) (imapuids w) of [] \<Rightarrow> 0 | (_, u) # _ \<Rightarrow> u)
      in if iUID = 0
         then (next_id w, w\<lparr>imapuids := imapuids w @ [(mailID, next_id w)], next_id := next_id w + 1\<rparr>)
         else (iUID, w))"

text \<open>
  \<open>FolderCondition\<close>: the condition of an intelligent folder on a mail. A field without a column
  becomes the unknown column 0, which the server refuses, as it refuses the empty condition.
\<close>

definition flag_condition :: "int \<Rightarrow> bool \<Rightarrow> mail_row \<Rightarrow> bool" where
  "flag_condition flag want m \<longleftrightarrow> (m_flags m AND flag \<noteq> 0) = want"

datatype column = Text "mail_row \<Rightarrow> string" | Number "mail_row \<Rightarrow> int"

definition condition_column :: "int \<Rightarrow> column option" where
  "condition_column field =
     (if field = 1 then Some (Text m_betreff) else if field = 2 then Some (Text m_von)
      else if field = 3 then Some (Text m_an) else if field = 4 then Some (Text m_cc)
      else if field = 9 then Some (Text m_priority) else if field = 12 then Some (Number m_folder)
      else if field = 14 then Some (Number m_color) else None)"

definition condition_flag :: "int \<Rightarrow> bool \<Rightarrow> (int \<times> bool) option" where
  "condition_flag field no =
     (if field = 6 then Some (1, no) else if field = 7 then Some (2, \<not> no)
      else if field = 8 then Some (4, \<not> no) else if field = 10 then Some (64, \<not> no)
      else if field = 11 then Some (16, \<not> no) else if field = 15 then Some (4096, \<not> no)
      else None)"

definition compare_column :: "'x env_scheme \<Rightarrow> column \<Rightarrow> int \<Rightarrow> string \<Rightarrow> mail_row \<Rightarrow> bool" where
  "compare_column e c cmp v m =
     (let text = (case c of Text f \<Rightarrow> f m | Number f \<Rightarrow> show_int (f m));
          eq = (case c of Text f \<Rightarrow> sql_eq e (f m) v | Number f \<Rightarrow> sql_int_eq e (f m) v)
      in if cmp = 1 then eq else if cmp = 2 then \<not> eq
         else if cmp = 3 then sql_like e text (''%'' @ v @ ''%'')
         else if cmp = 4 then \<not> sql_like e text (''%'' @ v @ ''%'')
         else if cmp = 5 then sql_like e text (v @ ''%'')
         else sql_like e text (''%'' @ v))"

definition condition_holds :: "'x env_scheme \<Rightarrow> int \<times> int \<times> string \<Rightarrow> mail_row \<Rightarrow> bool" where
  "condition_holds e c m =
     (case c of (field, cmp, v) \<Rightarrow>
        (case condition_flag field (v = ''no'') of
           Some (flag, want) \<Rightarrow> flag_condition flag want m
         | None \<Rightarrow> (case condition_column field of
                      Some col \<Rightarrow> compare_column e col cmp v m
                    | None \<Rightarrow> False)))"

definition condition_known :: "int \<times> int \<times> string \<Rightarrow> bool" where
  "condition_known c =
     (case c of (field, cmp, v) \<Rightarrow>
        condition_flag field (v = ''no'') \<noteq> None \<or> condition_column field \<noteq> None)"

definition used_conditions :: "world \<Rightarrow> int \<Rightarrow> (int \<times> int \<times> string) list" where
  "used_conditions w folder =
     filter (\<lambda>(field, cmp, v). 0 < field \<and> field \<le> 15 \<and> 0 < cmp \<and> cmp \<le> 6)
       (map snd (filter (\<lambda>(f, c). f = folder) (folder_conditions w)))"

definition smart_link :: "world \<Rightarrow> int \<Rightarrow> int option" where
  "smart_link w folder =
     (case filter (\<lambda>f. f_id f = folder) (folders w) of
        [] \<Rightarrow> None
      | fs \<Rightarrow> if f_intelligent (last fs) = 1
              then Some (if f_link (last fs) = 2 then 2 else 1) else None)"

definition FolderCondition :: "'x env_scheme \<Rightarrow> world \<Rightarrow> int \<Rightarrow> (mail_row \<Rightarrow> bool) option" where
  "FolderCondition e w folder =
     (case (if 0 < folder then smart_link w folder else None) of
        None \<Rightarrow> Some (\<lambda>m. m_folder m = folder)
      | Some link \<Rightarrow>
          let cs = used_conditions w folder
          in if cs = [] \<or> \<not> list_all condition_known cs then None
             else Some (\<lambda>m. if link = 2 then list_ex (\<lambda>c. condition_holds e c m) cs
                            else list_all (\<lambda>c. condition_holds e c m) cs))"

text \<open>The rows of the mail query: the mails of the folder with their UIDs, if they have one.\<close>

definition folder_rows :: "world \<Rightarrow> (mail_row \<Rightarrow> bool) \<Rightarrow> int \<Rightarrow> (mail_row \<times> int option) list" where
  "folder_rows w c userID =
     concat (map (\<lambda>m. case filter (\<lambda>(d, u). d = m_id m) (imapuids w) of
                        [] \<Rightarrow> [(m, None)]
                      | us \<Rightarrow> map (\<lambda>(d, u). (m, Some u)) us)
       (filter (\<lambda>m. c m \<and> m_userid m = userID) (mails w)))"

definition FlagMessage :: "world \<Rightarrow> int \<Rightarrow> int \<Rightarrow> int \<Rightarrow> bool \<Rightarrow> world" where
  "FlagMessage w flags d userID noGenerationInc =
     (let w1 = w\<lparr>mails := map (\<lambda>m. if m_id m = d \<and> m_userid m = userID then m\<lparr>m_flags := flags\<rparr> else m)
                 (mails w)\<rparr>;
          w2 = (if noGenerationInc then w1 else IncGeneration w1 userID 1 0)
      in PostEvent w2 userID BMS_EVENT_CHANGEMAILFLAGS d flags)"

definition row_message :: "'x env_scheme \<Rightarrow> mail_row \<Rightarrow> int \<Rightarrow> IMAPMsg" where
  "row_message e m uid =
     (let haveBlobStorage = cfg_is1 e ''enable_blobstorage''
      in \<lparr>iUID = uid, iMailID = m_id m, iSequenceID = 0, iFlags = m_flags m,
          iInternalDate = (if m_fetched m = 0 then m_datum m else m_fetched m),
          iSize = word_of_int (m_size m), bFile = (haveBlobStorage \<or> length (m_body m) = 4),
          iBlobStorage = (if haveBlobStorage then m_blobstorage m else 0)\<rparr>)"

definition fetch_row ::
  "'x env_scheme \<Rightarrow> int \<Rightarrow> bool \<Rightarrow> IMAPMsg list \<times> world \<Rightarrow> mail_row \<times> int option \<Rightarrow> IMAPMsg list \<times> world" where
  "fetch_row e userID readOnly acc row =
     (case acc of (msgs, w) \<Rightarrow>
        (case row of (m, u) \<Rightarrow>
           let (uid, w1) = (case u of None \<Rightarrow> AddUID w (m_id m) | Some n \<Rightarrow> (n, w));
               w2 = (if \<not> readOnly \<and> \<not> FLAGGED FLAG_SEEN (m_flags m)
                     then FlagMessage w1 (FLAG FLAG_SEEN (m_flags m)) (m_id m) userID True else w1)
           in (msgs @ [row_message e m uid], w2)))"

fun number_messages :: "int \<Rightarrow> IMAPMsg list \<Rightarrow> IMAPMsg list" where
  "number_messages n [] = []"
| "number_messages n (m # ms) = m\<lparr>iSequenceID := n\<rparr> # number_messages (n + 1) ms"

text \<open>
  Sorted by UID, then all but the last messages dropped if there are more than the limit, then
  numbered. (A negative limit would erase past the end of the vector.)
\<close>

definition FetchMessages ::
  "'x env_scheme \<Rightarrow> world \<Rightarrow> int \<Rightarrow> int \<Rightarrow> int \<Rightarrow> bool \<Rightarrow> (IMAPMsg list \<times> world) option" where
  "FetchMessages e w sel userID limit readOnly =
     (case FolderCondition e w sel of
        None \<Rightarrow> None
      | Some c \<Rightarrow>
          let (msgs, w1) = foldl (fetch_row e userID readOnly) ([], w) (folder_rows w c userID);
              sorted = sort_key iUID msgs;
              kept = (if limit \<noteq> 0 \<and> limit < int (length sorted)
                      then drop (nat (int (length sorted) - limit + 1)) sorted else sorted)
          in Some (number_messages 1 kept, w1))"

text \<open>\<open>FirstUnseen\<close>, \<open>GetLastUID\<close> and the two counts.\<close>

definition FirstUnseen :: "IMAPMsg list \<Rightarrow> int" where
  "FirstUnseen ms = (case filter (\<lambda>m. FLAGGED FLAG_UNREAD (iFlags m)) ms of [] \<Rightarrow> -1 | m # _ \<Rightarrow> iSequenceID m)"

definition GetLastUID :: "IMAPMsg list \<Rightarrow> int" where
  "GetLastUID ms = (if ms = [] then -1 else iUID (last ms))"

definition CountFlaggedMails :: "IMAPMsg list \<Rightarrow> int \<Rightarrow> int" where
  "CountFlaggedMails ms flag = int (length (filter (\<lambda>m. FLAGGED flag (iFlags m)) ms))"

definition CountNotFlaggedMails :: "IMAPMsg list \<Rightarrow> int \<Rightarrow> int" where
  "CountNotFlaggedMails ms flag = int (length (filter (\<lambda>m. \<not> FLAGGED flag (iFlags m)) ms))"

section \<open>The folder tree\<close>

definition folder_name :: "'x env_scheme \<Rightarrow> string \<Rightarrow> string \<Rightarrow> string" where
  "folder_name e key dflt =
     (case cfg e key of Some n \<Rightarrow> if length n < 128 then n else dflt | None \<Rightarrow> dflt)"

definition SENT :: "'x env_scheme \<Rightarrow> string" where "SENT e = folder_name e ''imap_folder_sent'' ''Sent''"
definition SPAM :: "'x env_scheme \<Rightarrow> string" where "SPAM e = folder_name e ''imap_folder_spam'' ''Spam''"
definition DRAFTS :: "'x env_scheme \<Rightarrow> string" where "DRAFTS e = folder_name e ''imap_folder_drafts'' ''Drafts''"
definition TRASH :: "'x env_scheme \<Rightarrow> string" where "TRASH e = folder_name e ''imap_folder_trash'' ''Trash''"

definition listed_folders :: "'x env_scheme \<Rightarrow> world \<Rightarrow> int \<Rightarrow> folder_row list" where
  "listed_folders e w userID =
     sort_key (\<lambda>f. titel_rank e (f_titel f))
       (filter (\<lambda>f. f_userid f = userID \<and>
                  (cfg_is1 e ''imap_intelligentfolders'' \<or> f_intelligent f = 0)) (folders w))"

definition shown_folder :: "string \<Rightarrow> folder_row \<Rightarrow> IMAPFolder" where
  "shown_folder path f =
     (let name = map (\<lambda>c. if c = CHR ''/'' then CHR ''-'' else c) (f_titel f)
      in \<lparr>strFullName = (if path = [] then name else path @ ''/'' @ name), strReference = path,
          strName = name, strAttributes = [], iID = f_id f, bSubscribed = (f_subscribed f = 1),
          bIntelligent = (f_intelligent f = 1)\<rparr>)"

text \<open>The walk over the tree with its stack (top first) and the set of visited folders.\<close>

fun walk_folders ::
  "nat \<Rightarrow> folder_row list \<Rightarrow> (int \<times> string) list \<Rightarrow> int list \<Rightarrow> IMAPFolder list option" where
  "walk_folders 0 rows stack visited = None"
| "walk_folders (Suc n) rows [] visited = Some []"
| "walk_folders (Suc n) rows ((p, path) # stack) visited =
     (let kids = map (shown_folder path) (filter (\<lambda>f. f_parent f = p) rows);
          pushed = map (\<lambda>f. (iID f, strFullName f)) (filter (\<lambda>f. iID f \<notin> set (p # visited)) kids)
      in map_option (append kids) (walk_folders n rows (rev pushed @ stack) (p # visited)))"

definition system_folder :: "string \<Rightarrow> string \<Rightarrow> int \<Rightarrow> IMAPFolder" where
  "system_folder name attr d =
     \<lparr>strFullName = name, strReference = [], strName = name, strAttributes = attr, iID = d,
      bSubscribed = True, bIntelligent = False\<rparr>"

definition FetchFolders :: "'x env_scheme \<Rightarrow> world \<Rightarrow> int \<Rightarrow> IMAPFolder list" where
  "FetchFolders e w userID =
     (let rows = listed_folders e w userID
      in system_folder ''INBOX'' [] 0 #
         (case walk_folders (length rows + 2) rows [(-1, [])] [] of None \<Rightarrow> [] | Some fs \<Rightarrow> fs) @
         [system_folder (SENT e) (BACKSLASH # ''Sent'') (-2),
          system_folder (DRAFTS e) (BACKSLASH # ''Drafts'') (-3),
          system_folder (SPAM e) (BACKSLASH # ''Junk'') (-4),
          system_folder (TRASH e) (BACKSLASH # ''Trash'') (-5)])"

section \<open>Deleting a folder\<close>

text \<open>The mails of a folder: their blobs and the event for each; the freed space.\<close>

definition delete_folder_mail ::
  "'x env_scheme \<Rightarrow> int \<Rightarrow> 64 word \<times> world \<Rightarrow> mail_row \<Rightarrow> 64 word \<times> world" where
  "delete_folder_mail e userID acc m =
     (case acc of (freed, w) \<Rightarrow>
        let haveBlobStorage = cfg_is1 e ''enable_blobstorage'';
            w1 = (if haveBlobStorage \<or> length (m_body m) = 4
                  then snd (DeleteBlob e w (if haveBlobStorage then m_blobstorage m else 0)
                         BMBLOB_TYPE_MAIL (m_id m) userID)
                  else w)
        in (freed + word_of_int (m_size m), PostEvent w1 userID BMS_EVENT_DELETEMAIL (m_id m) 0))"

definition drop_folder :: "'x env_scheme \<Rightarrow> int \<Rightarrow> world \<Rightarrow> int \<Rightarrow> world" where
  "drop_folder e userID w d =
     (let (freed, w1) = foldl (delete_folder_mail e userID) (0, w)
                          (filter (\<lambda>m. m_folder m = d \<and> m_userid m = userID) (mails w));
          w2 = w1\<lparr>mails := filter (\<lambda>m. \<not> (m_folder m = d \<and> m_userid m = userID)) (mails w1),
                  attachments := filter (\<lambda>a. a \<noteq> (d, userID)) (attachments w1)\<rparr>;
          w3 = (if 0 < freed then release_space w2 userID freed else w2);
          w4 = w3\<lparr>folder_conditions := filter (\<lambda>(f, c). f \<noteq> d) (folder_conditions w3),
                  folders := filter (\<lambda>f. \<not> (f_id f = d \<and> f_userid f = userID)) (folders w3)\<rparr>
      in IncGeneration w4 userID 1 1)"

text \<open>\<open>DeleteFolder\<close>: the folders below it first. \<open>None\<close>: the recursion does not end.\<close>

fun DeleteFolder :: "nat \<Rightarrow> 'x env_scheme \<Rightarrow> int \<Rightarrow> world \<Rightarrow> int \<Rightarrow> world option" where
  "DeleteFolder 0 e userID w d = None"
| "DeleteFolder (Suc n) e userID w d =
     map_option (\<lambda>w1. drop_folder e userID w1 d)
       (foldl (\<lambda>r c. case r of None \<Rightarrow> None | Some w1 \<Rightarrow> DeleteFolder n e userID w1 c) (Some w)
          (map f_id (filter (\<lambda>f. f_parent f = d \<and> f_userid f = userID) (folders w))))"

end
