(* ===== verification/ImapText.thy ===== *)
theory ImapText
  imports ImapState
begin

text \<open>
  The text routines of the IMAP server (src/imap/imaphelper.cpp and the header decoding of
  src/imap/mail.cpp): argument lists with quotes, lists and literals, message sets, flag lists,
  wildcards, dates, modified UTF-7, encoded words. Where the C code reads the byte behind an
  allocated block, that byte is taken to be NUL.
\<close>

section \<open>Lists and sets\<close>

definition IsList :: "string \<Rightarrow> bool" where
  "IsList s \<longleftrightarrow> 2 < length s \<and> hd s = CHR ''('' \<and> last s = CHR '')''"

text \<open>The loop of \<open>ParseList\<close>: depth and element. An element that nothing ends is lost.\<close>

fun parse_list :: "nat \<Rightarrow> string \<Rightarrow> string \<Rightarrow> string list" where
  "parse_list open elem [] = []"
| "parse_list open elem (c # cs) =
     (if c = CHR ''['' \<or> c = CHR ''(''
      then parse_list (Suc open) (if 0 < open then elem @ [c] else elem) cs
      else if c = CHR '']'' \<or> c = CHR '')''
      then (if open = 0 then parse_list open (elem @ [c]) cs
            else if open - 1 \<noteq> 0 then parse_list (open - 1) (elem @ [c]) cs
            else elem # parse_list 0 [] cs)
      else if c = CR then parse_list open elem cs
      else if c = CHR '' ''
      then (if 1 < open then parse_list open (elem @ [c]) cs else elem # parse_list open [] cs)
      else parse_list open (elem @ [c]) cs)"

definition ParseList :: "string \<Rightarrow> string list" where
  "ParseList s = parse_list 0 [] s"

type_synonym IMAPRange = "(int \<times> int) list"

definition parse_range :: "string \<Rightarrow> int \<times> int" where
  "parse_range r =
     (case find_chr (CHR '':'') r of
        Some p \<Rightarrow> (atoi (take p r),
                   if drop (p + 1) r = ''*'' then 2147483646 else atoi (drop (p + 1) r))
      | None \<Rightarrow> (atoi r, atoi r))"

definition ParseMSGSet :: "string \<Rightarrow> IMAPRange" where
  "ParseMSGSet s =
     map parse_range (filter (\<lambda>r. r \<noteq> []) (map (\<lambda>r. Trim r blanks) (Explode s (CHR '',''))))"

definition InMSGSet :: "IMAPRange \<Rightarrow> int \<Rightarrow> bool" where
  "InMSGSet r n \<longleftrightarrow> list_ex (\<lambda>(a, b). a \<le> n \<and> n \<le> b) r"

definition flag_name_step :: "int \<Rightarrow> string \<Rightarrow> int" where
  "flag_name_step f name =
     (if strcaseeq name ''seen'' then UNFLAG FLAG_UNREAD f
      else if strcaseeq name ''answered'' then FLAG FLAG_ANSWERED f
      else if strcaseeq name ''deleted'' then FLAG FLAG_DELETED f
      else if strcaseeq name ''draft'' then FLAG FLAG_DRAFT f
      else if strcaseeq name ''recent'' then UNFLAG FLAG_SEEN f
      else if strcaseeq name ''flagged'' then FLAG FLAG_FLAGGED f
      else f)"

definition FlagMaskFromList :: "string \<Rightarrow> int" where
  "FlagMaskFromList s = foldl flag_name_step FLAG_UNREAD (ParseList s)"

section \<open>Arguments of a command\<close>

record args =
  a_done :: "string list"
  a_elem :: string
  a_open :: nat
  a_slash :: bool
  a_quote :: bool
  a_bracket :: bool
  a_noempty :: bool
  a_refused :: nat

definition no_args :: args where
  "no_args = \<lparr>a_done = [], a_elem = [], a_open = 0, a_slash = False, a_quote = False,
     a_bracket = False, a_noempty = False, a_refused = 0\<rparr>"

definition push_char :: "char \<Rightarrow> args \<Rightarrow> args" where
  "push_char c a = a\<lparr>a_elem := a_elem a @ [c]\<rparr>"

definition literal_max :: "'x env_scheme \<Rightarrow> int" where
  "literal_max e = max (cfg_int e ''smtp_size_limit'') (1024 * 1024 * 20)"

text \<open>One character; the number is the size of a literal to be read now.\<close>

definition arg_char :: "int \<Rightarrow> char \<Rightarrow> args \<Rightarrow> args \<times> int option" where
  "arg_char mx c a =
     (if c = BACKSLASH
      then (if a_slash a then push_char BACKSLASH (a\<lparr>a_slash := False\<rparr>) else a\<lparr>a_slash := True\<rparr>, None)
      else if c = DQUOTE
      then (if a_slash a then push_char DQUOTE (a\<lparr>a_slash := False\<rparr>) else a\<lparr>a_quote := \<not> a_quote a\<rparr>, None)
      else if c = CHR '' '' \<or> c = NL
      then let b = a\<lparr>a_slash := False\<rparr>
           in (if a_quote a \<or> (c = CHR '' '' \<and> 0 < a_open a) then push_char (CHR '' '') b
               else (if \<not> a_noempty a \<or> a_elem a \<noteq> []
                     then b\<lparr>a_done := a_done a @ [a_elem a], a_elem := [], a_noempty := False\<rparr>
                     else b\<lparr>a_noempty := False\<rparr>), None)
      else if c = CR then (a, None)
      else let free = (\<not> a_quote a \<and> \<not> a_slash a);
               b = a\<lparr>a_slash := False\<rparr>
           in if c = CHR ''(''
              then (push_char c (if free then b\<lparr>a_open := a_open a + 1\<rparr> else b), None)
              else if c = CHR '')''
              then (push_char c (if free then b\<lparr>a_open := a_open a - 1\<rparr> else b), None)
              else if c = CHR ''{''
              then (if free then b\<lparr>a_bracket := True\<rparr> else push_char c b, None)
              else if c = CHR ''}'' \<and> free \<and> a_bracket a
              then let n = atoi (a_elem a)
                   in if n \<le> 0 \<or> mx < n
                      then (b\<lparr>a_done := a_done a @ [[]], a_elem := [], a_noempty := True,
                              a_bracket := False, a_refused := a_refused a + 1\<rparr>, None)
                      else (b\<lparr>a_elem := [], a_noempty := True, a_bracket := False\<rparr>, Some n)
              else (push_char c b, None))"

fun arg_chars :: "int \<Rightarrow> string \<Rightarrow> args \<Rightarrow> args \<times> int option" where
  "arg_chars mx [] a = (a, None)"
| "arg_chars mx (c # cs) a =
     (case arg_char mx c a of
        (b, Some n) \<Rightarrow> (b, Some n)
      | (b, None) \<Rightarrow> arg_chars mx cs b)"

text \<open>\<open>fread\<close> of a literal: what arrives, as a C string.\<close>

definition read_literal :: "int \<Rightarrow> 'y session_scheme \<Rightarrow> string \<times> 'y session_scheme" where
  "read_literal n s = (cstr (take (nat n) (pending s)), set_pending (drop (nat n) (pending s)) s)"

definition refuse_literals :: "args \<Rightarrow> 'y session_scheme \<Rightarrow> 'y session_scheme" where
  "refuse_literals a s = ((printf (''* NO Parameter too big'' @ CRLF)) ^^ a_refused a) s"

text \<open>
  The next line is read to the place \<open>k\<close> of the line buffer that the parsing has reached. The
  buffer has \<open>IMAP_MAXLINE + 1\<close> bytes; in TLS mode all bytes asked for are cleared first.
\<close>

definition overruns :: "nat \<Rightarrow> 'y session_scheme \<Rightarrow> string \<Rightarrow> bool" where
  "overruns k s l \<longleftrightarrow>
     IMAP_MAXLINE + 1 < k + (if bIO_SSL s then IMAP_MAXLINE else length l + 1)"

lemma refuse_literals_todo [simp]: "todo (refuse_literals a s) = todo s"
proof -
  have "todo ((printf t ^^ n) s) = todo s" for t n by (induction n) (simp_all add: todo_def)
  then show ?thesis by (simp add: refuse_literals_def)
qed

lemma read_literal_todo: "read_literal n s = (l, t) \<Longrightarrow> todo t \<le> todo s"
  by (auto simp: read_literal_def todo_def set_pending_def pending_def)

lemma todo_overrun [simp]: "todo (s\<lparr>overrun := x\<rparr>) = todo s"
  by (simp add: todo_def)

lemma todo_printf_session [simp]: "todo (printf t s) = todo s"
  by (simp add: todo_def)

lemma read_after_literal:
  assumes "read_literal n s = (x, t)" and "read_line IMAP_MAXLINE t = (Some l, u)"
  shows "todo u < todo s"
  using read_literal_todo [OF assms(1)] read_line_todo(2) [OF assms(2)] by (simp add: IMAP_MAXLINE_def)

function parse_args ::
  "int \<Rightarrow> nat \<Rightarrow> string \<Rightarrow> args \<Rightarrow> 'y imap_scheme \<Rightarrow> string list \<times> 'y imap_scheme" where
  "parse_args mx k line a s =
     (case arg_chars mx line a of
        (b, None) \<Rightarrow> (a_done b, refuse_literals b s)
      | (b, Some n) \<Rightarrow>
          let s1 = printf (''+ Ok, reading '' @ show_int n @ '' bytes'' @ CRLF) (refuse_literals b s);
              (lit, s2) = read_literal n s1;
              c = b\<lparr>a_done := a_done b @ [lit], a_refused := 0\<rparr>
          in case read_line IMAP_MAXLINE s2 of
               (None, s3) \<Rightarrow>
                 (a_done (fst (arg_chars mx [NL] c)),
                  s3\<lparr>overrun := overrun s3 \<or> overruns k s3 CRLF\<rparr>)
             | (Some l, s3) \<Rightarrow>
                 parse_args mx (k + 1) (cstr (drop 1 l)) c
                   (s3\<lparr>overrun := overrun s3 \<or> overruns k s3 l\<rparr>))"
  by pat_completeness auto

termination
  by (relation "measure (\<lambda>(mx, k, line, a, s). todo s)")
     (auto dest!: sym [of "(_, _)"], drule read_after_literal, assumption, simp)

declare parse_args.simps [simp del]

text \<open>\<open>ParseLine\<close> of the line that starts at place \<open>k\<close> of the buffer.\<close>

definition ParseLine ::
  "'x env_scheme \<Rightarrow> nat \<Rightarrow> 'y imap_scheme \<Rightarrow> string list \<times> 'y imap_scheme" where
  "ParseLine e k s = parse_args (literal_max e) k (szLine_at k s) no_args s"

section \<open>Quoting and header text\<close>

definition Escape :: "string \<Rightarrow> string" where
  "Escape s = concat (map (\<lambda>c. if c = DQUOTE then [BACKSLASH, c] else [c]) (cstr s))"

definition needs_encoding :: "char \<Rightarrow> bool" where
  "needs_encoding c \<longleftrightarrow> (code c < 32 \<or> 126 < code c) \<and> c \<noteq> CR \<and> c \<noteq> NL \<and> c \<noteq> TAB"

definition ShouldHeaderEncode :: "string \<Rightarrow> bool" where
  "ShouldHeaderEncode h = list_ex needs_encoding h"

text \<open>The words of a line, neighbours of the same kind joined.\<close>

fun join_words :: "(bool \<times> string) list \<Rightarrow> string list \<Rightarrow> (bool \<times> string) list" where
  "join_words parts [] = parts"
| "join_words parts (w # ws) =
     (let encode = ShouldHeaderEncode w
      in if parts \<noteq> [] \<and> fst (last parts) = encode
         then join_words (butlast parts @ [(encode, snd (last parts) @ '' '' @ w)]) ws
         else join_words (parts @ [(encode, w)]) ws)"

definition encode_part :: "string \<Rightarrow> bool \<times> string \<Rightarrow> string" where
  "encode_part charset p =
     (case p of (encode, w) \<Rightarrow>
        if encode
        then (let r = RTrim w blanks
              in '' =?'' @ charset @ ''?B?'' @ Base64Encode False (map byte_of (cstr r)) @ ''?='' @
                 drop (length r) w)
        else '' '' @ Trim w blanks)"

definition encode_line :: "string \<Rightarrow> string \<Rightarrow> string" where
  "encode_line charset h =
     Trim (concat (map (encode_part charset)
            (join_words [] (ExplodeOutsideOfQuotation h (CHR '' '') True)))) blanks"

lemma drop_found_less: "find_pos q s = Some p \<Longrightarrow> length s - Suc p < length s"
  using find_pos_Some [of q s p] by auto

text \<open>
  The loop over the lines of a header with several lines, for the recursive calls \<open>rec\<close>. A line
  break at the very start makes \<open>substr(0, -1)\<close> return all that is left.
\<close>

function header_lines :: "(string \<Rightarrow> string option) \<Rightarrow> string \<Rightarrow> string option" where
  "header_lines rec h =
     (case find_chr NL h of
        None \<Rightarrow> if h = [] then Some [] else map_option (\<lambda>r. r @ [NL]) (rec h)
      | Some p \<Rightarrow>
          let line = (if p = 0 then h else take (p - 1) h);
              here = (if line = [] then Some [] else map_option (\<lambda>r. r @ [NL]) (rec line))
          in (case here of
                None \<Rightarrow> None
              | Some r \<Rightarrow> map_option (append r) (header_lines rec (drop (p + 1) h))))"
  by pat_completeness auto

termination
  by (relation "measure (\<lambda>(rec, h). length h)") (simp_all add: drop_found_less)

declare header_lines.simps [simp del]

text \<open>\<open>HeaderEncode\<close>, to a depth of recursion; \<open>None\<close> if that is not enough.\<close>

fun HeaderEncode :: "nat \<Rightarrow> string \<Rightarrow> string \<Rightarrow> string option" where
  "HeaderEncode 0 charset h = None"
| "HeaderEncode (Suc n) charset h =
     (if \<not> ShouldHeaderEncode h then Some h
      else if NL \<in> set h then header_lines (HeaderEncode n charset) h
      else Some (encode_line charset h))"

text \<open>For text without line breaks there is no recursion.\<close>

definition HeaderEncode1 :: "string \<Rightarrow> string \<Rightarrow> string" where
  "HeaderEncode1 charset h = (if ShouldHeaderEncode h then encode_line charset h else h)"

lemma HeaderEncode_line: "NL \<notin> set h \<Longrightarrow> HeaderEncode (Suc n) charset h = Some (HeaderEncode1 charset h)"
  by (simp add: HeaderEncode1_def)

definition hex_value :: "char \<Rightarrow> nat" where
  "hex_value c = (if is_digit c then code c - 48
                  else if 65 \<le> code c \<and> code c \<le> 70 then code c - 55 else code c - 87)"

definition IS_HEX_CHAR :: "char \<Rightarrow> bool" where
  "IS_HEX_CHAR c \<longleftrightarrow> (65 \<le> code c \<and> code c \<le> 70) \<or> (97 \<le> code c \<and> code c \<le> 102) \<or> is_digit c"

fun qp_decode :: "string \<Rightarrow> string" where
  "qp_decode (c # a # b # cs) =
     (if c = CHR ''='' \<and> IS_HEX_CHAR a \<and> IS_HEX_CHAR b
      then char_of (hex_value b + 16 * hex_value a) # qp_decode cs
      else (if c = CHR ''_'' then CHR '' '' else c) # qp_decode (a # b # cs))"
| "qp_decode s = s"

definition QuotedPrintableDecode :: "string \<Rightarrow> string" where
  "QuotedPrintableDecode s = qp_decode (cstr s)"

definition StringReplace :: "string \<Rightarrow> string \<Rightarrow> string \<Rightarrow> string" where
  "StringReplace s search repl =
     (case find_sub search s of None \<Rightarrow> s | Some p \<Rightarrow> take p s @ repl @ drop (p + length search) s)"

text \<open>
  The pattern for encoded words, \<open>=\?[^?]+\?(Q|B)\?[^?]*\?=\<close>, matched at a place: the length of
  the match, the encoding and the encoded text.
\<close>

definition encoded_word_here :: "string \<Rightarrow> (nat \<times> char \<times> string) option" where
  "encoded_word_here s =
     (if take 2 s \<noteq> ''=?'' then None
      else let cs = takeWhile (\<lambda>c. c \<noteq> CHR ''?'') (drop 2 s);
               r = drop (2 + length cs) s
           in if cs = [] \<or> length r < 3 \<or> r ! 1 \<notin> set ''QB'' \<or> r ! 2 \<noteq> CHR ''?'' then None
              else let tx = takeWhile (\<lambda>c. c \<noteq> CHR ''?'') (drop 3 r)
                   in if take 2 (drop (3 + length tx) r) = ''?=''
                      then Some (2 + length cs + 3 + length tx + 2, r ! 1, tx) else None)"

fun find_encoded_word :: "string \<Rightarrow> (nat \<times> nat \<times> char \<times> string) option" where
  "find_encoded_word [] = None"
| "find_encoded_word (c # cs) =
     (case encoded_word_here (c # cs) of
        Some (l, x) \<Rightarrow> Some (0, l, x)
      | None \<Rightarrow> map_option (\<lambda>(p, x). (Suc p, x)) (find_encoded_word cs))"

lemma encoded_word_here_pos: "encoded_word_here s = Some (l, x) \<Longrightarrow> 0 < l"
  by (auto simp: encoded_word_here_def Let_def split: if_splits)

lemma find_encoded_word_pos: "find_encoded_word s = Some (p, l, x) \<Longrightarrow> 0 < l \<and> s \<noteq> []"
  by (induction s arbitrary: p) (auto split: option.splits dest: encoded_word_here_pos)

definition decode_word :: "char \<Rightarrow> string \<Rightarrow> string" where
  "decode_word enc tx =
     (if enc = CHR ''Q'' then cstr (QuotedPrintableDecode tx)
      else cstr (case Base64Decode False tx of Some bs \<Rightarrow> map char_of_byte bs | None \<Rightarrow> []))"

text \<open>\<open>MailHeader::DecodeValue\<close>: what is left of the value to search, and the decoded text.\<close>

function decode_value :: "string \<Rightarrow> string \<Rightarrow> string" where
  "decode_value v sdec =
     (case find_encoded_word v of
        None \<Rightarrow> sdec
      | Some (p, l, enc, tx) \<Rightarrow>
          decode_value (drop (p + l) v)
            (StringReplace sdec (cstr (take l (drop p v))) (decode_word enc tx)))"
  by pat_completeness auto

termination
proof (relation "measure (\<lambda>(v, sdec). length v)", goal_cases)
  case (2 v sdec a p b l c enc tx)
  then have "find_encoded_word v = Some (p, l, enc, tx)" by simp
  then show ?case using find_encoded_word_pos by (fastforce simp: length_greater_0_conv)
qed simp

declare decode_value.simps [simp del]

section \<open>Modified UTF-7\<close>

definition UTF7MustEncode :: "char \<Rightarrow> bool" where
  "UTF7MustEncode c \<longleftrightarrow> \<not> (32 \<le> code c \<and> code c \<le> 126) \<and> c \<notin> {CR, NL, NUL, TAB}"

text \<open>Both loops copy the bytes without the NULs, up to two NULs in a row.\<close>

fun copy_pairs :: "string \<Rightarrow> string" where
  "copy_pairs [] = []"
| "copy_pairs [a] = (if a = NUL then [] else [a])"
| "copy_pairs (a # b # cs) =
     (if a = NUL then (if b = NUL then [] else copy_pairs (b # cs)) else a # copy_pairs (b # cs))"

definition decode_utf7 :: "string \<Rightarrow> string" where
  "decode_utf7 tmp =
     (case Base64Decode True tmp of
        None \<Rightarrow> []
      | Some bs \<Rightarrow> let t = map char_of_byte bs in copy_pairs t @ cstr t)"

fun str_decode :: "bool \<Rightarrow> string \<Rightarrow> string \<Rightarrow> string" where
  "str_decode d tmp [] = []"
| "str_decode False tmp (c # cs) =
     (if c = CHR ''&''
      then (case cs of
              [] \<Rightarrow> []
            | n # ns \<Rightarrow> if n = CHR ''-'' then CHR ''&'' # str_decode False tmp ns
                        else str_decode True [] (n # ns))
      else c # str_decode False tmp cs)"
| "str_decode True tmp (c # cs) =
     (if c = CHR ''-'' then decode_utf7 tmp @ str_decode False [] cs
      else str_decode True (tmp @ [c]) cs)"

definition StrDecode :: "string \<Rightarrow> string" where
  "StrDecode s = str_decode False [] (cstr s)"

fun str_encode :: "bool \<Rightarrow> string \<Rightarrow> string \<Rightarrow> string" where
  "str_encode enc tmp [] = []"
| "str_encode enc tmp (c # cs) =
     (let nxt = (if cs = [] then NUL else hd cs);
          here = (if enc then [] else if c = CHR ''&'' then ''&-'' else [c]);
          tmp1 = (if enc then tmp @ [NUL, c] else tmp)
      in if UTF7MustEncode nxt
         then (if enc then str_encode True tmp1 cs else here @ ''&'' @ str_encode True [] cs)
         else if enc then Base64Encode True (map byte_of tmp1) @ ''-'' @ str_encode False [] cs
         else here @ str_encode False tmp1 cs)"

definition StrEncode :: "string \<Rightarrow> string" where
  "StrEncode s =
     (let t = cstr s
      in if t \<noteq> [] \<and> UTF7MustEncode (hd t) then ''&'' @ str_encode True [] t
         else str_encode False [] t)"

section \<open>Patterns\<close>

definition wildcard_escaped :: "char \<Rightarrow> bool" where
  "wildcard_escaped c \<longleftrightarrow> c = BACKSLASH \<or> c \<in> set ''.+?[^]$(){}=!<>|:''"

definition transform_char :: "char \<Rightarrow> string" where
  "transform_char c =
     (if c = CHR ''*'' then ''(.*)''
      else if c = CHR ''%'' then ''([^'' @ [BACKSLASH] @ ''/]+)''
      else if wildcard_escaped c then [BACKSLASH, c] else [c])"

definition TransformWildcards :: "string \<Rightarrow> string" where
  "TransformWildcards s = concat (map transform_char (cstr s))"

definition Match :: "'x env_scheme \<Rightarrow> string \<Rightarrow> string \<Rightarrow> bool" where
  "Match e pat s = pcre_match e pat s False"

definition InString :: "string \<Rightarrow> string \<Rightarrow> bool" where
  "InString haystack needle =
     (find_sub (map c_tolower (cstr needle)) (map c_tolower (cstr haystack)) \<noteq> None)"

section \<open>Dates\<close>

definition szMonths :: "string list" where
  "szMonths = [''Jan'', ''Feb'', ''Mar'', ''Apr'', ''May'', ''Jun'', ''Jul'', ''Aug'', ''Sep'',
     ''Oct'', ''Nov'', ''Dec'']"

fun month_index :: "nat \<Rightarrow> string list \<Rightarrow> string \<Rightarrow> nat option" where
  "month_index i [] s = None"
| "month_index i (m # ms) s = (if strcaseeq m s then Some i else month_index (Suc i) ms s)"

definition month_of :: "string \<Rightarrow> int" where
  "month_of s = (case month_index 0 szMonths s of None \<Rightarrow> 0 | Some i \<Rightarrow> int i)"

text \<open>\<open>sscanf("%02d:%02d:%02d")\<close>: the values read before the first failure.\<close>

definition scan_int2 :: "string \<Rightarrow> (int \<times> string) option" where
  "scan_int2 s =
     (let t = dropWhile is_space s
      in case scan_int (take 2 t) of
           None \<Rightarrow> None
         | Some (n, r) \<Rightarrow> Some (n, drop (length (take 2 t) - length r) t))"

definition scan_colon :: "string \<Rightarrow> string option" where
  "scan_colon s = (case s of c # cs \<Rightarrow> if c = CHR '':'' then Some cs else None | [] \<Rightarrow> None)"

definition scan_time :: "string \<Rightarrow> int \<times> int \<times> int" where
  "scan_time s =
     (case scan_int2 s of
        None \<Rightarrow> (0, 0, 0)
      | Some (h, r) \<Rightarrow>
          (case Option.bind (scan_colon r) scan_int2 of
             None \<Rightarrow> (h, 0, 0)
           | Some (m, r2) \<Rightarrow>
               (case Option.bind (scan_colon r2) scan_int2 of
                  None \<Rightarrow> (h, m, 0)
                | Some (sec, _) \<Rightarrow> (h, m, sec))))"

text \<open>
  \<open>ParseDate\<close> cuts at the first and the last hyphen of the text and reads the time behind the
  first blank, of which a hyphen that follows cuts off the rest.
\<close>

definition last_pos :: "char \<Rightarrow> string \<Rightarrow> nat option" where
  "last_pos c s = map_option (\<lambda>p. length s - 1 - p) (find_chr c (rev s))"

definition ParseDate :: "'x env_scheme \<Rightarrow> string \<Rightarrow> int" where
  "ParseDate e s =
     (case (find_chr (CHR ''-'') s, last_pos (CHR ''-'') s) of
        (Some a, Some b) \<Rightarrow>
          if a = b then 0
          else let day = atoi (take a s);
                   y = atoi (drop (b + 1) s);
                   year = (if y < 1900 then y + 1900 else y);
                   month = month_of (take (b - a - 1) (drop (a + 1) s));
                   tm = (case find_chr (CHR '' '') s of
                           None \<Rightarrow> (0, 0, 0)
                         | Some p \<Rightarrow>
                             let cut = (if p < a then a else if p < b then b else length s);
                                 txt = take (cut - p) (drop p s)
                             in if 8 < length txt then scan_time (tl txt) else (0, 0, 0))
               in (case tm of (h, mi, sec) \<Rightarrow> mktime e (year, month, day, h, mi, sec))
      | _ \<Rightarrow> 0)"

text \<open>\<open>sscanf("%*s %d %4s %d %d:%d:%d")\<close>, all six or nothing.\<close>

definition ParseRFC822Date :: "'x env_scheme \<Rightarrow> string \<Rightarrow> int" where
  "ParseRFC822Date e s =
     (case scan_word s of None \<Rightarrow> 0 | Some (_, r0) \<Rightarrow>
     (case scan_int r0 of None \<Rightarrow> 0 | Some (day, r1) \<Rightarrow>
     (case scan_str 4 r1 of None \<Rightarrow> 0 | Some (mon, r2) \<Rightarrow>
     (case scan_int r2 of None \<Rightarrow> 0 | Some (year, r3) \<Rightarrow>
     (case scan_int r3 of None \<Rightarrow> 0 | Some (h, r4) \<Rightarrow>
     (case Option.bind (scan_colon r4) scan_int of None \<Rightarrow> 0 | Some (mi, r5) \<Rightarrow>
     (case Option.bind (scan_colon r5) scan_int of None \<Rightarrow> 0 | Some (sec, _) \<Rightarrow>
        mktime e (year, month_of mon, day, h, mi, sec))))))))"

text \<open>\<open>gmtime\<close>: the civil date of a day number, counted from 1 March of a leap cycle.\<close>

definition civil_date :: "int \<Rightarrow> int \<times> int \<times> int" where
  "civil_date days =
     (let z = days + 719468; era = z div 146097; doe = z mod 146097;
          yoe = (doe - doe div 1460 + doe div 36524 - doe div 146096) div 365;
          doy = doe - (365 * yoe + yoe div 4 - yoe div 100);
          mp = (5 * doy + 2) div 153;
          day = doy - (153 * mp + 2) div 5 + 1;
          month = (if mp < 10 then mp + 3 else mp - 9);
          year = yoe + era * 400
      in (if month \<le> 2 then year + 1 else year, month, day))"

definition two_digits :: "int \<Rightarrow> string" where
  "two_digits n = pad_left 2 (CHR ''0'') (show_int n)"

definition Date :: "int \<Rightarrow> string" where
  "Date t =
     (case civil_date (t div 86400) of (y, m, d) \<Rightarrow>
        let sec = t mod 86400
        in two_digits d @ ''-'' @ szMonths ! nat (m - 1) @ ''-'' @ pad_left 4 (CHR ''0'') (show_int y) @
           '' '' @ two_digits (sec div 3600) @ '':'' @ two_digits (sec div 60 mod 60) @ '':'' @
           two_digits (sec mod 60) @ '' +0000'')"

section \<open>Addresses\<close>

definition first_address :: "'x env_scheme \<Rightarrow> string \<Rightarrow> string option" where
  "first_address e s =
     (case mail_match e s of None \<Rightarrow> None | Some (a, b) \<Rightarrow> Some (take (b - a) (drop a s)))"

definition cut_at :: "char \<Rightarrow> string \<Rightarrow> string" where
  "cut_at c s = takeWhile (\<lambda>x. x \<noteq> c) s"

definition address_name :: "string \<Rightarrow> string option" where
  "address_name s =
     (case find_chr DQUOTE s of
        Some p \<Rightarrow>
          let n = drop (p + 1) s
          in Some (if DQUOTE \<in> set n then cut_at DQUOTE n else cut_at (CHR ''<'') n)
      | None \<Rightarrow> if CHR ''<'' \<in> set s then Some (cut_at (CHR ''<'') s) else None)"

definition AddressStructure :: "'x env_scheme \<Rightarrow> string option \<Rightarrow> string" where
  "AddressStructure e szAddress =
     (case szAddress of
        None \<Rightarrow> '' NIL''
      | Some s \<Rightarrow>
          (case first_address e s of
             None \<Rightarrow> '' (('' @ [DQUOTE] @ Escape s @ [DQUOTE] @ '' NIL NIL NIL))''
           | Some ad \<Rightarrow>
               let (box, host) = (case last_pos (CHR ''@'') ad of
                                    None \<Rightarrow> (ad, ''(null)'')
                                  | Some p \<Rightarrow> (take p ad, drop (p + 1) ad))
               in '' (('' @
                  (case address_name s of
                     None \<Rightarrow> ''NIL''
                   | Some n \<Rightarrow> [DQUOTE] @ Escape (Trim n blanks) @ [DQUOTE]) @
                  '' NIL '' @ [DQUOTE] @ box @ [DQUOTE] @ '' '' @ [DQUOTE] @ host @ [DQUOTE] @ ''))''))"

end
