(* ===== verification/ImapMail.thy ===== *)
theory ImapMail
  imports ImapText
begin

text \<open>
  Messages as the IMAP server reads them: the headers (src/imap/mail.cpp), the parser that splits
  a message into its parts and the body structure (src/imap/mailparser.cpp). The parser calls
  itself on the parts; it is modelled to a depth of recursion, \<open>None\<close> meaning that the depth was
  not enough.
\<close>

section \<open>Headers\<close>

record MailHeader =
  strKey :: string
  strValue :: string
  strRawValue :: string

text \<open>The \<open>std::map\<close> of the headers, in the order of its keys.\<close>

record Mail =
  headers :: "MailHeader list"
  lastHeaderField :: string
  bDecode :: bool

definition new_Mail :: "bool \<Rightarrow> Mail" where
  "new_Mail dec = \<lparr>headers = [], lastHeaderField = [], bDecode = dec\<rparr>"

fun key_less :: "string \<Rightarrow> string \<Rightarrow> bool" where
  "key_less [] t = (t \<noteq> [])"
| "key_less (c # s) [] = False"
| "key_less (c # s) (d # t) = (code c < code d \<or> (c = d \<and> key_less s t))"

fun insert_header :: "MailHeader \<Rightarrow> MailHeader list \<Rightarrow> MailHeader list" where
  "insert_header h [] = [h]"
| "insert_header h (x # xs) = (if key_less (strKey h) (strKey x) then h # x # xs else x # insert_header h xs)"

definition header_value :: "bool \<Rightarrow> string \<Rightarrow> string" where
  "header_value dec v = (if dec then decode_value v v else v)"

definition new_MailHeader :: "bool \<Rightarrow> string \<Rightarrow> string \<Rightarrow> MailHeader" where
  "new_MailHeader dec key v = \<lparr>strKey = key, strValue = header_value dec v, strRawValue = v\<rparr>"

definition MailHeader_Add :: "bool \<Rightarrow> string \<Rightarrow> MailHeader \<Rightarrow> MailHeader" where
  "MailHeader_Add dec v h =
     (let r = strRawValue h @ '' '' @ v in h\<lparr>strRawValue := r, strValue := header_value dec r\<rparr>)"

definition has_header :: "string \<Rightarrow> Mail \<Rightarrow> bool" where
  "has_header key m = list_ex (\<lambda>h. strKey h = key) (headers m)"

definition add_to_header :: "string \<Rightarrow> string \<Rightarrow> Mail \<Rightarrow> Mail" where
  "add_to_header key v m =
     m\<lparr>headers := map (\<lambda>h. if strKey h = key then MailHeader_Add (bDecode m) v h else h) (headers m)\<rparr>"

definition Mail_Parse :: "Mail \<Rightarrow> string \<Rightarrow> Mail" where
  "Mail_Parse m l =
     (let line = RTrim l blanks
      in case (find_chr (CHR '':'') line, find_pos (\<lambda>c. c = TAB \<or> c = CHR '' '') line) of
           (Some p, sp) \<Rightarrow>
             if sp = None \<or> p < the sp
             then let key = StrToLower (take p line);
                      val = Trim (drop (p + 1) line) blanks;
                      m1 = m\<lparr>lastHeaderField := key\<rparr>
                  in if has_header key m1 then add_to_header key val m1
                     else m1\<lparr>headers := insert_header (new_MailHeader (bDecode m) key val) (headers m1)\<rparr>
             else if lastHeaderField m \<noteq> [] then add_to_header (lastHeaderField m) line m else m
         | (None, _) \<Rightarrow>
             if lastHeaderField m \<noteq> [] then add_to_header (lastHeaderField m) line m else m)"

definition GetHeader :: "string \<Rightarrow> Mail \<Rightarrow> string option" where
  "GetHeader key m = map_option (\<lambda>h. cstr (strValue h)) (find (\<lambda>h. strKey h = key) (headers m))"

definition GetRawHeader :: "string \<Rightarrow> Mail \<Rightarrow> string option" where
  "GetRawHeader key m = map_option (\<lambda>h. cstr (strRawValue h)) (find (\<lambda>h. strKey h = key) (headers m))"

definition GetHeaderFields :: "Mail \<Rightarrow> string list" where
  "GetHeaderFields m = map strKey (headers m)"

text \<open>\<open>ParseInfo\<close>: whether there are attachments, and the priority.\<close>

definition ParseInfo :: "Mail \<Rightarrow> bool \<times> string" where
  "ParseInfo m =
     ((case GetHeader ''content-type'' m of None \<Rightarrow> False | Some t \<Rightarrow> InString t ''multipart/mixed''),
      (case GetHeader ''x-priority'' m of
         None \<Rightarrow> ''normal''
       | Some t \<Rightarrow> if atoi t = 5 then ''low'' else if atoi t = 1 then ''high'' else ''normal''))"

section \<open>Parts\<close>

datatype MailStructItem =
  MailStructItem (iNr: nat) (strHeader: string) (strHeader2: string) (strText: string)
    (vChildItems: "MailStructItem list") (cHeaders: Mail)

definition set_iNr :: "nat \<Rightarrow> MailStructItem \<Rightarrow> MailStructItem" where
  "set_iNr n i = MailStructItem n (strHeader i) (strHeader2 i) (strText i) (vChildItems i) (cHeaders i)"

text \<open>The header, the same with an empty line, and the text.\<close>

definition split_message :: "string \<Rightarrow> string \<times> string \<times> string" where
  "split_message msg =
     (case find_sub [CR, NL, CR, NL] msg of
        Some p \<Rightarrow> (take p msg, take p msg @ [CR, NL, CR, NL], drop (p + 4) msg)
      | None \<Rightarrow>
          (case find_sub [NL, NL] msg of
             Some p \<Rightarrow> (take p msg, take p msg @ [CR, NL, CR, NL], drop (p + 2) msg)
           | None \<Rightarrow> (msg, [], msg)))"

definition parse_headers :: "string \<Rightarrow> Mail" where
  "parse_headers h = foldl (\<lambda>m l. Mail_Parse m (cstr l)) (new_Mail False) (Explode h NL)"

definition cut_first :: "char list \<Rightarrow> string \<Rightarrow> string" where
  "cut_first cs s = (case filter (\<lambda>c. c \<in> set s) cs of [] \<Rightarrow> s | c # _ \<Rightarrow> cut_at c s)"

definition boundary_of :: "string \<Rightarrow> string option" where
  "boundary_of ct =
     (case find_sub ''boundary='' (map c_tolower ct) of
        None \<Rightarrow> None
      | Some p \<Rightarrow>
          let b = drop (p + 9) ct;
              b1 = (if b \<noteq> [] \<and> hd b = DQUOTE then tl b else b)
          in Some (cut_at (CHR '';'') (cut_first [DQUOTE, CHR '' '', NL] b1)))"

lemma cstr_length: "length (cstr s) \<le> length s"
  by (simp add: cstr_def length_takeWhile_le)

text \<open>
  The loop over a copy of the text, in which NULs are written where a part ends; the places
  where the parts begin and the copy.
\<close>

function split_parts :: "string \<Rightarrow> nat \<Rightarrow> string \<Rightarrow> nat list \<times> string" where
  "split_parts b pos copy =
     (let token = [CR, NL] @ ''--'' @ b @ [CR, NL]; fin_token = ''--'' @ b @ ''--''
      in case find_sub token (cstr (drop pos copy)) of
           None \<Rightarrow> ([], copy)
         | Some d \<Rightarrow>
             let pch = pos + d;
                 copy1 = (case find_sub fin_token (cstr (drop pch copy)) of
                            None \<Rightarrow> copy | Some t \<Rightarrow> copy[pch + t := NUL]);
                 (ps, copy2) = split_parts b (pch + 1) (copy1[pch := NUL])
             in ((pch + length token) # ps, copy2))"
  by pat_completeness auto

termination
proof (relation "measure (\<lambda>(b, pos, copy). length copy - pos)", goal_cases)
  case (2 b pos copy tok fin d pch copy1)
  then have "d + length tok \<le> length (cstr (drop pos copy))" using find_sub_Some by metis
  moreover have "0 < length tok" using 2 by simp
  ultimately have "d < length copy - pos"
    using cstr_length [of "drop pos copy", unfolded length_drop] by linarith
  moreover have "length copy1 = length copy" using 2 by (simp split: option.splits)
  ultimately show ?case using 2 by simp
qed simp

declare split_parts.simps [simp del]

definition part_texts :: "string \<Rightarrow> string \<Rightarrow> string list" where
  "part_texts b txt =
     (let (ps, copy) = split_parts b 0 (cstr ([CR, NL] @ txt)) in map (\<lambda>p. cstr (drop p copy)) ps)"

fun parse_parts :: "(string \<Rightarrow> MailStructItem option) \<Rightarrow> nat \<Rightarrow> string list \<Rightarrow> MailStructItem list option" where
  "parse_parts rec n [] = Some []"
| "parse_parts rec n (p # ps) =
     (case rec p of
        None \<Rightarrow> None
      | Some i \<Rightarrow> map_option (Cons (set_iNr (Suc n) i)) (parse_parts rec (Suc n) ps))"

fun MailParser_Parse :: "nat \<Rightarrow> string \<Rightarrow> MailStructItem option" where
  "MailParser_Parse 0 msg = None"
| "MailParser_Parse (Suc n) msg =
     (case split_message msg of
        (h, h2, txt) \<Rightarrow>
          let m = parse_headers h; item = MailStructItem 0 h h2 txt [] m
          in case GetHeader ''content-type'' m of
               None \<Rightarrow> Some item
             | Some ct \<Rightarrow>
                 if InString ct ''multipart/''
                 then (case boundary_of ct of
                         None \<Rightarrow> Some item
                       | Some b \<Rightarrow>
                           map_option (\<lambda>ps. MailStructItem 0 h h2 txt ps m)
                             (parse_parts (MailParser_Parse n) 0 (part_texts b txt)))
                 else if InString ct ''message/rfc822'' then MailParser_Parse n txt
                 else Some item)"

section \<open>Body structure\<close>

definition quoted :: "string \<Rightarrow> string" where
  "quoted s = [DQUOTE] @ Escape s @ [DQUOTE]"

definition unquote :: "string \<Rightarrow> string" where
  "unquote v =
     (if v \<noteq> [] \<and> hd v = DQUOTE
      then let v1 = tl v in if v1 \<noteq> [] \<and> last v1 = DQUOTE then butlast v1 else v1
      else v)"

definition key_val :: "string \<Rightarrow> string" where
  "key_val item =
     (case find_chr (CHR ''='') item of
        None \<Rightarrow> []
      | Some p \<Rightarrow> quoted (Trim (take p item) blanks) @ '' '' @
                  quoted (unquote (Trim (drop (p + 1) item) blanks)) @ '' '')"

text \<open>\<open>ParseKeyVal\<close> on the text built so far, which is not empty.\<close>

definition ParseKeyVal :: "string \<Rightarrow> string \<Rightarrow> string" where
  "ParseKeyVal s struct =
     (let t = struct @ concat (map key_val (Explode s (CHR '';'')))
      in if last t = CHR '' '' then butlast t else t)"

definition params :: "string \<Rightarrow> string" where
  "params s = ParseKeyVal s '' ('' @ '')''"

definition nil_or_quoted :: "string option \<Rightarrow> string" where
  "nil_or_quoted v = (case v of None \<Rightarrow> '' NIL'' | Some s \<Rightarrow> '' '' @ quoted s)"

definition nonempty :: "string option \<Rightarrow> string option" where
  "nonempty v = (case v of Some [] \<Rightarrow> None | _ \<Rightarrow> v)"

text \<open>Type, subtype and parameters of a content type; a disposition and its parameters.\<close>

definition split_type :: "string \<Rightarrow> string \<times> string \<times> string" where
  "split_type ct =
     (let (ty, sub) = (case find_chr (CHR ''/'') ct of
                         None \<Rightarrow> ([], []) | Some p \<Rightarrow> (take p ct, drop (p + 1) ct))
      in case find_chr (CHR '';'') sub of
           Some q \<Rightarrow> (ty, take q sub, drop (q + 1) sub)
         | None \<Rightarrow> (case find_chr (CHR '';'') ty of
                      Some q \<Rightarrow> (ty, take q ty, drop (q + 1) ty)
                    | None \<Rightarrow> (ty, sub, [])))"

definition split_disposition :: "string \<Rightarrow> string \<times> string" where
  "split_disposition d =
     (case find_chr (CHR '';'') d of None \<Rightarrow> (d, []) | Some q \<Rightarrow> (take q d, drop (q + 1) d))"

definition disposition_text :: "string \<Rightarrow> string" where
  "disposition_text cd =
     (let (d, ps) = split_disposition cd
      in if d = [] \<and> ps = [] then '' NIL''
         else '' ('' @ (if d = [] then ''NIL'' else quoted d) @
              (if ps = [] then '' NIL'' else params ps) @ '')'')"

definition header_or_empty :: "string \<Rightarrow> Mail \<Rightarrow> string" where
  "header_or_empty key m = (case GetHeader key m of None \<Rightarrow> [] | Some v \<Rightarrow> v)"

definition multipart_tail :: "bool \<Rightarrow> Mail \<Rightarrow> string" where
  "multipart_tail ext m =
     (case split_type (header_or_empty ''content-type'' m) of
        (ty, sub, ps) \<Rightarrow>
          nil_or_quoted (nonempty (Some sub)) @
          (if ext then (if ps = [] then '' NIL'' else params ps) @
                       disposition_text (header_or_empty ''content-disposition'' m) @ '' NIL NIL''
           else []))"

definition single_part :: "bool \<Rightarrow> Mail \<Rightarrow> string \<Rightarrow> string" where
  "single_part ext m txt =
     (case split_type (header_or_empty ''content-type'' m) of
        (ty, sub, ps) \<Rightarrow>
          (if ty = [] then quoted ''TEXT'' else quoted ty) @
          '' '' @ (if sub = [] then quoted ''PLAIN'' else quoted sub) @
          (if ps = [] then '' ('' @ quoted ''CHARSET'' @ '' '' @ quoted ''us-ascii'' @ '')'' else params ps) @
          nil_or_quoted (nonempty (GetHeader ''content-id'' m)) @
          nil_or_quoted (nonempty (GetHeader ''content-description'' m)) @
          nil_or_quoted (nonempty (GetHeader ''content-transfer-encoding'' m)) @
          '' '' @ show_nat (length txt) @
          (if ty = [] \<or> strcaseeq ty ''text''
           then '' '' @ show_nat (1 + length (filter (\<lambda>c. c = NL) txt)) else []) @
          (if ext then nil_or_quoted (GetHeader ''content-md5'' m) @
                       disposition_text (header_or_empty ''content-disposition'' m) @
                       nil_or_quoted (GetHeader ''content-language'' m) @
                       nil_or_quoted (GetHeader ''content-location'' m)
           else []))"

fun BodyStructure :: "bool \<Rightarrow> MailStructItem \<Rightarrow> string" where
  "BodyStructure ext (MailStructItem n h h2 txt kids m) =
     ''('' @
     (if kids \<noteq> [] then concat (map (BodyStructure ext) kids) @ multipart_tail ext m
      else single_part ext m txt) @ '')''"

end
