(* ===== verification/Imap.thy ===== *)
theory Imap
  imports ImapMail
begin

text \<open>
  The IMAP commands outside a selected mailbox (src/imap/nonauth.cpp, tls.cpp, auth.cpp and the
  general ones of imap.cpp), and \<open>ReportDelta\<close> (src/imap/imaphelper.cpp), which tells the
  client what has changed in its mailbox.
\<close>

section \<open>Environment\<close>

text \<open>
  The database as it is at each poll of an IDLE command that starts with a given database; what
  becomes of the statement that stores a message whose \<open>Message-ID\<close> breaks out of its literal;
  the name in the certificate for push notifications.
\<close>

record imap_env = env +
  idle_worlds :: "world \<Rightarrow> world list"
  sql_other :: "string \<Rightarrow> world \<Rightarrow> (int \<times> world) option"
  apns_topic :: string

section \<open>Reports of changes\<close>

datatype report = EXPUNGE int | FETCH_FLAGS int int | EXISTS int | RECENT int

definition report_text :: "report \<Rightarrow> string" where
  "report_text r =
     (case r of
        EXPUNGE n \<Rightarrow> show_int n @ '' EXPUNGE''
      | FETCH_FLAGS n f \<Rightarrow> show_int n @ '' FETCH (FLAGS ('' @ PrintFlags f @ ''))''
      | EXISTS n \<Rightarrow> show_int n @ '' EXISTS''
      | RECENT n \<Rightarrow> show_int n @ '' RECENT'')"

definition print_reports :: "report list \<Rightarrow> 'y imap_scheme \<Rightarrow> 'y imap_scheme" where
  "print_reports rs s = foldl (\<lambda>t r. untagged (report_text r) t) s rs"

definition lower_sequence :: "IMAPMsg \<Rightarrow> IMAPMsg" where
  "lower_sequence m = m\<lparr>iSequenceID := iSequenceID m - 1\<rparr>"

text \<open>The inner loop: old messages are dropped until one has the given UID.\<close>

fun drop_until :: "int \<Rightarrow> IMAPMsg list \<Rightarrow> report list \<times> IMAPMsg list" where
  "drop_until uid [] = ([], [])"
| "drop_until uid (m # ms) =
     (if iUID m = uid then ([], m # ms)
      else map_prod (Cons (EXPUNGE (iSequenceID m))) id (drop_until uid (map lower_sequence ms)))"

lemma drop_until_length: "length (snd (drop_until uid ms)) \<le> length ms"
  by (induction uid ms rule: drop_until.induct) auto

text \<open>
  The first loop, over both lists at once: the reports and the old list that is left. The last
  clauses are those in which one of the iterators has reached its end.
\<close>

fun sync_lists :: "IMAPMsg list \<Rightarrow> IMAPMsg list \<Rightarrow> report list \<times> IMAPMsg list" where
  "sync_lists old [] = ([], old)"
| "sync_lists [] (n # ns) = ([], [])"
| "sync_lists (m # ms) (n # ns) =
     (case drop_until (iUID n) (m # ms) of
        (rs, []) \<Rightarrow> (rs, [])
      | (rs, k # ks) \<Rightarrow> (case sync_lists ks ns of (rs2, old) \<Rightarrow> (rs @ rs2, k # old)))"

text \<open>The second block: what the old list has beyond the length of the new one.\<close>

definition drop_surplus :: "IMAPMsg list \<Rightarrow> IMAPMsg list \<Rightarrow> report list \<times> IMAPMsg list" where
  "drop_surplus old new =
     (if length new < length old
      then (replicate (length old - length new) (EXPUNGE (iSequenceID (old ! length new))),
            take (length new) old)
      else ([], old))"

fun changed_flags :: "IMAPMsg list \<Rightarrow> IMAPMsg list \<Rightarrow> report list" where
  "changed_flags (m # ms) (n # ns) =
     (if iUID n \<noteq> iUID m \<or> iSequenceID n \<noteq> iSequenceID m then []
      else (if iFlags n \<noteq> iFlags m then [FETCH_FLAGS (iSequenceID n) (iFlags n)] else []) @
           changed_flags ms ns)"
| "changed_flags _ _ = []"

definition ReportDelta :: "IMAPMsg list \<Rightarrow> IMAPMsg list \<Rightarrow> report list" where
  "ReportDelta old new =
     (let (r1, old1) = sync_lists old new;
          (r2, old2) = drop_surplus old1 new;
          expunged = (r1 \<noteq> [] \<or> r2 \<noteq> [])
      in r1 @ r2 @ changed_flags old2 new @
         (if length new \<noteq> length old \<or> expunged then [EXISTS (int (length new))] else []) @
         (if CountNotFlaggedMails new FLAG_SEEN \<noteq> CountNotFlaggedMails old FLAG_SEEN
          then [RECENT (CountNotFlaggedMails new FLAG_SEEN)] else []))"

text \<open>Reading the selected folder again and telling the client what has changed.\<close>

definition refresh_mails :: "'x env_scheme \<Rightarrow> int \<Rightarrow> 'y imap_scheme \<Rightarrow> 'y imap_scheme" where
  "refresh_mails e gen s =
     (case FetchMessages e (wld s) (iSelected s) (iUserID s) (iLimit s) (bReadonly s) of
        None \<Rightarrow> s\<lparr>failed := True\<rparr>
      | Some (new, w) \<Rightarrow>
          (print_reports (ReportDelta (vMessages s) new) (s\<lparr>wld := w, iGeneration := gen\<rparr>))
            \<lparr>vMessages := new\<rparr>)"

section \<open>Commands of any state\<close>

definition IMAP_Capability :: "'x env_scheme \<Rightarrow> 'y imap_scheme \<Rightarrow> 'y imap_scheme" where
  "IMAP_Capability e s =
     tagged '' OK CAPABILITY completed''
       (untagged (''CAPABILITY IMAP4rev1 '' @
          (if bTLSMode s \<or> \<not> tls_available e then [] else ''STARTTLS '') @
          ''AUTH=PLAIN AUTH=LOGIN QUOTA IDLE'' @
          (if bAPNS s then '' XAPPLEPUSHSERVICE'' else [])) s)"

definition IMAP_Noop :: "'y imap_scheme \<Rightarrow> 'y imap_scheme" where
  "IMAP_Noop s = tagged '' OK NOOP completed'' s"

definition IMAP_StartTLS :: "'x env_scheme \<Rightarrow> 'y imap_scheme \<Rightarrow> 'y imap_scheme" where
  "IMAP_StartTLS e s =
     (if bTLSMode s then tagged '' NO Already in TLS mode'' s
      else let s1 = tagged '' OK STARTTLS completed'' s
           in case begin_tls e of
                None \<Rightarrow> s1\<lparr>bTLSMode := True, bIO_SSL := True\<rparr>
              | Some err \<Rightarrow> tagged ('' NO '' @ err) (s1\<lparr>bIO_SSL := False\<rparr>))"

section \<open>Login\<close>

definition imap_login_rows :: "'x env_scheme \<Rightarrow> world \<Rightarrow> string \<Rightarrow> string \<Rightarrow> (user_row \<times> group_row) list" where
  "imap_login_rows e w usr pass =
     filter (\<lambda>(u, g). password_ok e u pass \<and> g_id g = u_gruppe u \<and> g_imap g = ''yes'' \<and>
               u_locked u = ''no'' \<and> u_gesperrt u = ''no'' \<and>
               (sql_eq e (u_email u) usr \<or> u_id u = GetAlias e w usr))
       (List.product (users w) (groups w))"

definition storage_of :: "'x env_scheme \<Rightarrow> user_row \<Rightarrow> group_row \<Rightarrow> int" where
  "storage_of e u g =
     (if cfg_is1 e ''salted_passwords'' \<and> cfg_is1 e ''user_space_add''
      then g_storage g + u_mailspace_add u else g_storage g)"

definition imap_limit_of :: "'x env_scheme \<Rightarrow> world \<Rightarrow> int \<Rightarrow> int" where
  "imap_limit_of e w userID =
     (if cfg_int e ''user_choseimaplimit'' = 1
      then atoi (GetUserPref e w userID ''imapLimit'' (cfg_str e ''imap_limit''))
      else cfg_int e ''imap_limit'')"

text \<open>The loop over the rows: whether the last row was accepted, and whether one was refused.\<close>

definition login_row ::
  "'x env_scheme \<Rightarrow> bool \<times> bool \<times> 'y imap_scheme \<Rightarrow> user_row \<times> group_row \<Rightarrow> bool \<times> bool \<times> 'y imap_scheme" where
  "login_row e acc row =
     (case acc of (bOk, issue, s) \<Rightarrow>
        (case row of (u, g) \<Rightarrow>
           if web_login_missing e (wld s) (u_id u) (u_lastlogin u) then (False, True, s)
           else (True, issue,
                 s\<lparr>iGeneration := u_mailbox_generation u,
                   iStructureGeneration := u_structure_generation u,
                   iSizeLimit := word_of_int (storage_of e u g), iUserID := u_id u,
                   strUser := u_email u, iLimit := imap_limit_of e (wld s) (u_id u)\<rparr>)))"

definition DoLogin :: "'x env_scheme \<Rightarrow> 'y imap_scheme \<Rightarrow> 'y imap_scheme" where
  "DoLogin e s = s\<lparr>iState := IMAP_STATE_AUTHENTICATED, cFolders := FetchFolders e (wld s) (iUserID s)\<rparr>"

text \<open>The check and the answer, which LOGIN and AUTHENTICATE have in common.\<close>

definition check_login :: "'x env_scheme \<Rightarrow> string \<Rightarrow> string \<Rightarrow> string \<Rightarrow> 'y imap_scheme \<Rightarrow> 'y imap_scheme" where
  "check_login e cmd usr pass s =
     (case foldl (login_row e) (False, False, s) (imap_login_rows e (wld s) usr pass) of
        (bOk, issue, s1) \<Rightarrow>
          if bOk
          then let s2 = DoLogin e s1
               in tagged ('' OK '' @ cmd @ '' completed'')
                    (s2\<lparr>wld := set_last_imap (wld s2) (iUserID s2), iLastLoginUpdate := now (wld s2)\<rparr>)
          else let s2 = tagged ('' NO '' @ cmd @ '' failed: '' @
                          (if issue then ''Please login to your webmail account first''
                           else ''Invalid login'')) (s1\<lparr>iBadTries := iBadTries s1 + 1\<rparr>);
                   (b, w) = Failban_LoginFailed e (wld s2) (PEER_IP e s2) FAILBAN_IMAPLOGIN
               in s2\<lparr>wld := w, bBanned := (b \<or> bBanned s2)\<rparr>)"

definition IMAP_Login :: "'x env_scheme \<Rightarrow> 'y imap_scheme \<Rightarrow> 'y imap_scheme" where
  "IMAP_Login e s =
     (let (a, s1) = ParseLine e 0 s
      in if length a = 4 then check_login e ''LOGIN'' (a ! 2) (a ! 3) s1
         else untagged ''BAD Syntax: LOGIN [user] [password]'' s1)"

definition read_text :: "'y imap_scheme \<Rightarrow> string option \<times> 'y imap_scheme" where
  "read_text s = map_prod (map_option cstr) id (read_line IMAP_MAXLINE s)"

definition base64_text :: "string \<Rightarrow> string" where
  "base64_text t = (case Base64Decode False t of None \<Rightarrow> [] | Some bs \<Rightarrow> cstr (map char_of_byte bs))"

definition IMAP_Authenticate :: "'x env_scheme \<Rightarrow> 'y imap_scheme \<Rightarrow> 'y imap_scheme" where
  "IMAP_Authenticate e s =
     (let (a, s1) = ParseLine e 0 s
      in if length a \<noteq> 3 \<and> length a \<noteq> 4
         then untagged ''BAD Syntax: AUTHENTICATE [method]'' s1
         else if strcaseeq (a ! 2) ''plain''
         then let (input, s2) = (if length a = 4 then (Some (a ! 3), s1)
                                 else read_text (printf (''+'' @ CRLF) s1))
              in (case input of
                    None \<Rightarrow> s2
                  | Some t \<Rightarrow>
                      (case ParseIMAPAuthPlain t of
                         None \<Rightarrow> check_login e ''AUTHENTICATE'' [] [] s2
                       | Some (usr, pass) \<Rightarrow> check_login e ''AUTHENTICATE'' usr pass s2))
         else if strcaseeq (a ! 2) ''login''
         then (case read_text (printf (''+ VXNlcm5hbWU='' @ CRLF) s1) of
                 (None, s2) \<Rightarrow> s2
               | (Some t, s2) \<Rightarrow>
                   (case read_text (printf (''+ UGFzc3dvcmQ='' @ CRLF) s2) of
                      (None, s3) \<Rightarrow> s3
                    | (Some p, s3) \<Rightarrow> check_login e ''AUTHENTICATE'' (base64_text t) (base64_text p) s3))
         else tagged '' NO AUTHENTICATE failed: Unknown authentication mechanism'' s1)"

section \<open>Folders\<close>

definition strip_slash :: "string \<Rightarrow> string" where
  "strip_slash n = (if n \<noteq> [] \<and> last n = CHR ''/'' then butlast n else n)"

definition mailbox_name :: "string \<Rightarrow> string" where
  "mailbox_name arg = strip_slash (StrDecode arg)"

definition find_folder :: "string \<Rightarrow> 'y imap_scheme \<Rightarrow> IMAPFolder option" where
  "find_folder name s = find (\<lambda>f. strcaseeq (strFullName f) name) (cFolders s)"

text \<open>The name split at its last slash: the reference, if there is one, and the rest.\<close>

definition split_path :: "string \<Rightarrow> string option \<times> string" where
  "split_path n =
     (case last_pos (CHR ''/'') n of
        None \<Rightarrow> (None, n)
      | Some p \<Rightarrow> (Some (take p n), drop (p + 1) n))"

definition read_folders :: "'x env_scheme \<Rightarrow> 'y imap_scheme \<Rightarrow> 'y imap_scheme" where
  "read_folders e s = s\<lparr>cFolders := FetchFolders e (wld s) (iUserID s)\<rparr>"

definition insert_folder :: "world \<Rightarrow> int \<Rightarrow> string \<Rightarrow> int \<Rightarrow> int \<Rightarrow> world" where
  "insert_folder w userID titel parent subscribed =
     w\<lparr>folders := folders w @ [\<lparr>f_id = next_id w, f_userid = userID, f_parent = parent, f_titel = titel,
                                 f_subscribed = subscribed, f_intelligent = 0, f_link = 0\<rparr>],
       next_id := next_id w + 1\<rparr>"

definition IMAP_Create :: "'x env_scheme \<Rightarrow> 'y imap_scheme \<Rightarrow> 'y imap_scheme" where
  "IMAP_Create e s =
     (let (a, s1) = ParseLine e 0 s
      in if length a \<noteq> 3 then untagged ''BAD Syntax: CREATE [mailboxname]'' s1
         else let name = mailbox_name (a ! 2)
              in if find_folder name s1 \<noteq> None then tagged '' NO CREATE failed: Folder exists'' s1
                 else let (ref, title) = split_path name;
                          parent = (case ref of None \<Rightarrow> Some (-1)
                                    | Some r \<Rightarrow> map_option iID (find_folder r s1))
                      in (case parent of
                            None \<Rightarrow> tagged '' NO CREATE failed: Invalid folder name'' s1
                          | Some p \<Rightarrow>
                              let w = IncGeneration (insert_folder (wld s1) (iUserID s1) title p 0) (iUserID s1) 0 1
                              in tagged '' OK CREATE completed'' (read_folders e (s1\<lparr>wld := w\<rparr>))))"

text \<open>
  RENAME. The branch for INBOX (folder 0) stands behind a test that excludes it and is never taken.
\<close>

definition rename_row :: "world \<Rightarrow> int \<Rightarrow> string \<Rightarrow> int \<Rightarrow> world" where
  "rename_row w d titel parent =
     w\<lparr>folders := map (\<lambda>f. if f_id f = d then f\<lparr>f_titel := titel, f_parent := parent\<rparr> else f) (folders w)\<rparr>"

definition IMAP_Rename :: "'x env_scheme \<Rightarrow> 'y imap_scheme \<Rightarrow> 'y imap_scheme" where
  "IMAP_Rename e s =
     (let (a, s1) = ParseLine e 0 s
      in if length a \<noteq> 4 then untagged ''BAD Syntax: RENAME [mailboxname] [newmailboxname]'' s1
         else let name = mailbox_name (a ! 2); new = mailbox_name (a ! 3)
              in (case find_folder name s1 of
                    None \<Rightarrow> tagged '' NO RENAME failed: Source folder does not exist'' s1
                  | Some f \<Rightarrow>
                      if iID f \<le> 0 then tagged '' NO RENAME failed: Source folder does not exist'' s1
                      else if find_folder new s1 \<noteq> None
                      then tagged '' NO RENAME failed: Destination folder exists'' s1
                      else let (ref, title) = split_path new;
                               parent = (case ref of None \<Rightarrow> Some (-1)
                                         | Some r \<Rightarrow>
                                             (case find_folder r s1 of
                                                None \<Rightarrow> None
                                              | Some g \<Rightarrow> if iID g = iID f \<or> iID g < 0 then None
                                                          else Some (iID g)))
                           in (case parent of
                                 None \<Rightarrow> tagged '' NO RENAME failed: Invalid parent of destination folder'' s1
                               | Some p \<Rightarrow>
                                   let w = IncGeneration (rename_row (wld s1) (iID f) title p) (iUserID s1) 1 1
                                   in tagged '' OK RENAME completed'' (read_folders e (s1\<lparr>wld := w\<rparr>)))))"

definition IMAP_Subscribe :: "'x env_scheme \<Rightarrow> bool \<Rightarrow> 'y imap_scheme \<Rightarrow> 'y imap_scheme" where
  "IMAP_Subscribe e unsub s =
     (let (a, s1) = ParseLine e 0 s; cmd = (if unsub then ''UNSUBSCRIBE'' else ''SUBSCRIBE'')
      in if length a \<noteq> 3 then untagged (''BAD Syntax: '' @ cmd @ '' [mailboxname]'') s1
         else (case find_folder (mailbox_name (a ! 2)) s1 of
                 None \<Rightarrow> tagged ('' NO '' @ cmd @ '' failed: Folder does not exist'') s1
               | Some f \<Rightarrow>
                   let w = (wld s1)\<lparr>folders := map (\<lambda>r. if f_id r = iID f
                                then r\<lparr>f_subscribed := (if unsub then 0 else 1)\<rparr> else r) (folders (wld s1))\<rparr>
                   in tagged ('' OK '' @ cmd @ '' completed'')
                        (s1\<lparr>wld := IncGeneration w (iUserID s1) 1 1\<rparr>)))"

text \<open>The depth of the recursion is bounded by the number of folders unless they form a cycle.\<close>

definition IMAP_Delete :: "'x env_scheme \<Rightarrow> 'y imap_scheme \<Rightarrow> 'y imap_scheme" where
  "IMAP_Delete e s =
     (let (a, s1) = ParseLine e 0 s
      in if length a \<noteq> 3 then untagged ''BAD Syntax: DELETE [mailboxname]'' s1
         else (case find_folder (mailbox_name (a ! 2)) s1 of
                 None \<Rightarrow> tagged '' NO DELETE failed: Folder does not exist'' s1
               | Some f \<Rightarrow>
                   if iID f \<le> 0 \<or>
                      list_ex (strcaseeq (strFullName f)) [''INBOX'', SENT e, SPAM e, DRAFTS e, TRASH e]
                   then tagged '' NO DELETE failed: Folder does not exist'' s1
                   else (case DeleteFolder (length (folders (wld s1)) + 1) e (iUserID s1) (wld s1) (iID f) of
                           None \<Rightarrow> s1\<lparr>failed := True\<rparr>
                         | Some w \<Rightarrow> tagged '' OK DELETE completed'' (read_folders e (s1\<lparr>wld := w\<rparr>)))))"

text \<open>LIST and LSUB.\<close>

definition search_pattern :: "string \<Rightarrow> string \<Rightarrow> string" where
  "search_pattern ref mailbox = ''^'' @ ref @ TransformWildcards mailbox @ ''$''"

definition list_matches :: "'x env_scheme \<Rightarrow> string \<Rightarrow> bool \<Rightarrow> IMAPFolder \<Rightarrow> bool" where
  "list_matches e pat lsub f \<longleftrightarrow>
     (Match e pat (strFullName f) \<or> (strcaseeq (strFullName f) ''INBOX'' \<and> Match e pat ''INBOX'')) \<and>
     (lsub \<longrightarrow> bSubscribed f)"

definition IMAP_List :: "'x env_scheme \<Rightarrow> bool \<Rightarrow> 'y imap_scheme \<Rightarrow> 'y imap_scheme" where
  "IMAP_List e lsub s =
     (let (a, s1) = ParseLine e 0 s; cmd = (if lsub then ''LSUB'' else ''LIST'')
      in if length a \<noteq> 4 then untagged (''BAD Syntax: '' @ cmd @ '' [refname] [mailboxname]'') s1
         else let ref = StrDecode (a ! 2); mailbox = StrDecode (a ! 3)
              in if mailbox = []
                 then tagged ('' OK '' @ cmd @ '' completed'')
                        (untagged (cmd @ '' ('' @ [BACKSLASH] @ ''NoSelect) '' @ [DQUOTE] @ ''/'' @ [DQUOTE] @
                           '' '' @ [DQUOTE, DQUOTE]) s1)
                 else tagged ('' OK '' @ cmd @ '' completed'')
                        (foldl (\<lambda>t f. untagged (cmd @ '' ('' @ strAttributes f @ '') '' @ [DQUOTE] @ ''/'' @
                                   [DQUOTE] @ '' '' @ [DQUOTE] @ Escape (StrEncode (strFullName f)) @ [DQUOTE]) t)
                           s1 (filter (list_matches e (search_pattern ref mailbox) lsub) (cFolders s1))))"

section \<open>Quota\<close>

definition quota_line :: "'y imap_scheme \<Rightarrow> string" where
  "quota_line s =
     ''QUOTA '' @ strUser s @ '' (STORAGE '' @
     show_nat (unat (UserSize (wld s) (iUserID s) div 1024)) @ '' '' @
     show_nat (unat (iSizeLimit s div 1024)) @ '')''"

definition IMAP_GetQuota :: "'x env_scheme \<Rightarrow> 'y imap_scheme \<Rightarrow> 'y imap_scheme" where
  "IMAP_GetQuota e s =
     (let (a, s1) = ParseLine e 0 s
      in if length a \<noteq> 3 then untagged ''BAD Syntax: GETQUOTAROOT [mailboxname]'' s1
         else if strcaseeq (a ! 2) (strUser s1)
         then tagged '' OK GETQUOTA completed'' (untagged (quota_line s1) s1)
         else tagged '' NO Permission denied'' s1)"

definition IMAP_GetQuotaRoot :: "'x env_scheme \<Rightarrow> 'y imap_scheme \<Rightarrow> 'y imap_scheme" where
  "IMAP_GetQuotaRoot e s =
     (let (a, s1) = ParseLine e 0 s
      in if length a \<noteq> 3 then untagged ''BAD Syntax: GETQUOTAROOT [mailboxname]'' s1
         else tagged '' OK GETQUOTAROOT completed''
                (untagged (quota_line s1)
                  (untagged (''QUOTAROOT '' @ (a ! 2) @ '' '' @ strUser s1) s1)))"

definition IMAP_SetQuota :: "'y imap_scheme \<Rightarrow> 'y imap_scheme" where
  "IMAP_SetQuota s = tagged '' NO Permission denied'' s"

section \<open>STATUS\<close>

definition status_item :: "IMAPMsg list \<Rightarrow> string \<Rightarrow> string" where
  "status_item ms key =
     (if strcaseeq key ''messages'' then ''MESSAGES '' @ show_int (int (length ms))
      else if strcaseeq key ''recent'' then ''RECENT '' @ show_int (CountNotFlaggedMails ms FLAG_SEEN)
      else if strcaseeq key ''uidnext'' then ''UIDNEXT '' @ show_int (GetLastUID ms + 1)
      else if strcaseeq key ''uidvalidity'' then ''UIDVALIDITY 1''
      else if strcaseeq key ''unseen'' then ''UNSEEN '' @ show_int (CountFlaggedMails ms FLAG_UNREAD)
      else [])"

definition IMAP_Status :: "'x env_scheme \<Rightarrow> 'y imap_scheme \<Rightarrow> 'y imap_scheme" where
  "IMAP_Status e s =
     (let (a, s1) = ParseLine e 0 s
      in if length a \<noteq> 4 then untagged ''BAD Syntax: STATUS [mailboxname] [itemlist]'' s1
         else let name = mailbox_name (a ! 2)
              in (case find_folder name s1 of
                    None \<Rightarrow> tagged '' NO STATUS failed: Folder does not exist'' s1
                  | Some f \<Rightarrow>
                      if \<not> IsList (a ! 3)
                      then untagged ''BAD Syntax: STATUS [mailboxname] [itemlist]'' s1
                      else (case FetchMessages e (wld s1) (iID f) (iUserID s1) (iLimit s1) (bReadonly s1) of
                              None \<Rightarrow> s1\<lparr>failed := True\<rparr>
                            | Some (ms, w) \<Rightarrow>
                                tagged '' OK STATUS completed''
                                  (untagged (''STATUS '' @ [DQUOTE] @ Escape name @ [DQUOTE] @ '' ('' @
                                     join (CHR '' '') (map (status_item ms) (ParseList (a ! 3))) @ '')'')
                                     (s1\<lparr>wld := w\<rparr>)))))"

end
