(* ===== verification/Imap_Selected.thy ===== *)
theory Imap_Selected
  imports Imap
begin

text \<open>
  The IMAP commands that change mails (src/imap/selected.cpp, auth.cpp, imap.cpp): EXPUNGE, CLOSE,
  STORE, COPY, APPEND, SELECT and EXAMINE, IDLE and LOGOUT.
\<close>

section \<open>EXPUNGE and CLOSE\<close>

fun deleted_pos :: "IMAPMsg list \<Rightarrow> nat option" where
  "deleted_pos [] = None"
| "deleted_pos (m # ms) = (if FLAGGED FLAG_DELETED (iFlags m) then Some 0 else map_option Suc (deleted_pos ms))"

lemma deleted_pos_less: "deleted_pos ms = Some i \<Longrightarrow> i < length ms"
  by (induction ms arbitrary: i) (auto split: if_splits)

definition is_mail :: "int \<Rightarrow> int \<Rightarrow> mail_row \<Rightarrow> bool" where
  "is_mail d userID m \<longleftrightarrow> m_id m = d \<and> m_userid m = userID"

definition delete_mail :: "'x env_scheme \<Rightarrow> int \<Rightarrow> IMAPMsg \<Rightarrow> world \<Rightarrow> bool \<times> world" where
  "delete_mail e userID m w =
     (let haveBlobStorage = cfg_is1 e ''enable_blobstorage'';
          w1 = (if haveBlobStorage \<or> bFile m
                then snd (DeleteBlob e w (if haveBlobStorage then iBlobStorage m else 0)
                       BMBLOB_TYPE_MAIL (iMailID m) userID)
                else w);
          gone = (length (filter (is_mail (iMailID m) userID) (mails w1)) = 1);
          w2 = w1\<lparr>mails := filter (\<lambda>r. \<not> is_mail (iMailID m) userID r) (mails w1)\<rparr>;
          w3 = (if gone then w2\<lparr>attachments := filter (\<lambda>a. a \<noteq> (iMailID m, userID)) (attachments w2)\<rparr>
                else w2)
      in (gone, PostEvent w3 userID BMS_EVENT_DELETEMAIL (iMailID m) 0))"

definition remove_message :: "nat \<Rightarrow> IMAPMsg list \<Rightarrow> IMAPMsg list" where
  "remove_message i ms =
     map (\<lambda>m. if iSequenceID (ms ! i) < iSequenceID m then lower_sequence m else m)
       (take i ms @ drop (Suc i) ms)"

definition expunge_one ::
  "'x env_scheme \<Rightarrow> bool \<Rightarrow> nat \<Rightarrow> 64 word \<times> 'y imap_scheme \<Rightarrow> 64 word \<times> 'y imap_scheme" where
  "expunge_one e silent i acc =
     (case acc of (freed, s) \<Rightarrow>
        let m = vMessages s ! i;
            (gone, w) = delete_mail e (iUserID s) m (wld s);
            s1 = s\<lparr>wld := w, vMessages := remove_message i (vMessages s)\<rparr>
        in (if gone then freed + iSize m else freed,
            if silent then s1 else untagged (report_text (EXPUNGE (iSequenceID m))) s1))"

lemma printf_imap [simp]:
  "vMessages (printf x s) = vMessages s" "cFolders (printf x s) = cFolders s" "iState (printf x s) = iState s"
  "iSelected (printf x s) = iSelected s" "iGeneration (printf x s) = iGeneration s"
  "iStructureGeneration (printf x s) = iStructureGeneration s" "bReadonly (printf x s) = bReadonly s"
  "szTag (printf x s) = szTag s" "strUser (printf x s) = strUser s" "iLimit (printf x s) = iLimit s"
  "overrun (printf x s) = overrun s" "iBadTries (printf x s) = iBadTries s" "iSizeLimit (printf x s) = iSizeLimit s"
  "bAutoExpunge (printf x s) = bAutoExpunge s"
  by (simp_all add: printf_def)

lemma untagged_imap [simp]:
  "vMessages (untagged x s) = vMessages s" "cFolders (untagged x s) = cFolders s" "iState (untagged x s) = iState s"
  "iSelected (untagged x s) = iSelected s" "wld (untagged x s) = wld s" "iUserID (untagged x s) = iUserID s"
  "szTag (untagged x s) = szTag s" "bReadonly (untagged x s) = bReadonly s" "iLimit (untagged x s) = iLimit s"
  "iGeneration (untagged x s) = iGeneration s" "failed (untagged x s) = failed s" "overrun (untagged x s) = overrun s"
  "out (untagged x s) = out s @ [''* '' @ x @ CRLF]" "rest_of_input (untagged x s) = rest_of_input s"
  "bAutoExpunge (untagged x s) = bAutoExpunge s"
  by (simp_all add: untagged_def)

lemma tagged_imap [simp]:
  "vMessages (tagged x s) = vMessages s" "cFolders (tagged x s) = cFolders s" "iState (tagged x s) = iState s"
  "iSelected (tagged x s) = iSelected s" "wld (tagged x s) = wld s" "iUserID (tagged x s) = iUserID s"
  "szTag (tagged x s) = szTag s" "bReadonly (tagged x s) = bReadonly s" "iLimit (tagged x s) = iLimit s"
  "iGeneration (tagged x s) = iGeneration s" "failed (tagged x s) = failed s" "overrun (tagged x s) = overrun s"
  "out (tagged x s) = out s @ [szTag s @ x @ CRLF]" "rest_of_input (tagged x s) = rest_of_input s"
  "bAutoExpunge (tagged x s) = bAutoExpunge s"
  by (simp_all add: tagged_def)

lemma expunge_one_shrinks:
  "i < length (vMessages s) \<Longrightarrow>
     length (vMessages (snd (expunge_one e silent i (freed, s)))) < length (vMessages s)"
  by (auto simp: expunge_one_def remove_message_def Let_def split: prod.splits)

function expunge_loop ::
  "'x env_scheme \<Rightarrow> bool \<Rightarrow> 64 word \<times> 'y imap_scheme \<Rightarrow> 64 word \<times> 'y imap_scheme" where
  "expunge_loop e silent acc =
     (case deleted_pos (vMessages (snd acc)) of
        None \<Rightarrow> acc
      | Some i \<Rightarrow> expunge_loop e silent (expunge_one e silent i acc))"
  by pat_completeness auto

termination
  by (relation "measure (\<lambda>(e, silent, acc). length (vMessages (snd acc)))")
     (auto dest: deleted_pos_less intro!: expunge_one_shrinks)

declare expunge_loop.simps [simp del]

definition IMAP_Expunge :: "'x env_scheme \<Rightarrow> bool \<Rightarrow> 'y imap_scheme \<Rightarrow> 'y imap_scheme" where
  "IMAP_Expunge e silent s =
     (let (freed, s1) = expunge_loop e silent (0, s);
          modified = (deleted_pos (vMessages s) \<noteq> None);
          w1 = (if modified then IncGeneration (wld s1) (iUserID s1) 1 0 else wld s1);
          w2 = (if 0 < freed then release_space w1 (iUserID s1) freed else w1);
          s2 = s1\<lparr>wld := w2\<rparr>
      in if silent then s2 else tagged '' OK EXPUNGE completed'' s2)"

definition IMAP_Close :: "'x env_scheme \<Rightarrow> 'y imap_scheme \<Rightarrow> 'y imap_scheme" where
  "IMAP_Close e s =
     tagged '' OK CLOSE completed''
       ((IMAP_Expunge e True s)\<lparr>vMessages := [], iSelected := -1, iState := IMAP_STATE_AUTHENTICATED\<rparr>)"

definition IMAP_Check :: "'y imap_scheme \<Rightarrow> 'y imap_scheme" where
  "IMAP_Check s = tagged '' OK CHECK completed'' s"

definition IMAP_Logout :: "'x env_scheme \<Rightarrow> 'y imap_scheme \<Rightarrow> 'y imap_scheme" where
  "IMAP_Logout e s =
     (let s1 = (if iState s = IMAP_STATE_SELECTED
                then (if bAutoExpunge s then IMAP_Expunge e True s else s)\<lparr>vMessages := [], iSelected := -1\<rparr>
                else s)
      in tagged '' OK LOGOUT completed''
           (untagged ''BYE Have a nice day'' (s1\<lparr>iState := IMAP_STATE_LOGOUT\<rparr>)))"

section \<open>STORE\<close>

definition FLICKFLAG :: "bool \<Rightarrow> int \<Rightarrow> int \<Rightarrow> int" where
  "FLICKFLAG adding flag f =
     (if adding then (if \<not> FLAGGED flag f then FLAG flag f else f)
      else (if FLAGGED flag f then UNFLAG flag f else f))"

definition UNFLICKFLAG :: "bool \<Rightarrow> int \<Rightarrow> int \<Rightarrow> int" where
  "UNFLICKFLAG adding flag f =
     (if adding then (if FLAGGED flag f then UNFLAG flag f else f)
      else (if \<not> FLAGGED flag f then FLAG flag f else f))"

definition flick_step :: "bool \<Rightarrow> int \<Rightarrow> string \<Rightarrow> int" where
  "flick_step adding f name =
     (if strcaseeq name ''seen'' then UNFLICKFLAG adding FLAG_UNREAD f
      else if strcaseeq name ''answered'' then FLICKFLAG adding FLAG_ANSWERED f
      else if strcaseeq name ''deleted'' then FLICKFLAG adding FLAG_DELETED f
      else if strcaseeq name ''draft'' then FLICKFLAG adding FLAG_DRAFT f
      else if strcaseeq name ''recent'' then UNFLICKFLAG adding FLAG_SEEN f
      else if strcaseeq name ''flagged'' then FLICKFLAG adding FLAG_FLAGGED f
      else f)"

text \<open>What the data item asks for: the new flags of a message, and whether they are reported.\<close>

definition store_action :: "string \<Rightarrow> string \<Rightarrow> ((int \<Rightarrow> int) \<times> bool) option" where
  "store_action item v =
     (if strcaseeq item ''FLAGS'' then Some (\<lambda>_. FlagMaskFromList v, True)
      else if strcaseeq item ''FLAGS.SILENT'' then Some (\<lambda>_. FlagMaskFromList v, False)
      else if list_ex (strcaseeq item) [''+FLAGS'', ''+FLAGS.SILENT'', ''-FLAGS'', ''-FLAGS.SILENT'']
      then Some (\<lambda>f. foldl (flick_step (hd item = CHR ''+'')) f (ParseList v),
                 length item < 7 \<or> item ! 6 \<noteq> CHR ''.'')
      else None)"

definition in_range :: "bool \<Rightarrow> IMAPRange \<Rightarrow> IMAPMsg \<Rightarrow> bool" where
  "in_range uid r m = InMSGSet r (if uid then iUID m else iSequenceID m)"

definition set_flags :: "int \<Rightarrow> IMAPMsg \<Rightarrow> IMAPMsg" where
  "set_flags f m = m\<lparr>iFlags := f\<rparr>"

definition store_one ::
  "(int \<Rightarrow> int) \<Rightarrow> bool \<Rightarrow> bool \<Rightarrow> IMAPRange \<Rightarrow> 'y imap_scheme \<Rightarrow> nat \<Rightarrow> 'y imap_scheme" where
  "store_one new report uid r s i =
     (let m = vMessages s ! i; f = new (iFlags m)
      in if in_range uid r m
         then let s1 = s\<lparr>vMessages := (vMessages s)[i := set_flags f m],
                         wld := FlagMessage (wld s) f (iMailID m) (iUserID s) False\<rparr>
              in if report then untagged (report_text (FETCH_FLAGS (iSequenceID m) f)) s1 else s1
         else s)"

definition IMAP_Store :: "'x env_scheme \<Rightarrow> nat \<Rightarrow> bool \<Rightarrow> 'y imap_scheme \<Rightarrow> 'y imap_scheme" where
  "IMAP_Store e k uid s =
     (let (a, s1) = ParseLine e k s
      in if length a \<noteq> 5 then untagged ''BAD Syntax: STORE [messageset] [dataitem] [value]'' s1
         else let r = ParseMSGSet (a ! 2)
              in (case store_action (a ! 3) (a ! 4) of
                    None \<Rightarrow> tagged (if uid then '' OK STORE completed'' else '' NO STORE failed'') s1
                  | Some (new, report) \<Rightarrow>
                      let s2 = foldl (store_one new report uid r) s1 [0..<length (vMessages s1)]
                      in tagged (if uid \<or> list_ex (in_range uid r) (vMessages s1)
                                 then '' OK STORE completed'' else '' NO STORE failed'') s2))"

section \<open>COPY\<close>

definition store_blob :: "'x env_scheme \<Rightarrow> int \<Rightarrow> int \<Rightarrow> int \<Rightarrow> string \<Rightarrow> world \<Rightarrow> world" where
  "store_blob e provider_id userID d dat w =
     (case CreateBlobStorageProvider e w provider_id userID of
        None \<Rightarrow> w
      | Some SeparateFiles \<Rightarrow> snd (sf_storeBlob e w BMBLOB_TYPE_MAIL d dat)
      | Some (UserDB u sdb) \<Rightarrow> snd (ud_storeBlob e u sdb w BMBLOB_TYPE_MAIL d dat))"

definition blob_provider :: "'x env_scheme \<Rightarrow> int" where
  "blob_provider e = (if cfg_is1 e ''enable_blobstorage'' then cfg_int e ''blobstorage_provider'' else 0)"

text \<open>The row of a copy: without the body if there is a blob storage, not seen in its folder.\<close>

definition copied_row :: "'x env_scheme \<Rightarrow> int \<Rightarrow> int \<Rightarrow> mail_row \<Rightarrow> mail_row" where
  "copied_row e folder d m =
     m\<lparr>m_id := d, m_folder := folder, m_flags := UNFLAG FLAG_SEEN (m_flags m), m_color := 0,
       m_body := (if cfg_is1 e ''enable_blobstorage'' then [] else m_body m),
       m_blobstorage := blob_provider e\<rparr>"

definition copy_mail :: "'x env_scheme \<Rightarrow> int \<Rightarrow> int \<Rightarrow> IMAPMsg \<Rightarrow> mail_row \<Rightarrow> world \<Rightarrow> world" where
  "copy_mail e userID folder msg m w =
     (let d = next_id w;
          w1 = w\<lparr>mails := mails w @ [copied_row e folder d m], next_id := d + 1\<rparr>;
          w2 = (if bFile msg
                then (case GetMessageFP e w1 (iMailID msg) userID of
                        (None, v) \<Rightarrow> v
                      | (Some dat, v) \<Rightarrow> store_blob e (blob_provider e) userID d dat v)
                else w1)
      in PostEvent (add_space (IncGeneration w2 userID 1 0) userID (m_size m)) userID BMS_EVENT_STOREMAIL d 0)"

text \<open>One message: whether something was copied, whether there was no space.\<close>

definition copy_one ::
  "'x env_scheme \<Rightarrow> int \<Rightarrow> 64 word \<Rightarrow> int \<Rightarrow> bool \<times> bool \<times> world \<Rightarrow> IMAPMsg \<Rightarrow> bool \<times> bool \<times> world" where
  "copy_one e userID limit folder acc msg =
     (case acc of (bOk, bDiskFull, w) \<Rightarrow>
        if UserSize w userID + iSize msg \<le> limit
        then (case filter (is_mail (iMailID msg) userID) (mails w) of
                [] \<Rightarrow> (bOk, bDiskFull, w)
              | m # _ \<Rightarrow> (True, bDiskFull, copy_mail e userID folder msg m w))
        else (bOk, True, w))"

definition IMAP_Copy :: "'x env_scheme \<Rightarrow> nat \<Rightarrow> bool \<Rightarrow> 'y imap_scheme \<Rightarrow> 'y imap_scheme" where
  "IMAP_Copy e k uid s =
     (let (a, s1) = ParseLine e k s
      in if length a \<noteq> 4 then untagged ''BAD Syntax: COPY [messageset] [destmailbox]'' s1
         else let r = ParseMSGSet (a ! 2)
              in (case find_folder (mailbox_name (a ! 3)) s1 of
                    None \<Rightarrow> tagged '' NO [TRYCREATE] COPY failed: Invalid destination folder'' s1
                  | Some f \<Rightarrow>
                      if iID f = iSelected s1 \<or> (iID f = -1 \<and> iSelected s1 = 0)
                      then tagged '' NO COPY failed: Cannot copy messages to myself'' s1
                      else if bIntelligent f
                      then tagged '' NO COPY failed: Cannot copy messages to intelligent folders'' s1
                      else (case foldl (copy_one e (iUserID s1) (iSizeLimit s1) (iID f)) (False, False, wld s1)
                                   (filter (in_range uid r) (vMessages s1)) of
                              (bOk, bDiskFull, w) \<Rightarrow>
                                tagged (if bOk \<or> uid
                                        then (if bDiskFull
                                              then '' NO [ALERT] COPY failed: Not enough space in mailbox left''
                                              else '' OK COPY completed'')
                                        else '' NO COPY failed'') (s1\<lparr>wld := w\<rparr>))))"

section \<open>APPEND\<close>

text \<open>Message, date and flags of the arguments.\<close>

definition append_args :: "string list \<Rightarrow> string \<times> string \<times> string" where
  "append_args a =
     (if length a = 4 then (a ! 3, [], [])
      else if length a = 5
      then (if IsList (a ! 3) then (a ! 4, [], a ! 3) else (a ! 4, a ! 3, []))
      else (a ! 5, a ! 4, a ! 3))"

definition append_headers :: "string \<Rightarrow> Mail" where
  "append_headers msg =
     foldl (\<lambda>m l. Mail_Parse m (cstr l)) (new_Mail True)
       (takeWhile (\<lambda>l. l \<noteq> [] \<and> l \<noteq> [CR]) (Explode msg NL))"

definition HVAL :: "string \<Rightarrow> string \<Rightarrow> Mail \<Rightarrow> string" where
  "HVAL key dflt m = (case GetHeader key m of None \<Rightarrow> dflt | Some v \<Rightarrow> v)"

definition append_row ::
  "'x env_scheme \<Rightarrow> int \<Rightarrow> int \<Rightarrow> string \<Rightarrow> int \<Rightarrow> string \<Rightarrow> int \<Rightarrow> Mail \<Rightarrow> mail_row" where
  "append_row e d userID usr folder msg internal m =
     (let date = (case GetHeader ''date'' m of None \<Rightarrow> 0 | Some t \<Rightarrow> ParseRFC822Date e t)
      in \<lparr>m_id = d, m_userid = userID, m_folder = folder, m_size = int (length msg),
          m_body = (if cfg_is1 e ''enable_blobstorage'' then []
                    else if cfg_str e ''storein'' = ''db'' \<and> length msg \<le> 1024 * 1024 then msg else ''file''),
          m_blobstorage = blob_provider e, m_flags = 0, m_fetched = internal,
          m_datum = (if date = 0 then internal else date), m_trashstamp = 0,
          m_betreff = HVAL ''subject'' ''(no subject)'' m, m_von = HVAL ''from'' [] m,
          m_an = HVAL ''to'' usr m, m_cc = HVAL ''cc'' [] m, m_priority = snd (ParseInfo m),
          m_msg_id = HVAL ''message-id'' ''0'' m, m_refs = [], m_virnam = [], m_trained = [], m_color = 0\<rparr>)"

text \<open>
  The Message-ID is put into the statement with \<open>%s\<close>, as it is: without a quote or a backslash
  the row is inserted, otherwise the server gets another statement.
\<close>

definition sql_plain :: "string \<Rightarrow> bool" where
  "sql_plain t \<longleftrightarrow> CHR 0x27 \<notin> set t \<and> BACKSLASH \<notin> set t"

definition append_insert ::
  "'x imap_env_scheme \<Rightarrow> int \<Rightarrow> string \<Rightarrow> int \<Rightarrow> string \<Rightarrow> int \<Rightarrow> world \<Rightarrow> (int \<times> world) option" where
  "append_insert e userID usr folder msg internal w =
     (let m = append_headers msg; d = next_id w
      in if sql_plain (HVAL ''message-id'' ''0'' m)
         then Some (d, w\<lparr>mails := mails w @ [append_row e d userID usr folder msg internal m], next_id := d + 1\<rparr>)
         else sql_other e (HVAL ''message-id'' ''0'' m) w)"

definition append_store ::
  "'x imap_env_scheme \<Rightarrow> int \<Rightarrow> string \<Rightarrow> string \<Rightarrow> int \<times> world \<Rightarrow> world" where
  "append_store e userID msg flags r =
     (case r of (d, w) \<Rightarrow>
        let w1 = store_blob e (blob_provider e) userID d msg (IncGeneration w userID 1 0);
            w2 = add_space w1 userID (int (length msg));
            w3 = FlagMessage w2 (if flags = [] then FLAG_UNREAD else FlagMaskFromList flags) d userID False
        in PostEvent w3 userID BMS_EVENT_STOREMAIL d 0)"

definition reread_selected :: "'x env_scheme \<Rightarrow> 'y imap_scheme \<Rightarrow> 'y imap_scheme option" where
  "reread_selected e s =
     (if iState s = IMAP_STATE_SELECTED
      then (case FetchMessages e (wld s) (iSelected s) (iUserID s) (iLimit s) (bReadonly s) of
              None \<Rightarrow> None
            | Some (ms, w) \<Rightarrow> Some (s\<lparr>vMessages := ms, wld := w\<rparr>))
      else Some s)"

definition IMAP_Append :: "'x imap_env_scheme \<Rightarrow> 'y imap_scheme \<Rightarrow> 'y imap_scheme" where
  "IMAP_Append e s =
     (let (a, s1) = ParseLine e 0 s
      in if length a < 4 \<or> 6 < length a
         then untagged ''BAD Syntax: APPEND [mailboxname] ([flags]) ([date]) [message]'' s1
         else (case append_args a of
                 (msg, date, flags) \<Rightarrow>
                   let d0 = (if date = [] then 0 else ParseDate e date);
                       internal = (if d0 = 0 then now (wld s1) else d0)
                   in (case find_folder (mailbox_name (a ! 2)) s1 of
                         None \<Rightarrow> tagged '' NO [TRYCREATE] APPEND failed: Folder does not exist'' s1
                       | Some f \<Rightarrow>
                           if bIntelligent f
                           then tagged '' NO APPEND failed: Cannot append to intelligent folder'' s1
                           else if msg = []
                           then tagged '' NO APPEND failed: Cannot append with empty message'' s1
                           else if iSizeLimit s1 < UserSize (wld s1) (iUserID s1) + word_of_nat (length msg)
                           then tagged '' NO [ALERT] APPEND failed: No space left in mailbox'' s1
                           else (case append_insert e (iUserID s1) (strUser s1) (iID f) msg internal (wld s1) of
                                   None \<Rightarrow> s1\<lparr>failed := True\<rparr>
                                 | Some r \<Rightarrow>
                                     (case reread_selected e
                                             (s1\<lparr>wld := append_store e (iUserID s1) msg flags r\<rparr>) of
                                        None \<Rightarrow> s1\<lparr>failed := True\<rparr>
                                      | Some s2 \<Rightarrow> tagged '' OK APPEND completed'' s2)))))"

section \<open>SELECT and EXAMINE\<close>

definition select_report :: "bool \<Rightarrow> IMAPFolder \<Rightarrow> 'y imap_scheme \<Rightarrow> 'y imap_scheme" where
  "select_report examine f s =
     (let flags = join (CHR '' '') (map (Cons BACKSLASH)
                    [''Answered'', ''Deleted'', ''Seen'', ''Draft'', ''Recent'', ''Flagged'']);
          unseen = FirstUnseen (vMessages s);
          nextUID = GetLastUID (vMessages s) + 1;
          s1 = print_reports [EXISTS (int (length (vMessages s))),
                 RECENT (CountNotFlaggedMails (vMessages s) FLAG_SEEN)] s;
          s2 = untagged (''FLAGS ('' @ flags @ '')'') s1;
          s3 = (if unseen \<noteq> -1
                then untagged (''OK [UNSEEN '' @ show_int unseen @ ''] Message '' @ show_int unseen @
                       '' is first unseen'') s2
                else s2);
          s4 = untagged ''OK [UIDVALIDITY 1] UIDs valid'' s3;
          s5 = untagged (''OK [UIDNEXT '' @ show_int nextUID @ ''] '' @ show_int nextUID @ '' is the next UID'') s4;
          s6 = untagged (''OK [PERMANENTFLAGS ('' @ flags @ '')] Limited'') s5
      in tagged ('' OK '' @ (if examine \<or> bIntelligent f then ''[READ-ONLY]'' else ''[READ-WRITE]'') @
           (if examine then '' EXAMINE'' else '' SELECT'') @ '' completed'') s6)"

definition open_folder :: "'x env_scheme \<Rightarrow> bool \<Rightarrow> IMAPFolder \<Rightarrow> 'y imap_scheme \<Rightarrow> 'y imap_scheme" where
  "open_folder e examine f s =
     (let s1 = (if iState s = IMAP_STATE_SELECTED \<and> bAutoExpunge s then IMAP_Expunge e True s else s);
          s2 = s1\<lparr>iState := IMAP_STATE_SELECTED, bReadonly := examine, iSelected := iID f\<rparr>
      in case FetchMessages e (wld s2) (iID f) (iUserID s2) (iLimit s2) examine of
           None \<Rightarrow> s2\<lparr>failed := True\<rparr>
         | Some (ms, w) \<Rightarrow>
             select_report examine f
               (s2\<lparr>vMessages := ms, wld := w, iGeneration := fst (GetGeneration w (iUserID s2))\<rparr>))"

definition IMAP_Select :: "'x env_scheme \<Rightarrow> bool \<Rightarrow> 'y imap_scheme \<Rightarrow> 'y imap_scheme" where
  "IMAP_Select e examine s =
     (let (a, s1) = ParseLine e 0 s; cmd = (if examine then ''EXAMINE'' else ''SELECT'')
      in if length a \<noteq> 3 then untagged (''BAD Syntax: '' @ cmd @ '' [mailboxname]'') s1
         else (case find_folder (mailbox_name (a ! 2)) s1 of
                 None \<Rightarrow> tagged ('' NO '' @ cmd @ '' failed: Folder does not exist'') s1
               | Some f \<Rightarrow> open_folder e examine f s1))"

section \<open>IDLE\<close>

text \<open>
  One poll without input: the database as it is then is looked at. The polls of an IDLE come to
  an end when input arrives, the connection is closed or a flag is set.
\<close>

definition idle_poll :: "'x env_scheme \<Rightarrow> 'y imap_scheme \<Rightarrow> world \<Rightarrow> 'y imap_scheme" where
  "idle_poll e s w =
     (let s1 = s\<lparr>wld := w\<rparr>; gen = fst (GetGeneration w (iUserID s))
      in if \<not> failed s \<and> iState s = IMAP_STATE_SELECTED \<and> gen \<noteq> iGeneration s then refresh_mails e gen s1 else s1)"

definition IMAP_Idle :: "'x imap_env_scheme \<Rightarrow> 'y imap_scheme \<Rightarrow> 'y imap_scheme" where
  "IMAP_Idle e s =
     (let s1 = printf (''+ idling'' @ CRLF) s
      in if bTimeout s1 \<or> bQuit s1 then s1
         else let s2 = foldl (idle_poll e) s1 (idle_worlds e (wld s1))
              in if failed s2 then s2
                 else (case read_line IMAP_MAXLINE s2 of
                         (None, s3) \<Rightarrow> if bIO_SSL s3 then tagged '' OK IDLE terminated'' s3 else s3
                       | (Some _, s3) \<Rightarrow> tagged '' OK IDLE terminated'' s3))"

section \<open>XAPPLEPUSHSERVICE\<close>

fun push_pairs :: "string list \<Rightarrow> (string \<times> string) list" where
  "push_pairs (k # v # r) = (k, v) # push_pairs r"
| "push_pairs _ = []"

definition last_value :: "string \<Rightarrow> (string \<times> string) list \<Rightarrow> string" where
  "last_value key ps = (case filter (\<lambda>(k, v). strcaseeq k key) ps of [] \<Rightarrow> [] | qs \<Rightarrow> snd (last qs))"

definition first_mailboxes :: "(string \<times> string) list \<Rightarrow> string list" where
  "first_mailboxes ps =
     (case filter (\<lambda>l. l \<noteq> []) (map (\<lambda>(k, v). ParseList v)
             (filter (\<lambda>(k, v). strcaseeq k ''mailboxes'') ps)) of
        [] \<Rightarrow> [] | l # _ \<Rightarrow> l)"

definition push_folders :: "string list \<Rightarrow> 'y imap_scheme \<Rightarrow> int list" where
  "push_folders names s =
     (let ids = concat (map (\<lambda>n. case find_folder (mailbox_name n) s of None \<Rightarrow> [] | Some f \<Rightarrow> [iID f]) names)
      in if ids = [] then [0] else ids)"

definition subscribe_push :: "int \<Rightarrow> string \<Rightarrow> string \<Rightarrow> string \<Rightarrow> int list \<Rightarrow> world \<Rightarrow> world" where
  "subscribe_push userID acct token topic ids w =
     (let old = filter (\<lambda>(d, x). x = (userID, acct, token, topic)) (apns_subscriptions w);
          (d, w1) = (if old = [] \<or> fst (last old) = 0
                     then (next_id w, w\<lparr>apns_subscriptions := apns_subscriptions w @ [(next_id w, userID, acct, token, topic)],
                                        next_id := next_id w + 1\<rparr>)
                     else (fst (last old), w))
      in w1\<lparr>apns_folders := filter (\<lambda>(f, x). x \<noteq> d) (apns_folders w1) @ map (\<lambda>f. (f, d)) (remdups ids)\<rparr>)"

definition IMAP_XApplePushService :: "'x imap_env_scheme \<Rightarrow> 'y imap_scheme \<Rightarrow> 'y imap_scheme" where
  "IMAP_XApplePushService e s =
     (if apns_topic e = [] then untagged ''BAD Internal configuration error'' s
      else let (a, s1) = ParseLine e 0 s;
               ps = (if 3 < length a then push_pairs (drop 2 a) else []);
               ver = last_value ''aps-version'' ps; acct = last_value ''aps-account-id'' ps;
               token = last_value ''aps-device-token'' ps; topic = last_value ''aps-subtopic'' ps
           in if ver \<noteq> ''1'' \<and> ver \<noteq> ''2'' then untagged ''BAD Unsupported or missing aps-version'' s1
              else if acct = [] then untagged ''BAD Missing aps-account-id'' s1
              else if token = [] then untagged ''BAD Missing aps-device-token'' s1
              else if topic \<noteq> ''com.apple.mobilemail'' then untagged ''BAD Unsupported or missing aps-subtopic'' s1
              else tagged '' OK XAPPLEPUSHSERVICE completed.''
                     (untagged (''XAPPLEPUSHSERVICE aps-version '' @ [DQUOTE] @ ver @ [DQUOTE] @ '' aps-topic '' @
                        [DQUOTE] @ apns_topic e @ [DQUOTE])
                       (s1\<lparr>wld := subscribe_push (iUserID s1) acct token topic
                                    (push_folders (first_mailboxes ps) s1) (wld s1)\<rparr>)))"

end
