(* ===== verification/Imap_Search.thy ===== *)
theory Imap_Search
  imports Imap_Selected
begin

text \<open>
  SEARCH (src/imap/selected.cpp): the search keys with their parameters, the evaluation of the
  keys on a row with the two counters that stand for OR and NOT, and the command. A message
  that cannot be parsed at any depth of recursion ends the process.
\<close>

section \<open>Keys\<close>

datatype stItemType =
  SEARCH_MESSAGESET | SEARCH_ANSWERED | SEARCH_BCC | SEARCH_BEFORE | SEARCH_BODY | SEARCH_CC
| SEARCH_DELETED | SEARCH_DRAFT | SEARCH_FLAGGED | SEARCH_FROM | SEARCH_HEADER | SEARCH_KEYWORD
| SEARCH_LARGER | SEARCH_NEW | SEARCH_NOT | SEARCH_OLD | SEARCH_ON | SEARCH_OR | SEARCH_RECENT
| SEARCH_SEEN | SEARCH_SENTBEFORE | SEARCH_SENTON | SEARCH_SENTSINCE | SEARCH_SINCE
| SEARCH_SMALLER | SEARCH_SUBJECT | SEARCH_TEXT | SEARCH_TO | SEARCH_UID | SEARCH_UNANSWERED
| SEARCH_UNDELETED | SEARCH_UNDRAFT | SEARCH_UNFLAGGED | SEARCH_UNKEYWORD | SEARCH_UNSEEN

record IMAPSearchItem =
  tItemType :: stItemType
  strParam1 :: string
  strParam2 :: string
  bParam1Set :: bool
  bParam2Set :: bool

definition new_search_item :: "stItemType \<Rightarrow> IMAPSearchItem" where
  "new_search_item t = \<lparr>tItemType = t, strParam1 = [], strParam2 = [], bParam1Set = False, bParam2Set = False\<rparr>"

text \<open>Name, key, number of parameters, whether the message must be parsed, whether read.\<close>

definition search_keys :: "(string \<times> stItemType \<times> nat \<times> bool \<times> bool) list" where
  "search_keys =
     [(''answered'', SEARCH_ANSWERED, 0, False, False), (''bcc'', SEARCH_BCC, 1, False, False),
      (''before'', SEARCH_BEFORE, 1, False, False), (''body'', SEARCH_BODY, 1, True, False),
      (''cc'', SEARCH_CC, 1, False, False), (''deleted'', SEARCH_DELETED, 0, False, False),
      (''draft'', SEARCH_DRAFT, 0, False, False), (''flagged'', SEARCH_FLAGGED, 0, False, False),
      (''from'', SEARCH_FROM, 1, False, False), (''header'', SEARCH_HEADER, 2, True, False),
      (''keyword'', SEARCH_KEYWORD, 1, False, False), (''larger'', SEARCH_LARGER, 1, False, False),
      (''new'', SEARCH_NEW, 0, False, False), (''not'', SEARCH_NOT, 0, False, False),
      (''old'', SEARCH_OLD, 0, False, False), (''on'', SEARCH_ON, 1, False, False),
      (''or'', SEARCH_OR, 0, False, False), (''recent'', SEARCH_RECENT, 0, False, False),
      (''seen'', SEARCH_SEEN, 0, False, False), (''sentbefore'', SEARCH_SENTBEFORE, 1, True, False),
      (''senton'', SEARCH_SENTON, 1, True, False), (''sentsince'', SEARCH_SENTSINCE, 1, True, False),
      (''since'', SEARCH_SINCE, 1, False, False), (''smaller'', SEARCH_SMALLER, 1, False, False),
      (''subject'', SEARCH_SUBJECT, 1, False, False), (''text'', SEARCH_TEXT, 1, False, True),
      (''to'', SEARCH_TO, 1, False, False), (''uid'', SEARCH_UID, 1, False, False),
      (''unanswered'', SEARCH_UNANSWERED, 0, False, False), (''undeleted'', SEARCH_UNDELETED, 0, False, False),
      (''undraft'', SEARCH_UNDRAFT, 0, False, False), (''unflagged'', SEARCH_UNFLAGGED, 0, False, False),
      (''unkeyword'', SEARCH_UNKEYWORD, 1, False, False), (''unseen'', SEARCH_UNSEEN, 0, False, False)]"

record search_parse =
  sp_params :: nat
  sp_items :: "IMAPSearchItem list"
  sp_parsing :: bool
  sp_reading :: bool

definition new_search :: search_parse where
  "new_search = \<lparr>sp_params = 0, sp_items = [], sp_parsing = False, sp_reading = False\<rparr>"

definition set_param :: "string \<Rightarrow> IMAPSearchItem \<Rightarrow> IMAPSearchItem" where
  "set_param v i =
     (if \<not> bParam1Set i then i\<lparr>strParam1 := v, bParam1Set := True\<rparr>
      else if \<not> bParam2Set i then i\<lparr>strParam2 := v, bParam2Set := True\<rparr> else i)"

definition search_arg :: "search_parse \<Rightarrow> string \<Rightarrow> search_parse" where
  "search_arg p a =
     (if 0 < sp_params p \<and> sp_items p \<noteq> []
      then p\<lparr>sp_items := butlast (sp_items p) @ [set_param a (last (sp_items p))], sp_params := sp_params p - 1\<rparr>
      else case find (\<lambda>(n, x). strcaseeq a n) search_keys of
             Some (_, t, n, parsing, reading) \<Rightarrow>
               p\<lparr>sp_params := n, sp_items := sp_items p @ [new_search_item t],
                 sp_parsing := (sp_parsing p \<or> parsing), sp_reading := (sp_reading p \<or> reading)\<rparr>
           | None \<Rightarrow>
               if a \<noteq> [] \<and> is_digit (hd a)
               then p\<lparr>sp_items := sp_items p @ [(new_search_item SEARCH_MESSAGESET)\<lparr>strParam1 := a\<rparr>]\<rparr>
               else p)"

section \<open>Evaluation\<close>

text \<open>What a key looks at: the row, its number, its UID, the text and the parsed message.\<close>

record subject =
  su_row :: mail_row
  su_seq :: int
  su_uid :: int
  su_text :: string
  su_mail :: "MailStructItem option"

definition su_header :: "subject \<Rightarrow> string \<Rightarrow> string option" where
  "su_header x key = (case su_mail x of None \<Rightarrow> None | Some i \<Rightarrow> GetHeader key (cHeaders i))"

definition sent_date :: "'x env_scheme \<Rightarrow> subject \<Rightarrow> int option" where
  "sent_date e x = map_option (ParseRFC822Date e) (su_header x ''date'')"

definition one_day :: int where "one_day = 60 * 60 * 24"

text \<open>\<open>bResult\<close>; \<open>None\<close> for the value 2, which stands for no result.\<close>

definition search_result :: "'x env_scheme \<Rightarrow> subject \<Rightarrow> IMAPSearchItem \<Rightarrow> bool option" where
  "search_result e x i =
     (let m = su_row x; f = m_flags m; p = strParam1 i; d = ParseDate e p; fetched = m_fetched m
      in case tItemType i of
           SEARCH_OR \<Rightarrow> None
         | SEARCH_NOT \<Rightarrow> None
         | SEARCH_ANSWERED \<Rightarrow> Some (FLAGGED FLAG_ANSWERED f)
         | SEARCH_BCC \<Rightarrow> Some False
         | SEARCH_CC \<Rightarrow> Some (InString (m_cc m) p)
         | SEARCH_DELETED \<Rightarrow> Some (FLAGGED FLAG_DELETED f)
         | SEARCH_DRAFT \<Rightarrow> Some (FLAGGED FLAG_DRAFT f)
         | SEARCH_FLAGGED \<Rightarrow> Some (FLAGGED FLAG_FLAGGED f)
         | SEARCH_FROM \<Rightarrow> Some (InString (m_von m) p)
         | SEARCH_LARGER \<Rightarrow> Some (m_size m < atoi p)
         | SEARCH_MESSAGESET \<Rightarrow> Some (InMSGSet (ParseMSGSet p) (su_seq x))
         | SEARCH_NEW \<Rightarrow> Some (\<not> FLAGGED FLAG_SEEN f \<and> FLAGGED FLAG_UNREAD f)
         | SEARCH_OLD \<Rightarrow> Some (FLAGGED FLAG_SEEN f)
         | SEARCH_RECENT \<Rightarrow> Some (\<not> FLAGGED FLAG_SEEN f)
         | SEARCH_SEEN \<Rightarrow> Some (\<not> FLAGGED FLAG_UNREAD f)
         | SEARCH_SMALLER \<Rightarrow> Some (m_size m > atoi p)
         | SEARCH_SUBJECT \<Rightarrow> Some (InString (m_betreff m) p)
         | SEARCH_TO \<Rightarrow> Some (InString (m_an m) p)
         | SEARCH_UID \<Rightarrow> Some (InMSGSet (ParseMSGSet p) (su_uid x))
         | SEARCH_UNANSWERED \<Rightarrow> Some (\<not> FLAGGED FLAG_ANSWERED f)
         | SEARCH_UNDELETED \<Rightarrow> Some (\<not> FLAGGED FLAG_DELETED f)
         | SEARCH_UNDRAFT \<Rightarrow> Some (\<not> FLAGGED FLAG_DRAFT f)
         | SEARCH_UNFLAGGED \<Rightarrow> Some (\<not> FLAGGED FLAG_FLAGGED f)
         | SEARCH_UNSEEN \<Rightarrow> Some (FLAGGED FLAG_UNREAD f)
         | SEARCH_BEFORE \<Rightarrow> Some (d > fetched)
         | SEARCH_ON \<Rightarrow> Some (d \<le> fetched \<and> fetched \<le> d + one_day)
         | SEARCH_SINCE \<Rightarrow> Some (d \<le> fetched)
         | SEARCH_KEYWORD \<Rightarrow> Some (FLAGGED (FlagMaskFromList p) f)
         | SEARCH_UNKEYWORD \<Rightarrow> Some (\<not> FLAGGED (FlagMaskFromList p) f)
         | SEARCH_TEXT \<Rightarrow> Some (InString (su_text x) p)
         | SEARCH_BODY \<Rightarrow> Some (InString (case su_mail x of None \<Rightarrow> [] | Some t \<Rightarrow> strText t) p)
         | SEARCH_HEADER \<Rightarrow>
             Some (case su_header x p of None \<Rightarrow> False | Some h \<Rightarrow> InString h (strParam2 i))
         | SEARCH_SENTBEFORE \<Rightarrow> Some (case sent_date e x of None \<Rightarrow> False | Some t \<Rightarrow> t < d)
         | SEARCH_SENTON \<Rightarrow> Some (case sent_date e x of None \<Rightarrow> False | Some t \<Rightarrow> d \<le> t \<and> t \<le> d + one_day)
         | SEARCH_SENTSINCE \<Rightarrow> Some (case sent_date e x of None \<Rightarrow> False | Some t \<Rightarrow> d \<le> t))"

record matching =
  iOr :: nat
  iNot :: bool
  bOr1 :: bool
  bMatch :: bool

definition match_start :: matching where
  "match_start = \<lparr>iOr = 0, iNot = False, bOr1 = False, bMatch = True\<rparr>"

definition match_result :: "matching \<Rightarrow> bool \<Rightarrow> matching" where
  "match_result k b =
     (let r = (if iNot k then \<not> b else b); k1 = k\<lparr>iNot := False\<rparr>
      in if iOr k = 2 then k1\<lparr>iOr := 1, bOr1 := r\<rparr>
         else if iOr k = 1 then k1\<lparr>iOr := 0, bMatch := (bMatch k \<and> (bOr1 k \<or> r))\<rparr>
         else k1\<lparr>bMatch := (bMatch k \<and> r)\<rparr>)"

definition match_item :: "'x env_scheme \<Rightarrow> subject \<Rightarrow> matching \<Rightarrow> IMAPSearchItem \<Rightarrow> matching" where
  "match_item e x k i =
     (let k1 = (if tItemType i = SEARCH_OR then k\<lparr>iOr := 2\<rparr>
                else if tItemType i = SEARCH_NOT then k\<lparr>iNot := True\<rparr> else k)
      in case search_result e x i of None \<Rightarrow> k1 | Some b \<Rightarrow> match_result k1 b)"

definition search_match :: "'x env_scheme \<Rightarrow> subject \<Rightarrow> IMAPSearchItem list \<Rightarrow> bool" where
  "search_match e x items = bMatch (foldl (match_item e x) match_start items)"

section \<open>The command\<close>

text \<open>
  The text of a message and its parts: \<open>None\<close> if there is no file, \<open>Some None\<close> if the parser does
  not come to an end.
\<close>

definition load_mail ::
  "'x env_scheme \<Rightarrow> bool \<Rightarrow> bool \<Rightarrow> int \<Rightarrow> int \<Rightarrow> world
   \<Rightarrow> (string \<times> MailStructItem option) option option \<times> world" where
  "load_mail e parsing reading d userID w =
     (if \<not> parsing \<and> \<not> reading then (Some (Some ([], None)), w)
      else case GetMessageFP e w d userID of
             (None, w1) \<Rightarrow> (None, w1)
           | (Some txt, w1) \<Rightarrow>
               (if \<not> parsing then (Some (Some (txt, None)), w1)
                else case MailParser_Parse (length txt + 1) txt of
                       None \<Rightarrow> (Some None, w1)
                     | Some i \<Rightarrow> (Some (Some (txt, Some i)), w1)))"

text \<open>One row: the matches so far, newest first, and the session.\<close>

definition search_row ::
  "'x env_scheme \<Rightarrow> search_parse \<Rightarrow> bool \<Rightarrow> int list \<times> 'y imap_scheme \<Rightarrow> int \<times> mail_row \<times> int option
   \<Rightarrow> int list \<times> 'y imap_scheme" where
  "search_row e p uid acc row =
     (case acc of (found, s) \<Rightarrow> (case row of (seq, m, u) \<Rightarrow>
        if failed s then (found, s)
        else let (mailUID, w1) = (case u of None \<Rightarrow> AddUID (wld s) (m_id m) | Some n \<Rightarrow> (n, wld s));
                 (loaded, w2) = load_mail e (sp_parsing p) (sp_reading p) (m_id m) (iUserID s) w1;
                 s1 = s\<lparr>wld := w2\<rparr>
             in case loaded of
                  None \<Rightarrow> (found, untagged ''NO Internal error while fetching message'' s1)
                | Some None \<Rightarrow> (found, s1\<lparr>failed := True\<rparr>)
                | Some (Some (txt, i)) \<Rightarrow>
                    (if search_match e \<lparr>su_row = m, su_seq = seq, su_uid = mailUID, su_text = txt, su_mail = i\<rparr>
                          (sp_items p)
                     then found @ [if uid then mailUID else seq] else found, s1)))"

text \<open>The rows in the order of the query, the newest first, each with its number.\<close>

definition search_rows :: "world \<Rightarrow> (mail_row \<Rightarrow> bool) \<Rightarrow> int \<Rightarrow> int \<Rightarrow> (int \<times> mail_row \<times> int option) list" where
  "search_rows w c userID limit =
     (let rows = rev (sort_key (\<lambda>(m, u). m_id m) (folder_rows w c userID));
          rows = (if limit \<noteq> 0 then take (nat limit) rows else rows);
          n = int (length rows)
      in map (\<lambda>(i, r). (n - int i, r)) (zip [0..<length rows] rows))"

definition IMAP_Search :: "'x env_scheme \<Rightarrow> nat \<Rightarrow> bool \<Rightarrow> 'y imap_scheme \<Rightarrow> 'y imap_scheme" where
  "IMAP_Search e k uid s =
     (let (a, s1) = ParseLine e k s
      in if length a < 3 then untagged ''BAD Syntax: SEARCH [keywords]'' s1
         else let p = foldl search_arg new_search (drop 2 a)
              in if sp_params p \<noteq> 0
                 then untagged (''BAD Syntax: Missing '' @ show_nat (sp_params p) @ '' parameters'') s1
                 else let s2 = printf ''* SEARCH'' s1
                      in if iLimit s2 < 0 then s2\<lparr>failed := True\<rparr>
                         else (case FolderCondition e (wld s2) (iSelected s2) of
                                 None \<Rightarrow> s2\<lparr>failed := True\<rparr>
                               | Some c \<Rightarrow>
                                   (case foldl (search_row e p uid) ([], s2)
                                           (search_rows (wld s2) c (iUserID s2) (iLimit s2)) of
                                      (found, s3) \<Rightarrow>
                                        if failed s3 then s3
                                        else tagged '' OK SEARCH completed''
                                               (printf (concat (map (\<lambda>n. '' '' @ show_int n) (rev found)) @ CRLF) s3))))"

end
