(* ===== verification/Imap_Fetch.thy ===== *)
theory Imap_Fetch
  imports Imap_Search
begin

text \<open>
  FETCH (src/imap/selected.cpp): the data items with sections and partial ranges, the text of each
  item, and the command with its implicit setting of \<open>\Seen\<close>.
\<close>

section \<open>Data items\<close>

datatype stItem =
  FETCH_BODY_STRUCTURE_NON_EXTENSIBLE | FETCH_BODY | FETCH_BODY_STRUCTURE | FETCH_ENVELOPE
| FETCH_FLAGS_ITEM | FETCH_INTERNALDATE | FETCH_RFC822 | FETCH_RFC822_HEADER | FETCH_RFC822_SIZE
| FETCH_RFC822_TEXT | FETCH_UID

datatype stSection =
  SECTION_EMPTY | SECTION_SPECIFIC | SECTION_HEADER | SECTION_HEADER_FIELDS
| SECTION_HEADER_FIELDS_NOT | SECTION_MIME | SECTION_TEXT

record IMAPFetchItem =
  tItem :: stItem
  strSection :: string
  tSection :: stSection
  strHeaderFieldsList :: string
  iPartStart :: int
  iPartLength :: int
  bPeek :: bool

definition new_fetch_item :: "stItem \<Rightarrow> IMAPFetchItem" where
  "new_fetch_item t =
     \<lparr>tItem = t, strSection = [], tSection = SECTION_EMPTY, strHeaderFieldsList = [],
      iPartStart = 0, iPartLength = 0, bPeek = False\<rparr>"

text \<open>Name, items, whether the message must be parsed, whether read.\<close>

definition fetch_macros :: "(string \<times> stItem list \<times> bool \<times> bool) list" where
  "fetch_macros =
     [(''all'', [FETCH_FLAGS_ITEM, FETCH_INTERNALDATE, FETCH_RFC822_SIZE, FETCH_ENVELOPE], True, False),
      (''body'', [FETCH_BODY_STRUCTURE_NON_EXTENSIBLE], True, False),
      (''bodystructure'', [FETCH_BODY_STRUCTURE], True, False),
      (''envelope'', [FETCH_ENVELOPE], True, False),
      (''fast'', [FETCH_FLAGS_ITEM, FETCH_INTERNALDATE, FETCH_RFC822_SIZE], False, False),
      (''flags'', [FETCH_FLAGS_ITEM], False, False),
      (''full'', [FETCH_FLAGS_ITEM, FETCH_INTERNALDATE, FETCH_RFC822_SIZE, FETCH_ENVELOPE,
                  FETCH_BODY_STRUCTURE_NON_EXTENSIBLE], True, False),
      (''internaldate'', [FETCH_INTERNALDATE], False, False),
      (''rfc822'', [FETCH_RFC822], False, True),
      (''rfc822.header'', [FETCH_RFC822_HEADER], True, False),
      (''rfc822.size'', [FETCH_RFC822_SIZE], False, False),
      (''rfc822.text'', [FETCH_RFC822_TEXT], True, False)]"

text \<open>The place of the first period that no digit follows.\<close>

fun section_end :: "string \<Rightarrow> nat option" where
  "section_end [] = None"
| "section_end (c # cs) =
     (if c = CHR ''.'' \<and> (cs = [] \<or> \<not> is_digit (hd cs)) then Some 0 else map_option Suc (section_end cs))"

definition section_type :: "string \<Rightarrow> string \<Rightarrow> stSection" where
  "section_type sec rest =
     (if starts_with_case ''header.fields.not'' rest then SECTION_HEADER_FIELDS_NOT
      else if starts_with_case ''header.fields'' rest then SECTION_HEADER_FIELDS
      else if starts_with_case ''header'' rest then SECTION_HEADER
      else if strcaseeq rest ''mime'' then SECTION_MIME
      else if starts_with_case ''text'' rest then SECTION_TEXT
      else if rest = [] \<or> rest = '' '' then (if sec = [] then SECTION_EMPTY else SECTION_SPECIFIC)
      else if is_digit (hd rest) then SECTION_SPECIFIC else SECTION_EMPTY)"

text \<open>The range behind the bracket: start and length, each -1 if there is none.\<close>

definition partial_range :: "string \<Rightarrow> int \<times> int" where
  "partial_range r =
     (case (find_chr (CHR ''<'') r, find_chr (CHR ''>'') r) of
        (Some l, Some _) \<Rightarrow>
          (atoi (drop (l + 1) r),
           case find_chr (CHR ''.'') r of None \<Rightarrow> -1 | Some p \<Rightarrow> atoi (drop (p + 1) r))
      | _ \<Rightarrow> (-1, -1))"

datatype parsed_item = NoItem | Item IMAPFetchItem | NullString

definition body_item :: "string \<Rightarrow> parsed_item" where
  "body_item item =
     (case (find_chr (CHR ''['') item, find_chr (CHR '']'') item) of
        (Some l, Some r) \<Rightarrow>
          let content = drop (l + 1) (take r item);
              numbered = (content \<noteq> [] \<and> is_digit (hd content));
              sec = (if numbered then content else []);
              rest = (if numbered
                      then (case section_end content of None \<Rightarrow> content | Some p \<Rightarrow> drop (p + 1) content)
                      else content);
              ty = section_type sec rest;
              (st, len) = partial_range (drop (r + 1) item);
              it = \<lparr>tItem = FETCH_BODY, strSection = sec, tSection = ty, strHeaderFieldsList = [],
                    iPartStart = st, iPartLength = len, bPeek = starts_with_case ''body.peek['' item\<rparr>
          in if ty = SECTION_HEADER_FIELDS \<or> ty = SECTION_HEADER_FIELDS_NOT
             then (case find_chr (CHR ''('') rest of
                     None \<Rightarrow> NullString
                   | Some p \<Rightarrow> Item (it\<lparr>strHeaderFieldsList := drop p rest\<rparr>))
             else Item it
      | _ \<Rightarrow> NoItem)"

record fetch_parse =
  fp_items :: "IMAPFetchItem list"
  fp_uid :: bool
  fp_parsing :: bool
  fp_reading :: bool
  fp_crash :: bool

definition new_fetch :: "bool \<Rightarrow> fetch_parse" where
  "new_fetch uid =
     \<lparr>fp_items = (if uid then [new_fetch_item FETCH_UID] else []), fp_uid = uid, fp_parsing = False,
      fp_reading = False, fp_crash = False\<rparr>"

definition fetch_arg :: "fetch_parse \<Rightarrow> string \<Rightarrow> fetch_parse" where
  "fetch_arg p a =
     (case find (\<lambda>(n, x). strcaseeq a n) fetch_macros of
        Some (_, its, parsing, reading) \<Rightarrow>
          p\<lparr>fp_items := fp_items p @ map new_fetch_item its, fp_parsing := (fp_parsing p \<or> parsing),
            fp_reading := (fp_reading p \<or> reading)\<rparr>
      | None \<Rightarrow>
          if strcaseeq a ''uid'' \<and> \<not> fp_uid p
          then p\<lparr>fp_items := fp_items p @ [new_fetch_item FETCH_UID], fp_uid := True\<rparr>
          else if starts_with_case ''body['' a \<or> starts_with_case ''body.peek['' a
          then (case body_item a of
                  NoItem \<Rightarrow> p\<lparr>fp_parsing := True\<rparr>
                | NullString \<Rightarrow> p\<lparr>fp_parsing := True, fp_crash := True\<rparr>
                | Item i \<Rightarrow> p\<lparr>fp_parsing := True, fp_items := fp_items p @ [i]\<rparr>)
          else p)"

section \<open>The text of an item\<close>

text \<open>\<open>SAFESTART\<close> and \<open>DETLEN\<close> for a text of the given length.\<close>

definition SAFESTART :: "int \<Rightarrow> int \<Rightarrow> int" where
  "SAFESTART st n = (if n \<le> st then n else st)"

definition DETLEN :: "int \<Rightarrow> int \<Rightarrow> int \<Rightarrow> int" where
  "DETLEN len st n = (if len = -1 then n - st else if n - st \<le> len then n - st else len)"

definition part_start :: "IMAPFetchItem \<Rightarrow> int" where
  "part_start i = (if iPartStart i < 0 then 0 else iPartStart i)"

definition part_label :: "IMAPFetchItem \<Rightarrow> string" where
  "part_label i = (if iPartStart i = -1 then [] else ''<'' @ show_int (part_start i) @ ''>'')"

text \<open>
  What one item prints: a text; the announcement of a negative length, followed by the memory
  from the start of the part on; or nothing, because the process ends.
\<close>

datatype piece = Piece string | Overread string | Crash

definition literal_piece :: "string \<Rightarrow> IMAPFetchItem \<Rightarrow> string \<Rightarrow> piece" where
  "literal_piece label i txt =
     (let n = int (length txt); st = SAFESTART (part_start i) n; len = DETLEN (iPartLength i) st n;
          head = label @ part_label i @ '' {'' @ show_int len @ ''}'' @ CRLF
      in if len < 0 then Overread head else Piece (head @ take (nat len) (drop (nat st) txt)))"

definition strtoul :: "string \<Rightarrow> nat" where
  "strtoul s =
     (let (neg, t) = split_sign (dropWhile is_space s); ds = takeWhile is_digit t;
          v = min (digits_val ds) (2 ^ 64 - 1)
      in if ds = [] then 0 else if neg then (2 ^ 64 - v) mod 2 ^ 64 else v)"

definition part_step :: "MailStructItem \<Rightarrow> string \<Rightarrow> MailStructItem" where
  "part_step p sec =
     (if 0 < strtoul sec \<and> strtoul sec \<le> length (vChildItems p)
      then vChildItems p ! (strtoul sec - 1) else p)"

definition find_part :: "string \<Rightarrow> MailStructItem \<Rightarrow> MailStructItem" where
  "find_part sec p = foldl part_step p (Explode sec (CHR ''.''))"

definition header_line :: "Mail \<Rightarrow> string \<Rightarrow> string \<Rightarrow> string" where
  "header_line m name key =
     (case GetRawHeader key m of
        None \<Rightarrow> []
      | Some v \<Rightarrow> name @ '': '' @ HeaderEncode1 ''UNKNOWN'' v @ CRLF)"

definition listed_headers :: "Mail \<Rightarrow> string list \<Rightarrow> string" where
  "listed_headers m fs = concat (map (\<lambda>f. header_line m f (StrToLower f)) fs) @ CRLF"

definition other_headers :: "Mail \<Rightarrow> string list \<Rightarrow> string" where
  "other_headers m fs =
     concat (map (\<lambda>k. header_line m k (StrToLower k))
       (filter (\<lambda>k. k \<notin> set (map StrToLower fs)) (GetHeaderFields m))) @ CRLF"

definition mime_fields :: "string list" where
  "mime_fields = [''mime-version'', ''content-type'', ''content-id'', ''content-description'',
     ''content-transfer-encoding'', ''content-disposition'', ''content-location'',
     ''content-language'', ''content-md5'']"

definition mime_headers :: "Mail \<Rightarrow> string" where
  "mime_headers m =
     concat (map (\<lambda>k. header_line m k (StrToLower k))
       (filter (\<lambda>k. k \<in> set mime_fields) (GetHeaderFields m))) @ CRLF"

definition section_label :: "IMAPFetchItem \<Rightarrow> string \<Rightarrow> string" where
  "section_label i word =
     ''BODY['' @ strSection i @ (if strSection i = [] then [] else ''.'') @ word @ '']''"

text \<open>The header of a part is cut out, then encoded.\<close>

definition header_piece :: "IMAPFetchItem \<Rightarrow> string \<Rightarrow> piece" where
  "header_piece i txt =
     (let n = int (length txt); st = SAFESTART (part_start i) n; len = DETLEN (iPartLength i) st n
      in if len < 0 then Crash
         else case HeaderEncode 3 ''UNKNOWN'' (take (nat len) (drop (nat st) txt)) of
                None \<Rightarrow> Crash
              | Some r \<Rightarrow> Piece (section_label i ''HEADER'' @ part_label i @ '' {'' @
                            show_nat (length r) @ ''}'' @ CRLF @ r))"

definition body_piece :: "string \<Rightarrow> MailStructItem \<Rightarrow> IMAPFetchItem \<Rightarrow> piece" where
  "body_piece txt root i =
     (let p = find_part (strSection i) root; m = cHeaders p; fs = ParseList (strHeaderFieldsList i)
      in case tSection i of
           SECTION_EMPTY \<Rightarrow> literal_piece ''BODY[]'' i txt
         | SECTION_HEADER \<Rightarrow> header_piece i (strHeader2 p)
         | SECTION_SPECIFIC \<Rightarrow> literal_piece (''BODY['' @ strSection i @ '']'') i (strText p)
         | SECTION_TEXT \<Rightarrow> literal_piece (section_label i ''TEXT'') i (strText p)
         | SECTION_HEADER_FIELDS \<Rightarrow>
             literal_piece (section_label i (''HEADER.FIELDS '' @ strHeaderFieldsList i)) i (listed_headers m fs)
         | SECTION_HEADER_FIELDS_NOT \<Rightarrow>
             literal_piece (section_label i (''HEADER.FIELDS.NOT '' @ strHeaderFieldsList i)) i (other_headers m fs)
         | SECTION_MIME \<Rightarrow> literal_piece (section_label i ''MIME'') i (mime_headers m))"

definition envelope_text :: "Mail \<Rightarrow> string \<Rightarrow> string" where
  "envelope_text m key =
     (case GetHeader key m of
        None \<Rightarrow> ''NIL'' | Some v \<Rightarrow> [DQUOTE] @ Escape (HeaderEncode1 ''UNKNOWN'' v) @ [DQUOTE])"

definition envelope_or_from :: "'x env_scheme \<Rightarrow> Mail \<Rightarrow> string \<Rightarrow> string" where
  "envelope_or_from e m key =
     AddressStructure e (case GetHeader key m of None \<Rightarrow> GetHeader ''from'' m | h \<Rightarrow> h)"

definition envelope :: "'x env_scheme \<Rightarrow> Mail \<Rightarrow> string" where
  "envelope e m =
     ''ENVELOPE ('' @ envelope_text m ''date'' @ '' '' @ envelope_text m ''subject'' @
     AddressStructure e (GetHeader ''from'' m) @ envelope_or_from e m ''sender'' @
     envelope_or_from e m ''reply-to'' @ AddressStructure e (GetHeader ''to'' m) @
     AddressStructure e (GetHeader ''cc'' m) @ AddressStructure e (GetHeader ''bcc'' m) @
     '' '' @ envelope_text m ''in-reply-to'' @ '' '' @ envelope_text m ''message-id'' @ '')''"

definition no_mail :: MailStructItem where
  "no_mail = MailStructItem 0 [] [] [] [] (new_Mail False)"

definition item_piece ::
  "'x env_scheme \<Rightarrow> IMAPMsg \<Rightarrow> string \<Rightarrow> MailStructItem \<Rightarrow> IMAPFetchItem \<Rightarrow> piece" where
  "item_piece e msg txt root i =
     (case tItem i of
        FETCH_BODY \<Rightarrow> body_piece txt root i
      | FETCH_BODY_STRUCTURE \<Rightarrow> Piece (''BODYSTRUCTURE '' @ BodyStructure True root)
      | FETCH_BODY_STRUCTURE_NON_EXTENSIBLE \<Rightarrow> Piece (''BODY '' @ BodyStructure False root)
      | FETCH_RFC822_SIZE \<Rightarrow> Piece (''RFC822.SIZE '' @ show_int (to_int32 (uint (iSize msg))))
      | FETCH_UID \<Rightarrow> Piece (''UID '' @ show_int (iUID msg))
      | FETCH_FLAGS_ITEM \<Rightarrow> Piece (''FLAGS ('' @ PrintFlags (iFlags msg) @ '')'')
      | FETCH_INTERNALDATE \<Rightarrow> Piece (''INTERNALDATE '' @ [DQUOTE] @ Date (iInternalDate msg) @ [DQUOTE])
      | FETCH_RFC822_HEADER \<Rightarrow>
          Piece (''RFC822.HEADER {'' @ show_nat (length (strHeader2 root)) @ ''}'' @ CRLF @ cstr (strHeader2 root))
      | FETCH_RFC822_TEXT \<Rightarrow>
          Piece (''RFC822.TEXT {'' @ show_nat (length (strText root)) @ ''}'' @ CRLF @ cstr (strText root))
      | FETCH_ENVELOPE \<Rightarrow> Piece (envelope e (cHeaders root))
      | FETCH_RFC822 \<Rightarrow> Piece (''RFC822 {'' @ show_nat (length txt) @ ''}'' @ CRLF @ txt))"

section \<open>The command\<close>

fun print_pieces :: "bool \<Rightarrow> piece list \<Rightarrow> 'y imap_scheme \<Rightarrow> 'y imap_scheme" where
  "print_pieces first [] s = s"
| "print_pieces first (p # ps) s =
     (let pre = (if first then [] else '' '')
      in case p of
           Piece t \<Rightarrow> print_pieces False ps (printf (pre @ t) s)
         | Overread t \<Rightarrow> (printf (pre @ t) s)\<lparr>overread := True, failed := True\<rparr>
         | Crash \<Rightarrow> s\<lparr>failed := True\<rparr>)"

definition peeks :: "IMAPFetchItem list \<Rightarrow> bool" where
  "peeks is = list_all (\<lambda>i. tItem i = FETCH_BODY \<longrightarrow> bPeek i) is"

text \<open>Setting \<open>\Seen\<close> after a body has been fetched.\<close>

definition mark_seen :: "nat \<Rightarrow> 'y imap_scheme \<Rightarrow> 'y imap_scheme" where
  "mark_seen n s =
     (let msg = vMessages s ! n; f = UNFLAG FLAG_UNREAD (iFlags msg)
      in untagged (show_int (iSequenceID msg) @ '' FETCH (FLAGS('' @ PrintFlags f @ ''))'')
           (s\<lparr>vMessages := (vMessages s)[n := set_flags f msg],
              wld := FlagMessage (wld s) f (iMailID msg) (iUserID s) False\<rparr>))"

definition fetch_one ::
  "'x env_scheme \<Rightarrow> fetch_parse \<Rightarrow> bool \<Rightarrow> IMAPRange \<Rightarrow> 'y imap_scheme \<Rightarrow> nat \<Rightarrow> 'y imap_scheme" where
  "fetch_one e p uid r s n =
     (let msg = vMessages s ! n
      in if failed s \<or> \<not> in_range uid r msg then s
         else let (loaded, w1) = load_mail e (fp_parsing p) (fp_reading p) (iMailID msg) (iUserID s) (wld s);
                  s1 = s\<lparr>wld := w1\<rparr>
              in case loaded of
                   None \<Rightarrow> untagged ''NO Internal error while fetching message'' s1
                 | Some None \<Rightarrow> s1\<lparr>failed := True\<rparr>
                 | Some (Some (txt, i)) \<Rightarrow>
                     let root = (case i of None \<Rightarrow> no_mail | Some x \<Rightarrow> x);
                         s2 = printf (''* '' @ show_int (iSequenceID msg) @ '' FETCH ('') s1;
                         s3 = print_pieces True (map (item_piece e msg txt root) (fp_items p)) s2;
                         s4 = printf ('')'' @ CRLF) s3
                     in if failed s3 then s3
                        else if \<not> peeks (fp_items p) \<and> \<not> bReadonly s4 \<and> FLAGGED FLAG_UNREAD (iFlags msg)
                        then mark_seen n s4 else s4)"

definition fetch_items :: "bool \<Rightarrow> string \<Rightarrow> fetch_parse" where
  "fetch_items uid items =
     foldl fetch_arg (new_fetch uid) (if IsList items then ParseList items else [items])"

definition IMAP_Fetch :: "'x env_scheme \<Rightarrow> nat \<Rightarrow> bool \<Rightarrow> 'y imap_scheme \<Rightarrow> 'y imap_scheme" where
  "IMAP_Fetch e k uid s =
     (let (a, s1) = ParseLine e k s
      in if length a \<noteq> 4
         then untagged (''BAD Syntax: '' @ (if uid then ''UID FETCH'' else ''FETCH'') @ '' [messageset] [dataitems]'') s1
         else let p = fetch_items uid (a ! 3)
              in if fp_crash p then s1\<lparr>failed := True\<rparr>
                 else let s2 = foldl (fetch_one e p uid (ParseMSGSet (a ! 2))) s1 [0..<length (vMessages s1)]
                      in if failed s2 then s2 else tagged '' OK FETCH completed'' s2)"

end
