(* ===== verification/Imap_Run.thy ===== *)
theory Imap_Run
  imports Imap_Fetch
begin

text \<open>
  The dispatcher of the IMAP server and its main loop (src/imap/imap.cpp). The alarm signal, which
  comes every two seconds while a line is awaited, closes stdin when the session has been idle for
  too long; it appears as the end of the input and \<open>bTimeout\<close>.
\<close>

section \<open>Dispatcher\<close>

text \<open>The words of the line: how many there are, up to three, and their texts.\<close>

definition scan_words :: "string \<Rightarrow> string list" where
  "scan_words l =
     (case scan_word l of
        None \<Rightarrow> []
      | Some (t, r) \<Rightarrow>
          t # (case scan_str 19 r of
                 None \<Rightarrow> []
               | Some (c, r2) \<Rightarrow> c # (case scan_str 19 r2 of None \<Rightarrow> [] | Some (d, _) \<Rightarrow> [d])))"

definition update_last_imap :: "'y imap_scheme \<Rightarrow> 'y imap_scheme" where
  "update_last_imap s =
     (if 0 < iUserID s \<and> iLastLoginUpdate s \<le> now (wld s) - LASTLOGIN_UPDATE_INTERVAL
      then s\<lparr>wld := set_last_imap (wld s) (iUserID s), iLastLoginUpdate := now (wld s)\<rparr> else s)"

definition unrefreshed :: "string list" where
  "unrefreshed = [''fetch'', ''store'', ''search'', ''logout'', ''idle'']"

text \<open>Before the command: what other sessions have changed is told to the client.\<close>

definition refresh :: "'x env_scheme \<Rightarrow> string \<Rightarrow> 'y imap_scheme \<Rightarrow> 'y imap_scheme" where
  "refresh e c s =
     (if 0 < iUserID s \<and> \<not> list_ex (strcaseeq c) unrefreshed
      then let (gen, sgen) = GetGeneration (wld s) (iUserID s);
               s1 = (if iState s = IMAP_STATE_SELECTED \<and> gen \<noteq> iGeneration s then refresh_mails e gen s else s)
           in if \<not> failed s1 \<and> cFolders s1 \<noteq> [] \<and> sgen \<noteq> iStructureGeneration s1
              then (read_folders e s1)\<lparr>iStructureGeneration := sgen\<rparr> else s1
      else s)"

definition logged_in :: "'y imap_scheme \<Rightarrow> bool" where
  "logged_in s \<longleftrightarrow> iState s = IMAP_STATE_AUTHENTICATED \<or> iState s = IMAP_STATE_SELECTED"

text \<open>The commands of the authenticated state.\<close>

definition IMAP_authenticated ::
  "'x imap_env_scheme \<Rightarrow> string \<Rightarrow> 'y imap_scheme \<Rightarrow> 'y imap_scheme option" where
  "IMAP_authenticated e c s =
     (if \<not> logged_in s then None
      else if strcaseeq c ''append'' then Some (IMAP_Append e s)
      else if strcaseeq c ''list'' then Some (IMAP_List e False s)
      else if strcaseeq c ''lsub'' then Some (IMAP_List e True s)
      else if strcaseeq c ''create'' then Some (IMAP_Create e s)
      else if strcaseeq c ''subscribe'' then Some (IMAP_Subscribe e False s)
      else if strcaseeq c ''unsubscribe'' then Some (IMAP_Subscribe e True s)
      else if strcaseeq c ''delete'' then Some (IMAP_Delete e s)
      else if strcaseeq c ''status'' then Some (IMAP_Status e s)
      else if strcaseeq c ''rename'' then Some (IMAP_Rename e s)
      else if strcaseeq c ''select'' then Some (IMAP_Select e False s)
      else if strcaseeq c ''examine'' then Some (IMAP_Select e True s)
      else if strcaseeq c ''getquota'' then Some (IMAP_GetQuota e s)
      else if strcaseeq c ''getquotaroot'' then Some (IMAP_GetQuotaRoot e s)
      else if strcaseeq c ''setquota'' then Some (IMAP_SetQuota s)
      else if strcaseeq c ''idle'' then Some (IMAP_Idle e s)
      else if strcaseeq c ''xapplepushservice'' \<and> bAPNS s then Some (IMAP_XApplePushService e s)
      else None)"

text \<open>UID and the command behind it, whose arguments start behind the tag.\<close>

definition IMAP_Uid :: "'x env_scheme \<Rightarrow> string option \<Rightarrow> 'y imap_scheme \<Rightarrow> 'y imap_scheme" where
  "IMAP_Uid e d s =
     (let k = length (szTag s) + 1
      in case d of
           None \<Rightarrow> untagged ''BAD Syntax: UID [FETCH|SEARCH|COPY|STORE] [args]'' s
         | Some c \<Rightarrow>
             if strcaseeq c ''fetch'' then IMAP_Fetch e k True s
             else if strcaseeq c ''search'' then IMAP_Search e k True s
             else if strcaseeq c ''store'' then IMAP_Store e k True s
             else if strcaseeq c ''copy'' then IMAP_Copy e k True s
             else tagged '' NO UID failed: Bad command'' s)"

definition IMAP_selected ::
  "'x env_scheme \<Rightarrow> string \<Rightarrow> string option \<Rightarrow> 'y imap_scheme \<Rightarrow> 'y imap_scheme option" where
  "IMAP_selected e c d s =
     (if iState s \<noteq> IMAP_STATE_SELECTED then None
      else if strcaseeq c ''check'' then Some (IMAP_Check s)
      else if strcaseeq c ''close'' then Some (IMAP_Close e s)
      else if strcaseeq c ''expunge'' then Some (IMAP_Expunge e False s)
      else if strcaseeq c ''store'' then Some (IMAP_Store e 0 False s)
      else if strcaseeq c ''copy'' then Some (IMAP_Copy e 0 False s)
      else if strcaseeq c ''fetch'' then Some (IMAP_Fetch e 0 False s)
      else if strcaseeq c ''search'' then Some (IMAP_Search e 0 False s)
      else if strcaseeq c ''uid'' then Some (IMAP_Uid e d s)
      else None)"

definition IMAP_command ::
  "'x imap_env_scheme \<Rightarrow> string \<Rightarrow> string option \<Rightarrow> 'y imap_scheme \<Rightarrow> 'y imap_scheme" where
  "IMAP_command e c d s =
     (if strcaseeq c ''capability'' then IMAP_Capability e s
      else if strcaseeq c ''noop'' then IMAP_Noop s
      else if strcaseeq c ''authenticate'' \<and> iState s = IMAP_STATE_NON_AUTHENTICATED then IMAP_Authenticate e s
      else if strcaseeq c ''login'' \<and> iState s = IMAP_STATE_NON_AUTHENTICATED then IMAP_Login e s
      else if strcaseeq c ''starttls'' \<and> iState s = IMAP_STATE_NON_AUTHENTICATED \<and> tls_available e \<and> \<not> bTLSMode s
      then IMAP_StartTLS e s
      else case IMAP_authenticated e c s of
             Some t \<Rightarrow> t
           | None \<Rightarrow>
               (case IMAP_selected e c d s of
                  Some t \<Rightarrow> t
                | None \<Rightarrow> tagged ('' NO Command unknown: '' @ c) (s\<lparr>iCommands := iCommands s - 1\<rparr>)))"

definition IMAP_ProcessLine :: "'x imap_env_scheme \<Rightarrow> 'y imap_scheme \<Rightarrow> bool \<times> 'y imap_scheme" where
  "IMAP_ProcessLine e s =
     (case scan_words (szLine s) of
        t # c # ds \<Rightarrow>
          let s1 = refresh e c (update_last_imap (s\<lparr>szTag := t, iCommands := iCommands s + 1\<rparr>))
          in if failed s1 then (False, s1)
             else if strcaseeq c ''logout'' then (False, IMAP_Logout e s1)
             else let s2 = IMAP_command e c (case ds of [] \<Rightarrow> None | d # _ \<Rightarrow> Some d) s1
                  in (\<not> failed s2, s2)
      | ts \<Rightarrow> (True, untagged ''BAD Syntax error'' (case ts of [] \<Rightarrow> s | t # _ \<Rightarrow> s\<lparr>szTag := t\<rparr>)))"

section \<open>Session\<close>

definition imap_loop :: "'x imap_env_scheme \<Rightarrow> 'y imap_scheme \<Rightarrow> 'y imap_scheme option" where
  "imap_loop e s =
     serve (Suc (todo s)) (my_fgets IMAP_MAXLINE) (IMAP_ProcessLine e) (\<lambda>s. \<not> bBanned s) s"

definition imap_epilogue :: "'x env_scheme \<Rightarrow> 'y imap_scheme \<Rightarrow> 'y imap_scheme" where
  "imap_epilogue e s =
     (if bTimeout s then untagged (''BYE Timeout ('' @ show_int (cfg_int e ''imap_timeout'') @ ''s)'') s
      else if bQuit s then untagged ''BYE Closing connection'' s
      else if bBanned s
      then untagged ''BYE IP temporarily banned because of too many failed login attempts'' s
      else s)"

definition IMAP_Run :: "'x imap_env_scheme \<Rightarrow> 'y imap_scheme \<Rightarrow> 'y imap_scheme option" where
  "IMAP_Run e s =
     (if Failban_IsBanned e (wld s) (PEER_IP e s) FAILBAN_IMAPLOGIN
      then Some (untagged ''BYE IP temporarily banned because of too many failed login attempts''
             (s\<lparr>bBanned := True\<rparr>))
      else case imap_loop e (untagged (''OK '' @ cfg_str e ''imapgreeting'') s) of
             None \<Rightarrow> None
           | Some t \<Rightarrow> Some (if failed t then t else imap_epilogue e t))"

end
