(* ===== verification/Imap_View.thy ===== *)
theory Imap_View
  imports Imap_Selected
begin

text \<open>
  The client's side of the IMAP protocol as an abstract specification: what a client knows of its
  mailbox, and what each report makes of it. The reports of \<open>ReportDelta\<close> and of EXPUNGE keep this
  view in step with the server's message list.
\<close>

section \<open>The client's view\<close>

text \<open>A message of which only the existence is known, or its UID and its flags.\<close>

type_synonym view = "(int \<times> int) option list"

definition hear :: "report \<Rightarrow> view \<Rightarrow> view option" where
  "hear r v =
     (case r of
        EXPUNGE n \<Rightarrow>
          if 1 \<le> n \<and> n \<le> int (length v) then Some (take (nat n - 1) v @ drop (nat n) v) else None
      | FETCH_FLAGS n f \<Rightarrow>
          if 1 \<le> n \<and> n \<le> int (length v)
          then Some (v[nat n - 1 := map_option (\<lambda>(u, _). (u, f)) (v ! (nat n - 1))]) else None
      | EXISTS n \<Rightarrow>
          if int (length v) \<le> n then Some (v @ replicate (nat n - length v) None) else None
      | RECENT n \<Rightarrow> Some v)"

fun hear_all :: "report list \<Rightarrow> view \<Rightarrow> view option" where
  "hear_all [] v = Some v"
| "hear_all (r # rs) v = Option.bind (hear r v) (hear_all rs)"

definition knows :: "(int \<times> int) option \<Rightarrow> IMAPMsg \<Rightarrow> bool" where
  "knows c m \<longleftrightarrow> c = None \<or> c = Some (iUID m, iFlags m)"

definition in_step :: "view \<Rightarrow> IMAPMsg list \<Rightarrow> bool" where
  "in_step v ms \<longleftrightarrow> list_all2 knows v ms"

fun numbered_from :: "int \<Rightarrow> IMAPMsg list \<Rightarrow> bool" where
  "numbered_from n [] = True"
| "numbered_from n (m # ms) = (iSequenceID m = n \<and> numbered_from (n + 1) ms)"

definition numbered :: "IMAPMsg list \<Rightarrow> bool" where "numbered ms = numbered_from 1 ms"

lemma numbered_Nil [simp]: "numbered []"
  by (simp add: numbered_def)

lemma hear_all_append [simp]: "hear_all (rs @ ts) v = Option.bind (hear_all rs v) (hear_all ts)"
proof (induction rs arbitrary: v)
  case (Cons r rs)
  then show ?case by (cases "hear r v") simp_all
qed simp

lemma in_step_simps [simp]:
  "in_step [] []" "in_step v [] \<longleftrightarrow> v = []" "in_step (c # v) (m # ms) \<longleftrightarrow> knows c m \<and> in_step v ms"
  by (auto simp: in_step_def)

lemma in_step_ConsE:
  assumes "in_step v (m # ms)" obtains c w where "v = c # w" "knows c m" "in_step w ms"
  using assms by (cases v) (auto simp: in_step_def)

lemma in_step_length: "in_step v ms \<Longrightarrow> length v = length ms"
  by (simp add: in_step_def list_all2_lengthD)

lemma in_step_lower [simp]: "in_step v (map lower_sequence ms) = in_step v ms"
  by (simp add: in_step_def list_all2_map2 knows_def [abs_def] lower_sequence_def)

lemma numbered_lower [simp]: "numbered_from n (map lower_sequence ms) = numbered_from (n + 1) ms"
  by (induction ms arbitrary: n) (auto simp: lower_sequence_def)

lemma numbered_append: "numbered_from n (a @ b) \<longleftrightarrow> numbered_from n a \<and> numbered_from (n + int (length a)) b"
  by (induction a arbitrary: n) (auto simp: algebra_simps)

lemma numbered_nth: "numbered_from n ms \<Longrightarrow> i < length ms \<Longrightarrow> iSequenceID (ms ! i) = n + int i"
  by (induction ms arbitrary: n i) (auto simp: nth_Cons split: nat.splits)

lemma numbered_number_messages [simp]: "numbered_from n (number_messages n ms)"
  by (induction ms arbitrary: n) auto

text \<open>Each report hits the message behind the known prefix.\<close>

lemma hear_EXPUNGE [simp]: "hear (EXPUNGE (int (length p) + 1)) (p @ c # v) = Some (p @ v)"
  by (simp add: hear_def nat_add_distrib)

lemma hear_FLAGS [simp]:
  "hear (FETCH_FLAGS (int (length p) + 1) f) (p @ c # v) = Some (p @ map_option (\<lambda>(u, _). (u, f)) c # v)"
  by (simp add: hear_def nat_add_distrib nth_append)

section \<open>The reports of a change\<close>

lemma drop_until_heard:
  "drop_until uid ms = (rs, ks) \<Longrightarrow> numbered_from (int (length p) + 1) ms \<Longrightarrow> in_step v ms \<Longrightarrow>
     \<exists>v'. hear_all rs (p @ v) = Some (p @ v') \<and> in_step v' ks \<and> numbered_from (int (length p) + 1) ks \<and>
          (ks = [] \<or> iUID (hd ks) = uid)"
proof (induction uid ms arbitrary: rs v rule: drop_until.induct)
  case (2 uid m ms)
  obtain c w where v: "v = c # w" "knows c m" "in_step w ms" using 2 by (blast elim: in_step_ConsE)
  show ?case
  proof (cases "iUID m = uid")
    case False
    obtain rs' where rs: "rs = EXPUNGE (iSequenceID m) # rs'" "drop_until uid (map lower_sequence ms) = (rs', ks)"
      using 2(2) False by (cases "drop_until uid (map lower_sequence ms)") auto
    have "\<exists>v'. hear_all rs' (p @ w) = Some (p @ v') \<and> in_step v' ks \<and> numbered_from (int (length p) + 1) ks \<and>
          (ks = [] \<or> iUID (hd ks) = uid)"
      using 2 False rs(2) v(3) by (intro 2(1)) auto
    then show ?thesis using 2(3) rs(1) v(1) by simp
  qed (use 2 in auto)
qed simp

definition aligned :: "IMAPMsg list \<Rightarrow> IMAPMsg list \<Rightarrow> bool" where
  "aligned ks ns \<longleftrightarrow> map iUID (take (length ns) ks) = map iUID (take (length ks) ns)"

lemma sync_lists_heard:
  "sync_lists old new = (rs, ks) \<Longrightarrow> numbered_from (int (length p) + 1) old \<Longrightarrow> in_step v old \<Longrightarrow>
     \<exists>v'. hear_all rs (p @ v) = Some (p @ v') \<and> in_step v' ks \<and> numbered_from (int (length p) + 1) ks \<and>
          aligned ks new"
proof (induction old new arbitrary: rs ks p v rule: sync_lists.induct)
  case (3 m ms n ns)
  obtain qs ls where d: "drop_until (iUID n) (m # ms) = (qs, ls)" by fastforce
  obtain w where w: "hear_all qs (p @ v) = Some (p @ w)" "in_step w ls" "numbered_from (int (length p) + 1) ls"
      "ls = [] \<or> iUID (hd ls) = iUID n"
    using drop_until_heard [OF d 3(3,4)] by blast
  show ?case
  proof (cases ls)
    case Nil
    then show ?thesis using 3(2) d w by (auto simp: aligned_def)
  next
    case (Cons l ls')
    obtain ts zs where t: "sync_lists ls' ns = (ts, zs)" by fastforce
    obtain c u where cu: "w = c # u" "knows c l" "in_step u ls'" using w(2) Cons by (blast elim: in_step_ConsE)
    have eq: "rs = qs @ ts" "ks = l # zs" using 3(2) d Cons t by auto
    have "\<exists>v'. hear_all ts ((p @ [c]) @ u) = Some ((p @ [c]) @ v') \<and> in_step v' zs \<and>
        numbered_from (int (length (p @ [c])) + 1) zs \<and> aligned zs ns"
      using d Cons t w(3) cu(3) by (intro 3(1)) auto
    then show ?thesis using w(1,3,4) cu(1,2) eq Cons by (auto simp: aligned_def algebra_simps)
  qed
qed (auto simp: aligned_def)

lemma surplus_heard:
  "in_step w ls \<Longrightarrow> hear_all (replicate (length ls) (EXPUNGE (int (length q) + 1))) (q @ w) = Some q"
proof (induction ls arbitrary: w)
  case (Cons l ls)
  then show ?case by (auto elim!: in_step_ConsE)
qed simp

lemma drop_surplus_heard:
  assumes "drop_surplus ks new = (rs, ls)" and "numbered ks" and "in_step v ks" and "aligned ks new"
  shows "\<exists>v'. hear_all rs v = Some v' \<and> in_step v' ls \<and> numbered ls \<and> length ls \<le> length new \<and>
    map iUID ls = map iUID (take (length ls) new) \<and> (rs = [] \<longrightarrow> ls = ks)"
proof (cases "length new < length ks")
  case True
  let ?n = "length new"
  have s: "iSequenceID (ks ! ?n) = int ?n + 1"
    using numbered_nth [of 1 ks ?n] assms(2) True by (simp add: numbered_def)
  have v: "length (take ?n v) = ?n" "in_step (take ?n v) (take ?n ks)" "in_step (drop ?n v) (drop ?n ks)"
    using assms(3) True by (auto simp: in_step_def list_all2_takeI list_all2_dropI dest: list_all2_lengthD)
  have n: "numbered (take ?n ks)"
    using numbered_append [of 1 "take ?n ks" "drop ?n ks"] assms(2) by (simp add: numbered_def)
  have "hear_all rs v = Some (take ?n v)"
    using surplus_heard [OF v(3), of "take ?n v"] assms(1) True s v(1) by (simp add: drop_surplus_def)
  with True assms(1,4) v n show ?thesis
    by (auto simp: drop_surplus_def aligned_def)
qed (use assms in \<open>auto simp: drop_surplus_def aligned_def\<close>)

lemma changed_flags_heard:
  "numbered_from (int (length p) + 1) ks \<Longrightarrow> numbered_from (int (length p) + 1) ns \<Longrightarrow>
   length ks \<le> length ns \<Longrightarrow> map iUID ks = map iUID (take (length ks) ns) \<Longrightarrow> in_step v ks \<Longrightarrow>
     \<exists>v'. hear_all (changed_flags ks ns) (p @ v) = Some (p @ v') \<and> in_step v' (take (length ks) ns)"
proof (induction ks ns arbitrary: p v rule: changed_flags.induct)
  case (1 m ms n ns)
  obtain c u where cu: "v = c # u" "knows c m" "in_step u ms" using 1 by (blast elim: in_step_ConsE)
  define c' where "c' = (if iFlags n \<noteq> iFlags m then map_option (\<lambda>(u, _). (u, iFlags n)) c else c)"
  have "\<exists>v'. hear_all (changed_flags ms ns) ((p @ [c']) @ u) = Some ((p @ [c']) @ v') \<and>
      in_step v' (take (length ms) ns)"
    using 1 cu by (intro 1(1)) auto
  moreover have "knows c' n" using 1 cu by (auto simp: c'_def knows_def)
  ultimately show ?case using 1 cu by (auto simp: c'_def)
qed auto

text \<open>
  C7: c1. The reports of \<open>ReportDelta\<close> keep the client in step.
\<close>

theorem IMAP_ReportDelta_in_step:
  assumes "numbered old" and "numbered new" and "in_step v old"
  shows "\<exists>v'. hear_all (ReportDelta old new) v = Some v' \<and> in_step v' new"
proof -
  obtain r1 o1 where s: "sync_lists old new = (r1, o1)" by fastforce
  obtain r2 o2 where d: "drop_surplus o1 new = (r2, o2)" by fastforce
  obtain v1 where v1: "hear_all r1 v = Some v1" "in_step v1 o1" "numbered o1" "aligned o1 new"
    using sync_lists_heard [OF s, of "[]" v] assms(1,3) by (auto simp: numbered_def)
  obtain v2 where v2: "hear_all r2 v1 = Some v2" "in_step v2 o2" "numbered o2" "length o2 \<le> length new"
      "map iUID o2 = map iUID (take (length o2) new)" "r2 = [] \<longrightarrow> o2 = o1"
    using drop_surplus_heard [OF d v1(3,2,4)] by blast
  obtain v3 where v3: "hear_all (changed_flags o2 new) v2 = Some v3" "in_step v3 (take (length o2) new)"
    using changed_flags_heard [of "[]" o2 new v2] v2 assms(2) by (auto simp: numbered_def)
  have l3: "length v3 = length o2" using in_step_length [OF v3(2)] v2(4) by simp
  let ?ex = "length new \<noteq> length old \<or> r1 \<noteq> [] \<or> r2 \<noteq> []"
  define v4 where "v4 = (if ?ex then v3 @ replicate (length new - length v3) None else v3)"
  have full: "length o2 = length new" if "\<not> ?ex"
  proof -
    from that v1(1) v2(1,6) have "v1 = v" "o2 = o1" by auto
    then show ?thesis using in_step_length [OF assms(3)] in_step_length [OF v1(2)] that by simp
  qed
  have "in_step (v3 @ replicate (length new - length o2) None) (take (length o2) new @ drop (length o2) new)"
    using v3(2) v2(4) unfolding in_step_def
    by (intro list_all2_appendI) (auto simp: list_all2_conv_all_nth knows_def)
  then have "in_step v4 new" using full v3(2) l3 by (auto simp: v4_def)
  moreover have "hear_all (ReportDelta old new) v = Some v4"
    using s d v1(1) v2(1,4) v3(1) l3 by (auto simp: ReportDelta_def Let_def v4_def hear_def)
  ultimately show ?thesis by blast
qed

definition plain_msg :: "int \<Rightarrow> int \<Rightarrow> int \<Rightarrow> IMAPMsg" where
  "plain_msg n d f = \<lparr>iUID = d, iMailID = d, iSequenceID = n, iFlags = f, iInternalDate = 0, iSize = 0,
      bFile = False, iBlobStorage = 0\<rparr>"

text \<open>Two of three messages are gone, one is new, and the flags of the one that stays have changed.\<close>

lemma IMAP_ReportDelta_in_step_witness:
  "\<exists>v. hear_all [EXPUNGE 1, EXPUNGE 1, FETCH_FLAGS 1 33, EXISTS 2]
      [Some (1, 1), Some (2, 1), None] = Some v \<and> in_step v [plain_msg 1 3 33, plain_msg 2 4 1]"
proof -
  let ?old = "[plain_msg 1 1 1, plain_msg 2 2 1, plain_msg 3 3 1]" and ?new = "[plain_msg 1 3 33, plain_msg 2 4 1]"
  have r: "ReportDelta ?old ?new = [EXPUNGE 1, EXPUNGE 1, FETCH_FLAGS 1 33, EXISTS 2, RECENT 1]"
    by (simp add: plain_msg_def ReportDelta_def lower_sequence_def drop_surplus_def CountNotFlaggedMails_def
        flag_values FLAGGED_def)
  have "\<exists>v. hear_all (ReportDelta ?old ?new) [Some (1, 1), Some (2, 1), None] = Some v \<and> in_step v ?new"
    by (rule IMAP_ReportDelta_in_step) (simp_all add: plain_msg_def numbered_def knows_def)
  then show ?thesis unfolding r by (auto simp: hear_def)
qed

end
