(* ===== verification/Imap_Frames.thy ===== *)
theory Imap_Frames
  imports Imap_Run Imap_View
begin

text \<open>
  What the operations of the IMAP server leave alone: \<open>foreign\<close> is the part of the mail table that
  belongs to other users, and \<open>imap_step\<close> is the relation between the states before and after a
  command that all handlers satisfy.
\<close>

section \<open>The tables\<close>

lemma mails_make_dir [simp]: "mails (make_dir e w p) = mails w" "mails (foldl (make_dir e) w ps) = mails w"
proof -
  show d: "mails (make_dir e w p) = mails w" for w p by (simp add: make_dir_def)
  show "mails (foldl (make_dir e) w ps) = mails w" by (induction ps arbitrary: w) (simp_all add: d)
qed

lemma mails_MailPath [simp]: "mails (snd (MailPath e w i x c)) = mails w"
  by (simp add: MailPath_def Let_def)

lemma mails_blob [simp]:
  "mails (snd (sf_storeBlob e w ty i d)) = mails w" "mails (snd (sf_loadBlob e w ty i)) = mails w"
  "mails (snd (sf_deleteBlob e w ty i)) = mails w" "mails (snd (ud_storeBlob e u sdb w ty i d)) = mails w"
  "mails (snd (ud_deleteBlob u sdb w ty i)) = mails w"
  by (simp_all add: sf_storeBlob_def sf_loadBlob_def sf_deleteBlob_def blobPath_def ud_storeBlob_def
      ud_deleteBlob_def split_beta Let_def)

lemma mails_DeleteBlob_same [simp]: "mails (snd (DeleteBlob e w b ty i u)) = mails w"
  by (simp add: DeleteBlob_def Let_def split: option.split provider.split)

lemma mails_store_blob [simp]: "mails (store_blob e p u d x w) = mails w"
  by (simp add: store_blob_def split: option.split provider.split)

lemma mails_GetMessageFP [simp]: "mails (snd (GetMessageFP e w i u)) = mails w"
  by (simp add: GetMessageFP_def message_file_def split_beta split: option.split provider.split list.split)

lemma mails_tables [simp]:
  "mails (IncGeneration w u g h) = mails w" "mails (release_space w u n) = mails w"
  "mails (add_space w u k) = mails w" "mails (set_last_imap w u) = mails w" "mails (PostEvent w u t a b) = mails w"
  "mails (snd (AddUID w d)) = mails w" "mails (insert_folder w u x p q) = mails w"
  "mails (rename_row w d x p) = mails w" "mails (subscribe_push u acct token tp ids w) = mails w"
  by (simp_all add: IncGeneration_def release_space_def add_space_def set_last_imap_def PostEvent_def
      AddUID_def insert_folder_def rename_row_def subscribe_push_def Let_def split_beta)

lemma mails_Failban [simp]: "mails (snd (Failban_LoginFailed e w ip t)) = mails w"
  by (simp add: Failban_LoginFailed_def Let_def split: list.split)

definition foreign :: "int \<Rightarrow> world \<Rightarrow> mail_row list" where
  "foreign u w = filter (\<lambda>m. m_userid m \<noteq> u) (mails w)"

lemma foreign_mails: "mails v = mails w \<Longrightarrow> foreign u v = foreign u w"
  by (simp add: foreign_def)

lemma foreign_FlagMessage [simp]: "foreign u (FlagMessage w f d u b) = foreign u w"
proof -
  have "filter (\<lambda>m. m_userid m \<noteq> u) (map (\<lambda>m. if m_id m = d \<and> m_userid m = u then m\<lparr>m_flags := f\<rparr> else m) ms)
      = filter (\<lambda>m. m_userid m \<noteq> u) ms" for ms
    by (induction ms) auto
  then show ?thesis by (simp add: foreign_def FlagMessage_def Let_def)
qed

lemma fold_foreign:
  assumes "\<And>a x. foreign u (f (g a x)) = foreign u (f a)"
  shows "foreign u (f (foldl g a xs)) = foreign u (f a)"
  by (induction xs arbitrary: a) (simp_all add: assms)

lemma foreign_FetchMessages:
  assumes "FetchMessages e w sel u lim ro = Some (ms, w')"
  shows "foreign u w' = foreign u w"
proof -
  have "foreign u (snd (fetch_row e u ro acc row)) = foreign u (snd acc)" for acc row
    by (auto simp: fetch_row_def split_beta Let_def foreign_mails [OF mails_tables(6)] split: option.splits)
  then have "foreign u (snd (foldl (fetch_row e u ro) ([], w) rows)) = foreign u w" for rows
    using fold_foreign [of u snd "fetch_row e u ro" "([], w)" rows] by simp
  then show ?thesis using assms by (auto simp: FetchMessages_def Let_def split_beta split: option.splits)
qed

lemma foreign_filter: "\<forall>r. m_userid r \<noteq> u \<longrightarrow> P r \<Longrightarrow> foreign u (w\<lparr>mails := filter P (mails w)\<rparr>) = foreign u w"
  by (auto simp: foreign_def intro: filter_cong)

lemma foreign_delete_mail [simp]: "foreign u (snd (delete_mail e u m w)) = foreign u w"
  by (auto simp: delete_mail_def Let_def foreign_def is_mail_def intro: filter_cong)

lemma mails_copy_mail:
  "mails (copy_mail e u f msg m w) = mails w @ [copied_row e f (next_id w) m]"
proof -
  have "mails (case GetMessageFP e v i u of (None, x) \<Rightarrow> x | (Some d, x) \<Rightarrow> store_blob e p u k d x) = mails v"
    for v i p k
    using mails_GetMessageFP [of e v i u] by (simp add: split_beta split: option.split)
  then show ?thesis by (simp add: copy_mail_def Let_def)
qed

lemma foreign_copy_mail [simp]: "m_userid m = u \<Longrightarrow> foreign u (copy_mail e u f msg m w) = foreign u w"
  by (simp add: foreign_def mails_copy_mail copied_row_def)

lemma foreign_copy_one [simp]: "foreign u (snd (snd (copy_one e u lim f acc msg))) = foreign u (snd (snd acc))"
proof -
  have "filter (is_mail d u) ms = m # rest \<Longrightarrow> m_userid m = u" for d ms m rest
    by (metis filter_eq_Cons_iff is_mail_def)
  then show ?thesis by (auto simp: copy_one_def split_beta split: list.split)
qed

lemma foreign_drop_folder [simp]: "foreign u (drop_folder e u w d) = foreign u w"
proof -
  have "mails (snd (foldl (delete_folder_mail e u) a ms)) = mails (snd a)" for a ms
    by (induction ms arbitrary: a) (simp_all add: delete_folder_mail_def split_beta Let_def)
  then show ?thesis
    by (auto simp: drop_folder_def Let_def split_beta foreign_def intro!: filter_cong)
qed

lemma foreign_DeleteFolder: "DeleteFolder n e u w d = Some w' \<Longrightarrow> foreign u w' = foreign u w"
proof (induction n arbitrary: w d w')
  case (Suc n)
  have "foldl (\<lambda>r c. case r of None \<Rightarrow> None | Some w1 \<Rightarrow> DeleteFolder n e u w1 c) None cs = None" for cs
    by (induction cs) simp_all
  then have "foldl (\<lambda>r c. case r of None \<Rightarrow> None | Some w1 \<Rightarrow> DeleteFolder n e u w1 c) (Some v) cs = Some v' \<Longrightarrow>
      foreign u v' = foreign u v" for cs v v'
    using Suc.IH by (induction cs arbitrary: v) (auto split: option.splits, metis not_None_eq)
  then show ?case using Suc.prems by auto
qed simp

section \<open>Reading arguments\<close>

lemma refuse_literals_imap [simp]:
  "vMessages (refuse_literals a s) = vMessages s" "iState (refuse_literals a s) = iState s"
  "iUserID (refuse_literals a s) = iUserID s" "wld (refuse_literals a s) = wld s"
  "szTag (refuse_literals a s) = szTag s" "cFolders (refuse_literals a s) = cFolders s"
  "failed (refuse_literals a s) = failed s" "iSelected (refuse_literals a s) = iSelected s"
  "\<exists>xs. out (refuse_literals a s) = out s @ xs"
proof -
  let ?f = "\<lambda>n. (printf (''* NO Parameter too big'' @ CRLF) ^^ n) s"
  have "vMessages (?f n) = vMessages s \<and> iState (?f n) = iState s \<and> iUserID (?f n) = iUserID s \<and>
      wld (?f n) = wld s \<and> szTag (?f n) = szTag s \<and> cFolders (?f n) = cFolders s \<and> failed (?f n) = failed s \<and>
      iSelected (?f n) = iSelected s \<and> (\<exists>xs. out (?f n) = out s @ xs)" for n
    by (induction n) auto
  then show "vMessages (refuse_literals a s) = vMessages s" "iState (refuse_literals a s) = iState s"
    "iUserID (refuse_literals a s) = iUserID s" "wld (refuse_literals a s) = wld s"
    "szTag (refuse_literals a s) = szTag s" "cFolders (refuse_literals a s) = cFolders s"
    "failed (refuse_literals a s) = failed s" "iSelected (refuse_literals a s) = iSelected s"
    "\<exists>xs. out (refuse_literals a s) = out s @ xs"
    by (simp_all add: refuse_literals_def)
qed

text \<open>What reading changes: the input, the output and the note of an overrun.\<close>

definition same_mailbox :: "'y imap_scheme \<Rightarrow> 'y imap_scheme \<Rightarrow> bool" where
  "same_mailbox s t \<longleftrightarrow>
     vMessages t = vMessages s \<and> cFolders t = cFolders s \<and> iState t = iState s \<and> iUserID t = iUserID s \<and>
     wld t = wld s \<and> szTag t = szTag s \<and> failed t = failed s \<and> iSelected t = iSelected s \<and>
     (\<exists>xs. out t = out s @ xs) \<and> todo t \<le> todo s"

lemma same_mailbox_refl [simp]: "same_mailbox s s"
  by (simp add: same_mailbox_def)

lemma same_mailbox_trans: "same_mailbox s t \<Longrightarrow> same_mailbox t u \<Longrightarrow> same_mailbox s u"
  by (auto simp: same_mailbox_def)

lemma same_printf: "same_mailbox s (printf x s)"
  by (auto simp: same_mailbox_def)

lemma same_refuse: "same_mailbox s (refuse_literals a s)"
  by (simp add: same_mailbox_def)

lemma same_overrun: "same_mailbox s (s\<lparr>overrun := b\<rparr>)"
  by (simp add: same_mailbox_def)

lemma same_set_pending: "length r \<le> length (pending s) \<Longrightarrow> same_mailbox s (set_pending r s)"
  by (auto simp: same_mailbox_def set_pending_def pending_def todo_def)

lemma same_read_literal: "read_literal n s = (l, t) \<Longrightarrow> same_mailbox s t"
  by (auto simp: read_literal_def intro: same_set_pending)

lemma same_read_line: "read_line n s = (l, t) \<Longrightarrow> same_mailbox s t"
proof -
  assume a: "read_line n s = (l, t)"
  have "todo t \<le> todo s" using a by (rule read_line_todo)
  with a show ?thesis
    by (auto simp: read_line_def same_mailbox_def split: if_splits option.splits prod.splits)
qed

lemma same_parse_args: "parse_args mx k line a s = (r, t) \<Longrightarrow> same_mailbox s t"
proof (induction mx k line a s rule: parse_args.induct)
  case (1 mx k line a s)
  obtain b n where b: "arg_chars mx line a = (b, n)" by fastforce
  show ?case
  proof (cases n)
    case None
    then show ?thesis using 1(2) b same_refuse by (auto simp: parse_args.simps [of mx k line a s])
  next
    case n: (Some m)
    let ?s1 = "printf (''+ Ok, reading '' @ show_int m @ '' bytes'' @ CRLF) (refuse_literals b s)"
    obtain lit s2 where l: "read_literal m ?s1 = (lit, s2)" by fastforce
    obtain li s3 where r: "read_line IMAP_MAXLINE s2 = (li, s3)" by fastforce
    have s3: "same_mailbox s s3"
      by (rule same_mailbox_trans [OF same_mailbox_trans [OF same_mailbox_trans [OF same_refuse same_printf]
              same_read_literal [OF l]] same_read_line [OF r]])
    show ?thesis
    proof (cases li)
      case None
      then show ?thesis
        using 1(2) b n l r same_mailbox_trans [OF s3 same_overrun]
        by (auto simp: parse_args.simps [of mx k line a s] Let_def)
    next
      case (Some x)
      let ?s4 = "s3\<lparr>overrun := overrun s3 \<or> overruns k s3 x\<rparr>"
      let ?c = "b\<lparr>a_done := a_done b @ [lit], a_refused := 0\<rparr>"
      have "parse_args mx (k + 1) (cstr (drop 1 x)) ?c ?s4 = (r, t)"
        using 1(2) b n l r Some by (simp add: parse_args.simps [of mx k line a s] Let_def)
      then have "same_mailbox ?s4 t"
        by (rule 1(1) [OF b [symmetric] n refl refl l [symmetric] refl r [symmetric] Some])
      then show ?thesis using same_mailbox_trans [OF s3 same_overrun] same_mailbox_trans by blast
    qed
  qed
qed

lemma same_ParseLine: "ParseLine e k s = (a, t) \<Longrightarrow> same_mailbox s t"
  by (auto simp: ParseLine_def intro: same_parse_args)

section \<open>The step of a command\<close>

text \<open>
  The invariant of a session: the messages are numbered from 1, there are none unless a mailbox is
  selected, and the folders are known exactly after the login.
\<close>

definition imap_ok :: "'y imap_scheme \<Rightarrow> bool" where
  "imap_ok s \<longleftrightarrow>
     numbered (vMessages s) \<and> (iState s \<noteq> IMAP_STATE_SELECTED \<longrightarrow> vMessages s = []) \<and>
     (if iState s = IMAP_STATE_NON_AUTHENTICATED then cFolders s = [] else cFolders s \<noteq> [])"

definition imap_step :: "bool \<Rightarrow> 'y imap_scheme \<Rightarrow> 'y imap_scheme \<Rightarrow> bool" where
  "imap_step h s t \<longleftrightarrow>
     todo t \<le> todo s \<and> iUserID t = iUserID s \<and> szTag t = szTag s \<and> (imap_ok s \<longrightarrow> imap_ok t) \<and>
     (iState t = IMAP_STATE_NON_AUTHENTICATED \<longleftrightarrow> iState s = IMAP_STATE_NON_AUTHENTICATED) \<and>
     (h \<longrightarrow> foreign (iUserID s) (wld t) = foreign (iUserID s) (wld s)) \<and> (\<exists>xs. out t = out s @ xs)"

named_theorems steps

lemma step_refl [simp, steps]: "imap_step h s s"
  by (simp add: imap_step_def)

lemma step_trans: "imap_step h s t \<Longrightarrow> imap_step h t u \<Longrightarrow> imap_step h s u"
  by (auto simp: imap_step_def)

lemma step_same: "same_mailbox t u \<Longrightarrow> imap_step h s t \<Longrightarrow> imap_step h s u"
  by (auto simp: same_mailbox_def imap_step_def imap_ok_def)

lemma step_ParseLine: "ParseLine e k s = (a, t) \<Longrightarrow> imap_step h s t"
  by (rule step_same [OF same_ParseLine step_refl])

lemma step_read_line: "read_line n t = (l, u) \<Longrightarrow> imap_step h s t \<Longrightarrow> imap_step h s u"
  by (rule step_same [OF same_read_line])

lemma step_printf [steps]: "imap_step h s t \<Longrightarrow> imap_step h s (printf x t)"
  by (rule step_same [OF same_printf])

lemma step_untagged [steps]: "imap_step h s t \<Longrightarrow> imap_step h s (untagged x t)"
  by (simp add: untagged_def step_printf)

lemma step_tagged [steps]: "imap_step h s t \<Longrightarrow> imap_step h s (tagged x t)"
  by (simp add: tagged_def step_printf)

lemma step_update [steps]:
  "imap_step h s t \<Longrightarrow> imap_step h s (t\<lparr>failed := f\<rparr>)" "imap_step h s t \<Longrightarrow> imap_step h s (t\<lparr>overread := b\<rparr>)"
  "imap_step h s t \<Longrightarrow> imap_step h s (t\<lparr>iCommands := n\<rparr>)" "imap_step h s t \<Longrightarrow> imap_step h s (t\<lparr>iGeneration := n\<rparr>)"
  "imap_step h s t \<Longrightarrow> imap_step h s (t\<lparr>iStructureGeneration := n\<rparr>)"
  "imap_step h s t \<Longrightarrow> imap_step h s (t\<lparr>iLastLoginUpdate := n\<rparr>)"
  "imap_step h s t \<Longrightarrow> imap_step h s (t\<lparr>bTLSMode := b\<rparr>)" "imap_step h s t \<Longrightarrow> imap_step h s (t\<lparr>bIO_SSL := b\<rparr>)"
  "imap_step h s t \<Longrightarrow> imap_step h s (t\<lparr>bTLSMode := b, bIO_SSL := f\<rparr>)"
  by (auto simp: imap_step_def imap_ok_def todo_def)

lemma step_wld [steps]:
  "imap_step h s t \<Longrightarrow> (h \<Longrightarrow> foreign (iUserID t) w = foreign (iUserID t) (wld t)) \<Longrightarrow> imap_step h s (t\<lparr>wld := w\<rparr>)"
  by (auto simp: imap_step_def imap_ok_def todo_def)

lemma FetchFolders_nonempty [simp]: "FetchFolders e w u \<noteq> []"
  by (simp add: FetchFolders_def Let_def)

lemma step_read_folders [steps]:
  "imap_step h s t \<Longrightarrow> iState t \<noteq> IMAP_STATE_NON_AUTHENTICATED \<Longrightarrow> imap_step h s (read_folders e t)"
  by (auto simp: imap_step_def imap_ok_def todo_def read_folders_def)

lemma step_state: "imap_step h s t \<Longrightarrow> iState s \<noteq> IMAP_STATE_NON_AUTHENTICATED \<Longrightarrow> iState t \<noteq> IMAP_STATE_NON_AUTHENTICATED"
  by (simp add: imap_step_def)

lemma step_user: "imap_step h s t \<Longrightarrow> iUserID t = iUserID s"
  by (simp add: imap_step_def)

lemma step_foldl: "(\<And>t x. x \<in> set xs \<Longrightarrow> imap_step h s t \<Longrightarrow> imap_step h s (f t x)) \<Longrightarrow> imap_step h s t \<Longrightarrow> imap_step h s (foldl f t xs)"
  by (induction xs arbitrary: t) auto

lemma numbered_cong: "map iSequenceID a = map iSequenceID b \<Longrightarrow> numbered_from n a = numbered_from n b"
proof (induction a arbitrary: b n)
  case (Cons x a)
  obtain y c where b: "b = y # c" "iSequenceID x = iSequenceID y" "map iSequenceID a = map iSequenceID c"
    using Cons.prems by (cases b) auto
  show ?case using Cons.IH [OF b(3), of "n + 1"] b(1,2) by simp
qed simp

lemma numbered_flags [simp]: "numbered (ms[i := set_flags f (ms ! i)]) = numbered ms"
proof -
  have "map iSequenceID (ms[i := set_flags f (ms ! i)]) = map iSequenceID ms"
    by (rule map_update_same) (simp add: set_flags_def)
  then show ?thesis using numbered_cong unfolding numbered_def by blast
qed

lemma step_print_reports [steps]: "imap_step h s t \<Longrightarrow> imap_step h s (print_reports rs t)"
  by (auto simp: print_reports_def intro!: step_foldl steps)

lemma print_reports_frame [simp]:
  "vMessages (print_reports rs s) = vMessages s" "iState (print_reports rs s) = iState s"
  "wld (print_reports rs s) = wld s" "iUserID (print_reports rs s) = iUserID s"
  "cFolders (print_reports rs s) = cFolders s" "failed (print_reports rs s) = failed s"
  "out (print_reports rs s) = out s @ map (\<lambda>r. ''* '' @ report_text r @ CRLF) rs"
  unfolding print_reports_def by (induction rs arbitrary: s) simp_all

lemma step_messages:
  assumes "imap_step h s t" and "iState t = IMAP_STATE_SELECTED" and "numbered ms"
  shows "imap_step h s (t\<lparr>vMessages := ms\<rparr>)"
  using assms by (auto simp: imap_step_def imap_ok_def todo_def)

lemma FetchMessages_numbered: "FetchMessages e w sel u lim ro = Some (ms, w') \<Longrightarrow> numbered ms"
  by (auto simp: FetchMessages_def Let_def split_beta numbered_def split: option.splits)

lemma step_refresh_mails:
  assumes "imap_step h s t" and "iState t = IMAP_STATE_SELECTED"
  shows "imap_step h s (refresh_mails e gen t)"
proof (cases "FetchMessages e (wld t) (iSelected t) (iUserID t) (iLimit t) (bReadonly t)")
  case (Some r)
  obtain ms w where r: "r = (ms, w)" by fastforce
  have "imap_step h s ((t\<lparr>wld := w\<rparr>)\<lparr>iGeneration := gen\<rparr>)"
    using assms Some r foreign_FetchMessages by (auto intro!: steps)
  then show ?thesis
    using assms Some r FetchMessages_numbered
    by (auto simp: refresh_mails_def intro!: step_messages step_print_reports)
qed (use assms in \<open>auto simp: refresh_mails_def intro: steps\<close>)

end
