(* ===== verification/Imap_Steps.thy ===== *)
theory Imap_Steps
  imports Imap_Frames
begin

text \<open>
  Every command of the IMAP server is an \<open>imap_step\<close>: it gives no input back, keeps the user, the
  numbering of the messages and the mails of other users, and only adds to the output. Two things
  that are not under src/ could break the last but one: what a manipulated Message-ID makes of the
  statement of APPEND, and the other processes while IDLE waits.
\<close>

definition harmless :: "'x imap_env_scheme \<Rightarrow> int \<Rightarrow> bool" where
  "harmless e u \<longleftrightarrow>
     (\<forall>x w d v. sql_other e x w = Some (d, v) \<longrightarrow> foreign u v = foreign u w) \<and>
     (\<forall>w. \<forall>v \<in> set (idle_worlds e w). foreign u v = foreign u w)"

section \<open>Commands outside a mailbox\<close>

lemma step_general [steps]:
  "imap_step h s (IMAP_Capability e s)" "imap_step h s (IMAP_Noop s)" "imap_step h s (IMAP_SetQuota s)"
  "imap_step h s (IMAP_Check s)" "imap_step h s (IMAP_StartTLS e s)"
  by (auto simp: IMAP_Capability_def IMAP_Noop_def IMAP_SetQuota_def IMAP_Check_def IMAP_StartTLS_def Let_def
      intro!: steps split: option.split)

lemma step_foreign_mails: "imap_step h s t \<Longrightarrow> mails w = mails (wld t) \<Longrightarrow> imap_step h s (t\<lparr>wld := w\<rparr>)"
  by (rule step_wld) (simp_all add: foreign_def)

lemma step_Create [steps]:
  "iState s \<noteq> IMAP_STATE_NON_AUTHENTICATED \<Longrightarrow> imap_step h s (IMAP_Create e s)"
  by (auto simp: IMAP_Create_def Let_def split: prod.split option.split dest!: step_ParseLine
      intro!: steps step_foreign_mails dest: step_state)

lemma step_Rename [steps]:
  "iState s \<noteq> IMAP_STATE_NON_AUTHENTICATED \<Longrightarrow> imap_step h s (IMAP_Rename e s)"
  by (auto simp: IMAP_Rename_def Let_def split: prod.split option.split dest!: step_ParseLine
      intro!: steps step_foreign_mails dest: step_state)

lemma step_Subscribe [steps]: "imap_step h s (IMAP_Subscribe e b s)"
  by (auto simp: IMAP_Subscribe_def Let_def split: prod.split option.split dest!: step_ParseLine
      intro!: steps step_foreign_mails)

lemma step_Delete [steps]:
  "iState s \<noteq> IMAP_STATE_NON_AUTHENTICATED \<Longrightarrow> imap_step h s (IMAP_Delete e s)"
  by (auto simp: IMAP_Delete_def Let_def simp del: DeleteFolder.simps split: prod.split option.split
      dest!: step_ParseLine intro!: steps dest: step_state foreign_DeleteFolder)

lemma step_List [steps]: "imap_step h s (IMAP_List e b s)"
  by (auto simp: IMAP_List_def Let_def split: prod.split dest!: step_ParseLine intro!: steps step_foldl)

lemma step_quota [steps]: "imap_step h s (IMAP_GetQuota e s)" "imap_step h s (IMAP_GetQuotaRoot e s)"
  by (auto simp: IMAP_GetQuota_def IMAP_GetQuotaRoot_def Let_def split: prod.split
      dest!: step_ParseLine intro!: steps)

lemma step_Status [steps]: "imap_step h s (IMAP_Status e s)"
  by (auto simp: IMAP_Status_def Let_def split: prod.split option.split dest!: step_ParseLine
      intro!: steps dest: foreign_FetchMessages)

lemma step_XApple [steps]: "imap_step h s (IMAP_XApplePushService e s)"
  by (auto simp: IMAP_XApplePushService_def Let_def split: prod.split dest!: step_ParseLine
      intro!: steps step_foreign_mails)

section \<open>Commands on mails\<close>

lemma numbered_remove:
  assumes "numbered ms" and "i < length ms"
  shows "numbered (remove_message i ms)"
proof -
  have seq: "iSequenceID (ms ! j) = 1 + int j" if "j < length ms" for j
    using assms(1) that numbered_nth by (simp add: numbered_def)
  have n: "numbered_from 1 ns" if "\<And>j. j < length ns \<Longrightarrow> iSequenceID (ns ! j) = 1 + int j" for ns
  proof -
    have "numbered_from n ns" if "\<And>j. j < length ns \<Longrightarrow> iSequenceID (ns ! j) = n + int j" for n
      using that
    proof (induction ns arbitrary: n)
      case (Cons x ns)
      have "numbered_from (n + 1) ns"
      proof (rule Cons.IH)
        show "iSequenceID (ns ! j) = n + 1 + int j" if "j < length ns" for j
          using Cons.prems [of "Suc j"] that by simp
      qed
      then show ?case using Cons.prems [of 0] by simp
    qed simp
    then show ?thesis using that by blast
  qed
  show ?thesis
    unfolding numbered_def
  proof (rule n)
    fix j assume j: "j < length (remove_message i ms)"
    then have "j < length ms - 1" using assms(2) by (simp add: remove_message_def)
    then show "iSequenceID (remove_message i ms ! j) = 1 + int j"
      using assms(2) seq by (auto simp: remove_message_def nth_append lower_sequence_def min_def)
  qed
qed

lemma step_expunge_one:
  assumes "imap_step h s (snd acc)" and "i < length (vMessages (snd acc))" and "iState (snd acc) = IMAP_STATE_SELECTED"
  shows "imap_step h s (snd (expunge_one e b i acc))"
proof -
  obtain freed t where acc: "acc = (freed, t)" by fastforce
  have ok: "imap_ok t \<Longrightarrow> numbered (remove_message i (vMessages t))"
    using assms(2) acc numbered_remove by (simp add: imap_ok_def)
  obtain g w where d: "delete_mail e (iUserID t) (vMessages t ! i) (wld t) = (g, w)" by fastforce
  have f: "foreign (iUserID t) w = foreign (iUserID t) (wld t)"
    using foreign_delete_mail [of "iUserID t" e "vMessages t ! i" "wld t"] d by simp
  have "imap_step h s (t\<lparr>wld := w, vMessages := remove_message i (vMessages t)\<rparr>)"
    using assms acc ok f by (auto simp: imap_step_def imap_ok_def todo_def)
  then show ?thesis using acc d by (auto simp: expunge_one_def Let_def intro!: steps)
qed

lemma expunge_one_frame [simp]:
  "iState (snd (expunge_one e b i acc)) = iState (snd acc)" "szTag (snd (expunge_one e b i acc)) = szTag (snd acc)"
  "iUserID (snd (expunge_one e b i acc)) = iUserID (snd acc)"
  "failed (snd (expunge_one e b i acc)) = failed (snd acc)"
  by (simp_all add: expunge_one_def Let_def split_beta)

lemma step_expunge_loop:
  "imap_step h s (snd acc) \<Longrightarrow> iState (snd acc) = IMAP_STATE_SELECTED \<Longrightarrow> imap_step h s (snd (expunge_loop e b acc))"
proof (induction e b acc rule: expunge_loop.induct)
  case (1 e b acc)
  show ?case
  proof (cases "deleted_pos (vMessages (snd acc))")
    case (Some i)
    have "imap_step h s (snd (expunge_one e b i acc))"
      using 1(2,3) deleted_pos_less [OF Some] step_expunge_one by blast
    then show ?thesis using 1(1) [OF Some] 1(3) Some by (simp add: expunge_loop.simps [of e b acc])
  qed (use 1 in \<open>simp add: expunge_loop.simps [of e b acc]\<close>)
qed

lemma expunge_loop_state [simp]: "iState (snd (expunge_loop e b acc)) = iState (snd acc)"
proof (induction e b acc rule: expunge_loop.induct)
  case (1 e b acc)
  then show ?case
    by (cases "deleted_pos (vMessages (snd acc))") (simp_all add: expunge_loop.simps [of e b acc])
qed

lemma step_Expunge [steps]:
  assumes "iState s = IMAP_STATE_SELECTED"
  shows "imap_step h s (IMAP_Expunge e b s)"
proof -
  obtain freed t where t: "expunge_loop e b (0, s) = (freed, t)" by fastforce
  have "imap_step h s t" using step_expunge_loop [of h s "(0, s)" e b] t assms by simp
  then show ?thesis
    using t by (auto simp: IMAP_Expunge_def Let_def intro!: steps step_foreign_mails)
qed

lemma Expunge_state [simp]: "iState (IMAP_Expunge e b s) = iState s"
  using expunge_loop_state [of e b "(0, s)"] by (simp add: IMAP_Expunge_def Let_def split_beta)

lemma step_leave:
  assumes "imap_step h s t" and "st \<noteq> IMAP_STATE_NON_AUTHENTICATED" and "iState s \<noteq> IMAP_STATE_NON_AUTHENTICATED"
  shows "imap_step h s (t\<lparr>vMessages := [], iSelected := n, iState := st\<rparr>)"
  using assms by (auto simp: imap_step_def imap_ok_def numbered_def todo_def)

lemma step_Close [steps]:
  "iState s = IMAP_STATE_SELECTED \<Longrightarrow> imap_step h s (IMAP_Close e s)"
  by (auto simp: IMAP_Close_def intro!: steps step_leave)

lemma step_flags [steps]:
  "imap_step h s t \<Longrightarrow> imap_step h s (t\<lparr>vMessages := (vMessages t)[i := set_flags f (vMessages t ! i)]\<rparr>)"
  by (auto simp: imap_step_def imap_ok_def todo_def)

lemma step_store_one [steps]: "imap_step h s t \<Longrightarrow> imap_step h s (store_one new rep b r t i)"
  by (auto simp: store_one_def Let_def intro!: steps)

lemma step_Store [steps]: "imap_step h s (IMAP_Store e k b s)"
  by (auto simp: IMAP_Store_def Let_def split: prod.split option.split dest!: step_ParseLine
      intro!: steps step_foldl)

lemma step_Copy [steps]: "imap_step h s (IMAP_Copy e k b s)"
proof -
  have "foldl (copy_one e u lim f) (x, y, v) ms = (a, b, w) \<Longrightarrow> foreign u w = foreign u v" for u lim f ms v a b w x y
    using fold_foreign [of u "snd \<circ> snd" "copy_one e u lim f" "(x, y, v)" ms] foreign_copy_one by simp
  then show ?thesis
    by (auto simp: IMAP_Copy_def Let_def split: prod.split option.split dest!: step_ParseLine intro!: steps)
qed

lemma step_reread:
  "reread_selected e t = Some u \<Longrightarrow> imap_step h s t \<Longrightarrow> imap_step h s u"
proof -
  assume r: "reread_selected e t = Some u" and s: "imap_step h s t"
  show "imap_step h s u"
  proof (cases "iState t = IMAP_STATE_SELECTED")
    case True
    then obtain ms w where f: "FetchMessages e (wld t) (iSelected t) (iUserID t) (iLimit t) (bReadonly t) = Some (ms, w)"
        "u = t\<lparr>vMessages := ms, wld := w\<rparr>"
      using r by (auto simp: reread_selected_def split: option.splits)
    show ?thesis
      unfolding f(2) using f(1) s True foreign_FetchMessages FetchMessages_numbered
      by (intro step_messages step_wld) auto
  qed (use r s in \<open>auto simp: reread_selected_def\<close>)
qed

lemma foreign_append_insert:
  assumes "harmless e u" and "append_insert e u usr f msg d w = Some r"
  shows "foreign u (append_store e u msg fl r) = foreign u w"
proof -
  obtain n v where r: "r = (n, v)" by fastforce
  have "foreign u v = foreign u w"
    using assms r by (auto simp: append_insert_def harmless_def Let_def foreign_def append_row_def split: if_splits)
  moreover have "foreign u (PostEvent x u a b c) = foreign u x" "foreign u (add_space x u n) = foreign u x"
    "foreign u (store_blob e p u i d (IncGeneration x u 1 0)) = foreign u x" for x a b c n p i d
    by (simp_all add: foreign_def)
  ultimately show ?thesis using r by (simp add: append_store_def Let_def)
qed

lemma step_Append [steps]:
  assumes "h \<longrightarrow> harmless e (iUserID s)"
  shows "imap_step h s (IMAP_Append e s)"
proof -
  have w: "imap_step h s u"
    if "reread_selected e (t\<lparr>wld := append_store e (iUserID t) msg fl r\<rparr>) = Some u"
      and "append_insert e (iUserID t) usr f msg d (wld t) = Some r" and "imap_step h s t" for t u usr f msg d fl r
  proof (rule step_reread [OF that(1)], rule step_wld [OF that(3)])
    show "foreign (iUserID t) (append_store e (iUserID t) msg fl r) = foreign (iUserID t) (wld t)" if h
      using foreign_append_insert [OF _ \<open>append_insert e _ usr f msg d _ = _\<close>] assms that
        step_user [OF \<open>imap_step h s t\<close>] by simp
  qed
  show ?thesis
    by (auto simp: IMAP_Append_def Let_def split: prod.split option.split dest!: step_ParseLine
        intro!: steps dest: w)
qed

lemma step_select_report: "imap_step h s t \<Longrightarrow> imap_step h s (select_report ex f t)"
  by (auto simp: select_report_def Let_def intro!: steps)

lemma open_folder_cases:
  assumes "imap_step h s t" and "iState s \<noteq> IMAP_STATE_NON_AUTHENTICATED"
  shows "\<exists>v. imap_step h s v \<and>
    (open_folder e ex f t = select_report ex f v \<or> open_folder e ex f t = v\<lparr>failed := True\<rparr>)"
proof -
  define t1 where "t1 = (if iState t = IMAP_STATE_SELECTED \<and> bAutoExpunge t then IMAP_Expunge e True t else t)"
  have t1: "imap_step h s t1"
    using assms(1) step_Expunge [of t h e True] step_trans by (auto simp: t1_def)
  let ?t2 = "t1\<lparr>iState := IMAP_STATE_SELECTED, bReadonly := ex, iSelected := iID f\<rparr>"
  have t2: "imap_step h s ?t2"
    using t1 assms(2) by (auto simp: imap_step_def imap_ok_def todo_def split: if_splits)
  show ?thesis
  proof (cases "FetchMessages e (wld ?t2) (iID f) (iUserID ?t2) (iLimit ?t2) ex")
    case None
    then show ?thesis
      using t2 by (intro exI [of _ ?t2]) (simp add: open_folder_def t1_def [symmetric])
  next
    case (Some r)
    obtain ms w where r: "r = (ms, w)" by fastforce
    let ?g = "fst (GetGeneration w (iUserID ?t2))"
    have f: "foreign (iUserID ?t2) w = foreign (iUserID ?t2) (wld ?t2)"
      using Some r foreign_FetchMessages by blast
    have "imap_step h s (?t2\<lparr>vMessages := ms\<rparr>)"
      using Some r t2 FetchMessages_numbered by (intro step_messages) auto
    then have "imap_step h s (?t2\<lparr>vMessages := ms, wld := w, iGeneration := ?g\<rparr>)"
      using f by (auto intro!: steps)
    then show ?thesis
      using Some r by (intro exI conjI) (assumption, simp add: open_folder_def t1_def [symmetric])
  qed
qed

lemma step_open_folder:
  "imap_step h s t \<Longrightarrow> iState s \<noteq> IMAP_STATE_NON_AUTHENTICATED \<Longrightarrow> imap_step h s (open_folder e ex f t)"
  using open_folder_cases [of h s t e ex f] by (auto intro: step_select_report steps)

lemma step_Select [steps]:
  "iState s \<noteq> IMAP_STATE_NON_AUTHENTICATED \<Longrightarrow> imap_step h s (IMAP_Select e b s)"
  by (auto simp: IMAP_Select_def Let_def split: prod.split option.split dest!: step_ParseLine
      intro!: steps step_open_folder)

lemma refresh_mails_frame [simp]:
  "iUserID (refresh_mails e g s) = iUserID s" "iState (refresh_mails e g s) = iState s"
  by (simp_all add: refresh_mails_def split: option.split prod.split)

lemma step_idle_poll:
  "imap_step h s t \<Longrightarrow> (h \<longrightarrow> foreign (iUserID s) w = foreign (iUserID s) (wld s)) \<Longrightarrow> imap_step h s (idle_poll e t w)"
proof -
  assume a: "imap_step h s t" "h \<longrightarrow> foreign (iUserID s) w = foreign (iUserID s) (wld s)"
  then have "imap_step h s (t\<lparr>wld := w\<rparr>)"
    by (auto simp: imap_step_def imap_ok_def todo_def)
  then show ?thesis by (auto simp: idle_poll_def Let_def intro: step_refresh_mails)
qed

lemma step_Idle [steps]:
  assumes "h \<longrightarrow> harmless e (iUserID s)"
  shows "imap_step h s (IMAP_Idle e s)"
proof -
  have "imap_step h s (foldl (idle_poll e) (printf (''+ idling'' @ CRLF) s) (idle_worlds e (wld s)))"
    using assms by (auto simp: harmless_def intro!: step_foldl step_idle_poll steps)
  then show ?thesis
    by (auto simp: IMAP_Idle_def Let_def split: prod.split option.split dest: step_read_line intro!: steps)
qed

lemma step_mark_seen: "imap_step h s t \<Longrightarrow> imap_step h s (mark_seen n t)"
  by (auto simp: mark_seen_def Let_def intro!: steps)

lemma step_print_pieces [steps]: "imap_step h s t \<Longrightarrow> imap_step h s (print_pieces b ps t)"
proof (induction ps arbitrary: b t)
  case (Cons p ps)
  show ?case using Cons.prems by (cases p) (auto simp: Let_def intro!: steps Cons.IH)
qed simp

lemma load_mail_mails: "mails (snd (load_mail e a b d u w)) = mails w"
proof (cases "GetMessageFP e w d u")
  case (Pair x v)
  then show ?thesis using mails_GetMessageFP [of e w d u]
    by (auto simp: load_mail_def split: option.split)
qed

lemma foreign_load_mail: "load_mail e a b d u w = (x, v) \<Longrightarrow> foreign z v = foreign z w"
  using load_mail_mails [of e a b d u w] by (simp add: foreign_def)

lemma step_fetch_one: "imap_step h s t \<Longrightarrow> imap_step h s (fetch_one e p b r t n)"
  by (auto simp: fetch_one_def Let_def dest: foreign_load_mail split: prod.split option.split
      intro!: steps step_mark_seen)

lemma step_Fetch [steps]: "imap_step h s (IMAP_Fetch e k b s)"
  by (auto simp: IMAP_Fetch_def Let_def split: prod.split dest!: step_ParseLine
      intro!: steps step_foldl step_fetch_one)

lemma step_search_row: "imap_step h s (snd acc) \<Longrightarrow> imap_step h s (snd (search_row e p b acc row))"
proof -
  assume a: "imap_step h s (snd acc)"
  obtain f t where acc: "acc = (f, t)" by fastforce
  obtain q m u where row: "row = (q, m, u)" by (cases row) auto
  obtain d v where uid: "(case u of None \<Rightarrow> AddUID (wld t) (m_id m) | Some n \<Rightarrow> (n, wld t)) = (d, v)" by fastforce
  have "mails v = mails (wld t)" using uid mails_tables(6) [of "wld t" "m_id m"] by (cases u) auto
  then have "imap_step h s (t\<lparr>wld := v\<rparr>)" using a acc by (simp add: step_foreign_mails)
  moreover obtain l w where l: "load_mail e (sp_parsing p) (sp_reading p) (m_id m) (iUserID t) v = (l, w)" by fastforce
  ultimately have "imap_step h s (t\<lparr>wld := w\<rparr>)"
    using foreign_load_mail [OF l, of "iUserID t"] by (auto simp: imap_step_def imap_ok_def todo_def)
  then show ?thesis
    using a acc row uid l by (auto simp: search_row_def Let_def split: option.split intro!: steps)
qed

lemma step_search_loop:
  "foldl (search_row e p b) acc rs = (f, t) \<Longrightarrow> imap_step h s (snd acc) \<Longrightarrow> imap_step h s t"
  by (induction rs arbitrary: acc) (auto simp: step_search_row)

lemma step_Search [steps]: "imap_step h s (IMAP_Search e k b s)"
  by (auto simp: IMAP_Search_def Let_def split: prod.split option.split dest!: step_ParseLine
      dest: step_search_loop [where s = s] intro!: steps)

lemma step_Uid [steps]: "imap_step h s (IMAP_Uid e d s)"
  by (auto simp: IMAP_Uid_def Let_def split: option.split intro!: steps)

lemma step_Logout [steps]:
  assumes "iState s \<noteq> IMAP_STATE_NON_AUTHENTICATED"
  shows "imap_step h s (IMAP_Logout e s)"
proof -
  let ?t = "if bAutoExpunge s then IMAP_Expunge e True s else s"
  have "imap_step h s (?t\<lparr>vMessages := [], iSelected := -1, iState := IMAP_STATE_LOGOUT\<rparr>)"
    if "iState s = IMAP_STATE_SELECTED"
    using that assms step_Expunge [OF that, of h e True] by (auto intro: step_leave)
  moreover have "imap_step h s (s\<lparr>iState := IMAP_STATE_LOGOUT\<rparr>)"
    if "iState s \<noteq> IMAP_STATE_SELECTED"
    using that assms by (auto simp: imap_step_def imap_ok_def todo_def)
  ultimately show ?thesis by (auto simp: IMAP_Logout_def Let_def intro!: steps)
qed

end
