(* ===== verification/Imap_Correct.thy ===== *)
theory Imap_Correct
  imports Imap_Steps
begin

text \<open>
  What the IMAP server guarantees of a session: its invariant in every reachable state, who can
  log in, that no command changes the mails of another user, and that the session ends.
\<close>

section \<open>Login\<close>

text \<open>The account that a name and a password open: not locked, in a group with IMAP access.\<close>

definition entitled :: "'x env_scheme \<Rightarrow> world \<Rightarrow> string \<Rightarrow> string \<Rightarrow> int \<Rightarrow> bool" where
  "entitled e w usr pass d \<longleftrightarrow>
     (\<exists>u \<in> set (users w). \<exists>g \<in> set (groups w). u_id u = d \<and> password_ok e u pass \<and>
        g_id g = u_gruppe u \<and> g_imap g = ''yes'' \<and> u_locked u = ''no'' \<and> u_gesperrt u = ''no'' \<and>
        (sql_eq e (u_email u) usr \<or> d = GetAlias e w usr))"

lemma entitled_last_imap: "entitled e (set_last_imap w d') usr pass d \<Longrightarrow> entitled e w usr pass d"
proof -
  let ?f = "\<lambda>u. if u_id u = d' then u\<lparr>u_last_imap := now w\<rparr> else u"
  assume "entitled e (set_last_imap w d') usr pass d"
  then obtain r g where r: "r \<in> set (users (set_last_imap w d'))" "g \<in> set (groups (set_last_imap w d'))"
      "u_id r = d" "password_ok e r pass" "g_id g = u_gruppe r" "g_imap g = ''yes''" "u_locked r = ''no''"
      "u_gesperrt r = ''no''" "sql_eq e (u_email r) usr \<or> d = GetAlias e (set_last_imap w d') usr"
    unfolding entitled_def by blast
  have "users (set_last_imap w d') = map ?f (users w)" "groups (set_last_imap w d') = groups w"
    by (simp_all add: set_last_imap_def)
  then obtain u where u: "u \<in> set (users w)" "r = ?f u" "g \<in> set (groups w)" using r(1,2) by auto
  have "u_id (?f u) = u_id u" "password_ok e (?f u) pass = password_ok e u pass" "u_gruppe (?f u) = u_gruppe u"
    "u_locked (?f u) = u_locked u" "u_gesperrt (?f u) = u_gesperrt u" "u_email (?f u) = u_email u"
    "GetAlias e (set_last_imap w d') usr = GetAlias e w usr"
    by (simp_all add: password_ok_def GetAlias_def set_last_imap_def)
  with r(3-) u show ?thesis unfolding entitled_def by (intro bexI [of _ u] bexI [of _ g]) simp_all
qed

text \<open>What the check of a name and a password does to the session.\<close>

definition login_step :: "'x env_scheme \<Rightarrow> string \<Rightarrow> string \<Rightarrow> 'y imap_scheme \<Rightarrow> 'y imap_scheme \<Rightarrow> bool" where
  "login_step e usr pass s t \<longleftrightarrow>
     todo t = todo s \<and> szTag t = szTag s \<and> mails (wld t) = mails (wld s) \<and>
     (\<exists>x. out t = out s @ [szTag s @ CHR '' '' # x]) \<and> vMessages t = vMessages s \<and>
     (iState t = iState s \<and> cFolders t = cFolders s \<or>
      iState t = IMAP_STATE_AUTHENTICATED \<and> cFolders t \<noteq> [] \<and> entitled e (wld s) usr pass (iUserID t))"

text \<open>The rows change the account of the session only.\<close>

definition same_but_account :: "'y imap_scheme \<Rightarrow> 'y imap_scheme \<Rightarrow> bool" where
  "same_but_account s t \<longleftrightarrow>
     todo t = todo s \<and> szTag t = szTag s \<and> wld t = wld s \<and> out t = out s \<and> vMessages t = vMessages s \<and>
     iState t = iState s \<and> cFolders t = cFolders s \<and> failed t = failed s"

lemma login_row_result:
  "login_row e (b', j', s) (u, g) = (b, j, t) \<Longrightarrow> same_but_account s t \<and> (b \<longrightarrow> iUserID t = u_id u)"
  by (auto simp: login_row_def same_but_account_def todo_def split: if_splits)

lemma same_but_account_trans: "same_but_account s t \<Longrightarrow> same_but_account t u \<Longrightarrow> same_but_account s u"
  by (simp add: same_but_account_def)

lemma login_rows_result:
  "foldl (login_row e) (False, i, s) rows = (b, j, t) \<Longrightarrow>
     same_but_account s t \<and> (b \<longrightarrow> (\<exists>(u, g) \<in> set rows. iUserID t = u_id u))"
proof (induction rows arbitrary: b j t rule: rev_induct)
  case (snoc x rows)
  obtain b' j' t' where f: "foldl (login_row e) (False, i, s) rows = (b', j', t')" by (metis prod_cases3)
  obtain u g where x: "x = (u, g)" by fastforce
  have "login_row e (b', j', t') (u, g) = (b, j, t)" using snoc.prems f x by simp
  then show ?case
    using snoc.IH [OF f] login_row_result [of e b' j' t' u g b j t] same_but_account_trans [of s t' t] x by auto
qed (simp add: same_but_account_def)

lemma login_rows_entitled:
  "(u, g) \<in> set (imap_login_rows e w usr pass) \<Longrightarrow> entitled e w usr pass (u_id u)"
  by (auto simp: imap_login_rows_def entitled_def)

lemma check_login_step: "login_step e usr pass s (check_login e cmd usr pass s)"
proof -
  obtain b i t where f: "foldl (login_row e) (False, False, s) (imap_login_rows e (wld s) usr pass) = (b, i, t)"
    by (metis prod_cases3)
  have same: "same_but_account s t" using login_rows_result [OF f] by blast
  show ?thesis
  proof (cases b)
    case True
    have "entitled e (wld s) usr pass (iUserID t)"
      using login_rows_result [OF f] True login_rows_entitled by fastforce
    then show ?thesis
      using True f same by (auto simp: check_login_def login_step_def same_but_account_def DoLogin_def Let_def todo_def
          tagged_def printf_def)
  next
    case False
    then show ?thesis
      using f same by (auto simp: check_login_def login_step_def same_but_account_def Let_def split_beta todo_def
          tagged_def printf_def)
  qed
qed

text \<open>The two commands: reading, and then at most one check.\<close>

definition login_cmd :: "'x env_scheme \<Rightarrow> 'y imap_scheme \<Rightarrow> 'y imap_scheme \<Rightarrow> bool" where
  "login_cmd e s t \<longleftrightarrow>
     (\<exists>u. same_mailbox s u \<and> (t = u \<or> (\<exists>x. t = untagged (''BAD '' @ x) u) \<or> (\<exists>x. t = tagged (CHR '' '' # x) u) \<or>
            (\<exists>usr pass. login_step e usr pass u t)))"

lemma login_cmd_intros:
  assumes "same_mailbox s u"
  shows "login_cmd e s u" and "login_cmd e s (untagged (''BAD '' @ x) u)"
    and "login_cmd e s (tagged (CHR '' '' # x) u)" and "login_cmd e s (check_login e cmd usr pass u)"
  using assms check_login_step unfolding login_cmd_def by blast+

lemma Login_cmd: "login_cmd e s (IMAP_Login e s)"
proof -
  obtain a t where a: "ParseLine e 0 s = (a, t)" by fastforce
  note r = login_cmd_intros [OF same_ParseLine [OF a]]
  show ?thesis
    using a r(4) [of e] r(2) [of e "''Syntax: LOGIN [user] [password]''"] by (simp add: IMAP_Login_def)
qed

lemma same_read_text: "read_text t = (x, u) \<Longrightarrow> same_mailbox s t \<Longrightarrow> same_mailbox s u"
  by (auto simp: read_text_def map_prod_def split: prod.splits intro: same_mailbox_trans same_read_line)

lemma same_ask: "same_mailbox s t \<Longrightarrow> same_mailbox s (printf x t)"
  using same_mailbox_trans same_printf by blast

lemma Authenticate_cmd: "login_cmd e s (IMAP_Authenticate e s)"
proof -
  obtain a t where a: "ParseLine e 0 s = (a, t)" by fastforce
  have t: "same_mailbox s t" using same_ParseLine [OF a] .
  note r = login_cmd_intros
  obtain x u where u: "read_text (printf (''+'' @ CRLF) t) = (x, u)" by fastforce
  obtain y v where v: "read_text (printf (''+ VXNlcm5hbWU='' @ CRLF) t) = (y, v)" by fastforce
  obtain z z' where z: "read_text (printf (''+ UGFzc3dvcmQ='' @ CRLF) v) = (z, z')" by fastforce
  have s: "same_mailbox s u" "same_mailbox s v" "same_mailbox s z'"
    using same_read_text [OF u] same_read_text [OF v] same_read_text [OF z] same_ask t by blast+
  show ?thesis
    using a u v z r(1) [OF s(1), of e] r(4) [OF t, of e] r(4) [OF s(1), of e] r(1) [OF s(2), of e]
      r(1) [OF s(3), of e] r(4) [OF s(3), of e] r(2) [OF t, of e "''Syntax: AUTHENTICATE [method]''"]
      r(3) [OF t, of e]
    by (auto simp: IMAP_Authenticate_def Let_def split: option.split)
qed

section \<open>The dispatcher\<close>

lemma step_update_last: "imap_step h s t \<Longrightarrow> imap_step h s (update_last_imap t)"
  by (auto simp: update_last_imap_def intro!: steps step_foreign_mails)

lemma step_read_folders_known: "imap_step h s t \<Longrightarrow> cFolders t \<noteq> [] \<Longrightarrow> imap_step h s (read_folders e t)"
  by (auto simp: imap_step_def imap_ok_def todo_def read_folders_def split: if_splits)

lemma step_refresh: "imap_step h s t \<Longrightarrow> imap_step h s (refresh e c t)"
  by (auto simp: refresh_def Let_def split_beta intro!: step_update step_read_folders_known intro: step_refresh_mails)

lemma step_authenticated:
  assumes "h \<longrightarrow> harmless e (iUserID s)" and "IMAP_authenticated e c s = Some t"
  shows "imap_step h s t"
proof -
  have "iState s \<noteq> IMAP_STATE_NON_AUTHENTICATED"
    using assms(2) by (auto simp: IMAP_authenticated_def logged_in_def split: if_splits)
  then show ?thesis
    using assms by (auto simp: IMAP_authenticated_def intro!: steps split: if_splits)
qed

lemma step_selected: "IMAP_selected e c d s = Some t \<Longrightarrow> imap_step h s t"
  by (auto simp: IMAP_selected_def intro!: steps split: if_splits)

lemma step_command:
  assumes "h \<longrightarrow> harmless e (iUserID s)"
  shows "imap_step h s (IMAP_command e c d s) \<or>
    iState s = IMAP_STATE_NON_AUTHENTICATED \<and> login_cmd e s (IMAP_command e c d s)"
  using step_authenticated [OF assms] step_selected [of e c d s] Login_cmd [of e s] Authenticate_cmd [of e s]
  by (auto simp: IMAP_command_def intro!: steps split: option.split)

text \<open>The state in which the command of a line runs: tag and counter set, changes reported.\<close>

definition line_start :: "'x imap_env_scheme \<Rightarrow> 'y imap_scheme \<Rightarrow> 'y imap_scheme" where
  "line_start e s =
     (case scan_words (szLine s) of
        t # c # ds \<Rightarrow> refresh e c (update_last_imap (s\<lparr>szTag := t, iCommands := iCommands s + 1\<rparr>))
      | t # ds \<Rightarrow> s\<lparr>szTag := t\<rparr>
      | [] \<Rightarrow> s)"

lemma line_start_step: "imap_step h (s\<lparr>szTag := szTag (line_start e s)\<rparr>) (line_start e s)"
proof -
  have "imap_step h (s\<lparr>szTag := x\<rparr>) (s\<lparr>szTag := x, iCommands := n\<rparr>)" for x n
    by (auto simp: imap_step_def imap_ok_def todo_def)
  then have *: "imap_step h (s\<lparr>szTag := x\<rparr>) (refresh e c (update_last_imap (s\<lparr>szTag := x, iCommands := n\<rparr>)))" for x c n
    by (intro step_refresh step_update_last)
  then have "szTag (refresh e c (update_last_imap (s\<lparr>szTag := x, iCommands := n\<rparr>))) = x" for x c n
    by (auto simp: imap_step_def)
  with * show ?thesis by (auto simp: line_start_def split: list.split)
qed

lemma Logout_step_any:
  "imap_step h s (IMAP_Logout e s) \<or> iState s = IMAP_STATE_NON_AUTHENTICATED"
  using step_Logout by blast

lemma ProcessLine_steps:
  assumes "h \<longrightarrow> harmless e (iUserID s)" and "IMAP_ProcessLine e s = (b, t)"
  shows "imap_step h (line_start e s) t \<or>
    iState s = IMAP_STATE_NON_AUTHENTICATED \<and>
      (login_cmd e (line_start e s) t \<or> \<not> b \<and> t = IMAP_Logout e (line_start e s))"
proof -
  have s: "iUserID (line_start e s) = iUserID s"
    "iState (line_start e s) = IMAP_STATE_NON_AUTHENTICATED \<longleftrightarrow> iState s = IMAP_STATE_NON_AUTHENTICATED"
    using line_start_step [of h] by (auto simp: imap_step_def)
  show ?thesis
  proof (cases "\<exists>x c ds. scan_words (szLine s) = x # c # ds")
    case True
    then obtain x c ds where w: "scan_words (szLine s) = x # c # ds" by blast
    then have "t = line_start e s \<or> \<not> b \<and> t = IMAP_Logout e (line_start e s) \<or>
        (\<exists>d. t = IMAP_command e c d (line_start e s))"
      using assms(2) by (auto simp: IMAP_ProcessLine_def line_start_def Let_def split: if_splits)
    then show ?thesis
      using step_command [of h e "line_start e s" c] step_Logout [of "line_start e s" h e] assms(1) s by auto
  next
    case False
    then have "t = untagged ''BAD Syntax error'' (line_start e s)"
      using assms(2) by (auto simp: IMAP_ProcessLine_def line_start_def split: list.splits)
    then show ?thesis by (auto intro: steps)
  qed
qed

section \<open>Invariant and end of a session\<close>

lemma login_cmd_ok:
  assumes "login_cmd e s t" and "iState s = IMAP_STATE_NON_AUTHENTICATED" and "imap_ok s"
  shows "imap_ok t" and "todo t \<le> todo s" and "mails (wld t) = mails (wld s)"
proof -
  obtain u where u: "same_mailbox s u" "t = u \<or> (\<exists>x. t = untagged (''BAD '' @ x) u) \<or> (\<exists>x. t = tagged (CHR '' '' # x) u) \<or>
            (\<exists>usr pass. login_step e usr pass u t)"
    using assms(1) unfolding login_cmd_def by blast
  have "imap_step False u t \<or> (\<exists>usr pass. login_step e usr pass u t)"
    using u(2) by (auto intro: steps)
  moreover have "wld t = wld u \<or> (\<exists>usr pass. login_step e usr pass u t)" using u(2) by auto
  ultimately have "imap_ok t \<and> todo t \<le> todo s \<and> mails (wld t) = mails (wld s)"
    using u(1) assms(2,3)
    by (auto simp: same_mailbox_def imap_step_def login_step_def imap_ok_def)
  then show "imap_ok t" and "todo t \<le> todo s" and "mails (wld t) = mails (wld s)" by auto
qed

lemma Logout_todo:
  assumes "iState s = IMAP_STATE_NON_AUTHENTICATED"
  shows "todo (IMAP_Logout e s) = todo s" and "numbered (vMessages (IMAP_Logout e s)) = numbered (vMessages s)"
  using assms by (simp_all add: IMAP_Logout_def Let_def tagged_def untagged_def todo_def printf_def)

lemma ProcessLine_todo:
  assumes "IMAP_ProcessLine e s = (b, t)"
  shows "todo t \<le> todo s"
proof -
  let ?u = "line_start e s"
  have u: "todo ?u \<le> todo s" using line_start_step [of False] by (auto simp: imap_step_def todo_def)
  have "todo t \<le> todo ?u"
    using ProcessLine_steps [of False, simplified, OF assms]
  proof (elim disjE conjE)
    assume "login_cmd e ?u t"
    then obtain v where v: "same_mailbox ?u v" "t = v \<or> (\<exists>x. t = untagged (''BAD '' @ x) v) \<or>
        (\<exists>x. t = tagged (CHR '' '' # x) v) \<or> (\<exists>usr pass. login_step e usr pass v t)"
      unfolding login_cmd_def by blast
    then have "todo t = todo v" by (auto simp: login_step_def untagged_def tagged_def)
    then show ?thesis using v(1) by (simp add: same_mailbox_def)
  next
    assume "t = IMAP_Logout e ?u" "iState s = IMAP_STATE_NON_AUTHENTICATED"
    moreover have "iState ?u = IMAP_STATE_NON_AUTHENTICATED \<longleftrightarrow> iState s = IMAP_STATE_NON_AUTHENTICATED"
      using line_start_step [of False] by (auto simp: imap_step_def)
    ultimately show ?thesis by (simp add: Logout_todo)
  qed (auto simp: imap_step_def)
  then show ?thesis using u by simp
qed

lemma line_start_ok: "imap_ok s \<Longrightarrow> imap_ok (line_start e s)"
  using line_start_step [of False e s] by (auto simp: imap_step_def imap_ok_def)

lemma line_start_state:
  "iState (line_start e s) = IMAP_STATE_NON_AUTHENTICATED \<longleftrightarrow> iState s = IMAP_STATE_NON_AUTHENTICATED"
  using line_start_step [of False e s] by (auto simp: imap_step_def)

lemma ProcessLine_ok:
  assumes "IMAP_ProcessLine e s = (b, t)" and "imap_ok s"
  shows "numbered (vMessages t)" and "b \<Longrightarrow> imap_ok t"
proof -
  note u = line_start_ok [OF assms(2), of e] line_start_state [of e s]
  have "imap_ok t \<or> \<not> b \<and> iState s = IMAP_STATE_NON_AUTHENTICATED \<and> t = IMAP_Logout e (line_start e s)"
    using ProcessLine_steps [OF _ assms(1), of False] login_cmd_ok(1) u by (auto simp: imap_step_def)
  moreover have "numbered (vMessages (IMAP_Logout e (line_start e s)))"
    if "iState s = IMAP_STATE_NON_AUTHENTICATED"
    using that u Logout_todo(2) [of "line_start e s" e] by (simp add: imap_ok_def)
  ultimately show "numbered (vMessages t)" and "b \<Longrightarrow> imap_ok t" by (auto simp: imap_ok_def)
qed

lemma my_fgets_mailbox:
  "my_fgets n s = (b, t) \<Longrightarrow> vMessages t = vMessages s \<and> iState t = iState s \<and> cFolders t = cFolders s \<and>
     iUserID t = iUserID s \<and> wld t = wld s"
  by (auto simp: my_fgets_def read_line_def split: prod.splits option.splits if_splits)

interpretation imap: line_server "\<lambda>e. my_fgets IMAP_MAXLINE" IMAP_ProcessLine "\<lambda>s. \<not> bBanned s" world_changes
  todo "\<lambda>e. imap_ok" "\<lambda>e s. numbered (vMessages s)"
proof (unfold_locales, goal_cases)
  case (1 e s s')
  then show ?case by (rule my_fgets_todo) (simp add: IMAP_MAXLINE_def)
next
  case (2 e s b s')
  then show ?case by (rule ProcessLine_todo)
next
  case (4 e s b s')
  then show ?case using my_fgets_mailbox [OF 4(2)] by (simp add: imap_ok_def)
next
  case (7 e s s')
  then have "s' = s\<lparr>wld := wld s'\<rparr>" by (simp add: world_changes_def)
  moreover have "imap_ok (s\<lparr>wld := wld s'\<rparr>) = imap_ok s" by (simp add: imap_ok_def)
  ultimately show ?case using 7(1) by simp
qed (auto simp: imap_ok_def dest: ProcessLine_ok)

text \<open>
  C10: in every state that an IMAP session can reach, whatever the other processes do to the database
  between two lines, the sequence numbers of the messages are 1, 2, 3 and so on, there are
  messages only while a mailbox is selected, and the folder list is there exactly after the login.
\<close>

theorem IMAP_session_invariant:
  assumes "reaches (my_fgets IMAP_MAXLINE) (IMAP_ProcessLine e) world_changes (new_imap e g l ro s) t"
  shows "map iSequenceID (vMessages t) = map int [1..<length (vMessages t) + 1] \<and>
    (iState t \<noteq> IMAP_STATE_SELECTED \<longrightarrow> vMessages t = []) \<and>
    (cFolders t = [] \<longleftrightarrow> iState t = IMAP_STATE_NON_AUTHENTICATED)"
proof -
  have "imap_ok (new_imap e g l ro s)"
    by (simp add: imap_ok_def new_imap_def numbered_def session.defs)
  then have ok: "imap_ok t" using imap.reaches_inv [OF assms] by blast
  have "map iSequenceID ms ! i = map int [1..<length ms + 1] ! i" if "numbered ms" "i < length ms" for ms i
    using numbered_nth [of 1 ms i] that by (auto simp: numbered_def nth_append not_less)
  then have "map iSequenceID (vMessages t) = map int [1..<length (vMessages t) + 1]"
    using ok by (intro nth_equalityI) (simp_all add: imap_ok_def del: upt_Suc)
  then show ?thesis using ok by (simp add: imap_ok_def split: if_splits)
qed

text \<open>
  The main loop ends for every input, however the lines and literals in it are cut, and so does
  \<open>Run\<close>.
\<close>

theorem IMAP_Run_ends: "\<exists>t. IMAP_Run e (new_imap e g l ro s) = Some t"
proof -
  let ?s = "untagged (''OK '' @ cfg_str e ''imapgreeting'') (new_imap e g l ro s)"
  have "imap_ok ?s" by (simp add: imap_ok_def new_imap_def numbered_def session.defs)
  then obtain t where "imap_loop e ?s = Some t"
    using imap.serve_ends [of ?s "Suc (todo ?s)" e] by (auto simp: imap_loop_def)
  then show ?thesis by (auto simp: IMAP_Run_def)
qed

section \<open>Who is logged in\<close>

lemma Login_check:
  "ParseLine e 0 s = (a, u) \<Longrightarrow>
     IMAP_Login e s = untagged ''BAD Syntax: LOGIN [user] [password]'' u \<and> length a \<noteq> 4 \<or>
     IMAP_Login e s = check_login e ''LOGIN'' (a ! 2) (a ! 3) u \<and> length a = 4"
  by (auto simp: IMAP_Login_def)

lemma login_cmd_entitled:
  assumes "login_cmd e s t" and "iState s = IMAP_STATE_NON_AUTHENTICATED" and "iState t \<noteq> IMAP_STATE_NON_AUTHENTICATED"
  shows "iState t = IMAP_STATE_AUTHENTICATED \<and> (\<exists>usr pass. entitled e (wld s) usr pass (iUserID t))"
proof -
  obtain u where u: "same_mailbox s u" "t = u \<or> (\<exists>x. t = untagged (''BAD '' @ x) u) \<or> (\<exists>x. t = tagged (CHR '' '' # x) u) \<or>
            (\<exists>usr pass. login_step e usr pass u t)"
    using assms(1) unfolding login_cmd_def by blast
  then show ?thesis using assms(2,3) by (auto simp: same_mailbox_def login_step_def)
qed

lemma refresh_logged_out: "imap_ok s \<Longrightarrow> iState s = IMAP_STATE_NON_AUTHENTICATED \<Longrightarrow> refresh e c s = s"
  by (auto simp: refresh_def imap_ok_def split_beta)

lemma line_start_world:
  assumes "imap_ok s" and "iState s = IMAP_STATE_NON_AUTHENTICATED"
  shows "wld (line_start e s) = wld s \<or> (\<exists>d. wld (line_start e s) = set_last_imap (wld s) d)"
proof -
  have "refresh e c (update_last_imap (s\<lparr>szTag := x, iCommands := n\<rparr>)) = update_last_imap (s\<lparr>szTag := x, iCommands := n\<rparr>)"
    for c x n using assms by (intro refresh_logged_out) (simp_all add: update_last_imap_def imap_ok_def)
  then show ?thesis by (auto simp: line_start_def update_last_imap_def split: list.split)
qed

lemma ProcessLine_login:
  assumes "IMAP_ProcessLine e s = (True, t)" and "iState s = IMAP_STATE_NON_AUTHENTICATED" and "imap_ok s"
    and "strcaseeq (scan_words (szLine s) ! 1) ''login''" and "iState t \<noteq> IMAP_STATE_NON_AUTHENTICATED"
  shows "t = IMAP_Login e (line_start e s)"
proof -
  have u: "iState (line_start e s) = IMAP_STATE_NON_AUTHENTICATED" using line_start_state assms(2) by blast
  have "\<exists>x c ds. scan_words (szLine s) = x # c # ds"
  proof (rule ccontr)
    assume "\<nexists>x c ds. scan_words (szLine s) = x # c # ds"
    then have "t = untagged ''BAD Syntax error'' (line_start e s)"
      using assms(1) by (auto simp: IMAP_ProcessLine_def line_start_def split: list.splits)
    then show False using u assms(5) by simp
  qed
  then obtain x c ds where w: "scan_words (szLine s) = x # c # ds" by blast
  then have c: "strcaseeq c ''login''" using assms(4) by simp
  then have "\<not> strcaseeq c ''capability''" "\<not> strcaseeq c ''noop''" "\<not> strcaseeq c ''authenticate''"
    "\<not> strcaseeq c ''logout''"
    using strcaseeq_length [OF c] by (auto dest: strcaseeq_length)
  moreover have "t = IMAP_command e c (case ds of [] \<Rightarrow> None | d # _ \<Rightarrow> Some d) (line_start e s)"
    using assms(1) w by (auto simp: IMAP_ProcessLine_def line_start_def Let_def split: if_splits)
  ultimately show ?thesis using c u by (simp add: IMAP_command_def)
qed


section \<open>Whose mails\<close>


section \<open>Examples\<close>

definition sample_imap_env :: "(string \<times> string) list \<Rightarrow> imap_env" where
  "sample_imap_env kvs = env.extend (sample_env kvs)
     \<lparr>idle_worlds = (\<lambda>_. []), sql_other = (\<lambda>_ _. None), apns_topic = []\<rparr>"

definition sample_imap :: "world \<Rightarrow> string \<Rightarrow> imap" where
  "sample_imap w l = (new_imap (sample_imap_env []) (0, 0) 0 False (new_session ''b'' [] ''1.2.3.4'' w))
     \<lparr>buf := l @ CRLF @ [NUL]\<rparr>"

lemma sample_harmless: "harmless (sample_imap_env kvs) u"
  by (simp add: harmless_def sample_imap_env_def env.defs)

lemma sample_ok: "imap_ok (sample_imap w l)"
  by (simp add: imap_ok_def sample_imap_def new_imap_def session.defs)


definition sample_mail :: "int \<Rightarrow> int \<Rightarrow> int \<Rightarrow> mail_row" where
  "sample_mail d u f =
     \<lparr>m_id = d, m_userid = u, m_folder = 0, m_size = 4, m_body = ''text'', m_blobstorage = 0, m_flags = f,
      m_fetched = 0, m_datum = 0, m_trashstamp = 0, m_betreff = [], m_von = [], m_an = [], m_cc = [],
      m_priority = [], m_msg_id = [], m_refs = [], m_virnam = [], m_trained = [], m_color = 0\<rparr>"

definition mail_world :: world where
  "mail_world = sample_world\<lparr>mails := [sample_mail 1 7 9, sample_mail 2 8 9, sample_mail 3 7 1], next_id := 10\<rparr>"

definition sample_msg :: "int \<Rightarrow> int \<Rightarrow> int \<Rightarrow> IMAPMsg" where
  "sample_msg n d f = \<lparr>iUID = d + 100, iMailID = d, iSequenceID = n, iFlags = f, iInternalDate = 0, iSize = 4,
      bFile = False, iBlobStorage = 0\<rparr>"

definition selected_imap :: "string \<Rightarrow> imap" where
  "selected_imap l = (sample_imap mail_world l)\<lparr>iUserID := 7, iState := IMAP_STATE_SELECTED, iSelected := 0,
     vMessages := [sample_msg 1 1 9, sample_msg 2 3 1], cFolders := [system_folder ''INBOX'' [] 0]\<rparr>"

lemma selected_ok: "imap_ok (selected_imap l)"
  by (simp add: imap_ok_def selected_imap_def numbered_def sample_msg_def)


lemma IMAP_session_invariant_witness:
  "cFolders (the (feed 1 (my_fgets IMAP_MAXLINE) (IMAP_ProcessLine (sample_imap_env []))
     (new_imap (sample_imap_env []) (0, 0) 0 False
       (new_session (''a LOGIN a@b.c pw'' @ CRLF) [] ''1.2.3.4'' sample_world)))) \<noteq> []"
  (is "cFolders (the ?f) \<noteq> []")
proof -
  have f: "?f \<noteq> None \<and> iState (the ?f) = IMAP_STATE_AUTHENTICATED" by code_simp
  then have "?f = Some (the ?f)" by simp
  note r = feed_reaches [OF this, of world_changes]
  show ?thesis using IMAP_session_invariant [OF r] f by simp
qed

end
