(* ===== verification/Imap_Answers.thy ===== *)
theory Imap_Answers
  imports Imap_Correct
begin

text \<open>
  Every line that an IMAP client sends is answered: the last thing printed for it starts with the
  tag of the line, or is an untagged BAD. Only a process that has ended or a connection that has
  been closed leaves a command without an answer.
\<close>

definition answered :: "'y imap_scheme \<Rightarrow> 'y imap_scheme \<Rightarrow> bool" where
  "answered s t \<longleftrightarrow>
     (\<exists>xs x. out t = out s @ xs @ [x] \<and> ((\<exists>y. x = szTag t @ CHR '' '' # y) \<or> (\<exists>y. x = ''* BAD '' @ y)))"

named_theorems answers

lemma answered_tagged [answers]: "imap_step False s u \<Longrightarrow> answered s (tagged (CHR '' '' # x) u)"
  by (auto simp: answered_def imap_step_def)

lemma answered_bad [answers]: "imap_step False s u \<Longrightarrow> answered s (untagged (CHR ''B'' # CHR ''A'' # CHR ''D'' # CHR '' '' # x) u)"
  by (auto simp: answered_def imap_step_def)

section \<open>The commands\<close>

lemma answered_general [answers]:
  "answered s (IMAP_Capability e s)" "answered s (IMAP_Noop s)" "answered s (IMAP_SetQuota s)"
  "answered s (IMAP_Check s)" "answered s (IMAP_List e b s)" "answered s (IMAP_GetQuota e s)"
  "answered s (IMAP_GetQuotaRoot e s)" "answered s (IMAP_Subscribe e b s)" "answered s (IMAP_XApplePushService e s)"
  by (auto simp: IMAP_Capability_def IMAP_Noop_def IMAP_SetQuota_def IMAP_Check_def IMAP_List_def
      IMAP_GetQuota_def IMAP_GetQuotaRoot_def IMAP_Subscribe_def IMAP_XApplePushService_def Let_def
      split: prod.split option.split dest!: step_ParseLine intro!: answers steps step_foldl)

lemma answered_StartTLS [answers]: "answered s (IMAP_StartTLS e s)"
proof -
  have "answered s ((tagged (CHR '' '' # x) s)\<lparr>bTLSMode := a, bIO_SSL := c\<rparr>)" for x a c
    by (auto simp: answered_def tagged_def printf_def)
  then show ?thesis
    by (auto simp: IMAP_StartTLS_def Let_def intro!: answers steps split: option.split)
qed

lemma answered_folders [answers]:
  assumes "iState s \<noteq> IMAP_STATE_NON_AUTHENTICATED"
  shows "answered s (IMAP_Create e s)" "answered s (IMAP_Rename e s)"
  using assms
  by (auto simp: IMAP_Create_def IMAP_Rename_def Let_def split: prod.split option.split
      dest!: step_ParseLine dest: step_state intro!: answers steps)

lemma answered_Delete:
  "iState s \<noteq> IMAP_STATE_NON_AUTHENTICATED \<Longrightarrow> \<not> failed (IMAP_Delete e s) \<Longrightarrow> answered s (IMAP_Delete e s)"
  by (auto simp: IMAP_Delete_def Let_def simp del: DeleteFolder.simps split: prod.splits option.splits if_splits
      dest!: step_ParseLine dest: step_state intro!: answers steps)

lemma answered_Status: "\<not> failed (IMAP_Status e s) \<Longrightarrow> answered s (IMAP_Status e s)"
  by (auto simp: IMAP_Status_def Let_def split: prod.splits option.splits if_splits
      dest!: step_ParseLine intro!: answers steps)

lemma answered_Store [answers]: "answered s (IMAP_Store e k b s)"
  by (auto simp: IMAP_Store_def Let_def split: prod.split option.split dest!: step_ParseLine
      intro!: answers steps step_foldl)

lemma answered_Copy [answers]: "answered s (IMAP_Copy e k b s)"
  by (auto simp: IMAP_Copy_def Let_def split: prod.split option.split dest!: step_ParseLine intro!: answers steps)

lemma step_reread_world:
  "reread_selected e (t\<lparr>wld := w\<rparr>) = Some u \<Longrightarrow> imap_step False s t \<Longrightarrow> imap_step False s u"
  by (rule step_reread, assumption) (auto intro: steps)

lemma answered_Append: "answered s (IMAP_Append e s) \<or> failed (IMAP_Append e s)"
  by (auto simp: IMAP_Append_def Let_def split: prod.split option.split
      dest!: step_ParseLine dest: step_reread_world intro!: answers)

lemma answered_select_report: "imap_step False s t \<Longrightarrow> answered s (select_report ex f t)"
  by (auto simp: select_report_def Let_def intro!: answers steps)

lemma select_report_failed [simp]: "failed (select_report ex f t) = failed t"
  by (simp add: select_report_def Let_def)

lemma answered_open_folder:
  "imap_step False s u \<Longrightarrow> iState s \<noteq> IMAP_STATE_NON_AUTHENTICATED \<Longrightarrow> \<not> failed (open_folder e b f u) \<Longrightarrow>
     answered s (open_folder e b f u)"
  using open_folder_cases [of False s u e b f] answered_select_report by auto

lemma answered_Select:
  "iState s \<noteq> IMAP_STATE_NON_AUTHENTICATED \<Longrightarrow> answered s (IMAP_Select e b s) \<or> failed (IMAP_Select e b s)"
  by (auto simp: IMAP_Select_def Let_def split: prod.split option.split
      dest!: step_ParseLine [where h = False] intro!: answers answered_open_folder)

lemma answered_Expunge [answers]:
  assumes "iState s = IMAP_STATE_SELECTED"
  shows "answered s (IMAP_Expunge e False s)"
proof -
  obtain freed t where t: "expunge_loop e False (0, s) = (freed, t)" by fastforce
  have "imap_step False s t" using step_expunge_loop [of False s "(0, s)" e False] t assms by simp
  then show ?thesis
    using t by (auto simp: IMAP_Expunge_def Let_def intro!: answers steps)
qed

lemma answered_Close [answers]: "iState s = IMAP_STATE_SELECTED \<Longrightarrow> answered s (IMAP_Close e s)"
  by (auto simp: IMAP_Close_def intro!: answers steps step_leave)

lemma answered_Fetch: "answered s (IMAP_Fetch e k b s) \<or> failed (IMAP_Fetch e k b s)"
  by (auto simp: IMAP_Fetch_def Let_def split: prod.split dest!: step_ParseLine
      intro!: answers steps step_foldl step_fetch_one)

lemma answered_Search: "answered s (IMAP_Search e k b s) \<or> failed (IMAP_Search e k b s)"
  by (auto simp: IMAP_Search_def Let_def split: prod.split option.split dest!: step_ParseLine
      dest: step_search_loop [where s = s] intro!: answers steps)

lemma answered_Uid: "answered s (IMAP_Uid e d s) \<or> failed (IMAP_Uid e d s)"
  using answered_Fetch [of s e "length (szTag s) + 1" True] answered_Search [of s e "length (szTag s) + 1" True]
  by (auto simp: IMAP_Uid_def Let_def split: option.split intro!: answers)

text \<open>IDLE and AUTHENTICATE may find the connection closed.\<close>

lemma tls_upto_NoneD: "tls_upto m acc s = (None, r) \<Longrightarrow> r = []"
  by (induction m acc s rule: tls_upto.induct) (auto split: if_splits)

lemma read_line_None: "read_line n s = (None, t) \<Longrightarrow> pending t = []"
  by (auto simp: read_line_def pending_def fgets_def split: if_splits option.splits prod.splits
      dest: tls_upto_NoneD)

lemma answered_Idle:
  "answered s (IMAP_Idle e s) \<or> failed (IMAP_Idle e s) \<or> bTimeout s \<or> bQuit s \<or> pending (IMAP_Idle e s) = []"
proof -
  let ?t = "foldl (idle_poll e) (printf (''+ idling'' @ CRLF) s) (idle_worlds e (wld s))"
  have "imap_step False s ?t" by (auto intro!: step_foldl step_idle_poll steps)
  then show ?thesis
    by (auto simp: IMAP_Idle_def Let_def printf_def split: prod.split option.split
        dest: step_read_line read_line_None intro!: answers)
qed

lemma answered_check_login: "imap_step False s t \<Longrightarrow> answered s (check_login e cmd usr pass t)"
proof -
  assume s: "imap_step False s t"
  have "login_step e usr pass t (check_login e cmd usr pass t)" by (rule check_login_step)
  then show ?thesis using s by (auto simp: login_step_def answered_def imap_step_def)
qed

lemma answered_Login [answers]: "answered s (IMAP_Login e s)"
  by (auto simp: IMAP_Login_def Let_def split: prod.split dest!: step_ParseLine intro!: answers answered_check_login)

lemma pending_read_text: "read_text s = (None, t) \<Longrightarrow> pending t = []"
  by (auto simp: read_text_def map_prod_def split: prod.splits dest: read_line_None)

lemma step_read_text: "read_text t = (x, u) \<Longrightarrow> imap_step h s t \<Longrightarrow> imap_step h s u"
  by (rule step_same [OF same_read_text [OF _ same_mailbox_refl]])

lemma answered_Authenticate:
  "answered s (IMAP_Authenticate e s) \<or> pending (IMAP_Authenticate e s) = []"
  by (auto simp: IMAP_Authenticate_def Let_def split: prod.split option.split dest!: step_ParseLine
      dest: step_read_text pending_read_text intro!: answers steps answered_check_login)

section \<open>The line\<close>

lemma answered_command:
  "answered s (IMAP_command e c d s) \<or> failed (IMAP_command e c d s) \<or> bTimeout s \<or> bQuit s \<or>
     pending (IMAP_command e c d s) = []"
proof -
  have a: "answered s u \<or> failed u \<or> bTimeout s \<or> bQuit s \<or> pending u = []"
    if "IMAP_authenticated e c s = Some u" for u
  proof -
    have "iState s \<noteq> IMAP_STATE_NON_AUTHENTICATED"
      using that by (auto simp: IMAP_authenticated_def logged_in_def split: if_splits)
    then show ?thesis
      using that answered_Append [of s e] answered_Delete [of s e] answered_Status [of e s] answered_Idle [of s e]
        answered_Select [of s e]
      by (auto simp: IMAP_authenticated_def intro!: answers split: if_splits)
  qed
  have b: "answered s u \<or> failed u" if "IMAP_selected e c d s = Some u" for u
    using that answered_Fetch [of s e 0 False] answered_Search [of s e 0 False] answered_Uid [of s e d]
    by (auto simp: IMAP_selected_def intro!: answers split: if_splits)
  have u: "answered s (tagged (CHR '' '' # x) (s\<lparr>iCommands := n\<rparr>))" for x n
    by (intro answers steps)
  show ?thesis
    using a b u answered_Authenticate [of s e] unfolding IMAP_command_def
    by (auto intro!: answers split: option.split)
qed

lemma refresh_flags [simp]:
  "bTimeout (refresh e c s) = bTimeout s" "bQuit (refresh e c s) = bQuit s"
  "bTimeout (update_last_imap s) = bTimeout s" "bQuit (update_last_imap s) = bQuit s"
proof -
  have p: "bTimeout (print_reports rs u) = bTimeout u \<and> bQuit (print_reports rs u) = bQuit u" for rs and u :: "'c imap_scheme"
    unfolding print_reports_def by (induction rs arbitrary: u) (simp_all add: untagged_def printf_def)
  show "bTimeout (refresh e c s) = bTimeout s" "bQuit (refresh e c s) = bQuit s"
    by (simp_all add: refresh_def refresh_mails_def read_folders_def Let_def p split: prod.split option.split)
  show "bTimeout (update_last_imap s) = bTimeout s" "bQuit (update_last_imap s) = bQuit s"
    by (simp_all add: update_last_imap_def)
qed

text \<open>
  C11: every line is answered: a line that leaves the process running and the connection open has an
  answer that starts with its tag or is an untagged BAD, and it is the last thing that is printed.
\<close>

theorem IMAP_line_answered:
  assumes "IMAP_ProcessLine e s = (True, t)" and "pending t \<noteq> []" and "\<not> bTimeout s" and "\<not> bQuit s"
  shows "\<exists>xs x. out t = out s @ xs @ [x] \<and>
    ((\<exists>y. x = szTag t @ CHR '' '' # y) \<or> (\<exists>y. x = ''* BAD '' @ y))"
proof -
  let ?u = "line_start e s"
  have f: "bTimeout ?u = bTimeout s" "bQuit ?u = bQuit s"
    by (simp_all add: line_start_def split: list.split)
  obtain ys where ys: "out ?u = out s @ ys" using line_start_step [of False e s] by (auto simp: imap_step_def)
  have "answered ?u t"
  proof (cases "\<exists>x c ds. scan_words (szLine s) = x # c # ds")
    case True
    then obtain x c ds where w: "scan_words (szLine s) = x # c # ds" by blast
    then obtain d where t: "t = IMAP_command e c d ?u" "\<not> failed t"
      using assms(1) by (auto simp: IMAP_ProcessLine_def line_start_def Let_def split: if_splits)
    then show ?thesis
      using answered_command [of ?u e c d] assms(2-) f by auto
  next
    case False
    then have "t = untagged ''BAD Syntax error'' ?u"
      using assms(1) by (auto simp: IMAP_ProcessLine_def line_start_def split: list.splits)
    then show ?thesis by (auto intro: answers)
  qed
  then show ?thesis using ys by (auto simp: answered_def)
qed

lemma IMAP_line_answered_witness:
  "\<exists>xs x. out (snd (IMAP_ProcessLine (sample_imap_env []) (selected_imap ''a1 NOOP''))) = xs @ [x] \<and>
     ((\<exists>y. x = ''a1 '' @ y) \<or> (\<exists>y. x = ''* BAD '' @ y))"
proof -
  let ?s = "selected_imap ''a1 NOOP''" and ?e = "sample_imap_env []"
  let ?t = "snd (IMAP_ProcessLine ?e ?s)"
  have "fst (IMAP_ProcessLine ?e ?s) \<and> pending ?t \<noteq> [] \<and> szTag ?t = ''a1''" by code_simp
  then have t: "IMAP_ProcessLine ?e ?s = (True, ?t)" "pending ?t \<noteq> []" "szTag ?t = ''a1''"
    by (simp_all add: prod_eq_iff)
  have f: "\<not> bTimeout ?s" "\<not> bQuit ?s"
    by (simp_all add: selected_imap_def sample_imap_def new_imap_def session.defs new_session_def)
  obtain xs x where x: "out ?t = out ?s @ xs @ [x]" "(\<exists>y. x = ''a1'' @ CHR '' '' # y) \<or> (\<exists>y. x = ''* BAD '' @ y)"
    using IMAP_line_answered [OF t(1,2) f] unfolding t(3) by blast
  have "out ?t = (out ?s @ xs) @ [x]" using x(1) by simp
  moreover have "(\<exists>y. x = ''a1 '' @ y) \<or> (\<exists>y. x = ''* BAD '' @ y)" using x(2) by simp
  ultimately show ?thesis by blast
qed

end
