(* ===== verification/Imap_Expunge.thy ===== *)
theory Imap_Expunge
  imports Imap_Correct
begin

text \<open>
  EXPUNGE: exactly the messages marked as deleted go, from the list, from the client's view and
  from the mail table. And APPEND to the selected mailbox, which the client is not told about.
\<close>

definition report_line :: "report \<Rightarrow> string" where
  "report_line r = ''* '' @ report_text r @ CRLF"

definition marked :: "IMAPMsg \<Rightarrow> bool" where
  "marked m \<longleftrightarrow> FLAGGED FLAG_DELETED (iFlags m)"

definition gone_mail :: "int \<Rightarrow> IMAPMsg list \<Rightarrow> mail_row \<Rightarrow> bool" where
  "gone_mail u ms r \<longleftrightarrow> m_userid r = u \<and> m_id r \<in> iMailID ` set (filter marked ms)"

text \<open>What of a message does not depend on its number.\<close>

definition message_key :: "IMAPMsg \<Rightarrow> int \<times> int \<times> int" where
  "message_key m = (iUID m, iFlags m, iMailID m)"

lemma key_lower [simp]: "message_key (lower_sequence m) = message_key m"
  by (simp add: message_key_def lower_sequence_def)

lemma marked_key: "map message_key a = map message_key b \<Longrightarrow>
    map message_key (filter (\<lambda>m. marked m = c) a) = map message_key (filter (\<lambda>m. marked m = c) b)"
proof (induction a arbitrary: b)
  case (Cons x a)
  obtain y d where b: "b = y # d" "message_key x = message_key y" "map message_key a = map message_key d"
    using Cons.prems by (cases b) auto
  have "marked x = marked y" using b(2) by (simp add: message_key_def marked_def)
  then show ?case using Cons.IH [OF b(3)] b(1,2) by simp
qed simp

lemma deleted_pos_first:
  "deleted_pos ms = Some i \<Longrightarrow> marked (ms ! i) \<and> i < length ms \<and> filter marked (take i ms) = []"
  by (induction ms arbitrary: i) (auto simp: marked_def split: if_splits)

lemma deleted_pos_none: "deleted_pos ms = None \<Longrightarrow> filter marked ms = []"
  by (induction ms) (auto simp: marked_def split: if_splits)

lemma remove_key: "map message_key (remove_message i ms) = map message_key (take i ms @ drop (Suc i) ms)"
proof -
  have "map message_key (map (\<lambda>m. if P m then lower_sequence m else m) ns) = map message_key ns" for P ns
    by (induction ns) auto
  then show ?thesis unfolding remove_message_def .
qed

lemma remove_split:
  assumes "deleted_pos ms = Some i"
  shows "filter marked ms = ms ! i # filter marked (take i ms @ drop (Suc i) ms)"
    and "filter (\<lambda>m. \<not> marked m) ms = filter (\<lambda>m. \<not> marked m) (take i ms @ drop (Suc i) ms)"
proof -
  note d = deleted_pos_first [OF assms]
  have s: "ms = take i ms @ ms ! i # drop (Suc i) ms" using d by (simp add: id_take_nth_drop)
  show "filter marked ms = ms ! i # filter marked (take i ms @ drop (Suc i) ms)"
    by (subst s) (use d in simp)
  show "filter (\<lambda>m. \<not> marked m) ms = filter (\<lambda>m. \<not> marked m) (take i ms @ drop (Suc i) ms)"
    by (subst s) (use d in simp)
qed

lemma remove_in_step:
  assumes "in_step v ms" and "i < length ms"
  shows "in_step (take i v @ drop (Suc i) v) (remove_message i ms)"
proof -
  have k: "knows c (if P m then lower_sequence m else m) = knows c m" for c P m
    by (simp add: knows_def lower_sequence_def)
  have "list_all2 knows w (map (\<lambda>m. if P m then lower_sequence m else m) ns) = list_all2 knows w ns" for w P ns
    by (simp only: list_all2_map2 k)
  moreover have "in_step (take i v @ drop (Suc i) v) (take i ms @ drop (Suc i) ms)"
    using assms unfolding in_step_def by (intro list_all2_appendI list_all2_takeI list_all2_dropI) auto
  ultimately show ?thesis by (simp add: remove_message_def in_step_def del: map_append)
qed

lemma hear_expunge_at: "i < length v \<Longrightarrow> hear (EXPUNGE (1 + int i)) v = Some (take i v @ drop (Suc i) v)"
  by (simp add: hear_def nat_add_distrib)

text \<open>The state after one message, as far as the theorem needs it.\<close>

lemma expunge_one_result:
  assumes "deleted_pos (vMessages s) = Some i" and "numbered (vMessages s)"
    and t_def: "t = snd (expunge_one e silent i (freed, s))"
  shows "out t = out s @ (if silent then [] else [report_line (EXPUNGE (1 + int i))])"
    and "vMessages t = remove_message i (vMessages s)" and "iUserID t = iUserID s"
    and "mails (wld t) = filter (\<lambda>r. \<not> (m_userid r = iUserID s \<and> m_id r = iMailID (vMessages s ! i))) (mails (wld s))"
proof -
  have i: "i < length (vMessages s)" using deleted_pos_first [OF assms(1)] by simp
  have n: "iSequenceID (vMessages s ! i) = 1 + int i"
    using numbered_nth [of 1 "vMessages s" i] assms(2) i by (simp add: numbered_def)
  show "out t = out s @ (if silent then [] else [report_line (EXPUNGE (1 + int i))])"
    and "vMessages t = remove_message i (vMessages s)" and "iUserID t = iUserID s"
    using n by (auto simp: t_def expunge_one_def Let_def split_beta report_line_def)
  have "mails (snd (delete_mail e u m w)) = filter (\<lambda>r. \<not> (m_userid r = u \<and> m_id r = iMailID m)) (mails w)" for u m w
    by (auto simp: delete_mail_def Let_def is_mail_def intro: filter_cong)
  then show "mails (wld t) = filter (\<lambda>r. \<not> (m_userid r = iUserID s \<and> m_id r = iMailID (vMessages s ! i))) (mails (wld s))"
    by (simp add: t_def expunge_one_def Let_def split_beta)
qed

lemma expunge_loop_result:
  "numbered (vMessages (snd acc)) \<Longrightarrow> in_step v (vMessages (snd acc)) \<Longrightarrow>
   \<exists>rs v'. out (snd (expunge_loop e silent acc)) = out (snd acc) @ (if silent then [] else map report_line rs) \<and>
     hear_all rs v = Some v' \<and> in_step v' (vMessages (snd (expunge_loop e silent acc))) \<and>
     map message_key (vMessages (snd (expunge_loop e silent acc))) =
       map message_key (filter (\<lambda>m. \<not> marked m) (vMessages (snd acc))) \<and>
     numbered (vMessages (snd (expunge_loop e silent acc))) \<and>
     mails (wld (snd (expunge_loop e silent acc))) =
       filter (\<lambda>r. \<not> gone_mail (iUserID (snd acc)) (vMessages (snd acc)) r) (mails (wld (snd acc)))"
proof (induction e silent acc arbitrary: v rule: expunge_loop.induct)
  case (1 e silent acc)
  let ?s = "snd acc" and ?P = "\<lambda>m. \<not> marked m"
  show ?case
  proof (cases "deleted_pos (vMessages ?s)")
    case None
    have n: "filter marked (vMessages ?s) = []" using deleted_pos_none [OF None] .
    then have "filter ?P (vMessages ?s) = vMessages ?s" by (simp add: filter_empty_conv)
    moreover have "filter (\<lambda>r. \<not> gone_mail (iUserID ?s) (vMessages ?s) r) (mails (wld ?s)) = mails (wld ?s)"
      using n by (simp add: gone_mail_def)
    moreover have "expunge_loop e silent acc = acc" using None by (simp add: expunge_loop.simps [of e silent acc])
    ultimately show ?thesis using 1(2,3) by (intro exI [of _ "[]"] exI [of _ v]) simp
  next
    case (Some i)
    define b where "b = expunge_one e silent i acc"
    have i: "i < length (vMessages ?s)" using deleted_pos_first [OF Some] by simp
    have "snd b = snd (expunge_one e silent i (fst acc, snd acc))" by (simp add: b_def)
    note one = expunge_one_result [OF Some 1(2) this]
    have num: "numbered (vMessages (snd b))" using numbered_remove [OF 1(2) i] one(2) by simp
    let ?w = "take i v @ drop (Suc i) v"
    have step: "in_step ?w (vMessages (snd b))" using remove_in_step [OF 1(3) i] one(2) by simp
    have loop: "expunge_loop e silent acc = expunge_loop e silent b"
      using Some by (simp add: expunge_loop.simps [of e silent acc] b_def)
    from 1(1) [OF Some, folded b_def, OF num step]
    obtain rs v' where ih: "out (snd (expunge_loop e silent b)) = out (snd b) @ (if silent then [] else map report_line rs)"
      "hear_all rs ?w = Some v'" "in_step v' (vMessages (snd (expunge_loop e silent b)))"
      "map message_key (vMessages (snd (expunge_loop e silent b))) = map message_key (filter ?P (vMessages (snd b)))"
      "numbered (vMessages (snd (expunge_loop e silent b)))"
      "mails (wld (snd (expunge_loop e silent b))) = filter (\<lambda>r. \<not> gone_mail (iUserID (snd b)) (vMessages (snd b)) r) (mails (wld (snd b)))"
      by blast
    have keys: "map message_key (filter (\<lambda>m. marked m = c) (vMessages (snd b))) =
        map message_key (filter (\<lambda>m. marked m = c) (take i (vMessages ?s) @ drop (Suc i) (vMessages ?s)))" for c
      using marked_key [OF remove_key] one(2) by simp
    have ids: "iMailID ` set (filter marked (vMessages ?s)) =
        insert (iMailID (vMessages ?s ! i)) (iMailID ` set (filter marked (vMessages (snd b))))"
    proof -
      have "map (snd \<circ> snd \<circ> message_key) (filter marked (vMessages (snd b))) =
          map (snd \<circ> snd \<circ> message_key) (filter marked (take i (vMessages ?s) @ drop (Suc i) (vMessages ?s)))"
        using keys [of True] by (simp only: eq_True list.map_comp [symmetric])
      then have "map iMailID (filter marked (vMessages (snd b))) =
          map iMailID (filter marked (take i (vMessages ?s) @ drop (Suc i) (vMessages ?s)))"
        by (simp add: message_key_def comp_def)
      then show ?thesis
        by (subst remove_split(1) [OF Some]) (metis (no_types, lifting) image_insert list.set_map list.simps(15))
    qed
    have mails: "mails (wld (snd (expunge_loop e silent b))) =
        filter (\<lambda>r. \<not> gone_mail (iUserID ?s) (vMessages ?s) r) (mails (wld ?s))"
      unfolding ih(6) one(3,4) filter_filter gone_mail_def ids by (rule filter_cong) auto
    have "hear_all (EXPUNGE (1 + int i) # rs) v = Some v'"
      using ih(2) hear_expunge_at [of i v] i in_step_length [OF 1(3)] by simp
    moreover have "map message_key (filter ?P (vMessages (snd b))) = map message_key (filter ?P (vMessages ?s))"
      using keys [of False] remove_split(2) [OF Some] by (simp del: filter_append)
    ultimately show ?thesis
      using ih(1,3-5) one(1) mails unfolding loop
      by (intro exI [of _ "EXPUNGE (1 + int i) # rs"] exI [of _ v']) (simp del: hear_all.simps)
  qed
qed

lemma expunge_loop_tag: "szTag (snd (expunge_loop e b acc)) = szTag (snd acc)"
proof (induction e b acc rule: expunge_loop.induct)
  case (1 e b acc)
  then show ?case
    by (cases "deleted_pos (vMessages (snd acc))") (simp_all add: expunge_loop.simps [of e b acc])
qed

text \<open>
  C9: eXPUNGE removes exactly the messages marked as deleted: the others keep their order, UIDs and
  flags, the rows that go from the mail table are the user's rows of the marked messages and no
  others, and the numbers in the untagged answers, heard one after the other, take the client's
  view to the new list.
\<close>

theorem IMAP_Expunge_exact:
  assumes "numbered (vMessages s)" and "in_step v (vMessages s)"
  shows "\<exists>rs v'. out (IMAP_Expunge e False s) = out s @ map report_line rs @ [szTag s @ '' OK EXPUNGE completed'' @ CRLF] \<and>
    hear_all rs v = Some v' \<and> in_step v' (vMessages (IMAP_Expunge e False s)) \<and>
    map message_key (vMessages (IMAP_Expunge e False s)) =
      map message_key (filter (\<lambda>m. \<not> FLAGGED FLAG_DELETED (iFlags m)) (vMessages s)) \<and>
    mails (wld (IMAP_Expunge e False s)) =
      filter (\<lambda>r. \<not> (m_userid r = iUserID s \<and>
        m_id r \<in> iMailID ` set (filter (\<lambda>m. FLAGGED FLAG_DELETED (iFlags m)) (vMessages s)))) (mails (wld s))"
proof -
  obtain freed t where t: "expunge_loop e False (0, s) = (freed, t)" by fastforce
  have tag: "szTag t = szTag s" using expunge_loop_tag [of e False "(0, s)"] t by simp
  have m: "marked = (\<lambda>m. FLAGGED FLAG_DELETED (iFlags m))" by (simp add: marked_def fun_eq_iff)
  show ?thesis
    using expunge_loop_result [of "(0, s)" v e False] assms t tag
    by (auto simp: IMAP_Expunge_def Let_def gone_mail_def m report_line_def)
qed

section \<open>APPEND to the selected mailbox\<close>

definition announces :: "string \<Rightarrow> bool" where
  "announces x \<longleftrightarrow> (\<exists>n. x = report_line (EXISTS n))"

definition quietly :: "'y imap_scheme \<Rightarrow> 'y imap_scheme \<Rightarrow> bool" where
  "quietly s t \<longleftrightarrow> (\<exists>xs. out t = out s @ xs \<and> (\<forall>x \<in> set xs. \<not> announces x))"

lemma quietly_refl [simp]: "quietly s s"
  by (simp add: quietly_def)

lemma quietly_trans: "quietly s t \<Longrightarrow> quietly t u \<Longrightarrow> quietly s u"
  by (auto simp: quietly_def)

lemma quietly_printf: "quietly s t \<Longrightarrow> \<not> announces x \<Longrightarrow> quietly s (printf x t)"
  by (auto simp: quietly_def)

lemma announces_form: "announces x \<Longrightarrow> \<exists>c y. x = ''* '' @ c # y @ '' EXISTS'' @ CRLF \<and> (is_digit c \<or> c = CHR ''-'')"
proof -
  assume "announces x"
  then obtain n where n: "x = ''* '' @ show_int n @ '' EXISTS'' @ CRLF" by (auto simp: announces_def report_line_def report_text_def)
  have "show_nat k \<noteq> []" "is_digit (hd (show_nat k))" for k by simp_all
  then obtain c y where "show_int n = c # y" "is_digit c \<or> c = CHR ''-''"
    unfolding show_int_def by (metis list.exhaust list.sel(1))
  then show ?thesis using n by auto
qed

lemma not_announced [simp]:
  "\<not> announces (CHR ''+'' # x)" "\<not> announces (CHR ''*'' # CHR '' '' # CHR ''N'' # x)"
  "\<not> announces (CHR ''*'' # CHR '' '' # CHR ''B'' # x)"
  using announces_form by (fastforce simp: is_digit_def code_def)+

lemma not_announced_end: "last (butlast (butlast x)) \<noteq> CHR ''S'' \<Longrightarrow> \<not> announces x"
  by (auto simp: announces_def report_line_def report_text_def butlast_append)

lemma quietly_refuse: "quietly s (refuse_literals a s)"
proof -
  have "quietly s ((printf (''* NO Parameter too big'' @ CRLF) ^^ n) s)" for n
    by (induction n) (auto intro!: quietly_printf)
  then show ?thesis by (simp add: refuse_literals_def)
qed

lemma quietly_read: "read_literal n s = (l, t) \<Longrightarrow> out t = out s" "read_line k s = (x, t) \<Longrightarrow> out t = out s"
  by (auto simp: read_literal_def set_pending_def read_line_def split: if_splits option.splits prod.splits)

lemma quietly_parse_args: "parse_args mx k line a s = (r, t) \<Longrightarrow> quietly s t"
proof (induction mx k line a s rule: parse_args.induct)
  case (1 mx k line a s)
  obtain b n where b: "arg_chars mx line a = (b, n)" by fastforce
  show ?case
  proof (cases n)
    case None
    then show ?thesis using 1(2) b quietly_refuse by (auto simp: parse_args.simps [of mx k line a s])
  next
    case n: (Some m)
    let ?s1 = "printf (''+ Ok, reading '' @ show_int m @ '' bytes'' @ CRLF) (refuse_literals b s)"
    obtain lit s2 where l: "read_literal m ?s1 = (lit, s2)" by fastforce
    obtain li s3 where r: "read_line IMAP_MAXLINE s2 = (li, s3)" by fastforce
    have "quietly s ?s1" using quietly_refuse by (rule quietly_printf) simp
    then have s3: "quietly s (s3\<lparr>overrun := o3\<rparr>)" for o3
      using quietly_read(1) [OF l] quietly_read(2) [OF r] by (simp add: quietly_def)
    show ?thesis
    proof (cases li)
      case None
      then show ?thesis using 1(2) b n l r s3 by (auto simp: parse_args.simps [of mx k line a s] Let_def)
    next
      case (Some x)
      let ?s4 = "s3\<lparr>overrun := overrun s3 \<or> overruns k s3 x\<rparr>"
      let ?c = "b\<lparr>a_done := a_done b @ [lit], a_refused := 0\<rparr>"
      have "parse_args mx (k + 1) (cstr (drop 1 x)) ?c ?s4 = (r, t)"
        using 1(2) b n l r Some by (simp add: parse_args.simps [of mx k line a s] Let_def)
      then have "quietly ?s4 t"
        by (rule 1(1) [OF b [symmetric] n refl refl l [symmetric] refl r [symmetric] Some])
      then show ?thesis using s3 quietly_trans by blast
    qed
  qed
qed

text \<open>If the UIDs have not changed, only changed flags are reported.\<close>

lemma drop_until_same: "ms \<noteq> [] \<Longrightarrow> iUID (hd ms) = uid \<Longrightarrow> drop_until uid ms = ([], ms)"
  by (cases ms) simp_all

lemma sync_same: "map iUID old = map iUID new \<Longrightarrow> sync_lists old new = ([], old)"
proof (induction old new rule: sync_lists.induct)
  case (3 m ms n ns)
  then have "drop_until (iUID n) (m # ms) = ([], m # ms)" by simp
  then show ?case using 3 by simp
qed simp_all

lemma changed_flags_kind: "r \<in> set (changed_flags old new) \<Longrightarrow> \<exists>n f. r = FETCH_FLAGS n f"
  by (induction old new rule: changed_flags.induct) (auto split: if_splits)

lemma ReportDelta_same:
  assumes "map iUID old = map iUID new"
  shows "EXISTS n \<notin> set (ReportDelta old new)" and "EXPUNGE n \<notin> set (ReportDelta old new)"
proof -
  have "length old = length new" using assms by (metis length_map)
  then have "ReportDelta old new = changed_flags old new @
      (if CountNotFlaggedMails new FLAG_SEEN \<noteq> CountNotFlaggedMails old FLAG_SEEN
       then [RECENT (CountNotFlaggedMails new FLAG_SEEN)] else [])"
    using sync_same [OF assms] by (simp add: ReportDelta_def drop_surplus_def)
  then show "EXISTS n \<notin> set (ReportDelta old new)" and "EXPUNGE n \<notin> set (ReportDelta old new)"
    using changed_flags_kind by fastforce+
qed

lemma quietly_answers:
  "quietly s u \<Longrightarrow> last (butlast (butlast (szTag u @ x @ CRLF))) \<noteq> CHR ''S'' \<Longrightarrow> quietly s (tagged x u)"
  "quietly s u \<Longrightarrow> quietly s (untagged (CHR ''B'' # x) u)"
  by (auto simp: quietly_def not_announced_end)

lemma quietly_reread: "reread_selected e (t\<lparr>wld := w\<rparr>) = Some u \<Longrightarrow> quietly s t \<Longrightarrow> quietly s u"
  by (auto simp: reread_selected_def quietly_def split: if_splits option.splits)

lemma quietly_ParseLine: "ParseLine e k s = (a, t) \<Longrightarrow> quietly s t"
  by (auto simp: ParseLine_def intro: quietly_parse_args)

lemma quietly_Append: "quietly s (IMAP_Append e s) \<or> failed (IMAP_Append e s)"
  by (auto simp: IMAP_Append_def Let_def butlast_append split: prod.split option.split
      dest!: quietly_ParseLine dest: quietly_reread intro!: quietly_answers)

text \<open>
  APPEND while a mailbox is selected reads the message list again but prints no EXISTS, and while
  the UIDs stay the same no later refresh prints one either: the client never learns of the new
  message, and if it is in the selected mailbox the numbers of the two sides no longer agree.
\<close>

theorem IMAP_append_unannounced:
  assumes "iState s = IMAP_STATE_SELECTED" and "\<not> failed (IMAP_Append e s)"
    and "map iUID new = map iUID (vMessages (IMAP_Append e s))"
  shows "(\<exists>xs. out (IMAP_Append e s) = out s @ xs \<and> (\<forall>x \<in> set xs. \<forall>n. x \<noteq> report_line (EXISTS n))) \<and>
    (\<forall>n. EXISTS n \<notin> set (ReportDelta (vMessages (IMAP_Append e s)) new))"
  using quietly_Append [of s e] ReportDelta_same(1) assms by (auto simp: quietly_def announces_def)

section \<open>Examples\<close>

lemma IMAP_Expunge_exact_witness:
  "map iMailID (vMessages (IMAP_Expunge (sample_imap_env []) False (selected_imap []))) = [3] \<and>
   map m_id (mails (wld (IMAP_Expunge (sample_imap_env []) False (selected_imap [])))) = [2, 3]"
proof -
  let ?s = "selected_imap []"
  have v: "numbered (vMessages ?s)" "in_step [Some (101, 9), None] (vMessages ?s)"
    by (simp_all add: selected_imap_def sample_msg_def numbered_def knows_def)
  have f: "FLAGGED FLAG_DELETED 9" "\<not> FLAGGED FLAG_DELETED 1" by (simp_all add: flag_values FLAGGED_def)
  have k: "map message_key (filter (\<lambda>m. \<not> FLAGGED FLAG_DELETED (iFlags m)) (vMessages ?s)) = [(103, 1, 3)]"
    "iMailID ` set (filter (\<lambda>m. FLAGGED FLAG_DELETED (iFlags m)) (vMessages ?s)) = {1}"
    "iUserID ?s = 7" "mails (wld ?s) = [sample_mail 1 7 9, sample_mail 2 8 9, sample_mail 3 7 1]"
    using f by (simp_all add: selected_imap_def sample_msg_def message_key_def sample_imap_def new_imap_def
        session.defs new_session_def mail_world_def)
  have m: "map iMailID ms = [3]" if "map message_key ms = [(103, 1, 3)]" for ms
    using that by (auto simp: message_key_def)
  show ?thesis
    using IMAP_Expunge_exact [OF v, of "sample_imap_env []"] unfolding k
    by (auto simp: sample_mail_def intro: m)
qed

definition append_imap :: imap where
  "append_imap = (selected_imap (''a APPEND INBOX '' @ [DQUOTE] @ ''hello'' @ [DQUOTE]))\<lparr>iSizeLimit := 1000\<rparr>"

lemma IMAP_append_unannounced_witness:
  "\<exists>xs. out (IMAP_Append (sample_imap_env []) append_imap) = xs \<and> (\<forall>x \<in> set xs. x \<noteq> report_line (EXISTS 3))"
proof -
  have "iState append_imap = IMAP_STATE_SELECTED" "out append_imap = []"
    by (simp_all add: append_imap_def selected_imap_def sample_imap_def new_imap_def session.defs new_session_def)
  moreover have "\<not> failed (IMAP_Append (sample_imap_env []) append_imap)" by code_simp
  ultimately show ?thesis using IMAP_append_unannounced [OF _ _ refl, of append_imap "sample_imap_env []"] by auto
qed

end
