(* ===== verification/Smtp_Queue.thy ===== *)
theory Smtp_Queue
  imports Smtp_Message
begin

text \<open>
  What an SMTP session does to the message queue: the loop of \<open>ProcessMessage\<close> over the
  recipients enqueues for all or for none, every other command leaves the queue alone, and what
  is enqueued goes out under the identity of the session.
\<close>

section \<open>The loop over the recipients\<close>

lemma message_args_kept [simp]:
  "message_args (s\<lparr>wld := w\<rparr>) = message_args s" "message_args (count_message r s) = message_args s"
  by (auto simp: message_args_def count_message_def fun_eq_iff)

text \<open>A hidden row for a recipient, with its file.\<close>

definition enqueued_row :: "'x env_scheme \<Rightarrow> world \<Rightarrow> 'y smtp_scheme \<Rightarrow> SMTPRecipient \<Rightarrow> queue_row \<Rightarrow> bool" where
  "enqueued_row e w s r q \<longleftrightarrow> 0 < q_id q \<and> q_active q = 1 \<and> queue_row_for (message_args s r) (q_id q) q \<and>
     files w (QueueFileNameStr e (q_id q)) \<noteq> None"

text \<open>Only the database and the counters of messages differ.\<close>

definition counted :: "'y smtp_scheme \<Rightarrow> 'y smtp_scheme \<Rightarrow> bool" where
  "counted s t \<longleftrightarrow> t = s\<lparr>wld := wld t, iInboundMessages := iInboundMessages t,
     iOutboundMessages := iOutboundMessages t\<rparr>"

lemma counted_count: "counted s (count_message r (s\<lparr>wld := w\<rparr>))"
  by (simp add: counted_def count_message_def)

lemma counted_world: "counted s (s\<lparr>wld := w\<rparr>)"
  by (simp add: counted_def)

lemma counted_trans: "counted s t \<Longrightarrow> counted t u \<Longrightarrow> counted s u"
  unfolding counted_def by (erule ssubst, erule ssubst) simp

lemma counted_facts:
  assumes "counted s t"
  shows "out t = out s" "iErrorCounter t = iErrorCounter s" "trusted t = trusted s" "failed t = failed s"
    "message_args t = message_args s" "vRecipients t = vRecipients s" "iUserID t = iUserID s"
    "bAuthenticated t = bAuthenticated s"
  by (subst assms [unfolded counted_def], simp add: trusted_def message_args_def fun_eq_iff)+

text \<open>
  The result: rows for a prefix of the recipients, for all of them on success; on failure at most
  one more row, which got a negative id and stays hidden.
\<close>

definition enqueue_outcome ::
  "'x env_scheme \<Rightarrow> 'y smtp_scheme \<Rightarrow> SMTPRecipient list \<Rightarrow> bool \<Rightarrow> int list \<Rightarrow> 'y smtp_scheme \<Rightarrow>
     queue_row list \<Rightarrow> queue_row list \<Rightarrow> bool" where
  "enqueue_outcome e s rs ok ids t rows lost \<longleftrightarrow>
     queue_ids_ok (wld t) \<and> msgqueue (wld t) = msgqueue (wld s) @ rows @ lost \<and> ids = map q_id rows \<and>
     list_all2 (enqueued_row e (wld t) s) (take (length rows) rs) rows \<and>
     (if ok then length rows = length rs \<and> lost = [] else length rows < length rs) \<and>
     length lost \<le> 1 \<and> (\<forall>q \<in> set lost. q_id q < 0 \<and> q_active q = 1) \<and> counted s t \<and>
     (\<forall>p. files (wld s) p \<noteq> None \<longrightarrow> files (wld t) p \<noteq> None)"

lemma enqueue_all_outcome:
  "queue_ids_ok (wld s) \<Longrightarrow> enqueue_all e rs ids s = Some (ok, ids', t) \<Longrightarrow>
     \<exists>new rows lost. ids' = ids @ new \<and> enqueue_outcome e s rs ok new t rows lost"
proof (induction e rs ids s arbitrary: t rule: enqueue_all.induct)
  case (1 e ids s)
  then show ?case by (simp add: enqueue_outcome_def counted_def)
next
  case (2 e r rs ids s)
  obtain i w where i: "EnqueueMessage e (wld s) (message_args s r) = Some (i, w)"
    using "2.prems"(2) by (auto split: option.splits)
  note res = EnqueueMessage_result [OF "2.prems"(1) i]
  have instant: "\<not> qa_instant_release (message_args s r)" by (simp add: message_args_def)
  show ?case
  proof (cases "i \<le> 0")
    case True
    then have t: "\<not> ok" "ids' = ids" "t = s\<lparr>wld := w\<rparr>" using "2.prems"(2) i by auto
    have "\<exists>lost. msgqueue w = msgqueue (wld s) @ lost \<and> length lost \<le> 1 \<and>
        (\<forall>q \<in> set lost. q_id q < 0 \<and> q_active q = 1) \<and> (\<forall>p. files (wld s) p \<noteq> None \<longrightarrow> files w p \<noteq> None)"
      using res True instant by (cases "i = 0") (auto simp: queue_row_for_def)
    then obtain lost where "msgqueue w = msgqueue (wld s) @ lost" "length lost \<le> 1"
        "\<forall>q \<in> set lost. q_id q < 0 \<and> q_active q = 1" "\<forall>p. files (wld s) p \<noteq> None \<longrightarrow> files w p \<noteq> None" by blast
    then have "enqueue_outcome e s (r # rs) ok [] t [] lost"
      using t res counted_world [of s w] by (simp add: enqueue_outcome_def)
    then show ?thesis using t(2) by auto
  next
    case False
    define v where "v = count_message r (s\<lparr>wld := w\<rparr>)"
    have v: "wld v = w" "counted s v" by (simp_all add: v_def count_message_def counted_count [unfolded count_message_def])
    from res False instant obtain q m where q: "msgqueue w = msgqueue (wld s) @ [q]"
        "queue_row_for (message_args s r) i q" "q_active q = 1" "files w = (files (wld s))(QueueFileNameStr e i \<mapsto> m)"
      by auto
    have qi: "q_id q = i" using q(2) by (simp add: queue_row_for_def)
    have "enqueue_all e rs (ids @ [i]) v = Some (ok, ids', t)"
      using "2.prems"(2) i False by (simp add: v_def)
    with "2.IH" [of "(i, w)" i w t] i False res v(1)
    obtain new rows lost where n: "ids' = ids @ [i] @ new" "enqueue_outcome e v rs ok new t rows lost"
      by (auto simp: v_def)
    have "enqueued_row e (wld t) s r q"
      using q qi False n(2) v(1) by (auto simp: enqueued_row_def enqueue_outcome_def)
    moreover have "enqueued_row e (wld t) v = enqueued_row e (wld t) s"
      using counted_facts(5) [OF v(2)] by (simp add: enqueued_row_def fun_eq_iff)
    ultimately have "enqueue_outcome e s (r # rs) ok (i # new) t (q # rows) lost"
      using n(2) q qi v counted_trans [OF v(2)] by (auto simp: enqueue_outcome_def)
    then show ?thesis using n(1) by auto
  qed
qed

section \<open>All or none\<close>

text \<open>A row that the queue runner sees, for a recipient of the session's message, with its file.\<close>

definition released_row :: "'x env_scheme \<Rightarrow> world \<Rightarrow> 'y smtp_scheme \<Rightarrow> SMTPRecipient \<Rightarrow> queue_row \<Rightarrow> bool" where
  "released_row e w s r q \<longleftrightarrow>
     q_active q = 0 \<and> q_deleted q = 0 \<and> q_attempts q = 0 \<and> q_to q = strAddress r \<and> q_from q = strReturnPath s \<and>
     q_type q = (if iLocalRecipient r = 0 then MESSAGE_OUTBOUND else MESSAGE_INBOUND) \<and>
     q_smtp_user q = iUserID s \<and> files w (QueueFileNameStr e (q_id q)) \<noteq> None"

definition accepted_reply :: string where
  "accepted_reply = ''250 2.0.0 Message enqueued for delivery'' @ CRLF"

definition refusal_reply :: "string \<Rightarrow> bool" where
  "refusal_reply x \<longleftrightarrow> x \<noteq> [] \<and> hd x \<noteq> CHR ''2''"

text \<open>
  \<open>ok\<close>: every recipient has a row and the client was told so. Otherwise nothing is visible to
  the queue runner (at most one hidden row is left over) and the client got a refusal.
\<close>

definition all_or_none :: "'x env_scheme \<Rightarrow> 'y smtp_scheme \<Rightarrow> 'y smtp_scheme \<Rightarrow> bool \<Rightarrow> bool" where
  "all_or_none e s t ok \<longleftrightarrow>
     (\<exists>rows x. msgqueue (wld t) = msgqueue (wld s) @ rows \<and> out t = out s @ [x] \<and>
        (if ok then list_all2 (released_row e (wld t) s) (vRecipients s) rows \<and> x = accepted_reply
         else length rows \<le> 1 \<and> (\<forall>q \<in> set rows. q_id q < 0 \<and> q_active q = 1) \<and> refusal_reply x))"

lemma error_reply:
  "take 1 (show_int n) \<noteq> ''2'' \<Longrightarrow> 100 \<le> n \<Longrightarrow> \<exists>x. out (SMTP_Error e n msg s) = out s @ [x] \<and> refusal_reply x"
proof -
  assume n: "take 1 (show_int n) \<noteq> ''2''" "100 \<le> n"
  have "show_int n \<noteq> []" by (simp add: show_int_def)
  moreover have "2 < length (show_int n)" using show_nat_length [of 2 "nat n"] n(2) by (simp add: show_int_def)
  ultimately have "pad_left 3 (CHR ''0'') (show_int n) = show_int n" by (simp add: pad_left_def)
  then have "refusal_reply (pad_left 3 (CHR ''0'') (show_int n) @ '' '' @ msg @ CRLF)"
    using n(1) \<open>show_int n \<noteq> []\<close> by (cases "show_int n") (auto simp: refusal_reply_def)
  moreover have "refusal_reply (''554 5.7.0 Too many erroneous commands, closing connection'' @ CRLF)"
    by (simp add: refusal_reply_def)
  ultimately show ?thesis unfolding SMTP_Error_def Let_def by (auto simp: printf_def)
qed

lemma old_ids_not_new:
  assumes "queue_ids_ok w" and "msgqueue w = old @ rows @ lost"
  shows "filter (\<lambda>q. q_id q \<notin> q_id ` set rows) (msgqueue w) = old @ lost"
    and "map (\<lambda>q. if q_id q \<in> q_id ` set rows then f q else q) (msgqueue w) = old @ map f rows @ lost"
proof -
  have d: "\<forall>q \<in> set old \<union> set lost. q_id q \<notin> q_id ` set rows"
    using assms by (auto simp: queue_ids_ok_def)
  then show "filter (\<lambda>q. q_id q \<notin> q_id ` set rows) (msgqueue w) = old @ lost"
    unfolding assms(2) by (auto simp: filter_id_conv filter_empty_conv)
  show "map (\<lambda>q. if q_id q \<in> q_id ` set rows then f q else q) (msgqueue w) = old @ map f rows @ lost"
    unfolding assms(2) using d by (auto intro!: map_idI)
qed

lemma unlink_all_queue: "msgqueue (foldl (\<lambda>v i. unlink (g i) v) w ids) = msgqueue w"
  by (induction ids arbitrary: w) (simp_all add: unlink_def)

lemma enqueue_message_all_or_none:
  assumes "queue_ids_ok (wld s)" and "t = enqueue_message e statID s"
    and "enqueue_all e (vRecipients s) [] s \<noteq> None"
  shows "\<exists>ok. all_or_none e s t ok"
proof -
  obtain ok ids v where v: "enqueue_all e (vRecipients s) [] s = Some (ok, ids, v)"
    using assms(3) by auto
  from enqueue_all_outcome [OF assms(1) v] obtain rows lost
    where o: "enqueue_outcome e s (vRecipients s) ok ids v rows lost" by auto
  note f = counted_facts [of s v]
  have c: "counted s v" and ids: "ids = map q_id rows" and q: "queue_ids_ok (wld v)"
    "msgqueue (wld v) = msgqueue (wld s) @ rows @ lost" using o by (simp_all add: enqueue_outcome_def)
  show ?thesis
  proof (cases ok)
    case True
    then have r: "lost = []" "list_all2 (enqueued_row e (wld v) s) (vRecipients s) rows"
      using o by (auto simp: enqueue_outcome_def)
    have t: "t = printf accepted_reply (v\<lparr>wld := ReleaseMessages ids (wld v), iErrorCounter := 0\<rparr>)"
      using assms(2) v True by (simp add: enqueue_message_def accepted_reply_def)
    have "msgqueue (ReleaseMessages ids (wld v)) = msgqueue (wld s) @ map (q_active_update (\<lambda>_. 0)) rows"
      using old_ids_not_new(2) [OF q, of "q_active_update (\<lambda>_. 0)"] r(1) q(2) ids
      by (auto simp: ReleaseMessages_def update_queue_rows_def)
    moreover have "files (ReleaseMessages ids (wld v)) = files (wld v)"
      by (simp add: ReleaseMessages_def update_queue_rows_def)
    then have "list_all2 (released_row e (ReleaseMessages ids (wld v)) s) (vRecipients s)
        (map (q_active_update (\<lambda>_. 0)) rows)"
      using r(2) by (auto simp: list_all2_map2 released_row_def enqueued_row_def queue_row_for_def
          message_args_def elim!: list_all2_mono)
    ultimately have "all_or_none e s t True"
      using t f(1) [OF c] by (simp add: all_or_none_def)
    then show ?thesis by blast
  next
    case False
    define u where "u = v\<lparr>wld := remove_stat e statID (DeleteMessages e ids (wld v))\<rparr>"
    have t: "t = SMTP_Error e 451 ''4.3.0 Internal error while enqueueing message for one or more recipient(s)'' u"
      using assms(2) v False by (simp add: enqueue_message_def u_def)
    have "msgqueue (wld u) = msgqueue (DeleteMessages e ids (wld v))"
      by (simp add: u_def remove_stat_def)
    also have "\<dots> = msgqueue (wld s) @ lost"
      using old_ids_not_new(1) [OF q] q(2) ids
      by (auto simp: DeleteMessages_def delete_queue_rows_def unlink_all_queue)
    finally have m: "msgqueue (wld t) = msgqueue (wld s) @ lost" by (simp add: t)
    have "take 1 (show_int 451) \<noteq> ''2''" by code_simp
    then obtain x where "out t = out u @ [x]" "refusal_reply x"
      using error_reply [of 451 e _ u] unfolding t by auto
    then have "all_or_none e s t False"
      using m o f(1) [OF c] by (auto simp: all_or_none_def enqueue_outcome_def u_def)
    then show ?thesis by blast
  qed
qed

section \<open>A whole message\<close>

lemma same_queue_tables [simp]:
  "msgqueue (AddAbusePoint e w u ty c) = msgqueue w" "files (AddAbusePoint e w u ty c) = files w"
  "next_id (AddAbusePoint e w u ty c) = next_id w"
  "msgqueue (snd (add_stat e s)) = msgqueue (wld s)" "files (snd (add_stat e s)) = files (wld s)"
  "msgqueue (snd (GetAbuseTypeConfig e w n k)) = msgqueue w"
  "msgqueue (snd (Failban_LoginFailed e w ip n)) = msgqueue w"
  by (simp_all add: AddAbusePoint_def add_stat_def AddSendStat_def GetAbuseTypeConfig_def
      Failban_LoginFailed_def Let_def split_beta split: option.split list.split)

lemma add_stat_ids: "queue_ids_ok (wld s) \<Longrightarrow> queue_ids_ok (snd (add_stat e s))"
proof -
  have "next_id (wld s) \<le> next_id (snd (add_stat e s))" by (simp add: add_stat_def AddSendStat_def Let_def)
  then show "queue_ids_ok (wld s) \<Longrightarrow> queue_ids_ok (snd (add_stat e s))" by (auto simp: queue_ids_ok_def)
qed

text \<open>Milters answer for themselves; they do not touch the database.\<close>

lemma run_milters_world: "wld (snd (run_milters e c rs s)) = wld s"
  by (induction e c rs s rule: run_milters.induct) (simp_all add: Let_def set_message_def)

lemma run_milters_none: "list_all (\<lambda>r. \<not> milter_applies s r) rs \<Longrightarrow> run_milters e c rs s = ((False, False), s)"
  by (induction rs) simp_all

lemma refused_all_or_none:
  assumes "msgqueue (wld s') = msgqueue (wld s)" and "out s' = out s" and "take 1 (show_int n) \<noteq> ''2''" and "100 \<le> n"
  shows "all_or_none e s (SMTP_Error e' n msg s') False"
proof -
  obtain x where "out (SMTP_Error e' n msg s') = out s' @ [x]" "refusal_reply x"
    using error_reply [OF assms(3,4)] by blast
  then show ?thesis using assms(1,2) by (auto simp: all_or_none_def)
qed

lemma refusal_codes:
  "message_refusal e s = Some (n, msg) \<Longrightarrow> take 1 (show_int n) \<noteq> ''2'' \<and> 100 \<le> n"
proof -
  have "take 1 (show_int 552) \<noteq> ''2''" "take 1 (show_int 554) \<noteq> ''2''" by code_simp+
  then show "message_refusal e s = Some (n, msg) \<Longrightarrow> take 1 (show_int n) \<noteq> ''2'' \<and> 100 \<le> n"
    by (auto simp: message_refusal_def split: if_splits)
qed


section \<open>What a session may send\<close>

text \<open>Only the end of a message changes the queue.\<close>

lemma queue_parts [simp]:
  "wld (mail_spf e r s) = wld s" "wld (spf_error e r s) = wld s" "wld (mail_user_tag s) = wld s"
  by (simp_all add: mail_spf_def spf_error_def mail_user_tag_def split_beta split: option.split)

lemma queue_login_ban [simp]: "msgqueue (wld (login_ban e n s)) = msgqueue (wld s)"
  by (simp add: login_ban_def split_beta)

lemma queue_frame [simp]:
  "wld (SMTP_Helo e b s) = wld s" "wld (SMTP_Noop s) = wld s" "wld (SMTP_Quit e s) = wld s"
  "wld (SMTP_StartTLS e s) = wld s" "wld (SMTP_Mail e s) = wld s" "wld (SMTP_Data e s) = wld s"
  by (simp_all add: SMTP_Helo_def ehlo_lines_def SMTP_Mail_def SMTP_Noop_def SMTP_Quit_def SMTP_StartTLS_def
      SMTP_Data_def Let_def split: option.split prod.split sum.split)

lemma queue_accept [simp]:
  "msgqueue (wld (send_without_receive e s)) = msgqueue (wld s)"
  "msgqueue (wld (rcpt_accept e c s)) = msgqueue (wld s)"
proof -
  show w: "msgqueue (wld (send_without_receive e s)) = msgqueue (wld s)"
    by (simp add: send_without_receive_def Let_def split_beta)
  then show "msgqueue (wld (rcpt_accept e c s)) = msgqueue (wld s)"
    by (simp add: rcpt_accept_def limit_error_def Let_def split_beta)
qed

lemma queue_Rcpt: "msgqueue (wld (SMTP_Rcpt e s)) = msgqueue (wld s)"
  by (simp add: SMTP_Rcpt_def rcpt_decide_def rcpt_denied_def Let_def split: option.split)

lemma queue_Auth: "msgqueue (wld (SMTP_Auth e s)) = msgqueue (wld s)"
proof (rule Auth_steps [OF refl, of s e])
  fix meth usr pass v
  assume v: "reads s v" "SMTP_Auth e s = auth_verify e meth usr pass v"
  have "msgqueue (wld (auth_verify e meth usr pass v)) = msgqueue (wld v)"
    by (simp add: auth_verify_def auth_failed_def auth_succeeded_def auth_identity_frame Let_def
        split: list.split prod.split)
  then show ?thesis using v by (simp add: reads_def)
qed (simp add: reads_def)

lemma queue_cmd: "smtp_cmd e c s t \<Longrightarrow> msgqueue (wld t) = msgqueue (wld s)"
  by (erule smtp_cmdE) (simp_all add: queue_Rcpt queue_Auth)

text \<open>Milters may drop recipients and add local ones.\<close>

definition milters_relay_nothing :: "'x smtp_env_scheme \<Rightarrow> bool" where
  "milters_relay_nothing e \<longleftrightarrow>
     (\<forall>row c m. \<forall>r \<in> set (ms_rcpts (mr_message (milter_process e row c m))).
        iLocalRecipient r = 0 \<longrightarrow> r \<in> set (ms_rcpts m))"

lemma run_milters_rcpts:
  assumes "milters_relay_nothing e"
  shows "r \<in> set (vRecipients (snd (run_milters e c rs s))) \<Longrightarrow> iLocalRecipient r = 0 \<Longrightarrow> r \<in> set (vRecipients s)"
proof (induction rs arbitrary: s)
  case (Cons row rs)
  let ?m = "mr_message (milter_process e row c (message_of s))"
  have err: "vRecipients (SMTP_Error e n msg s) = vRecipients s" for n msg
    using error_frame(1) [of e n msg s] unfolding core_def by simp
  have keep: "r \<in> set (vRecipients (set_message ?m s)) \<Longrightarrow> r \<in> set (vRecipients s)"
    using assms Cons.prems(2) by (fastforce simp: milters_relay_nothing_def set_message_def message_of_def)
  have "r \<in> set (vRecipients s)" if "r \<in> set (vRecipients (snd ((a, b), SMTP_Error e n msg s)))" for a b n msg
    using that err by simp
  with Cons.prems keep Cons.IH [of s] Cons.IH [of "set_message ?m s"] show ?case
    unfolding run_milters.simps Let_def by (simp split: if_splits)
qed simp

text \<open>The rows of one message that the queue runner sees.\<close>

definition entitled_rows :: "'y smtp_scheme \<Rightarrow> queue_row list \<Rightarrow> bool" where
  "entitled_rows s rows \<longleftrightarrow> (\<forall>q \<in> set rows. q_active q = 0 \<longrightarrow> q_smtp_user q = iUserID s \<and>
     (q_type q = MESSAGE_OUTBOUND \<longrightarrow> (\<exists>r \<in> set (vRecipients s). iLocalRecipient r = 0)))"

lemma all_or_none_entitled:
  assumes "all_or_none e s t ok"
  shows "\<exists>rows. msgqueue (wld t) = msgqueue (wld s) @ rows \<and> entitled_rows s rows"
proof -
  obtain rows where rows: "msgqueue (wld t) = msgqueue (wld s) @ rows"
      "if ok then list_all2 (released_row e (wld t) s) (vRecipients s) rows
       else (\<forall>q \<in> set rows. q_active q = 1)"
    using assms by (auto simp: all_or_none_def split: if_splits)
  have "entitled_rows s rows"
  proof (cases ok)
    case True
    then have l: "list_all2 (released_row e (wld t) s) (vRecipients s) rows" using rows(2) by simp
    have "\<exists>r \<in> set (vRecipients s). released_row e (wld t) s r q" if "q \<in> set rows" for q
      using l that by (auto simp: list_all2_conv_all_nth in_set_conv_nth intro!: bexI [OF _ nth_mem])
    then show ?thesis
      by (fastforce simp: entitled_rows_def released_row_def MESSAGE_OUTBOUND_def MESSAGE_INBOUND_def split: if_splits)
  qed (use rows(2) in \<open>auto simp: entitled_rows_def\<close>)
  then show ?thesis using rows(1) by blast
qed

lemma message_queue:
  assumes "queue_ids_ok (wld s)" and "milters_relay_nothing e"
  shows "\<exists>rows. msgqueue (wld (SMTP_ProcessMessage e s)) = msgqueue (wld s) @ rows \<and> entitled_rows s rows"
proof -
  obtain i w where w: "add_stat e s = (i, w)" by fastforce
  define s1 where "s1 = add_spf_header e (s\<lparr>wld := w\<rparr>)"
  obtain r d s2 where m: "run_milters e (milter_connection e s1) (milters w) s1 = ((r, d), s2)"
    by (metis prod.collapse)
  have s1: "wld s1 = w" "iUserID s1 = iUserID s" "vRecipients s1 = vRecipients s"
    by (simp_all add: s1_def add_spf_header_def)
  have "wld s2 = w" using run_milters_world [of e _ _ s1] m s1 by (metis snd_conv)
  moreover have "iUserID s2 = iUserID s"
    using run_milters_frame [of s1 e "milter_connection e s1" "milters w"] m s1 by (simp add: msg_frame_def who_def)
  moreover have "x \<in> set (vRecipients s2) \<Longrightarrow> iLocalRecipient x = 0 \<Longrightarrow> x \<in> set (vRecipients s)" for x
    using run_milters_rcpts [OF assms(2), of x "milter_connection e s1" "milters w" s1] m s1 by simp
  ultimately have s2: "queue_ids_ok (wld s2)" "msgqueue (wld s2) = msgqueue (wld s)"
      "entitled_rows s2 rows \<Longrightarrow> entitled_rows s rows" for rows
    using add_stat_ids [OF assms(1), of e] same_queue_tables(4) [of e s] w
    by (simp_all add: entitled_rows_def) blast
  have d: "message_deliver e s = (if r then (if d then s2\<lparr>iState := SMTP_STATE_QUIT\<rparr> else s2)
      else enqueue_message e i s2)"
    using m s1 by (simp add: message_deliver_def w s1_def Let_def)
  have "\<exists>rows. msgqueue (wld (enqueue_message e i s2)) = msgqueue (wld s) @ rows \<and> entitled_rows s rows"
  proof (cases "enqueue_all e (vRecipients s2) [] s2 = None")
    case True
    then have "wld (enqueue_message e i s2) = wld s2" by (simp add: enqueue_message_def)
    then show ?thesis using s2(2) by (simp add: entitled_rows_def)
  next
    case False
    then obtain ok where "all_or_none e s2 (enqueue_message e i s2) ok"
      using enqueue_message_all_or_none [OF s2(1) refl, of e i] by blast
    from all_or_none_entitled [OF this] s2 show ?thesis by auto
  qed
  then have "\<exists>rows. msgqueue (wld (message_deliver e s)) = msgqueue (wld s) @ rows \<and> entitled_rows s rows"
    using d s2(2) by (auto simp: entitled_rows_def)
  then show ?thesis
    by (auto simp: SMTP_ProcessMessage_def message_outcome_def limit_error_def entitled_rows_def split_beta
        split: option.split)
qed

lemma step_queue:
  assumes "smtp_step e s t" and "queue_ids_ok (wld s)" and "milters_relay_nothing e"
  shows "\<exists>rows. msgqueue (wld t) = msgqueue (wld s) @ rows \<and> entitled_rows s rows \<and>
    (iState s \<noteq> SMTP_STATE_DATA \<longrightarrow> rows = [])"
  using assms(1)
proof (cases rule: smtp_step.cases)
  case (command c n)
  then have "msgqueue (wld t) = msgqueue (wld s)" using queue_cmd [of e c "s\<lparr>smtpCommands := n\<rparr>" t] by simp
  then show ?thesis by (simp add: entitled_rows_def)
next
  case (text_line l b)
  then show ?thesis by (simp add: entitled_rows_def)
next
  case (message b)
  then show ?thesis using message_queue [OF assms(2,3)] by simp
qed

text \<open>
  C2: the queue only grows by what the session may send. For every line of every session, whatever
  other processes did before: the rows that were in the queue stay as they are, nothing is added
  outside the data phase, and each added row that the queue runner sees goes out under the
  account of the session; a row for another server needs a session that is trusted or logged in.
  The milters are assumed not to add recipients elsewhere.
\<close>

theorem SMTP_queue_entitled:
  assumes "iUserID s0 = 0" and "smtp_reaches e (new_smtp e sub s0) s" and "my_fgets SMTP_LINEMAX s = (True, u)"
    and "SMTP_handle e u = (b, t)" and "queue_ids_ok (wld s)" and "milters_relay_nothing e"
  shows "\<exists>rows. msgqueue (wld t) = msgqueue (wld s) @ rows \<and> (iState s \<noteq> SMTP_STATE_DATA \<longrightarrow> rows = []) \<and>
    (\<forall>q \<in> set rows. q_active q = 0 \<longrightarrow> q_smtp_user q = iUserID s \<and>
       (q_type q = MESSAGE_OUTBOUND \<longrightarrow> trusted s \<or> bAuthenticated s \<and> 0 < iUserID s))"
proof -
  have ok: "smtp_ok s" using smtp_reaches_ok [OF assms(2) new_smtp_ok [OF assms(1)]] .
  have u: "core u = core s" "iState u = iState s" using my_fgets_core [OF assms(3)] by simp_all
  have w: "wld u = wld s"
    using assms(3) by (auto simp: my_fgets_def read_line_def split: if_splits prod.splits option.splits)
  obtain rows where rows: "msgqueue (wld t) = msgqueue (wld s) @ rows" "entitled_rows u rows"
      "iState s \<noteq> SMTP_STATE_DATA \<longrightarrow> rows = []"
    using step_queue [OF handle_step [OF assms(4)] _ assms(6)] assms(5) u(2) w by auto
  have "iUserID u = iUserID s" "vRecipients u = vRecipients s" using u(1) by (simp_all add: core_def who_def)
  then show ?thesis
    using rows ok by (fastforce simp: entitled_rows_def smtp_ok_def)
qed

section \<open>The sample session\<close>

text \<open>After the text of the message, before its end line; the line is read, then handled.\<close>

definition before_end :: "smtp option" where
  "before_end = feed 7 (my_fgets SMTP_LINEMAX) (SMTP_handle (sample_smtp [])) sample_conn"

definition end_enqueues :: "smtp \<Rightarrow> bool" where
  "end_enqueues s \<longleftrightarrow>
     (case my_fgets SMTP_LINEMAX s of (r, u) \<Rightarrow>
        (case SMTP_handle (sample_smtp []) u of (g, t) \<Rightarrow>
           (let p = SMTP_ProcessMessage (sample_smtp []) u
            in r \<and> g \<and> queue_ids_ok (wld s) \<and> queue_ids_ok (wld u) \<and> msgqueue (wld s) = [] \<and> msgqueue (wld u) = [] \<and>
               list_all (\<lambda>r. \<not> milter_applies u r) (milters (wld u)) \<and> length (vRecipients u) = 1 \<and>
               \<not> failed p \<and> last (out p) = accepted_reply \<and>
               list_all (\<lambda>q. q_active q = 0) (msgqueue (wld t)) \<and> length (msgqueue (wld t)) = 1)))"

lemma sample_end:
  obtains s u t where "smtp_reaches (sample_smtp []) sample_conn s" "my_fgets SMTP_LINEMAX s = (True, u)"
    "SMTP_handle (sample_smtp []) u = (True, t)" "queue_ids_ok (wld s)" "queue_ids_ok (wld u)"
    "list_all (\<lambda>r. \<not> milter_applies u r) (milters (wld u))" "\<not> failed (SMTP_ProcessMessage (sample_smtp []) u)"
    "length (vRecipients u) = 1" "last (out (SMTP_ProcessMessage (sample_smtp []) u)) = accepted_reply"
    "msgqueue (wld s) = []" "msgqueue (wld u) = []" "list_all (\<lambda>q. q_active q = 0) (msgqueue (wld t))"
    "length (msgqueue (wld t)) = 1"
proof -
  have "case_option False end_enqueues before_end" by code_simp
  then obtain s where s: "before_end = Some s" "end_enqueues s" by (auto split: option.splits)
  obtain r u where u: "my_fgets SMTP_LINEMAX s = (r, u)" by fastforce
  obtain g t where t: "SMTP_handle (sample_smtp []) u = (g, t)" by fastforce
  note e = s(2) [unfolded end_enqueues_def u t Let_def prod.case]
  show ?thesis
    by (rule that [OF sample_feed [OF s(1) [unfolded before_end_def]], of u t]) (use e u t in simp_all)
qed


lemma SMTP_queue_entitled_witness:
  "\<exists>s (t :: smtp) q. smtp_reaches (sample_smtp []) sample_conn s \<and> msgqueue (wld t) = [q] \<and> q_smtp_user q = iUserID s"
proof -
  from sample_end obtain s u t where s: "smtp_reaches (sample_smtp []) sample_conn s" "my_fgets SMTP_LINEMAX s = (True, u)"
      "SMTP_handle (sample_smtp []) u = (True, t)" "queue_ids_ok (wld s)" "msgqueue (wld s) = []"
      "list_all (\<lambda>q. q_active q = 0) (msgqueue (wld t))" "length (msgqueue (wld t)) = 1" by metis
  have "milters_relay_nothing (sample_smtp [])" by (simp add: milters_relay_nothing_def sample_smtp_def mta_env.defs)
  moreover have "iUserID (new_session sample_dialogue [] [] sample_world) = 0" by (simp add: new_session_def)
  ultimately obtain rows where "msgqueue (wld t) = msgqueue (wld s) @ rows"
      "\<forall>q \<in> set rows. q_active q = 0 \<longrightarrow> q_smtp_user q = iUserID s"
    using SMTP_queue_entitled [OF _ s(1) [unfolded sample_conn_def] s(2-4)] by blast
  then obtain q where "msgqueue (wld t) = [q]" "q_smtp_user q = iUserID s"
    using s(5-7) by (cases "msgqueue (wld t)") auto
  then show ?thesis using s(1) by blast
qed

end
