(* ===== verification/Milter.thy ===== *)
theory Milter
  imports Smtp Socket
begin

text \<open>
  The client of content filters (\<open>Milter\<close> and \<open>MilterPacket\<close> in src/smtp/milter.cpp): the wire
  format, the dialogue with its stages, and the changes that a filter asks for. The connection is a
  socket of theory Socket together with the number of bytes that have arrived at each of the next
  reads; whether it can be opened is a parameter.
\<close>

section \<open>Packets\<close>

abbreviation (input) "SMFIR_ADDRCPT \<equiv> CHR ''+''"
abbreviation (input) "SMFIR_DELRCPT \<equiv> CHR ''-''"
abbreviation (input) "SMFIR_ACCEPT \<equiv> CHR ''a''"
abbreviation (input) "SMFIR_REPLBODY \<equiv> CHR ''b''"
abbreviation (input) "SMFIR_CONTINUE \<equiv> CHR ''c''"
abbreviation (input) "SMFIR_DISCARD \<equiv> CHR ''d''"
abbreviation (input) "SMFIR_CHGFROM \<equiv> CHR ''e''"
abbreviation (input) "SMFIR_ADDHEADER \<equiv> CHR ''h''"
abbreviation (input) "SMFIR_INSHEADER \<equiv> CHR ''i''"
abbreviation (input) "SMFIR_CHGHEADER \<equiv> CHR ''m''"
abbreviation (input) "SMFIR_PROGRESS \<equiv> CHR ''p''"
abbreviation (input) "SMFIR_REPLYCODE \<equiv> CHR ''y''"

definition MILTER_MAX_PACKET :: nat where "MILTER_MAX_PACKET = 512 * 1024"
definition MILTER_VERSION :: nat where "MILTER_VERSION = 2"
definition MILTER_CHUNK_SIZE :: nat where "MILTER_CHUNK_SIZE = 65535"

record MilterPacket =
  mp_cmd :: char
  mp_data :: string

text \<open>Numbers in network byte order.\<close>

definition be16 :: "nat \<Rightarrow> string" where
  "be16 n = [char_of (n div 256 mod 256), char_of (n mod 256)]"

definition be32 :: "nat \<Rightarrow> string" where
  "be32 n = be16 (n div 65536) @ be16 n"

definition net32 :: "string \<Rightarrow> nat" where
  "net32 b = foldl (\<lambda>n c. 256 * n + code c) 0 b"

lemma be32_length [simp]: "length (be32 n) = 4"
  by (simp add: be32_def be16_def)

lemma net32_be32 [simp]: "n < 4294967296 \<Longrightarrow> net32 (be32 n) = n"
proof -
  assume n: "n < 4294967296"
  have two: "foldl (\<lambda>n c. 256 * n + code c) a (be16 b) = 65536 * a + b mod 65536" for a b
    using mod_mult2_eq [of b 256 256] by (simp add: be16_def code_def)
  have "n div 65536 mod 65536 = n div 65536" using n by simp
  then show ?thesis by (simp add: net32_def be32_def two)
qed

text \<open>
  The state of \<open>Milter\<close>. Beside the members of the class: what the next reads find, and from which
  index on the iterators into the lists of recipients and headers have been invalidated by the last
  response.
\<close>

record milter =
  ml_sock :: sock
  ml_arrived :: "nat option list"
  negProtocol :: nat
  ml_conn :: milter_conn
  ml_from :: string
  ml_rcpts :: "SMTPRecipient list"
  ml_headers :: "(string \<times> string) list"
  ml_body :: string
  lastAcceptRejectAction :: char
  replBodyReceived :: bool
  defaultAction :: char
  replyCode :: "int \<times> string"
  rcpts_invalid :: "nat option"
  headers_invalid :: "nat option"

definition new_milter :: "sock \<Rightarrow> nat option list \<Rightarrow> milter_conn \<Rightarrow> smtp_message \<Rightarrow> char \<Rightarrow> int \<times> string \<Rightarrow> milter" where
  "new_milter s arrived c m dflt r =
     \<lparr>ml_sock = s, ml_arrived = arrived, negProtocol = 0, ml_conn = c, ml_from = ms_from m,
      ml_rcpts = ms_rcpts m, ml_headers = ms_headers m, ml_body = ms_body m,
      lastAcceptRejectAction = SMFIR_ACCEPT, replBodyReceived = False, defaultAction = dflt,
      replyCode = r, rcpts_invalid = None, headers_invalid = None\<rparr>"

text \<open>
  How a step ends: normally, with \<open>MilterRejected\<close>, with another exception, or in behaviour that
  the language leaves undefined.
\<close>

datatype outcome = Going | MilterRejected | Exception | Undefined

definition andthen :: "outcome \<times> 'm \<Rightarrow> ('m \<Rightarrow> outcome \<times> 'm) \<Rightarrow> outcome \<times> 'm" where
  "andthen r f = (case r of (Going, m) \<Rightarrow> f m | _ \<Rightarrow> r)"

lemma andthen_cong [fundef_cong]:
  "r = r' \<Longrightarrow> (\<And>m. r' = (Going, m) \<Longrightarrow> f m = g m) \<Longrightarrow> andthen r f = andthen r' g"
  by (auto simp: andthen_def split: outcome.split prod.split)

definition packet_bytes :: "MilterPacket \<Rightarrow> string" where
  "packet_bytes p = be32 (1 + length (mp_data p)) @ mp_cmd p # mp_data p"

definition writeToSocket :: "MilterPacket \<Rightarrow> milter \<Rightarrow> outcome \<times> milter" where
  "writeToSocket p m =
     (let (r, s) = sk_Write (packet_bytes p) (ml_sock m); m1 = m\<lparr>ml_sock := s\<rparr>
      in (if r = Wrote (int (length (packet_bytes p))) then Going else Exception, m1))"

text \<open>
  \<open>Socket::Read\<close>: at most as many bytes as are asked for and as have arrived, at least one unless
  the input is at its end (\<open>None\<close>: the timeout).
\<close>

definition sk_Read :: "nat \<Rightarrow> milter \<Rightarrow> string option \<times> milter" where
  "sk_Read n m =
     (let k = (case ml_arrived m of Some k # _ \<Rightarrow> min (max 1 k) n | _ \<Rightarrow> n);
          got = take k (sk_in (ml_sock m));
          m1 = m\<lparr>ml_arrived := tl (ml_arrived m), ml_sock := (ml_sock m)\<lparr>sk_in := drop k (sk_in (ml_sock m))\<rparr>\<rparr>
      in (if got = [] \<and> sk_stalls (ml_sock m) then None else Some got, m1))"

text \<open>A read that yields another number of bytes is an exception.\<close>

definition read_bytes :: "nat \<Rightarrow> milter \<Rightarrow> string option \<times> milter" where
  "read_bytes n m =
     (case sk_Read n m of
        (Some d, m1) \<Rightarrow> (if length d = n then Some d else None, m1)
      | (None, m1) \<Rightarrow> (None, m1))"

definition todo_in :: "milter \<Rightarrow> nat" where
  "todo_in m = length (sk_in (ml_sock m))"

lemma read_bytes_todo:
  "read_bytes n m = (Some d, m') \<Longrightarrow> length d = n \<and> todo_in m' + n = todo_in m"
  by (auto simp: read_bytes_def sk_Read_def Let_def todo_in_def split: if_splits list.splits option.splits)

text \<open>\<open>readFromSocket\<close>; progress packets are skipped, their data are not.\<close>

function readFromSocket :: "milter \<Rightarrow> MilterPacket option \<times> milter" where
  "readFromSocket m =
     (case read_bytes 4 m of
        (None, m1) \<Rightarrow> (None, m1)
      | (Some l, m1) \<Rightarrow>
          if net32 l < 1 \<or> MILTER_MAX_PACKET < net32 l then (None, m1)
          else (case read_bytes 1 m1 of
                  (None, m2) \<Rightarrow> (None, m2)
                | (Some c, m2) \<Rightarrow>
                    if hd c = SMFIR_PROGRESS then readFromSocket m2
                    else if net32 l = 1 then (Some \<lparr>mp_cmd = hd c, mp_data = []\<rparr>, m2)
                    else (case read_bytes (net32 l - 1) m2 of
                            (None, m3) \<Rightarrow> (None, m3)
                          | (Some d, m3) \<Rightarrow> (Some \<lparr>mp_cmd = hd c, mp_data = d\<rparr>, m3))))"
  by pat_completeness auto

termination
  by (relation "measure todo_in") (auto dest!: sym [of "(_, _)"] read_bytes_todo)

declare readFromSocket.simps [simp del]

lemma readFromSocket_todo: "readFromSocket m = (Some p, m') \<Longrightarrow> todo_in m' + 5 \<le> todo_in m"
proof (induction m rule: readFromSocket.induct)
  case (1 m)
  obtain l m1 where l: "read_bytes 4 m = (Some l, m1)" "\<not> (net32 l < 1 \<or> MILTER_MAX_PACKET < net32 l)"
    using 1(2) by (subst (asm) readFromSocket.simps) (auto split: prod.splits option.splits if_splits)
  obtain c m2 where c: "read_bytes 1 m1 = (Some c, m2)"
    using 1(2) l by (subst (asm) readFromSocket.simps) (auto split: prod.splits option.splits)
  have m2: "todo_in m2 + 5 = todo_in m" using read_bytes_todo [OF l(1)] read_bytes_todo [OF c] by simp
  show ?case
  proof (cases "hd c = SMFIR_PROGRESS")
    case True
    then have "readFromSocket m2 = (Some p, m')" using 1(2) l c by (subst (asm) readFromSocket.simps) simp
    then show ?thesis using 1(1) [OF l(1) [symmetric] refl l(2) c [symmetric] refl True] m2 by simp
  next
    case False
    then show ?thesis
      using 1(2) l c m2 read_bytes_todo [of "net32 l - 1" m2]
      by (subst (asm) readFromSocket.simps) (auto split: prod.splits option.splits if_splits)
  qed
qed

section \<open>Responses\<close>

definition strip_angles :: "string \<Rightarrow> string" where
  "strip_angles = filter (\<lambda>c. c \<noteq> CHR ''<'' \<and> c \<noteq> CHR ''>'')"

fun first_index :: "('a \<Rightarrow> bool) \<Rightarrow> 'a list \<Rightarrow> nat option" where
  "first_index p [] = None"
| "first_index p (x # xs) = (if p x then Some 0 else map_option Suc (first_index p xs))"

definition addDelRcpt :: "'x env_scheme \<Rightarrow> world \<Rightarrow> MilterPacket \<Rightarrow> milter \<Rightarrow> milter" where
  "addDelRcpt e w p m =
     (let rcpt = strip_angles (cstr (mp_data p)); same = (\<lambda>r. strcaseeq (strAddress r) rcpt)
      in if mp_cmd p = SMFIR_DELRCPT
         then m\<lparr>ml_rcpts := filter (\<lambda>r. \<not> same r) (ml_rcpts m), rcpts_invalid := first_index same (ml_rcpts m)\<rparr>
         else if list_ex same (ml_rcpts m) then m
         else m\<lparr>ml_rcpts := ml_rcpts m @
                   [\<lparr>strAddress = rcpt, iLocalRecipient = LookupUser e w rcpt False False, iDeliveryStatusID = 0\<rparr>],
                rcpts_invalid := Some 0\<rparr>)"

definition replBody :: "MilterPacket \<Rightarrow> milter \<Rightarrow> milter" where
  "replBody p m =
     m\<lparr>ml_body := (if replBodyReceived m then ml_body m else []) @ cstr (mp_data p), replBodyReceived := True\<rparr>"

definition chgFrom :: "MilterPacket \<Rightarrow> milter \<Rightarrow> milter" where
  "chgFrom p m = m\<lparr>ml_from := strip_angles (cstr (mp_data p))\<rparr>"

definition processReplyCode :: "MilterPacket \<Rightarrow> milter \<Rightarrow> outcome \<times> milter" where
  "processReplyCode p m =
     (let c = cstr (mp_data p)
      in if length c < 3 then (Exception, m)
         else (Going, m\<lparr>replyCode := (atoi (take 3 c), drop 4 c)\<rparr>))"

text \<open>
  The header with the given number among those of a name is changed, or erased if the value is
  empty; the index of an erased header.
\<close>

fun change_header :: "nat \<Rightarrow> string \<Rightarrow> string \<Rightarrow> (string \<times> string) list \<Rightarrow> (string \<times> string) list \<times> nat option" where
  "change_header n key v [] = ([], None)"
| "change_header n key v ((k, x) # hs) =
     (if strcaseeq k key \<and> n = 1
      then if v = [] then (hs, Some 0) else ((k, v) # hs, None)
      else map_prod (Cons (k, x)) (map_option Suc) (change_header (if strcaseeq k key then n - 1 else n) key v hs))"

text \<open>The name and the value in the data of a header packet.\<close>

definition header_fields :: "string \<Rightarrow> string \<times> string" where
  "header_fields d =
     (let key = takeWhile (\<lambda>c. c \<noteq> NUL) d
      in (key, takeWhile (\<lambda>c. c \<noteq> NUL) (drop (length key + 1) d)))"

text \<open>
  \<open>insertHeader\<close>. The number of headers less one is a 64-bit number, the index a 32-bit number:
  without headers both wrap around.
\<close>

definition insertHeader :: "MilterPacket \<Rightarrow> milter \<Rightarrow> outcome \<times> milter" where
  "insertHeader p m =
     (let size = length (ml_headers m); size_1 = (if size = 0 then 2 ^ 64 - 1 else size - 1);
          add = (mp_cmd p = SMFIR_ADDHEADER); offset = (if add then 0 else 4);
          index = (if add then size_1 mod 2 ^ 32 else net32 (take 4 (mp_data p)));
          (key, v) = header_fields (drop offset (mp_data p))
      in if length (mp_data p) < offset + 3 then (Exception, m)
         else if mp_cmd p = SMFIR_CHGHEADER
         then let (hs, gone) = change_header index key v (ml_headers m)
              in (Going, m\<lparr>ml_headers := hs, headers_invalid := gone\<rparr>)
         else let i = (if size_1 < index then size_1 else index)
              in if size < i then (Undefined, m)
                 else (Going, m\<lparr>ml_headers := take i (ml_headers m) @ (key, v) # drop i (ml_headers m),
                                headers_invalid := Some 0\<rparr>))"

definition apply_response :: "'x env_scheme \<Rightarrow> world \<Rightarrow> MilterPacket \<Rightarrow> milter \<Rightarrow> outcome \<times> milter" where
  "apply_response e w p m =
     (let c = mp_cmd p
      in if c = SMFIR_ADDRCPT \<or> c = SMFIR_DELRCPT then (Going, addDelRcpt e w p m)
         else if c = SMFIR_REPLBODY then (Going, replBody p m)
         else if c = SMFIR_CHGFROM then (Going, chgFrom p m)
         else if c = SMFIR_ADDHEADER \<or> c = SMFIR_INSHEADER \<or> c = SMFIR_CHGHEADER then insertHeader p m
         else if c = SMFIR_REPLYCODE then processReplyCode p m
         else (Going, m))"

text \<open>Responses that settle a command, and those that end the dialogue.\<close>

definition is_final :: "char \<Rightarrow> bool" where
  "is_final c \<longleftrightarrow> c \<in> set ''4acdfrty''"

definition ends_dialogue :: "char \<Rightarrow> bool" where
  "ends_dialogue c \<longleftrightarrow> c \<in> set ''4adfrty''"

definition settle :: "char \<Rightarrow> milter \<Rightarrow> milter" where
  "settle c m =
     (if is_final c \<and> (c \<noteq> SMFIR_ACCEPT \<or> lastAcceptRejectAction m \<noteq> SMFIR_DISCARD)
      then m\<lparr>lastAcceptRejectAction := c\<rparr> else m)"

definition checkResponse :: "'x env_scheme \<Rightarrow> world \<Rightarrow> milter \<Rightarrow> bool \<times> outcome \<times> milter" where
  "checkResponse e w m =
     (case readFromSocket (m\<lparr>rcpts_invalid := None, headers_invalid := None\<rparr>) of
        (None, m1) \<Rightarrow> (False, Exception, m1)
      | (Some r, m1) \<Rightarrow>
          (case apply_response e w r m1 of
             (Going, m2) \<Rightarrow>
               (is_final (mp_cmd r), if ends_dialogue (mp_cmd r) then MilterRejected else Going,
                settle (mp_cmd r) m2)
           | (r1, m2) \<Rightarrow> (False, r1, m2)))"

section \<open>The dialogue\<close>

lemma todo_in_update [simp]:
  "todo_in (m\<lparr>rcpts_invalid := x, headers_invalid := y\<rparr>) = todo_in m"
  "todo_in (settle c m) = todo_in m" "todo_in (addDelRcpt e w p m) = todo_in m"
  "todo_in (replBody p m) = todo_in m" "todo_in (chgFrom p m) = todo_in m"
  by (simp_all add: todo_in_def settle_def addDelRcpt_def replBody_def chgFrom_def Let_def)

lemma apply_response_todo [simp]: "todo_in (snd (apply_response e w p m)) = todo_in m"
  by (simp add: apply_response_def insertHeader_def processReplyCode_def Let_def split_beta)
     (simp add: todo_in_def)

lemma checkResponse_todo: "checkResponse e w m = (b, Going, m') \<Longrightarrow> todo_in m' + 5 \<le> todo_in m"
proof -
  assume c: "checkResponse e w m = (b, Going, m')"
  let ?m = "m\<lparr>rcpts_invalid := None, headers_invalid := None\<rparr>"
  obtain r m1 where r: "readFromSocket ?m = (Some r, m1)"
    using c by (auto simp: checkResponse_def split: prod.splits option.splits)
  obtain x m2 where x: "apply_response e w r m1 = (x, m2)" by fastforce
  then have "todo_in m' = todo_in m2" using c r by (auto simp: checkResponse_def split: outcome.splits)
  then show ?thesis using readFromSocket_todo [OF r] apply_response_todo [of e w r m1] x by simp
qed

text \<open>One command and its response.\<close>

definition ask :: "'x env_scheme \<Rightarrow> world \<Rightarrow> char \<Rightarrow> string \<Rightarrow> milter \<Rightarrow> outcome \<times> milter" where
  "ask e w c d m = andthen (writeToSocket \<lparr>mp_cmd = c, mp_data = d\<rparr> m) (\<lambda>m1. snd (checkResponse e w m1))"

lemma writeToSocket_todo [simp]: "todo_in (snd (writeToSocket p m)) = todo_in m"
  by (simp add: writeToSocket_def todo_in_def split_beta Let_def)

lemma ask_todo: "ask e w c d m = (Going, m') \<Longrightarrow> todo_in m' < todo_in m"
proof -
  assume a: "ask e w c d m = (Going, m')"
  obtain r m1 where m1: "writeToSocket \<lparr>mp_cmd = c, mp_data = d\<rparr> m = (r, m1)" by fastforce
  then have "todo_in m1 = todo_in m" using writeToSocket_todo by (metis snd_conv)
  moreover obtain b where "checkResponse e w m1 = (b, Going, m')"
    using a m1 by (auto simp: ask_def andthen_def split: outcome.splits) (metis prod.collapse)
  ultimately show ?thesis using checkResponse_todo by fastforce
qed

definition negotiateOptions :: "milter \<Rightarrow> outcome \<times> milter" where
  "negotiateOptions m =
     andthen (writeToSocket \<lparr>mp_cmd = CHR ''O'', mp_data = be32 MILTER_VERSION @ be32 63 @ be32 0\<rparr> m)
       (\<lambda>m1. case readFromSocket m1 of
               (None, m2) \<Rightarrow> (Exception, m2)
             | (Some r, m2) \<Rightarrow>
                 let d = mp_data r
                 in if length d \<noteq> 12 \<or> net32 (take 4 d) \<noteq> MILTER_VERSION then (Exception, m2)
                    else (Going, m2\<lparr>negProtocol := net32 (drop 8 d)\<rparr>))"

definition sendConnect :: "'x env_scheme \<Rightarrow> world \<Rightarrow> milter \<Rightarrow> outcome \<times> milter" where
  "sendConnect e w m =
     (let c = ml_conn m
      in ask e w (CHR ''C'')
           (mc_hostName c @ NUL # mc_family c # be16 (nat (mc_port c mod 65536)) @ mc_ipAddress c @ [NUL]) m)"

definition sendHelo :: "'x env_scheme \<Rightarrow> world \<Rightarrow> milter \<Rightarrow> outcome \<times> milter" where
  "sendHelo e w m = ask e w (CHR ''H'') (mc_heloHostName (ml_conn m) @ [NUL]) m"

definition sendMail :: "'x env_scheme \<Rightarrow> world \<Rightarrow> milter \<Rightarrow> outcome \<times> milter" where
  "sendMail e w m =
     andthen (writeToSocket \<lparr>mp_cmd = CHR ''D'', mp_data = ''M{auth_type}'' @ NUL #
                (if mc_isAuthenticated (ml_conn m) then mc_authMethod (ml_conn m) else []) @ [NUL]\<rparr> m)
       (\<lambda>m1. ask e w (CHR ''M'') (ml_from m1 @ [NUL]) m1)"

text \<open>
  The loops over recipients and headers hold an iterator at index \<open>i\<close> while the response is
  handled; going on with an invalid iterator is undefined.
\<close>

definition broken :: "nat option \<Rightarrow> nat \<Rightarrow> bool" where
  "broken k i \<longleftrightarrow> (case k of None \<Rightarrow> False | Some j \<Rightarrow> j \<le> i)"

function send_rcpts :: "'x env_scheme \<Rightarrow> world \<Rightarrow> nat \<Rightarrow> milter \<Rightarrow> outcome \<times> milter" where
  "send_rcpts e w i m =
     (if length (ml_rcpts m) \<le> i then (Going, m)
      else andthen (ask e w (CHR ''R'') (strAddress (ml_rcpts m ! i) @ [NUL]) m)
             (\<lambda>m1. if broken (rcpts_invalid m1) i then (Undefined, m1) else send_rcpts e w (i + 1) m1))"
  by pat_completeness auto

termination
  by (relation "measure (\<lambda>(e, w, i, m). todo_in m)") (auto dest: ask_todo)

function send_headers :: "'x env_scheme \<Rightarrow> world \<Rightarrow> nat \<Rightarrow> milter \<Rightarrow> outcome \<times> milter" where
  "send_headers e w i m =
     (if length (ml_headers m) \<le> i then (Going, m)
      else andthen (ask e w (CHR ''L'') (fst (ml_headers m ! i) @ NUL # snd (ml_headers m ! i) @ [NUL]) m)
             (\<lambda>m1. if broken (headers_invalid m1) i then (Undefined, m1) else send_headers e w (i + 1) m1))"
  by pat_completeness auto

termination
  by (relation "measure (\<lambda>(e, w, i, m). todo_in m)") (auto dest: ask_todo)

function send_body :: "'x env_scheme \<Rightarrow> world \<Rightarrow> nat \<Rightarrow> milter \<Rightarrow> outcome \<times> milter" where
  "send_body e w pos m =
     (if length (ml_body m) \<le> pos then (Going, m)
      else andthen (ask e w (CHR ''B'') (take MILTER_CHUNK_SIZE (drop pos (ml_body m))) m)
             (send_body e w (pos + MILTER_CHUNK_SIZE)))"
  by pat_completeness auto

termination
  by (relation "measure (\<lambda>(e, w, i, m). todo_in m)") (auto dest: ask_todo)

declare send_rcpts.simps [simp del] send_headers.simps [simp del] send_body.simps [simp del]

text \<open>The bits of the negotiated protocol that leave stages out.\<close>

definition skips :: "nat \<Rightarrow> milter \<Rightarrow> bool" where
  "skips k m \<longleftrightarrow> odd (negProtocol m div 2 ^ k)"

definition sendHeaders :: "'x env_scheme \<Rightarrow> world \<Rightarrow> milter \<Rightarrow> outcome \<times> milter" where
  "sendHeaders e w m =
     andthen (send_headers e w 0 m) (\<lambda>m1. if skips 6 m1 then (Going, m1) else ask e w (CHR ''N'') [] m1)"

definition stage :: "nat \<Rightarrow> (milter \<Rightarrow> outcome \<times> milter) \<Rightarrow> milter \<Rightarrow> outcome \<times> milter" where
  "stage k f m = (if skips k m then (Going, m) else f m)"

text \<open>The loop behind the end of the body, up to a response that settles the message.\<close>

function await_verdict :: "'x env_scheme \<Rightarrow> world \<Rightarrow> milter \<Rightarrow> outcome \<times> milter" where
  "await_verdict e w m =
     (case checkResponse e w m of
        (False, Going, m1) \<Rightarrow> await_verdict e w m1
      | (_, r, m1) \<Rightarrow> (r, m1))"
  by pat_completeness auto

termination
proof (relation "measure (\<lambda>(e, w, m). todo_in m)", goal_cases)
  case (2 e w m x y r m1)
  then have "checkResponse e w m = (False, Going, m1)" by simp
  from checkResponse_todo [OF this] show ?case by simp
qed simp

declare await_verdict.simps [simp del]

definition dialogue :: "'x env_scheme \<Rightarrow> world \<Rightarrow> milter \<Rightarrow> outcome \<times> milter" where
  "dialogue e w m =
     andthen (andthen (andthen (andthen (andthen (andthen (andthen (andthen
       (negotiateOptions m)
       (stage 0 (sendConnect e w)))
       (stage 1 (sendHelo e w)))
       (stage 2 (sendMail e w)))
       (stage 3 (send_rcpts e w 0)))
       (stage 5 (sendHeaders e w)))
       (stage 4 (send_body e w 0)))
       (ask e w (CHR ''E'') []))
       (await_verdict e w)"

text \<open>
  \<open>process\<close>: the verdict and the final state; \<open>None\<close> if the behaviour is undefined. A connection
  that cannot be opened is an exception.
\<close>

definition Milter_process :: "'x env_scheme \<Rightarrow> world \<Rightarrow> bool \<Rightarrow> milter \<Rightarrow> (char \<times> milter) option" where
  "Milter_process e w connected m =
     (case (if connected then dialogue e w m else (Exception, m)) of
        (Undefined, _) \<Rightarrow> None
      | (Exception, m1) \<Rightarrow> Some (defaultAction m1, m1\<lparr>lastAcceptRejectAction := defaultAction m1\<rparr>)
      | (_, m1) \<Rightarrow> Some (lastAcceptRejectAction m1, m1))"

text \<open>What the SMTP session takes over of it.\<close>

definition milter_message :: "milter \<Rightarrow> smtp_message" where
  "milter_message m = \<lparr>ms_headers = ml_headers m, ms_body = ml_body m, ms_from = ml_from m, ms_rcpts = ml_rcpts m\<rparr>"

end
