(* ===== verification/Milter_Correct.thy ===== *)
theory Milter_Correct
  imports Milter
begin

text \<open>
  What the client of content filters guarantees: packets that are written are read again, every
  verdict is one that the filter has sent or the configured default, recipients are added only on
  request; and what it gets wrong: a filter that answers the end of the body with a single
  CONTINUE is not heard, and a header is added before the last one.
\<close>

section \<open>Packets\<close>

definition rest_in :: "string \<Rightarrow> milter \<Rightarrow> milter" where
  "rest_in r m = m\<lparr>ml_sock := (ml_sock m)\<lparr>sk_in := r\<rparr>\<rparr>"

lemma rest_in_simps [simp]:
  "sk_in (ml_sock (rest_in r m)) = r" "ml_arrived (rest_in r m) = ml_arrived m"
  "rest_in q (rest_in r m) = rest_in q m" "sk_room (ml_sock (rest_in r m)) = sk_room (ml_sock m)"
  by (simp_all add: rest_in_def)

lemma read_bytes_here:
  assumes "ml_arrived m = []" and "sk_in (ml_sock m) = d @ r" and "length d = n" and "0 < n"
  shows "read_bytes n m = (Some d, rest_in r m)"
proof -
  have "m\<lparr>ml_arrived := []\<rparr> = m" using assms(1) by (cases m) simp
  then show ?thesis using assms by (auto simp: read_bytes_def sk_Read_def rest_in_def)
qed

lemma read_packet:
  assumes "mp_cmd p \<noteq> SMFIR_PROGRESS" and "length (mp_data p) < MILTER_MAX_PACKET"
    and "ml_arrived m = []" and "sk_in (ml_sock m) = packet_bytes p @ r"
  shows "readFromSocket m = (Some p, rest_in r m)"
proof -
  let ?d = "mp_data p"
  have n: "net32 (be32 (Suc (length ?d))) = Suc (length ?d)"
    using assms(2) by (simp add: MILTER_MAX_PACKET_def)
  have "read_bytes 4 m = (Some (be32 (Suc (length ?d))), rest_in (mp_cmd p # ?d @ r) m)"
    using assms(3,4) by (intro read_bytes_here) (simp_all add: packet_bytes_def)
  moreover have "read_bytes (Suc 0) (rest_in (mp_cmd p # ?d @ r) m) = (Some [mp_cmd p], rest_in (?d @ r) m)"
    using assms(3) read_bytes_here [of "rest_in (mp_cmd p # ?d @ r) m" "[mp_cmd p]" "?d @ r" 1] by simp
  moreover have "read_bytes (length ?d) (rest_in (?d @ r) m) = (Some ?d, rest_in r m)" if "?d \<noteq> []"
    using assms(3) that read_bytes_here [of "rest_in (?d @ r) m" ?d r "length ?d"] by simp
  moreover have "\<lparr>mp_cmd = mp_cmd p, mp_data = []\<rparr> = p" if "?d = []" using that by (cases p) simp
  ultimately show ?thesis
    using assms(1,2) n by (subst readFromSocket.simps) auto
qed

lemma write_packet:
  assumes "sk_room (ml_sock m) = []"
  shows "writeToSocket p m = (Going, m\<lparr>ml_sock := (ml_sock m)\<lparr>sk_out := sk_out (ml_sock m) @ packet_bytes p\<rparr>\<rparr>)"
  using assms by (simp add: writeToSocket_def sk_Write_all)

text \<open>
  What one side writes as a packet the other side reads as the same packet, and what follows in
  the stream stays.
\<close>

theorem Milter_packet_roundtrip:
  assumes "mp_cmd p \<noteq> SMFIR_PROGRESS" and "length (mp_data p) < MILTER_MAX_PACKET"
    and "writeToSocket p a = (Going, a')" and "sk_room (ml_sock a) = []" and "sk_out (ml_sock a) = []"
    and "ml_arrived b = []" and "sk_in (ml_sock b) = sk_out (ml_sock a') @ r"
  shows "readFromSocket b = (Some p, rest_in r b)"
  using assms write_packet [OF assms(4), of p] by (intro read_packet) auto

section \<open>A filter that lets everything pass\<close>

abbreviation continue_packet :: MilterPacket where
  "continue_packet \<equiv> \<lparr>mp_cmd = SMFIR_CONTINUE, mp_data = []\<rparr>"

text \<open>The input holds that many CONTINUE packets, and nothing hinders reading and writing.\<close>

definition feeds :: "nat \<Rightarrow> milter \<Rightarrow> bool" where
  "feeds k m \<longleftrightarrow> ml_arrived m = [] \<and> sk_room (ml_sock m) = [] \<and>
     sk_in (ml_sock m) = concat (replicate k (packet_bytes continue_packet))"

definition untouched :: "milter \<Rightarrow> milter \<Rightarrow> bool" where
  "untouched m m' \<longleftrightarrow> milter_message m' = milter_message m \<and> negProtocol m' = negProtocol m \<and>
     defaultAction m' = defaultAction m"

lemma untouched_refl [simp]: "untouched m m"
  by (simp add: untouched_def)

lemma untouched_trans: "untouched a b \<Longrightarrow> untouched b c \<Longrightarrow> untouched a c"
  by (simp add: untouched_def)

lemma checkResponse_continue:
  assumes "feeds (Suc k) m"
  shows "\<exists>m'. checkResponse e w m = (True, Going, m') \<and> feeds k m' \<and> untouched m m' \<and>
    rcpts_invalid m' = None \<and> headers_invalid m' = None \<and> lastAcceptRejectAction m' = SMFIR_CONTINUE"
proof -
  let ?m = "m\<lparr>rcpts_invalid := None, headers_invalid := None\<rparr>"
  let ?r = "concat (replicate k (packet_bytes continue_packet))"
  have "readFromSocket ?m = (Some continue_packet, rest_in ?r ?m)"
    using assms by (intro read_packet) (simp_all add: feeds_def MILTER_MAX_PACKET_def)
  then show ?thesis
    using assms by (auto simp: checkResponse_def apply_response_def is_final_def ends_dialogue_def settle_def
        feeds_def untouched_def milter_message_def rest_in_def)
qed

lemma checkResponse_nothing:
  assumes "feeds 0 m"
  shows "\<exists>m'. checkResponse e w m = (False, Exception, m') \<and> untouched m m'"
proof -
  let ?m = "m\<lparr>rcpts_invalid := None, headers_invalid := None\<rparr>"
  obtain m1 where "read_bytes 4 ?m = (None, m1)" "untouched m m1"
    using assms by (auto simp: read_bytes_def sk_Read_def feeds_def untouched_def milter_message_def)
  then show ?thesis by (simp add: checkResponse_def readFromSocket.simps [of ?m])
qed

lemma ask_continue:
  assumes "feeds (Suc k) m"
  shows "\<exists>m'. ask e w c d m = (Going, m') \<and> feeds k m' \<and> untouched m m' \<and>
    \<not> broken (rcpts_invalid m') i \<and> \<not> broken (headers_invalid m') i"
proof -
  let ?m = "m\<lparr>ml_sock := (ml_sock m)\<lparr>sk_out := sk_out (ml_sock m) @ packet_bytes \<lparr>mp_cmd = c, mp_data = d\<rparr>\<rparr>\<rparr>"
  have "feeds (Suc k) ?m" "untouched m ?m" using assms by (simp_all add: feeds_def untouched_def milter_message_def)
  moreover have "ask e w c d m = snd (checkResponse e w ?m)"
    using assms by (simp add: ask_def write_packet feeds_def andthen_def)
  ultimately show ?thesis
    using checkResponse_continue [of k ?m e w] untouched_trans [of m ?m] by (auto simp: broken_def)
qed

text \<open>A stage that asks \<open>n\<close> questions.\<close>

definition asks :: "nat \<Rightarrow> (milter \<Rightarrow> outcome \<times> milter) \<Rightarrow> milter \<Rightarrow> bool" where
  "asks n f m \<longleftrightarrow> (\<forall>k. feeds (n + k) m \<longrightarrow> (\<exists>m'. f m = (Going, m') \<and> feeds k m' \<and> untouched m m'))"

lemma asks_ask: "asks 1 (ask e w c d) m"
  using ask_continue [of _ m e w c d] by (auto simp: asks_def)

lemma asks_andthen:
  assumes "asks a f m" and "\<And>m'. untouched m m' \<Longrightarrow> asks b g m'"
  shows "asks (a + b) (\<lambda>x. andthen (f x) g) m"
  unfolding asks_def
proof (intro allI impI)
  fix k
  assume "feeds (a + b + k) m"
  then have "feeds (a + (b + k)) m" by (simp add: add.assoc)
  then obtain m1 where m1: "f m = (Going, m1)" "feeds (b + k) m1" "untouched m m1"
    using assms(1) by (auto simp: asks_def)
  obtain m2 where "g m1 = (Going, m2)" "feeds k m2" "untouched m1 m2"
    using assms(2) [OF m1(3)] m1(2) by (auto simp: asks_def)
  then show "\<exists>m'. andthen (f m) g = (Going, m') \<and> feeds k m' \<and> untouched m m'"
    using m1 untouched_trans by (auto simp: andthen_def)
qed

lemma asks_write:
  assumes "\<And>m'. untouched m m' \<Longrightarrow> asks b g m'"
  shows "asks b (\<lambda>x. andthen (writeToSocket p x) g) m"
proof -
  have "asks 0 (writeToSocket p) m"
    by (auto simp: asks_def feeds_def write_packet untouched_def milter_message_def)
  from asks_andthen [OF this assms] show ?thesis by simp
qed

lemma untouched_simps:
  assumes "untouched m m'"
  shows "ml_rcpts m' = ml_rcpts m" "ml_headers m' = ml_headers m" "ml_body m' = ml_body m"
    "skips k m' = skips k m"
  using assms by (simp_all add: untouched_def milter_message_def skips_def)

lemma length_diff: "length xs - i = Suc n \<Longrightarrow> \<not> length xs \<le> i"
  by simp

lemma asks_rcpts: "length (ml_rcpts m) - i = n \<Longrightarrow> asks n (send_rcpts e w i) m"
proof (induction n arbitrary: i m)
  case 0
  then show ?case by (simp add: asks_def send_rcpts.simps [of e w i m])
next
  case (Suc n)
  show ?case
    unfolding asks_def
  proof (intro allI impI)
    fix k
    assume f: "feeds (Suc n + k) m"
    then obtain m1 where m1: "ask e w (CHR ''R'') (strAddress (ml_rcpts m ! i) @ [NUL]) m = (Going, m1)"
        "feeds (n + k) m1" "untouched m m1" "\<not> broken (rcpts_invalid m1) i"
      using ask_continue [of "n + k" m] by fastforce
    obtain m2 where "send_rcpts e w (i + 1) m1 = (Going, m2)" "feeds k m2" "untouched m1 m2"
      using Suc.IH [of m1 "i + 1"] Suc.prems m1 untouched_simps(1) [OF m1(3)] by (fastforce simp: asks_def)
    moreover have "send_rcpts e w i m = send_rcpts e w (i + 1) m1"
      using m1(1,4) length_diff [OF Suc.prems] by (simp add: send_rcpts.simps [of e w i m] andthen_def)
    ultimately show "\<exists>m'. send_rcpts e w i m = (Going, m') \<and> feeds k m' \<and> untouched m m'"
      using untouched_trans [OF m1(3)] by auto
  qed
qed

lemma asks_headers: "length (ml_headers m) - i = n \<Longrightarrow> asks n (send_headers e w i) m"
proof (induction n arbitrary: i m)
  case 0
  then show ?case by (simp add: asks_def send_headers.simps [of e w i m])
next
  case (Suc n)
  show ?case
    unfolding asks_def
  proof (intro allI impI)
    fix k
    assume f: "feeds (Suc n + k) m"
    let ?d = "fst (ml_headers m ! i) @ NUL # snd (ml_headers m ! i) @ [NUL]"
    obtain m1 where m1: "ask e w (CHR ''L'') ?d m = (Going, m1)"
        "feeds (n + k) m1" "untouched m m1" "\<not> broken (headers_invalid m1) i"
      using f ask_continue [of "n + k" m] by fastforce
    obtain m2 where "send_headers e w (i + 1) m1 = (Going, m2)" "feeds k m2" "untouched m1 m2"
      using Suc.IH [of m1 "i + 1"] Suc.prems m1 untouched_simps(2) [OF m1(3)] by (fastforce simp: asks_def)
    moreover have "send_headers e w i m = send_headers e w (i + 1) m1"
      using m1(1,4) length_diff [OF Suc.prems] by (simp add: send_headers.simps [of e w i m] andthen_def)
    ultimately show "\<exists>m'. send_headers e w i m = (Going, m') \<and> feeds k m' \<and> untouched m m'"
      using untouched_trans [OF m1(3)] by auto
  qed
qed

definition chunks :: "nat \<Rightarrow> nat" where
  "chunks n = (n + (MILTER_CHUNK_SIZE - 1)) div MILTER_CHUNK_SIZE"

lemma chunks_step: "0 < n \<Longrightarrow> chunks n = Suc (chunks (n - MILTER_CHUNK_SIZE))"
  unfolding chunks_def MILTER_CHUNK_SIZE_def
  by (cases "n \<le> 65535") (simp_all add: div_if [of "n + 65534"] div_if [of "n - 1"] le_div_geq)

lemma asks_body: "chunks (length (ml_body m) - pos) = n \<Longrightarrow> asks n (send_body e w pos) m"
proof (induction n arbitrary: pos m)
  case 0
  then have "length (ml_body m) \<le> pos" using chunks_step [of "length (ml_body m) - pos"] by fastforce
  then show ?case by (simp add: asks_def send_body.simps [of e w pos m])
next
  case (Suc n)
  then have p: "\<not> length (ml_body m) \<le> pos" by (auto simp: chunks_def MILTER_CHUNK_SIZE_def)
  then have "chunks (length (ml_body m) - (pos + MILTER_CHUNK_SIZE)) = n"
    using Suc.prems chunks_step [of "length (ml_body m) - pos"] by simp
  then have "asks n (send_body e w (pos + MILTER_CHUNK_SIZE)) m1" if "untouched m m1" for m1
    using Suc.IH untouched_simps(3) [OF that] by simp
  then have "asks (1 + n) (\<lambda>x. andthen (ask e w (CHR ''B'') (take MILTER_CHUNK_SIZE (drop pos (ml_body m))) x)
      (send_body e w (pos + MILTER_CHUNK_SIZE))) m"
    by (intro asks_andthen asks_ask) blast
  then show ?case using p by (simp add: asks_def send_body.simps [of e w pos m])
qed

lemma asks_stage:
  assumes "\<not> skips k m \<Longrightarrow> asks n f m"
  shows "asks (if skips k m then 0 else n) (stage k f) m"
  using assms by (auto simp: asks_def stage_def)

text \<open>How many commands a filter with the negotiated protocol answers.\<close>

definition questions :: "nat \<Rightarrow> smtp_message \<Rightarrow> nat" where
  "questions prot m =
     (let on = (\<lambda>k n. if odd (prot div 2 ^ k) then 0 else n)
      in on 0 1 + on 1 1 + on 2 1 + on 3 (length (ms_rcpts m)) +
         on 5 (length (ms_headers m) + on 6 1) + on 4 (chunks (length (ms_body m))) + 1)"

lemma asks_headers_stage:
  "asks (length (ml_headers m) + (if skips 6 m then 0 else 1)) (sendHeaders e w) m"
  unfolding sendHeaders_def
proof (rule asks_andthen)
  show "asks (length (ml_headers m)) (send_headers e w 0) m" by (rule asks_headers) simp
  show "asks (if skips 6 m then 0 else 1) (\<lambda>m1. if skips 6 m1 then (Going, m1) else ask e w (CHR ''N'') [] m1) m'"
    if "untouched m m'" for m'
    using asks_ask [of e w _ "[]" m'] untouched_simps(4) [OF that] by (simp add: asks_def)
qed

lemma asks_stages:
  "asks (questions (negProtocol m) (milter_message m))
     (\<lambda>x. andthen (andthen (andthen (andthen (andthen (andthen (stage 0 (sendConnect e w) x)
        (stage 1 (sendHelo e w))) (stage 2 (sendMail e w))) (stage 3 (send_rcpts e w 0)))
        (stage 5 (sendHeaders e w))) (stage 4 (send_body e w 0))) (ask e w (CHR ''E'') [])) m"
proof -
  let ?on = "\<lambda>k n. if skips k m then 0 else n"
  have st: "asks (?on k n) (stage k f) m'" if "untouched m m'" "asks n f m'" for k n f m'
    using asks_stage [of k m' n f] that untouched_simps(4) [OF that(1)] by simp
  have 0: "asks 1 (sendConnect e w) m'" "asks 1 (sendHelo e w) m'" for m'
    using asks_ask by (simp_all add: asks_def sendConnect_def sendHelo_def Let_def)
  have 2: "asks 1 (sendMail e w) m'" for m'
  proof -
    have "asks 1 (\<lambda>m1. ask e w (CHR ''M'') (ml_from m1 @ [NUL]) m1) x" for x
      using asks_ask by (simp add: asks_def)
    from asks_write [OF this] show ?thesis unfolding sendMail_def asks_def by blast
  qed
  have 3: "asks (length (ml_rcpts m)) (send_rcpts e w 0) m'" if "untouched m m'" for m'
    using asks_rcpts [of m' 0 _ e w] untouched_simps(1) [OF that] by simp
  have 4: "asks (chunks (length (ml_body m))) (send_body e w 0) m'" if "untouched m m'" for m'
    using asks_body [of m' 0 _ e w] untouched_simps(3) [OF that] by simp
  have 5: "asks (length (ml_headers m) + ?on 6 1) (sendHeaders e w) m'" if "untouched m m'" for m'
    using asks_headers_stage [of m' e w] by (simp only: untouched_simps(2,4) [OF that])
  have "asks (?on 0 1 + ?on 1 1 + ?on 2 1 + ?on 3 (length (ml_rcpts m)) + ?on 5 (length (ml_headers m) + ?on 6 1) +
      ?on 4 (chunks (length (ml_body m))) + 1)
     (\<lambda>x. andthen (andthen (andthen (andthen (andthen (andthen (stage 0 (sendConnect e w) x)
        (stage 1 (sendHelo e w))) (stage 2 (sendMail e w))) (stage 3 (send_rcpts e w 0)))
        (stage 5 (sendHeaders e w))) (stage 4 (send_body e w 0))) (ask e w (CHR ''E'') [])) m"
    by (intro asks_andthen st 0 2 3 4 5 asks_ask) simp_all
  moreover have "questions (negProtocol m) (milter_message m) =
      ?on 0 1 + ?on 1 1 + ?on 2 1 + ?on 3 (length (ml_rcpts m)) + ?on 5 (length (ml_headers m) + ?on 6 1) +
      ?on 4 (chunks (length (ml_body m))) + 1"
    unfolding questions_def Let_def milter_message_def skips_def smtp_message.simps by (rule refl)
  ultimately show ?thesis by (simp only:)
qed

lemma negotiate:
  assumes "ml_arrived m = []" and "sk_room (ml_sock m) = []" and "prot < 4294967296" and "length acts = 4"
    and "sk_in (ml_sock m) = packet_bytes \<lparr>mp_cmd = CHR ''O'', mp_data = be32 2 @ acts @ be32 prot\<rparr> @ r"
  shows "\<exists>m'. negotiateOptions m = (Going, m') \<and> ml_arrived m' = [] \<and> sk_room (ml_sock m') = [] \<and>
    sk_in (ml_sock m') = r \<and> milter_message m' = milter_message m \<and>
    negProtocol m' = prot \<and> defaultAction m' = defaultAction m"
proof -
  let ?p = "\<lparr>mp_cmd = CHR ''O'', mp_data = be32 2 @ acts @ be32 prot\<rparr>"
  let ?q = "\<lparr>mp_cmd = CHR ''O'', mp_data = be32 MILTER_VERSION @ be32 63 @ be32 0\<rparr>"
  let ?m = "m\<lparr>ml_sock := (ml_sock m)\<lparr>sk_out := sk_out (ml_sock m) @ packet_bytes ?q\<rparr>\<rparr>"
  have "readFromSocket ?m = (Some ?p, rest_in r ?m)"
    using assms by (intro read_packet) (simp_all add: MILTER_MAX_PACKET_def)
  moreover have "drop 8 (be32 2 @ acts @ be32 prot) = be32 prot" using assms(4) by simp
  ultimately show ?thesis
    using assms(1-4) write_packet [OF assms(2), of ?q]
    by (auto simp: negotiateOptions_def andthen_def Let_def MILTER_VERSION_def milter_message_def rest_in_def)
qed

text \<open>
  C18: a filter that answers every command with CONTINUE: if it sends one response for each command it
  has been asked, as many as \<open>questions\<close> counts, the end of the body included, the client goes on
  waiting and takes the default action; only a further response is taken as the verdict. The
  message is left as it was.
\<close>

theorem Milter_lone_continue:
  assumes "sk_in s = packet_bytes \<lparr>mp_cmd = CHR ''O'', mp_data = be32 2 @ acts @ be32 prot\<rparr> @
      concat (replicate (questions prot msg + k) (packet_bytes continue_packet))"
    and "sk_room s = []" and "prot < 4294967296" and "length acts = 4"
  shows "\<exists>m'. Milter_process e w True (new_milter s [] c msg dflt r) =
      Some (if k = 0 then dflt else SMFIR_CONTINUE, m') \<and> milter_message m' = msg"
proof -
  let ?m = "new_milter s [] c msg dflt r"
  have n: "milter_message ?m = msg" "defaultAction ?m = dflt" by (simp_all add: new_milter_def milter_message_def)
  obtain m1 where m1: "negotiateOptions ?m = (Going, m1)" "feeds (questions prot msg + k) m1"
      "milter_message m1 = msg" "negProtocol m1 = prot" "defaultAction m1 = dflt"
    using negotiate [of ?m prot acts] assms n by (fastforce simp: new_milter_def feeds_def)
  obtain m2 where m2: "feeds k m2" "untouched m1 m2" "dialogue e w ?m = await_verdict e w m2"
    using asks_stages [of m1 e w] m1 by (auto simp: asks_def dialogue_def andthen_def)
  then have m: "milter_message m2 = msg" "defaultAction m2 = dflt" using m1 by (simp_all add: untouched_def)
  show ?thesis
  proof (cases k)
    case 0
    then obtain m3 where "checkResponse e w m2 = (False, Exception, m3)" "untouched m2 m3"
      using checkResponse_nothing m2(1) by blast
    then show ?thesis
      using 0 m m2(3)
      by (simp add: Milter_process_def await_verdict.simps [of e w m2] untouched_def) (simp add: milter_message_def)
  next
    case (Suc j)
    then obtain m3 where "checkResponse e w m2 = (True, Going, m3)" "untouched m2 m3"
        "lastAcceptRejectAction m3 = SMFIR_CONTINUE"
      using checkResponse_continue m2(1) by blast
    then show ?thesis
      using Suc m m2(3) by (simp add: Milter_process_def await_verdict.simps [of e w m2] untouched_def)
  qed
qed

section \<open>Verdicts and recipients come from the filter\<close>

text \<open>Somewhere in the stream stands a packet with the command.\<close>

definition sent :: "string \<Rightarrow> char \<Rightarrow> bool" where
  "sent b v \<longleftrightarrow> (\<exists>pre l d post. b = pre @ l @ v # d @ post \<and> length l = 4 \<and> net32 l = 1 + length d)"

lemma sent_behind: "sent b v \<Longrightarrow> sent (a @ b) v"
  by (auto simp: sent_def) (metis append.assoc)

definition only_io :: "milter \<Rightarrow> milter \<Rightarrow> bool" where
  "only_io m m' \<longleftrightarrow> m' = m\<lparr>ml_sock := ml_sock m', ml_arrived := ml_arrived m'\<rparr> \<and>
     (\<exists>pre. sk_in (ml_sock m) = pre @ sk_in (ml_sock m'))"

lemma only_io_refl [simp]: "only_io m m"
  by (simp add: only_io_def)

lemma only_io_trans: "only_io a b \<Longrightarrow> only_io b c \<Longrightarrow> only_io a c"
  unfolding only_io_def by (cases a, cases b, cases c) auto

lemma read_bytes_taken:
  assumes "read_bytes n m = (x, m')"
  obtains k where "m' = m\<lparr>ml_sock := (ml_sock m)\<lparr>sk_in := drop k (sk_in (ml_sock m))\<rparr>, ml_arrived := ml_arrived m'\<rparr>"
    and "\<And>d. x = Some d \<Longrightarrow> d = take k (sk_in (ml_sock m)) \<and> length d = n"
proof (rule that)
  let ?k = "case ml_arrived m of Some k # _ \<Rightarrow> min (max 1 k) n | _ \<Rightarrow> n"
  show "m' = m\<lparr>ml_sock := (ml_sock m)\<lparr>sk_in := drop ?k (sk_in (ml_sock m))\<rparr>, ml_arrived := ml_arrived m'\<rparr>"
    "\<And>d. x = Some d \<Longrightarrow> d = take ?k (sk_in (ml_sock m)) \<and> length d = n"
    using assms by (auto simp: read_bytes_def sk_Read_def Let_def split: if_splits)
qed

lemma read_bytes_io:
  assumes "read_bytes n m = (x, m')"
  shows "only_io m m'" "x = Some d \<Longrightarrow> sk_in (ml_sock m) = d @ sk_in (ml_sock m') \<and> length d = n"
proof -
  obtain k where k: "m' = m\<lparr>ml_sock := (ml_sock m)\<lparr>sk_in := drop k (sk_in (ml_sock m))\<rparr>, ml_arrived := ml_arrived m'\<rparr>"
      "\<And>d. x = Some d \<Longrightarrow> d = take k (sk_in (ml_sock m)) \<and> length d = n"
    using read_bytes_taken [OF assms] by metis
  have s: "ml_sock m' = (ml_sock m)\<lparr>sk_in := drop k (sk_in (ml_sock m))\<rparr>" by (subst k(1)) simp
  have "sk_in (ml_sock m) = take k (sk_in (ml_sock m)) @ sk_in (ml_sock m')" by (simp add: s)
  then show "only_io m m'" using k(1) s unfolding only_io_def by metis
  show "x = Some d \<Longrightarrow> sk_in (ml_sock m) = d @ sk_in (ml_sock m') \<and> length d = n" using k(2) [of d] s by auto
qed

lemma readFromSocket_sent:
  "readFromSocket m = (x, m') \<Longrightarrow> only_io m m' \<and> (\<forall>p. x = Some p \<longrightarrow> sent (sk_in (ml_sock m)) (mp_cmd p))"
proof (induction m rule: readFromSocket.induct)
  case (1 m)
  obtain l m1 where l: "read_bytes 4 m = (l, m1)" by fastforce
  show ?case
  proof (cases "\<exists>b. l = Some b \<and> 1 \<le> net32 b \<and> net32 b \<le> MILTER_MAX_PACKET")
    case False
    then show ?thesis
      using 1(2) l read_bytes_io(1) [OF l] by (subst (asm) readFromSocket.simps) (auto split: option.splits if_splits)
  next
    case True
    then obtain b where b: "l = Some b" "1 \<le> net32 b" "net32 b \<le> MILTER_MAX_PACKET" by blast
    obtain c m2 where c: "read_bytes 1 m1 = (c, m2)" by fastforce
    have io: "only_io m m2" using only_io_trans read_bytes_io(1) l c by blast
    show ?thesis
    proof (cases c)
      case None
      then show ?thesis using 1(2) l b c io by (subst (asm) readFromSocket.simps) auto
    next
      case (Some cs)
      then obtain v where v: "cs = [v]" "sk_in (ml_sock m) = b @ v # sk_in (ml_sock m2)" "length b = 4"
        using read_bytes_io(2) [OF l b(1)] read_bytes_io(2) [OF c Some] by (auto simp: length_Suc_conv)
      show ?thesis
      proof (cases "v = SMFIR_PROGRESS")
        case True
        then have r: "readFromSocket m2 = (x, m')"
          using 1(2) l b c Some v(1) by (subst (asm) readFromSocket.simps) auto
        have "only_io m2 m' \<and> (\<forall>p. x = Some p \<longrightarrow> sent (sk_in (ml_sock m2)) (mp_cmd p))"
          using 1(1) [OF l [symmetric] b(1) _ c [symmetric] Some _ r] b(2,3) True v(1) by simp
        then show ?thesis using only_io_trans [OF io] v(2) sent_behind [of _ _ "b @ [v]"] by auto
      next
        case False
        obtain y m3 where y: "read_bytes (net32 b - 1) m2 = (y, m3)" by fastforce
        have s: "sent (sk_in (ml_sock m)) v" if "y = Some d \<or> net32 b = 1 \<and> d = []" for d
        proof -
          have "\<exists>r. sk_in (ml_sock m) = [] @ b @ v # d @ r \<and> net32 b = 1 + length d"
            using that read_bytes_io(2) [OF y, of d] v(2) b(2) by auto
          then show ?thesis using v(3) unfolding sent_def by blast
        qed
        have "y = Some d \<Longrightarrow> sent (sk_in (ml_sock m)) v" "net32 b = 1 \<Longrightarrow> sent (sk_in (ml_sock m)) v" for d
          using s by blast+
        then show ?thesis
          using 1(2) l b c Some v(1) False io only_io_trans [OF io read_bytes_io(1) [OF y]] y
          by (subst (asm) readFromSocket.simps) (auto split: if_splits option.splits)
      qed
    qed
  qed
qed

text \<open>
  What holds of the state in the dialogue with a filter that sends \<open>b\<close>, for a message with
  recipients \<open>R\<close> and the default action \<open>d\<close>.
\<close>

definition rcpt_asked :: "'x env_scheme \<Rightarrow> world \<Rightarrow> string \<Rightarrow> SMTPRecipient \<Rightarrow> bool" where
  "rcpt_asked e w b r \<longleftrightarrow> sent b SMFIR_ADDRCPT \<and> iLocalRecipient r = LookupUser e w (strAddress r) False False"

definition heard_ok :: "'x env_scheme \<Rightarrow> world \<Rightarrow> string \<Rightarrow> SMTPRecipient set \<Rightarrow> char \<Rightarrow> milter \<Rightarrow> bool" where
  "heard_ok e w b R d m \<longleftrightarrow> (\<exists>pre. b = pre @ sk_in (ml_sock m)) \<and> defaultAction m = d \<and>
     (\<forall>r \<in> set (ml_rcpts m). r \<in> R \<or> rcpt_asked e w b r)"

definition outcome_ok :: "'x env_scheme \<Rightarrow> world \<Rightarrow> string \<Rightarrow> SMTPRecipient set \<Rightarrow> char \<Rightarrow> outcome \<times> milter \<Rightarrow> bool" where
  "outcome_ok e w b R d r \<longleftrightarrow>
     (case fst r of
        Going \<Rightarrow> heard_ok e w b R d (snd r) \<and> lastAcceptRejectAction (snd r) \<noteq> SMFIR_DISCARD
      | MilterRejected \<Rightarrow> heard_ok e w b R d (snd r) \<and> sent b (lastAcceptRejectAction (snd r))
      | Exception \<Rightarrow> heard_ok e w b R d (snd r)
      | Undefined \<Rightarrow> True)"

lemma outcome_ok_andthen:
  assumes "outcome_ok e w b R d r" and "\<And>m. outcome_ok e w b R d (Going, m) \<Longrightarrow> outcome_ok e w b R d (f m)"
  shows "outcome_ok e w b R d (andthen r f)"
  using assms by (cases r; cases "fst r") (auto simp: andthen_def)

lemma outcome_ok_step:
  assumes "outcome_ok e w b R d r" and "\<And>m. r = (Going, m) \<Longrightarrow> outcome_ok e w b R d (f m)"
  shows "outcome_ok e w b R d (andthen r f)"
  using assms by (cases r; cases "fst r") (auto simp: andthen_def)

lemma only_io_ok:
  assumes "only_io m m'"
  shows "heard_ok e w b R d m \<Longrightarrow> heard_ok e w b R d m'" "lastAcceptRejectAction m' = lastAcceptRejectAction m"
proof -
  obtain pre where m': "m' = m\<lparr>ml_sock := ml_sock m', ml_arrived := ml_arrived m'\<rparr>"
      "sk_in (ml_sock m) = pre @ sk_in (ml_sock m')"
    using assms by (auto simp: only_io_def)
  have "defaultAction m' = defaultAction m" "ml_rcpts m' = ml_rcpts m" by (subst m'(1), simp)+
  then show "heard_ok e w b R d m \<Longrightarrow> heard_ok e w b R d m'"
    using m'(2) by (auto simp: heard_ok_def intro: exI [of _ "_ @ pre"])
  show "lastAcceptRejectAction m' = lastAcceptRejectAction m" by (subst m'(1)) simp
qed

lemma outcome_ok_Undefined [simp]: "outcome_ok e w b R d (Undefined, m)"
  by (simp add: outcome_ok_def)

lemma apply_response_ok:
  assumes "heard_ok e w b R d m" and "mp_cmd p = SMFIR_ADDRCPT \<Longrightarrow> sent b SMFIR_ADDRCPT"
  shows "heard_ok e w b R d (snd (apply_response e w p m))"
    "lastAcceptRejectAction (snd (apply_response e w p m)) = lastAcceptRejectAction m"
  using assms
  by (auto simp: apply_response_def addDelRcpt_def insertHeader_def replBody_def chgFrom_def processReplyCode_def
      heard_ok_def rcpt_asked_def Let_def split_beta split: if_splits)

lemma apply_response_rejects_not: "fst (apply_response e w p m) \<noteq> MilterRejected"
  by (simp add: apply_response_def insertHeader_def processReplyCode_def Let_def split_beta)

lemma checkResponse_ok:
  assumes "outcome_ok e w b R d (Going, m)" and "checkResponse e w m = (fin, r, m')"
  shows "outcome_ok e w b R d (r, m')" and "fin \<Longrightarrow> r = Going \<Longrightarrow> sent b (lastAcceptRejectAction m')"
proof -
  let ?m = "m\<lparr>rcpts_invalid := None, headers_invalid := None\<rparr>"
  obtain x m1 where x: "readFromSocket ?m = (x, m1)" by fastforce
  have m: "heard_ok e w b R d ?m" "lastAcceptRejectAction ?m \<noteq> SMFIR_DISCARD"
    using assms(1) by (simp_all add: outcome_ok_def heard_ok_def)
  have m1: "heard_ok e w b R d m1" "lastAcceptRejectAction m1 \<noteq> SMFIR_DISCARD"
    using readFromSocket_sent [OF x] only_io_ok [of ?m m1] m by auto
  have "outcome_ok e w b R d (r, m') \<and> (fin \<longrightarrow> r = Going \<longrightarrow> sent b (lastAcceptRejectAction m'))"
  proof (cases x)
    case None
    then show ?thesis using assms(2) x m1 by (auto simp: checkResponse_def outcome_ok_def)
  next
    case (Some p)
    obtain pre where "b = pre @ sk_in (ml_sock m)" using m(1) by (auto simp: heard_ok_def)
    then have s: "sent b (mp_cmd p)" using readFromSocket_sent [OF x] Some sent_behind by auto
    obtain y m2 where y: "apply_response e w p m1 = (y, m2)" by fastforce
    have m2: "heard_ok e w b R d m2" "lastAcceptRejectAction m2 \<noteq> SMFIR_DISCARD"
      using apply_response_ok [OF m1(1)] s m1(2) y by (metis snd_conv)+
    have "heard_ok e w b R d (settle c m2)" for c using m2(1) by (simp add: settle_def heard_ok_def)
    moreover have "is_final (mp_cmd p) \<Longrightarrow> lastAcceptRejectAction (settle (mp_cmd p) m2) = mp_cmd p"
        "\<not> is_final (mp_cmd p) \<Longrightarrow> settle (mp_cmd p) m2 = m2"
      using m2(2) by (simp_all add: settle_def)
    moreover have "ends_dialogue c \<Longrightarrow> is_final c" "is_final c \<Longrightarrow> \<not> ends_dialogue c \<Longrightarrow> c \<noteq> SMFIR_DISCARD" for c
      by (auto simp: is_final_def ends_dialogue_def)
    ultimately show ?thesis
      using assms(2) x Some y m2 s apply_response_rejects_not [of e w p m1]
      by (cases y; cases "is_final (mp_cmd p)") (auto simp: checkResponse_def outcome_ok_def split: if_splits)
  qed
  then show "outcome_ok e w b R d (r, m')" and "fin \<Longrightarrow> r = Going \<Longrightarrow> sent b (lastAcceptRejectAction m')" by auto
qed

lemma writeToSocket_ok: "outcome_ok e w b R d (Going, m) \<Longrightarrow> outcome_ok e w b R d (writeToSocket p m)"
  by (simp add: writeToSocket_def outcome_ok_def heard_ok_def split_beta Let_def)

lemma ask_ok:
  assumes "outcome_ok e w b R d (Going, m)"
  shows "outcome_ok e w b R d (ask e w c x m)"
  unfolding ask_def
proof (rule outcome_ok_andthen [OF writeToSocket_ok [OF assms]])
  fix m1
  assume "outcome_ok e w b R d (Going, m1)"
  then show "outcome_ok e w b R d (snd (checkResponse e w m1))"
    using checkResponse_ok(1) by (metis prod.collapse)
qed

lemma send_rcpts_ok: "outcome_ok e w b R d (Going, m) \<Longrightarrow> outcome_ok e w b R d (send_rcpts e w i m)"
proof (induction "todo_in m" arbitrary: i m rule: less_induct)
  case less
  let ?d = "strAddress (ml_rcpts m ! i) @ [NUL]"
  have "outcome_ok e w b R d (if broken (rcpts_invalid m1) i then (Undefined, m1) else send_rcpts e w (i + 1) m1)"
    if "ask e w (CHR ''R'') ?d m = (Going, m1)" for m1
    using less.hyps [OF ask_todo [OF that]] ask_ok [OF less.prems, of "CHR ''R''" ?d] that by simp
  then show ?case
    using less.prems outcome_ok_step [OF ask_ok [OF less.prems]] by (subst send_rcpts.simps) simp
qed

lemma send_headers_ok: "outcome_ok e w b R d (Going, m) \<Longrightarrow> outcome_ok e w b R d (send_headers e w i m)"
proof (induction "todo_in m" arbitrary: i m rule: less_induct)
  case less
  let ?d = "fst (ml_headers m ! i) @ NUL # snd (ml_headers m ! i) @ [NUL]"
  have "outcome_ok e w b R d (if broken (headers_invalid m1) i then (Undefined, m1) else send_headers e w (i + 1) m1)"
    if "ask e w (CHR ''L'') ?d m = (Going, m1)" for m1
    using less.hyps [OF ask_todo [OF that]] ask_ok [OF less.prems, of "CHR ''L''" ?d] that by simp
  then show ?case
    using less.prems outcome_ok_step [OF ask_ok [OF less.prems]] by (subst send_headers.simps) simp
qed

lemma send_body_ok: "outcome_ok e w b R d (Going, m) \<Longrightarrow> outcome_ok e w b R d (send_body e w i m)"
proof (induction "todo_in m" arbitrary: i m rule: less_induct)
  case less
  let ?d = "take MILTER_CHUNK_SIZE (drop i (ml_body m))"
  have "outcome_ok e w b R d (send_body e w (i + MILTER_CHUNK_SIZE) m1)"
    if "ask e w (CHR ''B'') ?d m = (Going, m1)" for m1
    using less.hyps [OF ask_todo [OF that]] ask_ok [OF less.prems, of "CHR ''B''" ?d] that by simp
  then show ?case
    using less.prems outcome_ok_step [OF ask_ok [OF less.prems]] by (subst send_body.simps) simp
qed

lemma stage_ok:
  assumes "outcome_ok e w b R d (Going, m)" and "outcome_ok e w b R d (f m)"
  shows "outcome_ok e w b R d (stage k f m)"
  using assms by (simp add: stage_def)

lemma negotiateOptions_ok:
  assumes "outcome_ok e w b R d (Going, m)"
  shows "outcome_ok e w b R d (negotiateOptions m)"
  unfolding negotiateOptions_def
proof (rule outcome_ok_andthen [OF writeToSocket_ok [OF assms]])
  fix m1
  assume m1: "outcome_ok e w b R d (Going, m1)"
  obtain x m2 where x: "readFromSocket m1 = (x, m2)" by fastforce
  then have "only_io m1 m2" using readFromSocket_sent by blast
  then have m2: "heard_ok e w b R d m2" "lastAcceptRejectAction m2 \<noteq> SMFIR_DISCARD"
    using only_io_ok [of m1 m2] m1 by (auto simp: outcome_ok_def)
  then show "outcome_ok e w b R d
       (case readFromSocket m1 of (None, m2) \<Rightarrow> (Exception, m2)
        | (Some r, m2) \<Rightarrow> let d = mp_data r
            in if length d \<noteq> 12 \<or> net32 (take 4 d) \<noteq> MILTER_VERSION then (Exception, m2)
               else (Going, m2\<lparr>negProtocol := net32 (drop 8 d)\<rparr>))"
    using x by (cases x) (simp_all add: outcome_ok_def heard_ok_def Let_def)
qed

lemma await_verdict_ok:
  "outcome_ok e w b R d (Going, m) \<Longrightarrow> await_verdict e w m = (r, m') \<Longrightarrow>
     outcome_ok e w b R d (r, m') \<and> (r = Going \<longrightarrow> sent b (lastAcceptRejectAction m'))"
proof (induction e w m rule: await_verdict.induct)
  case (1 e w m)
  obtain fin x m1 where c: "checkResponse e w m = (fin, x, m1)" by (metis prod.collapse)
  note ok = checkResponse_ok [OF 1(2) c]
  show ?case
  proof (cases "fin = False \<and> x = Going")
    case True
    then have "await_verdict e w m1 = (r, m')" using 1(3) c by (simp add: await_verdict.simps [of e w m])
    then show ?thesis using 1(1) [OF c [symmetric] _ refl] c True ok by simp
  next
    case False
    then have "x = r \<and> m1 = m'" using 1(3) c by (cases fin; cases x) (auto simp: await_verdict.simps [of e w m])
    then show ?thesis using False ok by auto
  qed
qed

lemma verdict_sent:
  assumes "Milter_process e w connected (new_milter s arrived c msg dflt r) = Some (v, m')"
  shows "(v = dflt \<or> sent (sk_in s) v) \<and>
    (\<forall>x \<in> set (ms_rcpts (milter_message m')). x \<in> set (ms_rcpts msg) \<or>
       (sent (sk_in s) SMFIR_ADDRCPT \<and> iLocalRecipient x = LookupUser e w (strAddress x) False False))"
proof -
  let ?m = "new_milter s arrived c msg dflt r" and ?ok = "outcome_ok e w (sk_in s) (set (ms_rcpts msg)) dflt"
  have m: "?ok (Going, ?m)" by (simp add: outcome_ok_def heard_ok_def new_milter_def)
  have talk: "?ok (sendConnect e w x)" "?ok (sendHelo e w x)" "?ok (sendMail e w x)" "?ok (sendHeaders e w x)"
    if "?ok (Going, x)" for x
    using that by (auto simp: sendConnect_def sendHelo_def sendMail_def sendHeaders_def Let_def
        intro!: outcome_ok_andthen ask_ok writeToSocket_ok send_headers_ok)
  obtain x m1 where x: "(if connected then dialogue e w ?m else (Exception, ?m)) = (x, m1)" by fastforce
  have "?ok (x, m1) \<and> (x = Going \<longrightarrow> sent (sk_in s) (lastAcceptRejectAction m1))"
  proof (cases connected)
    case False
    then show ?thesis using x m by (auto simp: outcome_ok_def)
  next
    case True
    then have d: "dialogue e w ?m = (x, m1)" using x by simp
    let ?pre = "andthen (andthen (andthen (andthen (andthen (andthen (andthen (negotiateOptions ?m)
       (stage 0 (sendConnect e w))) (stage 1 (sendHelo e w))) (stage 2 (sendMail e w))) (stage 3 (send_rcpts e w 0)))
       (stage 5 (sendHeaders e w))) (stage 4 (send_body e w 0))) (ask e w (CHR ''E'') [])"
    have pre: "?ok ?pre"
      by (intro outcome_ok_andthen negotiateOptions_ok m stage_ok ask_ok send_rcpts_ok send_body_ok talk)
    obtain y m2 where y: "?pre = (y, m2)" by fastforce
    have "?ok (y, m2)" using pre unfolding y .
    then show ?thesis
      using d await_verdict_ok [of e w "sk_in s" "set (ms_rcpts msg)" dflt m2 x m1]
      unfolding dialogue_def y by (cases y) (auto simp: andthen_def)
  qed
  then show ?thesis
    using assms unfolding Milter_process_def x
    by (cases x) (auto simp: outcome_ok_def heard_ok_def rcpt_asked_def milter_message_def)
qed

text \<open>
  C17: the verdict of a dialogue is one that the filter has sent as the command of a packet, or the
  configured default; and a recipient that was not among those of the message is there only if
  the filter has sent a request to add one, and is looked up like any other.
\<close>

theorem Milter_verdict_sent:
  assumes "Milter_process e w connected (new_milter s arrived c msg dflt r) = Some (v, m')"
  shows "(v = dflt \<or> sent (sk_in s) v) \<and>
    (\<forall>x \<in> set (ms_rcpts (milter_message m')). x \<in> set (ms_rcpts msg) \<or>
       (sent (sk_in s) SMFIR_ADDRCPT \<and> iLocalRecipient x = LookupUser e w (strAddress x) False False))"
  using verdict_sent [OF assms] .

section \<open>Added headers\<close>

text \<open>
  A header that the filter asks to add comes to stand before the last header instead of behind it,
  and if the message has no header the position is taken from a number that has wrapped around:
  the insertion is undefined.
\<close>

theorem Milter_addheader_before_last:
  assumes "mp_cmd p = SMFIR_ADDHEADER" and "3 \<le> length (mp_data p)" and "length (ml_headers m) < 4294967296"
  shows "if ml_headers m = [] then fst (insertHeader p m) = Undefined
    else fst (insertHeader p m) = Going \<and>
      ml_headers (snd (insertHeader p m)) =
        butlast (ml_headers m) @ [header_fields (mp_data p), last (ml_headers m)]"
proof (cases "ml_headers m" rule: rev_cases)
  case Nil
  then show ?thesis using assms by (simp add: insertHeader_def Let_def split_beta)
next
  case (snoc hs h)
  then have "length hs mod 4294967296 = length hs" using assms(3) by simp
  then show ?thesis using snoc assms(1,2) by (simp add: insertHeader_def Let_def split_beta)
qed

section \<open>Examples\<close>

definition sample_sock :: "string \<Rightarrow> sock" where
  "sample_sock b = \<lparr>sk_in = b, sk_tls_in = [], sk_stalls = False, sk_out = [], sk_room = []\<rparr>"

definition sample_conn :: milter_conn where
  "sample_conn = \<lparr>mc_hostName = ''mx'', mc_heloHostName = ''mx'', mc_family = CHR ''4'', mc_ipAddress = ''192.0.2.1'',
     mc_port = 25, mc_isAuthenticated = False, mc_authMethod = []\<rparr>"

definition sample_message :: smtp_message where
  "sample_message = \<lparr>ms_headers = [(''Subject'', ''Hi''), (''To'', ''b'')], ms_body = ''Hello'', ms_from = ''a'',
     ms_rcpts = [\<lparr>strAddress = ''b'', iLocalRecipient = 1, iDeliveryStatusID = 0\<rparr>]\<rparr>"

definition sample_milter :: "string \<Rightarrow> milter" where
  "sample_milter b = new_milter (sample_sock b) [] sample_conn sample_message (CHR ''t'') (0, [])"

definition sample_optneg :: "nat \<Rightarrow> string" where
  "sample_optneg prot = packet_bytes \<lparr>mp_cmd = CHR ''O'', mp_data = be32 2 @ be32 63 @ be32 prot\<rparr>"

lemmas samples = sample_sock_def sample_conn_def sample_message_def sample_milter_def sample_optneg_def new_milter_def

lemma Milter_packet_roundtrip_witness:
  "fst (readFromSocket (sample_milter (packet_bytes \<lparr>mp_cmd = CHR ''B'', mp_data = ''Hello''\<rparr>))) =
     Some \<lparr>mp_cmd = CHR ''B'', mp_data = ''Hello''\<rparr>"
proof -
  let ?p = "\<lparr>mp_cmd = CHR ''B'', mp_data = ''Hello''\<rparr>"
  have "writeToSocket ?p (sample_milter []) = (Going, (sample_milter [])\<lparr>ml_sock := (sample_sock [])\<lparr>sk_out := packet_bytes ?p\<rparr>\<rparr>)"
    using write_packet [of "sample_milter []" ?p] by (simp add: samples)
  from Milter_packet_roundtrip [OF _ _ this, of "sample_milter (packet_bytes ?p)" "[]"] show ?thesis
    by (simp add: samples MILTER_MAX_PACKET_def)
qed

text \<open>Nine commands, nine times CONTINUE: the verdict is the default.\<close>

lemma Milter_lone_continue_witness:
  "\<forall>(e::env) w. \<exists>m'. Milter_process e w True (sample_milter (sample_optneg 0 @
      concat (replicate 9 (packet_bytes continue_packet)))) = Some (CHR ''t'', m')"
proof (intro allI)
  fix e :: env and w
  have "questions 0 sample_message = 9"
    by (simp add: questions_def chunks_def sample_message_def MILTER_CHUNK_SIZE_def Let_def)
  then show "\<exists>m'. Milter_process e w True (sample_milter (sample_optneg 0 @
      concat (replicate 9 (packet_bytes continue_packet)))) = Some (CHR ''t'', m')"
    using Milter_lone_continue [of "sample_sock (sample_optneg 0 @ concat (replicate 9 (packet_bytes continue_packet)))"
        "be32 63" 0 sample_message 0 e w sample_conn "CHR ''t''" "(0, [])"]
    by (auto simp: sample_milter_def sample_optneg_def sample_sock_def)
qed

lemma rejected:
  "map_option fst (Milter_process e w True (sample_milter (sample_optneg 127 @ packet_bytes \<lparr>mp_cmd = CHR ''r'', mp_data = []\<rparr>))) =
     Some (CHR ''r'')"
proof -
  let ?p = "\<lparr>mp_cmd = CHR ''r'', mp_data = []\<rparr>" and ?q = "\<lparr>mp_cmd = CHR ''E'', mp_data = []\<rparr>"
  let ?m = "sample_milter (sample_optneg 127 @ packet_bytes ?p)"
  obtain m1 where m1: "negotiateOptions ?m = (Going, m1)" "ml_arrived m1 = []" "sk_room (ml_sock m1) = []"
      "sk_in (ml_sock m1) = packet_bytes ?p" "negProtocol m1 = 127"
    using negotiate [of ?m 127 "be32 63" "packet_bytes ?p"] by (auto simp: samples)
  let ?n = "m1\<lparr>ml_sock := (ml_sock m1)\<lparr>sk_out := sk_out (ml_sock m1) @ packet_bytes ?q\<rparr>\<rparr>"
  have "readFromSocket (?n\<lparr>rcpts_invalid := None, headers_invalid := None\<rparr>) =
      (Some ?p, rest_in [] (?n\<lparr>rcpts_invalid := None, headers_invalid := None\<rparr>))"
    using m1 by (intro read_packet) (simp_all add: MILTER_MAX_PACKET_def)
  then have "checkResponse e w ?n = (True, MilterRejected, settle (CHR ''r'')
      (rest_in [] (?n\<lparr>rcpts_invalid := None, headers_invalid := None\<rparr>)))"
    by (simp add: checkResponse_def apply_response_def is_final_def ends_dialogue_def)
  then show ?thesis
    using m1 by (simp add: Milter_process_def dialogue_def andthen_def stage_def skips_def ask_def
        write_packet settle_def is_final_def)
qed

lemma Milter_verdict_sent_witness:
  "sent (sample_optneg 127 @ packet_bytes \<lparr>mp_cmd = CHR ''r'', mp_data = []\<rparr>) (CHR ''r'')"
proof -
  obtain m' where "Milter_process undefined undefined True
      (sample_milter (sample_optneg 127 @ packet_bytes \<lparr>mp_cmd = CHR ''r'', mp_data = []\<rparr>)) = Some (CHR ''r'', m')"
    using rejected [of undefined undefined] by (auto simp: map_option_eq_Some)
  from Milter_verdict_sent [OF this [unfolded sample_milter_def]] show ?thesis by (simp add: sample_sock_def)
qed

lemma Milter_addheader_before_last_witness:
  "map fst (ml_headers (snd (insertHeader \<lparr>mp_cmd = CHR ''h'', mp_data = ''X-Spam'' @ NUL # ''no'' @ [NUL]\<rparr> (sample_milter [])))) =
     [''Subject'', ''X-Spam'', ''To'']"
  using Milter_addheader_before_last [of "\<lparr>mp_cmd = CHR ''h'', mp_data = ''X-Spam'' @ NUL # ''no'' @ [NUL]\<rparr>" "sample_milter []"]
  by (simp add: samples header_fields_def Let_def)

end
