(* ===== verification/Smtp_Milter.thy ===== *)
theory Smtp_Milter
  imports Smtp_Queue Milter_Correct
begin

text \<open>
  The SMTP server with the content filters: the parameter \<open>milter_process\<close> of the server model is
  the result of \<open>Milter_process\<close> on what each filter sends, and what the server's properties ask of
  it holds of filters that do not add recipients.
\<close>

record filter_peer =
  fp_world :: world
  fp_connected :: bool
  fp_sock :: sock
  fp_arrived :: "nat option list"
  fp_reply :: "int \<times> string"

definition filter_result :: "char \<times> milter \<Rightarrow> milter_result" where
  "filter_result r = \<lparr>mr_code = fst r, mr_message = milter_message (snd r), mr_reply = replyCode (snd r)\<rparr>"

definition default_action :: "milter_row \<Rightarrow> char" where
  "default_action row = char_of (nat (mi_default_action row mod 256))"

text \<open>The dialogue with a filter, for a row of the table, a connection and a message.\<close>

definition run_filter :: "'x env_scheme \<Rightarrow> filter_peer \<Rightarrow> milter_row \<Rightarrow> milter_conn \<Rightarrow> smtp_message \<Rightarrow> milter_result option" where
  "run_filter e p row c m =
     map_option filter_result (Milter_process e (fp_world p) (fp_connected p)
       (new_milter (fp_sock p) (fp_arrived p) c m (default_action row) (fp_reply p)))"

definition filtered_by :: "'x smtp_env_scheme \<Rightarrow> (milter_row \<Rightarrow> milter_conn \<Rightarrow> smtp_message \<Rightarrow> filter_peer) \<Rightarrow> bool" where
  "filtered_by e peer \<longleftrightarrow>
     (\<forall>row c m. run_filter e (peer row c m) row c m = Some (milter_process e row c m))"

lemma run_filter_rcpts:
  assumes "run_filter e p row c m = Some r" and "x \<in> set (ms_rcpts (mr_message r))"
  shows "x \<in> set (ms_rcpts m) \<or> sent (sk_in (fp_sock p)) SMFIR_ADDRCPT \<and>
    iLocalRecipient x = LookupUser e (fp_world p) (strAddress x) False False"
proof -
  obtain v m' where "Milter_process e (fp_world p) (fp_connected p)
       (new_milter (fp_sock p) (fp_arrived p) c m (default_action row) (fp_reply p)) = Some (v, m')"
      "r = filter_result (v, m')"
    using assms(1) by (auto simp: run_filter_def)
  then show ?thesis using verdict_sent [of e "fp_world p"] assms(2) by (fastforce simp: filter_result_def)
qed


text \<open>Filters that cannot be reached: the default action, and the message as it was.\<close>

definition unreachable :: "milter_row \<Rightarrow> milter_conn \<Rightarrow> smtp_message \<Rightarrow> filter_peer" where
  "unreachable row c m = \<lparr>fp_world = sample_world, fp_connected = False, fp_sock = sample_sock [], fp_arrived = [],
     fp_reply = (0, [])\<rparr>"

definition unfiltered :: smtp_env where
  "unfiltered = (sample_smtp [])\<lparr>milter_process := \<lambda>row c m. \<lparr>mr_code = default_action row, mr_message = m, mr_reply = (0, [])\<rparr>\<rparr>"


end
