(* ===== verification/Http.thy ===== *)
theory Http
  imports Session BlobStorage
begin

text \<open>
  The HTTP server for shared web disks (src/http/http.cpp): the request parser over lines of at
  most 511 bytes, the walk from the path to a file, the traffic limit, the answer and the error
  pages. The columns of the tables that only this server reads are kept beside the tables of
  theory Database.
\<close>

section \<open>State\<close>

datatype HTTPRequestMethod = REQUEST_GET | REQUEST_POST

datatype HTTPParseStatus =
  PARSE_OK | PARSE_INVALID_REQUEST | PARSE_INVALID_PROTOCOL | PARSE_INVALID_REQUEST_METHOD

datatype HTTPError =
  ERROR_BAD_REQUEST | ERROR_UNAUTHORIZED | ERROR_PAGE_NOT_FOUND | ERROR_INTERNAL_SERVER_ERROR
| ERROR_BANDWITH_EXCEEDED

definition HTTP_LINEMAX :: nat where "HTTP_LINEMAX = 512"

definition error_code :: "HTTPError \<Rightarrow> int" where
  "error_code x =
     (case x of ERROR_BAD_REQUEST \<Rightarrow> 400 | ERROR_UNAUTHORIZED \<Rightarrow> 401 | ERROR_PAGE_NOT_FOUND \<Rightarrow> 404
      | ERROR_INTERNAL_SERVER_ERROR \<Rightarrow> 500 | ERROR_BANDWITH_EXCEEDED \<Rightarrow> 503)"

text \<open>Accounts and their groups, folders and files of the web disks, advertisements of groups.\<close>

record wd_user_row =
  wu_id :: int
  wu_email :: string
  wu_gruppe :: int
  wu_traffic_up :: int
  wu_traffic_down :: int
  wu_traffic_add :: int

record wd_group_row =
  wg_id :: int
  wg_share :: string
  wg_webdisk :: int
  wg_traffic :: int
  wg_open_kbs :: int

record diskfolder_row =
  df_id :: int
  df_parent :: int
  df_titel :: string

record diskfile_row =
  dk_id :: int
  dk_user :: int
  dk_ordner :: int
  dk_dateiname :: string
  dk_size :: int
  dk_contenttype :: string
  dk_blobstorage :: int

record webdisk =
  wd_users :: "wd_user_row list"
  wd_groups :: "wd_group_row list"
  wd_folders :: "diskfolder_row list"
  wd_files :: "diskfile_row list"
  wd_adsigs :: "(int \<times> string) list"

record http_env = env +
  server_name :: string                            \<comment> \<open>product, version and architecture\<close>

record http = session +
  wdb :: webdisk
  requestMethod :: HTTPRequestMethod
  parseStatus :: HTTPParseStatus
  requestURL :: string
  requestHost :: string
  requestProtocol :: string
  userAgent :: string
  lineNum :: nat
  iTrafficAllowed :: int
  iTrafficUsed :: int
  iBandwithLimit :: int
  iUser :: int
  adSig :: string
  bufferOverrun :: bool                            \<comment> \<open>the copy buffer was written past its end\<close>

definition new_http :: "session \<Rightarrow> webdisk \<Rightarrow> http" where
  "new_http s d =
     session.extend s
       \<lparr>wdb = d, requestMethod = REQUEST_GET, parseStatus = PARSE_INVALID_REQUEST, requestURL = [],
        requestHost = [], requestProtocol = ''HTTP/1.1'', userAgent = [], lineNum = 0,
        iTrafficAllowed = -1, iTrafficUsed = 0, iBandwithLimit = -1, iUser = 0, adSig = [],
        bufferOverrun = False\<rparr>"

section \<open>Answers\<close>

definition three_digits :: "int \<Rightarrow> string" where
  "three_digits n = (let s = show_int n in replicate (3 - length s) (CHR ''0'') @ s)"

definition PrintHeaders :: "'x http_env_scheme \<Rightarrow> int \<Rightarrow> string \<Rightarrow> int \<Rightarrow> string \<Rightarrow> 'y http_scheme \<Rightarrow> 'y http_scheme" where
  "PrintHeaders e status info len ctype s =
     printf (''Content-Type: '' @ ctype @ CRLF)
       (printf (''Content-Length: '' @ show_int len @ CRLF)
         (printf (''Connection: close'' @ CRLF)
           (printf (''Server: '' @ server_name e @ CRLF)
             (printf (requestProtocol s @ '' '' @ three_digits status @ '' '' @ info @ CRLF) s))))"

definition error_text :: "HTTPError \<Rightarrow> string \<times> string" where
  "error_text x =
     (case x of
        ERROR_BAD_REQUEST \<Rightarrow>
          (''Bad Request'',
           ''Your HTTP client made a request this server cannot understand. Please try again with an other HTTP client or contact the server's administator.'')
      | ERROR_PAGE_NOT_FOUND \<Rightarrow>
          (''Page Not Found'',
           ''The requested page does not exist. Please check the URL and try again or contact the server's administrator.'')
      | ERROR_UNAUTHORIZED \<Rightarrow>
          (''Unauthorized'',
           ''You are not allowed to access this page. Please try again or contact the servers's administator, if you think this is an error of the server.'')
      | ERROR_INTERNAL_SERVER_ERROR \<Rightarrow>
          (''Internal Server Error'',
           ''This server cannot process your request now because of internal technical problems. Please try again later or contact the server's administrator.'')
      | ERROR_BANDWITH_EXCEEDED \<Rightarrow>
          (''Bandwith Limit Exceeded'',
           ''The bandwith limit of this host has exceeded for this month. Please try again next month.''))"

definition error_page :: "'x http_env_scheme \<Rightarrow> HTTPError \<Rightarrow> string option \<Rightarrow> string" where
  "error_page e x info =
     (case error_text x of (err, desc) \<Rightarrow>
        ''<html>'' @ CRLF @ ''<head>'' @ CRLF @ ''<title>'' @ err @ ''</title>'' @ CRLF @ ''</head>'' @ CRLF @
        ''<body>'' @ CRLF @ ''<h1>'' @ err @ ''</h1>'' @ CRLF @ ''<p>'' @ CRLF @ desc @ ''</p>'' @ CRLF @
        ''<p>'' @ CRLF @
        (case info of None \<Rightarrow> ''There is no further information about this error available.'' | Some t \<Rightarrow> t) @
        ''</p>'' @ CRLF @ ''<address>'' @ server_name e @ ''</address></body>'' @ CRLF @ ''</html>'' @ CRLF)"

definition ErrorPage :: "'x http_env_scheme \<Rightarrow> HTTPError \<Rightarrow> string option \<Rightarrow> 'y http_scheme \<Rightarrow> 'y http_scheme" where
  "ErrorPage e x info s =
     (let page = error_page e x info
      in printf page (printf CRLF (PrintHeaders e (error_code x) (fst (error_text x)) (int (length page)) ''text/html'' s)))"

section \<open>Files\<close>

definition path_parts :: "string \<Rightarrow> string list" where
  "path_parts p = filter (\<lambda>x. x \<noteq> []) (Explode p (CHR ''/''))"

text \<open>
  The walk along the parts of the path: the folder that is reached and the index of the first part
  that is not a folder. The rows of all users are searched.
\<close>

fun walk_path :: "'x env_scheme \<Rightarrow> diskfolder_row list \<Rightarrow> int \<Rightarrow> nat \<Rightarrow> string list \<Rightarrow> int \<times> nat option" where
  "walk_path e fs parent i [] = (parent, None)"
| "walk_path e fs parent i (p # ps) =
     (case filter (\<lambda>f. df_parent f = parent \<and> sql_eq e (df_titel f) p) fs of
        [] \<Rightarrow> (parent, Some i)
      | f # _ \<Rightarrow> walk_path e fs (df_id f) (i + 1) ps)"

definition reached_folder :: "'x env_scheme \<Rightarrow> webdisk \<Rightarrow> string \<Rightarrow> int \<times> bool" where
  "reached_folder e d path =
     (let ps = path_parts path; (parent, stop) = walk_path e (wd_folders d) 0 0 ps;
          parent1 = (if parent = 0 then -1 else parent)
      in case stop of
           None \<Rightarrow> (parent1, False)
         | Some i \<Rightarrow> (if i + 1 < length ps then -1 else parent1, True))"

definition FindWebdiskFile :: "'x env_scheme \<Rightarrow> webdisk \<Rightarrow> string \<Rightarrow> int \<Rightarrow> diskfile_row option" where
  "FindWebdiskFile e d path userID =
     (if CHR ''/'' \<notin> set path then None
      else let (folder, stopped) = reached_folder e d path;
               name = rev (takeWhile (\<lambda>c. c \<noteq> CHR ''/'') (rev path));
               wanted = (\<lambda>f. if name = [] \<and> \<not> stopped
                             then sql_eq e (dk_dateiname f) ''index.html'' \<or> sql_eq e (dk_dateiname f) ''index.htm''
                             else sql_eq e (dk_dateiname f) name)
           in find (\<lambda>f. dk_user f = userID \<and> dk_ordner f = folder \<and> wanted f) (wd_files d))"

section \<open>Sending a file\<close>

text \<open>The pieces of at most \<open>n\<close> bytes that the copy loop reads.\<close>

function pieces :: "nat \<Rightarrow> string \<Rightarrow> string list" where
  "pieces n t = (if n = 0 \<or> t = [] then [] else take n t # pieces n (drop n t))"
  by pat_completeness auto

termination
  by (relation "measure (\<lambda>(n, t). length t)") auto

declare pieces.simps [simp del]

text \<open>The bytes of each round; \<open>fread\<close> takes the number as unsigned.\<close>

definition copy_size :: "int \<Rightarrow> int" where
  "copy_size limit =
     (if limit = -1 then 4096
      else let n = to_int32 (limit * 1024) in if n < 0 then - (- n div 200) else n div 200)"

definition copy_buffer :: nat where "copy_buffer = 4096"

text \<open>The first round that reads more than the buffer holds writes past its end.\<close>

definition overflows :: "int \<Rightarrow> string \<Rightarrow> bool" where
  "overflows n t \<longleftrightarrow> (n < 0 \<or> int copy_buffer < n) \<and> copy_buffer < length t"

text \<open>Without blob storages in the configuration, every file counts as one of the first storage.\<close>

definition load_file :: "'x env_scheme \<Rightarrow> world \<Rightarrow> int \<Rightarrow> diskfile_row \<Rightarrow> string option \<times> world" where
  "load_file e w userID f =
     (case CreateBlobStorageProvider e w (if cfg_is1 e ''enable_blobstorage'' then dk_blobstorage f else 0) userID of
        None \<Rightarrow> (None, w)
      | Some SeparateFiles \<Rightarrow> sf_loadBlob e w BMBLOB_TYPE_WEBDISK (dk_id f)
      | Some (UserDB u sdb) \<Rightarrow> (ud_loadBlob e u sdb w BMBLOB_TYPE_WEBDISK (dk_id f), w))"

definition add_traffic :: "int \<Rightarrow> int \<Rightarrow> webdisk \<Rightarrow> webdisk" where
  "add_traffic userID n d =
     d\<lparr>wd_users := map (\<lambda>u. if wu_id u = userID then u\<lparr>wu_traffic_down := wu_traffic_down u + n\<rparr> else u)
         (wd_users d)\<rparr>"

text \<open>
  The copy loop over the contents \<open>t\<close>: a size of zero reads nothing, and a size that the unsigned
  reading makes huge reads everything at once.
\<close>

definition copy_pieces :: "int \<Rightarrow> string \<Rightarrow> string list" where
  "copy_pieces n t = pieces (if n < 0 then length t else nat n) t"

definition SendFile :: "'x http_env_scheme \<Rightarrow> diskfile_row \<Rightarrow> 'y http_scheme \<Rightarrow> 'y http_scheme" where
  "SendFile e f s =
     (let sz = to_int32 (dk_size f)
      in if iTrafficAllowed s < to_int32 (iTrafficUsed s + sz) \<and> iTrafficAllowed s \<noteq> -1
         then ErrorPage e ERROR_BANDWITH_EXCEEDED None s
         else let bSig = (dk_contenttype f = ''text/html'' \<and> 2 < length (adSig s));
                  s1 = printf CRLF (PrintHeaders e 200 ''OK''
                         (to_int32 (sz + (if bSig then int (length (adSig s)) else 0))) (dk_contenttype f) s);
                  (fp, w) = load_file e (wld s) (iUser s) f; s2 = s1\<lparr>wld := w\<rparr>; n = copy_size (iBandwithLimit s)
              in case fp of
                   None \<Rightarrow> s2
                 | Some t \<Rightarrow>
                     if overflows n t then s2\<lparr>failed := True, bufferOverrun := True\<rparr>
                     else let ps = copy_pieces n t; s3 = foldl (\<lambda>x p. printf p x) s2 ps;
                              s4 = (if bSig then printf (cstr (adSig s)) s3 else s3)
                          in s4\<lparr>wdb := add_traffic (iUser s) (int (length (concat ps))) (wdb s)\<rparr>)"

section \<open>The request\<close>

text \<open>
  The host name as an address: the first domain that is a proper suffix of it has the character
  before it replaced by an at sign.
\<close>

definition is_host_of :: "string \<Rightarrow> string \<Rightarrow> bool" where
  "is_host_of host d \<longleftrightarrow> length d < length host \<and> strcaseeq (drop (length host - length d) host) d"

definition search_user :: "'x env_scheme \<Rightarrow> string \<Rightarrow> string" where
  "search_user e host =
     (case find (is_host_of host) (nonempty_parts (cfg_str e ''domains'')) of
        None \<Rightarrow> host
      | Some d \<Rightarrow> host[length host - length d - 1 := CHR ''@''])"

definition sharing_rows :: "'x env_scheme \<Rightarrow> webdisk \<Rightarrow> string \<Rightarrow> (wd_user_row \<times> wd_group_row) list" where
  "sharing_rows e d usr =
     filter (\<lambda>(u, g). sql_eq e (wu_email u) usr \<and> wg_id g = wu_gruppe u \<and> wg_share g = ''yes'' \<and> 0 < wg_webdisk g)
       (List.product (wd_users d) (wd_groups d))"

definition share_row :: "'x env_scheme \<Rightarrow> int \<times> int \<times> 'y http_scheme \<Rightarrow> wd_user_row \<times> wd_group_row \<Rightarrow>
    int \<times> int \<times> 'y http_scheme" where
  "share_row e acc row =
     (case (acc, row) of ((_, _, s), (u, g)) \<Rightarrow>
        (wu_id u, wg_id g,
         s\<lparr>iUser := wu_id u, iTrafficUsed := to_int32 (to_int32 (wu_traffic_up u) + to_int32 (wu_traffic_down u)),
           iTrafficAllowed := to_int32 (wg_traffic g + (if cfg_is1 e ''user_space_add'' then wu_traffic_add u else 0)),
           iBandwithLimit := to_int32 (wg_open_kbs g)\<rparr>))"

definition ProcessRequest :: "'x http_env_scheme \<Rightarrow> 'y http_scheme \<Rightarrow> 'y http_scheme" where
  "ProcessRequest e s =
     (let (userID, group, s1) = foldl (share_row e) (-1, 0, s) (sharing_rows e (wdb s) (search_user e (requestHost s)));
          s2 = (case filter (\<lambda>(g, v). g = group) (wd_adsigs (wdb s)) of [] \<Rightarrow> s1 | (g, v) # _ \<Rightarrow> s1\<lparr>adSig := v\<rparr>)
      in if 0 < userID
         then (case FindWebdiskFile e (wdb s) (''/www'' @ requestURL s) userID of
                 None \<Rightarrow> ErrorPage e ERROR_PAGE_NOT_FOUND (Some ''The requested file does not exist.'') s2
               | Some f \<Rightarrow> SendFile e f s2)
         else ErrorPage e ERROR_PAGE_NOT_FOUND (Some ''The requested user subdomain cannot be found.'') s2)"

section \<open>Parsing\<close>

definition request_line :: "string \<Rightarrow> 'y http_scheme \<Rightarrow> 'y http_scheme" where
  "request_line l s =
     (if strcaseeq (take 4 l) ''GET '' \<or> strcaseeq (take 5 l) ''POST ''
      then let s1 = s\<lparr>requestMethod := (if strcaseeq (take 4 l) ''GET '' then REQUEST_GET else REQUEST_POST)\<rparr>
           in (case scan_word l of
                 None \<Rightarrow> s1\<lparr>parseStatus := PARSE_INVALID_REQUEST\<rparr>
               | Some (_, r) \<Rightarrow>
                   (case scan_word r of
                      None \<Rightarrow> s1\<lparr>parseStatus := PARSE_INVALID_REQUEST\<rparr>
                    | Some (url, r2) \<Rightarrow>
                        (case scan_word r2 of
                           None \<Rightarrow> s1\<lparr>parseStatus := PARSE_INVALID_REQUEST\<rparr>
                         | Some (prot, _) \<Rightarrow>
                             if strcaseeq prot ''HTTP/1.0'' \<or> strcaseeq prot ''HTTP/1.1''
                             then s1\<lparr>requestURL := url, requestProtocol := prot, parseStatus := PARSE_OK\<rparr>
                             else s1\<lparr>parseStatus := PARSE_INVALID_PROTOCOL\<rparr>)))
      else s\<lparr>parseStatus := PARSE_INVALID_REQUEST_METHOD\<rparr>)"

text \<open>The value of a header starts one byte behind as many bytes as the name has.\<close>

definition header_value :: "string \<Rightarrow> string \<Rightarrow> string" where
  "header_value key l = drop_last_while (\<lambda>c. c = CR \<or> c = NL \<or> c = CHR '' '') (drop (length key + 1) l)"

definition request_header :: "string \<Rightarrow> 'y http_scheme \<Rightarrow> 'y http_scheme" where
  "request_header l s =
     (case scan_word l of
        None \<Rightarrow> s
      | Some (key, r) \<Rightarrow>
          if scan_word r = None \<or> last key \<noteq> CHR '':'' then s
          else let v = header_value key l
               in if strcaseeq key ''Host:'' then s\<lparr>requestHost := takeWhile (\<lambda>c. c \<noteq> CHR '':'') v\<rparr>
                  else if strcaseeq key ''User-Agent:'' then s\<lparr>userAgent := v\<rparr> else s)"

definition HTTP_ProcessLine :: "'y http_scheme \<Rightarrow> bool \<times> 'y http_scheme" where
  "HTTP_ProcessLine s =
     (let l = szLine s
      in if l = [] \<or> l = [CR] \<or> l = CRLF \<or> l = [NL] then (False, s)
         else let s1 = (if lineNum s = 0 then request_line l s else request_header l s)
              in if lineNum s = 0 \<and> parseStatus s1 \<noteq> PARSE_OK then (False, s1)
                 else (True, s1\<lparr>lineNum := lineNum s1 + 1\<rparr>))"

definition parse_error :: "HTTPParseStatus \<Rightarrow> string" where
  "parse_error p =
     (case p of PARSE_OK \<Rightarrow> ''No error (valid request)'' | PARSE_INVALID_REQUEST \<Rightarrow> ''Invalid HTTP request''
      | PARSE_INVALID_PROTOCOL \<Rightarrow> ''Invalid/unsupported protocol in HTTP request''
      | PARSE_INVALID_REQUEST_METHOD \<Rightarrow> ''Invalid/unsupported request method'')"

definition http_loop :: "'y http_scheme \<Rightarrow> 'y http_scheme option" where
  "http_loop s = serve (Suc (todo s)) (my_fgets HTTP_LINEMAX) HTTP_ProcessLine (\<lambda>_. True) s"

definition HTTP_Run :: "'x http_env_scheme \<Rightarrow> 'y http_scheme \<Rightarrow> 'y http_scheme option" where
  "HTTP_Run e s =
     (case http_loop (s\<lparr>parseStatus := PARSE_INVALID_REQUEST, lineNum := 0\<rparr>) of
        None \<Rightarrow> None
      | Some t \<Rightarrow>
          Some (if parseStatus t = PARSE_OK then ProcessRequest e t
                else ErrorPage e ERROR_BAD_REQUEST (Some (parse_error (parseStatus t))) t))"

end
