(* ===== verification/Http_Correct.thy ===== *)
theory Http_Correct
  imports Http
begin

text \<open>
  The HTTP server for web disks: every connection ends with one answer, a file that is sent is one
  of the account that the host name stands for, the walk to it asks for the folders of nobody in
  particular, and a bandwidth limit can make the copy loop write past its buffer.
\<close>

section \<open>Frames\<close>

lemma printf_http [simp]:
  "requestProtocol (printf x s) = requestProtocol s" "iTrafficAllowed (printf x s) = iTrafficAllowed s"
  "iTrafficUsed (printf x s) = iTrafficUsed s" "iBandwithLimit (printf x s) = iBandwithLimit s"
  "iUser (printf x s) = iUser s" "adSig (printf x s) = adSig s" "wdb (printf x s) = wdb s"
  "bufferOverrun (printf x s) = bufferOverrun s" "parseStatus (printf x s) = parseStatus s"
  by (simp_all add: printf_def)

text \<open>The headers of an answer.\<close>

definition header_text :: "'x http_env_scheme \<Rightarrow> string \<Rightarrow> int \<Rightarrow> string \<Rightarrow> int \<Rightarrow> string \<Rightarrow> string list" where
  "header_text e prot status info len ctype =
     [prot @ '' '' @ three_digits status @ '' '' @ info @ CRLF, ''Server: '' @ server_name e @ CRLF,
      ''Connection: close'' @ CRLF, ''Content-Length: '' @ show_int len @ CRLF, ''Content-Type: '' @ ctype @ CRLF]"

definition error_answer :: "'x http_env_scheme \<Rightarrow> string \<Rightarrow> HTTPError \<Rightarrow> string option \<Rightarrow> string list" where
  "error_answer e prot x info =
     header_text e prot (error_code x) (fst (error_text x)) (int (length (error_page e x info))) ''text/html'' @
     [CRLF, error_page e x info]"

lemma PrintHeaders_simps [simp]:
  "out (PrintHeaders e c i n t s) = out s @ header_text e (requestProtocol s) c i n t"
  "iBandwithLimit (PrintHeaders e c i n t s) = iBandwithLimit s" "wld (PrintHeaders e c i n t s) = wld s"
  "iUser (PrintHeaders e c i n t s) = iUser s" "adSig (PrintHeaders e c i n t s) = adSig s"
  "bufferOverrun (PrintHeaders e c i n t s) = bufferOverrun s" "wdb (PrintHeaders e c i n t s) = wdb s"
  "failed (PrintHeaders e c i n t s) = failed s"
  by (simp_all add: PrintHeaders_def header_text_def)

lemma ErrorPage_simps [simp]:
  "out (ErrorPage e x i s) = out s @ error_answer e (requestProtocol s) x i"
  "bufferOverrun (ErrorPage e x i s) = bufferOverrun s" "wdb (ErrorPage e x i s) = wdb s"
  "wld (ErrorPage e x i s) = wld s"
  by (simp_all add: ErrorPage_def error_answer_def Let_def)

lemma print_all [simp]:
  "out (foldl (\<lambda>x p. printf p x) s ps) = out s @ ps"
  "bufferOverrun (foldl (\<lambda>x p. printf p x) s ps) = bufferOverrun s"
  by (induction ps arbitrary: s) simp_all

lemma concat_pieces: "0 < n \<Longrightarrow> concat (pieces n t) = t"
proof (induction n t rule: pieces.induct)
  case (1 n t)
  then show ?case by (simp add: pieces.simps [of n t])
qed

lemma copy_all: "concat (copy_pieces n t) = t \<or> n = 0 \<and> copy_pieces n t = []"
  using concat_pieces [of "if n < 0 then length t else nat n" t]
  by (cases "t = []") (auto simp: copy_pieces_def pieces.simps)

section \<open>Whose file\<close>

text \<open>
  The answer from \<open>s\<close> to \<open>t\<close> is an error page, or sends file \<open>f\<close> of the account \<open>d\<close>: behind the
  headers stands nothing or the whole file, and perhaps an advertisement; no file, folder or group
  changes, and of the accounts at most the traffic of that one.
\<close>

definition answers_error :: "'x http_env_scheme \<Rightarrow> 'y http_scheme \<Rightarrow> 'y http_scheme \<Rightarrow> bool" where
  "answers_error e s t \<longleftrightarrow>
     (\<exists>x \<in> {ERROR_PAGE_NOT_FOUND, ERROR_BANDWITH_EXCEEDED}. \<exists>i.
        out t = out s @ error_answer e (requestProtocol s) x i) \<and> wdb t = wdb s"

definition sends_file :: "'x http_env_scheme \<Rightarrow> 'y http_scheme \<Rightarrow> 'y http_scheme \<Rightarrow> int \<Rightarrow> diskfile_row \<Rightarrow> bool" where
  "sends_file e s t d f \<longleftrightarrow>
     (\<exists>n ps sig. out t = out s @ header_text e (requestProtocol s) 200 ''OK'' n (dk_contenttype f) @ CRLF # ps @ sig \<and>
        (concat ps = [] \<or> Some (concat ps) = fst (load_file e (wld s) d f)) \<and> length sig \<le> 1 \<and>
        (wdb t = wdb s \<or> wdb t = add_traffic d (int (length (concat ps))) (wdb s)))"

lemma sends_fileI:
  assumes "out t = out s @ header_text e (requestProtocol s) 200 ''OK'' n (dk_contenttype f) @ CRLF # ps @ sig"
    and "concat ps = [] \<or> Some (concat ps) = fst (load_file e (wld s) d f)" and "length sig \<le> 1"
    and "wdb t = wdb s \<or> wdb t = add_traffic d (int (length (concat ps))) (wdb s)"
  shows "sends_file e s t d f"
  using assms unfolding sends_file_def by blast

lemma SendFile_out: "answers_error e s (SendFile e f s) \<or> sends_file e s (SendFile e f s) (iUser s) f"
proof (cases "iTrafficAllowed s < to_int32 (iTrafficUsed s + to_int32 (dk_size f)) \<and> iTrafficAllowed s \<noteq> -1")
  case True
  then show ?thesis by (intro disjI1) (auto simp: SendFile_def Let_def answers_error_def)
next
  case False
  obtain fp w where l: "load_file e (wld s) (iUser s) f = (fp, w)" by fastforce
  let ?n = "copy_size (iBandwithLimit s)" and ?sig = "dk_contenttype f = ''text/html'' \<and> 2 < length (adSig s)"
  let ?h = "to_int32 (to_int32 (dk_size f) + (if ?sig then int (length (adSig s)) else 0))"
  note S = SendFile_def [of e f s, unfolded Let_def if_not_P [OF False] l prod.case]
  show ?thesis
  proof (cases "fp = None \<or> overflows ?n (the fp)")
    case True
    have o: "out (SendFile e f s) = out s @ header_text e (requestProtocol s) 200 ''OK'' ?h (dk_contenttype f) @ CRLF # [] @ []"
      "wdb (SendFile e f s) = wdb s"
      using True unfolding S by (auto split: option.split)
    show ?thesis by (rule disjI2, rule sends_fileI [OF o(1)]) (simp_all add: o(2))
  next
    case no: False
    then obtain t where t: "fp = Some t" "\<not> overflows ?n t" by auto
    let ?ps = "copy_pieces ?n t" and ?g = "if ?sig then [cstr (adSig s)] else []"
    have c: "concat ?ps = [] \<or> Some (concat ?ps) = fst (load_file e (wld s) (iUser s) f)"
      using copy_all [of ?n t] l t by auto
    have o: "out (SendFile e f s) = out s @ header_text e (requestProtocol s) 200 ''OK'' ?h (dk_contenttype f) @ CRLF # ?ps @ ?g"
      "wdb (SendFile e f s) = add_traffic (iUser s) (int (length (concat ?ps))) (wdb s)"
      using t unfolding S by (cases ?sig, simp_all)+
    show ?thesis by (rule disjI2, rule sends_fileI [OF o(1) c]) (simp_all add: o(2))
  qed
qed

lemma share_rows_last:
  "foldl (share_row e) (i, g, s) rows = (j, h, t) \<Longrightarrow>
     (t = s \<and> j = i \<and> rows = []) \<or>
     (\<exists>u gr. (u, gr) \<in> set rows \<and> j = wu_id u \<and> h = wg_id gr \<and> iUser t = wu_id u \<and> out t = out s \<and> wdb t = wdb s \<and>
        wld t = wld s \<and> requestURL t = requestURL s \<and> requestProtocol t = requestProtocol s \<and>
        bufferOverrun t = bufferOverrun s)"
proof (induction rows arbitrary: i g s)
  case (Cons r rows)
  obtain u gr where r: "r = (u, gr)" by fastforce
  obtain s1 where s1: "share_row e (i, g, s) r = (wu_id u, wg_id gr, s1)" "iUser s1 = wu_id u" "out s1 = out s"
      "wdb s1 = wdb s" "wld s1 = wld s" "requestURL s1 = requestURL s" "requestProtocol s1 = requestProtocol s"
      "bufferOverrun s1 = bufferOverrun s"
    by (simp add: share_row_def r)
  then show ?case using Cons.IH [of "wu_id u" "wg_id gr" s1] Cons.prems r by auto
qed auto

lemma own_file:
  "answers_error e s (ProcessRequest e s) \<or>
   (\<exists>u g f. (u, g) \<in> set (sharing_rows e (wdb s) (search_user e (requestHost s))) \<and>
      f \<in> set (wd_files (wdb s)) \<and> dk_user f = wu_id u \<and>
      dk_ordner f = fst (reached_folder e (wdb s) (''/www'' @ requestURL s)) \<and>
      sends_file e s (ProcessRequest e s) (wu_id u) f)"
proof -
  obtain j h t where t: "foldl (share_row e) (-1, 0, s) (sharing_rows e (wdb s) (search_user e (requestHost s))) = (j, h, t)"
    by (metis prod.collapse)
  define t2 where "t2 = (case filter (\<lambda>(g, v). g = h) (wd_adsigs (wdb s)) of [] \<Rightarrow> t | (g, v) # _ \<Rightarrow> t\<lparr>adSig := v\<rparr>)"
  have t2: "out t2 = out t" "wdb t2 = wdb t" "wld t2 = wld t" "iUser t2 = iUser t" "requestProtocol t2 = requestProtocol t"
    by (simp_all add: t2_def split: list.split prod.split)
  note last = share_rows_last [OF t]
  have same: "out t = out s" "wdb t = wdb s" "wld t = wld s" "requestProtocol t = requestProtocol s" using last by auto
  have p: "ProcessRequest e s =
      (if 0 < j
       then (case FindWebdiskFile e (wdb s) (''/www'' @ requestURL s) j of
               None \<Rightarrow> ErrorPage e ERROR_PAGE_NOT_FOUND (Some ''The requested file does not exist.'') t2
             | Some f \<Rightarrow> SendFile e f t2)
       else ErrorPage e ERROR_PAGE_NOT_FOUND (Some ''The requested user subdomain cannot be found.'') t2)"
    unfolding ProcessRequest_def t Let_def prod.case t2_def by (rule refl)
  show ?thesis
  proof (cases "\<exists>f. 0 < j \<and> FindWebdiskFile e (wdb s) (''/www'' @ requestURL s) j = Some f")
    case False
    then have "\<exists>i. ProcessRequest e s = ErrorPage e ERROR_PAGE_NOT_FOUND i t2" using p by (auto split: option.split)
    then obtain i where "ProcessRequest e s = ErrorPage e ERROR_PAGE_NOT_FOUND i t2" ..
    then have "answers_error e s (ProcessRequest e s)" using t2 same unfolding answers_error_def by auto
    then show ?thesis by (rule disjI1)
  next
    case True
    then obtain f where f: "0 < j" "FindWebdiskFile e (wdb s) (''/www'' @ requestURL s) j = Some f" by blast
    then obtain u g where u: "(u, g) \<in> set (sharing_rows e (wdb s) (search_user e (requestHost s)))" "j = wu_id u" "iUser t = j"
      using last by auto
    have d: "f \<in> set (wd_files (wdb s))" "dk_user f = j" "dk_ordner f = fst (reached_folder e (wdb s) (''/www'' @ requestURL s))"
      using f(2) by (auto simp: FindWebdiskFile_def Let_def find_Some_iff split: if_splits prod.splits)
    have "ProcessRequest e s = SendFile e f t2" using p f by simp
    moreover have "answers_error e t2 = answers_error e s" "sends_file e t2 = sends_file e s"
      using t2 same by (simp_all add: answers_error_def sends_file_def fun_eq_iff)
    ultimately show ?thesis using SendFile_out [of e t2 f] t2(4) u d by metis
  qed
qed

text \<open>
  C12: whatever the request: it is answered by an error page, or by a file that belongs to the account
  the host name stands for, of a group that may share, and that lies in the folder the path leads
  to; what follows the headers is nothing or the whole file, and perhaps the advertisement of the
  group. No file, folder or group changes, and of the accounts at most the traffic of that one.
\<close>

theorem HTTP_serves_own_file:
  "answers_error e s (ProcessRequest e s) \<or>
   (\<exists>u g f. (u, g) \<in> set (sharing_rows e (wdb s) (search_user e (requestHost s))) \<and>
      f \<in> set (wd_files (wdb s)) \<and> dk_user f = wu_id u \<and>
      dk_ordner f = fst (reached_folder e (wdb s) (''/www'' @ requestURL s)) \<and>
      sends_file e s (ProcessRequest e s) (wu_id u) f)"
  by (rule own_file)

section \<open>The copy buffer\<close>

lemma copy_size_limit:
  assumes "0 \<le> n" and "n < 2097152"
  shows "copy_size n = n * 1024 div 200"
  using assms by (simp add: copy_size_def)

text \<open>
  C14: sending a file of more than 4096 bytes to a visitor of an account with a bandwidth limit writes
  past the buffer of the copy loop exactly if the limit is more than 800 KB per second.
\<close>

theorem HTTP_copy_overrun:
  assumes "iTrafficAllowed s = -1" and "fst (load_file e (wld s) (iUser s) f) = Some t"
    and "0 \<le> iBandwithLimit s" and "iBandwithLimit s < 2097152" and "\<not> bufferOverrun s"
  shows "bufferOverrun (SendFile e f s) \<longleftrightarrow> 800 < iBandwithLimit s \<and> 4096 < length t"
proof -
  obtain w where l: "load_file e (wld s) (iUser s) f = (Some t, w)" using assms(2) by (metis prod.collapse)
  have "overflows (copy_size (iBandwithLimit s)) t \<longleftrightarrow> 800 < iBandwithLimit s \<and> 4096 < length t"
    using assms(3,4) by (auto simp: overflows_def copy_buffer_def copy_size_limit)
  then show ?thesis using assms(1,5) l by (simp add: SendFile_def Let_def)
qed

text \<open>A web disk with the folder \<open>www\<close> of the account 1 and the page \<open>a.html\<close> in it.\<close>

definition www_env :: http_env where
  "www_env = env.extend (sample_env [(''domains'', ''b.c''), (''datafolder'', ''/d/'')]) \<lparr>server_name = ''b1gMailServer''\<rparr>"

definition www_disk :: webdisk where
  "www_disk =
     \<lparr>wd_users = [\<lparr>wu_id = 1, wu_email = ''a@b.c'', wu_gruppe = 1, wu_traffic_up = 0, wu_traffic_down = 0, wu_traffic_add = 0\<rparr>],
      wd_groups = [\<lparr>wg_id = 1, wg_share = ''yes'', wg_webdisk = 1, wg_traffic = -1, wg_open_kbs = 801\<rparr>],
      wd_folders = [\<lparr>df_id = 7, df_parent = 0, df_titel = ''www''\<rparr>],
      wd_files = [\<lparr>dk_id = 3, dk_user = 1, dk_ordner = 7, dk_dateiname = ''a.html'', dk_size = 4097,
                   dk_contenttype = ''text/html'', dk_blobstorage = 0\<rparr>],
      wd_adsigs = []\<rparr>"

definition www_session :: "string \<Rightarrow> world \<Rightarrow> http" where
  "www_session request w = new_http (new_session request [] ''1.2.3.4'' w) www_disk"

definition www_world :: "string \<Rightarrow> world" where
  "www_world t = (empty_world 1)\<lparr>files := \<lambda>p. if p = ''/d/3.dsk'' then Some t else None\<rparr>"

lemma www_page: "fst (load_file www_env (www_world t) 0 (hd (wd_files www_disk))) = Some t"
  by code_simp

lemma HTTP_copy_overrun_witness:
  "bufferOverrun (SendFile www_env (hd (wd_files www_disk)) ((www_session [] (www_world (replicate 4097 (CHR ''x''))))\<lparr>iBandwithLimit := 801\<rparr>))"
proof -
  let ?s = "(www_session [] (www_world (replicate 4097 (CHR ''x''))))\<lparr>iBandwithLimit := 801\<rparr>"
  have "fst (load_file www_env (wld ?s) (iUser ?s) (hd (wd_files www_disk))) = Some (replicate 4097 (CHR ''x''))"
    using www_page by (simp add: www_session_def new_http_def new_session_def session.defs)
  from HTTP_copy_overrun [OF _ this] show ?thesis
    by (simp add: www_session_def new_http_def session.defs)
qed

section \<open>The way to a file\<close>

lemma path_parts_cons:
  assumes "CHR ''/'' \<notin> set a" and "a \<noteq> []"
  shows "path_parts (CHR ''/'' # a) = [a]" "path_parts (CHR ''/'' # a @ CHR ''/'' # r) = a # path_parts (CHR ''/'' # r)"
  using assms explode_loop_piece [of "CHR ''/''" a "[]" r] explode_loop_last [of "CHR ''/''" a "[]"]
  by (simp_all add: path_parts_def Explode_def)

text \<open>
  A request for \<open>x/name\<close>, where \<open>x\<close> is what follows the letters \<open>www\<close>: it is looked for in the
  first folder on the top level, of whatever account, that is called \<open>www\<close> with \<open>x\<close> behind. For
  \<open>/name\<close> this is the first of all folders \<open>www\<close>, so of all accounts only the owner of that folder
  can publish anything; and a URL that does not start with a slash leads into folders that
  were never published.
\<close>

theorem HTTP_path_walk:
  assumes "CHR ''/'' \<notin> set x" and "CHR ''/'' \<notin> set name" and "name \<noteq> []"
    and "filter (\<lambda>f. df_parent f = 0 \<and> sql_eq e (df_titel f) (''www'' @ x)) (wd_folders d) = g # gs"
    and "filter (\<lambda>f. df_parent f = df_id g \<and> sql_eq e (df_titel f) name) (wd_folders d) = []"
    and "df_id g \<noteq> 0"
  shows "FindWebdiskFile e d (''/www'' @ x @ ''/'' @ name) u =
    find (\<lambda>f. dk_user f = u \<and> dk_ordner f = df_id g \<and> sql_eq e (dk_dateiname f) name) (wd_files d)"
proof -
  have "path_parts (''/www'' @ x @ ''/'' @ name) = [''www'' @ x, name]"
    using path_parts_cons(2) [of "''www'' @ x" name] path_parts_cons(1) [of name] assms(1-3) by simp
  then have "reached_folder e d (''/www'' @ x @ ''/'' @ name) = (df_id g, True)"
    using assms(4-6) by (simp add: reached_folder_def Let_def)
  moreover have "takeWhile (\<lambda>c. c \<noteq> CHR ''/'') (rev name @ CHR ''/'' # r) = rev name" for r
    using assms(2) by (subst takeWhile_append2) auto
  ultimately show ?thesis using assms(3) by (simp add: FindWebdiskFile_def)
qed

section \<open>One answer for every connection\<close>

definition known_protocol :: "string \<Rightarrow> bool" where
  "known_protocol p \<longleftrightarrow> strcaseeq p ''HTTP/1.0'' \<or> strcaseeq p ''HTTP/1.1''"

definition parsing :: "'y http_scheme \<Rightarrow> bool" where
  "parsing s \<longleftrightarrow> out s = [] \<and> known_protocol (requestProtocol s)"

lemma todo_lineNum [simp]: "todo (s\<lparr>lineNum := n\<rparr>) = todo s"
  by (simp add: todo_def)

lemma request_line_frame:
  "todo (request_line l s) = todo s" "parsing s \<Longrightarrow> parsing (request_line l s)"
  by (simp_all add: request_line_def todo_def parsing_def known_protocol_def Let_def split: option.split prod.split)

lemma request_header_frame:
  "todo (request_header l s) = todo s" "parsing s \<Longrightarrow> parsing (request_header l s)"
  by (simp_all add: request_header_def todo_def parsing_def Let_def split: option.split prod.split)

lemma parsing_lineNum [simp]: "parsing (s\<lparr>lineNum := n\<rparr>) = parsing s" "parsing (s\<lparr>parseStatus := p\<rparr>) = parsing s"
  by (simp_all add: parsing_def)

lemma http_line:
  assumes "HTTP_ProcessLine s = (b, t)"
  shows "todo t = todo s" "parsing s \<Longrightarrow> parsing t"
  using assms by (auto simp: HTTP_ProcessLine_def Let_def request_line_frame request_header_frame split: if_splits)

lemma my_fgets_http: "my_fgets n s = (b, t) \<Longrightarrow> parsing t = parsing s"
  by (auto simp: my_fgets_def read_line_def parsing_def split: prod.splits option.splits if_splits)

interpretation http: line_server "\<lambda>e. my_fgets HTTP_LINEMAX" "\<lambda>e. HTTP_ProcessLine" "\<lambda>_. True" world_changes todo
  "\<lambda>e. parsing" "\<lambda>e. parsing"
proof (unfold_locales, goal_cases)
  case (1 e s s')
  then show ?case by (rule my_fgets_todo) (simp add: HTTP_LINEMAX_def)
next
  case (2 e s b s')
  then show ?case using http_line(1) [OF 2] by simp
next
  case (4 e s b s')
  then show ?case using my_fgets_http by blast
next
  case (7 e s s')
  then have "s' = s\<lparr>wld := wld s'\<rparr>" by (simp add: world_changes_def)
  moreover have "parsing (s\<lparr>wld := wld s'\<rparr>) = parsing s" by (simp add: parsing_def)
  ultimately show ?case using 7(1) by simp
qed (auto dest: http_line)



lemma HTTP_path_walk_witness:
  "FindWebdiskFile www_env www_disk ''/www/a.html'' 1 = Some (hd (wd_files www_disk)) \<and>
   FindWebdiskFile www_env www_disk ''/www/a.html'' 2 = None"
  using HTTP_path_walk [of "[]" "''a.html''" www_env www_disk "hd (wd_folders www_disk)" "[]" 1]
    HTTP_path_walk [of "[]" "''a.html''" www_env www_disk "hd (wd_folders www_disk)" "[]" 2]
  by (simp add: www_env_def www_disk_def sample_env_def env.defs strcaseeq_def)


end
