(* ===== verification/Sendmail.thy ===== *)
theory Sendmail
  imports SmtpClient
begin

text \<open>
  The replacement of the sendmail program (src/sendmail): its configuration file, its arguments, the
  message that is read from the standard input with the Bcc fields taken out, the recipients, and
  the delivery to the SMTP server. Its socket class has the operations that theory Socket models.
\<close>

section \<open>Configuration\<close>

text \<open>What the program asks the system for.\<close>

record sm_env =
  sm_config :: "string option"                     \<comment> \<open>the contents of \<open>/etc/bms-sendmail.conf\<close>\<close>
  sm_host :: "string option"                       \<comment> \<open>\<open>gethostname\<close>\<close>
  sm_user :: "string option"                       \<comment> \<open>\<open>getpwuid\<close>\<close>
  sm_uid :: int
  sm_date :: string                                \<comment> \<open>\<open>strftime\<close> of the local time\<close>
  sm_zone :: string
  sm_timezone :: int                               \<comment> \<open>\<open>GetTimeZone\<close>, the offset in hours and hundredths\<close>
  sm_match :: "string \<Rightarrow> (nat \<times> nat) option"      \<comment> \<open>first match of the address pattern\<close>
  sm_connect :: "string \<Rightarrow> int \<Rightarrow> string + sock"

type_synonym sm_cfg = "string \<rightharpoonup> string"

text \<open>\<open>getline\<close> until the end of the stream.\<close>

fun getlines_from :: "string \<Rightarrow> string \<Rightarrow> string list" where
  "getlines_from acc [] = (if acc = [] then [] else [acc])"
| "getlines_from acc (c # cs) = (if c = NL then acc # getlines_from [] cs else getlines_from (acc @ [c]) cs)"

definition getlines :: "string \<Rightarrow> string list" where
  "getlines s = getlines_from [] s"

definition sm_config_line :: "sm_cfg \<Rightarrow> string \<Rightarrow> sm_cfg" where
  "sm_config_line m l =
     (if length l < 3 \<or> hd l = CHR ''#'' then m
      else (case find_chr (CHR ''='') l of
              None \<Rightarrow> m
            | Some i \<Rightarrow> m(StrToLower (Trim (take i l) blanks) \<mapsto> Trim (drop (i + 1) l) blanks)))"

definition sm_Config :: "sm_env \<Rightarrow> string + sm_cfg" where
  "sm_Config e =
     (let m = [''smtp_host'' \<mapsto> ''localhost'', ''smtp_port'' \<mapsto> ''25'', ''smtp_auth'' \<mapsto> ''0''];
          m1 = (case sm_host e of None \<Rightarrow> m | Some h \<Rightarrow> m(''hostname'' \<mapsto> h))
      in case sm_config e of
           None \<Rightarrow> Inl ''fatal: failed to open config file: /etc/bms-sendmail.conf''
         | Some d \<Rightarrow> Inr (foldl sm_config_line m1 (getlines d)))"

definition sm_get :: "sm_cfg \<Rightarrow> string \<Rightarrow> string" where
  "sm_get m k = (case m k of Some v \<Rightarrow> v | None \<Rightarrow> [])"

section \<open>The context\<close>

record sendmail =
  FLAG_DOTEXIT :: bool
  FLAG_EXTRACTRECIPIENTS :: bool
  Sender :: string
  ReturnPath :: string
  Recipients :: "string list"
  Headers :: "string \<rightharpoonup> string"
  LastHeaderKey :: string
  tmpFile :: string

definition new_sendmail :: sendmail where
  "new_sendmail = \<lparr>FLAG_DOTEXIT = True, FLAG_EXTRACTRECIPIENTS = False, Sender = [], ReturnPath = [], Recipients = [],
     Headers = Map.empty, LastHeaderKey = [], tmpFile = []\<rparr>"

definition header_of :: "sendmail \<Rightarrow> string \<Rightarrow> string" where
  "header_of c k = (case Headers c k of Some v \<Rightarrow> v | None \<Rightarrow> [])"

definition add_recipient :: "string \<Rightarrow> string list \<Rightarrow> string list" where
  "add_recipient r rs = (if \<exists>x \<in> set rs. strcaseeq x r then rs else rs @ [r])"

definition local_user :: "sm_env \<Rightarrow> string" where
  "local_user e = (case sm_user e of Some u \<Rightarrow> u | None \<Rightarrow> ''unknown'')"

definition WriteFromHeader :: "sm_env \<Rightarrow> sm_cfg \<Rightarrow> sendmail \<Rightarrow> sendmail" where
  "WriteFromHeader e m c =
     (let from = local_user e @ ''@'' @ sm_get m ''hostname'' @ '' ('' @ local_user e @ '')''
      in c\<lparr>tmpFile := tmpFile c @ ''From: '' @ cstr from @ CRLF, Headers := (Headers c)(''from'' \<mapsto> from)\<rparr>)"

text \<open>\<open>%04d\<close>: a negative number has its sign in the four places.\<close>

definition four_digits :: "int \<Rightarrow> string" where
  "four_digits n =
     (if n < 0 then ''-'' @ pad_left 3 (CHR ''0'') (show_int (- n)) else pad_left 4 (CHR ''0'') (show_int n))"

definition WriteReceivedHeader :: "sm_env \<Rightarrow> sm_cfg \<Rightarrow> sendmail \<Rightarrow> sendmail" where
  "WriteReceivedHeader e m c =
     c\<lparr>tmpFile := tmpFile c @ ''Received: from local user (id '' @ show_int (sm_uid e) @ '')'' @ CRLF @
         [TAB] @ ''by '' @ cstr (sm_get m ''hostname'') @ '' (b1gMailServer-sendmail-wrapper);'' @ CRLF @
         [TAB] @ sm_date e @ (if 0 \<le> sm_timezone e then '' +'' else '' -'') @ four_digits (sm_timezone e) @
         '' ('' @ sm_zone e @ '')'' @ CRLF\<rparr>"

text \<open>One line of the header; the answer says whether it stays in the message.\<close>

definition ParseHeaderLine :: "string \<Rightarrow> sendmail \<Rightarrow> bool \<times> sendmail" where
  "ParseHeaderLine l c =
     (let dp = find_chr (CHR '':'') l; ws = find_pos (\<lambda>x. x = TAB \<or> x = CHR '' '') l;
          c1 = (if dp \<noteq> None \<and> (ws = None \<or> the dp < the ws)
                then let key = StrToLower (Trim (take (the dp) l) blanks); v = Trim (drop (the dp + 1) l) blanks
                     in c\<lparr>Headers := (Headers c)(key \<mapsto>
                             (case Headers c key of Some w \<Rightarrow> Trim (w @ '' '' @ v) blanks | None \<Rightarrow> v)),
                          LastHeaderKey := key\<rparr>
                else if ws \<noteq> None \<and> LastHeaderKey c \<noteq> []
                then c\<lparr>Headers := (Headers c)(LastHeaderKey c \<mapsto>
                         Trim (header_of c (LastHeaderKey c) @ '' '' @ Trim l blanks) blanks)\<rparr>
                else c\<lparr>LastHeaderKey := []\<rparr>)
      in (LastHeaderKey c1 \<noteq> ''bcc'', c1))"

section \<open>Recipients\<close>

text \<open>All matches of the pattern; it does not match an empty text.\<close>

function ExtractMailAddresses :: "sm_env \<Rightarrow> string \<Rightarrow> string list \<Rightarrow> string list" where
  "ExtractMailAddresses e s dest =
     (case sm_match e s of
        None \<Rightarrow> dest
      | Some (a, b) \<Rightarrow>
          if a < b \<and> b \<le> length s
          then ExtractMailAddresses e (drop b s) (add_recipient (take (b - a) (drop a s)) dest)
          else dest)"
  by pat_completeness auto

termination
  by (relation "measure (\<lambda>(e, s, dest). length s)") auto

declare ExtractMailAddresses.simps [simp del]

definition ExtractRecipients :: "sm_env \<Rightarrow> sm_cfg \<Rightarrow> sendmail \<Rightarrow> sendmail" where
  "ExtractRecipients e m c =
     (let c1 = c\<lparr>Recipients := ExtractMailAddresses e
            (header_of c ''to'' @ '' '' @ header_of c ''cc'' @ '' '' @ header_of c ''bcc'') (Recipients c)\<rparr>
      in if Sender c = [] then c1\<lparr>Sender := local_user e @ ''@'' @ sm_get m ''hostname''\<rparr> else c1)"

section \<open>Arguments\<close>

definition ignored_args :: "string list" where
  "ignored_args = [''-Am'', ''-Ac'', ''-bh'', ''-bH'', ''-bm'', ''-m'', ''-o7'', ''-o8'', ''-om'', ''-U'', ''--'']"

text \<open>The arguments behind the program's name. An error carries what was printed before it and its text.\<close>

fun parse_args :: "string \<Rightarrow> string list \<Rightarrow> sendmail \<Rightarrow> (string \<times> string) + sendmail" where
  "parse_args prog [] c = Inr c"
| "parse_args prog (a # as) c =
     (if a \<in> set ignored_args then parse_args prog as c
      else if a = ''-oi'' \<or> a = ''-i'' then parse_args prog as (c\<lparr>FLAG_DOTEXIT := False\<rparr>)
      else if a = ''-t'' then parse_args prog as (c\<lparr>FLAG_EXTRACTRECIPIENTS := True\<rparr>)
      else if a = ''-B''
      then if as \<noteq> [] \<and> (strcaseeq (hd as) ''7BIT'' \<or> strcaseeq (hd as) ''8BITMIME'') then parse_args prog as c
           else Inl ([], ''fatal: -B option needs 8BITMIME or 7BIT'')
      else if a = ''-h''
      then (case as of [] \<Rightarrow> Inl ([], ''fatal: -h needs hop count'') | _ # r \<Rightarrow> parse_args prog r c)
      else if a = ''-F''
      then (case as of [] \<Rightarrow> Inl ([], ''fatal: -F needs sender name'') | x # r \<Rightarrow> parse_args prog r (c\<lparr>Sender := x\<rparr>))
      else if a = ''-f'' \<or> a = ''-r''
      then (case as of
              [] \<Rightarrow> Inl ([], ''fatal: '' @ a @ '' needs return path'')
            | x # r \<Rightarrow> parse_args prog r (c\<lparr>ReturnPath := x\<rparr>))
      else if a \<noteq> [] \<and> hd a = CHR ''-''
      then Inl (prog @ '': illegal option -- '' @ a @ [NL], ''fatal: usage '' @ prog @ '' [options]'')
      else parse_args prog as (c\<lparr>Recipients := add_recipient a (Recipients c)\<rparr>))"

section \<open>The message\<close>

fun read_message :: "sm_env \<Rightarrow> sm_cfg \<Rightarrow> bool \<Rightarrow> string list \<Rightarrow> sendmail \<Rightarrow> sendmail" where
  "read_message e m passed [] c = c"
| "read_message e m passed (x # xs) c =
     (let l = RTrim x blanks @ CRLF
      in if FLAG_DOTEXIT c \<and> l = ''.'' @ CRLF then c
         else let blank = (\<not> passed \<and> l = CRLF);
                  c1 = (if blank \<and> header_of c ''from'' = [] then WriteFromHeader e m c else c);
                  (keep, c2) = (if \<not> passed \<and> \<not> blank then ParseHeaderLine l c1 else (True, c1))
              in read_message e m (passed \<or> blank) xs (if keep then c2\<lparr>tmpFile := tmpFile c2 @ l\<rparr> else c2))"

section \<open>Delivery\<close>

text \<open>Operations on the socket; an exception ends the session.\<close>

type_synonym 'a sm_call = "sock \<Rightarrow> (string + 'a) \<times> sock"

definition sm_ret :: "'a \<Rightarrow> 'a sm_call" where "sm_ret a k = (Inr a, k)"

definition sm_then :: "'a sm_call \<Rightarrow> ('a \<Rightarrow> 'b sm_call) \<Rightarrow> 'b sm_call" where
  "sm_then x f k = (case x k of (Inl err, k1) \<Rightarrow> (Inl err, k1) | (Inr a, k1) \<Rightarrow> f a k1)"

definition sm_Write :: "string \<Rightarrow> int sm_call" where
  "sm_Write t k = (case sk_Write t k of (Wrote n, k1) \<Rightarrow> (Inr n, k1) | (WriteTimeout, k1) \<Rightarrow> (Inl ''socket write timeout'', k1))"

definition sm_PrintF :: "string \<Rightarrow> unit sm_call" where
  "sm_PrintF t = sm_then (sm_Write t) (\<lambda>_. sm_ret ())"

text \<open>The response, empty for a failure.\<close>

definition ReadResponse :: "string sm_call" where
  "ReadResponse k =
     (case response_lines k [] of
        (ReadTimeout, r, k1) \<Rightarrow> (Inl ''socket read timeout'', k1)
      | (_, r, k1) \<Rightarrow> (Inr r, k1))"

definition sm_ask :: "string \<Rightarrow> string sm_call" where
  "sm_ask t = sm_then (sm_PrintF t) (\<lambda>_. ReadResponse)"

text \<open>The text for a response that is not the expected one.\<close>

definition answer_text :: "string \<Rightarrow> string \<Rightarrow> string \<Rightarrow> string \<Rightarrow> string" where
  "answer_text temp fatal other r =
     (if starts_with ''4'' r then temp else if starts_with ''5'' r then fatal else other) @
     CRLF @ ''Server answered: '' @ [DQUOTE] @ Trim r blanks @ [DQUOTE]"

function pass_through :: "string \<Rightarrow> unit sm_call" where
  "pass_through d k =
     (case fgets MAIL_LINEMAX d of
        None \<Rightarrow> (Inr (), k)
      | Some (c, rest) \<Rightarrow>
          if cstr c = [] then (Inr (), k)
          else let l = sent_line (cstr c)
               in case (if hd l = CHR ''.'' then sm_Write ''.'' k else (Inr 0, k)) of
                    (Inl x, k1) \<Rightarrow> (Inl x, k1)
                  | (Inr _, k1) \<Rightarrow>
                      (case sm_Write l k1 of
                         (Inl x, k2) \<Rightarrow> (Inl x, k2)
                       | (Inr n, k2) \<Rightarrow> if n \<noteq> int (length l) then (Inr (), k2) else pass_through rest k2))"
  by pat_completeness auto

termination
  by (relation "measure (\<lambda>(d, s). length d)") (auto simp: MAIL_LINEMAX_def dest: fgets_decreases)

declare pass_through.simps [simp del]

text \<open>The recipients one by one: false as soon as one is not accepted.\<close>

fun send_recipients :: "string list \<Rightarrow> bool sm_call" where
  "send_recipients [] = sm_ret True"
| "send_recipients (r # rs) =
     sm_then (sm_ask (''RCPT TO:<'' @ cstr r @ ''>'' @ CRLF)) (\<lambda>a.
       if starts_with ''250'' a then send_recipients rs else sm_ret False)"

text \<open>The stages from the last to the first: the outcome is \<open>None\<close> for success or the status text.\<close>

definition send_message :: "sendmail \<Rightarrow> string option sm_call" where
  "send_message c =
     sm_then (sm_ask (''DATA'' @ CRLF)) (\<lambda>r.
       if r = [] then sm_ret (Some ''Failed to read relay server answer (5)'')
       else if \<not> starts_with ''354'' r
       then sm_ret (Some (answer_text ''Temporary relay server error (5)''
              ''Relay server rejected data transfer initialization (5)'' ''Unexpected relay server response (5)'' r))
       else sm_then (pass_through (tmpFile c)) (\<lambda>_.
              sm_then (sm_ask (CRLF @ ''.'' @ CRLF)) (\<lambda>r.
                if r = [] then sm_ret (Some ''Failed to read relay server answer (6)'')
                else if starts_with ''250'' r then sm_ret None
                else sm_ret (Some (answer_text ''Temporary relay server error (6)''
                       ''Relay server rejected message acceptance (6)'' ''Unexpected relay server response (6)'' r)))))"

definition send_envelope :: "sendmail \<Rightarrow> string option sm_call" where
  "send_envelope c =
     sm_then (sm_ask (''MAIL FROM:<'' @ cstr (Sender c) @ ''>'' @ CRLF)) (\<lambda>r.
       if r = [] then sm_ret (Some ''Failed to read relay server answer (3)'')
       else if \<not> starts_with ''250'' r
       then sm_ret (Some (answer_text ''Temporary relay server error (3)'' ''Relay server rejected return path (3)''
              ''Unexpected relay server response (3)'' r))
       else sm_then (send_recipients (Recipients c)) (\<lambda>ok.
              if ok then send_message c else sm_ret (Some ''Relay server rejected one or more recipients'')))"

text \<open>AUTH LOGIN: whether the server has accepted user and password.\<close>

definition sm_login :: "sm_cfg \<Rightarrow> bool sm_call" where
  "sm_login m =
     sm_then (sm_ask (''AUTH LOGIN'' @ CRLF)) (\<lambda>r.
       if \<not> starts_with ''334'' r then sm_ret False
       else sm_then (sm_ask (Base64Encode False (map byte_of (sm_get m ''smtp_user'')) @ CRLF)) (\<lambda>r.
         if \<not> starts_with ''334'' r then sm_ret False
         else sm_then (sm_ask (Base64Encode False (map byte_of (sm_get m ''smtp_pass'')) @ CRLF)) (\<lambda>r.
           sm_ret (starts_with ''235'' r))))"

definition sm_hostname :: "sm_cfg \<Rightarrow> string" where
  "sm_hostname m = (if sm_get m ''hostname'' = [] then ''unknown'' else sm_get m ''hostname'')"

definition send_hello :: "sm_cfg \<Rightarrow> sendmail \<Rightarrow> string option sm_call" where
  "send_hello m c =
     (let login = (sm_get m ''smtp_auth'' = ''1'')
      in sm_then (sm_ask ((if login then ''EHLO '' else ''HELO '') @ cstr (sm_hostname m) @ CRLF)) (\<lambda>r.
           if r = [] then sm_ret (Some ''Failed to read relay server answer (2)'')
           else if \<not> starts_with ''250'' r
           then sm_ret (Some (answer_text ''Temporary relay server (2)'' ''Fatal relay server error (2)''
                  ''Unexpected relay server response (2)'' r))
           else sm_then (if login then sm_login m else sm_ret True) (\<lambda>ok.
                  if ok then send_envelope c
                  else sm_ret (Some ''Relay server authentication failed - configuration error?''))))"

definition sm_session :: "sm_cfg \<Rightarrow> sendmail \<Rightarrow> string option sm_call" where
  "sm_session m c =
     sm_then ReadResponse (\<lambda>r.
       if r = [] then sm_ret (Some ''Failed to read relay server greeting (1)'')
       else sm_then
              (if starts_with ''220'' r then send_hello m c
               else sm_ret (Some (answer_text ''Temporary relay server error (1)'' ''Fatal relay server error (1)''
                      ''Unexpected relay server response (1)'' r)))
              (\<lambda>v. sm_then (sm_ask (''QUIT'' @ CRLF)) (\<lambda>_. sm_ret v)))"

definition sm_port :: "sm_cfg \<Rightarrow> int" where
  "sm_port m =
     (case scan_int (cstr (sm_get m ''smtp_port'')) of
        Some (n, _) \<Rightarrow> if to_int32 n = 0 then 25 else to_int32 n
      | None \<Rightarrow> 25)"

definition Deliver :: "sm_env \<Rightarrow> sm_cfg \<Rightarrow> sendmail \<Rightarrow> (string + unit) \<times> sock option" where
  "Deliver e m c =
     (let fatal = (\<lambda>t. ''fatal: error during SMTP session: '' @ t)
      in case sm_connect e (cstr (sm_get m ''smtp_host'')) (sm_port m) of
           Inl err \<Rightarrow> (Inl (fatal err), None)
         | Inr k \<Rightarrow>
             (case sm_session m c k of
                (Inl err, k1) \<Rightarrow> (Inl (fatal err), Some k1)
              | (Inr (Some info), k1) \<Rightarrow> (Inl (fatal info), Some k1)
              | (Inr None, k1) \<Rightarrow> (Inr (), Some k1)))"

text \<open>The program: its exit code, what it prints, and the connection as it was left.\<close>

definition sendmail_message :: "sm_env \<Rightarrow> sm_cfg \<Rightarrow> string \<Rightarrow> sendmail \<Rightarrow> sendmail" where
  "sendmail_message e m input c =
     ExtractRecipients e m (read_message e m False (getlines input) (WriteReceivedHeader e m c))"

definition sendmail_main :: "sm_env \<Rightarrow> string \<Rightarrow> string list \<Rightarrow> string \<Rightarrow> int \<times> string \<times> sock option" where
  "sendmail_main e prog args input =
     (let failed = (\<lambda>printed t k. (1, printed @ prog @ '': '' @ t @ [NL], k))
      in case sm_Config e of
           Inl err \<Rightarrow> failed [] err None
         | Inr m \<Rightarrow>
             (case parse_args prog args new_sendmail of
                Inl (printed, err) \<Rightarrow> failed printed err None
              | Inr c \<Rightarrow>
                  (let c1 = sendmail_message e m input c
                   in if Recipients c1 = [] then failed [] ''fatal: no recipients specified'' None
                      else (case Deliver e m c1 of
                              (Inl err, k) \<Rightarrow> failed [] err k
                            | (Inr _, k) \<Rightarrow> (0, [], k)))))"

end
