(* ===== verification/Sendmail_Correct.thy ===== *)
theory Sendmail_Correct
  imports Sendmail
begin

text \<open>
  The replacement of the sendmail program: the Bcc fields do not reach the message, what the server
  has been sent when the program reports success, and the option whose value becomes a recipient.
\<close>

section \<open>The header\<close>

text \<open>A field: its name, the rest of its line, and the lines that continue it.\<close>

type_synonym field = "string \<times> string \<times> string list"

definition field_lines :: "field \<Rightarrow> string list" where
  "field_lines f = (case f of (k, v, cs) \<Rightarrow> (k @ '':'' @ v) # cs)"

definition plain_name :: "string \<Rightarrow> bool" where
  "plain_name k \<longleftrightarrow> k \<noteq> [] \<and> CHR '':'' \<notin> set k \<and> (\<forall>b \<in> set blanks. b \<notin> set k)"

definition plain_field :: "field \<Rightarrow> bool" where
  "plain_field f \<longleftrightarrow>
     plain_name (fst f) \<and> (\<forall>c \<in> set (snd (snd f)). c \<noteq> [] \<and> hd c \<in> {TAB, CHR '' ''} \<and> RTrim c blanks \<noteq> [])"

definition is_bcc :: "field \<Rightarrow> bool" where
  "is_bcc f \<longleftrightarrow> StrToLower (fst f) = ''bcc''"

definition stored :: "string \<Rightarrow> string" where
  "stored l = RTrim l blanks @ CRLF"

lemma find_pos_skip: "\<forall>x \<in> set a. \<not> p x \<Longrightarrow> find_pos p (a @ b) = map_option ((+) (length a)) (find_pos p b)"
  by (induction a) (cases "find_pos p b"; simp)+

lemma drop_last_append: "c \<notin> set d \<Longrightarrow> drop_last_while (\<lambda>x. x \<in> set d) (a @ c # b) = a @ c # drop_last_while (\<lambda>x. x \<in> set d) b"
  by (induction b rule: rev_induct) (auto simp flip: append_assoc append_Cons)

lemma stored_first:
  assumes "plain_name k"
  shows "\<exists>w. stored (k @ '':'' @ v) = k @ CHR '':'' # w"
  using drop_last_append [of "CHR '':''" blanks k v] by (simp add: stored_def RTrim_def)

lemma Parse_first:
  assumes "plain_name k"
  shows "LastHeaderKey (snd (ParseHeaderLine (stored (k @ '':'' @ v)) c)) = StrToLower k"
    "fst (ParseHeaderLine (stored (k @ '':'' @ v)) c) \<longleftrightarrow> StrToLower k \<noteq> ''bcc''"
    "tmpFile (snd (ParseHeaderLine (stored (k @ '':'' @ v)) c)) = tmpFile c"
proof -
  obtain w where w: "stored (k @ '':'' @ v) = k @ CHR '':'' # w" using stored_first [OF assms] by blast
  have dp: "find_chr (CHR '':'') (k @ CHR '':'' # w) = Some (length k)"
    using assms by (subst find_pos_skip) (auto simp: plain_name_def)
  have ws: "find_pos (\<lambda>x. x = TAB \<or> x = CHR '' '') (k @ CHR '':'' # w) =
      map_option (\<lambda>n. length k + Suc n) (find_pos (\<lambda>x. x = TAB \<or> x = CHR '' '') w)"
    using assms by (subst find_pos_skip) (auto simp: plain_name_def option.map_comp comp_def)
  have t: "Trim k blanks = k"
  proof -
    have "x \<notin> set blanks" if "x \<in> set k" for x using assms that unfolding plain_name_def by blast
    moreover have "k \<noteq> []" using assms by (simp add: plain_name_def)
    ultimately have "hd k \<notin> set blanks" "last k \<notin> set blanks" "k \<noteq> []" by (auto simp del: list.set)
    then show ?thesis
      by (cases k rule: rev_cases) (auto simp: Trim_def drop_last_while_def intro: dropWhile_eq_self_iff [THEN iffD2])
  qed
  show "LastHeaderKey (snd (ParseHeaderLine (stored (k @ '':'' @ v)) c)) = StrToLower k"
    "fst (ParseHeaderLine (stored (k @ '':'' @ v)) c) \<longleftrightarrow> StrToLower k \<noteq> ''bcc''"
    "tmpFile (snd (ParseHeaderLine (stored (k @ '':'' @ v)) c)) = tmpFile c"
    unfolding w ParseHeaderLine_def Let_def dp ws using t
    by (cases "find_pos (\<lambda>x. x = TAB \<or> x = CHR '' '') w"; simp)+
qed

lemma RTrim_hd: "RTrim c blanks \<noteq> [] \<Longrightarrow> \<exists>r. RTrim c blanks = hd c # r"
  unfolding RTrim_def drop_last_while_def
  by (metis append_Nil2 dropWhile_eq_Nil_conv hd_append2 hd_conv_nth list.exhaust_sel rev_append rev_rev_ident takeWhile_dropWhile_id)

lemma Parse_more:
  assumes "c \<noteq> []" "hd c \<in> {TAB, CHR '' ''}" "RTrim c blanks \<noteq> []" and "LastHeaderKey s \<noteq> []"
  shows "LastHeaderKey (snd (ParseHeaderLine (stored c) s)) = LastHeaderKey s"
    "fst (ParseHeaderLine (stored c) s) \<longleftrightarrow> LastHeaderKey s \<noteq> ''bcc''"
    "tmpFile (snd (ParseHeaderLine (stored c) s)) = tmpFile s"
proof -
  obtain r where r: "stored c = hd c # r" using RTrim_hd [OF assms(3)] by (auto simp: stored_def)
  have "find_pos (\<lambda>x. x = TAB \<or> x = CHR '' '') (stored c) = Some 0" using r assms(2) by auto
  then show "LastHeaderKey (snd (ParseHeaderLine (stored c) s)) = LastHeaderKey s"
    "fst (ParseHeaderLine (stored c) s) \<longleftrightarrow> LastHeaderKey s \<noteq> ''bcc''"
    "tmpFile (snd (ParseHeaderLine (stored c) s)) = tmpFile s"
    using assms(4) by (simp_all add: ParseHeaderLine_def Let_def)
qed


section \<open>The message\<close>

declare read_message.simps(2) [simp del]

lemma stored_not_dot: "plain_name k \<Longrightarrow> stored (k @ '':'' @ v) \<noteq> ''.'' @ CRLF \<and> stored (k @ '':'' @ v) \<noteq> CRLF"
proof -
  assume k: "plain_name k"
  then obtain w where "stored (k @ '':'' @ v) = k @ CHR '':'' # w" using stored_first by blast
  then have "CHR '':'' \<in> set (stored (k @ '':'' @ v))" by simp
  then show ?thesis by auto
qed

lemma stored_more_not_dot:
  assumes "hd c \<in> {TAB, CHR '' ''}" "RTrim c blanks \<noteq> []"
  shows "stored c \<noteq> ''.'' @ CRLF \<and> stored c \<noteq> CRLF"
  using RTrim_hd [OF assms(2)] assms(1) by (auto simp: stored_def)

lemma read_step:
  assumes "stored x \<noteq> ''.'' @ CRLF" "stored x \<noteq> CRLF" and "ParseHeaderLine (stored x) c = (keep, c2)"
  shows "read_message e m False (x # xs) c =
    read_message e m False xs (if keep then c2\<lparr>tmpFile := tmpFile c2 @ stored x\<rparr> else c2)"
  using assms by (simp add: read_message.simps(2) stored_def [symmetric])

lemma read_more:
  assumes "\<forall>c \<in> set cs. c \<noteq> [] \<and> hd c \<in> {TAB, CHR '' ''} \<and> RTrim c blanks \<noteq> []" and "LastHeaderKey s \<noteq> []"
  shows "\<exists>t. read_message e m False (cs @ xs) s = read_message e m False xs t \<and> LastHeaderKey t = LastHeaderKey s \<and>
    tmpFile t = tmpFile s @ (if LastHeaderKey s = ''bcc'' then [] else concat (map stored cs))"
  using assms
proof (induction cs arbitrary: s)
  case (Cons c cs)
  obtain keep s2 where p: "ParseHeaderLine (stored c) s = (keep, s2)" by fastforce
  have more: "LastHeaderKey s2 = LastHeaderKey s" "keep \<longleftrightarrow> LastHeaderKey s \<noteq> ''bcc''" "tmpFile s2 = tmpFile s"
    using Parse_more [of c s] Cons.prems p by auto
  let ?s = "if keep then s2\<lparr>tmpFile := tmpFile s2 @ stored c\<rparr> else s2"
  have "read_message e m False ((c # cs) @ xs) s = read_message e m False (cs @ xs) ?s"
    using read_step [OF _ _ p] stored_more_not_dot [of c] Cons.prems by simp
  moreover have c1: "\<forall>c \<in> set cs. c \<noteq> [] \<and> hd c \<in> {TAB, CHR '' ''} \<and> RTrim c blanks \<noteq> []" using Cons.prems(1) by simp
  moreover have c2: "LastHeaderKey ?s \<noteq> []" using Cons.prems(2) more(1) by simp
  moreover obtain t where "read_message e m False (cs @ xs) ?s = read_message e m False xs t" "LastHeaderKey t = LastHeaderKey ?s"
      "tmpFile t = tmpFile ?s @ (if LastHeaderKey ?s = ''bcc'' then [] else concat (map stored cs))"
    using Cons.IH [OF c1 c2] by blast
  ultimately show ?case using more by (intro exI [of _ t]) simp
qed auto

lemma read_field:
  assumes "plain_field f"
  shows "\<exists>t. read_message e m False (field_lines f @ xs) s = read_message e m False xs t \<and>
    tmpFile t = tmpFile s @ (if is_bcc f then [] else concat (map stored (field_lines f)))"
proof -
  obtain k v cs where f: "f = (k, v, cs)" by (cases f)
  have k: "plain_name k" and cs: "\<forall>c \<in> set cs. c \<noteq> [] \<and> hd c \<in> {TAB, CHR '' ''} \<and> RTrim c blanks \<noteq> []"
    using assms by (auto simp: plain_field_def f)
  obtain keep s2 where p: "ParseHeaderLine (stored (k @ '':'' @ v)) s = (keep, s2)" by fastforce
  have first: "LastHeaderKey s2 = StrToLower k" "keep \<longleftrightarrow> StrToLower k \<noteq> ''bcc''" "tmpFile s2 = tmpFile s"
    using Parse_first [OF k, of v s] p by auto
  let ?s = "if keep then s2\<lparr>tmpFile := tmpFile s2 @ stored (k @ '':'' @ v)\<rparr> else s2"
  have ne: "LastHeaderKey ?s \<noteq> []" using first k by (auto simp: StrToLower_def plain_name_def)
  obtain t where "read_message e m False (cs @ xs) ?s = read_message e m False xs t"
      "tmpFile t = tmpFile ?s @ (if LastHeaderKey ?s = ''bcc'' then [] else concat (map stored cs))"
    using read_more [OF cs ne] by blast
  moreover have "read_message e m False (field_lines f @ xs) s = read_message e m False (cs @ xs) ?s"
    using read_step [OF _ _ p] stored_not_dot [OF k] by (simp add: field_lines_def f)
  ultimately show ?thesis using first by (auto simp: field_lines_def f is_bcc_def)
qed

lemma read_fields:
  assumes "\<forall>f \<in> set fs. plain_field f"
  shows "\<exists>t. read_message e m False (concat (map field_lines fs) @ xs) s = read_message e m False xs t \<and>
    tmpFile t = tmpFile s @ concat (map stored (concat (map field_lines (filter (\<lambda>f. \<not> is_bcc f) fs))))"
  using assms
proof (induction fs arbitrary: s)
  case (Cons f fs)
  obtain t where t: "read_message e m False (field_lines f @ concat (map field_lines fs) @ xs) s =
        read_message e m False (concat (map field_lines fs) @ xs) t"
      "tmpFile t = tmpFile s @ (if is_bcc f then [] else concat (map stored (field_lines f)))"
    using read_field [of f e m "concat (map field_lines fs) @ xs" s] Cons.prems by (auto simp del: read_message.simps)
  obtain u where "read_message e m False (concat (map field_lines fs) @ xs) t = read_message e m False xs u"
      "tmpFile u = tmpFile t @ concat (map stored (concat (map field_lines (filter (\<lambda>f. \<not> is_bcc f) fs))))"
    using Cons by auto
  then show ?case using t by (intro exI [of _ u]) simp
qed auto

lemma read_body:
  "tmpFile (read_message e m True xs s) =
     tmpFile s @ concat (map stored (takeWhile (\<lambda>x. \<not> (FLAG_DOTEXIT s \<and> stored x = ''.'' @ CRLF)) xs))"
  by (induction xs arbitrary: s) (auto simp: read_message.simps(2) stored_def [symmetric])

text \<open>
  C25: a message whose header consists of fields with plain names: what is kept for delivery is the
  fields that are not called Bcc (in whatever case), each with its continuation lines and none of
  another, perhaps a From field of the program's own, the empty line and the body up to a lone
  dot. No line of a Bcc field reaches the server.
\<close>

theorem Sendmail_bcc_removed:
  assumes "\<forall>f \<in> set fs. plain_field f"
  shows "\<exists>own dots. own \<in> {[], ''From: '' @ cstr (local_user e @ ''@'' @ sm_get m ''hostname'' @ '' ('' @ local_user e @ '')'') @ CRLF} \<and>
    tmpFile (read_message e m False (concat (map field_lines fs) @ [] # body) c) =
      tmpFile c @ concat (map stored (concat (map field_lines (filter (\<lambda>f. \<not> is_bcc f) fs)))) @ own @ CRLF @
      concat (map stored (takeWhile (\<lambda>x. \<not> (dots \<and> stored x = ''.'' @ CRLF)) body))"
proof -
  obtain t where t: "read_message e m False (concat (map field_lines fs) @ [] # body) c = read_message e m False ([] # body) t"
      "tmpFile t = tmpFile c @ concat (map stored (concat (map field_lines (filter (\<lambda>f. \<not> is_bcc f) fs))))"
    using read_fields [OF assms] by blast
  let ?f = "if header_of t ''from'' = [] then WriteFromHeader e m t else t"
  have "read_message e m False ([] # body) t = read_message e m True body (?f\<lparr>tmpFile := tmpFile ?f @ CRLF\<rparr>)"
    by (simp add: read_message.simps(2) RTrim_def Let_def)
  then have "tmpFile (read_message e m False (concat (map field_lines fs) @ [] # body) c) =
      tmpFile ?f @ CRLF @ concat (map stored (takeWhile (\<lambda>x. \<not> (FLAG_DOTEXIT ?f \<and> stored x = ''.'' @ CRLF)) body))"
    unfolding t(1) by (simp add: read_body)
  moreover have "tmpFile ?f = tmpFile t \<or> tmpFile ?f = tmpFile t @ ''From: '' @
      cstr (local_user e @ ''@'' @ sm_get m ''hostname'' @ '' ('' @ local_user e @ '')'') @ CRLF"
    by (simp add: WriteFromHeader_def Let_def)
  ultimately show ?thesis unfolding t(2) by (metis append_assoc append_Nil insertI1 insertI2)
qed

text \<open>A system with a server that accepts a message for one recipient.\<close>

definition relay_sock :: sock where
  "relay_sock = \<lparr>sk_in = concat (map (\<lambda>c. c @ '' x'' @ CRLF) [''220'', ''250'', ''250'', ''250'', ''354'', ''250'', ''221'']),
     sk_tls_in = [], sk_stalls = False, sk_out = [], sk_room = []\<rparr>"

definition relay_env :: sm_env where
  "relay_env = \<lparr>sm_config = Some [], sm_host = Some ''h'', sm_user = Some ''u'', sm_uid = 7, sm_date = ''now'', sm_zone = ''UTC'',
     sm_timezone = 0, sm_match = (\<lambda>_. None), sm_connect = (\<lambda>h p. if p = 25 then Inr relay_sock else Inl ''refused'')\<rparr>"

lemma Sendmail_bcc_removed_witness:
  "\<exists>own dots. tmpFile (read_message relay_env Map.empty False [''To: a@b.c'', ''BCC: x@y.z,'', '' u@v.w'', [], ''Hi'', ''.'', ''more''] new_sendmail) =
     ''To: a@b.c'' @ CRLF @ own @ CRLF @ concat (map stored (takeWhile (\<lambda>x. \<not> (dots \<and> stored x = ''.'' @ CRLF)) [''Hi'', ''.'', ''more'']))"
proof -
  let ?fs = "[(''To'', '' a@b.c'', []), (''BCC'', '' x@y.z,'', ['' u@v.w''])]"
  have "\<forall>f \<in> set ?fs. plain_field f"
    by (simp add: plain_field_def plain_name_def RTrim_def drop_last_while_def)
  from Sendmail_bcc_removed [OF this, of relay_env Map.empty "[''Hi'', ''.'', ''more'']" new_sendmail]
  obtain own dots where o: "tmpFile (read_message relay_env Map.empty False (concat (map field_lines ?fs) @ [] # [''Hi'', ''.'', ''more'']) new_sendmail) =
      tmpFile new_sendmail @ concat (map stored (concat (map field_lines (filter (\<lambda>f. \<not> is_bcc f) ?fs)))) @ own @ CRLF @
      concat (map stored (takeWhile (\<lambda>x. \<not> (dots \<and> stored x = ''.'' @ CRLF)) [''Hi'', ''.'', ''more'']))" by blast
  have "concat (map field_lines ?fs) @ [] # [''Hi'', ''.'', ''more''] =
      [''To: a@b.c'', ''BCC: x@y.z,'', '' u@v.w'', [], ''Hi'', ''.'', ''more'']" by (simp add: field_lines_def)
  moreover have "concat (map stored (concat (map field_lines (filter (\<lambda>f. \<not> is_bcc f) ?fs)))) = ''To: a@b.c'' @ CRLF" by code_simp
  ultimately show ?thesis using o by (intro exI [of _ own] exI [of _ dots]) (simp only: new_sendmail_def sendmail.simps append_Nil append_assoc)
qed

section \<open>Success\<close>

text \<open>The bytes of the copy loop when every write takes all of them.\<close>

function dot_text :: "string \<Rightarrow> string" where
  "dot_text d =
     (case fgets MAIL_LINEMAX d of
        None \<Rightarrow> []
      | Some (c, rest) \<Rightarrow>
          if cstr c = [] then []
          else (if hd (sent_line (cstr c)) = CHR ''.'' then ''.'' else []) @ sent_line (cstr c) @ dot_text rest)"
  by pat_completeness auto

termination
  by (relation "measure length") (auto simp: MAIL_LINEMAX_def dest: fgets_decreases)

declare dot_text.simps [simp del]

text \<open>What a successful session has written, with the answers that were read as an assumption of the code.\<close>

definition b64 :: "string \<Rightarrow> string" where
  "b64 t = Base64Encode False (map byte_of t) @ CRLF"

definition hello_text :: "sm_cfg \<Rightarrow> string" where
  "hello_text m =
     (if sm_get m ''smtp_auth'' = ''1''
      then ''EHLO '' @ cstr (sm_hostname m) @ CRLF @ ''AUTH LOGIN'' @ CRLF @ b64 (sm_get m ''smtp_user'') @ b64 (sm_get m ''smtp_pass'')
      else ''HELO '' @ cstr (sm_hostname m) @ CRLF)"

definition envelope_text :: "sendmail \<Rightarrow> string" where
  "envelope_text c =
     ''MAIL FROM:<'' @ cstr (Sender c) @ ''>'' @ CRLF @
     concat (map (\<lambda>r. ''RCPT TO:<'' @ cstr r @ ''>'' @ CRLF) (Recipients c))"

definition session_text :: "sm_cfg \<Rightarrow> sendmail \<Rightarrow> string" where
  "session_text m c =
     hello_text m @ envelope_text c @ ''DATA'' @ CRLF @ dot_text (tmpFile c) @ CRLF @ ''.'' @ CRLF @ ''QUIT'' @ CRLF"

text \<open>An operation that ends without an exception has written \<open>t\<close>, whatever it returns.\<close>

definition writes :: "'a sm_call \<Rightarrow> ('a \<Rightarrow> string \<Rightarrow> bool) \<Rightarrow> bool" where
  "writes x P \<longleftrightarrow>
     (\<forall>k a k1. sk_room k = [] \<longrightarrow> x k = (Inr a, k1) \<longrightarrow> sk_room k1 = [] \<and> (\<exists>t. sk_out k1 = sk_out k @ t \<and> P a t))"

lemma writes_ret: "P a [] \<Longrightarrow> writes (sm_ret a) P"
  by (simp add: writes_def sm_ret_def)

lemma writes_then:
  assumes "writes x P" and "\<And>a. writes (f a) (Q a)" and "\<And>a t b u. P a t \<Longrightarrow> Q a b u \<Longrightarrow> R b (t @ u)"
  shows "writes (sm_then x f) R"
  unfolding writes_def
proof (intro allI impI)
  fix k b k2
  assume k: "sk_room k = []" "sm_then x f k = (Inr b, k2)"
  then obtain a k1 where x: "x k = (Inr a, k1)" "f a k1 = (Inr b, k2)"
    by (auto simp: sm_then_def split: prod.splits sum.splits)
  obtain t where t: "sk_room k1 = []" "sk_out k1 = sk_out k @ t" "P a t" using assms(1) k(1) x(1) unfolding writes_def by blast
  obtain u where u: "sk_room k2 = []" "sk_out k2 = sk_out k1 @ u" "Q a b u" using assms(2) t(1) x(2) unfolding writes_def by blast
  show "sk_room k2 = [] \<and> (\<exists>t. sk_out k2 = sk_out k @ t \<and> R b t)"
    using t u assms(3) [OF t(3) u(3)] by (intro conjI exI [of _ "t @ u"]) simp_all
qed

lemma writes_imp: "writes x P \<Longrightarrow> (\<And>a t. P a t \<Longrightarrow> Q a t) \<Longrightarrow> writes x Q"
  unfolding writes_def by blast

lemma writes_Write: "writes (sm_Write t) (\<lambda>_ u. u = t)"
  by (auto simp: writes_def sm_Write_def sk_Write_all)

lemma writes_PrintF: "writes (sm_PrintF t) (\<lambda>_ u. u = t)"
  unfolding sm_PrintF_def by (rule writes_then [OF writes_Write]) (auto intro: writes_ret)

lemma ReadLine_room [simp]: "sk_room (snd (sk_ReadLine n s)) = sk_room s"
  by (simp add: sk_ReadLine_def Let_def split_beta)

lemma response_lines_keeps:
  "response_lines k acc = (x, r, k1) \<Longrightarrow> sk_out k1 = sk_out k \<and> sk_room k1 = sk_room k"
proof (induction k acc arbitrary: x r k1 rule: response_lines.induct)
  case (1 k acc)
  obtain y k2 where y: "sk_ReadLine 513 k = (y, k2)" by fastforce
  then have "sk_out k2 = sk_out k" "sk_room k2 = sk_room k" using ReadLine_out [of 513 k] ReadLine_room [of 513 k] by auto
  note k2 = this
  have e: "response_lines k acc =
      (case y of Line l \<Rightarrow> if 3 < length l \<and> l ! 3 = CHR ''-'' then response_lines k2 (acc @ l) else (Line l, acc @ l, k2)
       | z \<Rightarrow> (z, acc, k2))"
    by (subst response_lines.simps) (simp add: y split: line.split)
  show ?case
  proof (cases "\<exists>l. y = Line l \<and> 3 < length l \<and> l ! 3 = CHR ''-''")
    case True
    then obtain l where l: "y = Line l" "3 < length l" "l ! 3 = CHR ''-''" by blast
    have "response_lines k2 (acc @ l) = (x, r, k1)" using "1.prems" e l by simp
    then show ?thesis using "1.IH" [OF y [symmetric] l(1)] l k2 by auto
  next
    case False
    then have "k1 = k2" using "1.prems" e by (auto split: line.splits if_splits)
    then show ?thesis using k2 by simp
  qed
qed

lemma writes_ReadResponse: "writes ReadResponse (\<lambda>_ u. u = [])"
  by (auto simp: writes_def ReadResponse_def split: prod.splits line.splits dest: response_lines_keeps)

lemma writes_ask: "writes (sm_ask t) (\<lambda>_ u. u = t)"
  unfolding sm_ask_def by (rule writes_then [OF writes_PrintF]) (auto intro: writes_ReadResponse)

lemma writes_pass: "writes (pass_through d) (\<lambda>_ u. u = dot_text d)"
proof -
  have "sk_room k = [] \<Longrightarrow> pass_through d k = (Inr a, k1) \<Longrightarrow> sk_room k1 = [] \<and> sk_out k1 = sk_out k @ dot_text d" for k a k1
  proof (induction d arbitrary: k rule: dot_text.induct)
    case (1 d)
    show ?case
    proof (cases "fgets MAIL_LINEMAX d")
      case None
      then show ?thesis using 1 by (subst dot_text.simps) (simp add: pass_through.simps)
    next
      case (Some cr)
      obtain c rest where c: "cr = (c, rest)" by fastforce
      show ?thesis
      proof (cases "cstr c = []")
        case True
        then show ?thesis using 1 Some c by (subst dot_text.simps) (simp add: pass_through.simps)
      next
        case False
        let ?l = "sent_line (cstr c)" and ?d = "if hd (sent_line (cstr c)) = CHR ''.'' then ''.'' else []"
        let ?k = "k\<lparr>sk_out := sk_out k @ ?d @ ?l\<rparr>"
        have p: "pass_through d k = pass_through rest ?k"
          using 1(2) Some c False
          unfolding sm_Write_def
          by (subst pass_through.simps) (simp add: Let_def sm_Write_def sk_Write_all)
        have "sk_room k1 = [] \<and> sk_out k1 = sk_out ?k @ dot_text rest"
          by (rule 1(1) [OF Some c [symmetric] False]) (use 1(2,3) p in simp_all)
        then show ?thesis using Some c False by (subst dot_text.simps) simp
      qed
    qed
  qed
  then show ?thesis unfolding writes_def by blast
qed

lemma writes_fail: "writes (sm_ret (Some t)) (\<lambda>v u. v = None \<longrightarrow> P u)" "writes (sm_ret False) (\<lambda>v u. v \<longrightarrow> P u)"
  by (simp_all add: writes_ret)

lemma writes_if: "(b \<Longrightarrow> writes x P) \<Longrightarrow> (\<not> b \<Longrightarrow> writes y P) \<Longrightarrow> writes (if b then x else y) P"
  by simp

lemma writes_asking:
  assumes "\<And>r. writes (f r) (\<lambda>v u. ok v \<longrightarrow> u = w)"
  shows "writes (sm_then (sm_ask t) f) (\<lambda>v u. ok v \<longrightarrow> u = t @ w)"
  by (rule writes_then [OF writes_ask assms]) simp

lemma writes_recipients:
  "writes (send_recipients rs) (\<lambda>v u. v \<longrightarrow> u = concat (map (\<lambda>r. ''RCPT TO:<'' @ cstr r @ ''>'' @ CRLF) rs))"
proof (induction rs)
  case (Cons r rs)
  have "writes (if starts_with ''250'' a then send_recipients rs else sm_ret False)
      (\<lambda>v u. v \<longrightarrow> u = concat (map (\<lambda>r. ''RCPT TO:<'' @ cstr r @ ''>'' @ CRLF) rs))" for a
    by (rule writes_if) (rule Cons, rule writes_fail)
  from writes_asking [where ok = "\<lambda>v. v", OF this] show ?case
    unfolding send_recipients.simps by (rule writes_imp) simp
qed (simp add: writes_ret)

lemma writes_message:
  "writes (send_message c) (\<lambda>v u. v = None \<longrightarrow> u = ''DATA'' @ CRLF @ dot_text (tmpFile c) @ CRLF @ ''.'' @ CRLF)"
proof -
  have last: "writes (sm_then (sm_ask (CRLF @ ''.'' @ CRLF)) (\<lambda>r.
                if r = [] then sm_ret (Some x) else if starts_with ''250'' r then sm_ret None else sm_ret (Some (y r))))
      (\<lambda>v u. v = None \<longrightarrow> u = (CRLF @ ''.'' @ CRLF) @ [])" for x y
    by (intro writes_asking writes_if writes_fail writes_ret) simp
  have "writes (sm_then (pass_through (tmpFile c)) (\<lambda>_. sm_then (sm_ask (CRLF @ ''.'' @ CRLF)) (\<lambda>r.
                if r = [] then sm_ret (Some x) else if starts_with ''250'' r then sm_ret None else sm_ret (Some (y r)))))
      (\<lambda>v u. v = None \<longrightarrow> u = dot_text (tmpFile c) @ CRLF @ ''.'' @ CRLF)" for x y
    by (rule writes_then [OF writes_pass last]) simp
  then have "writes (send_message c) (\<lambda>v u. v = None \<longrightarrow> u = (''DATA'' @ CRLF) @ dot_text (tmpFile c) @ CRLF @ ''.'' @ CRLF)"
    unfolding send_message_def by (intro writes_asking writes_if writes_fail)
  then show ?thesis by (rule writes_imp) simp
qed

lemma writes_envelope:
  "writes (send_envelope c)
     (\<lambda>v u. v = None \<longrightarrow> u = envelope_text c @ ''DATA'' @ CRLF @ dot_text (tmpFile c) @ CRLF @ ''.'' @ CRLF)"
proof -
  let ?w = "''DATA'' @ CRLF @ dot_text (tmpFile c) @ CRLF @ ''.'' @ CRLF"
  have "writes (if ok then send_message c else sm_ret (Some x)) (\<lambda>v u. v = None \<longrightarrow> ok \<and> u = ?w)" for ok x
    by (rule writes_if) (rule writes_imp [OF writes_message], simp, rule writes_ret, simp)
  then have "writes (sm_then (send_recipients (Recipients c)) (\<lambda>ok. if ok then send_message c else sm_ret (Some x)))
      (\<lambda>v u. v = None \<longrightarrow> u = concat (map (\<lambda>r. ''RCPT TO:<'' @ cstr r @ ''>'' @ CRLF) (Recipients c)) @ ?w)" for x
    by (rule writes_then [OF writes_recipients]) simp
  then have "writes (send_envelope c) (\<lambda>v u. v = None \<longrightarrow> u = (''MAIL FROM:<'' @ cstr (Sender c) @ ''>'' @ CRLF) @
      concat (map (\<lambda>r. ''RCPT TO:<'' @ cstr r @ ''>'' @ CRLF) (Recipients c)) @ ?w)"
    unfolding send_envelope_def by (intro writes_asking writes_if writes_fail)
  then show ?thesis by (rule writes_imp) (simp add: envelope_text_def)
qed

lemma writes_login:
  "writes (sm_login m) (\<lambda>v u. v \<longrightarrow> u = ''AUTH LOGIN'' @ CRLF @ b64 (sm_get m ''smtp_user'') @ b64 (sm_get m ''smtp_pass''))"
proof -
  have "writes (sm_login m) (\<lambda>v u. v \<longrightarrow> u = (''AUTH LOGIN'' @ CRLF) @ b64 (sm_get m ''smtp_user'') @ b64 (sm_get m ''smtp_pass'') @ [])"
    unfolding sm_login_def b64_def by (intro writes_asking writes_if writes_fail writes_ret) simp
  then show ?thesis by (rule writes_imp) simp
qed

lemma writes_hello:
  "writes (send_hello m c) (\<lambda>v u. v = None \<longrightarrow>
     u = hello_text m @ envelope_text c @ ''DATA'' @ CRLF @ dot_text (tmpFile c) @ CRLF @ ''.'' @ CRLF)"
proof -
  let ?w = "envelope_text c @ ''DATA'' @ CRLF @ dot_text (tmpFile c) @ CRLF @ ''.'' @ CRLF"
  let ?login = "sm_get m ''smtp_auth'' = ''1''"
  let ?a = "if ?login then ''AUTH LOGIN'' @ CRLF @ b64 (sm_get m ''smtp_user'') @ b64 (sm_get m ''smtp_pass'') else []"
  have env: "writes (if ok then send_envelope c else sm_ret (Some x)) (\<lambda>v u. v = None \<longrightarrow> ok \<and> u = ?w)" for ok x
    by (rule writes_if) (rule writes_imp [OF writes_envelope], simp, rule writes_ret, simp)
  have login: "writes (if ?login then sm_login m else sm_ret True) (\<lambda>v u. v \<longrightarrow> u = ?a)"
    using writes_login by (auto intro: writes_ret)
  have "writes (sm_then (if ?login then sm_login m else sm_ret True) (\<lambda>ok. if ok then send_envelope c else sm_ret (Some x)))
      (\<lambda>v u. v = None \<longrightarrow> u = ?a @ ?w)" for x
    by (rule writes_then [OF login env]) auto
  then have "writes (send_hello m c) (\<lambda>v u. v = None \<longrightarrow>
      u = ((if ?login then ''EHLO '' else ''HELO '') @ cstr (sm_hostname m) @ CRLF) @ ?a @ ?w)"
    unfolding send_hello_def Let_def by (intro writes_asking writes_if writes_fail)
  then show ?thesis by (rule writes_imp) (simp add: hello_text_def)
qed

lemma writes_session:
  "writes (sm_session m c) (\<lambda>v u. v = None \<longrightarrow> u = session_text m c)"
proof -
  let ?w = "hello_text m @ envelope_text c @ ''DATA'' @ CRLF @ dot_text (tmpFile c) @ CRLF @ ''.'' @ CRLF"
  have quit: "writes (sm_then (sm_ask (''QUIT'' @ CRLF)) (\<lambda>_. sm_ret v)) (\<lambda>a u. a = v \<and> u = ''QUIT'' @ CRLF)" for v :: "string option"
    by (rule writes_then [OF writes_ask writes_ret [of "\<lambda>a u. a = v \<and> u = []"]]) auto
  have "writes (if b then send_hello m c else sm_ret (Some x)) (\<lambda>v u. v = None \<longrightarrow> u = ?w)" for b x
    by (rule writes_if) (rule writes_hello, rule writes_fail)
  from writes_then [OF this quit, where R = "\<lambda>v u. v = None \<longrightarrow> u = session_text m c"]
  have "writes (sm_then (if b then send_hello m c else sm_ret (Some x)) (\<lambda>v. sm_then (sm_ask (''QUIT'' @ CRLF)) (\<lambda>_. sm_ret v)))
      (\<lambda>v u. v = None \<longrightarrow> u = session_text m c)" for b x by (simp add: session_text_def)
  then have "writes (if r = [] then sm_ret (Some y) else sm_then (if starts_with ''220'' r then send_hello m c else sm_ret (Some (x r)))
      (\<lambda>v. sm_then (sm_ask (''QUIT'' @ CRLF)) (\<lambda>_. sm_ret v))) (\<lambda>v u. v = None \<longrightarrow> u = session_text m c)" for r x y
    by (intro writes_if writes_fail)
  then show ?thesis unfolding sm_session_def by (intro writes_then [OF writes_ReadResponse]) simp_all
qed

text \<open>
  When the program ends with exit code 0 it has sent the whole session to the server: the greeting,
  with the login if one is configured, the sender, every recipient, and the whole of the message
  with its leading dots doubled; and there was at least one recipient. With an exit code other than
  0 a text with the reason has been printed.
\<close>

theorem Sendmail_exit_code:
  assumes "sendmail_main e prog args input = (rc, printed, k)"
    and "\<And>h p s. sm_connect e h p = Inr s \<Longrightarrow> sk_room s = []"
  shows "rc = 1 \<and> printed \<noteq> [] \<or>
    rc = 0 \<and> printed = [] \<and>
    (\<exists>m c s t. sm_Config e = Inr m \<and> parse_args prog args new_sendmail = Inr c \<and>
       sm_connect e (cstr (sm_get m ''smtp_host'')) (sm_port m) = Inr s \<and> k = Some t \<and>
       Recipients (sendmail_message e m input c) \<noteq> [] \<and>
       sk_out t = sk_out s @ session_text m (sendmail_message e m input c))"
proof -
  consider "rc = 1" "printed \<noteq> []"
    | m c where "rc = 0" "printed = []" "sm_Config e = Inr m" "parse_args prog args new_sendmail = Inr c"
        "Recipients (sendmail_message e m input c) \<noteq> []" "Deliver e m (sendmail_message e m input c) = (Inr (), k)"
    using assms(1) by (auto simp: sendmail_main_def Let_def split: sum.splits if_splits prod.splits)
  then show ?thesis
  proof cases
    case (2 m c)
    let ?c = "sendmail_message e m input c"
    obtain s t where s: "sm_connect e (cstr (sm_get m ''smtp_host'')) (sm_port m) = Inr s" "sm_session m ?c s = (Inr None, t)" "k = Some t"
      using 2(6) by (auto simp: Deliver_def Let_def split: sum.splits prod.splits option.splits)
    have "sk_out t = sk_out s @ session_text m ?c"
      using writes_session [of m ?c] assms(2) [OF s(1)] s(2) unfolding writes_def by fastforce
    then show ?thesis using 2 s by blast
  qed simp
qed

lemma relay_run: "fst (sendmail_main relay_env ''sendmail'' [''a@b.c''] (''Subject: x'' @ [NL, NL] @ ''.hi'' @ [NL])) = 0"
  by code_simp

lemma Sendmail_exit_code_witness:
  "\<exists>m c t. sm_Config relay_env = Inr m \<and> parse_args ''sendmail'' [''a@b.c''] new_sendmail = Inr c \<and>
     snd (snd (sendmail_main relay_env ''sendmail'' [''a@b.c''] (''Subject: x'' @ [NL, NL] @ ''.hi'' @ [NL]))) = Some t \<and>
     sk_out t = session_text m (sendmail_message relay_env m (''Subject: x'' @ [NL, NL] @ ''.hi'' @ [NL]) c)"
proof -
  let ?in = "''Subject: x'' @ [NL, NL] @ ''.hi'' @ [NL]"
  let ?r = "sendmail_main relay_env ''sendmail'' [''a@b.c''] ?in"
  have r: "?r = (0, fst (snd ?r), snd (snd ?r))" using relay_run by (simp add: prod_eq_iff)
  have room: "sk_room s = []" if "sm_connect relay_env h p = Inr s" for h p s
    using that by (auto simp: relay_env_def relay_sock_def split: if_splits)
  have out: "sk_out s = []" if "sm_connect relay_env h p = Inr s" for h p s
    using that by (auto simp: relay_env_def relay_sock_def split: if_splits)
  from Sendmail_exit_code [OF r room] out show ?thesis by fastforce
qed

section \<open>Arguments\<close>

text \<open>
  The option for the type of the body is checked but its value is not skipped: it becomes a
  recipient of the message.
\<close>

lemma Sendmail_body_type:
  assumes "strcaseeq t ''7BIT'' \<or> strcaseeq t ''8BITMIME''"
  shows "parse_args prog (''-B'' # t # as) c = parse_args prog as (c\<lparr>Recipients := add_recipient t (Recipients c)\<rparr>)"
proof -
  obtain x y where t: "t = x # y" using assms by (cases t) (auto simp: strcaseeq_def)
  have "x \<noteq> CHR ''-''" using assms by (auto simp: t strcaseeq_def c_tolower_def is_upper_def code_def split: if_splits)
  then have "t \<notin> set ignored_args" "t \<notin> {''-oi'', ''-i'', ''-t'', ''-B'', ''-h'', ''-F'', ''-f'', ''-r''}"
    unfolding t ignored_args_def by auto
  then show ?thesis using assms \<open>x \<noteq> CHR ''-''\<close> by (simp add: ignored_args_def t)
qed

end
