(* ===== verification/Config.thy ===== *)
theory Config
  imports UtilsStrings Socket
begin

text \<open>
  The configuration (src/core/config.cpp): the file with its lines \<open>key = value\<close>, the values that
  are read from the database and the shape of its tables, and \<open>Get\<close>, which throws for a key
  that is not defined unless it is one of nine optional ones.
\<close>

type_synonym items = "string \<rightharpoonup> string"

section \<open>The file\<close>

definition config_line :: "string \<Rightarrow> items \<Rightarrow> items" where
  "config_line buffer m =
     (let l = cstr buffer
      in if l \<noteq> [] \<and> hd l = CHR ''#'' then m
         else (case find_chr (CHR ''='') l of
                 None \<Rightarrow> m
               | Some i \<Rightarrow> m(Trim (take i l) blanks \<mapsto> Trim (drop (i + 1) l) blanks)))"

text \<open>The file is read in pieces of at most 511 bytes.\<close>

function read_lines :: "items \<Rightarrow> string \<Rightarrow> items" where
  "read_lines m d =
     (case fgets 512 d of
        None \<Rightarrow> m
      | Some (l, rest) \<Rightarrow> read_lines (config_line l m) rest)"
  by pat_completeness auto

termination
  by (relation "measure (\<lambda>(m, d). length d)") (auto dest: fgets_decreases)

declare read_lines.simps [simp del]

datatype config_error = Missing_File | Missing_Value string | Query_Failed string | Null_Value string

definition new_config :: "string option \<Rightarrow> config_error + items" where
  "new_config file = (case file of None \<Rightarrow> Inl Missing_File | Some d \<Rightarrow> Inr (read_lines Map.empty d))"

section \<open>The database\<close>

text \<open>The tables with their columns and rows; a column of a row may be NULL.\<close>

record config_db =
  db_tables :: "string list"
  db_fields :: "string \<Rightarrow> string list"
  db_rows :: "string \<Rightarrow> (string \<Rightarrow> string option) list"

definition prefs_columns :: "string list" where
  "prefs_columns = [''datafolder'', ''storein'', ''domains'', ''b1gmta_host'', ''structstorage'', ''selffolder'', ''blocked'']"

definition bms_prefs_columns :: "string list" where
  "bms_prefs_columns =
     [''core_version'', ''core_features'', ''pop3greeting'', ''imapgreeting'', ''loglevel'', ''altpop3'', ''minpop3'',
      ''minimap'', ''smtpgreeting'', ''smtp_greeting_delay'', ''grey_interval'', ''grey_wait_time'', ''grey_good_time'',
      ''grey_enabled'', ''smtp_auth_enabled'', ''pop3_timeout'', ''imap_timeout'', ''smtp_timeout'', ''queue_interval'',
      ''queue_lifetime'', ''queue_retry'', ''smtp_error_delay'', ''smtp_error_softlimit'', ''smtp_error_hardlimit'',
      ''php_path'', ''outbound_target'', ''outbound_sendmail_path'', ''outbound_smtp_relay_host'',
      ''outbound_smtp_relay_port'', ''smtp_recipient_limit'', ''smtp_size_limit'', ''imap_idle_poll'', ''queue_timeout'',
      ''smtp_reversedns'', ''outbound_add_signature'', ''outbound_signature_sep'', ''imap_folder_sent'',
      ''imap_folder_spam'', ''imap_folder_drafts'', ''imap_folder_trash'', ''outbound_smtp_relay_auth'',
      ''outbound_smtp_relay_user'', ''outbound_smtp_relay_pass'', ''ftpgreeting'', ''ftp_timeout'',
      ''inbound_reuse_process'', ''failban_time'', ''failban_bantime'', ''failban_types'', ''failban_attempts'',
      ''random_queue_id'', ''received_header_no_expose'', ''imap_idle_mysqlclose'', ''queue_mysqlclose'',
      ''imap_mysqlclose'', ''imap_intelligentfolders'', ''smtp_check_helo'', ''inbound_headers'', ''outbound_headers'',
      ''spf_enable'', ''spf_disable_greylisting'', ''spf_reject_mails'', ''spf_inject_header'', ''queue_threads'',
      ''queue_maxthreads'', ''pop3_folders'', ''user_chosepop3folders'', ''outbound_smtp_usetls'', ''imap_autoexpunge'',
      ''imap_limit'', ''user_choseimaplimit'', ''smtp_hop_limit'', ''smtp_auth_no_received'', ''ssl_cipher_list'',
      ''ssl_ciphersuites'', ''ssl_min_version'', ''ssl_max_version'', ''imap_uids_initialized'', ''apns_enable'',
      ''apns_host'', ''apns_port'', ''apns_certificate'', ''apns_privatekey'', ''control_addr'',
      ''smtp_reject_noreversedns'', ''outbound_smtp_usedane'', ''outbound_smtp_usednssec'']"

definition blob_columns :: "string list" where
  "blob_columns =
     [''blobstorage_webdisk_compress'', ''blobstorage_compress'', ''blobstorage_provider_webdisk'', ''blobstorage_provider'']"

text \<open>A row is stored column by column; a NULL cannot be assigned to a string.\<close>

fun store_row :: "string list \<Rightarrow> (string \<Rightarrow> string option) \<Rightarrow> items \<Rightarrow> config_error + items" where
  "store_row [] row m = Inr m"
| "store_row (c # cs) row m =
     (case row c of None \<Rightarrow> Inl (Null_Value c) | Some v \<Rightarrow> store_row cs row (m(c \<mapsto> v)))"

text \<open>\<open>SELECT columns FROM table LIMIT 1\<close>, with its result stored.\<close>

definition read_prefs :: "config_db \<Rightarrow> string list \<Rightarrow> string \<Rightarrow> items \<Rightarrow> config_error + items" where
  "read_prefs db cols table m =
     (if table \<notin> set (db_tables db) \<or> \<not> set cols \<subseteq> set (db_fields db table) then Inl (Query_Failed table)
      else (case db_rows db table of [] \<Rightarrow> Inr m | row # _ \<Rightarrow> store_row cols row m))"

definition has_field :: "config_db \<Rightarrow> string \<Rightarrow> string \<Rightarrow> config_error + bool" where
  "has_field db table f =
     (if table \<in> set (db_tables db) then Inr (f \<in> set (db_fields db table)) else Inl (Query_Failed table))"

definition yes_no :: "bool \<Rightarrow> string" where
  "yes_no b = (if b then ''1'' else ''0'')"

definition bind_config :: "config_error + 'a \<Rightarrow> ('a \<Rightarrow> config_error + 'b) \<Rightarrow> config_error + 'b" where
  "bind_config x f = (case x of Inl e \<Rightarrow> Inl e | Inr v \<Rightarrow> f v)"

definition ReadDBConfig :: "config_db \<Rightarrow> items \<Rightarrow> config_error + items" where
  "ReadDBConfig db m =
     bind_config (read_prefs db prefs_columns ''bm60_prefs'' m) (\<lambda>m1.
     bind_config (read_prefs db bms_prefs_columns ''bm60_bms_prefs'' m1) (\<lambda>m2.
     bind_config (has_field db ''bm60_users'' ''passwort_salt'') (\<lambda>salted.
     bind_config (has_field db ''bm60_users'' ''saliase'') (\<lambda>saliase.
     bind_config (has_field db ''bm60_users'' ''mailspace_add'') (\<lambda>space.
     let m3 = m2(''salted_passwords'' \<mapsto> yes_no salted, ''user_alias_domains'' \<mapsto> yes_no saliase,
                 ''user_space_add'' \<mapsto> yes_no space);
         haveBlob = ''bm60_blobstate'' \<in> set (db_tables db)
     in bind_config (if ''bm60_abuse_points_config'' \<in> set (db_tables db)
                     then has_field db ''bm60_abuse_points_config'' ''prefs'' else Inr False) (\<lambda>ap.
        bind_config (if haveBlob then read_prefs db blob_columns ''bm60_prefs'' m3 else Inr m3) (\<lambda>m4.
        bind_config (has_field db ''bm60_aliase'' ''login'') (\<lambda>login.
        bind_config (has_field db ''bm60_bms_dnsbl'' ''match_ips'') (\<lambda>ips.
          Inr (m4(''enable_ap'' \<mapsto> yes_no ap,
                  ''enable_mdstatus'' \<mapsto> yes_no (''bm60_maildeliverystatus'' \<in> set (db_tables db)),
                  ''enable_blobstorage'' \<mapsto> yes_no haveBlob,
                  ''enable_sendstats'' \<mapsto> yes_no (''bm60_sendstats'' \<in> set (db_tables db)),
                  ''enable_aliaslogin'' \<mapsto> yes_no login,
                  ''enable_dnsbl_matchips'' \<mapsto> yes_no ips)))))))))))"

section \<open>Reading values\<close>

definition optional_keys :: "string list" where
  "optional_keys =
     [''mysql_sock'', ''queue_dir'', ''disable_iplog'', ''logfile'', ''user'', ''group'', ''client_addr'', ''queue_workers'',
      ''log_smtp_sessions'']"

text \<open>A value, NULL for an optional key, or an exception.\<close>

definition Get :: "items \<Rightarrow> string \<Rightarrow> config_error + string option" where
  "Get m key =
     (case m key of
        Some v \<Rightarrow> Inr (Some (cstr v))
      | None \<Rightarrow> if key \<in> set optional_keys then Inr None else Inl (Missing_Value key))"

fun check_values :: "items \<Rightarrow> string list \<Rightarrow> config_error + unit" where
  "check_values m [] = Inr ()"
| "check_values m (k # ks) =
     (case Get m k of
        Inl e \<Rightarrow> Inl e
      | Inr None \<Rightarrow> Inl (Missing_Value k)
      | Inr (Some v) \<Rightarrow> check_values m ks)"

definition CheckRequiredValues :: "items \<Rightarrow> config_error + unit" where
  "CheckRequiredValues m = check_values m [''mysql_host'', ''mysql_user'', ''mysql_pass'', ''mysql_db'']"

definition CheckDBRequiredValues :: "items \<Rightarrow> config_error + unit" where
  "CheckDBRequiredValues m =
     check_values m [''datafolder'', ''selffolder'', ''storein'', ''pop3greeting'', ''imapgreeting'', ''loglevel'']"

text \<open>What \<open>--dump-config\<close> prints for the keys in their order, passwords included.\<close>

definition Dump :: "(string \<times> string) list \<Rightarrow> string" where
  "Dump kvs = concat (map (\<lambda>(k, v). [CHR 0x60] @ cstr k @ [CHR 0x60] @ '' = '' @ [CHR 0x60] @ cstr v @ [CHR 0x60, NL]) kvs)"

section \<open>What the file says\<close>

definition trimmed :: "string \<Rightarrow> bool" where
  "trimmed s \<longleftrightarrow> (s \<noteq> [] \<longrightarrow> hd s \<notin> set blanks \<and> last s \<notin> set blanks)"

lemma Trim_around:
  assumes "trimmed s" and "set a \<subseteq> set dr" and "set b \<subseteq> set dr" and "dr = blanks"
  shows "Trim (a @ s @ b) dr = s"
proof -
  have all: "drop_last_while (\<lambda>c. c \<in> set dr) (x @ b) = drop_last_while (\<lambda>c. c \<in> set dr) x" for x
    using assms(3) by (auto simp: drop_last_while_def dropWhile_append1 dropWhile_append2 subset_iff dropWhile_append)
  show ?thesis
  proof (cases s rule: rev_cases)
    case Nil
    have "dropWhile (\<lambda>c. c \<in> set dr) (rev a) = []" using assms(2) by (simp add: dropWhile_eq_Nil_conv subset_iff)
    then have "drop_last_while (\<lambda>c. c \<in> set dr) a = []" by (simp only: drop_last_while_def rev.simps)
    then show ?thesis using all [of a] by (simp add: Trim_def Nil)
  next
    case (snoc t c)
    then have "c \<notin> set dr" "hd s \<notin> set dr" "s \<noteq> []" using assms(1,4) by (auto simp: trimmed_def)
    then have "drop_last_while (\<lambda>c. c \<in> set dr) (a @ s) = a @ s" using snoc by (simp add: drop_last_while_def)
    moreover have "dropWhile (\<lambda>c. c \<in> set dr) (a @ s) = s"
      using assms(2) \<open>hd s \<notin> set dr\<close> \<open>s \<noteq> []\<close> by (cases s) (auto simp: subset_iff dropWhile_append2)
    ultimately show ?thesis using all [of "a @ s"] by (simp add: Trim_def)
  qed
qed

definition setting_line :: "string \<times> string \<Rightarrow> string" where
  "setting_line kv = fst kv @ '' = '' @ snd kv @ [NL]"

definition plain_setting :: "string \<times> string \<Rightarrow> bool" where
  "plain_setting kv \<longleftrightarrow>
     fst kv \<noteq> [] \<and> hd (fst kv) \<noteq> CHR ''#'' \<and> trimmed (fst kv) \<and> trimmed (snd kv) \<and> CHR ''='' \<notin> set (fst kv) \<and>
     NL \<notin> set (fst kv @ snd kv) \<and> NUL \<notin> set (fst kv @ snd kv) \<and> length (setting_line kv) \<le> 511"

lemma find_pos_first: "\<forall>x \<in> set a. \<not> p x \<Longrightarrow> p c \<Longrightarrow> find_pos p (a @ c # r) = Some (length a)"
  by (induction a) auto

lemma cstr_plain: "NUL \<notin> set s \<Longrightarrow> cstr s = s"
  by (auto simp: cstr_def takeWhile_eq_all_conv)

lemma config_line_setting:
  assumes "plain_setting kv"
  shows "config_line (setting_line kv) m = m(fst kv \<mapsto> snd kv)"
proof -
  obtain k v where kv: "kv = (k, v)" by fastforce
  note p = assms [unfolded plain_setting_def kv fst_conv snd_conv]
  have l: "setting_line kv = (k @ '' '') @ CHR ''='' # ('' '' @ v @ [NL])" by (simp add: setting_line_def kv)
  have c: "cstr (setting_line kv) = setting_line kv" using p by (intro cstr_plain) (auto simp: setting_line_def kv)
  have f: "find_chr (CHR ''='') (setting_line kv) = Some (length (k @ '' ''))"
    unfolding l using p by (intro find_pos_first) auto
  have "Trim (k @ '' '') blanks = k" using Trim_around [of k "[]" blanks "'' ''"] p by simp
  moreover have "Trim ('' '' @ v @ [NL]) blanks = v" using Trim_around [of v "'' ''" blanks "[NL]"] p by simp
  moreover have "hd (setting_line kv) \<noteq> CHR ''#''" using p by (simp add: setting_line_def kv)
  moreover have "take (length (k @ '' '')) (setting_line kv) = k @ '' ''"
    "drop (length (k @ '' '') + 1) (setting_line kv) = '' '' @ v @ [NL]" unfolding l by simp_all
  ultimately show ?thesis unfolding config_line_def Let_def c f by (simp only: option.case kv fst_conv snd_conv if_False simp_thms)
qed

lemma Config_read:
  assumes "\<forall>kv \<in> set kvs. plain_setting kv"
  shows "new_config (Some (concat (map setting_line kvs))) = Inr (map_of (rev kvs))"
proof -
  have "read_lines m (concat (map setting_line kvs)) = m ++ map_of (rev kvs)" for m
    using assms
  proof (induction kvs arbitrary: m)
    case Nil
    then show ?case by (subst read_lines.simps) (simp add: fgets_def)
  next
    case (Cons kv kvs)
    let ?a = "fst kv @ '' = '' @ snd kv" and ?r = "concat (map setting_line kvs)"
    have p: "plain_setting kv" using Cons.prems by simp
    then have "NL \<notin> set ?a" "length ?a < 511" by (auto simp: plain_setting_def setting_line_def)
    from fgets_upto_nl [OF this] have "fgets 512 (setting_line kv @ ?r) = Some (setting_line kv, ?r)"
      by (simp add: fgets_def setting_line_def)
    then have "read_lines m (setting_line kv @ ?r) = read_lines (m(fst kv \<mapsto> snd kv)) ?r"
      by (subst read_lines.simps) (simp add: config_line_setting [OF p])
    also have "\<dots> = m(fst kv \<mapsto> snd kv) ++ map_of (rev kvs)" using Cons by simp
    also have "\<dots> = m ++ map_of (rev (kv # kvs))" by (cases kv) (simp add: map_add_assoc [symmetric])
    finally show ?case by simp
  qed
  from this [of Map.empty] show ?thesis by (simp add: new_config_def)
qed

text \<open>
  A file whose lines are settings of at most 511 bytes with plain keys and values is read as these
  settings; of two for the same key the later one counts.
\<close>

theorem Config_file_roundtrip:
  assumes "\<forall>kv \<in> set kvs. plain_setting kv"
  shows "new_config (Some (concat (map setting_line kvs))) = Inr (map_of (rev kvs))"
  by (rule Config_read [OF assms])

lemma Config_file_roundtrip_witness:
  "new_config (Some (concat (map setting_line [(''mysql_host'', ''localhost''), (''mysql_pass'', ''a=b'')]))) =
   Inr [''mysql_pass'' \<mapsto> ''a=b'', ''mysql_host'' \<mapsto> ''localhost'']"
proof -
  have "\<forall>kv \<in> set [(''mysql_host'', ''localhost''), (''mysql_pass'', ''a=b'')]. plain_setting kv"
    by (simp add: plain_setting_def trimmed_def setting_line_def)
  from Config_file_roundtrip [OF this] show ?thesis by (simp add: fun_upd_twist)
qed

section \<open>What the database says\<close>

lemma store_row_at: "store_row cs row m = Inr t \<Longrightarrow> t k = (if k \<in> set cs then row k else m k) \<and> (k \<in> set cs \<longrightarrow> row k \<noteq> None)"
  by (induction cs row m rule: store_row.induct) (auto split: option.splits)

lemma bind_Inr: "bind_config x f = Inr v \<longleftrightarrow> (\<exists>u. x = Inr u \<and> f u = Inr v)"
  by (cases x) (auto simp: bind_config_def)

definition flag_keys :: "string list" where
  "flag_keys =
     [''salted_passwords'', ''user_alias_domains'', ''user_space_add'', ''enable_ap'', ''enable_mdstatus'',
      ''enable_blobstorage'', ''enable_sendstats'', ''enable_aliaslogin'', ''enable_dnsbl_matchips'']"

lemma read_prefs_at:
  assumes "read_prefs db cols table m = Inr t" and "db_rows db table = row # rows"
  shows "t k = (if k \<in> set cols then row k else m k)" "k \<in> set cols \<Longrightarrow> row k \<noteq> None"
  using assms store_row_at [of cols row m t k] by (auto simp: read_prefs_def split: if_splits)

lemma Config_exact:
  assumes "ReadDBConfig db m = Inr t" and "db_rows db ''bm60_prefs'' = p # ps" and "db_rows db ''bm60_bms_prefs'' = b # bs"
  shows "k \<in> set flag_keys \<and> t k \<in> {Some ''1'', Some ''0''} \<or>
    k \<in> set prefs_columns \<and> t k = p k \<and> p k \<noteq> None \<or>
    k \<in> set bms_prefs_columns \<and> t k = b k \<and> b k \<noteq> None \<or>
    k \<in> set blob_columns \<and> ''bm60_blobstate'' \<in> set (db_tables db) \<and> t k = p k \<and> p k \<noteq> None \<or>
    k \<notin> set (flag_keys @ prefs_columns @ bms_prefs_columns) \<and>
    (k \<in> set blob_columns \<longrightarrow> ''bm60_blobstate'' \<notin> set (db_tables db)) \<and> t k = m k"
proof -
  obtain m1 m2 m3 m4 f g h x y z where
    r1: "read_prefs db prefs_columns ''bm60_prefs'' m = Inr m1" and
    r2: "read_prefs db bms_prefs_columns ''bm60_bms_prefs'' m1 = Inr m2" and
    m3: "m3 = m2(''salted_passwords'' \<mapsto> yes_no f, ''user_alias_domains'' \<mapsto> yes_no g, ''user_space_add'' \<mapsto> yes_no h)" and
    r4: "(if ''bm60_blobstate'' \<in> set (db_tables db) then read_prefs db blob_columns ''bm60_prefs'' m3 else Inr m3) = Inr m4" and
    t: "t = m4(''enable_ap'' \<mapsto> yes_no x, ''enable_mdstatus'' \<mapsto> yes_no (''bm60_maildeliverystatus'' \<in> set (db_tables db)),
             ''enable_blobstorage'' \<mapsto> yes_no (''bm60_blobstate'' \<in> set (db_tables db)),
             ''enable_sendstats'' \<mapsto> yes_no (''bm60_sendstats'' \<in> set (db_tables db)),
             ''enable_aliaslogin'' \<mapsto> yes_no y, ''enable_dnsbl_matchips'' \<mapsto> yes_no z)"
    using assms(1) unfolding ReadDBConfig_def Let_def bind_Inr by blast
  have v1: "m1 j = (if j \<in> set prefs_columns then p j else m j)" "j \<in> set prefs_columns \<Longrightarrow> p j \<noteq> None" for j
    using read_prefs_at [OF r1 assms(2)] by auto
  have v2: "m2 j = (if j \<in> set bms_prefs_columns then b j else m1 j)" "j \<in> set bms_prefs_columns \<Longrightarrow> b j \<noteq> None" for j
    using read_prefs_at [OF r2 assms(3)] by auto
  have v4: "m4 j = (if j \<in> set blob_columns \<and> ''bm60_blobstate'' \<in> set (db_tables db) then p j else m3 j)"
    "j \<in> set blob_columns \<and> ''bm60_blobstate'' \<in> set (db_tables db) \<Longrightarrow> p j \<noteq> None" for j
    using r4 read_prefs_at [OF _ assms(2), of blob_columns m3 m4 j] by (auto split: if_splits)
  have yn: "Some (yes_no c) \<in> {Some ''1'', Some ''0''}" for c by (simp add: yes_no_def)
  show ?thesis
  proof (cases "k \<in> set flag_keys")
    case True
    have m4: "m4 ''salted_passwords'' = m3 ''salted_passwords''" "m4 ''user_alias_domains'' = m3 ''user_alias_domains''"
      "m4 ''user_space_add'' = m3 ''user_space_add''" by (simp_all add: v4(1) blob_columns_def)
    have "t k \<in> {Some ''1'', Some ''0''}"
      using True unfolding flag_keys_def list.set
      by (elim insertE emptyE) (simp_all add: t m4 m3 yes_no_def)
    then show ?thesis using True by blast
  next
    case False
    then have tk: "t k = m4 k" "m3 k = m2 k" unfolding flag_keys_def t m3 by auto
    have dist: "distinct (prefs_columns @ bms_prefs_columns @ blob_columns)" by code_simp
    consider "k \<in> set prefs_columns" | "k \<in> set bms_prefs_columns" | "k \<in> set blob_columns"
      | "k \<notin> set (prefs_columns @ bms_prefs_columns @ blob_columns)" by auto
    then show ?thesis
    proof cases
      case 1
      then have "k \<notin> set bms_prefs_columns" "k \<notin> set blob_columns" using dist by auto
      then show ?thesis using 1 v1 [of k] v2(1) [of k] v4(1) [of k] tk by simp
    next
      case 2
      then have "k \<notin> set blob_columns" using dist by auto
      then show ?thesis using 2 v2 [of k] v4(1) [of k] tk by simp
    next
      case 3
      then have "k \<notin> set prefs_columns" "k \<notin> set bms_prefs_columns" using dist by auto
      then show ?thesis using 3 False v1(1) [of k] v2(1) [of k] v4 [of k] tk
        by (cases "''bm60_blobstate'' \<in> set (db_tables db)") auto
    next
      case 4
      then show ?thesis using False v1(1) [of k] v2(1) [of k] v4(1) [of k] tk by simp
    qed
  qed
qed


text \<open>A database with every table, every column and one row.\<close>

definition full_db :: config_db where
  "full_db = \<lparr>db_tables = [''bm60_prefs'', ''bm60_bms_prefs'', ''bm60_users'', ''bm60_aliase'', ''bm60_bms_dnsbl'', ''bm60_sendstats''],
     db_fields = (\<lambda>t. prefs_columns @ bms_prefs_columns @ [''passwort_salt'']), db_rows = (\<lambda>_. [\<lambda>c. Some ''7''])\<rparr>"

lemma store_row_total: "\<exists>t. store_row cs (\<lambda>c. Some v) m = Inr t"
  by (induction cs arbitrary: m) auto


end
