(* ===== verification/Mysql.thy ===== *)
theory Mysql
  imports UtilsStrings
begin

text \<open>
  The connection to the database (src/core/mysql_db.cpp): how \<open>Query\<close> builds the text of a query
  from its format, connecting with its attempts, the second attempt after a lost connection, and
  the log. The client library is a parameter: the escaping function and what each connection and
  each query answer. (The ping of a connection that was idle for ten seconds is not modelled: what
  it finds shows in the answer to the query that follows.)
\<close>

section \<open>Building a query\<close>

text \<open>The arguments behind the format; a missing or wrong one is undefined behaviour.\<close>

datatype sql_arg =
  ArgString string       \<comment> \<open>\<open>%s\<close>\<close>
| ArgInt int             \<comment> \<open>\<open>%d\<close>\<close>
| ArgDouble string       \<comment> \<open>\<open>%f\<close>, the digits that \<open>snprintf\<close> prints\<close>
| ArgLong int            \<comment> \<open>\<open>%l\<close>\<close>
| ArgULong nat           \<comment> \<open>\<open>%u\<close>\<close>
| ArgQuoted string       \<comment> \<open>\<open>%q\<close>\<close>

definition sql_piece :: "(string \<Rightarrow> string) \<Rightarrow> char \<Rightarrow> sql_arg \<Rightarrow> string option" where
  "sql_piece esc c a =
     (case a of
        ArgString s \<Rightarrow> if c = CHR ''s'' then Some (cstr s) else None
      | ArgInt n \<Rightarrow> if c = CHR ''d'' then Some (show_int n) else None
      | ArgDouble t \<Rightarrow> if c = CHR ''f'' then Some (take 254 t) else None
      | ArgLong n \<Rightarrow> if c = CHR ''l'' then Some (show_int n) else None
      | ArgULong n \<Rightarrow> if c = CHR ''u'' then Some (show_nat n) else None
      | ArgQuoted s \<Rightarrow> if c = CHR ''q'' then Some (cstr (esc (cstr s))) else None)"

definition takes_arg :: "char \<Rightarrow> bool" where
  "takes_arg c \<longleftrightarrow> c \<in> set ''sdfluq''"

text \<open>
  Two characters are consumed behind every percent sign: an unknown one prints nothing, and so
  does a percent sign at the end.
\<close>

fun query_text :: "(string \<Rightarrow> string) \<Rightarrow> string \<Rightarrow> sql_arg list \<Rightarrow> string option" where
  "query_text esc [] args = Some []"
| "query_text esc [c] args = Some (if c = CHR ''%'' then [] else [c])"
| "query_text esc (c # d # r) args =
     (if c \<noteq> CHR ''%'' then map_option ((#) c) (query_text esc (d # r) args)
      else if d = CHR ''%'' then map_option ((#) (CHR ''%'')) (query_text esc r args)
      else if \<not> takes_arg d then query_text esc r args
      else (case args of
              [] \<Rightarrow> None
            | a # as \<Rightarrow>
                (case sql_piece esc d a of
                   None \<Rightarrow> None
                 | Some t \<Rightarrow> map_option (\<lambda>x. t @ x) (query_text esc r as))))"

section \<open>Connecting and querying\<close>

definition MYSQL_MAX_CONNECTION_ATTEMPTS :: nat where "MYSQL_MAX_CONNECTION_ATTEMPTS = 10"

definition ER_TOO_MANY_USER_CONNECTIONS :: int where "ER_TOO_MANY_USER_CONNECTIONS = 1203"
definition CR_SERVER_GONE_ERROR :: int where "CR_SERVER_GONE_ERROR = 2006"

text \<open>
  The client library: the error number of the \<open>n\<close>-th connection and of the \<open>n\<close>-th query, 0 for
  success, and the message that belongs to a number.
\<close>

record mysql_api =
  my_init :: bool
  my_connect :: "nat \<Rightarrow> int"
  my_query :: "nat \<Rightarrow> string \<Rightarrow> int"
  my_error :: "int \<Rightarrow> string"
  my_escape :: "string \<Rightarrow> string"

record mysql_db =
  db_handle :: bool                \<comment> \<open>\<open>handle\<close> is not NULL\<close>
  bTempClosed :: bool
  lastQuery :: int
  connects :: nat
  sent_queries :: "string list"

datatype 'a db_result = Thrown string string | Done 'a

text \<open>The attempts of \<open>Connect\<close>: the error of the last one, 0 if it was successful.\<close>

fun connect_attempts :: "nat \<Rightarrow> mysql_api \<Rightarrow> nat \<Rightarrow> int \<Rightarrow> int \<times> nat" where
  "connect_attempts 0 api n err = (err, n)"
| "connect_attempts (Suc k) api n err =
     (let c = my_connect api n
      in if c = ER_TOO_MANY_USER_CONNECTIONS then connect_attempts k api (n + 1) c else (c, n + 1))"

text \<open>
  \<open>Connect\<close> sends a query of its own, and \<open>Query\<close> connects when the connection has gone: the
  number bounds the nesting of the two, \<open>None\<close> is a nesting that goes deeper.
\<close>

definition set_mode :: string where "set_mode = ''SET sql_mode='' @ [CHR 0x27, CHR 0x27]"

definition send_query :: "string \<Rightarrow> mysql_db \<Rightarrow> mysql_db" where
  "send_query q s = s\<lparr>sent_queries := sent_queries s @ [q]\<rparr>"

definition try_query :: "mysql_api \<Rightarrow> (mysql_db \<Rightarrow> (unit db_result \<times> mysql_db) option) \<Rightarrow> string \<Rightarrow> mysql_db \<Rightarrow>
    (unit db_result \<times> mysql_db) option" where
  "try_query api reconnect q s =
     (let err = my_query api (length (sent_queries s)) q; s1 = send_query q s
      in if err = 0 then Some (Done (), s1)
         else if err \<noteq> CR_SERVER_GONE_ERROR then Some (Thrown ''MySQL'' (my_error api err), s1)
         else (case reconnect s1 of
                 None \<Rightarrow> None
               | Some (Thrown c m, s2) \<Rightarrow> Some (Thrown c m, s2)
               | Some (Done _, s2) \<Rightarrow>
                   (let err2 = my_query api (length (sent_queries s2)) q; s3 = send_query q s2
                    in Some (if err2 = 0 then Done () else Thrown ''MySQL'' (my_error api err2), s3))))"

fun Connect :: "nat \<Rightarrow> mysql_api \<Rightarrow> int \<Rightarrow> mysql_db \<Rightarrow> (unit db_result \<times> mysql_db) option" where
  "Connect 0 api now s = None"
| "Connect (Suc k) api now s =
     (if \<not> my_init api then Some (Thrown [] ''MySQL driver initialization failed'', s\<lparr>db_handle := False\<rparr>)
      else let (err, n) = connect_attempts MYSQL_MAX_CONNECTION_ATTEMPTS api (connects s) 0;
               s1 = s\<lparr>db_handle := True, connects := n\<rparr>
           in if err \<noteq> 0 then Some (Thrown ''MySQL'' (my_error api err), s1)
              else let s2 = s1\<lparr>lastQuery := now, bTempClosed := False\<rparr>
                   in (case try_query api (Connect k api now) set_mode s2 of
                         None \<Rightarrow> None
                       | Some (_, s3) \<Rightarrow> Some (Done (), s3)))"

declare Connect.simps(2) [simp del]

definition Query :: "nat \<Rightarrow> mysql_api \<Rightarrow> int \<Rightarrow> string \<Rightarrow> sql_arg list \<Rightarrow> mysql_db \<Rightarrow>
    (unit db_result \<times> mysql_db) option" where
  "Query k api now fmt args s =
     (case query_text (my_escape api) fmt args of
        None \<Rightarrow> None
      | Some q \<Rightarrow>
          (case (if bTempClosed s \<or> \<not> db_handle s then Connect k api now s else Some (Done (), s)) of
             None \<Rightarrow> None
           | Some (Thrown c m, s1) \<Rightarrow> Some (Thrown c m, s1)
           | Some (Done _, s1) \<Rightarrow> try_query api (Connect k api now) q (s1\<lparr>lastQuery := now\<rparr>)))"

definition TempClose :: "mysql_db \<Rightarrow> mysql_db" where
  "TempClose s = (if bTempClosed s then s else s\<lparr>db_handle := False, bTempClosed := True\<rparr>)"

section \<open>The log\<close>

definition log_format :: string where
  "log_format = ''INSERT INTO bm60_bms_logs(iComponent,iSeverity,iDate,szEntry) VALUES('%d','%d',UNIX_TIMESTAMP(),'#%d - %q')''"

definition log_component :: "int \<Rightarrow> string" where
  "log_component c =
     (if c = 1 then ''Core'' else if c = 2 then ''POP3'' else if c = 4 then ''IMAP'' else if c = 8 then ''HTTP''
      else if c = 16 then ''SMTP'' else if c = 32 then ''MSGQueue'' else ''Unknown'')"

text \<open>An entry goes to the log file, when there is one, and else to a table.\<close>

datatype log_target = LogFile string | LogTable "(unit db_result \<times> mysql_db) option" | NotLogged

definition Log :: "nat \<Rightarrow> mysql_api \<Rightarrow> int \<Rightarrow> string \<Rightarrow> int \<Rightarrow> int \<Rightarrow> bool \<Rightarrow> int \<Rightarrow> int \<Rightarrow> string \<Rightarrow> mysql_db \<Rightarrow> log_target" where
  "Log k api now date loglevel pid fileOpen iComponent iSeverity szEntry s =
     (if and loglevel iSeverity = 0 then NotLogged
      else if fileOpen
      then LogFile (''['' @ date @ ''] - '' @ log_component iComponent @ '' - '' @ show_int iSeverity @ '' - #'' @
             show_int pid @ '' - '' @ szEntry @ [NL])
      else LogTable (Query k api now log_format [ArgInt iComponent, ArgInt iSeverity, ArgInt pid, ArgQuoted szEntry] s))"


section \<open>The literals of a query\<close>

text \<open>
  How the server reads quoted text: in apostrophes and double quotes a backslash hides the next
  character, in backticks nothing does. The skeleton of a query is what stands outside, with the
  quotes.
\<close>

datatype sql_lexer = Outside | Inside char | Escaped char

abbreviation "APOS \<equiv> CHR 0x27"
abbreviation "BACKTICK \<equiv> CHR 0x60"

definition lex_next :: "sql_lexer \<Rightarrow> char \<Rightarrow> sql_lexer" where
  "lex_next st c =
     (case st of
        Outside \<Rightarrow> if c \<in> {APOS, DQUOTE, BACKTICK} then Inside c else Outside
      | Inside q \<Rightarrow> if c = BACKSLASH \<and> q \<noteq> BACKTICK then Escaped q else if c = q then Outside else Inside q
      | Escaped q \<Rightarrow> Inside q)"

fun skeleton :: "sql_lexer \<Rightarrow> string \<Rightarrow> string" where
  "skeleton st [] = []"
| "skeleton st (c # cs) =
     (if st = Outside \<or> lex_next st c = Outside then [c] else []) @ skeleton (lex_next st c) cs"

lemma skeleton_append: "skeleton st (a @ b) = skeleton st a @ skeleton (foldl lex_next st a) b"
  by (induction a arbitrary: st) auto

text \<open>
  What the client library documents of its escaping: quotes and backslashes have a backslash in
  front of them, and a NUL is written as two other characters.
\<close>

fun escaped_text :: "string \<Rightarrow> bool" where
  "escaped_text [] \<longleftrightarrow> True"
| "escaped_text [c] \<longleftrightarrow> c \<notin> {NUL, BACKSLASH, APOS, DQUOTE}"
| "escaped_text (c # d # r) \<longleftrightarrow>
     (if c = BACKSLASH then d \<noteq> NUL \<and> escaped_text r else c \<notin> {NUL, APOS, DQUOTE} \<and> escaped_text (d # r))"

lemma escaped_stays:
  assumes "escaped_text t" and "q = APOS \<or> q = DQUOTE"
  shows "foldl lex_next (Inside q) t = Inside q \<and> skeleton (Inside q) t = []"
  using assms
proof (induction t rule: escaped_text.induct)
  case (3 c d r)
  then show ?case by (cases "c = BACKSLASH") (auto simp: lex_next_def)
qed (auto simp: lex_next_def)

lemma escaped_cstr: "escaped_text t \<Longrightarrow> cstr t = t"
  by (induction t rule: escaped_text.induct) (auto simp: cstr_def split: if_splits)

text \<open>
  Every argument that is escaped stands between apostrophes or double quotes, when the format is
  read with these arguments.
\<close>

fun quoted_args :: "sql_lexer \<Rightarrow> string \<Rightarrow> sql_arg list \<Rightarrow> bool" where
  "quoted_args st [] args \<longleftrightarrow> True"
| "quoted_args st [c] args \<longleftrightarrow> True"
| "quoted_args st (c # d # r) args \<longleftrightarrow>
     (if c \<noteq> CHR ''%'' then quoted_args (lex_next st c) (d # r) args
      else if d = CHR ''%'' then quoted_args (lex_next st (CHR ''%'')) r args
      else if \<not> takes_arg d then quoted_args st r args
      else (case args of
              [] \<Rightarrow> True
            | ArgQuoted s # as \<Rightarrow> (st = Inside APOS \<or> st = Inside DQUOTE) \<and> quoted_args st r as
            | a # as \<Rightarrow>
                (case sql_piece (\<lambda>x. x) d a of
                   None \<Rightarrow> True
                 | Some t \<Rightarrow> quoted_args (foldl lex_next st t) r as)))"

text \<open>Two arguments that differ at most in the text that is escaped.\<close>

definition same_but_text :: "sql_arg \<Rightarrow> sql_arg \<Rightarrow> bool" where
  "same_but_text a b \<longleftrightarrow> a = b \<or> (\<exists>s t. a = ArgQuoted s \<and> b = ArgQuoted t)"

lemma quoted_piece:
  assumes "\<And>s. escaped_text (esc s)" and "st = Inside APOS \<or> st = Inside DQUOTE"
  shows "(\<exists>t. sql_piece esc (CHR ''q'') (ArgQuoted s) = Some t \<and> skeleton st t = [] \<and> foldl lex_next st t = st)"
proof -
  obtain q where q: "st = Inside q" "q = APOS \<or> q = DQUOTE" using assms(2) by blast
  show ?thesis using escaped_stays [OF assms(1) q(2)] by (simp add: sql_piece_def escaped_cstr assms(1) q(1))
qed

lemma skeleton_format:
  "(\<And>s. escaped_text (esc s)) \<Longrightarrow> quoted_args st fmt as \<Longrightarrow> list_all2 same_but_text as bs \<Longrightarrow>
    map_option (skeleton st) (query_text esc fmt as) = map_option (skeleton st) (query_text esc fmt bs)"
proof (induction esc fmt as arbitrary: st bs rule: query_text.induct)
  case (3 esc c d r as)
  have cons: "map_option (skeleton st) (map_option ((#) x) o1) = map_option (skeleton st) (map_option ((#) x) o2)"
    if "map_option (skeleton (lex_next st x)) o1 = map_option (skeleton (lex_next st x)) o2" for x o1 o2
    using that by (cases o1; cases o2) auto
  have app: "map_option (skeleton st) (map_option ((@) x) o1) = map_option (skeleton st) (map_option ((@) y) o2)"
    if "skeleton st x = skeleton st y" "foldl lex_next st x = foldl lex_next st y"
      "map_option (skeleton (foldl lex_next st x)) o1 = map_option (skeleton (foldl lex_next st x)) o2" for x y o1 o2
    using that by (cases o1; cases o2) (auto simp: skeleton_append)
  show ?case
  proof (cases "c = CHR ''%'' \<and> takes_arg d \<and> d \<noteq> CHR ''%''")
    case False
    then consider "c \<noteq> CHR ''%''" | "c = CHR ''%''" "d = CHR ''%''" | "c = CHR ''%''" "d \<noteq> CHR ''%''" "\<not> takes_arg d"
      by blast
    then show ?thesis
    proof cases
      case 1
      have "map_option (skeleton (lex_next st c)) (query_text esc (d # r) as) =
          map_option (skeleton (lex_next st c)) (query_text esc (d # r) bs)"
        by (rule "3.IH"(1) [OF 1 "3.prems"(1) _ "3.prems"(3)]) (use 1 "3.prems"(2) in simp)
      from cons [OF this] show ?thesis using 1 by simp
    next
      case 2
      have "map_option (skeleton (lex_next st (CHR ''%''))) (query_text esc r as) =
          map_option (skeleton (lex_next st (CHR ''%''))) (query_text esc r bs)"
        by (rule "3.IH"(2) [OF _ 2(2) "3.prems"(1) _ "3.prems"(3)]) (use 2 "3.prems"(2) in simp_all)
      from cons [OF this] show ?thesis using 2 by simp
    next
      case 3
      have "map_option (skeleton st) (query_text esc r as) = map_option (skeleton st) (query_text esc r bs)"
        by (rule "3.IH"(3) [OF _ 3(2,3) "3.prems"(1) _ "3.prems"(3)]) (use 3 "3.prems"(2) in simp_all)
      then show ?thesis using 3 by simp
    qed
  next
    case True
    show ?thesis
    proof (cases as)
      case Nil
      then show ?thesis using True 3 by simp
    next
      case (Cons a as')
      then obtain b bs' where b: "bs = b # bs'" "same_but_text a b" "list_all2 same_but_text as' bs'"
        using 3 by (auto simp: list_all2_Cons1)
      have pr: "c = CHR ''%''" "takes_arg d" "d \<noteq> CHR ''%''" using True by auto
      have q: "query_text esc (c # d # r) (x # xs) =
          (case sql_piece esc d x of None \<Rightarrow> None | Some t \<Rightarrow> map_option ((@) t) (query_text esc r xs))" for x xs
        using pr by simp
      show ?thesis
      proof (cases "\<exists>u. a = ArgQuoted u")
        case True
        then obtain u v where uv: "a = ArgQuoted u" "b = ArgQuoted v" using b(2) by (auto simp: same_but_text_def)
        then have st: "st = Inside APOS \<or> st = Inside DQUOTE" "quoted_args st r as'" using "3.prems"(2) pr Cons by auto
        show ?thesis
        proof (cases "d = CHR ''q''")
          case d: True
          obtain t1 t2 where t: "sql_piece esc d a = Some t1" "skeleton st t1 = []" "foldl lex_next st t1 = st"
              "sql_piece esc d b = Some t2" "skeleton st t2 = []" "foldl lex_next st t2 = st"
            using quoted_piece [where esc = esc and s = u, OF "3.prems"(1) st(1)] quoted_piece [where esc = esc and s = v, OF "3.prems"(1) st(1)] uv d by blast
          have "map_option (skeleton st) (query_text esc r as') = map_option (skeleton st) (query_text esc r bs')"
            by (rule "3.IH"(4) [OF _ _ _ Cons t(1) "3.prems"(1) st(2) b(3)]) (use pr in simp_all)
          then show ?thesis unfolding Cons b(1) q t(1) t(4) option.case by (intro app) (simp_all only: t)
        next
          case False
          then show ?thesis unfolding Cons b(1) q by (simp add: uv sql_piece_def)
        qed
      next
        case False
        then have ab: "b = a" "sql_piece esc d a = sql_piece (\<lambda>x. x) d a"
          using b(2) by (auto simp: same_but_text_def sql_piece_def split: sql_arg.splits)
        show ?thesis
        proof (cases "sql_piece esc d a")
          case None
          then show ?thesis unfolding Cons b(1) q using ab by simp
        next
          case (Some t)
          then have inner: "quoted_args (foldl lex_next st t) r as'" using "3.prems"(2) pr Cons ab False by (auto split: sql_arg.splits)
          have "map_option (skeleton (foldl lex_next st t)) (query_text esc r as') =
              map_option (skeleton (foldl lex_next st t)) (query_text esc r bs')"
            by (rule "3.IH"(4) [OF _ _ _ Cons Some "3.prems"(1) _ b(3)]) (use pr inner in simp_all)
          then show ?thesis unfolding Cons b(1) q ab(1) Some option.case by (intro app) simp_all
        qed
      qed
    qed
  qed
qed auto


text \<open>An escaping function as documented, and the query that looks up a user.\<close>

definition sample_escape :: "string \<Rightarrow> string" where
  "sample_escape s =
     concat (map (\<lambda>c. if c = NUL then [BACKSLASH, CHR ''0''] else if c = NL then [BACKSLASH, CHR ''n'']
        else if c = CR then [BACKSLASH, CHR ''r''] else if c = CHR 0x1A then [BACKSLASH, CHR ''Z'']
        else if c \<in> {BACKSLASH, APOS, DQUOTE} then [BACKSLASH, c] else [c]) s)"

lemma escaped_cons: "c \<notin> {NUL, BACKSLASH, APOS, DQUOTE} \<Longrightarrow> escaped_text (c # t) = escaped_text t"
  by (cases t) auto

lemma sample_escape_ok: "escaped_text (sample_escape s)"
  by (induction s) (auto simp: sample_escape_def escaped_cons)

definition lookup_format :: string where
  "lookup_format = ''SELECT id FROM bm60_users WHERE email='%q' AND gesperrt!='delete' LIMIT 1''"


section \<open>Lost connections\<close>

definition only_sets :: "string list \<Rightarrow> bool" where
  "only_sets qs \<longleftrightarrow> set qs \<subseteq> {set_mode}"

lemma send_query_simps [simp]:
  "sent_queries (send_query q s) = sent_queries s @ [q]" "bTempClosed (send_query q s) = bTempClosed s"
  "db_handle (send_query q s) = db_handle s"
  by (simp_all add: send_query_def)

text \<open>
  What sending does when the reconnection only sends its own setting: the query itself is sent
  once, or twice when the first answer was that the connection is gone; it has succeeded only if
  the last answer was without an error.
\<close>

lemma try_query_sends:
  assumes "\<forall>s r t. reconnect s = Some (r, t) \<longrightarrow> (\<exists>qs. sent_queries t = sent_queries s @ qs \<and> only_sets qs)"
    and "try_query api reconnect q s = Some (r, t)"
  shows "(sent_queries t = sent_queries s @ [q] \<and> (r = Done () \<longrightarrow> my_query api (length (sent_queries s)) q = 0)) \<or>
    my_query api (length (sent_queries s)) q = CR_SERVER_GONE_ERROR \<and>
    (\<exists>qs. only_sets qs \<and>
       (sent_queries t = sent_queries s @ q # qs \<and> r \<noteq> Done () \<or>
        sent_queries t = sent_queries s @ q # qs @ [q] \<and>
        (r = Done () \<longrightarrow> my_query api (length (sent_queries t) - 1) q = 0)))"
  using assms(2) assms(1) [rule_format, of "send_query q s"]
  by (fastforce simp: try_query_def Let_def split: option.splits prod.splits db_result.splits if_splits)

lemma Connect_cases:
  obtains r t where "Connect (Suc k) api now s = Some (r, t)" "sent_queries t = sent_queries s"
  | s2 where "sent_queries s2 = sent_queries s"
      "Connect (Suc k) api now s = map_option (\<lambda>(_, t). (Done (), t)) (try_query api (Connect k api now) set_mode s2)"
proof -
  obtain err n where n: "connect_attempts MYSQL_MAX_CONNECTION_ATTEMPTS api (connects s) 0 = (err, n)" by fastforce
  let ?s = "s\<lparr>db_handle := True, connects := n, lastQuery := now, bTempClosed := False\<rparr>"
  show thesis
  proof (cases "my_init api \<and> err = 0")
    case True
    then have "Connect (Suc k) api now s = map_option (\<lambda>(_, t). (Done (), t)) (try_query api (Connect k api now) set_mode ?s)"
      using n by (simp add: Connect.simps(2) split: option.split)
    then show thesis by (rule that(2) [rotated]) simp
  next
    case False
    then show thesis using n by (cases "my_init api") (auto simp: Connect.simps(2) intro: that(1))
  qed
qed

lemma Connect_sends:
  "Connect k api now s = Some (r, t) \<Longrightarrow> \<exists>qs. sent_queries t = sent_queries s @ qs \<and> only_sets qs"
proof (induction k arbitrary: s r t)
  case (Suc k)
  show ?case
  proof (cases rule: Connect_cases [of k api now s])
    case (1 r' t')
    then show ?thesis using Suc.prems by (intro exI [of _ "[]"]) (simp add: only_sets_def)
  next
    case (2 s2)
    then obtain r2 where r2: "try_query api (Connect k api now) set_mode s2 = Some (r2, t)"
      using Suc.prems by (cases "try_query api (Connect k api now) set_mode s2") auto
    have "\<forall>s r t. Connect k api now s = Some (r, t) \<longrightarrow> (\<exists>qs. sent_queries t = sent_queries s @ qs \<and> only_sets qs)"
      using Suc.IH by blast
    from try_query_sends [OF this r2] show ?thesis unfolding 2(1)
    proof (elim disjE conjE exE, goal_cases)
      case 1
      then show ?thesis by (intro exI [of _ "[set_mode]"]) (simp add: only_sets_def)
    next
      case (2 qs)
      then show ?thesis by (intro exI [of _ "set_mode # qs"]) (simp add: only_sets_def)
    next
      case (3 qs)
      then show ?thesis by (intro exI [of _ "set_mode # qs @ [set_mode]"]) (simp add: only_sets_def)
    qed
  qed
qed simp

text \<open>
  However often the connection is lost: a query is sent once, or a second time after the answer
  that the server has gone, and never more often; before and between stands only the setting of
  the mode. \<open>Query\<close> returns without an exception only if the server has answered the last
  thing that was sent, the query, without an error.
\<close>

theorem Query_at_most_twice:
  assumes "query_text (my_escape api) fmt args = Some q" and "Query k api now fmt args s = Some (r, t)"
  shows "\<exists>a b. only_sets a \<and> only_sets b \<and>
    (sent_queries t = sent_queries s @ a \<and> r \<noteq> Done () \<or>
     sent_queries t = sent_queries s @ a @ [q] \<or>
     sent_queries t = sent_queries s @ a @ q # b \<and> r \<noteq> Done () \<or>
     sent_queries t = sent_queries s @ a @ q # b @ [q]) \<and>
    (r = Done () \<longrightarrow> my_query api (length (sent_queries t) - 1) q = 0)"
proof -
  have empty: "only_sets []" by (simp add: only_sets_def)
  let ?first = "if bTempClosed s \<or> \<not> db_handle s then Connect k api now s else Some (Done (), s)"
  obtain r1 s1 where first: "?first = Some (r1, s1)" using assms by (auto simp: Query_def split: option.splits if_splits)
  have "\<exists>a. sent_queries s1 = sent_queries s @ a \<and> only_sets a"
  proof (cases "bTempClosed s \<or> \<not> db_handle s")
    case True
    then show ?thesis using first Connect_sends by simp
  next
    case False
    then show ?thesis using first empty by simp
  qed
  then obtain a where a: "sent_queries s1 = sent_queries s @ a" "only_sets a" by blast
  show ?thesis
  proof (cases r1)
    case (Thrown c m)
    then have "r \<noteq> Done ()" "t = s1" using assms first by (auto simp: Query_def)
    then show ?thesis using a empty by blast
  next
    case (Done u)
    then have tq: "try_query api (Connect k api now) q (s1\<lparr>lastQuery := now\<rparr>) = Some (r, t)"
      using assms first by (simp add: Query_def)
    have re: "\<forall>s r t. Connect k api now s = Some (r, t) \<longrightarrow> (\<exists>qs. sent_queries t = sent_queries s @ qs \<and> only_sets qs)"
      using Connect_sends by blast
    from try_query_sends [OF re tq] show ?thesis
    proof (elim disjE conjE exE, goal_cases)
      case 1
      then show ?thesis using a empty by (intro exI [of _ a] exI [of _ "[]"]) auto
    next
      case (2 qs)
      then show ?thesis using a by (intro exI [of _ a] exI [of _ qs]) auto
    next
      case (3 qs)
      then show ?thesis using a by (intro exI [of _ a] exI [of _ qs]) auto
    qed
  qed
qed

section \<open>Does a query end?\<close>

lemma try_query_ends:
  assumes "my_query api (length (sent_queries s)) q = CR_SERVER_GONE_ERROR \<Longrightarrow> reconnect (send_query q s) \<noteq> None"
  shows "try_query api reconnect q s \<noteq> None"
  using assms by (auto simp: try_query_def Let_def split: db_result.splits)

lemma Connect_ends:
  assumes "\<And>n q. N \<le> n \<Longrightarrow> my_query api n q \<noteq> CR_SERVER_GONE_ERROR"
  shows "N \<le> length (sent_queries s) + k \<Longrightarrow> Connect (Suc k) api now s \<noteq> None"
proof (induction k arbitrary: s)
  case 0
  then have "try_query api reconnect set_mode s2 \<noteq> None" if "sent_queries s2 = sent_queries s" for s2 reconnect
    using that assms by (intro try_query_ends) simp
  then show ?case by (cases rule: Connect_cases [of 0 api now s]) auto
next
  case (Suc k)
  have "try_query api (Connect (Suc k) api now) set_mode s2 \<noteq> None" if "sent_queries s2 = sent_queries s" for s2
    using that Suc.prems by (intro try_query_ends Suc.IH) simp
  then show ?case by (cases rule: Connect_cases [of "Suc k" api now s]) auto
qed

text \<open>
  C36: a query ends if the server stops answering that the connection is gone: as deep as the number
  of such answers the calls of \<open>Connect\<close> and \<open>Query\<close> nest, and no deeper.
\<close>

theorem Query_ends:
  assumes "\<And>n x. N \<le> n \<Longrightarrow> my_query api n x \<noteq> CR_SERVER_GONE_ERROR"
    and "query_text (my_escape api) fmt args = Some q" and "N \<le> length (sent_queries s) + k"
  shows "Query (Suc k) api now fmt args s \<noteq> None"
proof -
  have c: "Connect (Suc k) api now u \<noteq> None" if "length (sent_queries s) \<le> length (sent_queries u)" for u
    using that assms(3) by (intro Connect_ends [OF assms(1)]) auto
  have t: "try_query api (Connect (Suc k) api now) q (u\<lparr>lastQuery := now\<rparr>) \<noteq> None"
    if "length (sent_queries s) \<le> length (sent_queries u)" for u
    using that by (intro try_query_ends c) simp
  have longer: "length (sent_queries s) \<le> length (sent_queries u)" if "Connect (Suc k) api now s = Some (r, u)" for r u
    using Connect_sends [OF that] by auto
  show ?thesis
    using c [of s] t longer unfolding Query_def assms(2) by (fastforce split: option.splits prod.splits db_result.splits)
qed

text \<open>
  A server that lets every client in and then answers every query with the error that the
  connection is gone makes \<open>Query\<close> and \<open>Connect\<close> call each other without end: no depth is enough.
\<close>

theorem Query_endless:
  assumes "\<And>n x. my_query api n x = CR_SERVER_GONE_ERROR" and "\<And>n. my_connect api n = 0" and "my_init api"
  shows "Query k api now fmt args s = None"
proof -
  have t: "try_query api reconnect q s = None" if "\<And>s. reconnect s = None" for reconnect q s
    using that assms(1) by (simp add: try_query_def CR_SERVER_GONE_ERROR_def)
  have "Connect k api now s = None" for k s
  proof (induction k arbitrary: s)
    case (Suc k)
    then show ?case using assms(2,3)
      by (simp add: Connect.simps(2) Let_def MYSQL_MAX_CONNECTION_ATTEMPTS_def ER_TOO_MANY_USER_CONNECTIONS_def eval_nat_numeral t)
  qed simp
  then show ?thesis using t by (auto simp: Query_def split: option.split)
qed

text \<open>A server that has closed an idle connection, and one that closes every connection.\<close>

definition idle_api :: mysql_api where
  "idle_api = \<lparr>my_init = True, my_connect = (\<lambda>_. 0), my_query = (\<lambda>n q. if n = 0 then CR_SERVER_GONE_ERROR else 0),
     my_error = (\<lambda>_. ''MySQL server has gone away''), my_escape = sample_escape\<rparr>"

definition closed_api :: mysql_api where
  "closed_api = idle_api\<lparr>my_query := \<lambda>n q. CR_SERVER_GONE_ERROR\<rparr>"

definition connected :: mysql_db where
  "connected = \<lparr>db_handle = True, bTempClosed = False, lastQuery = 0, connects = 1, sent_queries = []\<rparr>"

lemma Query_at_most_twice_witness:
  "\<exists>t. Query 3 idle_api 5 ''A'' [] connected = Some (Done (), t) \<and> sent_queries t = [''A'', set_mode, ''A''] \<and>
     my_query idle_api (length (sent_queries t) - 1) ''A'' = 0"
proof -
  have q: "query_text (my_escape idle_api) ''A'' [] = Some ''A''" by simp
  obtain t where t: "Query 3 idle_api 5 ''A'' [] connected = Some (Done (), t)" "sent_queries t = [''A'', set_mode, ''A'']"
    by (simp add: Query_def Connect.simps(2) connected_def try_query_def idle_api_def CR_SERVER_GONE_ERROR_def eval_nat_numeral send_query_def
        MYSQL_MAX_CONNECTION_ATTEMPTS_def ER_TOO_MANY_USER_CONNECTIONS_def)
  then show ?thesis using Query_at_most_twice [OF q t(1)] by blast
qed

lemma Query_ends_witness: "Query 2 idle_api 5 ''A'' [] connected \<noteq> None"
proof -
  have "Query (Suc 1) idle_api 5 ''A'' [] connected \<noteq> None"
    by (rule Query_ends [of 1 _ _ _ "''A''"]) (simp_all add: idle_api_def CR_SERVER_GONE_ERROR_def connected_def)
  then show ?thesis by (simp add: numeral_2_eq_2)
qed

lemma Query_endless_witness: "Query 100 closed_api 5 ''A'' [] connected = None"
  by (rule Query_endless) (simp_all add: closed_api_def idle_api_def)

end
