(* ===== verification/Startup.thy ===== *)
theory Startup
  imports Config Mysql
begin

text \<open>
  The start of the program (src/main.cpp): arguments, configuration, the change of group and user,
  the database, and the choice of the service; what an exception prints
  (src/core/exception.cpp); and the supervisor that starts the queue runner again
  (src/msgqueue-supervise/main.cpp).
\<close>

section \<open>Arguments\<close>

record modes =
  bPOP3 :: bool
  bIMAP :: bool
  bHelp :: bool
  bVersion :: bool
  bHTTP :: bool
  bSMTP :: bool
  bSubmission :: bool
  bMSGQueue :: bool
  bListPlugins :: bool
  bSSL :: bool
  bDumpConfig :: bool
  bDebug :: bool

definition no_modes :: modes where
  "no_modes = \<lparr>bPOP3 = False, bIMAP = False, bHelp = False, bVersion = False, bHTTP = False, bSMTP = False,
     bSubmission = False, bMSGQueue = False, bListPlugins = False, bSSL = False, bDumpConfig = False, bDebug = False\<rparr>"

definition take_arg :: "modes \<Rightarrow> string \<Rightarrow> modes" where
  "take_arg m a =
     (if a = ''--pop3'' then m\<lparr>bPOP3 := True\<rparr>
      else if a = ''--imap'' then m\<lparr>bIMAP := True\<rparr>
      else if a = ''--http'' then m\<lparr>bHTTP := True\<rparr>
      else if a = ''--smtp'' then m\<lparr>bSMTP := True\<rparr>
      else if a = ''--submission'' then m\<lparr>bSubmission := True\<rparr>
      else if a = ''--msgqueue'' then m\<lparr>bMSGQueue := True\<rparr>
      else if a = ''--list-plugins'' then m\<lparr>bListPlugins := True\<rparr>
      else if a = ''--help'' \<or> a = ''-h'' then m\<lparr>bHelp := True\<rparr>
      else if a = ''--version'' \<or> a = ''-v'' then m\<lparr>bVersion := True\<rparr>
      else if a = ''--ssl'' then m\<lparr>bSSL := True\<rparr>
      else if a = ''--dump-config'' then m\<lparr>bDumpConfig := True\<rparr>
      else if a = ''--debug'' then m\<lparr>bDebug := True\<rparr>
      else m)"

text \<open>The service for the modes: the first in this order; the flag is the immediate TLS handshake.\<close>

datatype service =
  Help | Serve_POP3 bool | Serve_IMAP bool | Serve_SMTP bool bool | Run_Queue | List_Plugins | Serve_HTTP | Dump_Config

definition service_of :: "modes \<Rightarrow> service" where
  "service_of m =
     (if bHelp m \<or> \<not> (bPOP3 m \<or> bHTTP m \<or> bSMTP m \<or> bMSGQueue m \<or> bListPlugins m \<or> bIMAP m \<or> bDumpConfig m) then Help
      else if bPOP3 m then Serve_POP3 (bSSL m)
      else if bIMAP m then Serve_IMAP (bSSL m)
      else if bSMTP m then Serve_SMTP (bSSL m) (bSubmission m)
      else if bMSGQueue m then Run_Queue
      else if bListPlugins m then List_Plugins
      else if bHTTP m then Serve_HTTP
      else Dump_Config)"

section \<open>Exceptions\<close>

text \<open>Part and text of an exception of the program.\<close>

type_synonym core_exception = "string \<times> string"

definition part_text :: "core_exception \<Rightarrow> string" where
  "part_text x = cstr (fst x) @ (if fst x = [] then [] else '': '') @ cstr (snd x)"

definition Output :: "core_exception \<Rightarrow> string" where
  "Output x = ''Error while running b1gMailServer:'' @ [NL, TAB] @ part_text x @ [NL, NL]"

definition SMTPOutput :: "bool \<Rightarrow> core_exception \<Rightarrow> string" where
  "SMTPOutput details x =
     ''421-The service encountered an internal error and is temporarily'' @ CRLF @
     ''421'' @ [if details then CHR ''-'' else CHR '' ''] @ ''unavailable.'' @ CRLF @
     (if details
      then ''421-Error details: '' @ cstr (fst x) @ [if fst x = [] then CHR '' '' else CHR '':''] @ CRLF @
           ''421 '' @ [TAB] @ cstr (snd x) @ CRLF
      else [])"

definition POP3Output :: "bool \<Rightarrow> core_exception \<Rightarrow> string" where
  "POP3Output details x =
     ''-ERR The service is temporarily unavailable.'' @ (if details then '' '' @ part_text x else []) @ CRLF"

definition IMAPOutput :: "bool \<Rightarrow> core_exception \<Rightarrow> string" where
  "IMAPOutput details x =
     ''* BYE The service is temporarily unavailable.'' @ (if details then '' '' @ part_text x else []) @ CRLF"

text \<open>What the entry point prints; details are for a peer on the same host and for debugging.\<close>

definition exception_output :: "modes \<Rightarrow> bool \<Rightarrow> core_exception \<Rightarrow> string" where
  "exception_output m local x =
     (let details = (bDebug m \<or> local)
      in if bSMTP m then SMTPOutput details x
         else if bPOP3 m then POP3Output details x
         else if bIMAP m then IMAPOutput details x
         else Output x)"

section \<open>The start\<close>

text \<open>What the start asks the system for: the accounts with their numbers, and whether a change is allowed.\<close>

record main_env =
  mn_config :: "string option"
  mn_chdir :: bool
  mn_group :: "string \<Rightarrow> int option"
  mn_user :: "string \<Rightarrow> int option"
  mn_setgid :: "int \<Rightarrow> bool"
  mn_setuid :: "int \<Rightarrow> bool"
  mn_api :: mysql_api
  mn_db :: config_db
  mn_now :: int
  mn_version :: string
  mn_features :: int
  mn_local :: bool

record process =
  gid :: int
  uid :: int
  cfg_items :: items
  db_link :: mysql_db
  db_status_updated :: bool

text \<open>How the start goes on: an exception, the end of the process by a signal, or further.\<close>

datatype 'a step = Throws core_exception | Aborts | Goes 'a

definition step_bind :: "'a step option \<Rightarrow> ('a \<Rightarrow> 'b step option) \<Rightarrow> 'b step option" where
  "step_bind x f =
     (case x of None \<Rightarrow> None | Some (Throws e) \<Rightarrow> Some (Throws e) | Some Aborts \<Rightarrow> Some Aborts | Some (Goes a) \<Rightarrow> f a)"

definition config_step :: "config_error + 'a \<Rightarrow> 'a step option" where
  "config_step r =
     Some (case r of
             Inr a \<Rightarrow> Goes a
           | Inl Missing_File \<Rightarrow> Throws (''Config'', ''Config file not found'')
           | Inl (Missing_Value k) \<Rightarrow> Throws (''Required configuration value not defined'', k)
           | Inl (Query_Failed t) \<Rightarrow> Throws (''MySQL'', t)
           | Inl (Null_Value k) \<Rightarrow> Aborts)"

text \<open>The change to a group or a user, if one is configured; a number that the process has needs no change.\<close>

definition switch_to :: "string \<Rightarrow> items \<Rightarrow> string \<Rightarrow> (string \<Rightarrow> int option) \<Rightarrow> (int \<Rightarrow> bool) \<Rightarrow> int \<Rightarrow> int step option" where
  "switch_to what m key lookup allowed cur =
     step_bind (config_step (Get m key)) (\<lambda>v.
       case v of
         None \<Rightarrow> Some (Goes cur)
       | Some name \<Rightarrow>
           (case lookup name of
              None \<Rightarrow> Some (Throws (what @ '' not found'', name))
            | Some n \<Rightarrow>
                Some (if cur = n then Goes n
                      else if allowed n then Goes n
                      else Throws (''Failed to switch '' @ map c_tolower what, name))))"

definition db_step :: "(unit db_result \<times> mysql_db) option \<Rightarrow> mysql_db step option" where
  "db_step r =
     (case r of None \<Rightarrow> None | Some (Thrown c t, _) \<Rightarrow> Some (Throws (c, t)) | Some (Done _, d) \<Rightarrow> Some (Goes d))"

definition no_link :: mysql_db where
  "no_link = \<lparr>db_handle = False, bTempClosed = True, lastQuery = 0, connects = 0, sent_queries = []\<rparr>"

definition status_format :: string where
  "status_format = ''UPDATE bm60_bms_prefs SET core_version='%q',core_features='%d'' @ [CHR 0x27]"

text \<open>The start up to the choice of the service, for a process with a group and a user.\<close>

definition start_up :: "nat \<Rightarrow> main_env \<Rightarrow> int \<Rightarrow> int \<Rightarrow> process step option" where
  "start_up k e g u =
     step_bind (config_step (new_config (mn_config e))) (\<lambda>m.
     step_bind (config_step (CheckRequiredValues m)) (\<lambda>_.
     step_bind (if mn_chdir e then Some (Goes ())
                else Some (Throws ([], ''Failed to chdir to /opt/b1gmailserver!''))) (\<lambda>_.
     step_bind (switch_to ''Group'' m ''group'' (mn_group e) (mn_setgid e) g) (\<lambda>g1.
     step_bind (switch_to ''User'' m ''user'' (mn_user e) (mn_setuid e) u) (\<lambda>u1.
     step_bind (db_step (Connect k (mn_api e) (mn_now e) no_link)) (\<lambda>d1.
     step_bind (db_step (Query k (mn_api e) (mn_now e) ''SET NAMES latin1'' [] d1)) (\<lambda>d2.
     step_bind (config_step (ReadDBConfig (mn_db e) m)) (\<lambda>m2.
     step_bind (config_step (CheckDBRequiredValues m2)) (\<lambda>_.
     step_bind (config_step (Get m2 ''core_version'')) (\<lambda>ver.
     step_bind (if ver \<noteq> Some (mn_version e) then Some (Goes True)
                else step_bind (config_step (Get m2 ''core_features'')) (\<lambda>f.
                       Some (Goes (atoi (case f of Some v \<Rightarrow> v | None \<Rightarrow> []) \<noteq> mn_features e)))) (\<lambda>upd.
     step_bind (if upd
                then db_step (Query k (mn_api e) (mn_now e) status_format [ArgQuoted (mn_version e), ArgInt (mn_features e)] d2)
                else Some (Goes d2)) (\<lambda>d3.
       Some (Goes \<lparr>gid = g1, uid = u1, cfg_items = m2, db_link = d3, db_status_updated = upd\<rparr>)))))))))))))"

text \<open>The entry point: the service that is started, or the output and exit code.\<close>

datatype start = Starts service process | Exits int string | Dies

definition main_start :: "nat \<Rightarrow> main_env \<Rightarrow> string list \<Rightarrow> int \<Rightarrow> int \<Rightarrow> start option" where
  "main_start k e args g u =
     (let m = foldl take_arg no_modes args
      in if bVersion m then Some (Exits 0 (''b1gMailServer '' @ mn_version e @ [NL]))
         else (case start_up k e g u of
                 None \<Rightarrow> None
               | Some (Throws x) \<Rightarrow> Some (Exits 1 (exception_output m (mn_local e) x))
               | Some Aborts \<Rightarrow> Some Dies
               | Some (Goes p) \<Rightarrow> Some (Starts (service_of m) p)))"

section \<open>The supervisor\<close>

text \<open>How a run of the queue runner ends, how long it took, and whether a stop was asked for meanwhile.\<close>

datatype child_end = WaitFailed | LaunchFailed | KilledBySIGINT | Ended

record child_run =
  cr_end :: child_end
  cr_seconds :: int
  cr_stop :: bool

record supervisor =
  sv_bStop :: bool
  FirstStart :: bool
  FirstStartSucceeded :: bool
  FailCounter :: nat

definition new_supervisor :: supervisor where
  "new_supervisor = \<lparr>sv_bStop = False, FirstStart = True, FirstStartSucceeded = False, FailCounter = 0\<rparr>"

text \<open>One run: the exit code, if the supervisor ends, or its state.\<close>

definition after_run :: "child_run \<Rightarrow> supervisor \<Rightarrow> int + supervisor" where
  "after_run r s =
     (case cr_end r of
        WaitFailed \<Rightarrow> Inl 1
      | LaunchFailed \<Rightarrow> Inl 1
      | KilledBySIGINT \<Rightarrow> Inl 0
      | Ended \<Rightarrow>
          (let s1 = (if cr_seconds r < 5 then s\<lparr>FailCounter := FailCounter s + 1\<rparr>
                     else s\<lparr>FirstStartSucceeded := FirstStartSucceeded s \<or> FirstStart s, FailCounter := 0\<rparr>);
               s2 = s1\<lparr>FirstStart := False, sv_bStop := cr_stop r\<rparr>
           in if 6 \<le> FailCounter s2 \<and> \<not> FirstStartSucceeded s2 then Inl 1 else Inr s2))"

text \<open>The loop over the runs to come: the exit code and the number of runs, or \<open>None\<close> if it still goes on.\<close>

fun supervise :: "child_run list \<Rightarrow> supervisor \<Rightarrow> (int \<times> nat) option" where
  "supervise rs s =
     (if sv_bStop s then Some (0, 0)
      else case rs of
             [] \<Rightarrow> None
           | r # rs' \<Rightarrow>
               (case after_run r s of
                  Inl c \<Rightarrow> Some (c, 1)
                | Inr s1 \<Rightarrow> map_option (\<lambda>(c, n). (c, n + 1)) (supervise rs' s1)))"

declare supervise.simps [simp del]

text \<open>Another supervisor keeps this one from starting: a process file with the number of a living process.\<close>

definition supervisor_main :: "string option \<Rightarrow> (int \<Rightarrow> bool) \<Rightarrow> child_run list \<Rightarrow> (int \<times> nat) option" where
  "supervisor_main pidfile alive rs =
     (case pidfile of
        None \<Rightarrow> supervise rs new_supervisor
      | Some t \<Rightarrow>
          (case scan_int t of
             None \<Rightarrow> supervise rs new_supervisor
           | Some (n, _) \<Rightarrow> if alive (to_int32 n) then Some (1, 0) else supervise rs new_supervisor))"

section \<open>Properties of the start\<close>

lemma step_bind_Goes: "step_bind x f = Some (Goes v) \<longleftrightarrow> (\<exists>a. x = Some (Goes a) \<and> f a = Some (Goes v))"
  by (auto simp: step_bind_def split: option.splits step.splits)

lemma config_step_Goes: "config_step r = Some (Goes v) \<longleftrightarrow> r = Inr v"
  by (auto simp: config_step_def split: sum.splits config_error.splits)

lemma db_step_Goes: "db_step r = Some (Goes d) \<longleftrightarrow> r = Some (Done (), d)"
  by (auto simp: db_step_def split: option.splits prod.splits db_result.splits)

lemma check_values_defined: "check_values m ks = Inr () \<Longrightarrow> k \<in> set ks \<Longrightarrow> m k \<noteq> None"
  by (induction m ks rule: check_values.induct) (auto simp: Get_def split: sum.splits option.splits if_splits)

definition switched :: "items \<Rightarrow> string \<Rightarrow> (string \<Rightarrow> int option) \<Rightarrow> int \<Rightarrow> int \<Rightarrow> bool" where
  "switched m key lookup old new \<longleftrightarrow>
     (case m key of None \<Rightarrow> new = old | Some name \<Rightarrow> lookup (cstr name) = Some new)"

lemma switch_to_switched: "switch_to what m key lookup allowed cur = Some (Goes n) \<Longrightarrow> switched m key lookup cur n"
  by (auto simp: switch_to_def step_bind_Goes config_step_Goes Get_def switched_def split: option.splits if_splits)

text \<open>
  C5: no service runs before all this: the configuration file was read and names the database; the
  process has the group and the user of the file, if it names one, and these were looked up and
  the change was not refused; the connection to the database stands; the configuration is that of
  the file completed from the database, with the values that the program insists on.
\<close>

theorem Main_starts_configured:
  assumes "main_start k e args g u = Some (Starts svc p)"
  shows "\<exists>m d. new_config (mn_config e) = Inr m \<and>
    (\<forall>x \<in> {''mysql_host'', ''mysql_user'', ''mysql_pass'', ''mysql_db''}. m x \<noteq> None) \<and>
    switched m ''group'' (mn_group e) g (gid p) \<and> switched m ''user'' (mn_user e) u (uid p) \<and>
    Connect k (mn_api e) (mn_now e) no_link = Some (Done (), d) \<and>
    ReadDBConfig (mn_db e) m = Inr (cfg_items p) \<and>
    (\<forall>x \<in> {''datafolder'', ''selffolder'', ''storein'', ''pop3greeting'', ''imapgreeting'', ''loglevel''}. cfg_items p x \<noteq> None) \<and>
    svc = service_of (foldl take_arg no_modes args)"
proof -
  have s: "start_up k e g u = Some (Goes p)" "svc = service_of (foldl take_arg no_modes args)"
    using assms by (auto simp: main_start_def Let_def split: if_splits option.splits step.splits)
  obtain m g1 u1 d1 m2 where 1: "new_config (mn_config e) = Inr m" "CheckRequiredValues m = Inr ()"
      "switch_to ''Group'' m ''group'' (mn_group e) (mn_setgid e) g = Some (Goes g1)"
      "switch_to ''User'' m ''user'' (mn_user e) (mn_setuid e) u = Some (Goes u1)"
      "Connect k (mn_api e) (mn_now e) no_link = Some (Done (), d1)"
      "ReadDBConfig (mn_db e) m = Inr m2" "CheckDBRequiredValues m2 = Inr ()"
      "gid p = g1" "uid p = u1" "cfg_items p = m2"
    using s(1) unfolding start_up_def step_bind_Goes config_step_Goes db_step_Goes by auto
  then show ?thesis
    using s(2) switch_to_switched [OF 1(3)] switch_to_switched [OF 1(4)]
      check_values_defined [OF 1(2) [unfolded CheckRequiredValues_def]]
      check_values_defined [OF 1(7) [unfolded CheckDBRequiredValues_def]] by simp
qed

text \<open>
  What a peer on another host reads when the program ends with an exception says nothing about
  the reason exactly in the SMTP, POP3 and IMAP modes without the debug switch. In the HTTP mode
  the text of the exception, that of the database for instance, goes to the client.
\<close>

theorem Exception_details_hidden:
  "(\<forall>x y. exception_output m False x = exception_output m False y) \<longleftrightarrow> \<not> bDebug m \<and> (bSMTP m \<or> bPOP3 m \<or> bIMAP m)"
proof (cases "\<not> bDebug m \<and> (bSMTP m \<or> bPOP3 m \<or> bIMAP m)")
  case True
  then show ?thesis
    by (auto simp: exception_output_def Let_def SMTPOutput_def POP3Output_def IMAPOutput_def)
next
  case False
  have "exception_output m False ([], ''a'') \<noteq> exception_output m False ([], ''b'')"
    using False by (auto simp: exception_output_def Let_def SMTPOutput_def POP3Output_def IMAPOutput_def Output_def part_text_def
        cstr_def)
  then show ?thesis using False by blast
qed

section \<open>Properties of the supervisor\<close>

lemma supervise_lasting:
  assumes "\<forall>r \<in> set rs. cr_end r = Ended \<and> \<not> cr_stop r" and "FirstStartSucceeded s" and "\<not> sv_bStop s"
  shows "supervise rs s = None"
  using assms
proof (induction rs arbitrary: s)
  case Nil
  then show ?case by (simp add: supervise.simps)
next
  case (Cons r rs)
  then have "\<exists>t. after_run r s = Inr t \<and> FirstStartSucceeded t \<and> \<not> sv_bStop t"
    by (cases "cr_seconds r < 5") (simp_all add: after_run_def Let_def)
  then obtain t where t: "after_run r s = Inr t" "FirstStartSucceeded t" "\<not> sv_bStop t" by blast
  then show ?case using Cons by (subst supervise.simps) simp
qed

text \<open>
  A queue runner that always ends by itself: if its first run takes five seconds or more it is
  started again for ever, however short the later runs are; and if the first six runs all take
  less, the supervisor gives up with exit code 1 after exactly these six.
\<close>

theorem Supervise_policy:
  assumes "\<forall>r \<in> set rs. cr_end r = Ended \<and> \<not> cr_stop r" and "rs \<noteq> []"
  shows "(5 \<le> cr_seconds (hd rs) \<longrightarrow> supervise rs new_supervisor = None) \<and>
    (6 \<le> length rs \<longrightarrow> (\<forall>r \<in> set (take 6 rs). cr_seconds r < 5) \<longrightarrow> supervise rs new_supervisor = Some (1, 6))"
proof (intro conjI impI)
  obtain r rs' where rs: "rs = r # rs'" using assms(2) by (cases rs) auto
  assume "5 \<le> cr_seconds (hd rs)"
  then have "\<exists>t. after_run r new_supervisor = Inr t \<and> FirstStartSucceeded t \<and> \<not> sv_bStop t"
    using assms(1) rs by (simp add: after_run_def new_supervisor_def)
  then obtain t where t: "after_run r new_supervisor = Inr t" "FirstStartSucceeded t" "\<not> sv_bStop t" by blast
  have "supervise rs' t = None" by (rule supervise_lasting) (use assms(1) rs t in simp_all)
  then show "supervise rs new_supervisor = None" using t rs
    by (subst supervise.simps) (simp add: new_supervisor_def)
next
  assume six: "6 \<le> length rs" and quick: "\<forall>r \<in> set (take 6 rs). cr_seconds r < 5"
  have "Suc (Suc (Suc (Suc (Suc (Suc 0))))) \<le> length rs" using six by simp
  then obtain a b c d f g xs where xs: "rs = a # b # c # d # f # g # xs"
    unfolding Suc_le_length_iff by (elim exE conjE) simp
  have step: "supervise (x # ys) (new_supervisor\<lparr>FirstStart := fs, FailCounter := n\<rparr>) =
      (if 5 \<le> n then Some (1, 1)
       else map_option (\<lambda>(c, n). (c, n + 1)) (supervise ys (new_supervisor\<lparr>FirstStart := False, FailCounter := n + 1\<rparr>)))"
    if "cr_seconds x < 5" "cr_end x = Ended" "\<not> cr_stop x" for x ys fs n
  proof -
    have "after_run x (new_supervisor\<lparr>FirstStart := fs, FailCounter := n\<rparr>) =
        (if 5 \<le> n then Inl 1 else Inr (new_supervisor\<lparr>FirstStart := False, FailCounter := n + 1\<rparr>))"
      using that by (simp add: after_run_def new_supervisor_def)
    moreover have "\<not> sv_bStop (new_supervisor\<lparr>FirstStart := fs, FailCounter := n\<rparr>)" by (simp add: new_supervisor_def)
    ultimately show ?thesis by (subst supervise.simps) simp
  qed
  have "set (take 6 rs) = {a, b, c, d, f, g}" unfolding xs by (simp add: numeral_eq_Suc)
  moreover have "{a, b, c, d, f, g} \<subseteq> set rs" unfolding xs by auto
  ultimately have each: "cr_seconds x < 5" "cr_end x = Ended" "\<not> cr_stop x" if "x \<in> {a, b, c, d, f, g}" for x
    using quick assms(1) that by blast+
  have r5: "supervise (g # xs) (new_supervisor\<lparr>FirstStart := False, FailCounter := 5\<rparr>) = Some (1, 1)"
    by (subst step [OF each]) (simp_all)
  have r4: "supervise (f # g # xs) (new_supervisor\<lparr>FirstStart := False, FailCounter := 4\<rparr>) = Some (1, 2)"
    by (subst step [OF each]) (simp_all add: r5)
  have r3: "supervise (d # f # g # xs) (new_supervisor\<lparr>FirstStart := False, FailCounter := 3\<rparr>) = Some (1, 3)"
    by (subst step [OF each]) (simp_all add: r4)
  have r2: "supervise (c # d # f # g # xs) (new_supervisor\<lparr>FirstStart := False, FailCounter := 2\<rparr>) = Some (1, 4)"
    by (subst step [OF each]) (simp_all add: r3)
  have r1: "supervise (b # c # d # f # g # xs) (new_supervisor\<lparr>FirstStart := False, FailCounter := 1\<rparr>) = Some (1, 5)"
    by (subst step [OF each]) (simp_all add: r2 [unfolded numeral_2_eq_2])
  have r0: "supervise (a # b # c # d # f # g # xs) (new_supervisor\<lparr>FirstStart := True, FailCounter := 0\<rparr>) = Some (1, 6)"
    by (subst step [OF each]) (simp_all add: r1 [unfolded One_nat_def])
  moreover have "new_supervisor\<lparr>FirstStart := True, FailCounter := 0\<rparr> = new_supervisor" by (simp add: new_supervisor_def)
  ultimately show "supervise rs new_supervisor = Some (1, 6)" using r0 xs by simp
qed

text \<open>A start that succeeds, and a runner that fails at once.\<close>

definition quick_run :: child_run where
  "quick_run = \<lparr>cr_end = Ended, cr_seconds = 1, cr_stop = False\<rparr>"

lemma Supervise_policy_witness: "supervise (replicate 9 quick_run) new_supervisor = Some (1, 6)"
  using Supervise_policy [of "replicate 9 quick_run"] by (simp add: quick_run_def)

definition start_env :: main_env where
  "start_env =
     \<lparr>mn_config = Some (concat (map setting_line [(''mysql_host'', ''h''), (''mysql_user'', ''u''), (''mysql_pass'', ''p''),
        (''mysql_db'', ''d''), (''user'', ''mail'')])),
      mn_chdir = True, mn_group = (\<lambda>_. None), mn_user = (\<lambda>n. if n = ''mail'' then Some 8 else None),
      mn_setgid = (\<lambda>_. True), mn_setuid = (\<lambda>n. n = 8), mn_api = idle_api\<lparr>my_query := \<lambda>n q. 0\<rparr>, mn_db = full_db, mn_now = 5,
      mn_version = ''2.8'', mn_features = 0, mn_local = False\<rparr>"

lemma start_config: "new_config (mn_config start_env) =
    Inr (map_of (rev [(''mysql_host'', ''h''), (''mysql_user'', ''u''), (''mysql_pass'', ''p''), (''mysql_db'', ''d''), (''user'', ''mail'')]))"
proof -
  have "\<forall>kv \<in> set [(''mysql_host'', ''h''), (''mysql_user'', ''u''), (''mysql_pass'', ''p''), (''mysql_db'', ''d''), (''user'', ''mail'')].
      plain_setting kv" by (simp add: plain_setting_def trimmed_def setting_line_def)
  from Config_read [OF this] show ?thesis by (simp add: start_env_def)
qed

lemma start_db: "\<exists>t. ReadDBConfig full_db m = Inr t \<and> (\<forall>k \<in> set (prefs_columns @ bms_prefs_columns). t k = Some ''7'')"
proof -
  obtain m1 where m1: "store_row prefs_columns (\<lambda>c. Some ''7'') m = Inr m1" using store_row_total by blast
  obtain m2 where m2: "store_row bms_prefs_columns (\<lambda>c. Some ''7'') m1 = Inr m2" using store_row_total by blast
  obtain t where t: "ReadDBConfig full_db m = Inr t"
    by (simp add: ReadDBConfig_def read_prefs_def has_field_def full_db_def bind_config_def m1 m2 subset_iff)
  have "t k = Some ''7''" if "k \<in> set (prefs_columns @ bms_prefs_columns)" for k
  proof -
    have "k \<notin> set flag_keys" "k \<notin> set blob_columns"
      using that unfolding prefs_columns_def bms_prefs_columns_def flag_keys_def blob_columns_def by auto
    then show ?thesis
      using Config_exact [OF t, of "\<lambda>c. Some ''7''" "[]" "\<lambda>c. Some ''7''" "[]" k] that by (auto simp: full_db_def)
  qed
  then show ?thesis using t by blast
qed

lemma Main_starts_configured_witness:
  "\<exists>p. main_start 1 start_env [''--smtp'', ''--ssl''] 0 0 = Some (Starts (Serve_SMTP True False) p) \<and> uid p = 8 \<and> gid p = 0"
proof -
  let ?m = "map_of (rev [(''mysql_host'', ''h''), (''mysql_user'', ''u''), (''mysql_pass'', ''p''), (''mysql_db'', ''d''), (''user'', ''mail'')])"
  obtain t where t: "ReadDBConfig full_db ?m = Inr t" "\<forall>k \<in> set (prefs_columns @ bms_prefs_columns). t k = Some ''7''"
    using start_db by blast
  have keys: "t ''datafolder'' = Some ''7''" "t ''selffolder'' = Some ''7''" "t ''storein'' = Some ''7''" "t ''pop3greeting'' = Some ''7''"
    "t ''imapgreeting'' = Some ''7''" "t ''loglevel'' = Some ''7''" "t ''core_version'' = Some ''7''"
    by (rule t(2) [rule_format], simp add: prefs_columns_def bms_prefs_columns_def)+
  have link: "my_query (mn_api start_env) n q = 0" "my_connect (mn_api start_env) n = 0" "my_init (mn_api start_env)"
    "my_escape (mn_api start_env) = sample_escape" for n q
    by (simp_all add: start_env_def idle_api_def)
  have attempts: "connect_attempts MYSQL_MAX_CONNECTION_ATTEMPTS (mn_api start_env) n 0 = (0, n + 1)" for n
    by (simp add: MYSQL_MAX_CONNECTION_ATTEMPTS_def eval_nat_numeral link ER_TOO_MANY_USER_CONNECTIONS_def)
  have sends: "try_query (mn_api start_env) re q s = Some (Done (), send_query q s)" for re q s
    by (simp add: try_query_def link)
  obtain d1 where d1: "Connect 1 (mn_api start_env) (mn_now start_env) no_link = Some (Done (), d1)" "\<not> bTempClosed d1" "db_handle d1"
    using Connect.simps(2) [of 0 "mn_api start_env" "mn_now start_env" no_link] by (simp add: link attempts sends no_link_def)
  have query: "\<exists>d'. Query 1 (mn_api start_env) (mn_now start_env) fmt as d = Some (Done (), d') \<and> \<not> bTempClosed d' \<and> db_handle d'"
    if "query_text sample_escape fmt as = Some q" "\<not> bTempClosed d" "db_handle d" for fmt as q d
    using that by (simp add: Query_def link sends)
  have built: "\<exists>q. query_text sample_escape ''SET NAMES latin1'' [] = Some q"
    "\<exists>q. query_text sample_escape status_format [ArgQuoted v, ArgInt n] = Some q" for v n
    by (simp_all add: status_format_def sql_piece_def takes_arg_def)
  obtain d2 where d2: "Query 1 (mn_api start_env) (mn_now start_env) ''SET NAMES latin1'' [] d1 = Some (Done (), d2)"
      "\<not> bTempClosed d2" "db_handle d2" using query built(1) d1 by blast
  obtain d3 where d3: "Query 1 (mn_api start_env) (mn_now start_env) status_format
      [ArgQuoted (mn_version start_env), ArgInt (mn_features start_env)] d2 = Some (Done (), d3)" using query built(2) d2 by blast
  have env: "mn_chdir start_env" "mn_db start_env = full_db" "mn_group start_env n = None" "mn_user start_env ''mail'' = Some 8"
    "mn_setuid start_env 8" "mn_version start_env = ''2.8''" for n by (simp_all add: start_env_def)
  define m where "m = ?m"
  have t': "ReadDBConfig full_db m = Inr t" using t(1) by (simp only: m_def)
  have conf: "new_config (mn_config start_env) = Inr m" by (simp only: start_config m_def)
  have req: "CheckRequiredValues m = Inr ()" by (simp add: CheckRequiredValues_def Get_def m_def)
  have grp: "switch_to ''Group'' m ''group'' (mn_group start_env) (mn_setgid start_env) 0 = Some (Goes 0)"
    by (simp add: switch_to_def Get_def m_def step_bind_def config_step_def optional_keys_def)
  have usr: "switch_to ''User'' m ''user'' (mn_user start_env) (mn_setuid start_env) 0 = Some (Goes 8)"
    by (simp add: switch_to_def Get_def m_def step_bind_def config_step_def cstr_def env)
  have dbreq: "CheckDBRequiredValues t = Inr ()" by (simp add: CheckDBRequiredValues_def Get_def keys)
  have ver: "Get t ''core_version'' = Inr (Some ''7'')" by (simp add: Get_def keys cstr_def)
  have "start_up 1 start_env 0 0 = Some (Goes \<lparr>gid = 0, uid = 8, cfg_items = t, db_link = d3, db_status_updated = True\<rparr>)"
    unfolding start_up_def conf
    by (simp add: step_bind_def config_step_def db_step_def req grp usr d1(1) d2(1) d3 [unfolded env] t' dbreq ver env del: One_nat_def)
  then have s: "main_start 1 start_env [''--smtp'', ''--ssl''] 0 0 =
      Some (Starts (Serve_SMTP True False) \<lparr>gid = 0, uid = 8, cfg_items = t, db_link = d3, db_status_updated = True\<rparr>)"
    by (simp add: main_start_def take_arg_def no_modes_def service_of_def)
  from Main_starts_configured [OF s] show ?thesis using s by fastforce
qed

end
