(* ===== verification/Spec2Isabelle.thy ===== *)
theory Spec2Isabelle
  imports Limits BlobStorage Pop3_Correct Pop3_Transfer Worker_Correct Spf_Correct Dns_Correct Imap_Answers Imap_Expunge
    Smtp_Milter Http_Correct Sendmail_Correct Startup
begin

text \<open>
  A model of b1gMailServer, the mail server of the b1gMail web mail system, with the theorems
  about it. All paths below are under src/src/.

  The program and its parts. One binary (main.cpp) serves one connection of one protocol on its
  standard input and output and ends with it: POP3 (pop3/), IMAP (imap/), SMTP and submission
  (smtp/), web disks over HTTP (http/). A super server starts it for every connection, with
  \<open>--ssl\<close> for a handshake at once. The same binary with \<open>--msgqueue\<close> is the queue runner
  (msgqueue/), of which there is one; a supervisor (msgqueue-supervise/) starts it again. All
  processes meet in the tables of a MySQL database that the PHP front end uses too (core/mysql_db.cpp),
  and in the file system: message texts in the blob storage (core/blobstorage.cpp), queue files in
  the queue directory. The SMTP server checks a peer (smtp/smtp_peer.cpp, greylisting), asks SPF
  (smtp/spf.cpp) and through it the resolver (core/dns.cpp), runs content filters (smtp/milter.cpp)
  and puts messages into the queue (msgqueue/enqueue.cpp). The runner takes due messages, its worker
  threads (core/threadpool.cpp) deliver them: to an account through a PHP process, or to another
  server by the SMTP client (msgqueue/smtpsession.cpp) or a sendmail program. A control channel
  (msgqueue/control.cpp) flushes, clears and deletes. The sendmail replacement (sendmail/) is a
  separate program that hands a local message to the SMTP server.

  The theories and what they model.

  Foundations. Prelude: C strings, \<open>sscanf\<close>, \<open>fgets\<close>, numbers, lists. UtilsStrings, UtilsBase64,
  UtilsNet: the string, base64 and address routines of core/utils.cpp.
  Database: the tables as lists of rows (record \<open>world\<close>), the environment (record \<open>env\<close>) and the
  operations of core/utils.cpp on them. Limits: the sending limit. BlobStorage:
  core/blobstorage.cpp. Session: a connection (record \<open>session\<close>: input in the clear and through
  TLS, what was printed, flags) with the wrappers \<open>my_fgets\<close> and \<open>my_printf\<close> of io.cpp and the
  loop that all line based servers share. Socket: the client socket of core/socket.cpp.

  Start. Mysql: core/mysql_db.cpp. Config: core/config.cpp. Startup: main.cpp, core/exception.cpp,
  msgqueue-supervise/main.cpp.

  SMTP. SmtpPeer, Smtp, Smtp_Data: smtp_peer.cpp, smtp.cpp and smtp_auth.cpp, smtp_data.cpp; record
  \<open>smtp\<close> has the members of class SMTP. Spf: spf.cpp. Dns: the Unix half of core/dns.cpp. Milter:
  milter.cpp; Smtp_Milter puts it in the place of the parameter of Smtp_Data. Enqueue: enqueue.cpp.

  Queue. MsgQueue: the runner and bounces (msgqueue.cpp, bounce.cpp). Delivery and Worker: rules,
  outbound and inbound delivery, child processes. SmtpClient: smtpsession.cpp, smtpsessionpool.cpp.
  ThreadPool: core/threadpool.cpp. Control: control.cpp. MsgQueue_Steps is the step relation of the
  runner together with everybody else who works on the queue table.

  Mail access. Pop3: pop3.cpp. ImapState, ImapText: imap.h and imaphelper.cpp. ImapMail: mail.cpp
  and mailparser.cpp. Imap, Imap_Selected, Imap_Search, Imap_Fetch, Imap_Run: nonauth.cpp, tls.cpp,
  auth.cpp, selected.cpp, imap.cpp. Http: http.cpp. Sendmail: the programs under sendmail/.

  How the code is translated. A class is a record of its members, a method a function from the old
  to the new record; a handler of the servers takes the environment and the session and returns the
  session, with a flag where the C code returns whether to go on. An SQL statement is the operation
  on the rows that it means, NULL an option; a statement's text appears where it is built from
  parts (folder conditions, the format of a query). Integers of the C code are \<open>int\<close> with
  \<open>to_int32\<close> where a value is stored in an \<open>int\<close>, bytes are \<open>8 word\<close> in the base64 and network
  code. Strings are lists of bytes, \<open>cstr\<close> is what a C string shows of them. Exceptions are
  values of sum types; an access outside of a buffer is recorded in a flag (\<open>bufferOverrun\<close>,
  \<open>overread\<close>) or is the value \<open>None\<close>.

  What the lemmas show. Each theory whose name ends in \<open>_Correct\<close> and the theories beside it hold
  the properties.
  SMTP: in every reachable state outsiders reach only local recipients and only a password
  authenticates (Smtp_Correct, Smtp_Message); the queue grows only by what the session may send, all
  recipients of a message or none (Smtp_Queue); filters keep that, and their verdict is one they
  have sent (Milter_Correct, Smtp_Milter). Between two servers of this program a message keeps its
  lines (SmtpClient_Correct).
  SPF and DNS: every check ends after a bounded number of questions, \<open>Pass\<close> needs a mechanism that
  gives it, MX and PTR answers are read within their buffer.
  Queue: no message is in two hands, none disappears without a reason, the coded worker refines the
  step (MsgQueue_Safe, MsgQueue_Correct, Worker_Correct); the pool refines a queue.
  POP3 and IMAP: who may log in, that mails of others stay as they are, that exactly the marked
  messages are deleted, the invariants of a session; every IMAP line is answered (Imap_Answers), and
  the reports of changes take a client's view, an abstract specification in Imap_View, to the new
  message list.
  HTTP: one answer for every connection, a file of the right account or an error page. Start: no
  service without configuration, change of user and database; no argument changes the statement of
  a query. Sendmail: Bcc fields do not leave, success means that all was sent.
  Several theorems state what the code does although it means something else; the list of findings
  that accompanies the development names them.

  Interfaces. Locale \<open>line_server\<close> (Session) is the contract of a server loop: reading consumes
  input, a handler keeps an invariant; its lemmas give the end of the loop and the invariant of
  reachable states. It is interpreted for POP3, SMTP (with its invariant and without one),
  IMAP and HTTP. \<open>blob_store\<close> (BlobStorage) is a map from keys to contents, interpreted for both
  providers. \<open>job_pool\<close> (ThreadPool) is the queue of jobs, \<open>send_limit\<close> (Limits) the sliding window.

  Fuel and bounds. The server loop gets one more round than there are bytes to read (\<open>Suc (todo s)\<close>);
  every round consumes one, so it suffices. SPF recursion gets 22 levels, which Spf_Correct proves
  enough for the limits of the code. The walk of IMAP folders gets one step more than there are
  rows. The mail parser and \<open>Connect\<close> of the database client recurse as deep as their input makes
  them; \<open>None\<close> is a recursion that goes deeper than the given number, and the theorems say when
  a number is enough. All other loops are functions with a proof of termination.

  Not modelled, and why. The Windows halves (inetserver/, win32 branches, Windows service and
  resolver) and the setup programs: other platforms and installers. SQLite (sqlite3/) and MD5:
  vendored code; what is asked of them is a parameter or a table. The wrapper of SQLite, TLS
  handshakes and certificate checks, name lookup and connecting: calls of libraries without logic
  of the server's own. Plugins (plugin/, pluginsdk/): shared objects; what they answer to the hooks
  is a parameter. The push dispatcher of the control channel, the statistics of traffic, log
  entries, signals (a timeout is an end of input), process files. \<open>ServiceSession\<close>: used by no
  server. \<open>FetchMessageCount\<close> and \<open>PrintLiteralString\<close> of the IMAP helper: not called.
\<close>

end
